(* ===== verification/K3_Prelude.thy ===== *)
theory K3_Prelude
  imports Main "HOL-Library.Word" "HOL-Library.AList" "HOL-Library.Sublist"
begin

text \<open>
  The vocabulary every other theory of the development shares: the machine integers of the Rust
  sources as words, big-endian and native byte conversions, the part of the string API the sources
  use (prefix tests, splitting, decimal numbers, dotted IPv4 addresses), fallible results, and hash
  maps as association lists with distinct keys. Each group of definitions is followed by the lemmas
  the component theories use, collected in the named collections declared here.
\<close>

unbundle bit_operations_syntax

named_theorems byte_simps \<open>byte order conversions and their inverses\<close>
named_theorems str_simps \<open>prefix tests, splitting and number printing\<close>
named_theorems hmap_simps \<open>lookup after insert, remove and retain\<close>

section \<open>Machine integers\<close>

type_synonym u8 = "8 word"
type_synonym u16 = "16 word"
type_synonym u32 = "32 word"
type_synonym u64 = "64 word"
type_synonym bytes = "u8 list"

text \<open>
  \<open>to_be_bytes\<close> and \<open>from_be_bytes\<close> of \<open>u16\<close> and \<open>u32\<close>. A byte list of another length cannot be
  passed to \<open>from_be_bytes\<close> in the source (its argument is an array); the model answers 0 there.
\<close>

definition u16_to_be_bytes :: "u16 \<Rightarrow> bytes" where
  "u16_to_be_bytes x = [ucast (drop_bit 8 x), ucast x]"

definition u32_to_be_bytes :: "u32 \<Rightarrow> bytes" where
  "u32_to_be_bytes x =
     [ucast (drop_bit 24 x), ucast (drop_bit 16 x), ucast (drop_bit 8 x), ucast x]"

fun u16_from_be_bytes :: "bytes \<Rightarrow> u16" where
  "u16_from_be_bytes [a, b] = push_bit 8 (ucast a) OR ucast b"
| "u16_from_be_bytes _ = 0"

fun u32_from_be_bytes :: "bytes \<Rightarrow> u32" where
  "u32_from_be_bytes [a, b, c, d] =
     push_bit 24 (ucast a) OR push_bit 16 (ucast b) OR push_bit 8 (ucast c) OR ucast d"
| "u32_from_be_bytes _ = 0"

lemma length_u16_to_be_bytes [simp]: "length (u16_to_be_bytes x) = 2"
  by (simp add: u16_to_be_bytes_def)

lemma length_u32_to_be_bytes [simp]: "length (u32_to_be_bytes x) = 4"
  by (simp add: u32_to_be_bytes_def)

lemma u16_from_to_be [simp, byte_simps]: "u16_from_be_bytes (u16_to_be_bytes x) = x"
  unfolding u16_to_be_bytes_def
  by (simp, rule bit_word_eqI) (auto simp: bit_simps)

lemma u32_from_to_be [simp, byte_simps]: "u32_from_be_bytes (u32_to_be_bytes x) = x"
proof (rule bit_word_eqI)
  fix n assume "n < LENGTH(32)"
  then show "bit (u32_from_be_bytes (u32_to_be_bytes x)) n \<longleftrightarrow> bit x n"
    by (cases "n < 8"; cases "n < 16"; cases "n < 24") (auto simp: u32_to_be_bytes_def bit_simps)
qed

lemma byte_bit_high [simp]: "\<not> bit (b :: u8) (8 + n)" "\<not> bit (b :: u8) (16 + n)" "\<not> bit (b :: u8) (24 + n)"
  by (auto dest: bit_imp_le_length)

lemma length_2_conv: "length xs = 2 \<longleftrightarrow> (\<exists>a b. xs = [a, b])"
  by (cases xs; cases "tl xs") auto

lemma length_4_conv: "length xs = 4 \<longleftrightarrow> (\<exists>a b c d. xs = [a, b, c, d])"
  by (auto simp: length_Suc_conv eval_nat_numeral)

lemma u16_to_from_be [byte_simps]:
  "length bs = 2 \<Longrightarrow> u16_to_be_bytes (u16_from_be_bytes bs) = bs"
  by (auto simp: length_2_conv u16_to_be_bytes_def bit_simps intro!: bit_word_eqI)

lemma u32_to_from_be [byte_simps]:
  "length bs = 4 \<Longrightarrow> u32_to_be_bytes (u32_from_be_bytes bs) = bs"
  by (auto simp: length_4_conv u32_to_be_bytes_def bit_simps intro!: bit_word_eqI
      dest: bit_imp_le_length)

lemma u32_to_be_inject [simp]: "u32_to_be_bytes x = u32_to_be_bytes y \<longleftrightarrow> x = y"
  by (metis u32_from_to_be)

lemma u16_to_be_inject [simp]: "u16_to_be_bytes x = u16_to_be_bytes y \<longleftrightarrow> x = y"
  by (metis u16_from_to_be)

declare u16_from_be_bytes.simps [simp del] u32_from_be_bytes.simps [simp del]

lemmas be_eval = u16_to_be_bytes_def u32_to_be_bytes_def u16_from_be_bytes.simps u32_from_be_bytes.simps

section \<open>Fallible results\<close>

text \<open>
  \<open>anyhow::Result\<close>: \<open>Inl\<close> carries the error. The error of a failing library call is opaque to the
  sources, which only wrap it in a message; \<open>Err\<close> keeps the fixed part of that message.
\<close>

datatype error = Err string

type_synonym 'a result = "error + 'a"

definition bindR :: "'a result \<Rightarrow> ('a \<Rightarrow> 'b result) \<Rightarrow> 'b result" where
  "bindR r f = (case r of Inl e \<Rightarrow> Inl e | Inr x \<Rightarrow> f x)"

definition ensure :: "bool \<Rightarrow> string \<Rightarrow> unit result" where
  "ensure b msg = (if b then Inr () else Inl (Err msg))"

definition ok_or :: "'a option \<Rightarrow> string \<Rightarrow> 'a result" where
  "ok_or x msg = (case x of None \<Rightarrow> Inl (Err msg) | Some y \<Rightarrow> Inr y)"

definition ok :: "'a result \<Rightarrow> 'a option" where
  "ok r = (case r of Inl _ \<Rightarrow> None | Inr x \<Rightarrow> Some x)"

lemma bindR_Inr [simp]: "bindR (Inr x) f = f x"
  by (simp add: bindR_def)

lemma bindR_Inl [simp]: "bindR (Inl e) f = Inl e"
  by (simp add: bindR_def)

lemma bindR_eq_Inr: "bindR r f = Inr y \<longleftrightarrow> (\<exists>x. r = Inr x \<and> f x = Inr y)"
  by (cases r) auto

lemma ensure_eq_Inr [simp]: "ensure b msg = Inr u \<longleftrightarrow> b"
  by (simp add: ensure_def)

lemma ensure_True [simp]: "ensure True msg = Inr ()"
  by (simp add: ensure_def)

lemma ensure_False [simp]: "ensure False msg = Inl (Err msg)"
  by (simp add: ensure_def)

lemma ok_or_eq_Inr [simp]: "ok_or x msg = Inr y \<longleftrightarrow> x = Some y"
  by (cases x) (auto simp: ok_or_def)

lemma ok_simps [simp]: "ok (Inr x) = Some x" "ok (Inl e) = None"
  by (simp_all add: ok_def)

lemma ok_eq_Some [simp]: "ok r = Some x \<longleftrightarrow> r = Inr x"
  by (cases r) auto

section \<open>Hash maps\<close>

text \<open>
  A Rust \<open>HashMap\<close> is an association list with distinct keys. Its iteration order is the order of
  the list, which nothing in the source fixes: theorems quantify over the list, hence over every
  order.
\<close>

type_synonym ('k, 'v) hmap = "('k \<times> 'v) list"

abbreviation hm_get :: "('k, 'v) hmap \<Rightarrow> 'k \<Rightarrow> 'v option" where
  "hm_get \<equiv> map_of"

abbreviation hm_insert :: "'k \<Rightarrow> 'v \<Rightarrow> ('k, 'v) hmap \<Rightarrow> ('k, 'v) hmap" where
  "hm_insert \<equiv> AList.update"

abbreviation hm_remove :: "'k \<Rightarrow> ('k, 'v) hmap \<Rightarrow> ('k, 'v) hmap" where
  "hm_remove \<equiv> AList.delete"

abbreviation hm_wf :: "('k, 'v) hmap \<Rightarrow> bool" where
  "hm_wf m \<equiv> distinct (map fst m)"

lemma hm_get_insert [hmap_simps]: "hm_get (hm_insert k v m) k' = (if k' = k then Some v else hm_get m k')"
  by (simp add: update_conv')

lemma hm_get_remove [hmap_simps]: "hm_get (hm_remove k m) k' = (if k' = k then None else hm_get m k')"
  by (simp add: delete_conv')

lemma hm_wf_insert [simp]: "hm_wf m \<Longrightarrow> hm_wf (hm_insert k v m)"
  by (rule distinct_update)

lemma hm_wf_remove [simp]: "hm_wf m \<Longrightarrow> hm_wf (hm_remove k m)"
  by (rule distinct_delete)

lemma map_of_filter_key:
  "map_of (filter (\<lambda>(k, v). P k) m) k' = (if P k' then map_of m k' else None)"
  by (induction m) auto

section \<open>Strings\<close>

definition starts_with :: "string \<Rightarrow> string \<Rightarrow> bool" where
  "starts_with s p \<longleftrightarrow> prefix p s"

definition ends_with :: "string \<Rightarrow> string \<Rightarrow> bool" where
  "ends_with s p \<longleftrightarrow> suffix p s"

definition strip_prefix :: "string \<Rightarrow> string \<Rightarrow> string option" where
  "strip_prefix s p = (if prefix p s then Some (drop (length p) s) else None)"

definition contains :: "string \<Rightarrow> string \<Rightarrow> bool" where
  "contains s pat \<longleftrightarrow> list_ex (prefix pat) (suffixes s)"

text \<open>\<open>str::split(c)\<close>: the pieces between separators; the empty string gives one empty piece.\<close>

fun split_on :: "char \<Rightarrow> string \<Rightarrow> string list" where
  "split_on c [] = [[]]"
| "split_on c (x # xs) =
     (if x = c then [] # split_on c xs
      else case split_on c xs of [] \<Rightarrow> [[x]] | p # ps \<Rightarrow> (x # p) # ps)"

text \<open>\<open>char::is_whitespace\<close> on ASCII, and \<open>str::trim\<close>.\<close>

definition is_whitespace :: "char \<Rightarrow> bool" where
  "is_whitespace c \<longleftrightarrow> c = CHR '' '' \<or> (9 \<le> (of_char c :: nat) \<and> (of_char c :: nat) \<le> 13)"

definition trim :: "string \<Rightarrow> string" where
  "trim s = rev (dropWhile is_whitespace (rev (dropWhile is_whitespace s)))"

text \<open>\<open>str::lines\<close>: lines end at a newline, which takes a carriage return before it along; the last line needs none.\<close>

definition chop_return :: "string \<Rightarrow> string" where
  "chop_return l = (if l \<noteq> [] \<and> last l = CHR 0x0D then butlast l else l)"

definition text_lines :: "string \<Rightarrow> string list" where
  "text_lines s = (let ls = split_on (CHR 0x0A) s in map chop_return (butlast ls) @ (if last ls = [] then [] else [last ls]))"

text \<open>\<open>str::split_once(c)\<close>: what stands before and after the first separator.\<close>

fun split_once :: "char \<Rightarrow> string \<Rightarrow> (string \<times> string) option" where
  "split_once c [] = None"
| "split_once c (x # xs) =
     (if x = c then Some ([], xs)
      else map_option (\<lambda>(a, b). (x # a, b)) (split_once c xs))"

fun join_with :: "string \<Rightarrow> string list \<Rightarrow> string" where
  "join_with sep [] = []"
| "join_with sep [s] = s"
| "join_with sep (s # ss) = s @ sep @ join_with sep ss"

lemma split_on_nonempty [simp]: "split_on c s \<noteq> []"
  by (induction s) (auto split: list.splits)

lemma split_on_no_sep: "c \<notin> set s \<Longrightarrow> split_on c s = [s]"
  by (induction s) auto

lemma split_on_append: "c \<notin> set s \<Longrightarrow> split_on c (s @ c # t) = s # split_on c t"
  by (induction s) auto

lemma text_lines_unlines:
  assumes "\<And>l c. l \<in> set ls \<Longrightarrow> c \<in> set l \<Longrightarrow> c \<noteq> CHR 0x0A \<and> c \<noteq> CHR 0x0D"
  shows "text_lines (concat (map (\<lambda>l. l @ [CHR 0x0A]) ls)) = ls"
proof -
  have "split_on (CHR 0x0A) (concat (map (\<lambda>l. l @ [CHR 0x0A]) ls)) = ls @ [[]]"
    using assms
  proof (induction ls)
    case (Cons l ls)
    have "CHR 0x0A \<notin> set l" using Cons.prems by auto
    moreover have "split_on (CHR 0x0A) (concat (map (\<lambda>l. l @ [CHR 0x0A]) ls)) = ls @ [[]]"
      by (rule Cons.IH) (use Cons.prems in auto)
    ultimately show ?case by (simp add: split_on_append)
  qed simp
  moreover have "map chop_return ls = ls"
    by (rule map_idI) (metis chop_return_def assms last_in_set)
  ultimately show ?thesis by (simp add: text_lines_def)
qed

lemma trim_no_space: "\<forall>c\<in>set s. \<not> is_whitespace c \<Longrightarrow> trim s = s"
proof -
  assume no: "\<forall>c\<in>set s. \<not> is_whitespace c"
  have "dropWhile is_whitespace xs = xs" if "set xs = set s" for xs
    using no that by (cases xs) auto
  then show ?thesis by (simp add: trim_def)
qed

lemma split_once_append: "c \<notin> set s \<Longrightarrow> split_once c (s @ c # t) = Some (s, t)"
  by (induction s) auto

lemma split_on_pieces: "p \<in> set (split_on c s) \<Longrightarrow> c \<notin> set p"
  by (induction s arbitrary: p) (fastforce split: if_splits list.splits)+

lemma join_with_Cons_Cons: "join_with sep ((x # s) # ss) = x # join_with sep (s # ss)"
  by (cases ss) auto

lemma join_with_Nil_Cons: "ss \<noteq> [] \<Longrightarrow> join_with sep ([] # ss) = sep @ join_with sep ss"
  by (cases ss) auto

lemma join_split: "join_with [c] (split_on c s) = s"
proof (induction s)
  case (Cons x s)
  obtain p ps where "split_on c s = p # ps"
    by (metis list.exhaust split_on_nonempty)
  with Cons show ?case
    by (auto simp: join_with_Cons_Cons join_with_Nil_Cons)
qed simp

lemma split_join:
  "ss \<noteq> [] \<Longrightarrow> \<forall>s \<in> set ss. c \<notin> set s \<Longrightarrow> split_on c (join_with [c] ss) = ss"
  by (induction "[c]" ss rule: join_with.induct) (auto simp: split_on_no_sep split_on_append)

section \<open>Decimal numbers\<close>

text \<open>\<open>Display\<close> of the unsigned integers, most significant digit first.\<close>

definition digit_char :: "nat \<Rightarrow> char" where
  "digit_char d = char_of (48 + d)"

definition is_digit :: "char \<Rightarrow> bool" where
  "is_digit c \<longleftrightarrow> 48 \<le> (of_char c :: nat) \<and> (of_char c :: nat) \<le> 57"

definition digit_val :: "char \<Rightarrow> nat" where
  "digit_val c = of_char c - 48"

fun show_dec :: "nat \<Rightarrow> string" where
  "show_dec n = (if n < 10 then [digit_char n] else show_dec (n div 10) @ [digit_char (n mod 10)])"

declare show_dec.simps [simp del]

text \<open>The value of a string of digits; \<open>None\<close> at the first character that is none.\<close>

fun digits_val :: "nat \<Rightarrow> string \<Rightarrow> nat option" where
  "digits_val acc [] = Some acc"
| "digits_val acc (c # cs) =
     (if is_digit c then digits_val (10 * acc + digit_val c) cs else None)"

text \<open>
  \<open>str::parse\<close> for an unsigned type of maximal value \<open>mx\<close>: one optional leading plus sign, then at
  least one digit, leading zeros allowed, and a value that fits.
\<close>

definition parse_unsigned :: "nat \<Rightarrow> string \<Rightarrow> nat option" where
  "parse_unsigned mx s =
     (let ds = (case s of [] \<Rightarrow> [] | c # cs \<Rightarrow> if c = CHR ''+'' then cs else s)
      in if ds = [] then None
         else case digits_val 0 ds of
             None \<Rightarrow> None
           | Some n \<Rightarrow> if n \<le> mx then Some n else None)"

lemma digit_char_props [simp]:
  assumes "d < 10"
  shows "is_digit (digit_char d)" "digit_val (digit_char d) = d"
proof -
  from assms have "(48 + d) mod 256 = 48 + d" by simp
  with assms show "is_digit (digit_char d)" "digit_val (digit_char d) = d"
    by (simp_all add: digit_char_def is_digit_def digit_val_def)
qed

lemma digits_val_append:
  "digits_val acc (xs @ ys) = Option.bind (digits_val acc xs) (\<lambda>a. digits_val a ys)"
  by (induction xs arbitrary: acc) auto

lemma digits_val_show_dec: "digits_val 0 (show_dec n) = Some n"
proof (induction n rule: show_dec.induct)
  case (1 n)
  then show ?case
    by (cases "n < 10") (auto simp: show_dec.simps [of n] digits_val_append)
qed

lemma set_show_dec: "c \<in> set (show_dec n) \<Longrightarrow> is_digit c"
proof (induction n rule: show_dec.induct)
  case (1 n)
  then show ?case by (cases "n < 10") (auto simp: show_dec.simps [of n])
qed

lemma show_dec_nonempty [simp]: "show_dec n \<noteq> []"
  by (subst show_dec.simps) simp

lemma is_digit_not_punct: "is_digit c \<Longrightarrow> c \<noteq> CHR ''+'' \<and> c \<noteq> CHR ''.'' \<and> c \<noteq> CHR ''/'' \<and> c \<noteq> CHR ''-''"
  by (auto simp: is_digit_def)

lemma parse_unsigned_show_dec [simp]:
  assumes "n \<le> mx"
  shows "parse_unsigned mx (show_dec n) = Some n"
proof -
  obtain c cs where c: "show_dec n = c # cs"
    by (cases "show_dec n") auto
  then have "is_digit c" using set_show_dec [of c n] by simp
  then have "c \<noteq> CHR ''+''" using is_digit_not_punct by blast
  moreover have "digits_val 0 (c # cs) = Some n"
    using digits_val_show_dec [of n] c by simp
  ultimately show ?thesis
    using assms by (simp add: parse_unsigned_def c Let_def del: digits_val.simps)
qed

lemma parse_unsigned_le: "parse_unsigned mx s = Some n \<Longrightarrow> n \<le> mx"
  by (auto simp: parse_unsigned_def Let_def split: if_splits option.splits)

lemma hd_show_dec: "0 < n \<Longrightarrow> hd (show_dec n) \<noteq> digit_char 0"
proof (induction n rule: show_dec.induct)
  case (1 n)
  show ?case
  proof (cases "n < 10")
    case True
    with "1.prems" have "digit_val (digit_char n) \<noteq> digit_val (digit_char 0)" by simp
    then have "digit_char n \<noteq> digit_char 0" by metis
    then show ?thesis using True by (simp add: show_dec.simps [of n])
  next
    case False
    then show ?thesis using "1.IH" by (simp add: show_dec.simps [of n])
  qed
qed

lemma length_show_dec_byte: "n < 256 \<Longrightarrow> length (show_dec n) \<le> 3"
proof -
  assume n: "n < 256"
  have small: "m < 10 \<Longrightarrow> length (show_dec m) = 1" for m
    by (simp add: show_dec.simps [of m])
  have mid: "m < 100 \<Longrightarrow> length (show_dec m) \<le> 2" for m
    by (cases "m < 10") (auto simp: show_dec.simps [of m] small)
  show ?thesis
    using n by (cases "n < 100") (auto simp: show_dec.simps [of n] mid [of "n div 10"] dest: mid)
qed

section \<open>IPv4 addresses\<close>

text \<open>
  \<open>Ipv4Addr\<close> is its big-endian 32-bit value (\<open>u32::from\<close> and \<open>Ipv4Addr::from\<close> are then the
  identity). \<open>Display\<close> prints the octets; \<open>FromStr\<close> takes four octets of one to three digits
  without superfluous leading zeros.
\<close>

type_synonym ipv4 = u32

definition show_ipv4 :: "ipv4 \<Rightarrow> string" where
  "show_ipv4 a = join_with ''.'' (map (\<lambda>b. show_dec (unat b)) (u32_to_be_bytes a))"

definition parse_octet :: "string \<Rightarrow> u8 option" where
  "parse_octet s =
     (if s = [] \<or> 3 < length s \<or> (1 < length s \<and> hd s = CHR ''0'') then None
      else case digits_val 0 s of
          None \<Rightarrow> None
        | Some n \<Rightarrow> if n \<le> 255 then Some (of_nat n) else None)"

definition parse_ipv4 :: "string \<Rightarrow> ipv4 option" where
  "parse_ipv4 s =
     (case map parse_octet (split_on (CHR ''.'') s) of
        [Some a, Some b, Some c, Some d] \<Rightarrow> Some (u32_from_be_bytes [a, b, c, d])
      | _ \<Rightarrow> None)"

lemma digit_char_0: "digit_char 0 = CHR ''0''"
  by (simp add: digit_char_def char_of_def bit_iff_odd)

lemma parse_octet_show_dec [simp]: "parse_octet (show_dec (unat (b :: u8))) = Some b"
proof -
  have b: "unat b < 256" using unsigned_less [of b] by simp
  have "\<not> (1 < length (show_dec (unat b)) \<and> hd (show_dec (unat b)) = CHR ''0'')"
  proof (cases "unat b = 0")
    case True
    then show ?thesis by (simp add: show_dec.simps [of 0])
  next
    case False
    then show ?thesis using hd_show_dec [of "unat b"] by (simp add: digit_char_0)
  qed
  with b show ?thesis
    using length_show_dec_byte [OF b] by (auto simp: parse_octet_def digits_val_show_dec)
qed

lemma parse_show_ipv4 [simp]: "parse_ipv4 (show_ipv4 a) = Some a"
proof -
  have "CHR ''.'' \<notin> set (show_dec n)" for n
    using set_show_dec is_digit_not_punct by blast
  then have "split_on (CHR ''.'') (show_ipv4 a) = map (\<lambda>b. show_dec (unat b)) (u32_to_be_bytes a)"
    unfolding show_ipv4_def by (intro split_join) (auto simp: u32_to_be_bytes_def)
  then have "map parse_octet (split_on (CHR ''.'') (show_ipv4 a)) = map Some (u32_to_be_bytes a)"
    by simp
  then show ?thesis
    using u32_from_to_be [of a] by (simp add: parse_ipv4_def u32_to_be_bytes_def)
qed

lemma show_ipv4_inject [simp]: "show_ipv4 a = show_ipv4 b \<longleftrightarrow> a = b"
  by (metis option.inject parse_show_ipv4)

end
