(* ===== verification/K3_Action.thy ===== *)
theory K3_Action
  imports K3_Prelude
begin

text \<open>
  Stateful, fallible code as state transformers: an action takes the state and gives a result and
  the state it leaves, also when it fails, since the sources keep running after an error. \<open>bindM\<close>
  is the question-mark operator, \<open>forM\<close> a \<open>for\<close> loop whose body may fail. The triples below carry
  the proofs about actions: a precondition, a postcondition for success and one for failure.
\<close>

type_synonym ('s, 'a) act = "'s \<Rightarrow> 'a result \<times> 's"

definition returnM :: "'a \<Rightarrow> ('s, 'a) act" where
  "returnM x s = (Inr x, s)"

definition failM :: "error \<Rightarrow> ('s, 'a) act" where
  "failM e s = (Inl e, s)"

definition bindM :: "('s, 'a) act \<Rightarrow> ('a \<Rightarrow> ('s, 'b) act) \<Rightarrow> ('s, 'b) act" where
  "bindM m f s = (case m s of (Inl e, s') \<Rightarrow> (Inl e, s') | (Inr x, s') \<Rightarrow> f x s')"

definition liftR :: "'a result \<Rightarrow> ('s, 'a) act" where
  "liftR r s = (r, s)"

definition getM :: "('s \<Rightarrow> 'a) \<Rightarrow> ('s, 'a) act" where
  "getM f s = (Inr (f s), s)"

definition modifyM :: "('s \<Rightarrow> 's) \<Rightarrow> ('s, unit) act" where
  "modifyM f s = (Inr (), f s)"

definition whenM :: "bool \<Rightarrow> ('s, unit) act \<Rightarrow> ('s, unit) act" where
  "whenM b m = (if b then m else returnM ())"

text \<open>Running an action for its effect and dropping its error: \<open>let _ = ...\<close>.\<close>

definition ignoreM :: "('s, 'a) act \<Rightarrow> ('s, unit) act" where
  "ignoreM m s = (Inr (), snd (m s))"

text \<open>Running an action and handing its result, error or not, to the continuation: \<open>match\<close>.\<close>

definition tryM :: "('s, 'a) act \<Rightarrow> ('s, 'a result) act" where
  "tryM m s = (Inr (fst (m s)), snd (m s))"

fun forM :: "'a list \<Rightarrow> ('a \<Rightarrow> ('s, unit) act) \<Rightarrow> ('s, unit) act" where
  "forM [] f = returnM ()"
| "forM (x # xs) f = bindM (f x) (\<lambda>_. forM xs f)"

lemmas action_defs = returnM_def failM_def bindM_def liftR_def getM_def modifyM_def whenM_def
  ignoreM_def tryM_def

lemma bindM_Inr: "bindM m f s = (Inr x, s') \<longleftrightarrow> (\<exists>y s1. m s = (Inr y, s1) \<and> f y s1 = (Inr x, s'))"
  by (auto simp: bindM_def split: prod.splits sum.splits)

lemma bindM_step: "m s = (Inr y, s1) \<Longrightarrow> bindM m f s = f y s1"
  by (simp add: bindM_def)

lemma bindM_stop: "m s = (Inl e, s1) \<Longrightarrow> bindM m f s = (Inl e, s1)"
  by (simp add: bindM_def)

lemma bindM_get: "bindM (getM h) f s = f (h s) s"
  by (simp add: bindM_def getM_def)

lemma forM_append: "forM (xs @ ys) f = bindM (forM xs f) (\<lambda>_. forM ys f)"
proof (induction xs)
  case Nil
  then show ?case by (simp add: bindM_def returnM_def fun_eq_iff)
next
  case (Cons x xs)
  then show ?case by (auto simp: bindM_def fun_eq_iff split: prod.splits sum.splits)
qed

lemma forM_snoc: "forM (xs @ [x]) f s = (Inr u, t) \<longleftrightarrow> (\<exists>v s1. forM xs f s = (Inr v, s1) \<and> f x s1 = (Inr u, t))"
  by (simp add: forM_append bindM_Inr returnM_def)

section \<open>Triples\<close>

definition triple :: "('s \<Rightarrow> bool) \<Rightarrow> ('s, 'a) act \<Rightarrow> ('a \<Rightarrow> 's \<Rightarrow> bool) \<Rightarrow> ('s \<Rightarrow> bool) \<Rightarrow> bool" where
  "triple P m Q E \<longleftrightarrow> (\<forall>s. P s \<longrightarrow> (case m s of (Inl e, s') \<Rightarrow> E s' | (Inr x, s') \<Rightarrow> Q x s'))"

lemma tripleI:
  assumes "\<And>s x s'. P s \<Longrightarrow> m s = (Inr x, s') \<Longrightarrow> Q x s'"
    and "\<And>s e s'. P s \<Longrightarrow> m s = (Inl e, s') \<Longrightarrow> E s'"
  shows "triple P m Q E"
  using assms by (auto simp: triple_def split: prod.splits sum.splits)

lemma triple_ok: "triple P m Q E \<Longrightarrow> P s \<Longrightarrow> m s = (Inr x, s') \<Longrightarrow> Q x s'"
  by (auto simp: triple_def dest!: spec [of _ s])

lemma triple_err: "triple P m Q E \<Longrightarrow> P s \<Longrightarrow> m s = (Inl e, s') \<Longrightarrow> E s'"
  by (auto simp: triple_def dest!: spec [of _ s])

lemma triple_conseq:
  assumes "triple P' m Q' E'"
    and "\<And>s. P s \<Longrightarrow> P' s" and "\<And>x s. Q' x s \<Longrightarrow> Q x s" and "\<And>s. E' s \<Longrightarrow> E s"
  shows "triple P m Q E"
  by (rule tripleI) (use assms in \<open>blast dest: triple_ok triple_err\<close>)+

lemma triple_return: "(\<And>s. P s \<Longrightarrow> Q x s) \<Longrightarrow> triple P (returnM x) Q E"
  by (auto simp: triple_def returnM_def)

lemma triple_lift:
  "(\<And>s x. P s \<Longrightarrow> r = Inr x \<Longrightarrow> Q x s) \<Longrightarrow> (\<And>s e. P s \<Longrightarrow> r = Inl e \<Longrightarrow> E s) \<Longrightarrow> triple P (liftR r) Q E"
  by (cases r) (auto simp: triple_def liftR_def)

lemma triple_get: "(\<And>s. P s \<Longrightarrow> Q (f s) s) \<Longrightarrow> triple P (getM f) Q E"
  by (auto simp: triple_def getM_def)

lemma triple_modify: "(\<And>s. P s \<Longrightarrow> Q () (f s)) \<Longrightarrow> triple P (modifyM f) Q E"
  by (auto simp: triple_def modifyM_def)

lemma triple_bind:
  assumes m: "triple P m R E" and f: "\<And>x. triple (R x) (f x) Q E"
  shows "triple P (bindM m f) Q E"
  unfolding triple_def
proof (intro allI impI)
  fix s assume "P s"
  then show "case bindM m f s of (Inl e, s') \<Rightarrow> E s' | (Inr x, s') \<Rightarrow> Q x s'"
  proof (cases "m s")
    case (Pair r s')
    show ?thesis
    proof (cases r)
      case (Inl e)
      with Pair show ?thesis using triple_err [OF m \<open>P s\<close>] by (simp add: bindM_def)
    next
      case (Inr x)
      with Pair have "R x s'" using triple_ok [OF m \<open>P s\<close>] by simp
      with f [of x] show ?thesis using Pair Inr by (auto simp: bindM_def triple_def)
    qed
  qed
qed

lemma triple_try: "triple P m (\<lambda>_. Q) Q \<Longrightarrow> triple P (tryM m) (\<lambda>_. Q) E"
  unfolding triple_def tryM_def by (simp add: case_prod_beta split: sum.split)

lemma triple_snd: "triple P m (\<lambda>_. Q) E \<Longrightarrow> (\<And>s. E s \<Longrightarrow> Q s) \<Longrightarrow> P s \<Longrightarrow> Q (snd (m s))"
  by (cases "m s"; cases "fst (m s)") (auto dest: triple_ok triple_err)

lemma triple_when:
  "triple (\<lambda>s. P s \<and> b) m Q E \<Longrightarrow> (\<And>s. P s \<Longrightarrow> \<not> b \<Longrightarrow> Q () s) \<Longrightarrow> triple P (whenM b m) Q E"
  by (auto simp: triple_def whenM_def returnM_def)

lemma triple_if:
  "triple (\<lambda>s. P s \<and> b) m Q E \<Longrightarrow> triple (\<lambda>s. P s \<and> \<not> b) n Q E \<Longrightarrow> triple P (if b then m else n) Q E"
  by (auto simp: triple_def)

text \<open>A loop: what holds after the elements processed so far, and what every failure leaves.\<close>

lemma triple_for_from:
  assumes "\<And>ys x zs. xs = ys @ x # zs \<Longrightarrow> triple (I (done @ ys)) (f x) (\<lambda>_. I (done @ ys @ [x])) E"
  shows "triple (I done) (forM xs f) (\<lambda>_. I (done @ xs)) E"
  using assms
proof (induction xs arbitrary: "done")
  case Nil
  then show ?case by (auto intro: triple_return)
next
  case (Cons x xs)
  have "triple (I done) (f x) (\<lambda>_. I (done @ [x])) E"
    using Cons.prems [of "[]" x xs] by simp
  moreover have "triple (I (done @ [x])) (forM xs f) (\<lambda>_. I ((done @ [x]) @ xs)) E"
    by (rule Cons.IH) (use Cons.prems [of "x # _"] in auto)
  ultimately show ?case by (auto intro: triple_bind)
qed

lemma triple_for:
  assumes "\<And>ys x zs. xs = ys @ x # zs \<Longrightarrow> triple (I ys) (f x) (\<lambda>_. I (ys @ [x])) E"
  shows "triple (I []) (forM xs f) (\<lambda>_. I xs) E"
  using triple_for_from [of xs I "[]" f E] assms by simp

text \<open>An invariant of an action holds after it whether it succeeds or fails.\<close>

definition keeps :: "('s \<Rightarrow> bool) \<Rightarrow> ('s, 'a) act \<Rightarrow> bool" where
  "keeps I m \<longleftrightarrow> (\<forall>s. I s \<longrightarrow> I (snd (m s)))"

named_theorems keeps_intro \<open>invariants of composed actions\<close>

lemma keeps_triple: "keeps I m \<longleftrightarrow> triple I m (\<lambda>_. I) I"
  unfolding keeps_def triple_def by (intro iff_allI) (auto split: prod.splits sum.splits)

lemma keepsD: "keeps I m \<Longrightarrow> I s \<Longrightarrow> m s = (r, s') \<Longrightarrow> I s'"
  by (metis keeps_def snd_conv)

lemma keeps_snd: "keeps I m \<Longrightarrow> I s \<Longrightarrow> I (snd (m s))"
  by (simp add: keeps_def)

lemma keeps_return [keeps_intro]: "keeps I (returnM x)"
  by (simp add: keeps_def returnM_def)

lemma keeps_fail [keeps_intro]: "keeps I (failM e)"
  by (simp add: keeps_def failM_def)

lemma keeps_lift [keeps_intro]: "keeps I (liftR r)"
  by (simp add: keeps_def liftR_def)

lemma keeps_get [keeps_intro]: "keeps I (getM f)"
  by (simp add: keeps_def getM_def)

lemma keeps_bind [keeps_intro]: "keeps I m \<Longrightarrow> (\<And>x. keeps I (f x)) \<Longrightarrow> keeps I (bindM m f)"
  unfolding keeps_triple by (auto intro: triple_bind)

lemma keeps_when [keeps_intro]: "keeps I m \<Longrightarrow> keeps I (whenM b m)"
  by (simp add: whenM_def keeps_return)

lemma keeps_if [keeps_intro]: "keeps I m \<Longrightarrow> keeps I n \<Longrightarrow> keeps I (if b then m else n)"
  by simp

lemma keeps_ignore [keeps_intro]: "keeps I m \<Longrightarrow> keeps I (ignoreM m)"
  by (simp add: keeps_def ignoreM_def)

lemma keeps_try [keeps_intro]: "keeps I m \<Longrightarrow> keeps I (tryM m)"
  by (simp add: keeps_def tryM_def)

lemma keeps_for [keeps_intro]: "(\<And>x. x \<in> set xs \<Longrightarrow> keeps I (f x)) \<Longrightarrow> keeps I (forM xs f)"
  by (induction xs) (auto intro!: keeps_intro)

lemma keeps_option [keeps_intro]:
  "keeps I a \<Longrightarrow> (\<And>x. keeps I (f x)) \<Longrightarrow> keeps I (case y of None \<Rightarrow> a | Some x \<Rightarrow> f x)"
  by (cases y) auto

lemma keeps_sum [keeps_intro]:
  "(\<And>x. keeps I (g x)) \<Longrightarrow> (\<And>x. keeps I (f x)) \<Longrightarrow> keeps I (case y of Inl x \<Rightarrow> g x | Inr x \<Rightarrow> f x)"
  by (cases y) auto

lemma keeps_prod [keeps_intro]: "(\<And>a b. keeps I (f a b)) \<Longrightarrow> keeps I (case y of (a, b) \<Rightarrow> f a b)"
  by (cases y) auto

end
