(* ===== verification/State_Store.thy ===== *)
theory State_Store
  imports K3_Action "HOL-Library.List_Lexorder" "HOL-Library.Char_ord"
begin

text \<open>
  The state store (\<open>pkg/state/src/client.rs\<close>) and its event log (\<open>pkg/state/src/watch.rs\<close>).
  SlateDB is third-party code: its operations are the record \<open>SlateDb\<close>, an argument of every
  definition that reaches the database, and what the sources rely on are the assumptions of the
  locale \<open>slatedb\<close>. The lemmas show what each store operation does to the database content and
  to the log, that the log holds consecutive sequence numbers within its capacity, and that
  replaying the events since a sequence number rebuilds the content.
\<close>

section \<open>The database interface\<close>

text \<open>
  A write returns its result and the database it leaves, also on failure. A scan gives the items its
  iterator yields, each of which may be an error.
\<close>

record ('db, 'v) SlateDb =
  db_put :: "'db \<Rightarrow> string \<Rightarrow> 'v \<Rightarrow> unit result \<times> 'db"
  db_get :: "'db \<Rightarrow> string \<Rightarrow> 'v option result"
  db_delete :: "'db \<Rightarrow> string \<Rightarrow> unit result \<times> 'db"
  db_scan_prefix :: "'db \<Rightarrow> string \<Rightarrow> (string \<times> 'v) result list result"

section \<open>The event log\<close>

datatype EventType = Ev_Put | Ev_Delete

record 'v WatchEvent =
  WatchEvent_seq :: u64
  WatchEvent_event_type :: EventType
  WatchEvent_key :: string
  WatchEvent_value :: "'v option"

text \<open>
  The inner state of the log behind its lock; \<open>broadcast\<close> lists the events handed to the broadcast
  sender, newest last. Delivery to subscribers is tokio's.
\<close>

record 'v EventLog =
  EventLog_seq :: u64
  EventLog_events :: "'v WatchEvent list"
  EventLog_max_events :: nat
  EventLog_broadcast :: "'v WatchEvent list"

definition EventLog_new :: "nat \<Rightarrow> 'v EventLog" where
  "EventLog_new max_events =
     \<lparr> EventLog_seq = 0, EventLog_events = [], EventLog_max_events = max_events,
       EventLog_broadcast = [] \<rparr>"

definition emit :: "EventType \<Rightarrow> string \<Rightarrow> 'v option \<Rightarrow> 'v EventLog \<Rightarrow> 'v EventLog" where
  "emit ty key val log =
     (let seq = EventLog_seq log + 1;
          event = \<lparr> WatchEvent_seq = seq, WatchEvent_event_type = ty, WatchEvent_key = key,
                    WatchEvent_value = val \<rparr>;
          kept = (if EventLog_max_events log \<le> length (EventLog_events log)
                  then drop 1 (EventLog_events log) else EventLog_events log)
      in log\<lparr> EventLog_seq := seq, EventLog_events := kept @ [event],
              EventLog_broadcast := EventLog_broadcast log @ [event] \<rparr>)"

definition current_seq :: "'v EventLog \<Rightarrow> u64" where
  "current_seq log = EventLog_seq log"

definition events_since :: "'v EventLog \<Rightarrow> u64 \<Rightarrow> 'v WatchEvent list" where
  "events_since log from_seq = filter (\<lambda>e. from_seq < WatchEvent_seq e) (EventLog_events log)"

section \<open>The store\<close>

record ('db, 'v) StateStore =
  StateStore_db :: 'db
  StateStore_event_log :: "'v EventLog"

definition store_put ::
  "('db, 'v) SlateDb \<Rightarrow> string \<Rightarrow> 'v \<Rightarrow> (('db, 'v, 'z) StateStore_scheme, unit) act" where
  "store_put D key val s =
     (case db_put D (StateStore_db s) key val of
        (Inl e, db) \<Rightarrow> (Inl (Err ''SlateDB put failed''), s\<lparr>StateStore_db := db\<rparr>)
      | (Inr _, db) \<Rightarrow>
          (Inr (), s\<lparr> StateStore_db := db,
                      StateStore_event_log := emit Ev_Put key (Some val) (StateStore_event_log s) \<rparr>))"

definition store_get ::
  "('db, 'v) SlateDb \<Rightarrow> string \<Rightarrow> (('db, 'v, 'z) StateStore_scheme, 'v option) act" where
  "store_get D key s =
     (case db_get D (StateStore_db s) key of
        Inr (Some v) \<Rightarrow> (Inr (Some v), s)
      | Inr None \<Rightarrow> (Inr None, s)
      | Inl e \<Rightarrow> (Inl (Err ''SlateDB get failed''), s))"

definition store_delete ::
  "('db, 'v) SlateDb \<Rightarrow> string \<Rightarrow> (('db, 'v, 'z) StateStore_scheme, unit) act" where
  "store_delete D key s =
     (case db_delete D (StateStore_db s) key of
        (Inl e, db) \<Rightarrow> (Inl (Err ''SlateDB delete failed''), s\<lparr>StateStore_db := db\<rparr>)
      | (Inr _, db) \<Rightarrow>
          (Inr (), s\<lparr> StateStore_db := db,
                      StateStore_event_log := emit Ev_Delete key None (StateStore_event_log s) \<rparr>))"

text \<open>\<open>while let Ok(Some(kv)) = iter.next().await\<close>: the loop ends at the first error item too.\<close>

fun drain_iter :: "(string \<times> 'v) result list \<Rightarrow> (string \<times> 'v) list" where
  "drain_iter [] = []"
| "drain_iter (Inr kv # items) = kv # drain_iter items"
| "drain_iter (Inl e # items) = []"

definition list_prefix ::
  "('db, 'v) SlateDb \<Rightarrow> string \<Rightarrow> (('db, 'v, 'z) StateStore_scheme, (string \<times> 'v) list) act" where
  "list_prefix D pfx s =
     (case db_scan_prefix D (StateStore_db s) pfx of
        Inl e \<Rightarrow> (Inl (Err ''SlateDB scan_prefix failed''), s)
      | Inr items \<Rightarrow> (Inr (drain_iter items), s))"

definition snapshot ::
  "('db, 'v) SlateDb \<Rightarrow> (('db, 'v, 'z) StateStore_scheme, (string \<times> 'v) list) act" where
  "snapshot D = bindM (list_prefix D ''/registry/'') (\<lambda>all.
     returnM (filter (\<lambda>(k, _). \<not> starts_with k ''/registry/_restore/''
                             \<and> \<not> starts_with k ''/registry/_backup/''
                             \<and> \<not> starts_with k ''/registry/leases/'') all))"

section \<open>What the sources rely on of the database\<close>

text \<open>
  The content of a database is a map. Successful writes update it, a failed write has taken effect
  or not, reads return it, and a scan whose iterator reports no error yields the entries under
  the prefix, each once, in key order.
\<close>

locale slatedb =
  fixes D :: "('db, 'v) SlateDb" and content :: "'db \<Rightarrow> string \<rightharpoonup> 'v"
  assumes put_ok: "db_put D db k v = (Inr u, db') \<Longrightarrow> content db' = (content db)(k \<mapsto> v)"
    and put_err: "db_put D db k v = (Inl e, db') \<Longrightarrow>
      content db' = content db \<or> content db' = (content db)(k \<mapsto> v)"
    and get_ok: "db_get D db k = Inr r \<Longrightarrow> r = content db k"
    and delete_ok: "db_delete D db k = (Inr u, db') \<Longrightarrow> content db' = (content db)(k := None)"
    and delete_err: "db_delete D db k = (Inl e, db') \<Longrightarrow>
      content db' = content db \<or> content db' = (content db)(k := None)"
    and scan_ok: "db_scan_prefix D db p = Inr (map Inr kvs) \<Longrightarrow>
      sorted (map fst kvs) \<and> distinct (map fst kvs) \<and>
      set kvs = {(k, v). prefix p k \<and> content db k = Some v}"
begin

abbreviation lookup :: "('db, 'v, 'z) StateStore_scheme \<Rightarrow> string \<Rightarrow> 'v option" where
  "lookup s \<equiv> content (StateStore_db s)"

lemma store_put_ok:
  assumes "store_put D k v s = (Inr u, s')"
  shows "lookup s' = (lookup s)(k \<mapsto> v)"
    and "StateStore_event_log s' = emit Ev_Put k (Some v) (StateStore_event_log s)"
    and "StateStore.more s' = StateStore.more s"
  using assms put_ok by (auto simp: store_put_def split: prod.splits sum.splits)

lemma store_put_err:
  assumes "store_put D k v s = (Inl e, s')"
  shows "lookup s' = lookup s \<or> lookup s' = (lookup s)(k \<mapsto> v)"
    and "StateStore_event_log s' = StateStore_event_log s"
    and "StateStore.more s' = StateStore.more s"
  using assms by (auto simp: store_put_def split: prod.splits sum.splits dest: put_err)

lemma store_delete_ok:
  assumes "store_delete D k s = (Inr u, s')"
  shows "lookup s' = (lookup s)(k := None)"
    and "StateStore_event_log s' = emit Ev_Delete k None (StateStore_event_log s)"
    and "StateStore.more s' = StateStore.more s"
  using assms delete_ok by (auto simp: store_delete_def split: prod.splits sum.splits)

lemma store_delete_err:
  assumes "store_delete D k s = (Inl e, s')"
  shows "lookup s' = lookup s \<or> lookup s' = (lookup s)(k := None)"
    and "StateStore_event_log s' = StateStore_event_log s"
    and "StateStore.more s' = StateStore.more s"
  using assms by (auto simp: store_delete_def split: prod.splits sum.splits dest: delete_err)

lemma store_put_other: "store_put D key v s = (r, s') \<Longrightarrow> k \<noteq> key \<Longrightarrow> lookup s' k = lookup s k"
  by (cases r) (auto dest: store_put_ok(1) store_put_err(1))

lemma store_delete_other: "store_delete D key s = (r, s') \<Longrightarrow> k \<noteq> key \<Longrightarrow> lookup s' k = lookup s k"
  by (cases r) (auto dest: store_delete_ok(1) store_delete_err(1))

lemma store_get_ok: "store_get D k s = (Inr r, s') \<Longrightarrow> r = lookup s k \<and> s' = s"
  using get_ok by (auto simp: store_get_def split: sum.splits option.splits)

lemma store_get_err: "store_get D k s = (Inl e, s') \<Longrightarrow> s' = s"
  by (auto simp: store_get_def split: sum.splits option.splits)

end

text \<open>Reads never change the store, whatever the database does.\<close>

lemma store_get_state [simp]: "snd (store_get D k s) = s"
  by (auto simp: store_get_def split: sum.splits option.splits)

lemma list_prefix_state [simp]: "snd (list_prefix D p s) = s"
  by (auto simp: list_prefix_def split: sum.splits)

lemma keeps_store_get [keeps_intro]: "keeps I (store_get D k)"
  by (simp add: keeps_def)

lemma keeps_list_prefix [keeps_intro]: "keeps I (list_prefix D p)"
  by (simp add: keeps_def)

lemma drain_iter_ok: "drain_iter (map Inr kvs) = kvs"
  by (induction kvs) auto

lemma drain_iter_map_ok: "Inl ` UNIV \<inter> set items = {} \<Longrightarrow> items = map Inr (drain_iter items)"
  by (induction items rule: drain_iter.induct) auto

text \<open>
  A database whose iterators never report an error: then \<open>list_prefix\<close> returns everything under the
  prefix. Without this, \<open>list_prefix\<close> silently returns what came before the error.
\<close>

locale slatedb_scan = slatedb +
  assumes scan_complete: "db_scan_prefix D db p = Inr items \<Longrightarrow> Inl e \<notin> set items"
begin

lemma list_prefix_ok:
  assumes "list_prefix D p s = (Inr kvs, s')"
  shows "s' = s" and "sorted (map fst kvs)" and "distinct (map fst kvs)"
    and "set kvs = {(k, v). prefix p k \<and> lookup s k = Some v}"
proof -
  obtain items where items: "db_scan_prefix D (StateStore_db s) p = Inr items"
    and kvs: "kvs = drain_iter items" and s': "s' = s"
    using assms by (auto simp: list_prefix_def split: sum.splits)
  have "items = map Inr kvs"
    unfolding kvs by (rule drain_iter_map_ok) (use scan_complete [OF items] in auto)
  with items scan_ok s' show "s' = s" "sorted (map fst kvs)" "distinct (map fst kvs)"
    "set kvs = {(k, v). prefix p k \<and> lookup s k = Some v}" by auto
qed

lemma list_prefix_lookup:
  "list_prefix D p s = (Inr kvs, s') \<Longrightarrow> (k, v) \<in> set kvs \<longleftrightarrow> prefix p k \<and> lookup s k = Some v"
  using list_prefix_ok(4) by fastforce

lemma list_prefix_map_of:
  assumes "list_prefix D p s = (Inr kvs, s')"
  shows "map_of kvs k = (if prefix p k then lookup s k else None)"
proof (cases "map_of kvs k")
  case None
  then show ?thesis
    using list_prefix_lookup [OF assms] by (cases "lookup s k") (force simp: map_of_eq_None_iff)+
next
  case (Some v)
  then show ?thesis
    using list_prefix_lookup [OF assms] map_of_SomeD by fastforce
qed

end

section \<open>A database that satisfies the laws\<close>

text \<open>
  An in-memory table: it shows that the assumptions can hold together, and the witnesses run on it.
\<close>

definition mem_slatedb :: "((string \<times> 'v) list, 'v) SlateDb" where
  "mem_slatedb =
     \<lparr> db_put = (\<lambda>db k v. (Inr (), AList.update k v db)),
       db_get = (\<lambda>db k. Inr (map_of db k)),
       db_delete = (\<lambda>db k. (Inr (), AList.delete k db)),
       db_scan_prefix = (\<lambda>db p.
         Inr (map Inr (sort_key fst (filter (\<lambda>(k, _). prefix p k) (AList.clearjunk db))))) \<rparr>"

lemma mem_scan:
  fixes db :: "(string \<times> 'v) list" and p :: string
  defines "kvs \<equiv> sort_key fst (filter (\<lambda>(k, _). prefix p k) (AList.clearjunk db))"
  shows "sorted (map fst kvs)" "distinct (map fst kvs)"
    "set kvs = {(k, v). prefix p k \<and> map_of db k = Some v}"
proof -
  let ?f = "filter (\<lambda>(k, _). prefix p k) (AList.clearjunk db)"
  show "sorted (map fst kvs)" by (simp add: kvs_def)
  have "distinct (map fst ?f)" using distinct_clearjunk [of db] by (rule distinct_map_filter)
  then have "card (fst ` set ?f) = length ?f" by (metis distinct_card length_map set_map)
  then have "card (fst ` set kvs) = length kvs" by (simp add: kvs_def)
  then show "distinct (map fst kvs)" by (simp add: card_distinct)
  have "set kvs = {(k, v). prefix p k \<and> map_of (AList.clearjunk db) k = Some v}"
    using distinct_clearjunk [of db] by (auto simp: kvs_def map_of_eq_Some_iff)
  then show "set kvs = {(k, v). prefix p k \<and> map_of db k = Some v}" by (simp add: map_of_clearjunk)
qed

interpretation mem: slatedb_scan mem_slatedb map_of
proof unfold_locales
  fix db :: "(string \<times> 'v) list" and p kvs
  assume "db_scan_prefix mem_slatedb db p = Inr (map Inr kvs)"
  then have "map Inr kvs = (map Inr (sort_key fst (filter (\<lambda>(k, _). prefix p k) (AList.clearjunk db)))
      :: (string \<times> 'v) result list)" by (simp add: mem_slatedb_def)
  from arg_cong [OF this, of drain_iter]
  have kvs: "kvs = sort_key fst (filter (\<lambda>(k, _). prefix p k) (AList.clearjunk db))"
    by (simp only: drain_iter_ok)
  show "sorted (map fst kvs) \<and> distinct (map fst kvs) \<and>
      set kvs = {(k, v). prefix p k \<and> map_of db k = Some v}"
    unfolding kvs by (intro conjI mem_scan)
qed (auto simp: mem_slatedb_def update_conv' delete_conv')

section \<open>The log: consecutive numbers, bounded length, replay\<close>

definition log_inv :: "'v EventLog \<Rightarrow> bool" where
  "log_inv log \<longleftrightarrow>
     0 < EventLog_max_events log \<and>
     length (EventLog_events log) \<le> EventLog_max_events log \<and>
     length (EventLog_events log) \<le> unat (EventLog_seq log) \<and>
     map (\<lambda>e. unat (WatchEvent_seq e)) (EventLog_events log) =
       [Suc (unat (EventLog_seq log)) - length (EventLog_events log) ..< Suc (unat (EventLog_seq log))]"

lemma log_inv_new: "0 < n \<Longrightarrow> log_inv (EventLog_new n)"
  by (simp add: log_inv_def EventLog_new_def)

lemma unat_Suc_u64: "Suc (unat (w :: u64)) < 2 ^ 64 \<Longrightarrow> unat (w + 1) = Suc (unat w)"
  by (simp add: unat_word_ariths)

lemma emit_fields [simp]:
  "EventLog_seq (emit ty k v log) = EventLog_seq log + 1"
  "EventLog_max_events (emit ty k v log) = EventLog_max_events log"
  by (simp_all add: emit_def Let_def)

lemma emit_events:
  "EventLog_events (emit ty k v log) =
     (if EventLog_max_events log \<le> length (EventLog_events log)
      then drop 1 (EventLog_events log) else EventLog_events log) @
     [\<lparr> WatchEvent_seq = EventLog_seq log + 1, WatchEvent_event_type = ty, WatchEvent_key = k,
        WatchEvent_value = v \<rparr>]"
  by (simp add: emit_def Let_def)

lemma log_inv_emit:
  assumes "log_inv log" and "Suc (unat (EventLog_seq log)) < 2 ^ 64"
  shows "log_inv (emit ty k v log)"
proof -
  let ?n = "unat (EventLog_seq log)" and ?k = "length (EventLog_events log)"
  have n: "unat (EventLog_seq log + 1) = Suc ?n" using assms(2) by (rule unat_Suc_u64)
  have k: "?k \<le> ?n" and mx: "0 < EventLog_max_events log"
    and evs: "map (\<lambda>e. unat (WatchEvent_seq e)) (EventLog_events log) = [Suc ?n - ?k ..< Suc ?n]"
    using assms(1) by (auto simp: log_inv_def)
  have tl: "0 < ?k \<Longrightarrow> map (\<lambda>e. unat (WatchEvent_seq e)) (drop 1 (EventLog_events log)) =
      [Suc (Suc ?n) - ?k ..< Suc ?n]"
    using evs k by (simp add: drop_map [symmetric] Suc_diff_le)
  show ?thesis
    using assms(1) k mx evs tl by (auto simp: log_inv_def emit_events n)
qed

text \<open>A sequence of mutations through the store, stopping at the first failure.\<close>

datatype 'v mutation = Put_m string 'v | Delete_m string

fun mutate :: "('db, 'v) SlateDb \<Rightarrow> 'v mutation \<Rightarrow> (('db, 'v, 'z) StateStore_scheme, unit) act" where
  "mutate D (Put_m k v) = store_put D k v"
| "mutate D (Delete_m k) = store_delete D k"

definition mutate_all ::
  "('db, 'v) SlateDb \<Rightarrow> 'v mutation list \<Rightarrow> (('db, 'v, 'z) StateStore_scheme, unit) act" where
  "mutate_all D ms = forM ms (mutate D)"

text \<open>A watcher applies an event to its copy of the content.\<close>

definition apply_event :: "'v WatchEvent \<Rightarrow> (string \<rightharpoonup> 'v) \<Rightarrow> (string \<rightharpoonup> 'v)" where
  "apply_event e m = (case WatchEvent_event_type e of
       Ev_Put \<Rightarrow> m(WatchEvent_key e := WatchEvent_value e)
     | Ev_Delete \<Rightarrow> m(WatchEvent_key e := None))"

text \<open>What the log and the content look like after some mutations from a given start.\<close>

definition replay_inv ::
  "('db \<Rightarrow> string \<rightharpoonup> 'v) \<Rightarrow> ('db, 'v, 'z) StateStore_scheme \<Rightarrow> nat \<Rightarrow>
   ('db, 'v, 'z) StateStore_scheme \<Rightarrow> bool" where
  "replay_inv content s n s' \<longleftrightarrow>
     (\<exists>old new. EventLog_events (StateStore_event_log s') = old @ new
        \<and> (\<forall>e \<in> set old. WatchEvent_seq e \<le> EventLog_seq (StateStore_event_log s))
        \<and> (\<forall>e \<in> set new. EventLog_seq (StateStore_event_log s) < WatchEvent_seq e)
        \<and> length new = n
        \<and> fold apply_event new (content (StateStore_db s)) = content (StateStore_db s'))
     \<and> unat (EventLog_seq (StateStore_event_log s')) =
         unat (EventLog_seq (StateStore_event_log s)) + n
     \<and> EventLog_max_events (StateStore_event_log s') = EventLog_max_events (StateStore_event_log s)"

lemma replay_inv_start:
  assumes "log_inv (StateStore_event_log s)"
  shows "replay_inv content s 0 s"
proof -
  let ?log = "StateStore_event_log s"
  have "unat (WatchEvent_seq e) \<le> unat (EventLog_seq ?log)" if "e \<in> set (EventLog_events ?log)" for e
  proof -
    from that have "unat (WatchEvent_seq e) \<in> set (map (\<lambda>e. unat (WatchEvent_seq e)) (EventLog_events ?log))"
      by simp
    then show ?thesis using assms by (auto simp: log_inv_def simp del: set_map)
  qed
  then show ?thesis by (auto simp: replay_inv_def word_le_nat_alt)
qed

context slatedb
begin

lemma replay_inv_emit:
  assumes inv: "replay_inv content s n s'" and n: "n < EventLog_max_events (StateStore_event_log s)"
    and bound: "unat (EventLog_seq (StateStore_event_log s)) + Suc n < 2 ^ 64"
    and log: "StateStore_event_log s'' = emit ty k v (StateStore_event_log s')"
    and app: "\<And>m q. apply_event \<lparr> WatchEvent_seq = q, WatchEvent_event_type = ty,
        WatchEvent_key = k, WatchEvent_value = v \<rparr> m = m(k := w)"
    and content: "content (StateStore_db s'') = (content (StateStore_db s'))(k := w)"
  shows "replay_inv content s (Suc n) s''"
proof -
  let ?L = "StateStore_event_log s" and ?L' = "StateStore_event_log s'"
  obtain old new where evs: "EventLog_events ?L' = old @ new"
    and old: "\<forall>e \<in> set old. WatchEvent_seq e \<le> EventLog_seq ?L"
    and new: "\<forall>e \<in> set new. EventLog_seq ?L < WatchEvent_seq e" and len: "length new = n"
    and fold: "fold apply_event new (content (StateStore_db s)) = content (StateStore_db s')"
    and seq: "unat (EventLog_seq ?L') = unat (EventLog_seq ?L) + n"
    and mx: "EventLog_max_events ?L' = EventLog_max_events ?L"
    using inv by (auto simp: replay_inv_def)
  let ?e = "\<lparr> WatchEvent_seq = EventLog_seq ?L' + 1, WatchEvent_event_type = ty,
      WatchEvent_key = k, WatchEvent_value = v \<rparr>"
  let ?old = "if EventLog_max_events ?L' \<le> length (old @ new) then drop 1 old else old"
  have "drop 1 (old @ new) = drop 1 old @ new" if "EventLog_max_events ?L' \<le> length (old @ new)"
    using that n len mx by (cases old) auto
  then have evs': "EventLog_events (StateStore_event_log s'') = ?old @ (new @ [?e])"
    by (simp add: log emit_events evs)
  have seq': "unat (EventLog_seq ?L' + 1) = unat (EventLog_seq ?L) + Suc n"
    using bound seq by (simp add: unat_Suc_u64)
  then have "EventLog_seq ?L < EventLog_seq ?L' + 1" by (simp add: word_less_nat_alt)
  with new have new': "\<forall>e \<in> set (new @ [?e]). EventLog_seq ?L < WatchEvent_seq e" by auto
  have fold': "fold apply_event (new @ [?e]) (content (StateStore_db s)) = content (StateStore_db s'')"
    by (simp add: fold app content)
  have old': "\<forall>e \<in> set ?old. WatchEvent_seq e \<le> EventLog_seq ?L"
    using old by (auto dest: in_set_dropD)
  have "length (new @ [?e]) = Suc n" using len by simp
  with evs' old' new' fold' seq' mx show ?thesis
    unfolding replay_inv_def log emit_fields by blast
qed

lemma replay_inv_mutate:
  assumes "mutate D m s' = (Inr u, s'')" "replay_inv content s n s'"
    and "n < EventLog_max_events (StateStore_event_log s)"
    and "unat (EventLog_seq (StateStore_event_log s)) + Suc n < 2 ^ 64"
  shows "replay_inv content s (Suc n) s''"
proof (cases m)
  case (Put_m k v)
  then show ?thesis
    using assms store_put_ok [of k v s' u s'']
    by (intro replay_inv_emit [where k = k and w = "Some v" and ty = Ev_Put and v = "Some v", OF assms(2-4)])
      (auto simp: apply_event_def)
next
  case (Delete_m k)
  then show ?thesis
    using assms store_delete_ok [of k s' u s'']
    by (intro replay_inv_emit [where k = k and w = None and ty = Ev_Delete and v = None, OF assms(2-4)])
      (auto simp: apply_event_def)
qed

lemma replay_inv_mutate_all:
  assumes "mutate_all D ms s = (Inr u, s')" and "log_inv (StateStore_event_log s)"
    and "length ms \<le> EventLog_max_events (StateStore_event_log s)"
    and "unat (EventLog_seq (StateStore_event_log s)) + length ms < 2 ^ 64"
  shows "replay_inv content s (length ms) s'"
proof -
  have "triple (replay_inv content s (length ([] :: 'v mutation list))) (forM ms (mutate D))
      (\<lambda>_. replay_inv content s (length ms)) (\<lambda>_. True)"
  proof (rule triple_for [where I = "\<lambda>ys. replay_inv content s (length ys)"])
    fix ys m zs assume ms: "ms = ys @ m # zs"
    show "triple (replay_inv content s (length ys)) (mutate D m)
        (\<lambda>_. replay_inv content s (length (ys @ [m]))) (\<lambda>_. True)"
      by (rule tripleI) (use ms assms(3,4) in \<open>auto intro!: replay_inv_mutate\<close>)
  qed
  then show ?thesis
    using triple_ok replay_inv_start [OF assms(2)] assms(1) by (fastforce simp: mutate_all_def)
qed

lemma events_since_replay:
  "replay_inv content s n s' \<Longrightarrow>
   fold apply_event (events_since (StateStore_event_log s') (current_seq (StateStore_event_log s)))
     (content (StateStore_db s)) = content (StateStore_db s')"
  by (fastforce simp: replay_inv_def events_since_def current_seq_def filter_empty_conv not_less
      filter_id_conv)

end

section \<open>Properties\<close>

text \<open>C2: a watcher that knows the content at a sequence number and applies \<open>events_since\<close> that number
  holds the content of the database now, as long as the log has not evicted events the watcher
  misses (no more mutations than the log holds) and the 64-bit counter has not wrapped.\<close>

theorem watch_replay:
  assumes "slatedb D content" and "mutate_all D ms s = (Inr u, s')"
    and "log_inv (StateStore_event_log s)"
    and "length ms \<le> EventLog_max_events (StateStore_event_log s)"
    and "unat (EventLog_seq (StateStore_event_log s)) + length ms < 2 ^ 64"
  shows "fold apply_event
      (events_since (StateStore_event_log s') (current_seq (StateStore_event_log s)))
      (content (StateStore_db s)) = content (StateStore_db s')"
  using slatedb.events_since_replay [OF assms(1)] slatedb.replay_inv_mutate_all [OF assms(1)] assms(2-)
  by blast

definition watch_start :: "((string \<times> nat) list, nat) StateStore" where
  "watch_start = \<lparr> StateStore_db = [(''/a'', 1)], StateStore_event_log = EventLog_new 3 \<rparr>"

theorem watch_replay_witness:
  "\<exists>s'. mutate_all mem_slatedb [Put_m ''/b'' 2, Delete_m ''/a'', Put_m ''/b'' 3] watch_start
        = (Inr (), s') \<and>
     fold apply_event (events_since (StateStore_event_log s') 0) (map_of [(''/a'', 1)]) =
       map_of (StateStore_db s')"
proof -
  let ?ms = "[Put_m ''/b'' 2, Delete_m ''/a'', Put_m ''/b'' 3] :: nat mutation list"
  obtain s' where run: "mutate_all mem_slatedb ?ms watch_start = (Inr (), s')"
    by (simp add: mutate_all_def action_defs store_put_def store_delete_def mem_slatedb_def)
  from watch_replay [OF mem.slatedb_axioms this] run show ?thesis
    by (simp add: watch_start_def log_inv_new EventLog_new_def log_inv_def current_seq_def)
qed

text \<open>Every mutation keeps the log's invariant: the retained events carry consecutive sequence
  numbers ending at the current one, and there are at most \<open>max_events\<close> of them.\<close>

theorem event_log_consecutive:
  assumes "log_inv log" and "Suc (unat (EventLog_seq log)) < 2 ^ 64"
  shows "log_inv (emit ty k v log) \<and>
    unat (current_seq (emit ty k v log)) = Suc (unat (current_seq log))"
  using log_inv_emit [OF assms] unat_Suc_u64 [OF assms(2)] by (simp add: current_seq_def)

theorem event_log_consecutive_witness:
  "log_inv (emit Ev_Put ''/a'' (Some 1) (emit Ev_Delete ''/a'' None (EventLog_new 1 :: nat EventLog)))"
proof -
  have "log_inv (emit Ev_Delete ''/a'' None (EventLog_new 1 :: nat EventLog))"
    by (rule log_inv_emit [OF log_inv_new]) (simp_all add: EventLog_new_def)
  from event_log_consecutive [OF this] show ?thesis by (simp add: EventLog_new_def)
qed

text \<open>A scan whose iterator fails midway is reported as a success with the entries before the
  failure: \<open>list_prefix\<close> does not tell a complete listing from a truncated one.\<close>

theorem list_prefix_truncates:
  assumes "db_scan_prefix D (StateStore_db s) p = Inr (map Inr kvs @ Inl e # items)"
  shows "list_prefix D p s = (Inr kvs, s)"
proof -
  have "drain_iter (map Inr kvs @ Inl e # items) = kvs" by (induction kvs) auto
  with assms show ?thesis by (simp add: list_prefix_def)
qed

theorem list_prefix_truncates_witness:
  "list_prefix (mem_slatedb\<lparr>db_scan_prefix := (\<lambda>_ _. Inr [Inr (''/a'', 1), Inl (Err ''io''), Inr (''/b'', 2)])\<rparr>)
     ''/'' watch_start = (Inr [(''/a'', 1)], watch_start)"
  by (rule list_prefix_truncates [where e = "Err ''io''" and items = "[Inr (''/b'', 2)]"]) simp

text \<open>Where iterators do not fail, \<open>list_prefix\<close> returns exactly the entries under the prefix, each
  key once and in key order, and changes nothing.\<close>

theorem list_prefix_exact:
  assumes "slatedb_scan D content" and "list_prefix D p s = (Inr kvs, s')"
  shows "s' = s \<and> sorted (map fst kvs) \<and> distinct (map fst kvs) \<and>
    map_of kvs = content (StateStore_db s) |` {k. prefix p k}"
  using slatedb_scan.list_prefix_ok [OF assms] slatedb_scan.list_prefix_map_of [OF assms]
  by (auto simp: restrict_map_def fun_eq_iff)

theorem list_prefix_exact_witness:
  "\<exists>kvs. list_prefix mem_slatedb ''/'' watch_start = (Inr kvs, watch_start) \<and>
    sorted (map fst kvs) \<and> map_of kvs = map_of [(''/a'', 1)] |` {k. prefix ''/'' k}"
proof -
  obtain kvs where run: "list_prefix mem_slatedb ''/'' watch_start = (Inr kvs, watch_start)"
    by (simp add: list_prefix_def mem_slatedb_def drain_iter_ok)
  from list_prefix_exact [OF mem.slatedb_scan_axioms this] run show ?thesis
    by (auto simp: watch_start_def)
qed

end
