(* ===== verification/K3_Types.thy ===== *)
theory K3_Types
  imports K3_Prelude
begin

text \<open>
  The resource types of \<open>pkg/types/src\<close>, one record or datatype per Rust struct or enum, with the
  struct's name in front of each field (records share one name space) and the enum's in front of
  each constructor. \<open>HashMap\<close> fields are association lists, \<open>DateTime<Utc>\<close> is nanoseconds since the
  epoch, optional fields are \<open>option\<close> values. The serde attributes are not modelled: encoding and
  decoding are parameters of the components that use them.
\<close>

type_synonym DateTime = int
type_synonym labels = "(string, string) hmap"

definition secs :: "int \<Rightarrow> int" where
  "secs n = n * 1000000000"

section \<open>Volumes (volume.rs)\<close>

record VolumeMount =
  VolumeMount_name :: string
  VolumeMount_mount_path :: string
  VolumeMount_read_only :: bool

datatype VolumeSource =
    HostPath string
  | EmptyDir
  | VolumeSource_PersistentVolumeClaim string
  | VolumeSource_ConfigMap string
  | VolumeSource_Secret string

record Volume =
  Volume_name :: string
  Volume_source :: VolumeSource

section \<open>Pods (pod.rs)\<close>

record ResourceRequirements =
  cpu_millis :: u64
  memory_bytes :: u64

record ContainerSpec =
  ContainerSpec_name :: string
  ContainerSpec_image :: string
  ContainerSpec_command :: "string list"
  ContainerSpec_args :: "string list"
  ContainerSpec_env :: labels
  ContainerSpec_resources :: ResourceRequirements
  ContainerSpec_volume_mounts :: "VolumeMount list"

datatype PodStatus =
    Pod_Pending
  | Pod_Scheduled
  | Pod_ContainerCreating
  | Pod_Running
  | Pod_Succeeded
  | Pod_Failed
  | Pod_Unknown

datatype TolerationOperator = Op_Equal | Op_Exists

datatype TaintEffect = NoSchedule | PreferNoSchedule | NoExecute

record Toleration =
  Toleration_key :: string
  Toleration_operator :: TolerationOperator
  Toleration_value :: string
  Toleration_effect :: TaintEffect

record PodSpec =
  PodSpec_containers :: "ContainerSpec list"
  PodSpec_runtime :: "string option"
  PodSpec_node_affinity :: labels
  PodSpec_tolerations :: "Toleration list"
  PodSpec_volumes :: "Volume list"
  PodSpec_vpc :: "string option"

record PodRuntimeInfo =
  PodRuntimeInfo_backend :: string
  PodRuntimeInfo_version :: string

record Pod =
  Pod_id :: string
  Pod_name :: string
  Pod_namespace :: string
  Pod_spec :: PodSpec
  Pod_status :: PodStatus
  Pod_status_message :: "string option"
  Pod_container_id :: "string option"
  Pod_node_name :: "string option"
  Pod_labels :: labels
  Pod_owner_ref :: "string option"
  Pod_restart_count :: u32
  Pod_runtime_info :: "PodRuntimeInfo option"
  Pod_ghost_ipv6 :: "string option"
  Pod_vpc_name :: "string option"
  Pod_created_at :: DateTime

section \<open>Nodes (node.rs)\<close>

datatype NodeStatus = Node_Ready | Node_NotReady | Node_Unknown

record Taint =
  Taint_key :: string
  Taint_value :: string
  Taint_effect :: TaintEffect

record Node =
  Node_id :: string
  Node_name :: string
  Node_address :: string
  Node_agent_api_port :: u16
  Node_status :: NodeStatus
  Node_registered_at :: DateTime
  Node_last_heartbeat :: DateTime
  Node_labels :: labels
  Node_taints :: "Taint list"
  Node_capacity :: ResourceRequirements
  Node_allocated :: ResourceRequirements
  Node_unschedulable :: bool
  Node_wg_public_key :: "string option"
  Node_wg_endpoint :: "string option"

section \<open>VPCs and peerings (vpc.rs)\<close>

datatype VpcStatus = Vpc_Active | Vpc_Terminating | Vpc_Deleted

record Vpc =
  Vpc_name :: string
  Vpc_vpc_id :: u16
  Vpc_ipv4_cidr :: string
  Vpc_status :: VpcStatus
  Vpc_created_at :: DateTime
  Vpc_deleted_at :: "DateTime option"

datatype PeeringDirection = Bidirectional | InitiatorOnly

datatype PeeringStatus = Peering_Active | Peering_Inactive

record VpcPeering =
  VpcPeering_name :: string
  VpcPeering_vpc_a :: string
  VpcPeering_vpc_b :: string
  VpcPeering_direction :: PeeringDirection
  VpcPeering_status :: PeeringStatus
  VpcPeering_created_at :: DateTime

section \<open>Workloads (replicaset.rs, deployment.rs, job.rs, daemonset.rs, hpa.rs)\<close>

record ReplicaSetStatus =
  ReplicaSetStatus_replicas :: u32
  ReplicaSetStatus_ready_replicas :: u32
  ReplicaSetStatus_available_replicas :: u32

record ReplicaSetSpec =
  ReplicaSetSpec_replicas :: u32
  ReplicaSetSpec_selector :: labels
  ReplicaSetSpec_template :: PodSpec

record ReplicaSet =
  ReplicaSet_id :: string
  ReplicaSet_name :: string
  ReplicaSet_namespace :: string
  ReplicaSet_spec :: ReplicaSetSpec
  ReplicaSet_status :: ReplicaSetStatus
  ReplicaSet_owner_ref :: "string option"
  ReplicaSet_template_hash :: string
  ReplicaSet_created_at :: DateTime

datatype DeploymentStrategy =
    RollingUpdate (max_surge: u32) (max_unavailable: u32)
  | Recreate
  | BlueGreen
  | Canary (weight: u32)

record DeploymentStatus =
  DeploymentStatus_ready_replicas :: u32
  DeploymentStatus_available_replicas :: u32
  DeploymentStatus_updated_replicas :: u32

record DeploymentSpec =
  DeploymentSpec_replicas :: u32
  DeploymentSpec_template :: PodSpec
  DeploymentSpec_strategy :: DeploymentStrategy
  DeploymentSpec_selector :: labels

record Deployment =
  Deployment_id :: string
  Deployment_name :: string
  Deployment_namespace :: string
  Deployment_spec :: DeploymentSpec
  Deployment_status :: DeploymentStatus
  Deployment_generation :: u64
  Deployment_observed_generation :: u64
  Deployment_created_at :: DateTime

datatype JobCondition = Job_Running | Job_Complete | Job_Failed

record JobStatus =
  JobStatus_active :: u32
  JobStatus_succeeded :: u32
  JobStatus_failed :: u32
  JobStatus_condition :: JobCondition
  JobStatus_start_time :: "DateTime option"
  JobStatus_completion_time :: "DateTime option"

record JobSpec =
  JobSpec_template :: PodSpec
  JobSpec_completions :: u32
  JobSpec_parallelism :: u32
  JobSpec_backoff_limit :: u32

record Job =
  Job_id :: string
  Job_name :: string
  Job_namespace :: string
  Job_spec :: JobSpec
  Job_status :: JobStatus
  Job_owner_ref :: "string option"
  Job_created_at :: DateTime

record CronJobStatus =
  CronJobStatus_last_schedule_time :: "DateTime option"
  CronJobStatus_active_jobs :: "string list"

record CronJobSpec =
  CronJobSpec_schedule :: string
  CronJobSpec_job_template :: JobSpec
  CronJobSpec_suspend :: bool

record CronJob =
  CronJob_id :: string
  CronJob_name :: string
  CronJob_namespace :: string
  CronJob_spec :: CronJobSpec
  CronJob_status :: CronJobStatus
  CronJob_created_at :: DateTime

record DaemonSetStatus =
  DaemonSetStatus_desired_number_scheduled :: u32
  DaemonSetStatus_current_number_scheduled :: u32
  DaemonSetStatus_number_ready :: u32

record DaemonSetSpec =
  DaemonSetSpec_template :: PodSpec
  DaemonSetSpec_node_selector :: labels

record DaemonSet =
  DaemonSet_id :: string
  DaemonSet_name :: string
  DaemonSet_namespace :: string
  DaemonSet_spec :: DaemonSetSpec
  DaemonSet_status :: DaemonSetStatus
  DaemonSet_created_at :: DateTime

record MetricTarget =
  cpu_utilization_percent :: "u32 option"
  memory_utilization_percent :: "u32 option"

record HPAStatus =
  HPAStatus_current_replicas :: u32
  HPAStatus_desired_replicas :: u32
  HPAStatus_current_cpu_utilization_percent :: "u32 option"
  HPAStatus_current_memory_utilization_percent :: "u32 option"
  HPAStatus_last_scale_time :: "DateTime option"

record HPASpec =
  HPASpec_target_deployment :: string
  HPASpec_min_replicas :: u32
  HPASpec_max_replicas :: u32
  HPASpec_metrics :: MetricTarget

record HorizontalPodAutoscaler =
  HPA_id :: string
  HPA_name :: string
  HPA_namespace :: string
  HPA_spec :: HPASpec
  HPA_status :: HPAStatus
  HPA_created_at :: DateTime

section \<open>Services and endpoints (service.rs, endpoint.rs)\<close>

datatype ServiceType = ClusterIP | NodePort | LoadBalancer

record ServicePort =
  ServicePort_name :: string
  ServicePort_port :: u16
  ServicePort_target_port :: u16
  ServicePort_node_port :: "u16 option"

record ServiceSpec =
  ServiceSpec_selector :: labels
  ServiceSpec_ports :: "ServicePort list"
  ServiceSpec_service_type :: ServiceType

record Service =
  Service_id :: string
  Service_name :: string
  Service_namespace :: string
  Service_spec :: ServiceSpec
  Service_cluster_ip :: "string option"
  Service_vpc :: "string option"
  Service_created_at :: DateTime

record EndpointAddress =
  EndpointAddress_ip :: string
  EndpointAddress_node_name :: "string option"
  EndpointAddress_pod_id :: "string option"

record EndpointPort =
  EndpointPort_name :: string
  EndpointPort_port :: u16
  EndpointPort_protocol :: string

record Endpoint =
  Endpoint_id :: string
  Endpoint_service_id :: string
  Endpoint_service_name :: string
  Endpoint_namespace :: string
  Endpoint_addresses :: "EndpointAddress list"
  Endpoint_ports :: "EndpointPort list"
  Endpoint_created_at :: DateTime

section \<open>Resource names (validate.rs)\<close>

definition is_ascii_lowercase :: "char \<Rightarrow> bool" where
  "is_ascii_lowercase c \<longleftrightarrow> 97 \<le> (of_char c :: nat) \<and> (of_char c :: nat) \<le> 122"

definition validate_name :: "string \<Rightarrow> unit result" where
  "validate_name name =
     (if name = [] then Inl (Err ''name must not be empty'')
      else if 63 < length name then Inl (Err ''exceeds 63 characters'')
      else if hd name = CHR ''-'' \<or> last name = CHR ''-'' then
        Inl (Err ''must not start or end with a hyphen'')
      else if \<not> list_all (\<lambda>c. is_ascii_lowercase c \<or> is_digit c \<or> c = CHR ''-'') name then
        Inl (Err ''must contain only lowercase letters, digits, and hyphens'')
      else Inr ())"

text \<open>
  A valid name never contains the separator of registry keys, so it is one path component there.
\<close>

lemma validate_name_no_slash: "validate_name s = Inr () \<Longrightarrow> CHR ''/'' \<notin> set s \<and> s \<noteq> []"
  by (auto simp: validate_name_def list_all_iff is_ascii_lowercase_def is_digit_def split: if_splits)

section \<open>Concrete resources\<close>

text \<open>Minimal values of the main types: the concrete runs of the development are built from them.\<close>

definition no_resources :: ResourceRequirements where
  "no_resources = \<lparr> cpu_millis = 0, memory_bytes = 0 \<rparr>"

definition empty_spec :: PodSpec where
  "empty_spec = \<lparr> PodSpec_containers = [], PodSpec_runtime = None, PodSpec_node_affinity = [],
     PodSpec_tolerations = [], PodSpec_volumes = [], PodSpec_vpc = None \<rparr>"

definition sample_pod :: "string \<Rightarrow> Pod" where
  "sample_pod name = \<lparr> Pod_id = name, Pod_name = name, Pod_namespace = ''default'',
     Pod_spec = empty_spec, Pod_status = Pod_Pending, Pod_status_message = None,
     Pod_container_id = None, Pod_node_name = None, Pod_labels = [], Pod_owner_ref = None,
     Pod_restart_count = 0, Pod_runtime_info = None, Pod_ghost_ipv6 = None, Pod_vpc_name = None,
     Pod_created_at = 0 \<rparr>"

definition sample_node :: "string \<Rightarrow> Node" where
  "sample_node name = \<lparr> Node_id = name, Node_name = name, Node_address = ''10.0.0.1'',
     Node_agent_api_port = 10250, Node_status = Node_Ready, Node_registered_at = 0,
     Node_last_heartbeat = 0, Node_labels = [], Node_taints = [], Node_capacity = no_resources,
     Node_allocated = no_resources, Node_unschedulable = False, Node_wg_public_key = None,
     Node_wg_endpoint = None \<rparr>"

end
