(* ===== verification/Registry.thy ===== *)
theory Registry
  imports State_Store K3_Types
begin

text \<open>
  What the control-plane components share: the JSON codecs of the resource types (serde is
  third-party code, so each codec is a pair of functions and a parameter), the sources of fresh
  UUIDs and of the clock (parameters as well), the state they thread (the store, the scheduler's
  counter, the number of UUIDs and clock values drawn so far), the codec laws as a locale, and
  the registry keys.
\<close>

section \<open>Codecs\<close>

record ('v, 'a) codec =
  to_vec :: "'a \<Rightarrow> 'v result"
  from_slice :: "'v \<Rightarrow> 'a result"

text \<open>Decoding an encoded value gives it back.\<close>

definition codec_ok :: "('v, 'a) codec \<Rightarrow> bool" where
  "codec_ok c \<longleftrightarrow> (\<forall>x v. to_vec c x = Inr v \<longrightarrow> from_slice c v = Inr x)"

lemma codec_okD: "codec_ok c \<Longrightarrow> to_vec c x = Inr v \<Longrightarrow> from_slice c v = Inr x"
  by (simp add: codec_ok_def)

text \<open>\<open>filter_map(|(_, v)| from_slice(&v).ok())\<close> over listed entries, with and without the keys.\<close>

definition decoded :: "('v, 'a) codec \<Rightarrow> (string \<times> 'v) list \<Rightarrow> (string \<times> 'a) list" where
  "decoded c kvs = List.map_filter (\<lambda>(k, v). map_option (Pair k) (ok (from_slice c v))) kvs"

definition decoded_values :: "('v, 'a) codec \<Rightarrow> (string \<times> 'v) list \<Rightarrow> 'a list" where
  "decoded_values c kvs = map snd (decoded c kvs)"

lemma set_decoded: "(k, x) \<in> set (decoded c kvs) \<longleftrightarrow> (\<exists>v. (k, v) \<in> set kvs \<and> from_slice c v = Inr x)"
  by (force simp: decoded_def List.map_filter_def ok_def split: sum.splits)

lemma decoded_Nil [simp]: "decoded c [] = []"
  by (simp add: decoded_def List.map_filter_def)

lemma decoded_Cons: "decoded c ((k, v) # kvs) =
    (case from_slice c v of Inl _ \<Rightarrow> decoded c kvs | Inr x \<Rightarrow> (k, x) # decoded c kvs)"
  by (simp add: decoded_def List.map_filter_def ok_def split: sum.splits)

lemma decoded_keys: "set (map fst (decoded c kvs)) \<subseteq> set (map fst kvs)"
  by (force simp: set_decoded)

lemma distinct_decoded: "distinct (map fst kvs) \<Longrightarrow> distinct (map fst (decoded c kvs))"
proof (induction kvs)
  case (Cons kv kvs)
  then show ?case
    using decoded_keys [of c kvs] by (cases kv) (auto simp: decoded_Cons split: sum.splits)
qed simp

record 'v serde =
  Pod_codec :: "('v, Pod) codec"
  Node_codec :: "('v, Node) codec"
  ReplicaSet_codec :: "('v, ReplicaSet) codec"
  Deployment_codec :: "('v, Deployment) codec"
  Job_codec :: "('v, Job) codec"
  CronJob_codec :: "('v, CronJob) codec"
  DaemonSet_codec :: "('v, DaemonSet) codec"
  HPA_codec :: "('v, HorizontalPodAutoscaler) codec"
  Service_codec :: "('v, Service) codec"
  Endpoint_codec :: "('v, Endpoint) codec"
  Vpc_codec :: "('v, Vpc) codec"
  VpcPeering_codec :: "('v, VpcPeering) codec"

definition serde_ok :: "'v serde \<Rightarrow> bool" where
  "serde_ok C \<longleftrightarrow>
     codec_ok (Pod_codec C) \<and> codec_ok (Node_codec C) \<and> codec_ok (ReplicaSet_codec C) \<and>
     codec_ok (Deployment_codec C) \<and> codec_ok (Job_codec C) \<and> codec_ok (CronJob_codec C) \<and>
     codec_ok (DaemonSet_codec C) \<and> codec_ok (HPA_codec C) \<and> codec_ok (Service_codec C) \<and>
     codec_ok (Endpoint_codec C) \<and> codec_ok (Vpc_codec C) \<and> codec_ok (VpcPeering_codec C)"

section \<open>The state controllers and handlers thread\<close>

text \<open>\<open>new_v4 i\<close> is the i-th UUID drawn, \<open>utc_now i\<close> the i-th reading of the clock.\<close>

record env =
  new_v4 :: "nat \<Rightarrow> string"
  utc_now :: "nat \<Rightarrow> DateTime"

record ('db, 'v) world = "('db, 'v) StateStore" +
  rr_index :: u64
  uuid_draws :: nat
  clock_reads :: nat

definition draw_uuid :: "env \<Rightarrow> (('db, 'v) world, string) act" where
  "draw_uuid E w = (Inr (new_v4 E (uuid_draws w)), w\<lparr>uuid_draws := Suc (uuid_draws w)\<rparr>)"

definition read_clock :: "env \<Rightarrow> (('db, 'v) world, DateTime) act" where
  "read_clock E w = (Inr (utc_now E (clock_reads w)), w\<lparr>clock_reads := Suc (clock_reads w)\<rparr>)"

text \<open>Encode and write back: \<open>let data = serde_json::to_vec(&x)?; store.put(&key, &data).await?\<close>.\<close>

definition put_json ::
  "('db, 'v) SlateDb \<Rightarrow> ('v, 'a) codec \<Rightarrow> string \<Rightarrow> 'a \<Rightarrow> (('db, 'v, 'z) StateStore_scheme, unit) act" where
  "put_json D c key x = bindM (liftR (to_vec c x)) (\<lambda>data. store_put D key data)"

section \<open>Registry keys\<close>

definition pods_prefix :: "string \<Rightarrow> string" where
  "pods_prefix ns = ''/registry/pods/'' @ ns @ ''/''"

definition replicasets_prefix :: "string \<Rightarrow> string" where
  "replicasets_prefix ns = ''/registry/replicasets/'' @ ns @ ''/''"

definition deployments_prefix :: "string \<Rightarrow> string" where
  "deployments_prefix ns = ''/registry/deployments/'' @ ns @ ''/''"

definition jobs_prefix :: "string \<Rightarrow> string" where
  "jobs_prefix ns = ''/registry/jobs/'' @ ns @ ''/''"

definition cronjobs_prefix :: "string \<Rightarrow> string" where
  "cronjobs_prefix ns = ''/registry/cronjobs/'' @ ns @ ''/''"

definition daemonsets_prefix :: "string \<Rightarrow> string" where
  "daemonsets_prefix ns = ''/registry/daemonsets/'' @ ns @ ''/''"

definition hpa_prefix :: "string \<Rightarrow> string" where
  "hpa_prefix ns = ''/registry/hpa/'' @ ns @ ''/''"

definition nodes_prefix :: string where
  "nodes_prefix = ''/registry/nodes/''"

definition namespaces_prefix :: string where
  "namespaces_prefix = ''/registry/namespaces/''"

lemmas key_defs = pods_prefix_def replicasets_prefix_def deployments_prefix_def jobs_prefix_def
  cronjobs_prefix_def daemonsets_prefix_def hpa_prefix_def nodes_prefix_def namespaces_prefix_def

text \<open>Different resource kinds have disjoint key ranges.\<close>

lemma pods_not_replicasets: "prefix (pods_prefix ns) k \<Longrightarrow> \<not> prefix (replicasets_prefix ns') k"
  by (auto simp: key_defs prefix_def)

lemma pods_not_nodes: "prefix (pods_prefix ns) k \<Longrightarrow> \<not> prefix nodes_prefix k"
  by (auto simp: key_defs prefix_def)

section \<open>What the components rely on\<close>

locale registry = slatedb_scan D content
  for D :: "('db, 'v) SlateDb" and content :: "'db \<Rightarrow> string \<rightharpoonup> 'v" +
  fixes C :: "'v serde"
  assumes serde: "serde_ok C"
begin

lemma codecs [simp]:
  "codec_ok (Pod_codec C)" "codec_ok (Node_codec C)" "codec_ok (ReplicaSet_codec C)"
  "codec_ok (Deployment_codec C)" "codec_ok (Job_codec C)" "codec_ok (CronJob_codec C)"
  "codec_ok (DaemonSet_codec C)" "codec_ok (HPA_codec C)" "codec_ok (Service_codec C)"
  "codec_ok (Endpoint_codec C)" "codec_ok (Vpc_codec C)" "codec_ok (VpcPeering_codec C)"
  using serde by (simp_all add: serde_ok_def)

text \<open>The resource stored under a key, if there is one that decodes.\<close>

definition stored :: "('v, 'a) codec \<Rightarrow> ('db, 'v, 'z) StateStore_scheme \<Rightarrow> string \<Rightarrow> 'a option" where
  "stored c s k = Option.bind (lookup s k) (\<lambda>v. ok (from_slice c v))"

lemma put_json_ok:
  assumes "put_json D c key x s = (Inr u, s')" "codec_ok c"
  shows "\<exists>v. to_vec c x = Inr v \<and> from_slice c v = Inr x \<and> lookup s' = (lookup s)(key \<mapsto> v)"
    and "StateStore.more s' = StateStore.more s"
  using assms store_put_ok
  by (auto simp: put_json_def action_defs split: sum.splits prod.splits dest: codec_okD)

lemma put_json_err:
  assumes "put_json D c key x s = (Inl e, s')"
  shows "lookup s' = lookup s \<or> (\<exists>v. to_vec c x = Inr v \<and> lookup s' = (lookup s)(key \<mapsto> v))"
    and "StateStore.more s' = StateStore.more s"
  using assms
  by (auto simp: put_json_def action_defs split: sum.splits prod.splits dest: store_put_err)

lemma put_json_stored:
  assumes "put_json D c key x s = (Inr u, s')" "codec_ok c"
  shows "stored c s' k = (if k = key then Some x else stored c s k)"
  using put_json_ok(1) [OF assms] by (auto simp: stored_def)

lemma put_json_other:
  "put_json D c key x s = (r, s') \<Longrightarrow> k \<noteq> key \<Longrightarrow> lookup s' k = lookup s k"
  by (auto simp: put_json_def action_defs split: sum.splits prod.splits dest: store_put_other)

lemma list_decoded:
  assumes "list_prefix D p s = (Inr kvs, s')"
  shows "(k, x) \<in> set (decoded c kvs) \<longleftrightarrow> prefix p k \<and> stored c s k = Some x"
    and "distinct (map fst (decoded c kvs))"
proof -
  have "(k, x) \<in> set (decoded c kvs) \<longleftrightarrow>
      (\<exists>v. prefix p k \<and> lookup s k = Some v \<and> from_slice c v = Inr x)"
    by (simp add: set_decoded list_prefix_lookup [OF assms])
  also have "\<dots> \<longleftrightarrow> prefix p k \<and> stored c s k = Some x"
    by (auto simp: stored_def bind_eq_Some_conv)
  finally show "(k, x) \<in> set (decoded c kvs) \<longleftrightarrow> prefix p k \<and> stored c s k = Some x" .
  show "distinct (map fst (decoded c kvs))"
    using list_prefix_ok(3) [OF assms] by (rule distinct_decoded)
qed

end

section \<open>Codecs that satisfy the laws\<close>

text \<open>
  Values tagged by their type: decoding takes the tag off. The witnesses run on these codecs and
  the in-memory table.
\<close>

datatype json =
    V_Pod Pod | V_Node Node | V_ReplicaSet ReplicaSet | V_Deployment Deployment | V_Job Job
  | V_CronJob CronJob | V_DaemonSet DaemonSet | V_HPA HorizontalPodAutoscaler | V_Service Service
  | V_Endpoint Endpoint | V_Vpc Vpc | V_VpcPeering VpcPeering | V_Raw string

definition tag_codec :: "('a \<Rightarrow> 'j) \<Rightarrow> ('j \<Rightarrow> 'a option) \<Rightarrow> ('j, 'a) codec" where
  "tag_codec tg prj = \<lparr> to_vec = Inr \<circ> tg, from_slice = (\<lambda>v. ok_or (prj v) ''type'') \<rparr>"

definition tag_serde :: "json serde" where
  "tag_serde = \<lparr>
     Pod_codec = tag_codec V_Pod (\<lambda>v. case v of V_Pod x \<Rightarrow> Some x | _ \<Rightarrow> None),
     Node_codec = tag_codec V_Node (\<lambda>v. case v of V_Node x \<Rightarrow> Some x | _ \<Rightarrow> None),
     ReplicaSet_codec = tag_codec V_ReplicaSet (\<lambda>v. case v of V_ReplicaSet x \<Rightarrow> Some x | _ \<Rightarrow> None),
     Deployment_codec = tag_codec V_Deployment (\<lambda>v. case v of V_Deployment x \<Rightarrow> Some x | _ \<Rightarrow> None),
     Job_codec = tag_codec V_Job (\<lambda>v. case v of V_Job x \<Rightarrow> Some x | _ \<Rightarrow> None),
     CronJob_codec = tag_codec V_CronJob (\<lambda>v. case v of V_CronJob x \<Rightarrow> Some x | _ \<Rightarrow> None),
     DaemonSet_codec = tag_codec V_DaemonSet (\<lambda>v. case v of V_DaemonSet x \<Rightarrow> Some x | _ \<Rightarrow> None),
     HPA_codec = tag_codec V_HPA (\<lambda>v. case v of V_HPA x \<Rightarrow> Some x | _ \<Rightarrow> None),
     Service_codec = tag_codec V_Service (\<lambda>v. case v of V_Service x \<Rightarrow> Some x | _ \<Rightarrow> None),
     Endpoint_codec = tag_codec V_Endpoint (\<lambda>v. case v of V_Endpoint x \<Rightarrow> Some x | _ \<Rightarrow> None),
     Vpc_codec = tag_codec V_Vpc (\<lambda>v. case v of V_Vpc x \<Rightarrow> Some x | _ \<Rightarrow> None),
     VpcPeering_codec = tag_codec V_VpcPeering (\<lambda>v. case v of V_VpcPeering x \<Rightarrow> Some x | _ \<Rightarrow> None) \<rparr>"

lemma tag_codec_ok: "(\<And>x. prj (tg x) = Some x) \<Longrightarrow> codec_ok (tag_codec tg prj)"
  by (auto simp: codec_ok_def tag_codec_def ok_or_def)

interpretation memreg: registry mem_slatedb map_of tag_serde
  by unfold_locales (simp add: serde_ok_def tag_serde_def tag_codec_ok)

end
