(* ===== verification/Leader_Election.thy ===== *)
theory Leader_Election
  imports Registry
begin

text \<open>
  Leader election over a lease in the store (\<open>pkg/state/src/leader.rs\<close>). \<open>try_acquire_or_renew\<close> reads
  the lease and may write it; \<open>election_tick\<close> is one turn of a server's loop. Two step relations
  model several servers on one store: in the first a turn is atomic, and then at most one server
  considers itself leader within the lease time; in the second the read and the write of a turn
  are separate steps, as in the code, and two servers can win the same lease.
\<close>

section \<open>The lease\<close>

record Lease =
  Lease_id :: string
  Lease_holder_id :: string
  Lease_acquired_at :: DateTime
  Lease_renew_at :: DateTime
  Lease_ttl_seconds :: u64

definition LEADER_LEASE_KEY :: string where
  "LEADER_LEASE_KEY = ''/registry/leases/controller-leader''"

definition LEADER_LEASE_TTL_SECS :: u64 where
  "LEADER_LEASE_TTL_SECS = 15"

definition is_expired :: "Lease \<Rightarrow> DateTime \<Rightarrow> bool" where
  "is_expired lease now = (let expiry = Lease_renew_at lease + secs (sint (Lease_ttl_seconds lease))
     in expiry < now)"

section \<open>One attempt\<close>

text \<open>
  What an attempt writes after reading the lease: a renewal, a fresh lease, or nothing. \<open>now\<close> is
  the clock at the start, \<open>now'\<close> the clock \<open>is_expired\<close> reads.
\<close>

definition new_lease :: "string \<Rightarrow> u64 \<Rightarrow> DateTime \<Rightarrow> Lease" where
  "new_lease server_id ttl now =
     \<lparr> Lease_id = ''controller-leader'', Lease_holder_id = server_id, Lease_acquired_at = now,
       Lease_renew_at = now, Lease_ttl_seconds = ttl \<rparr>"

definition lease_decision :: "Lease option \<Rightarrow> string \<Rightarrow> u64 \<Rightarrow> DateTime \<Rightarrow> DateTime \<Rightarrow> Lease option" where
  "lease_decision held server_id ttl now now' =
     (case held of
        Some lease \<Rightarrow>
          if Lease_holder_id lease = server_id then Some (lease\<lparr>Lease_renew_at := now\<rparr>)
          else if is_expired lease now' then Some (new_lease server_id ttl now)
          else None
      | None \<Rightarrow> Some (new_lease server_id ttl now))"

definition try_acquire_or_renew ::
  "('db, 'v) SlateDb \<Rightarrow> ('v, Lease) codec \<Rightarrow> string \<Rightarrow> u64 \<Rightarrow> DateTime \<Rightarrow> DateTime \<Rightarrow>
   (('db, 'v, 'z) StateStore_scheme, bool) act" where
  "try_acquire_or_renew D c server_id ttl now now' =
     bindM (store_get D LEADER_LEASE_KEY) (\<lambda>data.
     bindM (case data of
              None \<Rightarrow> returnM None
            | Some d \<Rightarrow> bindM (liftR (from_slice c d)) (\<lambda>l. returnM (Some l))) (\<lambda>held.
     case lease_decision held server_id ttl now now' of
       None \<Rightarrow> returnM False
     | Some lease \<Rightarrow> bindM (put_json D c LEADER_LEASE_KEY lease) (\<lambda>_. returnM True)))"

section \<open>Several servers, atomic turns\<close>

text \<open>
  \<open>flag i\<close> is what server \<open>i\<close> last sent on its leadership channel; \<open>last_ok i\<close> is when the last turn
  that made it leader started; \<open>clock\<close> is the latest clock value any turn has read.
\<close>

record ('db, 'v) election = "('db, 'v) StateStore" +
  leader_flag :: "string \<Rightarrow> bool"
  last_ok :: "string \<Rightarrow> DateTime"
  clock :: DateTime

definition election_tick ::
  "('db, 'v) SlateDb \<Rightarrow> ('v, Lease) codec \<Rightarrow> string \<Rightarrow> DateTime \<Rightarrow> DateTime \<Rightarrow>
   ('db, 'v) election \<Rightarrow> ('db, 'v) election" where
  "election_tick D c i now now' e =
     (case try_acquire_or_renew D c i LEADER_LEASE_TTL_SECS now now' e of
        (Inr is_leader, e') \<Rightarrow>
          e'\<lparr> leader_flag := (leader_flag e')(i := is_leader),
              last_ok := (if is_leader then (last_ok e')(i := now) else last_ok e'),
              clock := now' \<rparr>
      | (Inl _, e') \<Rightarrow> e'\<lparr> leader_flag := (leader_flag e')(i := False), clock := now' \<rparr>)"

inductive election_reach ::
  "('db, 'v) SlateDb \<Rightarrow> ('db \<Rightarrow> string \<rightharpoonup> 'v) \<Rightarrow> ('v, Lease) codec \<Rightarrow> ('db, 'v) election \<Rightarrow> bool"
  for D content c where
  start: "content (StateStore_db e) LEADER_LEASE_KEY = None \<Longrightarrow> leader_flag e = (\<lambda>_. False) \<Longrightarrow>
    election_reach D content c e"
| tick: "election_reach D content c e \<Longrightarrow> clock e \<le> now \<Longrightarrow> now \<le> now' \<Longrightarrow>
    election_reach D content c (election_tick D c i now now' e)"

section \<open>Several servers, a turn in two steps\<close>

text \<open>\<open>pending i\<close> is the decision server \<open>i\<close> took on the lease it read and has not written yet.\<close>

record ('db, 'v) racing = "('db, 'v) election" +
  pending :: "string \<Rightarrow> (Lease option \<times> DateTime) option"

definition read_step ::
  "('db, 'v) SlateDb \<Rightarrow> ('v, Lease) codec \<Rightarrow> string \<Rightarrow> DateTime \<Rightarrow> DateTime \<Rightarrow>
   ('db, 'v) racing \<Rightarrow> ('db, 'v) racing option" where
  "read_step D c i now now' e =
     (case bindM (store_get D LEADER_LEASE_KEY) (\<lambda>data.
             case data of
               None \<Rightarrow> returnM None
             | Some d \<Rightarrow> bindM (liftR (from_slice c d)) (\<lambda>l. returnM (Some l))) e of
        (Inl _, _) \<Rightarrow> None
      | (Inr held, e') \<Rightarrow>
          Some (e'\<lparr> pending := (pending e')(i \<mapsto>
                     (lease_decision held i LEADER_LEASE_TTL_SECS now now', now)),
                    clock := now' \<rparr>))"

definition write_step ::
  "('db, 'v) SlateDb \<Rightarrow> ('v, Lease) codec \<Rightarrow> string \<Rightarrow> ('db, 'v) racing \<Rightarrow> ('db, 'v) racing option" where
  "write_step D c i e =
     (case pending e i of
        None \<Rightarrow> None
      | Some (None, now) \<Rightarrow>
          Some (e\<lparr> pending := (pending e)(i := None), leader_flag := (leader_flag e)(i := False) \<rparr>)
      | Some (Some lease, now) \<Rightarrow>
          (case put_json D c LEADER_LEASE_KEY lease e of
             (Inl _, e') \<Rightarrow>
               Some (e'\<lparr> pending := (pending e')(i := None),
                         leader_flag := (leader_flag e')(i := False) \<rparr>)
           | (Inr _, e') \<Rightarrow>
               Some (e'\<lparr> pending := (pending e')(i := None),
                         leader_flag := (leader_flag e')(i := True),
                         last_ok := (last_ok e')(i := now) \<rparr>)))"

inductive racing_reach ::
  "('db, 'v) SlateDb \<Rightarrow> ('db \<Rightarrow> string \<rightharpoonup> 'v) \<Rightarrow> ('v, Lease) codec \<Rightarrow> ('db, 'v) racing \<Rightarrow> bool"
  for D content c where
  race_start: "content (StateStore_db e) LEADER_LEASE_KEY = None \<Longrightarrow> leader_flag e = (\<lambda>_. False) \<Longrightarrow>
    pending e = (\<lambda>_. None) \<Longrightarrow> racing_reach D content c e"
| race_read: "racing_reach D content c e \<Longrightarrow> clock e \<le> now \<Longrightarrow> now \<le> now' \<Longrightarrow> pending e i = None \<Longrightarrow>
    read_step D c i now now' e = Some e' \<Longrightarrow> racing_reach D content c e'"
| race_write: "racing_reach D content c e \<Longrightarrow> write_step D c i e = Some e' \<Longrightarrow>
    racing_reach D content c e'"

section \<open>Invariant of the atomic turns\<close>

context slatedb
begin

definition lease_of :: "('v, Lease) codec \<Rightarrow> ('db, 'v, 'z) StateStore_scheme \<Rightarrow> Lease option" where
  "lease_of c s = Option.bind (lookup s LEADER_LEASE_KEY) (\<lambda>v. ok (from_slice c v))"

definition election_inv :: "('v, Lease) codec \<Rightarrow> ('db, 'v) election \<Rightarrow> bool" where
  "election_inv c e \<longleftrightarrow>
     (\<forall>l. lease_of c e = Some l \<longrightarrow> Lease_ttl_seconds l = LEADER_LEASE_TTL_SECS) \<and>
     (\<forall>i. leader_flag e i \<longrightarrow>
        (\<exists>l. lease_of c e = Some l \<and> Lease_holder_id l = i \<and> last_ok e i \<le> Lease_renew_at l) \<or>
        last_ok e i + secs 15 < clock e)"

lemma lease_of_put:
  assumes "codec_ok c" "put_json D c LEADER_LEASE_KEY l s = (r, s')"
  shows "lease_of c s' = Some l \<or> (lease_of c s' = lease_of c s \<and> lookup s' = lookup s \<and> r \<noteq> Inr ())"
proof (cases "to_vec c l")
  case (Inl e)
  then show ?thesis using assms by (auto simp: put_json_def action_defs lease_of_def)
next
  case (Inr v)
  then have put: "store_put D LEADER_LEASE_KEY v s = (r, s')"
    using assms by (auto simp: put_json_def action_defs)
  have "from_slice c v = Inr l" by (rule codec_okD [OF assms(1) Inr])
  then show ?thesis
    using put by (cases r) (auto simp: lease_of_def dest: store_put_ok(1) store_put_err(1))
qed

lemma put_json_frame:
  assumes "put_json D c k x (e :: ('db, 'v) election) = (r, e')"
  shows "leader_flag e' = leader_flag e" "last_ok e' = last_ok e" "clock e' = clock e"
  using assms
  by (auto simp: put_json_def action_defs store_put_def split: sum.splits prod.splits)

text \<open>The outcomes of an attempt: a read error, a refusal, or a write that fails or succeeds.\<close>

lemma try_cases:
  assumes "try_acquire_or_renew D c i ttl now now' e = (r, e')"
  obtains (noread) "e' = e" "r \<noteq> Inr True"
      "r = Inr False \<longrightarrow> lease_decision (lease_of c e) i ttl now now' = None"
  | (wrote) l where "lease_decision (lease_of c e) i ttl now now' = Some l"
      "put_json D c LEADER_LEASE_KEY l e = (Inr (), e')" "r = Inr True"
  | (broke) l err where "lease_decision (lease_of c e) i ttl now now' = Some l"
      "put_json D c LEADER_LEASE_KEY l e = (Inl err, e')" "r = Inl err"
proof (cases "store_get D LEADER_LEASE_KEY e")
  case (Pair got e1)
  show thesis
  proof (cases got)
    case (Inl err)
    with Pair assms show thesis
      using store_get_err [of LEADER_LEASE_KEY e err e1]
      by (intro noread) (auto simp: try_acquire_or_renew_def action_defs)
  next
    case (Inr data)
    with Pair have got: "store_get D LEADER_LEASE_KEY e = (Inr data, e)" "data = lookup e LEADER_LEASE_KEY"
      using store_get_ok by blast+
    show thesis
      using assms that unfolding try_acquire_or_renew_def bindM_def got(1)
      by (auto simp: action_defs lease_of_def got(2) [symmetric] split: option.splits sum.splits prod.splits)
  qed
qed

lemma decision_cases:
  assumes "lease_decision held i ttl now now' = Some l"
  obtains (renew) l0 where "held = Some l0" "Lease_holder_id l0 = i" "l = l0\<lparr>Lease_renew_at := now\<rparr>"
  | (takeover) l0 where "held = Some l0" "Lease_holder_id l0 \<noteq> i" "is_expired l0 now'"
      "l = new_lease i ttl now"
  | (fresh) "held = None" "l = new_lease i ttl now"
  using assms by (auto simp: lease_decision_def split: option.splits if_splits)

lemma election_inv_start:
  assumes "content (StateStore_db e) LEADER_LEASE_KEY = None" "leader_flag e = (\<lambda>_. False)"
  shows "election_inv c e"
  using assms by (simp add: election_inv_def lease_of_def)

lemma decision_ttl:
  assumes "lease_decision held i LEADER_LEASE_TTL_SECS now now' = Some l"
    and "\<forall>l. held = Some l \<longrightarrow> Lease_ttl_seconds l = LEADER_LEASE_TTL_SECS"
  shows "Lease_ttl_seconds l = LEADER_LEASE_TTL_SECS" "Lease_holder_id l = i" "Lease_renew_at l = now"
  using assms(1) by (cases rule: decision_cases; use assms(2) in \<open>simp add: new_lease_def\<close>)+

text \<open>A write by \<open>i\<close> costs another server its lease only once that lease has run out.\<close>

lemma decision_others:
  assumes dec: "lease_decision (lease_of c e) i ttl now now' = Some l" and inv: "election_inv c e"
    and le: "clock e \<le> now'" and flag: "leader_flag e j" and "j \<noteq> i"
  shows "last_ok e j + secs 15 < now'"
proof -
  from inv flag consider
      l0 where "lease_of c e = Some l0" "Lease_holder_id l0 = j" "last_ok e j \<le> Lease_renew_at l0"
    | "last_ok e j + secs 15 < clock e"
    unfolding election_inv_def by blast
  then show ?thesis
  proof cases
    case 1
    with dec \<open>j \<noteq> i\<close> have "is_expired l0 now'"
      by (cases rule: decision_cases) auto
    moreover have "Lease_ttl_seconds l0 = 15"
      using inv 1(1) unfolding election_inv_def LEADER_LEASE_TTL_SECS_def by blast
    ultimately show ?thesis using 1(3) by (simp add: is_expired_def)
  qed (use le in simp)
qed

lemma election_inv_later:
  assumes "election_inv c e" "clock e \<le> t"
    and "lookup e' = lookup e" "last_ok e' = last_ok e" "clock e' = t"
    and "\<And>j. leader_flag e' j \<Longrightarrow> leader_flag e j"
  shows "election_inv c e'"
proof -
  have "lease_of c e' = lease_of c e" using assms(3) by (simp add: lease_of_def)
  with assms show ?thesis
    unfolding election_inv_def by fastforce
qed

text \<open>The lease now is \<open>l\<close>, written by \<open>i\<close>: the others have run out.\<close>

lemma election_inv_written:
  assumes dec: "lease_decision (lease_of c e) i LEADER_LEASE_TTL_SECS now now' = Some l"
    and inv: "election_inv c e" and le: "clock e \<le> now'"
    and l: "lease_of c e' = Some l" and clk: "clock e' = now'"
    and flags: "\<And>j. j \<noteq> i \<Longrightarrow> leader_flag e' j = leader_flag e j \<and> last_ok e' j = last_ok e j"
    and me: "leader_flag e' i \<Longrightarrow> last_ok e' i \<le> now"
  shows "election_inv c e'"
proof -
  have l_props: "Lease_ttl_seconds l = LEADER_LEASE_TTL_SECS" "Lease_holder_id l = i" "Lease_renew_at l = now"
    using decision_ttl [OF dec] inv by (auto simp: election_inv_def)
  have "last_ok e' j + secs 15 < clock e'" if "leader_flag e' j" "j \<noteq> i" for j
    using decision_others [OF dec inv le] that flags clk by auto
  then show ?thesis
    unfolding election_inv_def using l l_props me by auto
qed

lemma election_inv_tick:
  assumes codec: "codec_ok c" and inv: "election_inv c e" and le: "clock e \<le> now" "now \<le> now'"
  shows "election_inv c (election_tick D c i now now' e)"
proof (cases "try_acquire_or_renew D c i LEADER_LEASE_TTL_SECS now now' e")
  case (Pair r e')
  have t: "clock e \<le> now'" using le by simp
  from Pair show ?thesis
  proof (cases rule: try_cases)
    case noread
    with Pair show ?thesis
      by (intro election_inv_later [OF inv t])
        (auto simp: election_tick_def split: sum.splits if_splits bool.splits)
  next
    case (wrote l)
    then have "lease_of c e' = Some l" using lease_of_put [OF codec] by blast
    with wrote Pair put_json_frame [OF wrote(2)] show ?thesis
      by (intro election_inv_written [OF wrote(1) inv t]) (auto simp: election_tick_def lease_of_def)
  next
    case (broke l err)
    note frame = put_json_frame [OF broke(2)]
    from lease_of_put [OF codec broke(2)] show ?thesis
    proof (elim disjE conjE)
      assume "lease_of c e' = Some l"
      with broke Pair frame show ?thesis
        by (intro election_inv_written [OF broke(1) inv t]) (auto simp: election_tick_def lease_of_def)
    next
      assume "lookup e' = lookup e"
      with broke Pair frame show ?thesis
        by (intro election_inv_later [OF inv t]) (auto simp: election_tick_def split: if_splits)
    qed
  qed
qed

lemma election_reach_inv: "election_reach D content c e \<Longrightarrow> codec_ok c \<Longrightarrow> election_inv c e"
  by (induction rule: election_reach.induct) (auto intro: election_inv_start election_inv_tick)

lemma decision_wins:
  assumes "held = None \<or> (\<exists>l. held = Some l \<and> (Lease_holder_id l = i \<or> is_expired l now'))"
  shows "\<exists>l. lease_decision held i ttl now now' = Some l \<and> Lease_holder_id l = i \<and> Lease_renew_at l = now"
  using assms by (auto simp: lease_decision_def new_lease_def)

lemma try_wins:
  assumes "codec_ok c" "try_acquire_or_renew D c i ttl now now' s = (Inr b, s')"
    and "lease_decision (lease_of c s) i ttl now now' = Some l"
  shows "b" "lease_of c s' = Some l"
  using assms(2) by (cases rule: try_cases; use assms(1,3) lease_of_put in fastforce)+

lemma election_exclusive:
  assumes "election_inv c e" "leader_flag e i" "clock e \<le> last_ok e i + secs 15"
    and "leader_flag e j" "clock e \<le> last_ok e j + secs 15"
  shows "i = j"
  using assms unfolding election_inv_def by (metis linorder_not_less option.inject)

end

section \<open>Properties\<close>

text \<open>Leases stored as themselves, the codec the concrete runs use.\<close>

definition lease_codec :: "(Lease, Lease) codec" where
  "lease_codec = \<lparr> to_vec = Inr, from_slice = Inr \<rparr>"

definition election_init :: "((string \<times> Lease) list, Lease) election" where
  "election_init = \<lparr> StateStore_db = [], StateStore_event_log = EventLog_new 8,
     leader_flag = (\<lambda>_. False), last_ok = (\<lambda>_. 0), clock = 0 \<rparr>"

definition racing_init :: "((string \<times> Lease) list, Lease) racing" where
  "racing_init = \<lparr> StateStore_db = [], StateStore_event_log = EventLog_new 8,
     leader_flag = (\<lambda>_. False), last_ok = (\<lambda>_. 0), clock = 0, pending = (\<lambda>_. None) \<rparr>"

lemma lease_codec_ok [simp]: "codec_ok lease_codec"
  by (simp add: codec_ok_def lease_codec_def)

lemmas election_eval = election_tick_def try_acquire_or_renew_def lease_decision_def new_lease_def
  is_expired_def store_get_def store_put_def put_json_def action_defs mem_slatedb_def lease_codec_def
  election_init_def racing_init_def read_step_def write_step_def LEADER_LEASE_KEY_def
  LEADER_LEASE_TTL_SECS_def

text \<open>C3: when the read and the write of a turn are not interleaved with another server's, at most
  one server is leader at a time: of two servers whose flag is set and whose last successful turn
  is within the lease time, both are the same. This holds for every database that obeys the laws,
  failing reads and writes included, and for any number of servers.\<close>

theorem election_safe:
  assumes "slatedb D content" and "codec_ok c" and "election_reach D content c e"
    and "leader_flag e i" and "clock e \<le> last_ok e i + secs 15"
    and "leader_flag e j" and "clock e \<le> last_ok e j + secs 15"
  shows "i = j"
  using slatedb.election_exclusive [OF assms(1)] slatedb.election_reach_inv [OF assms(1)] assms(2-)
  by blast

theorem election_safe_witness:
  "\<exists>e. leader_flag e ''a'' \<and> election_reach mem_slatedb map_of lease_codec e \<and>
     (\<forall>j. leader_flag e j \<and> clock e \<le> last_ok e j + secs 15 \<longrightarrow> ''a'' = j)"
proof -
  let ?e = "election_tick mem_slatedb lease_codec ''a'' 1 2 election_init"
  have "election_reach mem_slatedb map_of lease_codec ?e"
    by (intro election_reach.intros) (simp_all add: election_init_def)
  moreover have "leader_flag ?e ''a''" "clock ?e \<le> last_ok ?e ''a'' + secs 15"
    by (simp_all add: election_eval secs_def)
  ultimately show ?thesis
    using election_safe [OF mem.slatedb_axioms lease_codec_ok, of ?e "''a''"] by blast
qed

text \<open>C4: an absent lease, an expired one and one's own are all won: if the read succeeds and the
  write succeeds, the attempt makes the server leader and the store holds its lease, renewed
  now.\<close>

theorem election_progress:
  assumes "slatedb D content" and "codec_ok c"
    and "try_acquire_or_renew D c i ttl now now' s = (Inr b, s')"
    and "content (StateStore_db s) LEADER_LEASE_KEY = None \<or>
      (\<exists>v l. content (StateStore_db s) LEADER_LEASE_KEY = Some v \<and> from_slice c v = Inr l \<and>
         (Lease_holder_id l = i \<or> is_expired l now'))"
  shows "b \<and> (\<exists>v l. content (StateStore_db s') LEADER_LEASE_KEY = Some v \<and> from_slice c v = Inr l \<and>
      Lease_holder_id l = i \<and> Lease_renew_at l = now)"
proof -
  obtain l where l: "lease_decision (slatedb.lease_of content c s) i ttl now now' = Some l"
      "Lease_holder_id l = i" "Lease_renew_at l = now"
    using assms(4) slatedb.decision_wins [OF assms(1), of "slatedb.lease_of content c s" i now' ttl now]
    by (auto simp: slatedb.lease_of_def [OF assms(1)])
  have "b" "slatedb.lease_of content c s' = Some l"
    using slatedb.try_wins [OF assms(1-3) l(1)] by auto
  with l show ?thesis
    by (auto simp: slatedb.lease_of_def [OF assms(1)] bind_eq_Some_conv)
qed

theorem election_progress_witness:
  "\<exists>s'. try_acquire_or_renew mem_slatedb lease_codec ''b'' 15 (secs 40) (secs 41)
      (election_tick mem_slatedb lease_codec ''a'' 1 2 election_init) = (Inr True, s') \<and>
    (\<exists>v l. map_of (StateStore_db s') LEADER_LEASE_KEY = Some v \<and> from_slice lease_codec v = Inr l \<and>
      Lease_holder_id l = ''b'' \<and> Lease_renew_at l = secs 40)"
proof -
  let ?e = "election_tick mem_slatedb lease_codec ''a'' 1 2 election_init"
  obtain s' where run: "try_acquire_or_renew mem_slatedb lease_codec ''b'' 15 (secs 40) (secs 41) ?e
      = (Inr True, s')"
    by (simp add: election_eval secs_def)
  have "\<exists>v l. map_of (StateStore_db ?e) LEADER_LEASE_KEY = Some v \<and> from_slice lease_codec v = Inr l \<and>
      (Lease_holder_id l = ''b'' \<or> is_expired l (secs 41))"
    by (simp add: election_eval secs_def)
  with election_progress [OF mem.slatedb_axioms lease_codec_ok run] run show ?thesis by blast
qed

text \<open>The lease read and the lease write of a turn are separate awaits with no compare and swap
  between them. When two servers interleave there, both win the absent lease and both are leader
  within the lease time.\<close>

theorem election_race:
  "\<exists>e. racing_reach mem_slatedb map_of lease_codec e \<and> leader_flag e ''a'' \<and> leader_flag e ''b'' \<and>
     clock e \<le> last_ok e ''a'' + secs 15 \<and> clock e \<le> last_ok e ''b'' + secs 15"
proof -
  let ?step = "\<lambda>f e. the (f (e :: ((string \<times> Lease) list, Lease) racing))"
  let ?e1 = "?step (read_step mem_slatedb lease_codec ''a'' 1 2) racing_init"
  let ?e2 = "?step (read_step mem_slatedb lease_codec ''b'' 2 3) ?e1"
  let ?e3 = "?step (write_step mem_slatedb lease_codec ''a'') ?e2"
  let ?e4 = "?step (write_step mem_slatedb lease_codec ''b'') ?e3"
  have "racing_reach mem_slatedb map_of lease_codec racing_init"
    by (rule race_start) (simp_all add: racing_init_def)
  then have "racing_reach mem_slatedb map_of lease_codec ?e1"
    by (rule race_read [where now = 1 and now' = 2 and i = "''a''"]) (simp_all add: election_eval)
  then have "racing_reach mem_slatedb map_of lease_codec ?e2"
    by (rule race_read [where now = 2 and now' = 3 and i = "''b''"]) (simp_all add: election_eval)
  then have "racing_reach mem_slatedb map_of lease_codec ?e3"
    by (rule race_write [where i = "''a''"]) (simp add: election_eval)
  then have "racing_reach mem_slatedb map_of lease_codec ?e4"
    by (rule race_write [where i = "''b''"]) (simp add: election_eval)
  then show ?thesis
    by (intro exI [of _ ?e4]) (simp add: election_eval secs_def)
qed

end
