(* ===== verification/Pod_Scheduler.thy ===== *)
theory Pod_Scheduler
  imports K3_Types
begin

text \<open>
  The scheduler (\<open>pkg/scheduler/src/lib.rs\<close>): node eligibility and round-robin choice. Its state is
  the atomic counter, passed and returned. The lemmas show that a chosen node is an eligible one,
  that a pod stays unscheduled exactly when no node is eligible, and that consecutive choices go
  round the eligible nodes.
\<close>

section \<open>Eligibility\<close>

definition affinity_ok :: "Node \<Rightarrow> Pod \<Rightarrow> bool" where
  "affinity_ok node pod \<longleftrightarrow>
     list_all (\<lambda>(key, val). hm_get (Node_labels node) key = Some val)
       (PodSpec_node_affinity (Pod_spec pod))"

definition tolerated :: "Taint \<Rightarrow> Toleration list \<Rightarrow> bool" where
  "tolerated taint ts \<longleftrightarrow>
     list_ex (\<lambda>t. Toleration_key t = Taint_key taint \<and>
        (case Toleration_operator t of
           Op_Exists \<Rightarrow> True
         | Op_Equal \<Rightarrow> Toleration_value t = Taint_value taint)) ts"

definition taints_ok :: "Node \<Rightarrow> Pod \<Rightarrow> bool" where
  "taints_ok node pod \<longleftrightarrow>
     list_all (\<lambda>taint. tolerated taint (PodSpec_tolerations (Pod_spec pod)) \<or>
        (case Taint_effect taint of
           NoSchedule \<Rightarrow> False
         | NoExecute \<Rightarrow> False
         | PreferNoSchedule \<Rightarrow> True)) (Node_taints node)"

definition pod_cpu :: "Pod \<Rightarrow> u64" where
  "pod_cpu pod =
     sum_list (map (\<lambda>c. cpu_millis (ContainerSpec_resources c)) (PodSpec_containers (Pod_spec pod)))"

definition pod_mem :: "Pod \<Rightarrow> u64" where
  "pod_mem pod =
     sum_list (map (\<lambda>c. memory_bytes (ContainerSpec_resources c)) (PodSpec_containers (Pod_spec pod)))"

definition saturating_sub :: "'a::len word \<Rightarrow> 'a word \<Rightarrow> 'a word" where
  "saturating_sub a b = (if a < b then 0 else a - b)"

definition fits :: "u64 \<Rightarrow> u64 \<Rightarrow> u64 \<Rightarrow> bool" where
  "fits requested capacity allocated \<longleftrightarrow>
     0 < capacity \<longrightarrow> \<not> saturating_sub capacity allocated < requested"

definition is_node_eligible :: "Node \<Rightarrow> Pod \<Rightarrow> bool" where
  "is_node_eligible node pod \<longleftrightarrow>
     (if Node_status node \<noteq> Node_Ready then False
      else if Node_unschedulable node then False
      else if \<not> affinity_ok node pod then False
      else if \<not> taints_ok node pod then False
      else if \<not> fits (pod_cpu pod) (cpu_millis (Node_capacity node)) (cpu_millis (Node_allocated node))
        then False
      else if \<not> fits (pod_mem pod) (memory_bytes (Node_capacity node)) (memory_bytes (Node_allocated node))
        then False
      else True)"

section \<open>Choice\<close>

definition schedule :: "Pod \<Rightarrow> Node list \<Rightarrow> u64 \<Rightarrow> string option \<times> u64" where
  "schedule pod nodes round_robin_index =
     (let eligible = filter (\<lambda>n. is_node_eligible n pod) nodes
      in if eligible = [] then (None, round_robin_index)
         else let idx = unat round_robin_index mod length eligible;
                  selected = eligible ! idx
              in (Some (Node_name selected), round_robin_index + 1))"

text \<open>Scheduling the same pod several times in a row: the names chosen and the final counter.\<close>

fun schedule_seq :: "nat \<Rightarrow> Pod \<Rightarrow> Node list \<Rightarrow> u64 \<Rightarrow> string option list \<times> u64" where
  "schedule_seq 0 pod nodes i = ([], i)"
| "schedule_seq (Suc n) pod nodes i =
     (let (r, i') = schedule pod nodes i; (rs, i'') = schedule_seq n pod nodes i'
      in (r # rs, i''))"

section \<open>Lemmas\<close>

lemma eligible_facts:
  assumes "is_node_eligible n p"
  shows "Node_status n = Node_Ready" "\<not> Node_unschedulable n" "affinity_ok n p" "taints_ok n p"
    "fits (pod_cpu p) (cpu_millis (Node_capacity n)) (cpu_millis (Node_allocated n))"
    "fits (pod_mem p) (memory_bytes (Node_capacity n)) (memory_bytes (Node_allocated n))"
  using assms by (auto simp: is_node_eligible_def split: if_splits)

text \<open>A fitting request never exceeds what the node has left, without wrap-around.\<close>

lemma fits_bound:
  assumes "fits r c a" "0 < c"
  shows "unat r \<le> unat c - unat a"
proof -
  have "r \<le> saturating_sub c a" using assms by (auto simp: fits_def not_less)
  then have "unat r \<le> unat (saturating_sub c a)" by (simp add: word_le_nat_alt)
  also have "\<dots> = unat c - unat a"
    by (auto simp: saturating_sub_def word_less_nat_alt unat_sub_if')
  finally show ?thesis .
qed

lemma schedule_Some:
  assumes "schedule pod nodes i = (Some name, i')"
  shows "\<exists>n \<in> set nodes. is_node_eligible n pod \<and> Node_name n = name" and "i' = i + 1"
proof -
  let ?el = "filter (\<lambda>n. is_node_eligible n pod) nodes"
  have ne: "?el \<noteq> []" and nm: "name = Node_name (?el ! (unat i mod length ?el))" and "i' = i + 1"
    using assms by (auto simp: schedule_def Let_def split: if_splits)
  have "?el ! (unat i mod length ?el) \<in> set ?el" using ne by (intro nth_mem) simp
  with nm show "\<exists>n \<in> set nodes. is_node_eligible n pod \<and> Node_name n = name" by auto
  show "i' = i + 1" by fact
qed

lemma schedule_None_iff:
  "fst (schedule pod nodes i) = None \<longleftrightarrow> (\<forall>n \<in> set nodes. \<not> is_node_eligible n pod)"
  by (auto simp: schedule_def Let_def filter_empty_conv)

lemma schedule_None_counter: "schedule pod nodes i = (None, i') \<Longrightarrow> i' = i"
  by (auto simp: schedule_def Let_def split: if_splits)

lemma schedule_seq_names:
  fixes nodes :: "Node list" and pod :: Pod
  defines "el \<equiv> filter (\<lambda>n. is_node_eligible n pod) nodes"
  assumes ne: "el \<noteq> []" and "unat i + n < 2 ^ 64"
  shows "schedule_seq n pod nodes i =
     (map (\<lambda>k. Some (Node_name (el ! (k mod length el)))) [unat i ..< unat i + n], i + of_nat n)"
  using assms(3)
proof (induction n arbitrary: i)
  case (Suc n)
  have i1: "unat (i + 1) = Suc (unat i)" using Suc.prems by (simp add: unat_word_ariths)
  have "schedule pod nodes i = (Some (Node_name (el ! (unat i mod length el))), i + 1)"
    using ne by (simp add: schedule_def el_def Let_def)
  moreover have "schedule_seq n pod nodes (i + 1) =
      (map (\<lambda>k. Some (Node_name (el ! (k mod length el)))) [Suc (unat i) ..< Suc (unat i) + n],
       i + 1 + of_nat n)"
    using Suc.IH [of "i + 1"] Suc.prems i1 by simp
  ultimately show ?case by (simp add: Let_def upt_conv_Cons del: upt_Suc)
qed simp

text \<open>One full round of indices modulo the length visits every position.\<close>

lemma map_nth_mod_round: "map (\<lambda>k. xs ! (k mod length xs)) [c ..< c + length xs] = rotate c xs"
  by (rule nth_equalityI) (auto simp: nth_rotate)

lemma schedule_seq_round:
  fixes nodes :: "Node list" and pod :: Pod
  defines "el \<equiv> filter (\<lambda>n. is_node_eligible n pod) nodes"
  assumes "unat i + length el < 2 ^ 64"
  shows "fst (schedule_seq (length el) pod nodes i) =
     map (\<lambda>n. Some (Node_name n)) (rotate (unat i) el)"
proof (cases "el = []")
  case False
  let ?f = "\<lambda>n. Some (Node_name n)"
  have "fst (schedule_seq (length el) pod nodes i) =
      map ?f (map (\<lambda>k. el ! (k mod length el)) [unat i ..< unat i + length el])"
    using schedule_seq_names [of pod nodes i "length el"] assms False by (simp add: comp_def)
  then show ?thesis by (simp only: map_nth_mod_round)
qed simp

section \<open>Properties\<close>

text \<open>C5: a pod is only placed on a node of the list that is Ready, not cordoned, carries every required
  label, has no hard taint the pod does not tolerate, and has room for the pod's requests where it
  declares capacity; the counter advances by one.\<close>

theorem schedule_sound:
  assumes "schedule pod nodes i = (Some name, i')"
  shows "i' = i + 1 \<and> (\<exists>n \<in> set nodes. Node_name n = name \<and> Node_status n = Node_Ready \<and>
    \<not> Node_unschedulable n \<and>
    (\<forall>(k, v) \<in> set (PodSpec_node_affinity (Pod_spec pod)). hm_get (Node_labels n) k = Some v) \<and>
    (\<forall>t \<in> set (Node_taints n). Taint_effect t = PreferNoSchedule \<or>
       tolerated t (PodSpec_tolerations (Pod_spec pod))) \<and>
    (0 < cpu_millis (Node_capacity n) \<longrightarrow>
       unat (pod_cpu pod) \<le> unat (cpu_millis (Node_capacity n)) - unat (cpu_millis (Node_allocated n))) \<and>
    (0 < memory_bytes (Node_capacity n) \<longrightarrow>
       unat (pod_mem pod) \<le> unat (memory_bytes (Node_capacity n)) - unat (memory_bytes (Node_allocated n))))"
proof -
  obtain n where n: "n \<in> set nodes" "is_node_eligible n pod" "Node_name n = name" and "i' = i + 1"
    using schedule_Some [OF assms] by blast
  note el = eligible_facts [OF n(2)]
  have "\<forall>t \<in> set (Node_taints n). Taint_effect t = PreferNoSchedule \<or>
      tolerated t (PodSpec_tolerations (Pod_spec pod))"
    using el(4) unfolding taints_ok_def list_all_iff by (metis TaintEffect.exhaust TaintEffect.simps(7,9))
  moreover have "\<forall>(k, v) \<in> set (PodSpec_node_affinity (Pod_spec pod)). hm_get (Node_labels n) k = Some v"
    using el(3) by (simp add: affinity_ok_def list_all_iff)
  ultimately show ?thesis
    using n el(1,2) fits_bound [OF el(5)] fits_bound [OF el(6)] \<open>i' = i + 1\<close> by blast
qed

theorem schedule_sound_witness:
  "schedule (sample_pod ''p'') [(sample_node ''n1'')\<lparr>Node_unschedulable := True\<rparr>, sample_node ''n2''] 6
     = (Some ''n2'', 7) \<and>
   (\<exists>n \<in> {(sample_node ''n1'')\<lparr>Node_unschedulable := True\<rparr>, sample_node ''n2''}. Node_name n = ''n2'' \<and> \<not> Node_unschedulable n)"
proof -
  have run: "schedule (sample_pod ''p'') [(sample_node ''n1'')\<lparr>Node_unschedulable := True\<rparr>, sample_node ''n2''] 6
     = (Some ''n2'', 7)"
    by (simp add: schedule_def is_node_eligible_def affinity_ok_def taints_ok_def fits_def pod_cpu_def
        pod_mem_def sample_pod_def sample_node_def saturating_sub_def no_resources_def empty_spec_def)
  from schedule_sound [OF run] run show ?thesis by auto
qed

text \<open>A pod is left unscheduled exactly when no node of the list is eligible, and then the counter
  does not move.\<close>

theorem schedule_complete:
  "(\<exists>i'. schedule pod nodes i = (None, i')) = (\<forall>n \<in> set nodes. \<not> is_node_eligible n pod) \<and>
   (schedule pod nodes i = (None, i') \<longrightarrow> i' = i)"
  using schedule_None_iff [of pod nodes i] schedule_None_counter [of pod nodes i i']
  by (metis fst_conv surj_pair)

theorem schedule_complete_witness:
  "schedule (sample_pod ''p'') [(sample_node ''n1'')\<lparr>Node_status := Node_NotReady\<rparr>] 3 = (None, 3)"
proof -
  have "\<forall>n \<in> set [(sample_node ''n1'')\<lparr>Node_status := Node_NotReady\<rparr>]. \<not> is_node_eligible n (sample_pod ''p'')"
    by (simp add: is_node_eligible_def)
  then show ?thesis using schedule_complete [of "sample_pod ''p''" _ 3] by blast
qed

text \<open>Round robin is fair: as many consecutive placements as there are eligible nodes use each of
  them once, in list order from where the counter stands, unless the counter wraps in between.\<close>

theorem schedule_fair:
  assumes "unat i + length (filter (\<lambda>n. is_node_eligible n pod) nodes) < 2 ^ 64"
  shows "fst (schedule_seq (length (filter (\<lambda>n. is_node_eligible n pod) nodes)) pod nodes i) =
     map (\<lambda>n. Some (Node_name n)) (rotate (unat i) (filter (\<lambda>n. is_node_eligible n pod) nodes))"
  using schedule_seq_round [OF assms] .

theorem schedule_fair_witness:
  "fst (schedule_seq 2 (sample_pod ''p'') [sample_node ''n1'', sample_node ''n2''] 1) =
     [Some ''n2'', Some ''n1'']"
proof -
  have el: "filter (\<lambda>n. is_node_eligible n (sample_pod ''p'')) [sample_node ''n1'', sample_node ''n2''] =
      [sample_node ''n1'', sample_node ''n2'']"
    by (simp add: is_node_eligible_def affinity_ok_def taints_ok_def fits_def pod_cpu_def
        pod_mem_def sample_pod_def sample_node_def saturating_sub_def no_resources_def empty_spec_def)
  show ?thesis
    unfolding numeral_2_eq_2 using schedule_fair [of 1 "sample_pod ''p''" "[sample_node ''n1'', sample_node ''n2'']", unfolded el]
    by (simp add: sample_node_def rotate_def del: schedule_seq.simps)
qed

end
