(* ===== verification/Vpc_Store.thy ===== *)
theory Vpc_Store
  imports Registry
begin

text \<open>
  The VPC daemon's local store (\<open>cmd/k3rs-vpc/src/store.rs\<close>): key schema, writes of allocations,
  definitions, peerings and metadata, and the prefix scan that loads them. It calls SlateDB directly
  (range scans and write batches besides single writes), so those calls are the record \<open>VpcDb\<close> with
  the laws of the locale \<open>vpc_db\<close>. The lemmas show that a successful load returns exactly the stored
  values under its prefix, in key order, and what each write changes.
\<close>

section \<open>Database and codecs\<close>

record ('db, 'v) VpcDb =
  db_ops :: "('db, 'v) SlateDb"
  db_scan :: "'db \<Rightarrow> string \<Rightarrow> (string \<times> 'v) result list result"
  db_write :: "'db \<Rightarrow> (string \<times> 'v) list \<Rightarrow> unit result \<times> 'db"

record StoredAllocation =
  StoredAllocation_pod_id :: string
  StoredAllocation_vpc_name :: string
  StoredAllocation_guest_ipv4 :: string
  StoredAllocation_ghost_ipv6 :: string
  StoredAllocation_vpc_id :: u16
  StoredAllocation_allocated_at :: DateTime
  StoredAllocation_interface_type :: string

record VpcDaemonMeta =
  VpcDaemonMeta_cluster_id :: "u32 option"
  VpcDaemonMeta_platform_prefix :: u32
  VpcDaemonMeta_last_synced_at :: DateTime

record 'v vpc_serde =
  VS_allocation :: "('v, StoredAllocation) codec"
  VS_vpc :: "('v, Vpc) codec"
  VS_peering :: "('v, VpcPeering) codec"
  VS_meta :: "('v, VpcDaemonMeta) codec"
  VS_text :: "('v, string) codec"

definition vpc_serde_ok :: "'v vpc_serde \<Rightarrow> bool" where
  "vpc_serde_ok C \<longleftrightarrow> codec_ok (VS_allocation C) \<and> codec_ok (VS_vpc C) \<and> codec_ok (VS_peering C) \<and>
     codec_ok (VS_meta C) \<and> codec_ok (VS_text C)"

record 'db VpcStore =
  VpcStore_db :: 'db

section \<open>Keys\<close>

definition KEY_META :: string where
  "KEY_META = ''/vpc/meta''"

definition KEY_ENFORCER_SNAPSHOT :: string where
  "KEY_ENFORCER_SNAPSHOT = ''/vpc/enforcer-snapshot''"

definition PREFIX_DEFINITIONS :: string where
  "PREFIX_DEFINITIONS = ''/vpc/definitions/''"

definition PREFIX_PEERINGS :: string where
  "PREFIX_PEERINGS = ''/vpc/peerings/''"

definition PREFIX_ALLOCATIONS :: string where
  "PREFIX_ALLOCATIONS = ''/vpc/allocations/''"

definition allocation_key :: "string \<Rightarrow> string \<Rightarrow> string" where
  "allocation_key vpc_name pod_id = PREFIX_ALLOCATIONS @ vpc_name @ ''/'' @ pod_id"

lemmas vpc_key_defs = KEY_META_def KEY_ENFORCER_SNAPSHOT_def PREFIX_DEFINITIONS_def
  PREFIX_PEERINGS_def PREFIX_ALLOCATIONS_def allocation_key_def

section \<open>Operations\<close>

definition vpc_db_put ::
  "('db, 'v) VpcDb \<Rightarrow> ('v, 'a) codec \<Rightarrow> string \<Rightarrow> 'a \<Rightarrow> (('db, 'z) VpcStore_scheme, unit) act" where
  "vpc_db_put V c key x s =
     (case to_vec c x of
        Inl e \<Rightarrow> (Inl e, s)
      | Inr data \<Rightarrow>
          (case db_put (db_ops V) (VpcStore_db s) key data of
             (Inl e, db) \<Rightarrow> (Inl (Err ''VpcStore put''), s\<lparr>VpcStore_db := db\<rparr>)
           | (Inr _, db) \<Rightarrow> (Inr (), s\<lparr>VpcStore_db := db\<rparr>)))"

definition vpc_db_get ::
  "('db, 'v) VpcDb \<Rightarrow> ('v, 'a) codec \<Rightarrow> string \<Rightarrow> (('db, 'z) VpcStore_scheme, 'a option) act" where
  "vpc_db_get V c key s =
     (case db_get (db_ops V) (VpcStore_db s) key of
        Inl e \<Rightarrow> (Inl (Err ''VpcStore get''), s)
      | Inr None \<Rightarrow> (Inr None, s)
      | Inr (Some b) \<Rightarrow> (bindR (from_slice c b) (\<lambda>x. Inr (Some x)), s))"

definition save_meta :: "('db, 'v) VpcDb \<Rightarrow> 'v vpc_serde \<Rightarrow> VpcDaemonMeta \<Rightarrow> (('db, 'z) VpcStore_scheme, unit) act" where
  "save_meta V C meta = vpc_db_put V (VS_meta C) KEY_META meta"

definition load_meta :: "('db, 'v) VpcDb \<Rightarrow> 'v vpc_serde \<Rightarrow> (('db, 'z) VpcStore_scheme, VpcDaemonMeta option) act" where
  "load_meta V C = vpc_db_get V (VS_meta C) KEY_META"

text \<open>The batch of a save: the key of each item with its encoding; the first failure aborts.\<close>

fun batch_of :: "('v, 'a) codec \<Rightarrow> ('a \<Rightarrow> string) \<Rightarrow> 'a list \<Rightarrow> (string \<times> 'v) list result" where
  "batch_of c key [] = Inr []"
| "batch_of c key (x # xs) =
     bindR (to_vec c x) (\<lambda>v. bindR (batch_of c key xs) (\<lambda>b. Inr ((key x, v) # b)))"

definition vpc_db_write ::
  "('db, 'v) VpcDb \<Rightarrow> (string \<times> 'v) list result \<Rightarrow> (('db, 'z) VpcStore_scheme, unit) act" where
  "vpc_db_write V batch s =
     (case batch of
        Inl e \<Rightarrow> (Inl e, s)
      | Inr b \<Rightarrow>
          (case db_write V (VpcStore_db s) b of
             (Inl e, db) \<Rightarrow> (Inl (Err ''VpcStore batch''), s\<lparr>VpcStore_db := db\<rparr>)
           | (Inr _, db) \<Rightarrow> (Inr (), s\<lparr>VpcStore_db := db\<rparr>)))"

definition save_vpcs :: "('db, 'v) VpcDb \<Rightarrow> 'v vpc_serde \<Rightarrow> Vpc list \<Rightarrow> (('db, 'z) VpcStore_scheme, unit) act" where
  "save_vpcs V C vpcs =
     vpc_db_write V (batch_of (VS_vpc C) (\<lambda>vpc. PREFIX_DEFINITIONS @ Vpc_name vpc) vpcs)"

definition save_peerings :: "('db, 'v) VpcDb \<Rightarrow> 'v vpc_serde \<Rightarrow> VpcPeering list \<Rightarrow> (('db, 'z) VpcStore_scheme, unit) act" where
  "save_peerings V C peerings =
     vpc_db_write V (batch_of (VS_peering C) (\<lambda>p. PREFIX_PEERINGS @ VpcPeering_name p) peerings)"

definition save_allocation :: "('db, 'v) VpcDb \<Rightarrow> 'v vpc_serde \<Rightarrow> StoredAllocation \<Rightarrow> (('db, 'z) VpcStore_scheme, unit) act" where
  "save_allocation V C alloc =
     vpc_db_put V (VS_allocation C)
       (allocation_key (StoredAllocation_vpc_name alloc) (StoredAllocation_pod_id alloc)) alloc"

definition delete_allocation :: "('db, 'v) VpcDb \<Rightarrow> string \<Rightarrow> string \<Rightarrow> (('db, 'z) VpcStore_scheme, unit) act" where
  "delete_allocation V vpc_name pod_id s =
     (case db_delete (db_ops V) (VpcStore_db s) (allocation_key vpc_name pod_id) of
        (Inl e, db) \<Rightarrow> (Inl (Err ''VpcStore delete_allocation''), s\<lparr>VpcStore_db := db\<rparr>)
      | (Inr _, db) \<Rightarrow> (Inr (), s\<lparr>VpcStore_db := db\<rparr>))"

text \<open>The scan loop: stop at the first key outside the prefix, fail on the first error.\<close>

fun scan_loop :: "('v, 'a) codec \<Rightarrow> string \<Rightarrow> (string \<times> 'v) result list \<Rightarrow> 'a list result" where
  "scan_loop c pfx [] = Inr []"
| "scan_loop c pfx (Inl e # items) = Inl (Err ''VpcStore scan next'')"
| "scan_loop c pfx (Inr (k, v) # items) =
     (if \<not> starts_with k pfx then Inr []
      else bindR (from_slice c v) (\<lambda>x. bindR (scan_loop c pfx items) (\<lambda>xs. Inr (x # xs))))"

definition vpc_scan_prefix ::
  "('db, 'v) VpcDb \<Rightarrow> ('v, 'a) codec \<Rightarrow> string \<Rightarrow> (('db, 'z) VpcStore_scheme, 'a list) act" where
  "vpc_scan_prefix V c pfx s =
     (case db_scan V (VpcStore_db s) pfx of
        Inl e \<Rightarrow> (Inl (Err ''VpcStore scan''), s)
      | Inr items \<Rightarrow> (scan_loop c pfx items, s))"

definition load_vpcs :: "('db, 'v) VpcDb \<Rightarrow> 'v vpc_serde \<Rightarrow> (('db, 'z) VpcStore_scheme, Vpc list) act" where
  "load_vpcs V C = vpc_scan_prefix V (VS_vpc C) PREFIX_DEFINITIONS"

definition load_peerings :: "('db, 'v) VpcDb \<Rightarrow> 'v vpc_serde \<Rightarrow> (('db, 'z) VpcStore_scheme, VpcPeering list) act" where
  "load_peerings V C = vpc_scan_prefix V (VS_peering C) PREFIX_PEERINGS"

definition load_all_allocations :: "('db, 'v) VpcDb \<Rightarrow> 'v vpc_serde \<Rightarrow> (('db, 'z) VpcStore_scheme, StoredAllocation list) act" where
  "load_all_allocations V C = vpc_scan_prefix V (VS_allocation C) PREFIX_ALLOCATIONS"

definition save_enforcer_snapshot :: "('db, 'v) VpcDb \<Rightarrow> 'v vpc_serde \<Rightarrow> string \<Rightarrow> (('db, 'z) VpcStore_scheme, unit) act" where
  "save_enforcer_snapshot V C snap = vpc_db_put V (VS_text C) KEY_ENFORCER_SNAPSHOT snap"

definition load_enforcer_snapshot :: "('db, 'v) VpcDb \<Rightarrow> 'v vpc_serde \<Rightarrow> (('db, 'z) VpcStore_scheme, string option) act" where
  "load_enforcer_snapshot V C = vpc_db_get V (VS_text C) KEY_ENFORCER_SNAPSHOT"

text \<open>Writes change the database component only.\<close>

lemma vpc_put_frame: "vpc_db_put V c k x s = (r, s') \<Longrightarrow> VpcStore.more s' = VpcStore.more s"
  by (auto simp: vpc_db_put_def split: sum.splits prod.splits)

lemma vpc_delete_frame: "delete_allocation V n p s = (r, s') \<Longrightarrow> VpcStore.more s' = VpcStore.more s"
  by (auto simp: delete_allocation_def split: sum.splits prod.splits)

section \<open>Keys under a prefix are contiguous\<close>

lemma lex_between_prefix:
  fixes p k k' :: string
  shows "p \<le> k \<Longrightarrow> k \<le> k' \<Longrightarrow> prefix p k' \<Longrightarrow> prefix p k"
proof (induction p arbitrary: k k')
  case (Cons c p)
  then obtain k2' where k': "k' = c # k2'" by (cases k') auto
  with Cons.prems obtain k2 where k: "k = c # k2" "p \<le> k2" "k2 \<le> k2'" "prefix p k2'"
    by (cases k) (auto simp: Cons_le_Cons less_le_not_le)
  then show ?case using Cons.IH by simp
qed simp

lemma prefix_le: "prefix p k \<Longrightarrow> p \<le> (k :: string)"
proof (induction p arbitrary: k)
  case (Cons c p)
  then show ?case by (cases k) auto
qed simp

lemma takeWhile_prefix_sorted:
  fixes kvs :: "(string \<times> 'v) list"
  assumes "sorted (map fst kvs)" "\<forall>(k, v) \<in> set kvs. p \<le> k"
  shows "takeWhile (\<lambda>(k, v). prefix p k) kvs = filter (\<lambda>(k, v). prefix p k) kvs"
  using assms
proof (induction kvs)
  case (Cons kv kvs)
  obtain k v where kv: "kv = (k, v)" by (cases kv)
  show ?case
  proof (cases "prefix p k")
    case False
    have "\<not> prefix p k'" if "(k', v') \<in> set kvs" for k' v'
      using lex_between_prefix [of p k k'] Cons.prems that False kv by force
    then have "filter (\<lambda>(k, v). prefix p k) kvs = []" by (auto simp: filter_empty_conv)
    then show ?thesis using False kv by simp
  qed (use Cons kv in auto)
qed simp

section \<open>Laws of the database\<close>

text \<open>
  A scan yields the entries from the start key on in key order, each once, up to an iterator error;
  a batch is applied as a whole or not at all.
\<close>

locale vpc_db = slatedb "db_ops V" content
  for V :: "('db, 'v) VpcDb" and content :: "'db \<Rightarrow> string \<rightharpoonup> 'v" +
  assumes scan_from: "db_scan V db p = Inr items \<Longrightarrow>
      \<exists>kvs. sorted (map fst kvs) \<and> distinct (map fst kvs) \<and>
        set kvs = {(k, v). p \<le> k \<and> content db k = Some v} \<and>
        (items = map Inr kvs \<or> (\<exists>n e more. items = map Inr (take n kvs) @ Inl e # more))"
    and write_ok: "db_write V db b = (Inr u, db') \<Longrightarrow> content db' = content db ++ map_of (rev b)"
    and write_err: "db_write V db b = (Inl e, db') \<Longrightarrow>
      content db' = content db \<or> content db' = content db ++ map_of (rev b)"
begin

abbreviation kept :: "('db, 'z) VpcStore_scheme \<Rightarrow> string \<Rightarrow> 'v option" where
  "kept s \<equiv> content (VpcStore_db s)"

lemma scan_loop_ok:
  assumes "scan_loop c p items = Inr xs"
    and "items = map Inr kvs \<or> (\<exists>n e more. items = map Inr (take n kvs) @ Inl e # more)"
  shows "map (\<lambda>(k, v). from_slice c v) (takeWhile (\<lambda>(k, v). prefix p k) kvs) = map Inr xs"
  using assms
proof (induction c p items arbitrary: kvs xs rule: scan_loop.induct)
  case (1 c p)
  then show ?case by auto
next
  case (2 c p e items)
  then show ?case by simp
next
  case (3 c p k v items)
  from "3.prems"(2) obtain kvs' where kvs: "kvs = (k, v) # kvs'"
    and rest: "items = map Inr kvs' \<or> (\<exists>n e more. items = map Inr (take n kvs') @ Inl e # more)"
  proof (elim disjE exE)
    fix n e more assume it: "Inr (k, v) # items = map Inr (take n kvs) @ Inl e # more"
    then obtain m kvs' where "n = Suc m" "kvs = (k, v) # kvs'" by (cases n; cases kvs) auto
    with it show thesis using that by fastforce
  qed (use that in auto)
  show ?case
  proof (cases "prefix p k")
    case True
    then obtain x ys where x: "from_slice c v = Inr x" "scan_loop c p items = Inr ys" "xs = x # ys"
      using "3.prems"(1) by (auto simp: starts_with_def bindR_eq_Inr)
    have "map (\<lambda>(k, v). from_slice c v) (takeWhile (\<lambda>(k, v). prefix p k) kvs') = map Inr ys"
      by (rule "3.IH") (use True x rest in \<open>auto simp: starts_with_def\<close>)
    then show ?thesis using True by (simp add: kvs x)
  next
    case False
    then show ?thesis using "3.prems"(1) by (simp add: kvs starts_with_def)
  qed
qed

lemma scan_prefix_ok:
  assumes "vpc_scan_prefix V c p s = (Inr xs, s')"
  shows "s' = s" and "\<exists>kvs. distinct (map fst kvs) \<and> set kvs = {(k, v). prefix p k \<and> kept s k = Some v} \<and>
     map (\<lambda>(k, v). from_slice c v) kvs = map Inr xs"
proof -
  obtain items where items: "db_scan V (VpcStore_db s) p = Inr items" "scan_loop c p items = Inr xs" "s' = s"
    using assms by (auto simp: vpc_scan_prefix_def split: sum.splits)
  obtain kvs where kvs: "sorted (map fst kvs)" "distinct (map fst kvs)"
    "set kvs = {(k, v). p \<le> k \<and> kept s k = Some v}"
    "items = map Inr kvs \<or> (\<exists>n e more. items = map Inr (take n kvs) @ Inl e # more)"
    using scan_from [OF items(1)] by blast
  let ?f = "filter (\<lambda>(k, v). prefix p k) kvs"
  have "takeWhile (\<lambda>(k, v). prefix p k) kvs = ?f"
    using kvs(1,3) by (intro takeWhile_prefix_sorted) auto
  with scan_loop_ok [OF items(2) kvs(4)] have "map (\<lambda>(k, v). from_slice c v) ?f = map Inr xs" by simp
  moreover have "distinct (map fst ?f)" using kvs(2) by (rule distinct_map_filter)
  moreover have "set ?f = {(k, v). prefix p k \<and> kept s k = Some v}"
    using kvs(3) prefix_le by auto
  ultimately show "\<exists>kvs. distinct (map fst kvs) \<and> set kvs = {(k, v). prefix p k \<and> kept s k = Some v} \<and>
     map (\<lambda>(k, v). from_slice c v) kvs = map Inr xs" by blast
  show "s' = s" by (rule items(3))
qed

lemma vpc_put_ok:
  assumes "vpc_db_put V c k x s = (Inr u, s')"
  shows "\<exists>v. to_vec c x = Inr v \<and> kept s' = (kept s)(k \<mapsto> v)"
    and "VpcStore.more s' = VpcStore.more s"
  using assms put_ok by (auto simp: vpc_db_put_def split: sum.splits prod.splits)

lemma vpc_delete_ok:
  assumes "delete_allocation V n p s = (Inr u, s')"
  shows "kept s' = (kept s)(allocation_key n p := None)" and "VpcStore.more s' = VpcStore.more s"
  using assms delete_ok by (auto simp: delete_allocation_def split: sum.splits prod.splits)

end

section \<open>A database that satisfies the laws\<close>

definition mem_vpcdb :: "((string \<times> 'v) list, 'v) VpcDb" where
  "mem_vpcdb = \<lparr> db_ops = mem_slatedb,
     db_scan = (\<lambda>db p. Inr (map Inr (sort_key fst (filter (\<lambda>(k, _). p \<le> k) (AList.clearjunk db))))),
     db_write = (\<lambda>db b. (Inr (), fold (\<lambda>(k, v). AList.update k v) b db)) \<rparr>"

lemma mem_scan_from:
  fixes db :: "(string \<times> 'v) list" and p :: string
  defines "kvs \<equiv> sort_key fst (filter (\<lambda>(k, _). p \<le> k) (AList.clearjunk db))"
  shows "sorted (map fst kvs)" "distinct (map fst kvs)"
    "set kvs = {(k, v). p \<le> k \<and> map_of db k = Some v}"
proof -
  let ?f = "filter (\<lambda>(k, _). p \<le> k) (AList.clearjunk db)"
  show "sorted (map fst kvs)" by (simp add: kvs_def)
  have "distinct (map fst ?f)" using distinct_clearjunk [of db] by (rule distinct_map_filter)
  then have "card (fst ` set ?f) = length ?f" by (metis distinct_card length_map set_map)
  then have "card (fst ` set kvs) = length kvs" by (simp add: kvs_def)
  then show "distinct (map fst kvs)" by (simp add: card_distinct)
  have "set kvs = {(k, v). p \<le> k \<and> map_of (AList.clearjunk db) k = Some v}"
    using distinct_clearjunk [of db] by (auto simp: kvs_def map_of_eq_Some_iff)
  then show "set kvs = {(k, v). p \<le> k \<and> map_of db k = Some v}" by (simp add: map_of_clearjunk)
qed

lemma map_of_fold_update: "map_of (fold (\<lambda>(k, v). AList.update k v) b db) = map_of db ++ map_of (rev b)"
  by (induction b arbitrary: db) (auto simp: update_conv' map_add_def fun_eq_iff split: option.splits)

interpretation memvpc: vpc_db mem_vpcdb map_of
proof (intro vpc_db.intro vpc_db_axioms.intro)
  show "slatedb (db_ops mem_vpcdb) (map_of :: (string \<times> 'v) list \<Rightarrow> _)"
    using mem.slatedb_axioms by (simp add: mem_vpcdb_def)
next
  fix db :: "(string \<times> 'v) list" and p items
  assume "db_scan mem_vpcdb db p = Inr items"
  then have items: "items = map Inr (sort_key fst (filter (\<lambda>(k, _). p \<le> k) (AList.clearjunk db)))"
    by (simp add: mem_vpcdb_def)
  show "\<exists>kvs. sorted (map fst kvs) \<and> distinct (map fst kvs) \<and>
      set kvs = {(k, v). p \<le> k \<and> map_of db k = Some v} \<and>
      (items = map Inr kvs \<or> (\<exists>n e more. items = map Inr (take n kvs) @ Inl e # more))"
    using mem_scan_from [of p db] items by blast
qed (auto simp: mem_vpcdb_def map_of_fold_update)

datatype vpc_json =
    VJ_Allocation StoredAllocation | VJ_Vpc Vpc | VJ_Peering VpcPeering | VJ_Meta VpcDaemonMeta
  | VJ_Text string

definition vpc_tag_serde :: "vpc_json vpc_serde" where
  "vpc_tag_serde = \<lparr>
     VS_allocation = tag_codec VJ_Allocation (\<lambda>v. case v of VJ_Allocation x \<Rightarrow> Some x | _ \<Rightarrow> None),
     VS_vpc = tag_codec VJ_Vpc (\<lambda>v. case v of VJ_Vpc x \<Rightarrow> Some x | _ \<Rightarrow> None),
     VS_peering = tag_codec VJ_Peering (\<lambda>v. case v of VJ_Peering x \<Rightarrow> Some x | _ \<Rightarrow> None),
     VS_meta = tag_codec VJ_Meta (\<lambda>v. case v of VJ_Meta x \<Rightarrow> Some x | _ \<Rightarrow> None),
     VS_text = tag_codec VJ_Text (\<lambda>v. case v of VJ_Text x \<Rightarrow> Some x | _ \<Rightarrow> None) \<rparr>"

lemma vpc_tag_serde_ok [simp]: "vpc_serde_ok vpc_tag_serde"
  by (simp add: vpc_serde_ok_def vpc_tag_serde_def tag_codec_ok)

end
