(* ===== verification/Ghost_IPv6.thy ===== *)
theory Ghost_IPv6
  imports K3_Prelude
begin

text \<open>
  Ghost IPv6 addresses (\<open>pkg/vpc/src/ghost_ipv6.rs\<close> with the constants of
  \<open>pkg/constants/src/network.rs\<close>): the 128-bit layout that embeds platform prefix, version, flags,
  cluster id, VPC id and guest IPv4, its parser and its validator. The lemmas show that parsing
  inverts construction, that construction is injective, and that the validator accepts exactly the
  constructed addresses of the expected prefix.
\<close>

section \<open>Constants\<close>

definition PLATFORM_PREFIX :: u32 where
  "PLATFORM_PREFIX = 0xfd6b3372"

definition GHOST_VERSION :: u8 where
  "GHOST_VERSION = 1"

definition RESERVED_VPC_ID :: u16 where
  "RESERVED_VPC_ID = 0"

definition DEFAULT_VPC_ID :: u16 where
  "DEFAULT_VPC_ID = 1"

section \<open>Construction, parsing, validation\<close>

text \<open>An \<open>Ipv6Addr\<close> is its sixteen octets.\<close>

type_synonym ipv6 = bytes

record GhostFields =
  platform_prefix :: u32
  version :: u8
  flags :: u16
  cluster_id :: u32
  vpc_id :: u16
  guest_ipv4 :: ipv4

definition construct :: "u32 \<Rightarrow> u32 \<Rightarrow> u16 \<Rightarrow> ipv4 \<Rightarrow> ipv6" where
  "construct pfx cluster vpc ip =
     (let cluster_hi = ucast (drop_bit 16 cluster) :: u16;
          cluster_lo = ucast (cluster AND 0xFFFF) :: u16
      in u32_to_be_bytes pfx
         @ [push_bit 4 GHOST_VERSION, 0x00]
         @ u16_to_be_bytes cluster_hi
         @ u16_to_be_bytes cluster_lo
         @ u16_to_be_bytes vpc
         @ u32_to_be_bytes ip)"

definition parse :: "ipv6 \<Rightarrow> GhostFields result" where
  "parse b =
     Inr \<lparr> platform_prefix = u32_from_be_bytes [b ! 0, b ! 1, b ! 2, b ! 3],
           version = drop_bit 4 (b ! 4),
           flags = push_bit 8 (ucast (b ! 4 AND 0x0F)) OR ucast (b ! 5),
           cluster_id =
             (let cluster_hi = ucast (u16_from_be_bytes [b ! 6, b ! 7]) :: u32;
                  cluster_lo = ucast (u16_from_be_bytes [b ! 8, b ! 9]) :: u32
              in push_bit 16 cluster_hi OR cluster_lo),
           vpc_id = u16_from_be_bytes [b ! 10, b ! 11],
           guest_ipv4 = u32_from_be_bytes [b ! 12, b ! 13, b ! 14, b ! 15] \<rparr>"

definition validate :: "ipv6 \<Rightarrow> u32 \<Rightarrow> unit result" where
  "validate addr expected_prefix =
     bindR (parse addr) (\<lambda>fields.
     bindR (ensure (platform_prefix fields = expected_prefix) ''prefix mismatch'') (\<lambda>_.
     if version fields \<noteq> GHOST_VERSION then Inl (Err ''version mismatch'')
     else if flags fields \<noteq> 0 then Inl (Err ''flags must be 0'')
     else Inr ()))"

section \<open>Layout\<close>

lemma length_construct [simp]: "length (construct p c v ip) = 16"
  by (simp add: construct_def Let_def)

lemma length_16_split:
  assumes "length (b :: 'a list) = 16"
  shows "b = [b ! 0, b ! 1, b ! 2, b ! 3, b ! 4, b ! 5, b ! 6, b ! 7,
              b ! 8, b ! 9, b ! 10, b ! 11, b ! 12, b ! 13, b ! 14, b ! 15]"
  by (rule nth_equalityI) (use assms in \<open>auto simp: less_Suc_eq eval_nat_numeral nth_Cons'\<close>)

lemma cluster_halves:
  fixes c :: u32
  shows "push_bit 16 (ucast (ucast (drop_bit 16 c) :: u16)) OR ucast (ucast (c AND 0xFFFF) :: u16) = c"
proof -
  have "c AND 0xFFFF = take_bit 16 c" by (simp add: take_bit_eq_mask mask_eq_exp_minus_1)
  then show ?thesis by (intro bit_word_eqI) (auto simp: bit_simps)
qed

lemma construct_nth:
  "[construct p c v ip ! 0, construct p c v ip ! 1, construct p c v ip ! 2, construct p c v ip ! 3]
     = u32_to_be_bytes p"
  "construct p c v ip ! 4 = 0x10"
  "construct p c v ip ! 5 = 0"
  "[construct p c v ip ! 6, construct p c v ip ! 7] = u16_to_be_bytes (ucast (drop_bit 16 c))"
  "[construct p c v ip ! 8, construct p c v ip ! 9] = u16_to_be_bytes (ucast (c AND 0xFFFF))"
  "[construct p c v ip ! 10, construct p c v ip ! 11] = u16_to_be_bytes v"
  "[construct p c v ip ! 12, construct p c v ip ! 13, construct p c v ip ! 14, construct p c v ip ! 15]
     = u32_to_be_bytes ip"
  by (simp_all add: construct_def Let_def u32_to_be_bytes_def u16_to_be_bytes_def nth_Cons'
      GHOST_VERSION_def)

lemma parse_construct:
  "parse (construct p c v ip) =
     Inr \<lparr> platform_prefix = p, version = GHOST_VERSION, flags = 0,
           cluster_id = c, vpc_id = v, guest_ipv4 = ip \<rparr>"
  unfolding parse_def construct_nth Let_def u16_from_to_be u32_from_to_be cluster_halves
  by (simp add: GHOST_VERSION_def)

lemma construct_inject:
  "construct p c v ip = construct p' c' v' ip' \<longleftrightarrow> p = p' \<and> c = c' \<and> v = v' \<and> ip = ip'"
proof
  assume "construct p c v ip = construct p' c' v' ip'"
  then have "parse (construct p c v ip) = parse (construct p' c' v' ip')" by simp
  then show "p = p' \<and> c = c' \<and> v = v' \<and> ip = ip'" by (simp add: parse_construct)
qed simp

text \<open>An address whose version nibble is 1 and whose flags are 0 has the fixed fifth and sixth octet.\<close>

lemma version_flags_octets:
  fixes x y :: u8
  assumes "drop_bit 4 x = GHOST_VERSION" and "push_bit 8 (ucast (x AND 0x0F)) OR ucast y = (0 :: u16)"
  shows "x = 0x10" and "y = 0"
proof -
  have zero: "\<not> bit (push_bit 8 (ucast (x AND 0x0F)) OR ucast y :: u16) n" for n
    using assms(2) by simp
  have y: "\<not> bit y n" for n
    using zero [of n] by (cases "n < 8") (auto simp: bit_simps dest: bit_imp_le_length)
  then show "y = 0" by (intro bit_word_eqI) simp
  have "\<not> bit (x AND 0x0F) n" for n
    using zero [of "n + 8"] by (cases "n < 8") (auto simp: bit_simps dest: bit_imp_le_length)
  then have "x AND 0x0F = 0" by (intro bit_word_eqI) simp
  moreover have "x AND 0x0F = take_bit 4 x" by (simp add: take_bit_eq_mask mask_eq_exp_minus_1)
  ultimately have "take_bit 4 x = 0" by simp
  then have "x = push_bit 4 (drop_bit 4 x)"
    using bits_ident [of 4 x] by simp
  then show "x = 0x10" using assms(1) by (simp add: GHOST_VERSION_def)
qed

lemma construct_parse:
  assumes len: "length b = 16" and f: "parse b = Inr f"
    and ver: "version f = GHOST_VERSION" and fl: "flags f = 0"
  shows "construct (platform_prefix f) (cluster_id f) (vpc_id f) (guest_ipv4 f) = b"
proof -
  let ?c = "cluster_id f"
  have x: "b ! 4 = 0x10" and y: "b ! 5 = 0"
    using version_flags_octets [of "b ! 4" "b ! 5"] f ver fl by (auto simp: parse_def)
  have c: "?c = push_bit 16 (ucast (u16_from_be_bytes [b ! 6, b ! 7]))
                OR ucast (u16_from_be_bytes [b ! 8, b ! 9])"
    using f by (auto simp: parse_def Let_def)
  have msk: "?c AND 0xFFFF = take_bit 16 ?c" by (simp add: take_bit_eq_mask mask_eq_exp_minus_1)
  have hi: "ucast (drop_bit 16 ?c) = u16_from_be_bytes [b ! 6, b ! 7]"
    unfolding c by (rule bit_word_eqI) (auto simp: bit_simps dest: bit_imp_le_length)
  have lo: "ucast (?c AND 0xFFFF) = u16_from_be_bytes [b ! 8, b ! 9]"
    unfolding msk unfolding c by (rule bit_word_eqI) (auto simp: bit_simps)
  have flds: "platform_prefix f = u32_from_be_bytes [b ! 0, b ! 1, b ! 2, b ! 3]"
    "vpc_id f = u16_from_be_bytes [b ! 10, b ! 11]"
    "guest_ipv4 f = u32_from_be_bytes [b ! 12, b ! 13, b ! 14, b ! 15]"
    using f by (auto simp: parse_def)
  show ?thesis
    unfolding construct_def Let_def hi lo flds
    by (rule trans [OF _ length_16_split [OF len, symmetric]])
      (simp add: x y GHOST_VERSION_def u16_to_from_be u32_to_from_be)
qed

lemma validate_iff:
  assumes "length b = 16"
  shows "validate b pfx = Inr () \<longleftrightarrow> (\<exists>c v ip. b = construct pfx c v ip)"
proof
  assume "validate b pfx = Inr ()"
  then obtain f where f: "parse b = Inr f" "platform_prefix f = pfx"
    "version f = GHOST_VERSION" "flags f = 0"
    by (auto simp: validate_def bindR_eq_Inr split: if_splits)
  from construct_parse [OF assms f(1,3,4)] f(2) show "\<exists>c v ip. b = construct pfx c v ip" by metis
next
  assume "\<exists>c v ip. b = construct pfx c v ip"
  then show "validate b pfx = Inr ()" by (auto simp: validate_def parse_construct)
qed

section \<open>Properties\<close>

text \<open>C1: parsing an address built by \<open>construct\<close> succeeds and gives back the four arguments, version 1
  and zero flags; in particular tenants with different cluster, VPC or guest address never share
  a Ghost address.\<close>

theorem ghost_parse_construct:
  "parse (construct p c v ip) =
     Inr \<lparr> platform_prefix = p, version = 1, flags = 0, cluster_id = c, vpc_id = v, guest_ipv4 = ip \<rparr>
   \<and> (construct p c v ip = construct p' c' v' ip' \<longleftrightarrow> (p, c, v, ip) = (p', c', v', ip'))"
  by (simp add: parse_construct construct_inject GHOST_VERSION_def)

text \<open>The validator accepts an address exactly when it is the Ghost address, under the expected
  prefix, of some cluster, VPC and guest IPv4, and these are the fields \<open>parse\<close> reads.\<close>

theorem ghost_validate_exact:
  assumes "length b = 16"
  shows "validate b pfx = Inr () \<longleftrightarrow>
    (\<exists>f. parse b = Inr f \<and> b = construct pfx (cluster_id f) (vpc_id f) (guest_ipv4 f))"
  using validate_iff [OF assms, of pfx] by (auto simp: parse_construct)

theorem ghost_validate_exact_witness:
  "validate (construct PLATFORM_PREFIX 1 5 0x0A000007) PLATFORM_PREFIX = Inr ()"
  using ghost_validate_exact [OF length_construct, of PLATFORM_PREFIX 1 5 "0x0A000007" PLATFORM_PREFIX]
  by (simp add: parse_construct)

end
