(* ===== verification/Ipv6_Text.thy ===== *)
theory Ipv6_Text
  imports Ghost_IPv6
begin

text \<open>
  The text form of \<open>Ipv6Addr\<close> the sources use through \<open>to_string\<close> and \<open>parse\<close>: \<open>Display\<close> of the standard
  library (the longest run of two or more zero groups compressed, the first among equals;
  IPv4-mapped addresses in mixed notation) and its parser (up to eight hexadecimal groups, an
  optional embedded IPv4 address, at most one compression). The last lemma is that parsing inverts
  printing for every address.
\<close>

section \<open>Groups\<close>

fun segments_of :: "bytes \<Rightarrow> u16 list" where
  "segments_of (a # b # bs) = u16_from_be_bytes [a, b] # segments_of bs"
| "segments_of _ = []"

definition octets_of :: "u16 list \<Rightarrow> bytes" where
  "octets_of ss = concat (map u16_to_be_bytes ss)"

lemma octets_of_segments_of: "even (length bs) \<Longrightarrow> octets_of (segments_of bs) = bs"
  by (induction bs rule: segments_of.induct) (auto simp: octets_of_def u16_to_from_be)

lemma segments_of_octets_of: "segments_of (octets_of ss) = ss"
proof (induction ss)
  case (Cons s ss)
  obtain a b where "u16_to_be_bytes s = [a, b]" using length_u16_to_be_bytes length_2_conv by metis
  with Cons show ?case
    using u16_from_to_be [of s] by (simp add: octets_of_def)
qed (simp add: octets_of_def)

lemma octets_of_halves: "octets_of [ucast (drop_bit 16 ip), ucast ip] = u32_to_be_bytes (ip :: u32)"
  unfolding octets_of_def u16_to_be_bytes_def u32_to_be_bytes_def
  by (auto simp: bit_simps intro!: bit_word_eqI)

lemma length_segments_of: "length (segments_of bs) = length bs div 2"
  by (induction bs rule: segments_of.induct) auto

section \<open>Hexadecimal numbers\<close>

definition hex_char :: "nat \<Rightarrow> char" where
  "hex_char d = (if d < 10 then char_of (48 + d) else char_of (87 + d))"

definition hex_val :: "char \<Rightarrow> nat option" where
  "hex_val c = (let n = of_char c :: nat in
     if 48 \<le> n \<and> n \<le> 57 then Some (n - 48)
     else if 97 \<le> n \<and> n \<le> 102 then Some (n - 87)
     else if 65 \<le> n \<and> n \<le> 70 then Some (n - 55)
     else None)"

definition dec_val :: "char \<Rightarrow> nat option" where
  "dec_val c = (if is_digit c then Some (digit_val c) else None)"

fun show_hex :: "nat \<Rightarrow> string" where
  "show_hex n = (if n < 16 then [hex_char n] else show_hex (n div 16) @ [hex_char (n mod 16)])"

declare show_hex.simps [simp del]

text \<open>
  \<open>read_number\<close>: all digits that follow, at most \<open>max_digits\<close> of them, at least one; a superfluous
  leading zero is refused unless allowed; the value must fit. Returns it with the remaining input.
\<close>

definition number_val :: "(char \<Rightarrow> nat option) \<Rightarrow> nat \<Rightarrow> string \<Rightarrow> nat" where
  "number_val dig radix ds = foldl (\<lambda>acc c. acc * radix + the (dig c)) 0 ds"

definition read_number ::
  "(char \<Rightarrow> nat option) \<Rightarrow> nat \<Rightarrow> nat \<Rightarrow> bool \<Rightarrow> nat \<Rightarrow> string \<Rightarrow> (nat \<times> string) option" where
  "read_number dig radix max_digits allow_zero_prefix mx s =
     (let ds = takeWhile (\<lambda>c. dig c \<noteq> None) s; rest = dropWhile (\<lambda>c. dig c \<noteq> None) s
      in if ds = [] \<or> max_digits < length ds then None
         else if \<not> allow_zero_prefix \<and> hd ds = CHR ''0'' \<and> 1 < length ds then None
         else if number_val dig radix ds \<le> mx then Some (number_val dig radix ds, rest) else None)"

definition read_separator ::
  "char \<Rightarrow> nat \<Rightarrow> (string \<Rightarrow> ('a \<times> string) option) \<Rightarrow> string \<Rightarrow> ('a \<times> string) option" where
  "read_separator sep i inner s =
     (if 0 < i then (case s of [] \<Rightarrow> None | c # cs \<Rightarrow> if c = sep then inner cs else None) else inner s)"

definition read_octet :: "string \<Rightarrow> (nat \<times> string) option" where
  "read_octet = read_number dec_val 10 3 False 255"

definition read_hex_group :: "string \<Rightarrow> (nat \<times> string) option" where
  "read_hex_group = read_number hex_val 16 4 True 65535"

definition read_ipv4 :: "string \<Rightarrow> (ipv4 \<times> string) option" where
  "read_ipv4 s =
     Option.bind (read_separator (CHR ''.'') 0 read_octet s) (\<lambda>(a, s).
     Option.bind (read_separator (CHR ''.'') 1 read_octet s) (\<lambda>(b, s).
     Option.bind (read_separator (CHR ''.'') 2 read_octet s) (\<lambda>(c, s).
     Option.bind (read_separator (CHR ''.'') 3 read_octet s) (\<lambda>(d, s).
     Some (u32_from_be_bytes [of_nat a, of_nat b, of_nat c, of_nat d], s)))))"

text \<open>\<open>read_groups\<close>: the groups read, whether the last two came from an IPv4 address, and the rest.\<close>

function read_groups :: "nat \<Rightarrow> nat \<Rightarrow> string \<Rightarrow> u16 list \<times> bool \<times> string" where
  "read_groups limit i s =
     (if limit \<le> i then ([], False, s)
      else case (if i + 1 < limit then read_separator (CHR '':'') i read_ipv4 s else None) of
             Some (ip, s') \<Rightarrow> ([ucast (drop_bit 16 ip), ucast ip], True, s')
           | None \<Rightarrow>
               (case read_separator (CHR '':'') i read_hex_group s of
                  Some (g, s') \<Rightarrow> (let (gs, b, s'') = read_groups limit (Suc i) s' in (of_nat g # gs, b, s''))
                | None \<Rightarrow> ([], False, s)))"
  by pat_completeness auto
termination
  by (relation "measure (\<lambda>(limit, i, s). limit - i)") auto

declare read_groups.simps [simp del]

section \<open>Display and FromStr\<close>

text \<open>The zero run to compress: the state of the scan is the longest run so far and the current one.\<close>

fun zero_span :: "nat \<Rightarrow> nat \<times> nat \<Rightarrow> nat \<times> nat \<Rightarrow> u16 list \<Rightarrow> nat \<times> nat" where
  "zero_span i longest current [] = longest"
| "zero_span i longest current (s # ss) =
     (if s = 0 then
        let current' = (if snd current = 0 then i else fst current, snd current + 1);
            longest' = (if snd longest < snd current' then current' else longest)
        in zero_span (Suc i) longest' current' ss
      else zero_span (Suc i) longest (0, 0) ss)"

definition fmt_subslice :: "u16 list \<Rightarrow> string" where
  "fmt_subslice ss = join_with '':'' (map (\<lambda>s. show_hex (unat s)) ss)"

definition is_mapped :: "u16 list \<Rightarrow> bool" where
  "is_mapped ss \<longleftrightarrow> take 6 ss = [0, 0, 0, 0, 0, 0xFFFF]"

definition show_segments :: "u16 list \<Rightarrow> string" where
  "show_segments ss =
     (if is_mapped ss
      then ''::ffff:'' @ show_ipv4 (u32_from_be_bytes (octets_of (drop 6 ss)))
      else let (start, len) = zero_span 0 (0, 0) (0, 0) ss
           in if 1 < len
              then fmt_subslice (take start ss) @ ''::'' @ fmt_subslice (drop (start + len) ss)
              else fmt_subslice ss)"

definition show_ipv6 :: "ipv6 \<Rightarrow> string" where
  "show_ipv6 a = show_segments (segments_of a)"

definition parse_segments :: "string \<Rightarrow> u16 list option" where
  "parse_segments s =
     (let (head, head_ipv4, s1) = read_groups 8 0 s
      in if length head = 8 then (if s1 = [] then Some head else None)
         else if head_ipv4 then None
         else case s1 of
           c1 # c2 # s2 \<Rightarrow>
             if c1 = CHR '':'' \<and> c2 = CHR '':'' then
               let (tail, _, s3) = read_groups (8 - (length head + 1)) 0 s2
               in if s3 = [] then Some (head @ replicate (8 - length head - length tail) 0 @ tail) else None
             else None
         | _ \<Rightarrow> None)"

definition parse_ipv6 :: "string \<Rightarrow> ipv6 option" where
  "parse_ipv6 s = map_option octets_of (parse_segments s)"

section \<open>Reading printed numbers\<close>

lemma hex_val_char [simp]: "d < 16 \<Longrightarrow> hex_val (hex_char d) = Some d"
proof -
  assume "d < 16"
  then have "(48 + d) mod 256 = 48 + d" "(87 + d) mod 256 = 87 + d" by simp_all
  with \<open>d < 16\<close> show ?thesis by (auto simp: hex_val_def hex_char_def)
qed

lemma set_show_hex: "c \<in> set (show_hex n) \<Longrightarrow> hex_val c \<noteq> None"
proof (induction n rule: show_hex.induct)
  case (1 n)
  then show ?case by (cases "n < 16") (auto simp: show_hex.simps [of n])
qed

lemma number_val_show_hex: "number_val hex_val 16 (show_hex n) = n"
proof (induction n rule: show_hex.induct)
  case (1 n)
  then show ?case by (cases "n < 16") (auto simp: show_hex.simps [of n] number_val_def)
qed

lemma show_hex_nonempty [simp]: "show_hex n \<noteq> []"
  by (subst show_hex.simps) simp

lemma length_show_hex: "n < 16 ^ k \<Longrightarrow> 0 < k \<Longrightarrow> length (show_hex n) \<le> k"
proof (induction k arbitrary: n)
  case (Suc k)
  show ?case
  proof (cases "n < 16")
    case False
    then have "0 < k" using Suc.prems by (cases k) auto
    moreover have "n div 16 < 16 ^ k" using Suc.prems by (simp add: less_mult_imp_div_less)
    ultimately show ?thesis using Suc.IH False by (simp add: show_hex.simps [of n])
  qed (simp add: show_hex.simps [of n])
qed simp

lemma read_number_digits:
  assumes "ds \<noteq> []" "\<forall>c \<in> set ds. dig c \<noteq> None" "rest = [] \<or> dig (hd rest) = None"
  shows "read_number dig radix k z mx (ds @ rest) =
    (if k < length ds then None
     else if \<not> z \<and> hd ds = CHR ''0'' \<and> 1 < length ds then None
     else if number_val dig radix ds \<le> mx then Some (number_val dig radix ds, rest) else None)"
proof -
  have "takeWhile (\<lambda>c. dig c \<noteq> None) rest = []" "dropWhile (\<lambda>c. dig c \<noteq> None) rest = rest"
    using assms(3) by (cases rest; auto)+
  then have "takeWhile (\<lambda>c. dig c \<noteq> None) (ds @ rest) = ds" "dropWhile (\<lambda>c. dig c \<noteq> None) (ds @ rest) = rest"
    using assms(2) by (simp_all add: takeWhile_append dropWhile_append)
  then show ?thesis using assms(1) by (simp add: read_number_def)
qed

lemma read_number_None: "s = [] \<or> dig (hd s) = None \<Longrightarrow> read_number dig r k z mx s = None"
  by (cases s) (auto simp: read_number_def)

lemma read_hex_show:
  assumes "rest = [] \<or> hex_val (hd rest) = None"
  shows "read_hex_group (show_hex (unat (g :: u16)) @ rest) = Some (unat g, rest)"
proof -
  have "unat g < 16 ^ 4" using unsigned_less [of g] by simp
  then have "length (show_hex (unat g)) \<le> 4" "unat g \<le> 65535" by (auto intro: length_show_hex)
  moreover have "\<forall>c \<in> set (show_hex (unat g)). hex_val c \<noteq> None" using set_show_hex by blast
  ultimately show ?thesis
    unfolding read_hex_group_def
    using assms by (subst read_number_digits [where dig = hex_val]) (auto simp: number_val_show_hex)
qed

lemma number_val_show_dec: "number_val dec_val 10 (show_dec n) = n"
proof (induction n rule: show_dec.induct)
  case (1 n)
  then show ?case
    by (cases "n < 10") (auto simp: show_dec.simps [of n] number_val_def dec_val_def)
qed

lemma show_dec_zero: "1 < length (show_dec n) \<Longrightarrow> hd (show_dec n) \<noteq> CHR ''0''"
  using hd_show_dec [of n] by (cases "n = 0") (auto simp: show_dec.simps [of 0] digit_char_0)

lemma read_octet_show:
  assumes "rest = [] \<or> dec_val (hd rest) = None"
  shows "read_octet (show_dec (unat (b :: u8)) @ rest) = Some (unat b, rest)"
proof -
  have b: "unat b < 256" using unsigned_less [of b] by simp
  have "\<forall>c \<in> set (show_dec (unat b)). dec_val c \<noteq> None" using set_show_dec by (simp add: dec_val_def)
  then show ?thesis
    unfolding read_octet_def
    using assms b length_show_dec_byte [OF b] show_dec_zero [of "unat b"]
    by (subst read_number_digits [where dig = dec_val]) (auto simp: number_val_show_dec)
qed

lemma dec_val_dot [simp]: "dec_val (CHR ''.'') = None"
  by (simp add: dec_val_def is_digit_def)

lemma hex_val_colon [simp]: "hex_val (CHR '':'') = None"
  by (simp add: hex_val_def)

lemma hex_val_dot [simp]: "hex_val (CHR ''.'') = None"
  by (simp add: hex_val_def)

lemma read_ipv4_show: "read_ipv4 (show_ipv4 a) = Some (a, [])"
proof -
  obtain x y z w where xs: "u32_to_be_bytes a = [x, y, z, w]"
    using length_u32_to_be_bytes length_4_conv by metis
  have eq: "show_ipv4 a = show_dec (unat x) @ CHR ''.'' # show_dec (unat y) @ CHR ''.'' #
      show_dec (unat z) @ CHR ''.'' # show_dec (unat w) @ []"
    by (simp add: show_ipv4_def xs)
  have "u32_from_be_bytes [x, y, z, w] = a" using u32_from_to_be [of a] xs by simp
  then show ?thesis
    unfolding eq read_ipv4_def read_separator_def by (simp add: read_octet_show del: append_Nil2)
qed

lemma read_number_suffix: "read_number dig r k z mx s = Some (n, s') \<Longrightarrow> suffix s' s"
  by (auto simp: read_number_def Let_def suffix_dropWhile split: if_splits)

lemma read_ipv4_dot: "CHR ''.'' \<notin> set s \<Longrightarrow> read_ipv4 s = None"
proof (rule ccontr)
  assume "read_ipv4 s \<noteq> None" and dot: "CHR ''.'' \<notin> set s"
  then obtain a s' where "read_octet s = Some (a, s')" "read_separator (CHR ''.'') 1 read_octet s' \<noteq> None"
    by (auto simp: read_ipv4_def bind_eq_Some_conv read_separator_def)
  then have "suffix s' s" "CHR ''.'' \<in> set s'"
    by (auto simp: read_octet_def read_separator_def split: list.splits if_splits dest: read_number_suffix)
  with dot show False by (meson set_mono_suffix subsetD)
qed

lemma read_ipv4_nodigit: "s = [] \<or> dec_val (hd s) = None \<Longrightarrow> read_ipv4 s = None"
  by (simp add: read_ipv4_def read_separator_def read_octet_def read_number_None)

section \<open>Reading printed groups\<close>

definition stops :: "string \<Rightarrow> bool" where
  "stops rest \<longleftrightarrow> rest = [] \<or> prefix ''::'' rest"

text \<open>Groups as they follow an earlier group: each after a colon.\<close>

definition fmt_more :: "nat \<Rightarrow> u16 list \<Rightarrow> string" where
  "fmt_more i ss = (if 0 < i \<and> ss \<noteq> [] then CHR '':'' # fmt_subslice ss else fmt_subslice ss)"

lemma fmt_more_Cons:
  "fmt_more i (g # gs) = (if 0 < i then '':'' else []) @ show_hex (unat g) @ fmt_more (Suc i) gs"
  by (cases gs) (auto simp: fmt_more_def fmt_subslice_def)

lemma fmt_subslice_set: "c \<in> set (fmt_subslice ss) \<Longrightarrow> c = CHR '':'' \<or> hex_val c \<noteq> None"
proof (induction ss)
  case (Cons s ss)
  then show ?case by (cases ss) (auto simp: fmt_subslice_def dest: set_show_hex)
qed (simp add: fmt_subslice_def)

lemma fmt_more_set: "c \<in> set (fmt_more i ss) \<Longrightarrow> c = CHR '':'' \<or> hex_val c \<noteq> None"
  by (auto simp: fmt_more_def dest: fmt_subslice_set split: if_splits)

lemma no_dot_fmt_more: "CHR ''.'' \<notin> set (fmt_more i ss)"
  using fmt_more_set [of "CHR ''.''" i ss] by auto

lemma read_sep_ipv4_dot: "CHR ''.'' \<notin> set s \<Longrightarrow> read_separator c i read_ipv4 s = None"
  by (auto simp: read_separator_def read_ipv4_dot split: list.splits)

lemma read_sep_hex_stop: "stops rest \<Longrightarrow> read_separator (CHR '':'') i read_hex_group rest = None"
  by (auto simp: stops_def read_separator_def read_hex_group_def read_number_None prefix_def
      split: list.splits)

lemma hd_fmt_more: "stops rest \<Longrightarrow> fmt_more (Suc i) gs @ rest = [] \<or> hex_val (hd (fmt_more (Suc i) gs @ rest)) = None"
  by (cases gs) (auto simp: fmt_more_Cons stops_def prefix_def fmt_more_def [of _ "[]"] fmt_subslice_def)

lemma read_groups_fmt:
  assumes "stops rest" "CHR ''.'' \<notin> set rest" "i + length gs \<le> limit"
  shows "read_groups limit i (fmt_more i gs @ rest) = (gs, False, rest)"
  using assms(3)
proof (induction gs arbitrary: i)
  case Nil
  then show ?case
    using read_sep_hex_stop [OF assms(1)] read_sep_ipv4_dot [OF assms(2)]
    by (simp add: read_groups.simps [of limit i] fmt_more_def fmt_subslice_def)
next
  case (Cons g gs)
  let ?more = "fmt_more (Suc i) gs @ rest"
  have IH: "read_groups limit (Suc i) ?more = (gs, False, rest)" using Cons by simp
  have "read_separator (CHR '':'') i read_hex_group (fmt_more i (g # gs) @ rest) = Some (unat g, ?more)"
    using read_hex_show [OF hd_fmt_more [OF assms(1)]]
    by (auto simp: fmt_more_Cons read_separator_def)
  moreover have "read_separator (CHR '':'') i read_ipv4 (fmt_more i (g # gs) @ rest) = None"
    using assms(2) no_dot_fmt_more by (intro read_sep_ipv4_dot) simp
  ultimately show ?case
    using Cons.prems IH by (subst read_groups.simps) simp
qed

lemma read_groups_start:
  assumes "stops rest" "CHR ''.'' \<notin> set rest" "length gs \<le> limit"
  shows "read_groups limit 0 (fmt_subslice gs @ rest) = (gs, False, rest)"
  using read_groups_fmt [OF assms(1,2), of 0 gs limit] assms(3) by (simp add: fmt_more_def)

section \<open>The compressed run is a run of zeros\<close>

definition span_ok :: "u16 list \<Rightarrow> nat \<times> nat \<Rightarrow> bool" where
  "span_ok ss sp \<longleftrightarrow> fst sp + snd sp \<le> length ss \<and> (\<forall>k < snd sp. ss ! (fst sp + k) = 0)"

lemma span_ok_append: "span_ok ss sp \<Longrightarrow> span_ok (ss @ ts) sp"
  by (auto simp: span_ok_def nth_append)

lemma zero_span_ok:
  assumes "span_ok before longest" "span_ok before current"
    and "snd current = 0 \<or> fst current + snd current = length before"
  shows "span_ok (before @ ss) (zero_span (length before) longest current ss)"
  using assms
proof (induction ss arbitrary: before longest current)
  case (Cons s ss)
  let ?b = "before @ [s]"
  show ?case
  proof (cases "s = 0")
    case True
    let ?cur = "(if snd current = 0 then length before else fst current, snd current + 1)"
    let ?lon = "if snd longest < snd ?cur then ?cur else longest"
    have cur: "span_ok ?b ?cur" "fst ?cur + snd ?cur = length ?b"
      using Cons.prems True by (auto simp: span_ok_def nth_append less_Suc_eq)
    moreover have "span_ok ?b ?lon" using cur(1) Cons.prems(1) span_ok_append by auto
    ultimately have "span_ok (?b @ ss) (zero_span (length ?b) ?lon ?cur ss)"
      by (intro Cons.IH) auto
    moreover have "zero_span (length before) longest current (s # ss) = zero_span (length ?b) ?lon ?cur ss"
      using True by (simp add: Let_def)
    ultimately show ?thesis by simp
  next
    case False
    then show ?thesis
      using Cons.IH [of ?b longest "(0, 0)"] Cons.prems span_ok_append by (simp add: span_ok_def [of _ "(0, 0)"])
  qed
qed simp

lemma zero_span_cut:
  assumes "zero_span 0 (0, 0) (0, 0) ss = (start, len)"
  shows "ss = take start ss @ replicate len 0 @ drop (start + len) ss" "start + len \<le> length ss"
proof -
  have ok: "span_ok ss (start, len)"
    using zero_span_ok [of "[]" "(0, 0)" "(0, 0)" ss] assms by (simp add: span_ok_def)
  then have "take len (drop start ss) = replicate len 0"
    by (intro nth_equalityI) (auto simp: span_ok_def)
  then show "ss = take start ss @ replicate len 0 @ drop (start + len) ss"
    by (metis append_take_drop_id drop_drop add.commute)
  show "start + len \<le> length ss" using ok by (simp add: span_ok_def)
qed

section \<open>Round trip\<close>

lemma parse_compressed:
  assumes "start + len \<le> 8" "1 < len" "length hs = start" "length ts = 8 - (start + len)"
  shows "parse_segments (fmt_subslice hs @ ''::'' @ fmt_subslice ts) = Some (hs @ replicate len 0 @ ts)"
proof -
  have dot: "CHR ''.'' \<notin> set (fmt_subslice ts)" using fmt_subslice_set [of "CHR ''.''" ts] by auto
  have "read_groups 8 0 (fmt_subslice hs @ ''::'' @ fmt_subslice ts) = (hs, False, ''::'' @ fmt_subslice ts)"
    by (rule read_groups_start) (use assms dot in \<open>auto simp: stops_def\<close>)
  moreover have "read_groups (8 - (start + 1)) 0 (fmt_subslice ts) = (ts, False, [])"
    using read_groups_start [of "[]" ts "8 - (start + 1)"] assms by (simp add: stops_def)
  ultimately show ?thesis using assms by (simp add: parse_segments_def)
qed

lemma parse_mapped:
  assumes "length ts = 2"
  shows "parse_segments (''::ffff:'' @ show_ipv4 (u32_from_be_bytes (octets_of ts))) =
    Some ([0, 0, 0, 0, 0, 0xFFFF] @ ts)"
proof -
  obtain x y where ts: "ts = [x, y]" using assms by (auto simp: length_2_conv)
  let ?ip = "u32_from_be_bytes (octets_of ts)"
  have "octets_of [ucast (drop_bit 16 ?ip), ucast ?ip] = u32_to_be_bytes ?ip"
    by (rule octets_of_halves)
  also have "\<dots> = octets_of ts"
    by (rule u32_to_from_be) (simp add: ts octets_of_def)
  finally have "[ucast (drop_bit 16 ?ip), ucast ?ip] = ts"
    using segments_of_octets_of by metis
  then have ip: "ucast (drop_bit 16 ?ip) = x" "ucast ?ip = y" by (simp_all add: ts)
  have head: "read_groups 8 0 (''::ffff:'' @ show_ipv4 ?ip) = ([], False, ''::ffff:'' @ show_ipv4 ?ip)"
    by (simp add: read_groups.simps [of 8 0] read_separator_def read_ipv4_nodigit dec_val_def is_digit_def
        read_hex_group_def read_number_None)
  have "read_groups 7 1 ('':'' @ show_ipv4 ?ip) = ([x, y], True, [])"
    by (subst read_groups.simps) (simp add: read_separator_def read_ipv4_show ip)
  moreover have "read_hex_group (''ffff'' @ '':'' @ show_ipv4 ?ip) = Some (0xFFFF, '':'' @ show_ipv4 ?ip)"
    unfolding read_hex_group_def
    by (subst read_number_digits [where dig = hex_val]) (auto simp: hex_val_def number_val_def)
  ultimately have "read_groups 7 0 (''ffff'' @ '':'' @ show_ipv4 ?ip) = ([0xFFFF, x, y], True, [])"
    by (subst read_groups.simps)
      (simp add: read_separator_def read_ipv4_nodigit dec_val_def is_digit_def)
  with head show ?thesis by (simp add: parse_segments_def ts eval_nat_numeral)
qed

lemma parse_show_segments:
  assumes len8: "length ss = 8"
  shows "parse_segments (show_segments ss) = Some ss"
proof (cases "is_mapped ss")
  case True
  then have "ss = [0, 0, 0, 0, 0, 0xFFFF] @ drop 6 ss"
    unfolding is_mapped_def by (metis append_take_drop_id)
  then show ?thesis using parse_mapped [of "drop 6 ss"] True len8 by (simp add: show_segments_def)
next
  case False
  obtain start len where sp: "zero_span 0 (0, 0) (0, 0) ss = (start, len)" by force
  note cut = zero_span_cut [OF sp]
  show ?thesis
  proof (cases "1 < len")
    case True
    then show ?thesis
      using parse_compressed [of start len "take start ss" "drop (start + len) ss"] cut len8 False sp
      by (simp add: show_segments_def)
  next
    case short: False
    have "read_groups 8 0 (fmt_subslice ss) = (ss, False, [])"
      using read_groups_start [of "[]" ss 8] len8 by (simp add: stops_def)
    then show ?thesis using False sp short len8 by (simp add: show_segments_def parse_segments_def)
  qed
qed

lemma parse_show_ipv6 [simp]: "length a = 16 \<Longrightarrow> parse_ipv6 (show_ipv6 a) = Some a"
  by (simp add: parse_ipv6_def show_ipv6_def parse_show_segments length_segments_of octets_of_segments_of)

end
