(* ===== verification/Cidr.thy ===== *)
theory Cidr
  imports K3_Prelude
begin

text \<open>
  IPv4 CIDR strings. Three components read them, each with its own parser: the API server
  (\<open>pkg/api/src/handlers/vpc.rs\<close>, which masks the address), the VPC allocator
  (\<open>cmd/k3rs-vpc/src/allocator.rs\<close>, which does not and bounds the prefix by 30) and the eBPF enforcer
  (\<open>cmd/k3rs-vpc/src/ebpf_enforcer.rs\<close>, which returns address and mask). The lemmas relate them to
  the set of addresses a CIDR stands for and show that the API's overlap test is exact.
\<close>

section \<open>Parsers\<close>

text \<open>\<open>if prefix == 0 { 0 } else { !0u32 << (32 - prefix) }\<close>, for a prefix of at most 32.\<close>

definition cidr_mask :: "nat \<Rightarrow> u32" where
  "cidr_mask pfx = (if pfx = 0 then 0 else push_bit (32 - pfx) (NOT 0))"

definition u32_max :: nat where
  "u32_max = 4294967295"

definition u8_max :: nat where
  "u8_max = 255"

definition parse_cidr :: "string \<Rightarrow> (u32 \<times> nat) option" where
  "parse_cidr cidr =
     Option.bind (split_once (CHR ''/'') cidr) (\<lambda>(ip_str, prefix_str).
     Option.bind (parse_ipv4 ip_str) (\<lambda>ip.
     Option.bind (parse_unsigned u32_max prefix_str) (\<lambda>pfx.
     if 32 < pfx then None else Some (ip AND cidr_mask pfx, pfx))))"

definition cidrs_overlap :: "string \<Rightarrow> string \<Rightarrow> bool" where
  "cidrs_overlap a b =
     (case parse_cidr a of
        None \<Rightarrow> False
      | Some (net_a, pfx_a) \<Rightarrow>
          (case parse_cidr b of
             None \<Rightarrow> False
           | Some (net_b, pfx_b) \<Rightarrow>
               let common = min pfx_a pfx_b; mask = cidr_mask common
               in net_a AND mask = net_b AND mask))"

definition allocator_parse_cidr :: "string \<Rightarrow> (u32 \<times> nat) result" where
  "allocator_parse_cidr cidr =
     (case split_on (CHR ''/'') cidr of
        [addr_str, prefix_str] \<Rightarrow>
          bindR (ok_or (parse_ipv4 addr_str) ''invalid address'') (\<lambda>addr.
          bindR (ok_or (parse_unsigned u8_max prefix_str) ''invalid prefix'') (\<lambda>prefix_len.
          bindR (ensure (prefix_len \<le> 30) ''prefix_len too large for allocation'') (\<lambda>_.
          Inr (addr, prefix_len))))
      | _ \<Rightarrow> Inl (Err ''invalid CIDR''))"

definition enforcer_parse_cidr :: "string \<Rightarrow> (u32 \<times> u32) result" where
  "enforcer_parse_cidr cidr =
     bindR (ok_or (split_once (CHR ''/'') cidr) ''invalid CIDR'') (\<lambda>(addr_str, prefix_str).
     bindR (ok_or (parse_ipv4 addr_str) ''invalid CIDR network address'') (\<lambda>addr.
     bindR (ok_or (parse_unsigned u32_max prefix_str) ''invalid CIDR prefix length'') (\<lambda>prefix_len.
     if 32 < prefix_len then Inl (Err ''invalid CIDR prefix length'')
     else Inr (addr, cidr_mask prefix_len))))"

text \<open>Printing a CIDR, and the addresses it stands for.\<close>

definition show_cidr :: "ipv4 \<Rightarrow> nat \<Rightarrow> string" where
  "show_cidr ip pfx = show_ipv4 ip @ ''/'' @ show_dec pfx"

definition in_cidr :: "ipv4 \<Rightarrow> u32 \<times> nat \<Rightarrow> bool" where
  "in_cidr ip = (\<lambda>(net, pfx). ip AND cidr_mask pfx = net AND cidr_mask pfx)"

section \<open>Masks\<close>

lemma bit_cidr_mask: "pfx \<le> 32 \<Longrightarrow> bit (cidr_mask pfx) n \<longleftrightarrow> n < 32 \<and> 32 - pfx \<le> n"
  by (auto simp: cidr_mask_def bit_simps)

lemma cidr_mask_min:
  "p \<le> 32 \<Longrightarrow> q \<le> 32 \<Longrightarrow> cidr_mask p AND cidr_mask q = cidr_mask (min p q)"
  by (rule bit_word_eqI) (auto simp: bit_and_iff bit_cidr_mask min_def)

lemma mask_and_min:
  "p \<le> 32 \<Longrightarrow> q \<le> 32 \<Longrightarrow> (x AND cidr_mask p) AND cidr_mask (min p q) = x AND cidr_mask (min p q)"
  by (rule bit_word_eqI) (auto simp: bit_and_iff bit_cidr_mask min_def)

text \<open>Adding a host offset to an aligned base stays under the mask.\<close>

lemma aligned_offset:
  fixes base off :: u32
  assumes p: "p \<le> 32" and base: "base AND cidr_mask p = base" and off: "unat off < 2 ^ (32 - p)"
  shows "take_bit (32 - p) off = off" and "k < 32 - p \<Longrightarrow> \<not> bit base k"
    and "base + off = base OR off" and "in_cidr (base + off) (base, p)"
proof -
  have "unat (take_bit (32 - p) off) = unat off"
    using off by (simp add: unsigned_take_bit_eq take_bit_nat_eq_self)
  then show tb: "take_bit (32 - p) off = off" by (simp only: word_unat_eq_iff)
  have high: "\<not> bit off k" if "32 - p \<le> k" for k
    using that by (subst tb [symmetric]) (simp add: bit_take_bit_iff)
  have low: "\<not> bit base k" if "k < 32 - p" for k
    using that p by (subst base [symmetric]) (simp add: bit_and_iff bit_cidr_mask)
  then show "k < 32 - p \<Longrightarrow> \<not> bit base k" .
  have "base AND off = 0" using high low by (intro bit_word_eqI) (metis bit_and_iff bit_0_eq bot_apply bot_bool_def not_le)
  then show sum: "base + off = base OR off" by (simp add: disjunctive_add_eq_or)
  show "in_cidr (base + off) (base, p)"
    unfolding in_cidr_def sum prod.case
    by (rule bit_word_eqI) (use p high low in \<open>auto simp: bit_and_iff bit_or_iff bit_cidr_mask\<close>)
qed

section \<open>Overlap\<close>

lemma parse_cidr_Some:
  assumes "parse_cidr s = Some (net, pfx)"
  shows "pfx \<le> 32" and "net AND cidr_mask pfx = net"
proof -
  obtain ip where "net = ip AND cidr_mask pfx" and le: "pfx \<le> 32"
    using assms by (auto simp: parse_cidr_def bind_eq_Some_conv split: if_splits)
  then show "net AND cidr_mask pfx = net" by (simp add: and.assoc)
  show "pfx \<le> 32" by fact
qed

lemma overlap_masks:
  assumes "p \<le> 32" "q \<le> 32" and n: "n AND cidr_mask p = n" and m: "m AND cidr_mask q = m"
  shows "n AND cidr_mask (min p q) = m AND cidr_mask (min p q) \<longleftrightarrow>
    (\<exists>ip. in_cidr ip (n, p) \<and> in_cidr ip (m, q))"
proof
  assume eq: "n AND cidr_mask (min p q) = m AND cidr_mask (min p q)"
  show "\<exists>ip. in_cidr ip (n, p) \<and> in_cidr ip (m, q)"
  proof (cases "p \<le> q")
    case True
    then show ?thesis using eq by (intro exI [of _ m]) (simp add: in_cidr_def min_def)
  next
    case False
    then show ?thesis using eq by (intro exI [of _ n]) (simp add: in_cidr_def min_def)
  qed
next
  assume "\<exists>ip. in_cidr ip (n, p) \<and> in_cidr ip (m, q)"
  then obtain ip where "ip AND cidr_mask p = n" "ip AND cidr_mask q = m"
    using n m by (auto simp: in_cidr_def)
  then show "n AND cidr_mask (min p q) = m AND cidr_mask (min p q)"
    using mask_and_min [OF assms(1,2), of ip] mask_and_min [OF assms(2,1), of ip]
    by (metis min.commute)
qed

lemma overlap_iff:
  assumes "parse_cidr a = Some ca" and "parse_cidr b = Some cb"
  shows "cidrs_overlap a b \<longleftrightarrow> (\<exists>ip. in_cidr ip ca \<and> in_cidr ip cb)"
proof -
  obtain n p m q where [simp]: "ca = (n, p)" "cb = (m, q)" by (cases ca, cases cb) auto
  show ?thesis
    using overlap_masks parse_cidr_Some assms by (simp add: cidrs_overlap_def Let_def)
qed

section \<open>Parsing what is printed\<close>

lemma slash_not_in_ipv4: "CHR ''/'' \<notin> set (show_ipv4 a)"
proof -
  have "CHR ''/'' \<notin> set (show_dec n)" for n
    using set_show_dec is_digit_not_punct by blast
  then show ?thesis by (simp add: show_ipv4_def u32_to_be_bytes_def)
qed

lemma slash_not_in_dec: "CHR ''/'' \<notin> set (show_dec n)"
  using set_show_dec is_digit_not_punct by blast

lemma parse_show_cidr: "pfx \<le> 32 \<Longrightarrow> parse_cidr (show_cidr ip pfx) = Some (ip AND cidr_mask pfx, pfx)"
  using split_once_append [OF slash_not_in_ipv4, of ip "show_dec pfx"]
  by (simp add: parse_cidr_def show_cidr_def u32_max_def)

lemma enforcer_show_cidr:
  "pfx \<le> 32 \<Longrightarrow> enforcer_parse_cidr (show_cidr ip pfx) = Inr (ip, cidr_mask pfx)"
  using split_once_append [OF slash_not_in_ipv4, of ip "show_dec pfx"]
  by (simp add: enforcer_parse_cidr_def show_cidr_def ok_or_def u32_max_def)

lemma allocator_show_cidr:
  "pfx \<le> 30 \<Longrightarrow> allocator_parse_cidr (show_cidr ip pfx) = Inr (ip, pfx)"
  using split_on_append [OF slash_not_in_ipv4, of ip "show_dec pfx"] slash_not_in_dec
  by (simp add: allocator_parse_cidr_def show_cidr_def ok_or_def split_on_no_sep u8_max_def)

lemma allocator_parse_le: "allocator_parse_cidr s = Inr (a, p) \<Longrightarrow> p \<le> 30"
  by (auto simp: allocator_parse_cidr_def bindR_eq_Inr split: list.splits)

section \<open>Properties\<close>

text \<open>The API's overlap test is exact: two CIDRs that parse are reported as overlapping exactly when
  some IPv4 address belongs to both.\<close>

theorem cidrs_overlap_exact:
  assumes "parse_cidr a = Some ca" and "parse_cidr b = Some cb"
  shows "cidrs_overlap a b \<longleftrightarrow> (\<exists>ip. in_cidr ip ca \<and> in_cidr ip cb)"
  using assms by (rule overlap_iff)

theorem cidrs_overlap_exact_witness:
  "cidrs_overlap (show_cidr 0x0A2A0000 16) (show_cidr 0x0A2A0500 24) \<and>
   \<not> cidrs_overlap (show_cidr 0x0A2A0000 16) (show_cidr 0x0A2B0000 16)"
proof -
  note p = parse_show_cidr [of 16 "0x0A2A0000"] parse_show_cidr [of 24 "0x0A2A0500"]
    parse_show_cidr [of 16 "0x0A2B0000"]
  have "in_cidr 0x0A2A0501 (0x0A2A0000 AND cidr_mask 16, 16)"
    "in_cidr 0x0A2A0501 (0x0A2A0500 AND cidr_mask 24, 24)"
    by (simp_all add: in_cidr_def cidr_mask_def mask_eq_exp_minus_1)
  moreover have "\<not> (in_cidr ip (0x0A2A0000 AND cidr_mask 16, 16) \<and> in_cidr ip (0x0A2B0000 AND cidr_mask 16, 16))" for ip
    by (simp add: in_cidr_def cidr_mask_def mask_eq_exp_minus_1)
  ultimately show ?thesis
    using cidrs_overlap_exact [of "show_cidr 0x0A2A0000 16" _ "show_cidr 0x0A2A0500 24"]
      cidrs_overlap_exact [of "show_cidr 0x0A2A0000 16" _ "show_cidr 0x0A2B0000 16"] p
    by fastforce
qed

text \<open>The three parsers agree on printed CIDRs with a prefix of at most 30: the API's network is the
  allocator's base address under the enforcer's mask. The allocator keeps the host bits the API
  drops.\<close>

theorem cidr_parsers_agree:
  assumes "pfx \<le> 30"
  shows "\<exists>base mask. allocator_parse_cidr (show_cidr ip pfx) = Inr (base, pfx) \<and>
    enforcer_parse_cidr (show_cidr ip pfx) = Inr (base, mask) \<and>
    parse_cidr (show_cidr ip pfx) = Some (base AND mask, pfx)"
  using assms by (simp add: allocator_show_cidr enforcer_show_cidr parse_show_cidr)

theorem cidr_parsers_agree_witness:
  "\<exists>base mask. allocator_parse_cidr (show_cidr 0x0A000005 24) = Inr (base, 24) \<and>
    parse_cidr (show_cidr 0x0A000005 24) = Some (base AND mask, 24)"
  using cidr_parsers_agree [of 24 "0x0A000005"] by auto

end
