(* ===== verification/Ghost_Allocator.thy ===== *)
theory Ghost_Allocator
  imports Vpc_Store Ipv6_Text Cidr
begin

text \<open>
  The VPC daemon's address allocator (\<open>cmd/k3rs-vpc/src/allocator.rs\<close>): per-VPC pools, the search for
  a free host offset, allocation and release through the daemon's store, pool synchronisation with
  the server's VPC list, and the rebuild of the pools at start. The lemmas give the pool invariant
  (distinct addresses within the pool's range, Ghost addresses as constructed), that the search
  fails only on a full pool, and that a restart recovers the allocations.
\<close>

section \<open>State\<close>

record Allocation =
  Allocation_guest_ipv4 :: ipv4
  Allocation_ghost_ipv6 :: ipv6

record VpcPool =
  VpcPool_vpc_id :: u16
  VpcPool_cidr :: string
  VpcPool_base_ip :: u32
  VpcPool_max_hosts :: u32
  VpcPool_next_offset :: u32
  VpcPool_allocations :: "(string, Allocation) hmap"

record AllocateResult =
  AllocateResult_guest_ipv4 :: ipv4
  AllocateResult_ghost_ipv6 :: ipv6
  AllocateResult_vpc_id :: u16
  AllocateResult_vpc_cidr :: string

record QueryResult =
  QueryResult_guest_ipv4 :: ipv4
  QueryResult_ghost_ipv6 :: ipv6
  QueryResult_vpc_id :: u16
  QueryResult_vpc_name :: string

record 'db GhostAllocator = "'db VpcStore" +
  GhostAllocator_platform_prefix :: u32
  GhostAllocator_cluster_id :: u32
  GhostAllocator_pools :: "(string, VpcPool) hmap"

definition GhostAllocator_new :: "u32 \<Rightarrow> u32 \<Rightarrow> 'db \<Rightarrow> 'db GhostAllocator" where
  "GhostAllocator_new pp cid db =
     \<lparr> VpcStore_db = db, GhostAllocator_platform_prefix = pp, GhostAllocator_cluster_id = cid,
       GhostAllocator_pools = [] \<rparr>"

section \<open>Pools\<close>

text \<open>
  \<open>(1u32 << (32 - prefix_len)) - 2\<close> in a release build: the shift amount is taken modulo 32 and the
  subtraction wraps, which matters for a prefix length of 0 only.
\<close>

definition pool_max_hosts :: "nat \<Rightarrow> u32" where
  "pool_max_hosts prefix_len = push_bit ((32 - prefix_len) mod 32) 1 - 2"

definition new_pool :: "Vpc \<Rightarrow> u32 \<Rightarrow> nat \<Rightarrow> VpcPool" where
  "new_pool vpc base_ip prefix_len =
     \<lparr> VpcPool_vpc_id = Vpc_vpc_id vpc, VpcPool_cidr = Vpc_ipv4_cidr vpc, VpcPool_base_ip = base_ip,
       VpcPool_max_hosts = pool_max_hosts prefix_len, VpcPool_next_offset = 1,
       VpcPool_allocations = [] \<rparr>"

definition insert_pool :: "Vpc \<Rightarrow> (string, VpcPool) hmap \<Rightarrow> (string, VpcPool) hmap" where
  "insert_pool vpc pools =
     (case allocator_parse_cidr (Vpc_ipv4_cidr vpc) of
        Inl e \<Rightarrow> pools
      | Inr (base_ip, prefix_len) \<Rightarrow> hm_insert (Vpc_name vpc) (new_pool vpc base_ip prefix_len) pools)"

definition restore_allocation :: "StoredAllocation \<Rightarrow> (string, VpcPool) hmap \<Rightarrow> (string, VpcPool) hmap" where
  "restore_allocation sa pools =
     (case hm_get pools (StoredAllocation_vpc_name sa) of
        None \<Rightarrow> pools
      | Some pool \<Rightarrow>
          (case parse_ipv4 (StoredAllocation_guest_ipv4 sa) of
             None \<Rightarrow> pools
           | Some guest \<Rightarrow>
               (case parse_ipv6 (StoredAllocation_ghost_ipv6 sa) of
                  None \<Rightarrow> pools
                | Some ghost \<Rightarrow>
                    let offset = guest - VpcPool_base_ip pool
                    in hm_insert (StoredAllocation_vpc_name sa)
                         (pool\<lparr> VpcPool_next_offset :=
                                  (if VpcPool_next_offset pool \<le> offset then offset + 1
                                   else VpcPool_next_offset pool),
                                VpcPool_allocations :=
                                  hm_insert (StoredAllocation_pod_id sa)
                                    \<lparr> Allocation_guest_ipv4 = guest, Allocation_ghost_ipv6 = ghost \<rparr>
                                    (VpcPool_allocations pool) \<rparr>) pools)))"

definition rebuild_pools :: "Vpc list \<Rightarrow> StoredAllocation list \<Rightarrow> 'db GhostAllocator \<Rightarrow> 'db GhostAllocator" where
  "rebuild_pools vpcs stored A =
     A\<lparr> GhostAllocator_pools :=
          fold restore_allocation stored (fold insert_pool vpcs (GhostAllocator_pools A)) \<rparr>"

definition sync_vpcs :: "Vpc list \<Rightarrow> 'db GhostAllocator \<Rightarrow> 'db GhostAllocator" where
  "sync_vpcs vpcs A =
     (let new_names = set (map Vpc_name vpcs);
          retained = filter (\<lambda>(name, _). name \<in> new_names) (GhostAllocator_pools A);
          add = (\<lambda>vpc pools. if hm_get pools (Vpc_name vpc) \<noteq> None then pools else insert_pool vpc pools)
      in A\<lparr> GhostAllocator_pools := fold add vpcs retained \<rparr>)"

section \<open>Allocate and release\<close>

lemma unat_bound: "unat (x :: 'a::len word) < 2 ^ LENGTH('a)"
  by (rule unsigned_less)

lemma unat_plus_one_less: "(x :: 'a::len word) < y \<Longrightarrow> unat (x + 1) = Suc (unat x)"
proof -
  assume "x < y"
  then have "Suc (unat x) < 2 ^ LENGTH('a)"
    using unat_bound [of y] unfolding word_less_nat_alt by linarith
  then show ?thesis by (simp add: unat_word_ariths)
qed

text \<open>The search loop: \<open>None\<close> is the exhausted-pool error.\<close>

function alloc_loop :: "u32 list \<Rightarrow> u32 \<Rightarrow> u32 \<Rightarrow> u32 \<Rightarrow> u32 option" where
  "alloc_loop allocated_offsets max_hosts offset tried =
     (if \<not> tried < max_hosts then None
      else let offset' = (if offset < 1 \<or> max_hosts < offset then 1 else offset)
           in if offset' \<notin> set allocated_offsets then Some offset'
              else alloc_loop allocated_offsets max_hosts (offset' + 1) (tried + 1))"
  by pat_completeness auto
termination
proof (relation "measure (\<lambda>(taken, m, off, tried). unat m - unat tried)", goal_cases)
  case (2 taken m off tried)
  then show ?case using unat_plus_one_less [of tried m] by (simp add: word_less_nat_alt)
qed simp

declare alloc_loop.simps [simp del]

definition allocated_offsets :: "VpcPool \<Rightarrow> u32 list" where
  "allocated_offsets pool =
     map (\<lambda>(_, a). Allocation_guest_ipv4 a - VpcPool_base_ip pool) (VpcPool_allocations pool)"

definition alloc_result :: "VpcPool \<Rightarrow> Allocation \<Rightarrow> AllocateResult" where
  "alloc_result pool a =
     \<lparr> AllocateResult_guest_ipv4 = Allocation_guest_ipv4 a,
       AllocateResult_ghost_ipv6 = Allocation_ghost_ipv6 a,
       AllocateResult_vpc_id = VpcPool_vpc_id pool, AllocateResult_vpc_cidr = VpcPool_cidr pool \<rparr>"

definition stored_allocation :: "string \<Rightarrow> string \<Rightarrow> VpcPool \<Rightarrow> Allocation \<Rightarrow> DateTime \<Rightarrow> StoredAllocation" where
  "stored_allocation pod_id vpc_name pool a now =
     \<lparr> StoredAllocation_pod_id = pod_id, StoredAllocation_vpc_name = vpc_name,
       StoredAllocation_guest_ipv4 = show_ipv4 (Allocation_guest_ipv4 a),
       StoredAllocation_ghost_ipv6 = show_ipv6 (Allocation_ghost_ipv6 a),
       StoredAllocation_vpc_id = VpcPool_vpc_id pool, StoredAllocation_allocated_at = now,
       StoredAllocation_interface_type = ''netkit'' \<rparr>"

definition allocate ::
  "('db, 'v) VpcDb \<Rightarrow> 'v vpc_serde \<Rightarrow> DateTime \<Rightarrow> string \<Rightarrow> string \<Rightarrow> ('db GhostAllocator, AllocateResult) act" where
  "allocate V C now pod_id vpc_name A =
     (case hm_get (GhostAllocator_pools A) vpc_name of
        None \<Rightarrow> (Inl (Err ''VPC not found''), A)
      | Some pool \<Rightarrow>
          (case hm_get (VpcPool_allocations pool) pod_id of
             Some existing \<Rightarrow> (Inr (alloc_result pool existing), A)
           | None \<Rightarrow>
               (case alloc_loop (allocated_offsets pool) (VpcPool_max_hosts pool)
                       (VpcPool_next_offset pool) 0 of
                  None \<Rightarrow> (Inl (Err ''pool exhausted''), A)
                | Some offset \<Rightarrow>
                    let guest = VpcPool_base_ip pool + offset;
                        ghost = construct (GhostAllocator_platform_prefix A)
                                  (GhostAllocator_cluster_id A) (VpcPool_vpc_id pool) guest;
                        a = \<lparr> Allocation_guest_ipv4 = guest, Allocation_ghost_ipv6 = ghost \<rparr>
                    in (case save_allocation V C (stored_allocation pod_id vpc_name pool a now) A of
                          (Inl e, A') \<Rightarrow> (Inl e, A')
                        | (Inr _, A') \<Rightarrow>
                            (Inr (alloc_result pool a),
                             A'\<lparr> GhostAllocator_pools :=
                                   hm_insert vpc_name
                                     (pool\<lparr> VpcPool_next_offset := offset + 1,
                                            VpcPool_allocations :=
                                              hm_insert pod_id a (VpcPool_allocations pool) \<rparr>)
                                     (GhostAllocator_pools A') \<rparr>)))))"

definition release ::
  "('db, 'v) VpcDb \<Rightarrow> string \<Rightarrow> string \<Rightarrow> ('db GhostAllocator, unit) act" where
  "release V pod_id vpc_name A =
     (case hm_get (GhostAllocator_pools A) vpc_name of
        None \<Rightarrow> (Inl (Err ''VPC not found''), A)
      | Some pool \<Rightarrow>
          if hm_get (VpcPool_allocations pool) pod_id = None then (Inl (Err ''No allocation''), A)
          else delete_allocation V vpc_name pod_id
                 (A\<lparr> GhostAllocator_pools :=
                       hm_insert vpc_name
                         (pool\<lparr> VpcPool_allocations := hm_remove pod_id (VpcPool_allocations pool) \<rparr>)
                         (GhostAllocator_pools A) \<rparr>))"

definition get_routes :: "u16 \<Rightarrow> 'db GhostAllocator \<Rightarrow> (string \<times> string \<times> string) list" where
  "get_routes vid A =
     (case find (\<lambda>(_, pool). VpcPool_vpc_id pool = vid) (GhostAllocator_pools A) of
        None \<Rightarrow> []
      | Some (_, pool) \<Rightarrow>
          map (\<lambda>(pod_id, a). (pod_id, show_ipv4 (Allocation_guest_ipv4 a), show_ipv6 (Allocation_ghost_ipv6 a)))
            (VpcPool_allocations pool))"

fun query_pools :: "string \<Rightarrow> (string, VpcPool) hmap \<Rightarrow> QueryResult option" where
  "query_pools pod_id [] = None"
| "query_pools pod_id ((vpc_name, pool) # pools) =
     (case hm_get (VpcPool_allocations pool) pod_id of
        Some a \<Rightarrow>
          Some \<lparr> QueryResult_guest_ipv4 = Allocation_guest_ipv4 a,
                 QueryResult_ghost_ipv6 = Allocation_ghost_ipv6 a,
                 QueryResult_vpc_id = VpcPool_vpc_id pool, QueryResult_vpc_name = vpc_name \<rparr>
      | None \<Rightarrow> query_pools pod_id pools)"

definition query :: "string \<Rightarrow> 'db GhostAllocator \<Rightarrow> QueryResult option" where
  "query pod_id A = query_pools pod_id (GhostAllocator_pools A)"

text \<open>Start of the daemon: load definitions and allocations, then rebuild.\<close>

definition daemon_start ::
  "('db, 'v) VpcDb \<Rightarrow> 'v vpc_serde \<Rightarrow> 'db \<Rightarrow> 'db GhostAllocator result" where
  "daemon_start V C db =
     (let s = \<lparr> VpcStore_db = db \<rparr>
      in bindR (fst (load_vpcs V C s)) (\<lambda>cached_vpcs.
         bindR (fst (load_peerings V C s)) (\<lambda>cached_peerings.
         bindR (fst (load_all_allocations V C s)) (\<lambda>stored_allocations.
         bindR (fst (load_meta V C s)) (\<lambda>meta.
         let platform_prefix = (case meta of None \<Rightarrow> PLATFORM_PREFIX | Some m \<Rightarrow> VpcDaemonMeta_platform_prefix m);
             cluster_id = (case meta of None \<Rightarrow> 0
                           | Some m \<Rightarrow> (case VpcDaemonMeta_cluster_id m of None \<Rightarrow> 0 | Some c \<Rightarrow> c))
         in Inr (rebuild_pools cached_vpcs stored_allocations
                  (GhostAllocator_new platform_prefix cluster_id db)))))))"

section \<open>The search\<close>

text \<open>The k-th offset tried when the search starts at s, in a pool of M hosts.\<close>

definition cycle :: "nat \<Rightarrow> nat \<Rightarrow> nat \<Rightarrow> nat" where
  "cycle M s k = Suc ((s - 1 + k) mod M)"

definition norm_offset :: "u32 \<Rightarrow> u32 \<Rightarrow> u32" where
  "norm_offset m off = (if off < 1 \<or> m < off then 1 else off)"

lemma norm_offset_range: "0 < m \<Longrightarrow> 1 \<le> norm_offset m off \<and> norm_offset m off \<le> m"
  by (auto simp: norm_offset_def not_less word_le_nat_alt word_less_nat_alt)

lemma cycle_range: "0 < M \<Longrightarrow> cycle M s k \<in> {1..M}"
  by (auto simp: cycle_def Suc_le_eq)

lemma cycle_covers:
  assumes "0 < M"
  shows "cycle M s ` {..<M} = {1..M}"
proof (intro equalityI subsetI)
  fix x assume x: "x \<in> {1..M}"
  define k where "k = (x - 1 + (M - (s - 1) mod M)) mod M"
  have "(s - 1 + k) mod M = (s - 1 + (x - 1 + (M - (s - 1) mod M))) mod M"
    by (simp add: k_def mod_add_right_eq)
  also have "\<dots> = ((s - 1) mod M + (x - 1 + (M - (s - 1) mod M))) mod M" by (simp add: mod_add_left_eq)
  also have "(s - 1) mod M + (x - 1 + (M - (s - 1) mod M)) = x - 1 + M"
    using mod_less_divisor [OF assms, of "s - 1"] by linarith
  finally have "(s - 1 + k) mod M = (x - 1) mod M" by simp
  also have "\<dots> = x - 1" using x by (intro mod_less) auto
  finally have "(s - 1 + k) mod M = x - 1" .
  then have "cycle M s k = x" using x by (simp add: cycle_def)
  moreover have "k < M" using assms by (simp add: k_def)
  ultimately show "x \<in> cycle M s ` {..<M}" by force
qed (use cycle_range [OF assms] in auto)

lemma cycle_Suc: "0 < M \<Longrightarrow> cycle M s (Suc k) = (if cycle M s k = M then 1 else Suc (cycle M s k))"
  by (auto simp: cycle_def mod_Suc)

lemma norm_offset_next:
  assumes "0 < m" "1 \<le> off" "off \<le> m"
  shows "unat (norm_offset m (off + 1)) = (if unat off = unat m then 1 else Suc (unat off))"
proof (cases "off = m")
  case True
  show ?thesis
  proof (cases "m + 1 = 0")
    case False
    then have "unat (m + 1) = Suc (unat m)" by (simp add: unatSuc add.commute)
    then show ?thesis using True by (simp add: norm_offset_def word_less_nat_alt)
  qed (simp add: True norm_offset_def)
next
  case False
  then have "off < m" using assms(3) by simp
  moreover from this have "unat (off + 1) = Suc (unat off)" by (rule unat_plus_one_less)
  ultimately show ?thesis using False by (auto simp: norm_offset_def word_less_nat_alt)
qed

lemma alloc_loop_unfold:
  "alloc_loop taken m off tried =
     (if \<not> tried < m then None
      else if norm_offset m off \<notin> set taken then Some (norm_offset m off)
      else alloc_loop taken m (norm_offset m off + 1) (tried + 1))"
  by (subst alloc_loop.simps) (simp add: norm_offset_def Let_def)

lemma alloc_loop_None:
  assumes "unat (norm_offset m off) = cycle (unat m) s (unat tried)" "0 < m"
  shows "alloc_loop taken m off tried = None \<longleftrightarrow>
    (\<forall>k \<in> {unat tried ..< unat m}. of_nat (cycle (unat m) s k) \<in> set taken)"
  using assms
proof (induction taken m off tried rule: alloc_loop.induct)
  case (1 taken m off tried)
  have M: "0 < unat m" using "1.prems"(2) by (simp add: word_less_nat_alt)
  show ?case
  proof (cases "tried < m")
    case True
    note r = norm_offset_range [OF "1.prems"(2), of off]
    have here: "(of_nat (cycle (unat m) s (unat tried)) :: u32) = norm_offset m off"
      by (simp flip: "1.prems"(1))
    have t: "unat (tried + 1) = Suc (unat tried)" using True by (rule unat_plus_one_less)
    have split: "{unat tried ..< unat m} = insert (unat tried) {unat (tried + 1) ..< unat m}"
      using True t by (auto simp: word_less_nat_alt)
    show ?thesis
    proof (cases "norm_offset m off \<in> set taken")
      case in_taken: True
      have "unat (norm_offset m (norm_offset m off + 1)) = cycle (unat m) s (unat (tried + 1))"
        using r "1.prems" by (simp add: norm_offset_next t cycle_Suc [OF M])
      then have IH: "alloc_loop taken m (norm_offset m off + 1) (tried + 1) = None \<longleftrightarrow>
          (\<forall>k \<in> {unat (tried + 1) ..< unat m}. of_nat (cycle (unat m) s k) \<in> set taken)"
        using "1.IH" [of "norm_offset m off"] True in_taken "1.prems"(2)
        by (simp add: norm_offset_def)
      show ?thesis
        unfolding split using IH True in_taken here by (subst alloc_loop_unfold) simp
    next
      case False
      then show ?thesis
        unfolding split using True here by (subst alloc_loop_unfold) simp
    qed
  next
    case False
    then show ?thesis by (subst alloc_loop_unfold) (simp add: word_less_nat_alt)
  qed
qed

lemma alloc_loop_Some:
  assumes "alloc_loop taken m off tried = Some x"
  shows "x \<notin> set taken \<and> 1 \<le> x \<and> x \<le> m"
  using assms
proof (induction taken m off tried rule: alloc_loop.induct)
  case (1 taken m off tried)
  then have "0 < m" by (subst (asm) alloc_loop_unfold) (auto split: if_splits simp: word_gt_0)
  then show ?case
    using 1 norm_offset_range [of m off]
    by (subst (asm) (2) alloc_loop_unfold) (auto split: if_splits simp: norm_offset_def)
qed

text \<open>The search fails exactly when every host offset is taken.\<close>

lemma alloc_loop_exhausted:
  assumes "0 < m"
  shows "alloc_loop taken m off 0 = None \<longleftrightarrow> (\<forall>x. 1 \<le> x \<and> x \<le> m \<longrightarrow> x \<in> set taken)"
proof -
  let ?M = "unat m" and ?s = "unat (norm_offset m off)"
  have M: "0 < ?M" using assms by (simp add: word_less_nat_alt)
  have s: "1 \<le> ?s" "?s \<le> ?M" using norm_offset_range [OF assms, of off] by (auto simp: word_le_nat_alt)
  then have "?s = cycle ?M ?s (unat (0 :: u32))" by (simp add: cycle_def)
  then have "alloc_loop taken m off 0 = None \<longleftrightarrow>
      (\<forall>n \<in> cycle ?M ?s ` {..<?M}. of_nat n \<in> set taken)"
    using alloc_loop_None [of m off ?s 0 taken] assms by (auto simp: atLeast0LessThan)
  also have "\<dots> \<longleftrightarrow> (\<forall>n \<in> {1..?M}. of_nat n \<in> set taken)" by (simp only: cycle_covers [OF M])
  also have "\<dots> \<longleftrightarrow> (\<forall>x. 1 \<le> x \<and> x \<le> m \<longrightarrow> x \<in> set taken)"
  proof (intro iffI ballI allI impI)
    fix x :: u32 assume all: "\<forall>n \<in> {1..?M}. (of_nat n :: u32) \<in> set taken" and x: "1 \<le> x \<and> x \<le> m"
    then have "unat x \<in> {1..?M}" by (auto simp: word_le_nat_alt)
    with all have "(of_nat (unat x) :: u32) \<in> set taken" by blast
    then show "x \<in> set taken" by simp
  next
    fix n assume all: "\<forall>x. 1 \<le> x \<and> x \<le> m \<longrightarrow> x \<in> set taken" and n: "n \<in> {1..?M}"
    moreover have "?M < 2 ^ 32" using unat_bound [of m] by simp
    ultimately have "unat (of_nat n :: u32) = n" by (simp add: unat_of_nat)
    then show "(of_nat n :: u32) \<in> set taken" using all n by (auto simp: word_le_nat_alt)
  qed
  finally show ?thesis .
qed

section \<open>The invariant\<close>

text \<open>
  A pool is configured from its CIDR; its allocations have host offsets in range, distinct guest
  addresses, and the Ghost address of the guest address in this VPC.
\<close>

definition pool_ok :: "u32 \<Rightarrow> u32 \<Rightarrow> VpcPool \<Rightarrow> bool" where
  "pool_ok pp cid pool \<longleftrightarrow>
     hm_wf (VpcPool_allocations pool) \<and>
     (\<exists>p. allocator_parse_cidr (VpcPool_cidr pool) = Inr (VpcPool_base_ip pool, p) \<and>
          VpcPool_max_hosts pool = pool_max_hosts p) \<and>
     (\<forall>pod a. hm_get (VpcPool_allocations pool) pod = Some a \<longrightarrow>
        1 \<le> Allocation_guest_ipv4 a - VpcPool_base_ip pool \<and>
        Allocation_guest_ipv4 a - VpcPool_base_ip pool \<le> VpcPool_max_hosts pool \<and>
        Allocation_ghost_ipv6 a = construct pp cid (VpcPool_vpc_id pool) (Allocation_guest_ipv4 a)) \<and>
     (\<forall>pod pod' a a'. hm_get (VpcPool_allocations pool) pod = Some a \<and>
        hm_get (VpcPool_allocations pool) pod' = Some a' \<and>
        Allocation_guest_ipv4 a = Allocation_guest_ipv4 a' \<longrightarrow> pod = pod')"

definition alloc_inv :: "'db GhostAllocator \<Rightarrow> bool" where
  "alloc_inv A \<longleftrightarrow> hm_wf (GhostAllocator_pools A) \<and>
     (\<forall>name pool. hm_get (GhostAllocator_pools A) name = Some pool \<longrightarrow>
        pool_ok (GhostAllocator_platform_prefix A) (GhostAllocator_cluster_id A) pool)"

lemma pool_okD:
  assumes "pool_ok pp cid pool" "hm_get (VpcPool_allocations pool) pod = Some a"
  shows "1 \<le> Allocation_guest_ipv4 a - VpcPool_base_ip pool"
    "Allocation_guest_ipv4 a - VpcPool_base_ip pool \<le> VpcPool_max_hosts pool"
    "Allocation_ghost_ipv6 a = construct pp cid (VpcPool_vpc_id pool) (Allocation_guest_ipv4 a)"
  using assms by (auto simp: pool_ok_def)

lemma pool_max_hosts_pos:
  assumes "p \<le> 30"
  shows "0 < pool_max_hosts p"
proof -
  have "p \<in> set [0..<31]" using assms by simp
  moreover have "\<forall>p \<in> set [0..<31]. 0 < pool_max_hosts p"
    by (simp add: pool_max_hosts_def upt_rec word_gt_0)
  ultimately show ?thesis by blast
qed

lemma pool_ok_pos: "pool_ok pp cid pool \<Longrightarrow> 0 < VpcPool_max_hosts pool"
  using allocator_parse_le pool_max_hosts_pos by (fastforce simp: pool_ok_def)

lemma set_allocated_offsets:
  "hm_wf (VpcPool_allocations pool) \<Longrightarrow> set (allocated_offsets pool) =
     {Allocation_guest_ipv4 a - VpcPool_base_ip pool | pod a. hm_get (VpcPool_allocations pool) pod = Some a}"
  by (force simp: allocated_offsets_def map_of_eq_Some_iff)

lemma more_fields:
  assumes "VpcStore.more A' = VpcStore.more (A :: 'db GhostAllocator)"
  shows "GhostAllocator_pools A' = GhostAllocator_pools A"
    "GhostAllocator_platform_prefix A' = GhostAllocator_platform_prefix A"
    "GhostAllocator_cluster_id A' = GhostAllocator_cluster_id A"
  using assms by (cases A; cases A'; simp)+

text \<open>The outcomes of an allocation.\<close>

lemma allocate_cases:
  assumes "allocate V C now pod name A = (r, A')"
  obtains (no_vpc) "hm_get (GhostAllocator_pools A) name = None" "r = Inl (Err ''VPC not found'')" "A' = A"
  | (again) pool a where "hm_get (GhostAllocator_pools A) name = Some pool"
      "hm_get (VpcPool_allocations pool) pod = Some a" "r = Inr (alloc_result pool a)" "A' = A"
  | (full) pool where "hm_get (GhostAllocator_pools A) name = Some pool"
      "hm_get (VpcPool_allocations pool) pod = None"
      "alloc_loop (allocated_offsets pool) (VpcPool_max_hosts pool) (VpcPool_next_offset pool) 0 = None"
      "r = Inl (Err ''pool exhausted'')" "A' = A"
  | (unsaved) e where "r = Inl e" "VpcStore.more A' = VpcStore.more A"
  | (fresh) pool offset a A1 where "hm_get (GhostAllocator_pools A) name = Some pool"
      "hm_get (VpcPool_allocations pool) pod = None"
      "alloc_loop (allocated_offsets pool) (VpcPool_max_hosts pool) (VpcPool_next_offset pool) 0 = Some offset"
      "a = \<lparr> Allocation_guest_ipv4 = VpcPool_base_ip pool + offset,
         Allocation_ghost_ipv6 = construct (GhostAllocator_platform_prefix A)
           (GhostAllocator_cluster_id A) (VpcPool_vpc_id pool) (VpcPool_base_ip pool + offset) \<rparr>"
      "save_allocation V C (stored_allocation pod name pool a now) A = (Inr (), A1)"
      "r = Inr (alloc_result pool a)"
      "A' = A1\<lparr> GhostAllocator_pools := hm_insert name
         (pool\<lparr> VpcPool_next_offset := offset + 1,
                VpcPool_allocations := hm_insert pod a (VpcPool_allocations pool) \<rparr>)
         (GhostAllocator_pools A1) \<rparr>"
proof (cases "hm_get (GhostAllocator_pools A) name")
  case None
  then show thesis by (intro no_vpc) (use assms in \<open>simp_all add: allocate_def\<close>)
next
  case pool: (Some pool)
  show thesis
  proof (cases "hm_get (VpcPool_allocations pool) pod")
    case (Some a)
    then show thesis by (intro again [OF pool]) (use assms pool in \<open>auto simp: allocate_def\<close>)
  next
    case pod: None
    show thesis
    proof (cases "alloc_loop (allocated_offsets pool) (VpcPool_max_hosts pool) (VpcPool_next_offset pool) 0")
      case None
      then show thesis by (intro full [OF pool pod]) (use assms pool pod in \<open>simp_all add: allocate_def\<close>)
    next
      case (Some offset)
      let ?a = "\<lparr> Allocation_guest_ipv4 = VpcPool_base_ip pool + offset,
         Allocation_ghost_ipv6 = construct (GhostAllocator_platform_prefix A)
           (GhostAllocator_cluster_id A) (VpcPool_vpc_id pool) (VpcPool_base_ip pool + offset) \<rparr>"
      obtain r1 A1 where save: "save_allocation V C (stored_allocation pod name pool ?a now) A = (r1, A1)"
        by (meson surj_pair)
      show thesis
      proof (cases r1)
        case (Inl e)
        then show thesis
          using assms pool pod Some save vpc_put_frame [OF save [unfolded save_allocation_def]]
          by (intro unsaved [of e]) (simp_all add: allocate_def Let_def)
      next
        case (Inr u)
        then show thesis
          using assms pool pod Some save by (intro fresh [of pool offset ?a A1]) (simp_all add: allocate_def Let_def)
      qed
    qed
  qed
qed

lemma pool_ok_insert:
  assumes ok: "pool_ok pp cid pool" and new: "hm_get (VpcPool_allocations pool) pod = None"
    and off: "offset \<notin> set (allocated_offsets pool)" "1 \<le> offset" "offset \<le> VpcPool_max_hosts pool"
    and a: "a = \<lparr> Allocation_guest_ipv4 = VpcPool_base_ip pool + offset,
        Allocation_ghost_ipv6 = construct pp cid (VpcPool_vpc_id pool) (VpcPool_base_ip pool + offset) \<rparr>"
  shows "pool_ok pp cid (pool\<lparr> VpcPool_next_offset := n,
      VpcPool_allocations := hm_insert pod a (VpcPool_allocations pool) \<rparr>)"
proof -
  have "Allocation_guest_ipv4 a' \<noteq> VpcPool_base_ip pool + offset"
    if "hm_get (VpcPool_allocations pool) pod' = Some a'" for pod' a'
    using off(1) that ok set_allocated_offsets [of pool] by (force simp: pool_ok_def)
  then show ?thesis
    using ok off(2,3) unfolding pool_ok_def by (auto simp: hmap_simps a) metis+
qed

lemma alloc_inv_allocate:
  assumes "alloc_inv A" "allocate V C now pod name A = (r, A')"
  shows "alloc_inv A'"
  using assms(2)
proof (cases rule: allocate_cases)
  case (unsaved e)
  then show ?thesis using assms(1) more_fields [OF unsaved(2)] by (simp add: alloc_inv_def)
next
  case (fresh pool offset a A1)
  note fr = more_fields [OF vpc_put_frame [OF fresh(5) [unfolded save_allocation_def]]]
  have "pool_ok (GhostAllocator_platform_prefix A) (GhostAllocator_cluster_id A)
      (pool\<lparr> VpcPool_next_offset := offset + 1,
             VpcPool_allocations := hm_insert pod a (VpcPool_allocations pool) \<rparr>)"
    using assms(1) fresh alloc_loop_Some [OF fresh(3)]
    by (intro pool_ok_insert [where offset = offset]) (auto simp: alloc_inv_def)
  then show ?thesis
    using assms(1) by (auto simp: fresh(7) alloc_inv_def fr hmap_simps)
qed (use assms(1) in auto)

lemma alloc_inv_release:
  assumes "alloc_inv A" "release V pod name A = (r, A')"
  shows "alloc_inv A'"
proof (cases "\<exists>pool. hm_get (GhostAllocator_pools A) name = Some pool \<and> hm_get (VpcPool_allocations pool) pod \<noteq> None")
  case True
  then obtain pool where pool: "hm_get (GhostAllocator_pools A) name = Some pool"
    "hm_get (VpcPool_allocations pool) pod \<noteq> None" by blast
  let ?pool = "pool\<lparr> VpcPool_allocations := hm_remove pod (VpcPool_allocations pool) \<rparr>"
  have "delete_allocation V name pod (A\<lparr> GhostAllocator_pools := hm_insert name ?pool (GhostAllocator_pools A) \<rparr>) = (r, A')"
    using assms(2) pool by (simp add: release_def)
  note fr = more_fields [OF vpc_delete_frame [OF this]]
  have "pool_ok (GhostAllocator_platform_prefix A) (GhostAllocator_cluster_id A) ?pool"
    using assms(1) pool(1) unfolding alloc_inv_def pool_ok_def by (auto simp: hmap_simps)
  then show ?thesis using assms(1) by (auto simp: alloc_inv_def fr hmap_simps)
next
  case False
  then have "A' = A" using assms(2) by (auto simp: release_def split: option.splits if_splits)
  then show ?thesis using assms(1) by simp
qed

lemma pool_ok_new:
  "allocator_parse_cidr (Vpc_ipv4_cidr vpc) = Inr (base, p) \<Longrightarrow> pool_ok pp cid (new_pool vpc base p)"
  by (simp add: pool_ok_def new_pool_def)

lemma insert_pool_get:
  "hm_get (insert_pool vpc pools) name =
     (case allocator_parse_cidr (Vpc_ipv4_cidr vpc) of
        Inl e \<Rightarrow> hm_get pools name
      | Inr (base, p) \<Rightarrow> if name = Vpc_name vpc then Some (new_pool vpc base p) else hm_get pools name)"
  by (auto simp: insert_pool_def hmap_simps split: sum.splits)

lemma hm_wf_insert_pool: "hm_wf pools \<Longrightarrow> hm_wf (insert_pool vpc pools)"
  by (auto simp: insert_pool_def split: sum.splits)

definition pools_ok :: "u32 \<Rightarrow> u32 \<Rightarrow> (string, VpcPool) hmap \<Rightarrow> bool" where
  "pools_ok pp cid pools \<longleftrightarrow> hm_wf pools \<and> (\<forall>name pool. hm_get pools name = Some pool \<longrightarrow> pool_ok pp cid pool)"

lemma pools_ok_insert_pool: "pools_ok pp cid pools \<Longrightarrow> pools_ok pp cid (insert_pool vpc pools)"
  by (auto simp: pools_ok_def insert_pool_get hm_wf_insert_pool pool_ok_new split: sum.splits if_splits)

lemma alloc_inv_sync:
  assumes "alloc_inv A"
  shows "alloc_inv (sync_vpcs vpcs A)"
proof -
  let ?pp = "GhostAllocator_platform_prefix A" and ?cid = "GhostAllocator_cluster_id A"
  have "pools_ok ?pp ?cid (filter (\<lambda>(name, _). name \<in> names) (GhostAllocator_pools A))" for names
    using assms distinct_map_filter by (auto simp: pools_ok_def alloc_inv_def map_of_filter_key)
  moreover have "pools_ok ?pp ?cid (fold (\<lambda>vpc pools.
      if hm_get pools (Vpc_name vpc) \<noteq> None then pools else insert_pool vpc pools) vpcs pools)"
    if "pools_ok ?pp ?cid pools" for pools
    using that by (induction vpcs arbitrary: pools) (auto intro: pools_ok_insert_pool)
  ultimately have "pools_ok ?pp ?cid (GhostAllocator_pools (sync_vpcs vpcs A))"
    by (simp add: sync_vpcs_def Let_def)
  then show ?thesis by (simp add: alloc_inv_def pools_ok_def sync_vpcs_def Let_def)
qed

section \<open>What the store holds\<close>

lemma allocation_key_inject:
  assumes "CHR ''/'' \<notin> set n" "CHR ''/'' \<notin> set n'"
  shows "allocation_key n p = allocation_key n' p' \<longleftrightarrow> n = n' \<and> p = p'"
proof
  assume "allocation_key n p = allocation_key n' p'"
  then have "n @ CHR ''/'' # p = n' @ CHR ''/'' # p'" by (simp add: allocation_key_def)
  from arg_cong [OF this, of "split_once (CHR ''/'')"] show "n = n' \<and> p = p'"
    using assms by (simp add: split_once_append)
qed simp

lemma prefix_allocation_key [simp]: "prefix PREFIX_ALLOCATIONS (allocation_key n p)"
  by (simp add: allocation_key_def)

text \<open>
  The store agrees with the pools: allocations are stored under their own key; a pool's VPC name has
  no slash, its definition is stored, and a pod has a stored allocation with these addresses exactly
  when the pool has it.
\<close>

definition stored_at ::
  "('db \<Rightarrow> string \<rightharpoonup> 'v) \<Rightarrow> 'v vpc_serde \<Rightarrow> 'db \<Rightarrow> string \<Rightarrow> string \<Rightarrow> (string \<times> string) option" where
  "stored_at content C db name pod =
     Option.bind (content db (allocation_key name pod)) (\<lambda>v.
       map_option (\<lambda>sa. (StoredAllocation_guest_ipv4 sa, StoredAllocation_ghost_ipv6 sa))
         (ok (from_slice (VS_allocation C) v)))"

definition keyed_allocations :: "('db \<Rightarrow> string \<rightharpoonup> 'v) \<Rightarrow> 'v vpc_serde \<Rightarrow> 'db \<Rightarrow> bool" where
  "keyed_allocations content C db \<longleftrightarrow>
     (\<forall>k v. prefix PREFIX_ALLOCATIONS k \<and> content db k = Some v \<longrightarrow>
        (\<exists>sa. from_slice (VS_allocation C) v = Inr sa \<and> CHR ''/'' \<notin> set (StoredAllocation_vpc_name sa) \<and>
           k = allocation_key (StoredAllocation_vpc_name sa) (StoredAllocation_pod_id sa)))"

definition synced :: "('db \<Rightarrow> string \<rightharpoonup> 'v) \<Rightarrow> 'v vpc_serde \<Rightarrow> 'db GhostAllocator \<Rightarrow> bool" where
  "synced content C A \<longleftrightarrow>
     keyed_allocations content C (VpcStore_db A) \<and>
     (\<forall>name pool. hm_get (GhostAllocator_pools A) name = Some pool \<longrightarrow>
        CHR ''/'' \<notin> set name \<and>
        (\<forall>pod. stored_at content C (VpcStore_db A) name pod =
           map_option (\<lambda>a. (show_ipv4 (Allocation_guest_ipv4 a), show_ipv6 (Allocation_ghost_ipv6 a)))
             (hm_get (VpcPool_allocations pool) pod)))"

text \<open>Definitions are stored under their own name, and that of each pool is the one it was made from.\<close>

definition defined_pools :: "('db \<Rightarrow> string \<rightharpoonup> 'v) \<Rightarrow> 'v vpc_serde \<Rightarrow> 'db GhostAllocator \<Rightarrow> bool" where
  "defined_pools content C A \<longleftrightarrow>
     (\<forall>k v. prefix PREFIX_DEFINITIONS k \<and> content (VpcStore_db A) k = Some v \<longrightarrow>
        (\<exists>vpc. from_slice (VS_vpc C) v = Inr vpc \<and> k = PREFIX_DEFINITIONS @ Vpc_name vpc)) \<and>
     (\<forall>name pool. hm_get (GhostAllocator_pools A) name = Some pool \<longrightarrow>
        (\<exists>v vpc. content (VpcStore_db A) (PREFIX_DEFINITIONS @ name) = Some v \<and>
           from_slice (VS_vpc C) v = Inr vpc \<and> Vpc_ipv4_cidr vpc = VpcPool_cidr pool \<and>
           Vpc_vpc_id vpc = VpcPool_vpc_id pool))"

context vpc_db
begin

lemma synced_allocate:
  assumes "vpc_serde_ok C" "synced content C A" "allocate V C now pod name A = (Inr res, A')"
  shows "synced content C A'"
  using assms(3)
proof (cases rule: allocate_cases)
  case (fresh pool offset a A1)
  have name: "CHR ''/'' \<notin> set name" using assms(2) fresh(1) by (auto simp: synced_def)
  let ?sa = "stored_allocation pod name pool a now"
  have key: "allocation_key (StoredAllocation_vpc_name ?sa) (StoredAllocation_pod_id ?sa) = allocation_key name pod"
    by (simp add: stored_allocation_def)
  obtain v where v: "to_vec (VS_allocation C) ?sa = Inr v"
    "kept A1 = (kept A)(allocation_key name pod \<mapsto> v)"
    using vpc_put_ok(1) [OF fresh(5) [unfolded save_allocation_def]] unfolding key by blast
  have dec: "from_slice (VS_allocation C) v = Inr ?sa"
    using codec_okD v(1) assms(1) by (auto simp: vpc_serde_ok_def)
  have pools: "GhostAllocator_pools A1 = GhostAllocator_pools A"
    by (rule more_fields(1) [OF vpc_put_frame [OF fresh(5) [unfolded save_allocation_def]]])
  have st: "stored_at content C (VpcStore_db A1) n p =
      (if n = name \<and> p = pod
       then Some (show_ipv4 (Allocation_guest_ipv4 a), show_ipv6 (Allocation_ghost_ipv6 a))
       else stored_at content C (VpcStore_db A) n p)" if "CHR ''/'' \<notin> set n" for n p
    using that by (simp add: stored_at_def v dec allocation_key_inject name stored_allocation_def)
  have "keyed_allocations content C (VpcStore_db A1)"
    unfolding keyed_allocations_def
  proof (intro allI impI)
    fix k w assume w: "prefix PREFIX_ALLOCATIONS k \<and> content (VpcStore_db A1) k = Some w"
    show "\<exists>sa. from_slice (VS_allocation C) w = Inr sa \<and> CHR ''/'' \<notin> set (StoredAllocation_vpc_name sa) \<and>
        k = allocation_key (StoredAllocation_vpc_name sa) (StoredAllocation_pod_id sa)"
    proof (cases "k = allocation_key name pod")
      case True
      then show ?thesis using w v dec name by (intro exI [of _ ?sa]) (simp add: stored_allocation_def)
    next
      case False
      then show ?thesis using w assms(2) by (simp add: v synced_def keyed_allocations_def)
    qed
  qed
  then show ?thesis
    using assms(2) st fresh(1) unfolding fresh(7) synced_def by (auto simp: pools hmap_simps)
qed (use assms(2) in auto)

lemma synced_release:
  assumes "synced content C A" "release V pod name A = (Inr u, A')"
  shows "synced content C A'"
proof -
  obtain pool where pool: "hm_get (GhostAllocator_pools A) name = Some pool"
    and del: "delete_allocation V name pod (A\<lparr> GhostAllocator_pools := hm_insert name
        (pool\<lparr> VpcPool_allocations := hm_remove pod (VpcPool_allocations pool) \<rparr>) (GhostAllocator_pools A) \<rparr>) = (Inr u, A')"
    using assms(2) by (auto simp: release_def split: option.splits if_splits)
  have name: "CHR ''/'' \<notin> set name" using assms(1) pool by (auto simp: synced_def)
  have kept: "kept A' = (kept A)(allocation_key name pod := None)" using vpc_delete_ok(1) [OF del] by simp
  have pools: "GhostAllocator_pools A' = hm_insert name
      (pool\<lparr> VpcPool_allocations := hm_remove pod (VpcPool_allocations pool) \<rparr>) (GhostAllocator_pools A)"
    using more_fields(1) [OF vpc_delete_frame [OF del]] by simp
  have "keyed_allocations content C (VpcStore_db A')"
    using assms(1) by (simp add: synced_def keyed_allocations_def kept)
  moreover have "stored_at content C (VpcStore_db A') n p =
      (if n = name \<and> p = pod then None else stored_at content C (VpcStore_db A) n p)"
    if "CHR ''/'' \<notin> set n" for n p
    using that by (simp add: stored_at_def kept allocation_key_inject name)
  ultimately show ?thesis
    using assms(1) pool unfolding synced_def by (auto simp: pools hmap_simps)
qed

end

section \<open>Restart\<close>

definition restored :: "StoredAllocation \<Rightarrow> Allocation option" where
  "restored sa = Option.bind (parse_ipv4 (StoredAllocation_guest_ipv4 sa)) (\<lambda>g.
     map_option (\<lambda>h. \<lparr> Allocation_guest_ipv4 = g, Allocation_ghost_ipv6 = h \<rparr>)
       (parse_ipv6 (StoredAllocation_ghost_ipv6 sa)))"

definition same_config :: "VpcPool \<Rightarrow> VpcPool \<Rightarrow> bool" where
  "same_config p q \<longleftrightarrow> VpcPool_vpc_id p = VpcPool_vpc_id q \<and> VpcPool_cidr p = VpcPool_cidr q \<and>
     VpcPool_base_ip p = VpcPool_base_ip q \<and> VpcPool_max_hosts p = VpcPool_max_hosts q"

lemma restore_one:
  assumes "hm_get pools name = Some pool"
  shows "\<exists>pool'. hm_get (restore_allocation sa pools) name = Some pool' \<and> same_config pool pool' \<and>
    (\<forall>pod. hm_get (VpcPool_allocations pool') pod =
       (if StoredAllocation_vpc_name sa = name \<and> StoredAllocation_pod_id sa = pod \<and> restored sa \<noteq> None
        then restored sa else hm_get (VpcPool_allocations pool) pod))"
  using assms
  by (cases "StoredAllocation_vpc_name sa = name")
    (auto simp: restore_allocation_def restored_def same_config_def hmap_simps Let_def split: option.splits)

text \<open>Restoring a list in which the entries of a pod all carry the same addresses.\<close>

lemma restore_all:
  assumes "hm_get pools name = Some pool"
    and "\<And>sa. sa \<in> set stored \<Longrightarrow> StoredAllocation_vpc_name sa = name \<Longrightarrow>
      restored sa = r (StoredAllocation_pod_id sa) \<and> restored sa \<noteq> None"
  shows "\<exists>pool'. hm_get (fold restore_allocation stored pools) name = Some pool' \<and> same_config pool pool' \<and>
    (\<forall>pod. hm_get (VpcPool_allocations pool') pod =
       (if \<exists>sa \<in> set stored. StoredAllocation_vpc_name sa = name \<and> StoredAllocation_pod_id sa = pod
        then r pod else hm_get (VpcPool_allocations pool) pod))"
  using assms
proof (induction stored arbitrary: pools pool)
  case Nil
  then show ?case by (simp add: same_config_def)
next
  case (Cons sa stored)
  obtain pool1 where p1: "hm_get (restore_allocation sa pools) name = Some pool1" "same_config pool pool1"
    "\<forall>pod. hm_get (VpcPool_allocations pool1) pod =
       (if StoredAllocation_vpc_name sa = name \<and> StoredAllocation_pod_id sa = pod \<and> restored sa \<noteq> None
        then restored sa else hm_get (VpcPool_allocations pool) pod)"
    using restore_one [OF Cons.prems(1), of sa] by (elim exE conjE)
  have "\<exists>pool'. hm_get (fold restore_allocation stored (restore_allocation sa pools)) name = Some pool' \<and>
    same_config pool1 pool' \<and>
    (\<forall>pod. hm_get (VpcPool_allocations pool') pod =
       (if \<exists>sa \<in> set stored. StoredAllocation_vpc_name sa = name \<and> StoredAllocation_pod_id sa = pod
        then r pod else hm_get (VpcPool_allocations pool1) pod))"
    by (rule Cons.IH [OF p1(1)]) (rule Cons.prems(2), simp_all)
  then obtain pool' where p': "hm_get (fold restore_allocation stored (restore_allocation sa pools)) name = Some pool'"
    "same_config pool1 pool'"
    "\<forall>pod. hm_get (VpcPool_allocations pool') pod =
       (if \<exists>sa \<in> set stored. StoredAllocation_vpc_name sa = name \<and> StoredAllocation_pod_id sa = pod
        then r pod else hm_get (VpcPool_allocations pool1) pod)"
    by (elim exE conjE)
  have "same_config pool pool'" using p1(2) p'(2) by (simp add: same_config_def)
  moreover have "hm_get (VpcPool_allocations pool') pod =
       (if \<exists>sa \<in> set (sa # stored). StoredAllocation_vpc_name sa = name \<and> StoredAllocation_pod_id sa = pod
        then r pod else hm_get (VpcPool_allocations pool) pod)" for pod
    using p'(3) [rule_format, of pod] p1(3) [rule_format, of pod] Cons.prems(2) [of sa] by auto
  ultimately show ?case using p'(1) by auto
qed

lemma insert_pools_get:
  assumes "distinct (map Vpc_name vpcs)" "vpc \<in> set vpcs"
    and "allocator_parse_cidr (Vpc_ipv4_cidr vpc) = Inr (base, p)"
  shows "hm_get (fold insert_pool vpcs pools) (Vpc_name vpc) = Some (new_pool vpc base p)"
proof -
  obtain ys zs where vpcs: "vpcs = ys @ vpc # zs" using assms(2) by (auto dest: split_list)
  then have "Vpc_name vpc \<notin> Vpc_name ` set zs" using assms(1) by auto
  then have "hm_get (fold insert_pool zs q) (Vpc_name vpc) = hm_get q (Vpc_name vpc)" for q
    by (induction zs arbitrary: q) (auto simp: insert_pool_get split: sum.splits)
  then show ?thesis using assms(3) by (simp add: vpcs insert_pool_get)
qed

context vpc_db
begin

lemma loaded_allocations:
  assumes load: "load_all_allocations V C s = (Inr stored, s')" and keyed: "keyed_allocations content C (VpcStore_db s)"
    and n: "CHR ''/'' \<notin> set name"
  shows "sa \<in> set stored \<Longrightarrow> StoredAllocation_vpc_name sa = name \<Longrightarrow>
      stored_at content C (VpcStore_db s) name (StoredAllocation_pod_id sa) =
        Some (StoredAllocation_guest_ipv4 sa, StoredAllocation_ghost_ipv6 sa)"
    and "stored_at content C (VpcStore_db s) name pod \<noteq> None \<Longrightarrow>
      \<exists>sa \<in> set stored. StoredAllocation_vpc_name sa = name \<and> StoredAllocation_pod_id sa = pod"
proof -
  let ?c = "VS_allocation C"
  obtain kvs where kvs: "set kvs = {(k, v). prefix PREFIX_ALLOCATIONS k \<and> kept s k = Some v}"
    "map (\<lambda>(k, v). from_slice ?c v) kvs = map Inr stored"
    using scan_prefix_ok(2) [OF load [unfolded load_all_allocations_def]] by blast
  have key: "k = allocation_key (StoredAllocation_vpc_name sa) (StoredAllocation_pod_id sa)
      \<and> CHR ''/'' \<notin> set (StoredAllocation_vpc_name sa)"
    if "(k, v) \<in> set kvs" "from_slice ?c v = Inr sa" for k v sa
  proof -
    have "prefix PREFIX_ALLOCATIONS k" "kept s k = Some v" using that(1) kvs(1) by auto
    then show ?thesis using keyed that(2) unfolding keyed_allocations_def by force
  qed
  show "stored_at content C (VpcStore_db s) name (StoredAllocation_pod_id sa) =
        Some (StoredAllocation_guest_ipv4 sa, StoredAllocation_ghost_ipv6 sa)"
    if "sa \<in> set stored" "StoredAllocation_vpc_name sa = name"
  proof -
    have "Inr sa \<in> set (map (\<lambda>(k, v). from_slice ?c v) kvs)" unfolding kvs(2) using that(1) by simp
    then obtain k v where kv: "(k, v) \<in> set kvs" "from_slice ?c v = Inr sa" by auto
    then have "kept s k = Some v" "k = allocation_key name (StoredAllocation_pod_id sa)"
      using key [OF kv] that(2) kvs(1) by auto
    then show ?thesis using kv(2) by (simp add: stored_at_def)
  qed
  show "\<exists>sa \<in> set stored. StoredAllocation_vpc_name sa = name \<and> StoredAllocation_pod_id sa = pod"
    if at: "stored_at content C (VpcStore_db s) name pod \<noteq> None"
  proof -
    obtain v sa where v: "kept s (allocation_key name pod) = Some v" "from_slice ?c v = Inr sa"
      using at by (auto simp: stored_at_def bind_eq_Some_conv)
    then have kv: "(allocation_key name pod, v) \<in> set kvs" using kvs(1) by simp
    then have "from_slice ?c v \<in> set (map Inr stored)" unfolding kvs(2) [symmetric] by force
    then have "sa \<in> set stored" using v(2) by auto
    moreover have "StoredAllocation_vpc_name sa = name \<and> StoredAllocation_pod_id sa = pod"
      using key [OF kv v(2)] n by (metis allocation_key_inject)
    ultimately show ?thesis by blast
  qed
qed

lemma loaded_vpcs:
  assumes load: "load_vpcs V C s = (Inr vpcs, s')"
    and keyed: "\<forall>k v. prefix PREFIX_DEFINITIONS k \<and> kept s k = Some v \<longrightarrow>
        (\<exists>vpc. from_slice (VS_vpc C) v = Inr vpc \<and> k = PREFIX_DEFINITIONS @ Vpc_name vpc)"
  shows "distinct (map Vpc_name vpcs)"
    and "kept s (PREFIX_DEFINITIONS @ name) = Some v \<Longrightarrow> from_slice (VS_vpc C) v = Inr vpc \<Longrightarrow>
      vpc \<in> set vpcs \<and> Vpc_name vpc = name"
proof -
  let ?c = "VS_vpc C"
  obtain kvs where kvs: "distinct (map fst kvs)"
    "set kvs = {(k, v). prefix PREFIX_DEFINITIONS k \<and> kept s k = Some v}"
    "map (\<lambda>(k, v). from_slice ?c v) kvs = map Inr vpcs"
    using scan_prefix_ok(2) [OF load [unfolded load_vpcs_def]] by blast
  have len: "length kvs = length vpcs" using kvs(3) by (metis length_map)
  have nth: "fst (kvs ! i) = PREFIX_DEFINITIONS @ Vpc_name (vpcs ! i)" if "i < length kvs" for i
  proof -
    have "(\<lambda>(k, v). from_slice ?c v) (kvs ! i) = Inr (vpcs ! i)"
      using that len kvs(3) by (metis nth_map)
    moreover have "kvs ! i \<in> set kvs" using that by simp
    ultimately show ?thesis using keyed kvs(2) by (cases "kvs ! i") fastforce
  qed
  have "map fst kvs = map (\<lambda>vpc. PREFIX_DEFINITIONS @ Vpc_name vpc) vpcs"
    by (rule nth_equalityI) (simp_all add: len nth)
  then have "distinct (map ((@) PREFIX_DEFINITIONS) (map Vpc_name vpcs))"
    using kvs(1) by (simp add: comp_def)
  then show "distinct (map Vpc_name vpcs)" by (simp only: distinct_map)
  show "vpc \<in> set vpcs \<and> Vpc_name vpc = name"
    if v: "kept s (PREFIX_DEFINITIONS @ name) = Some v" "from_slice ?c v = Inr vpc"
  proof -
    have kv: "(PREFIX_DEFINITIONS @ name, v) \<in> set kvs" using v kvs(2) by simp
    then have "from_slice ?c v \<in> set (map Inr vpcs)" unfolding kvs(3) [symmetric] by force
    then have "vpc \<in> set vpcs" using v(2) by auto
    moreover have "\<exists>vpc'. from_slice ?c v = Inr vpc' \<and> PREFIX_DEFINITIONS @ name = PREFIX_DEFINITIONS @ Vpc_name vpc'"
      using keyed v(1) prefixI by blast
    ultimately show ?thesis using v(2) by simp
  qed
qed

lemma recovered_pool:
  assumes start: "daemon_start V C (VpcStore_db A) = Inr A'" and inv: "alloc_inv A"
    and sync: "synced content C A" and defs: "defined_pools content C A"
    and pool: "hm_get (GhostAllocator_pools A) name = Some pool"
  shows "\<exists>pool'. hm_get (GhostAllocator_pools A') name = Some pool' \<and> same_config pool pool' \<and>
    (\<forall>pod. hm_get (VpcPool_allocations pool') pod = hm_get (VpcPool_allocations pool) pod)"
proof -
  let ?s = "\<lparr> VpcStore_db = VpcStore_db A \<rparr>"
  obtain vpcs stored where lv: "fst (load_vpcs V C ?s) = Inr vpcs"
    and ls: "fst (load_all_allocations V C ?s) = Inr stored"
    and A': "GhostAllocator_pools A' = fold restore_allocation stored (fold insert_pool vpcs [])"
    using start by (auto simp: daemon_start_def bindR_eq_Inr Let_def rebuild_pools_def GhostAllocator_new_def)
  obtain s1 s2 where lv: "load_vpcs V C ?s = (Inr vpcs, s1)" and ls: "load_all_allocations V C ?s = (Inr stored, s2)"
    using lv ls by (cases "load_vpcs V C ?s"; cases "load_all_allocations V C ?s") auto
  obtain v vpc where def: "kept A (PREFIX_DEFINITIONS @ name) = Some v" "from_slice (VS_vpc C) v = Inr vpc"
    "Vpc_ipv4_cidr vpc = VpcPool_cidr pool" "Vpc_vpc_id vpc = VpcPool_vpc_id pool"
    using defs pool unfolding defined_pools_def by blast
  have vpc: "distinct (map Vpc_name vpcs)" "vpc \<in> set vpcs" "Vpc_name vpc = name"
    using loaded_vpcs(1) [OF lv] loaded_vpcs(2) [OF lv, of name v vpc] defs def(1,2)
    unfolding defined_pools_def by simp_all
  have ok: "pool_ok (GhostAllocator_platform_prefix A) (GhostAllocator_cluster_id A) pool"
    using inv pool by (simp add: alloc_inv_def)
  then obtain p where p: "allocator_parse_cidr (VpcPool_cidr pool) = Inr (VpcPool_base_ip pool, p)"
    "VpcPool_max_hosts pool = pool_max_hosts p" by (auto simp: pool_ok_def)
  let ?np = "new_pool vpc (VpcPool_base_ip pool) p"
  have new: "hm_get (fold insert_pool vpcs []) name = Some ?np"
    using insert_pools_get [OF vpc(1,2), of "VpcPool_base_ip pool" p] p def(3) vpc(3) by simp
  have keyed: "keyed_allocations content C (VpcStore_db ?s)" and n: "CHR ''/'' \<notin> set name"
    and at: "\<And>pod. stored_at content C (VpcStore_db A) name pod =
      map_option (\<lambda>a. (show_ipv4 (Allocation_guest_ipv4 a), show_ipv6 (Allocation_ghost_ipv6 a)))
        (hm_get (VpcPool_allocations pool) pod)"
    using sync pool by (auto simp: synced_def)
  note loaded = loaded_allocations [OF ls keyed n]
  have r: "restored sa = hm_get (VpcPool_allocations pool) (StoredAllocation_pod_id sa) \<and> restored sa \<noteq> None"
    if sa: "sa \<in> set stored" "StoredAllocation_vpc_name sa = name" for sa
  proof -
    obtain a where a: "hm_get (VpcPool_allocations pool) (StoredAllocation_pod_id sa) = Some a"
      "StoredAllocation_guest_ipv4 sa = show_ipv4 (Allocation_guest_ipv4 a)"
      "StoredAllocation_ghost_ipv6 sa = show_ipv6 (Allocation_ghost_ipv6 a)"
      using loaded(1) [OF sa] at by auto
    moreover have "length (Allocation_ghost_ipv6 a) = 16" using pool_okD(3) [OF ok a(1)] by simp
    ultimately show ?thesis by (simp add: restored_def)
  qed
  obtain pool' where pool': "hm_get (GhostAllocator_pools A') name = Some pool'" "same_config ?np pool'"
    "\<And>pod. hm_get (VpcPool_allocations pool') pod =
       (if \<exists>sa \<in> set stored. StoredAllocation_vpc_name sa = name \<and> StoredAllocation_pod_id sa = pod
        then hm_get (VpcPool_allocations pool) pod else hm_get (VpcPool_allocations ?np) pod)"
    using restore_all [OF new r] unfolding A' by blast
  have "same_config pool pool'" using pool'(2) def p by (simp add: same_config_def new_pool_def)
  moreover have "hm_get (VpcPool_allocations pool') pod = hm_get (VpcPool_allocations pool) pod" for pod
    using pool'(3) [of pod] loaded(2) [of pod] at [of pod]
    by (cases "hm_get (VpcPool_allocations pool) pod") (auto simp: new_pool_def)
  ultimately show ?thesis using pool'(1) by blast
qed

end

section \<open>Addresses and the CIDR\<close>

lemma unat_pool_max_hosts:
  assumes "1 \<le> p" "p \<le> 30"
  shows "unat (pool_max_hosts p) = 2 ^ (32 - p) - 2"
proof -
  have "p \<in> set [1..<31]" using assms by simp
  moreover have "\<forall>p \<in> set [1..<31]. unat (pool_max_hosts p) = 2 ^ (32 - p) - 2"
    by (simp add: pool_max_hosts_def upt_rec)
  ultimately show ?thesis by blast
qed

lemma unat_host_mask:
  assumes "1 \<le> p" "p \<le> 30"
  shows "unat (mask (32 - p) :: u32) = 2 ^ (32 - p) - 1"
proof -
  have "p \<in> set [1..<31]" using assms by simp
  moreover have "\<forall>p \<in> set [1..<31]. unat (mask (32 - p) :: u32) = 2 ^ (32 - p) - 1"
    by (simp add: mask_eq_exp_minus_1 upt_rec)
  ultimately show ?thesis by blast
qed

text \<open>Adding a host offset to an aligned base stays under the mask and hits neither end.\<close>

lemma host_in_cidr:
  assumes p: "1 \<le> p" "p \<le> 30" and base: "base AND cidr_mask p = base"
    and off: "1 \<le> off" "off \<le> pool_max_hosts p"
  shows "in_cidr (base + off) (base, p)" "base + off \<noteq> base" "base + off \<noteq> base OR NOT (cidr_mask p)"
proof -
  let ?n = "32 - p"
  have "(2 :: nat) ^ 2 \<le> 2 ^ ?n" using p by (intro power_increasing) auto
  then have off_lt: "unat off < 2 ^ ?n - 1"
    using off(2) unat_pool_max_hosts [OF p] by (simp add: word_le_nat_alt)
  have "unat off < 2 ^ ?n" using off_lt by linarith
  note al = aligned_offset [OF _ base this]
  have le: "p \<le> 32" using p(2) by simp
  note tb = al(1) [OF le] and low = al(2) [OF le] and sum = al(3) [OF le]
  show "in_cidr (base + off) (base, p)" by (rule al(4) [OF le])
  show "base + off \<noteq> base" using off(1) by (auto simp: word_le_nat_alt)
  show "base + off \<noteq> base OR NOT (cidr_mask p)"
  proof
    assume eq: "base + off = base OR NOT (cidr_mask p)"
    have "bit off k" if k: "k < ?n" for k
    proof -
      have "bit (base OR off) k" using eq [unfolded sum] k p
        by (auto simp: bit_or_iff bit_not_iff bit_cidr_mask)
      then show ?thesis using low [OF k] by (simp add: bit_or_iff)
    qed
    then have "take_bit ?n off = mask ?n" by (intro bit_word_eqI) (auto simp: bit_simps)
    then have "unat off = unat (mask ?n :: u32)" using tb by simp
    then have "unat off = 2 ^ ?n - 1" using unat_host_mask [OF p] by simp
    then show False using off_lt by simp
  qed
qed

section \<open>Reachable allocators\<close>

inductive alloc_reach :: "('db, 'v) VpcDb \<Rightarrow> 'v vpc_serde \<Rightarrow> 'db GhostAllocator \<Rightarrow> bool" for V C where
  reach_new: "alloc_reach V C (GhostAllocator_new pp cid db)"
| reach_allocate: "alloc_reach V C A \<Longrightarrow> allocate V C now pod name A = (r, A') \<Longrightarrow> alloc_reach V C A'"
| reach_release: "alloc_reach V C A \<Longrightarrow> release V pod name A = (r, A') \<Longrightarrow> alloc_reach V C A'"
| reach_sync: "alloc_reach V C A \<Longrightarrow> alloc_reach V C (sync_vpcs vpcs A)"

lemma alloc_reach_inv: "alloc_reach V C A \<Longrightarrow> alloc_inv A"
proof (induction rule: alloc_reach.induct)
  case (reach_new pp cid db)
  then show ?case by (simp add: alloc_inv_def GhostAllocator_new_def)
qed (blast intro: alloc_inv_allocate alloc_inv_release alloc_inv_sync)+

lemma card_host_range: "card {x :: u32. 1 \<le> x \<and> x \<le> m} = unat m"
proof -
  have "{x :: u32. 1 \<le> x \<and> x \<le> m} = of_nat ` {1..unat m}"
  proof (intro equalityI subsetI)
    fix x :: u32 assume "x \<in> {x. 1 \<le> x \<and> x \<le> m}"
    then have "unat x \<in> {1..unat m}" by (auto simp: word_le_nat_alt)
    then show "x \<in> of_nat ` {1..unat m}" by (intro image_eqI [of _ _ "unat x"]) simp_all
  next
    fix x :: u32 assume "x \<in> of_nat ` {1..unat m}"
    then obtain n where n: "x = of_nat n" "1 \<le> n" "n \<le> unat m" by auto
    moreover have "unat x = n" using n unat_bound [of m] by (simp add: unat_of_nat)
    ultimately show "x \<in> {x. 1 \<le> x \<and> x \<le> m}" by (auto simp: word_le_nat_alt)
  qed
  moreover have "inj_on (of_nat :: nat \<Rightarrow> u32) {1..unat m}"
    using unat_bound [of m] by (intro inj_onI) (metis atLeastAtMost_iff le_less_trans of_nat_inverse)
  ultimately show ?thesis by (simp add: card_image)
qed

lemma full_iff:
  assumes ok: "pool_ok pp cid pool"
  shows "(\<forall>x. 1 \<le> x \<and> x \<le> VpcPool_max_hosts pool \<longrightarrow> x \<in> set (allocated_offsets pool)) \<longleftrightarrow>
    length (VpcPool_allocations pool) = unat (VpcPool_max_hosts pool)"
proof -
  let ?S = "set (allocated_offsets pool)" and ?R = "{x. 1 \<le> x \<and> x \<le> VpcPool_max_hosts pool}"
  have wf: "hm_wf (VpcPool_allocations pool)" using ok by (simp add: pool_ok_def)
  have sub: "?S \<subseteq> ?R" using pool_okD(1,2) [OF ok] by (auto simp: set_allocated_offsets [OF wf])
  have "inj_on (\<lambda>(_, a). Allocation_guest_ipv4 a - VpcPool_base_ip pool) (set (VpcPool_allocations pool))"
  proof (intro inj_onI, clarsimp)
    fix pod a pod' a'
    assume m: "(pod, a) \<in> set (VpcPool_allocations pool)" "(pod', a') \<in> set (VpcPool_allocations pool)"
      and "Allocation_guest_ipv4 a = Allocation_guest_ipv4 a'"
    then have "pod = pod'" using ok map_of_is_SomeI [OF wf] unfolding pool_ok_def by blast
    then show "pod = pod' \<and> a = a'" using m eq_key_imp_eq_value [OF wf] by blast
  qed
  then have "card ?S = length (VpcPool_allocations pool)"
    using wf by (simp add: allocated_offsets_def card_image distinct_card distinct_map)
  moreover have "card ?R = unat (VpcPool_max_hosts pool)" by (rule card_host_range)
  moreover have "(\<forall>x. 1 \<le> x \<and> x \<le> VpcPool_max_hosts pool \<longrightarrow> x \<in> ?S) \<longleftrightarrow> ?R \<subseteq> ?S" by auto
  moreover have "?R \<subseteq> ?S \<longleftrightarrow> card ?S = card ?R"
    using sub card_subset_eq [OF finite sub] subset_antisym [OF sub] by auto
  ultimately show ?thesis by simp
qed

section \<open>Properties\<close>

text \<open>A VPC with an aligned /24 and one with host bits set, and an empty daemon.\<close>

definition vpc_24 :: Vpc where
  "vpc_24 = \<lparr> Vpc_name = ''web'', Vpc_vpc_id = 5, Vpc_ipv4_cidr = show_cidr 0x0A000000 24,
     Vpc_status = Vpc_Active, Vpc_created_at = 0, Vpc_deleted_at = None \<rparr>"

definition vpc_unaligned :: Vpc where
  "vpc_unaligned = vpc_24\<lparr> Vpc_ipv4_cidr := show_cidr 0x0A0000FF 24 \<rparr>"

definition daemon_empty :: "(string \<times> vpc_json) list GhostAllocator" where
  "daemon_empty = GhostAllocator_new PLATFORM_PREFIX 1 []"

definition run_allocate :: "string \<Rightarrow> (string \<times> vpc_json) list GhostAllocator \<Rightarrow>
    AllocateResult result \<times> (string \<times> vpc_json) list GhostAllocator" where
  "run_allocate pod A = allocate mem_vpcdb vpc_tag_serde 0 pod ''web'' A"

lemma pool_max_hosts_24: "pool_max_hosts 24 = 254"
  by (simp add: pool_max_hosts_def)

lemmas alloc_eval = sync_vpcs_def insert_pool_def new_pool_def allocator_show_cidr vpc_24_def
  vpc_unaligned_def daemon_empty_def GhostAllocator_new_def run_allocate_def allocate_def
  allocated_offsets_def save_allocation_def vpc_db_put_def mem_vpcdb_def mem_slatedb_def
  vpc_tag_serde_def tag_codec_def stored_allocation_def alloc_result_def pool_max_hosts_24 Let_def

lemma alloc_loop_first: "tried < m \<Longrightarrow> 1 \<le> off \<Longrightarrow> off \<le> m \<Longrightarrow> off \<notin> set taken \<Longrightarrow> alloc_loop taken m off tried = Some off"
proof -
  assume a: "tried < m" "1 \<le> off" "off \<le> m" "off \<notin> set taken"
  then have "norm_offset m off = off" unfolding norm_offset_def by (meson leD)
  with a show ?thesis by (subst alloc_loop_unfold) simp
qed

text \<open>C6: in every state the daemon can reach by allocating, releasing and syncing, whether the store's
  writes fail or not, no two pods share an address: two allocations with the same Ghost IPv6
  belong to the same VPC id and guest address, and in one VPC to the same pod.\<close>

theorem allocator_isolation:
  assumes "alloc_reach V C A"
    and "hm_get (GhostAllocator_pools A) name = Some pool" "hm_get (VpcPool_allocations pool) pod = Some a"
    and "hm_get (GhostAllocator_pools A) name' = Some pool'" "hm_get (VpcPool_allocations pool') pod' = Some a'"
    and "Allocation_ghost_ipv6 a = Allocation_ghost_ipv6 a'"
  shows "VpcPool_vpc_id pool = VpcPool_vpc_id pool' \<and> Allocation_guest_ipv4 a = Allocation_guest_ipv4 a' \<and>
    (name = name' \<longrightarrow> pod = pod')"
proof -
  have inv: "alloc_inv A" by (rule alloc_reach_inv [OF assms(1)])
  then have ok: "pool_ok (GhostAllocator_platform_prefix A) (GhostAllocator_cluster_id A) pool"
    and ok': "pool_ok (GhostAllocator_platform_prefix A) (GhostAllocator_cluster_id A) pool'"
    using assms(2,4) by (auto simp: alloc_inv_def)
  have same: "VpcPool_vpc_id pool = VpcPool_vpc_id pool' \<and> Allocation_guest_ipv4 a = Allocation_guest_ipv4 a'"
    using pool_okD(3) [OF ok assms(3)] pool_okD(3) [OF ok' assms(5)] assms(6)
    by (simp add: construct_inject)
  moreover have "pod = pod'" if "name = name'"
  proof -
    have "pool = pool'" using that assms(2,4) by simp
    then show ?thesis using ok assms(3,5) same unfolding pool_ok_def by metis
  qed
  ultimately show ?thesis by blast
qed

theorem allocator_isolation_witness:
  "\<exists>A pool. alloc_reach mem_vpcdb vpc_tag_serde A \<and> hm_get (GhostAllocator_pools A) ''web'' = Some pool \<and>
     (\<forall>pod a. hm_get (VpcPool_allocations pool) pod = Some a \<and>
        Allocation_ghost_ipv6 a = construct PLATFORM_PREFIX 1 5 0x0A000001 \<longrightarrow> ''p1'' = pod)"
proof -
  let ?A = "snd (run_allocate ''p1'' (sync_vpcs [vpc_24] daemon_empty))"
  have reach: "alloc_reach mem_vpcdb vpc_tag_serde ?A"
    unfolding run_allocate_def daemon_empty_def
    by (rule reach_allocate [OF reach_sync [OF reach_new]]) (rule surjective_pairing)
  obtain pool where p: "hm_get (GhostAllocator_pools ?A) ''web'' = Some pool"
      "hm_get (VpcPool_allocations pool) ''p1'' = Some \<lparr> Allocation_guest_ipv4 = 0x0A000001,
        Allocation_ghost_ipv6 = construct PLATFORM_PREFIX 1 5 0x0A000001 \<rparr>"
    by (simp add: alloc_eval alloc_loop_first)
  have "''p1'' = pod" if "hm_get (VpcPool_allocations pool) pod = Some a"
    "Allocation_ghost_ipv6 a = construct PLATFORM_PREFIX 1 5 0x0A000001" for pod a
    using allocator_isolation [OF reach p(1,2,1) that(1)] that(2) by simp
  with reach p(1) show ?thesis by blast
qed

text \<open>C7: the search for a free address is complete: for a pod without an allocation, in a pool that
  satisfies the invariant, \<open>allocate\<close> reports an exhausted pool exactly when as many addresses are
  allocated as the pool has hosts, and otherwise picks a free one in range.\<close>

theorem allocate_exhausted_iff:
  assumes "alloc_inv A" and "hm_get (GhostAllocator_pools A) name = Some pool"
    and "hm_get (VpcPool_allocations pool) pod = None"
  shows "(length (VpcPool_allocations pool) = unat (VpcPool_max_hosts pool) \<longrightarrow>
      allocate V C now pod name A = (Inl (Err ''pool exhausted''), A)) \<and>
    (length (VpcPool_allocations pool) \<noteq> unat (VpcPool_max_hosts pool) \<longrightarrow>
      (\<exists>off. alloc_loop (allocated_offsets pool) (VpcPool_max_hosts pool) (VpcPool_next_offset pool) 0 = Some off \<and>
         1 \<le> off \<and> off \<le> VpcPool_max_hosts pool \<and> off \<notin> set (allocated_offsets pool)))"
proof -
  have ok: "pool_ok (GhostAllocator_platform_prefix A) (GhostAllocator_cluster_id A) pool"
    using assms(1,2) by (auto simp: alloc_inv_def)
  have iff: "alloc_loop (allocated_offsets pool) (VpcPool_max_hosts pool) (VpcPool_next_offset pool) 0 = None
      \<longleftrightarrow> length (VpcPool_allocations pool) = unat (VpcPool_max_hosts pool)"
    using alloc_loop_exhausted [OF pool_ok_pos [OF ok]] full_iff [OF ok] by simp
  then show ?thesis using assms alloc_loop_Some by (fastforce simp: allocate_def)
qed

theorem allocate_exhausted_iff_witness:
  "\<exists>off. alloc_loop [] 254 1 0 = Some off \<and> 1 \<le> off \<and> off \<le> 254"
proof -
  let ?A = "sync_vpcs [vpc_24] daemon_empty"
  have "alloc_reach mem_vpcdb vpc_tag_serde ?A"
    unfolding daemon_empty_def by (intro reach_sync reach_new)
  then have "alloc_inv ?A" by (rule alloc_reach_inv)
  moreover have "hm_get (GhostAllocator_pools ?A) ''web'' = Some (new_pool vpc_24 0x0A000000 24)"
    by (simp add: sync_vpcs_def insert_pool_def allocator_show_cidr vpc_24_def daemon_empty_def
        GhostAllocator_new_def)
  ultimately show ?thesis
    using allocate_exhausted_iff [of ?A "''web''" "new_pool vpc_24 0x0A000000 24" "''p1''"]
    by (simp add: new_pool_def allocated_offsets_def pool_max_hosts_24)
qed

text \<open>An address a pool hands out lies in the VPC's CIDR and is neither its network nor its broadcast
  address, provided the CIDR has no host bits set and its prefix is not 0.\<close>

theorem allocate_in_cidr:
  assumes "alloc_reach V C A" and "hm_get (GhostAllocator_pools A) name = Some pool"
    and "hm_get (VpcPool_allocations pool) pod = Some a"
    and "parse_cidr (VpcPool_cidr pool) = Some (net, p)" and "net = VpcPool_base_ip pool"
    and "allocator_parse_cidr (VpcPool_cidr pool) = Inr (VpcPool_base_ip pool, p)" and "1 \<le> p"
  shows "in_cidr (Allocation_guest_ipv4 a) (net, p) \<and> Allocation_guest_ipv4 a \<noteq> net \<and>
    Allocation_guest_ipv4 a \<noteq> net OR NOT (cidr_mask p)"
proof -
  have ok: "pool_ok (GhostAllocator_platform_prefix A) (GhostAllocator_cluster_id A) pool"
    using alloc_reach_inv [OF assms(1)] assms(2) by (auto simp: alloc_inv_def)
  let ?off = "Allocation_guest_ipv4 a - VpcPool_base_ip pool"
  have max: "VpcPool_max_hosts pool = pool_max_hosts p" using ok assms(6) by (auto simp: pool_ok_def)
  have off: "1 \<le> ?off" "?off \<le> pool_max_hosts p" using pool_okD(1,2) [OF ok assms(3)] max by auto
  have "net AND cidr_mask p = net" by (rule parse_cidr_Some(2) [OF assms(4)])
  from host_in_cidr [OF assms(7) allocator_parse_le [OF assms(6)] this off] show ?thesis
    by (simp add: assms(5))
qed

theorem allocate_in_cidr_witness:
  "\<exists>A pool a. alloc_reach mem_vpcdb vpc_tag_serde A \<and> hm_get (GhostAllocator_pools A) ''web'' = Some pool \<and>
     hm_get (VpcPool_allocations pool) ''p1'' = Some a \<and> in_cidr (Allocation_guest_ipv4 a) (0x0A000000, 24)"
proof -
  let ?A = "snd (run_allocate ''p1'' (sync_vpcs [vpc_24] daemon_empty))"
  have reach: "alloc_reach mem_vpcdb vpc_tag_serde ?A"
    unfolding run_allocate_def daemon_empty_def
    by (rule reach_allocate [OF reach_sync [OF reach_new]]) (rule surjective_pairing)
  obtain pool a where pool: "hm_get (GhostAllocator_pools ?A) ''web'' = Some pool"
    "hm_get (VpcPool_allocations pool) ''p1'' = Some a" "VpcPool_cidr pool = show_cidr 0x0A000000 24"
    "VpcPool_base_ip pool = 0x0A000000"
    by (simp add: alloc_eval alloc_loop_first)
  have "parse_cidr (VpcPool_cidr pool) = Some (0x0A000000, 24)"
    by (simp add: pool(3) parse_show_cidr cidr_mask_def mask_eq_exp_minus_1)
  from allocate_in_cidr [OF reach pool(1,2) this] show ?thesis
    using reach pool by (auto simp: allocator_show_cidr)
qed

text \<open>Allocation is idempotent and release undoes it: after a successful \<open>allocate\<close>, allocating again
  for the same pod returns the same result and changes nothing, and a successful \<open>release\<close> removes
  exactly that pod's allocation.\<close>

theorem allocate_idempotent:
  assumes "allocate V C now pod name A = (Inr res, A')"
  shows "allocate V C now' pod name A' = (Inr res, A') \<and>
    (\<forall>A'' u. release V pod name A' = (Inr u, A'') \<longrightarrow>
       (\<exists>pool pool'. hm_get (GhostAllocator_pools A') name = Some pool \<and>
          hm_get (GhostAllocator_pools A'') name = Some pool' \<and>
          map_of (VpcPool_allocations pool') = (map_of (VpcPool_allocations pool))(pod := None)))"
proof -
  obtain pool a where pool: "hm_get (GhostAllocator_pools A') name = Some pool"
    "hm_get (VpcPool_allocations pool) pod = Some a" "res = alloc_result pool a"
    using assms
  proof (cases rule: allocate_cases)
    case (fresh pool offset a A1)
    then show ?thesis
      by (intro that [of "pool\<lparr> VpcPool_next_offset := offset + 1,
          VpcPool_allocations := hm_insert pod a (VpcPool_allocations pool) \<rparr>" a])
        (simp_all add: hmap_simps alloc_result_def)
  qed (use that in auto)
  have "\<exists>pool'. hm_get (GhostAllocator_pools A'') name = Some pool' \<and>
      map_of (VpcPool_allocations pool') = (map_of (VpcPool_allocations pool))(pod := None)"
    if rel: "release V pod name A' = (Inr u, A'')" for A'' u
  proof -
    have "delete_allocation V name pod (A'\<lparr> GhostAllocator_pools := hm_insert name
        (pool\<lparr> VpcPool_allocations := hm_remove pod (VpcPool_allocations pool) \<rparr>) (GhostAllocator_pools A') \<rparr>) = (Inr u, A'')"
      using rel pool by (simp add: release_def)
    from more_fields(1) [OF vpc_delete_frame [OF this]] show ?thesis
      by (auto simp: hmap_simps delete_conv')
  qed
  then show ?thesis using pool by (simp add: allocate_def)
qed

theorem allocate_idempotent_witness:
  "\<exists>res A'. run_allocate ''p1'' (sync_vpcs [vpc_24] daemon_empty) = (Inr res, A') \<and>
     run_allocate ''p1'' A' = (Inr res, A') \<and> AllocateResult_guest_ipv4 res = 0x0A000001"
proof -
  obtain res A' where run: "run_allocate ''p1'' (sync_vpcs [vpc_24] daemon_empty) = (Inr res, A')"
    "AllocateResult_guest_ipv4 res = 0x0A000001"
    by (simp add: alloc_eval alloc_loop_first)
  from allocate_idempotent [OF run(1) [unfolded run_allocate_def]] run show ?thesis
    by (auto simp: run_allocate_def)
qed


definition daemon_with_vpc :: "(string \<times> vpc_json) list GhostAllocator" where
  "daemon_with_vpc = sync_vpcs [vpc_24]
     (GhostAllocator_new PLATFORM_PREFIX 1 [(''/vpc/definitions/web'', VJ_Vpc vpc_24)])"

lemma scan_loop_total:
  "\<forall>(k, v) \<in> set kvs. prefix p k \<longrightarrow> (\<exists>x. from_slice c v = Inr x) \<Longrightarrow> \<exists>xs. scan_loop c p (map Inr kvs) = Inr xs"
  by (induction kvs) (auto simp: starts_with_def)

lemma mem_scan_total:
  assumes "\<And>k v. (k, v) \<in> set db \<Longrightarrow> prefix p k \<Longrightarrow> \<exists>x. from_slice c v = Inr x"
  shows "\<exists>xs. fst (vpc_scan_prefix mem_vpcdb c p \<lparr> VpcStore_db = db \<rparr>) = Inr xs"
proof -
  let ?kvs = "sort_key fst (filter (\<lambda>(k, _). p \<le> k) (AList.clearjunk db))"
  have "set ?kvs \<subseteq> set db"
    using map_of_is_SomeI [OF distinct_clearjunk, of _ _ db] by (force simp: map_of_clearjunk dest: map_of_SomeD)
  then have "\<exists>xs. scan_loop c p (map Inr ?kvs) = Inr xs"
    using assms by (intro scan_loop_total) auto
  then show ?thesis by (simp add: vpc_scan_prefix_def mem_vpcdb_def)
qed

lemma daemon_with_vpc_pool: "hm_get (GhostAllocator_pools daemon_with_vpc) name =
    (if name = ''web'' then Some (new_pool vpc_24 0x0A000000 24) else None)"
  by (simp add: daemon_with_vpc_def sync_vpcs_def insert_pool_def allocator_show_cidr vpc_24_def
      GhostAllocator_new_def)

lemma daemon_with_vpc_synced: "synced map_of vpc_tag_serde daemon_with_vpc"
proof -
  have db: "VpcStore_db daemon_with_vpc = [(''/vpc/definitions/web'', VJ_Vpc vpc_24)]"
    by (simp add: daemon_with_vpc_def sync_vpcs_def GhostAllocator_new_def Let_def)
  show ?thesis
    unfolding synced_def keyed_allocations_def stored_at_def db daemon_with_vpc_pool
    by (auto simp: vpc_key_defs new_pool_def split: if_splits)
qed


text \<open>A VPC that is missing from one server response and back in the next loses its allocations in
  memory while the store keeps them: a second pod then gets the address of the first.\<close>

theorem resync_reuses_address:
  "\<exists>A1 A3 res1 res2. run_allocate ''p1'' (sync_vpcs [vpc_24] daemon_empty) = (Inr res1, A1) \<and>
     run_allocate ''p2'' (sync_vpcs [vpc_24] (sync_vpcs [] A1)) = (Inr res2, A3) \<and>
     AllocateResult_ghost_ipv6 res1 = AllocateResult_ghost_ipv6 res2 \<and>
     stored_at map_of vpc_tag_serde (VpcStore_db A3) ''web'' ''p1'' =
       stored_at map_of vpc_tag_serde (VpcStore_db A3) ''web'' ''p2'' \<and>
     stored_at map_of vpc_tag_serde (VpcStore_db A3) ''web'' ''p1'' \<noteq> None"
  by (simp add: alloc_eval alloc_loop_first stored_at_def vpc_key_defs ok_or_def)

text \<open>The allocator does not mask the CIDR's address: for 10.0.0.255/24 the first address it hands
  out is 10.0.1.0, outside the CIDR the API server accepted and checked for overlaps.\<close>

theorem unaligned_cidr_escapes:
  "\<exists>res A net. run_allocate ''p1'' (sync_vpcs [vpc_unaligned] daemon_empty) = (Inr res, A) \<and>
     parse_cidr (Vpc_ipv4_cidr vpc_unaligned) = Some net \<and>
     \<not> in_cidr (AllocateResult_guest_ipv4 res) net"
  by (simp add: alloc_eval alloc_loop_first parse_show_cidr in_cidr_def cidr_mask_def mask_eq_exp_minus_1)

end
