(* ===== verification/Ebpf_Packet.thy ===== *)
theory Ebpf_Packet
  imports K3_Action Ghost_IPv6
begin

text \<open>
  What the eBPF programs (\<open>cmd/k3rs-vpc-ebpf/src/main.rs\<close>) run on: the shared maps of
  \<open>cmd/k3rs-vpc-common/src/lib.rs\<close>, the per-pod constants, the packet, and the kernel helpers. The
  helpers are kernel code: the record \<open>tc_helpers\<close> is a parameter of every program and the locale
  \<open>tc_kernel\<close> states what their documentation promises about the packet bytes. The target is
  little-endian (\<open>bpfel\<close>).
\<close>

section \<open>Native byte order\<close>

fun u16_from_ne_bytes :: "bytes \<Rightarrow> u16" where
  "u16_from_ne_bytes [a, b] = u16_from_be_bytes [b, a]"
| "u16_from_ne_bytes _ = 0"

fun u32_from_ne_bytes :: "bytes \<Rightarrow> u32" where
  "u32_from_ne_bytes [a, b, c, d] = u32_from_be_bytes [d, c, b, a]"
| "u32_from_ne_bytes _ = 0"

definition u16_to_ne_bytes :: "u16 \<Rightarrow> bytes" where
  "u16_to_ne_bytes x = rev (u16_to_be_bytes x)"

definition u32_to_ne_bytes :: "u32 \<Rightarrow> bytes" where
  "u32_to_ne_bytes x = rev (u32_to_be_bytes x)"

text \<open>\<open>to_be\<close>: the native value whose bytes in memory are the big-endian bytes; \<open>from_be\<close> inverts it.\<close>

definition u16_to_be :: "u16 \<Rightarrow> u16" where
  "u16_to_be x = u16_from_ne_bytes (u16_to_be_bytes x)"

definition u32_to_be :: "u32 \<Rightarrow> u32" where
  "u32_to_be x = u32_from_ne_bytes (u32_to_be_bytes x)"

definition u16_from_be :: "u16 \<Rightarrow> u16" where
  "u16_from_be x = u16_from_be_bytes (u16_to_ne_bytes x)"

definition u32_from_be :: "u32 \<Rightarrow> u32" where
  "u32_from_be x = u32_from_be_bytes (u32_to_ne_bytes x)"

lemma length_ne_bytes [simp]: "length (u16_to_ne_bytes x) = 2" "length (u32_to_ne_bytes y) = 4"
  by (simp_all add: u16_to_ne_bytes_def u32_to_ne_bytes_def)

lemma u16_to_from_ne: "length bs = 2 \<Longrightarrow> u16_to_ne_bytes (u16_from_ne_bytes bs) = bs"
  by (auto simp: length_2_conv u16_to_ne_bytes_def u16_to_from_be)

lemma u32_to_from_ne: "length bs = 4 \<Longrightarrow> u32_to_ne_bytes (u32_from_ne_bytes bs) = bs"
  by (auto simp: length_4_conv u32_to_ne_bytes_def u32_to_from_be)

lemma u16_from_to_ne [simp]: "u16_from_ne_bytes (u16_to_ne_bytes x) = x"
proof -
  obtain a b where "u16_to_be_bytes x = [a, b]" using length_u16_to_be_bytes length_2_conv by metis
  then show ?thesis using u16_from_to_be [of x] by (simp add: u16_to_ne_bytes_def)
qed

lemma u32_from_to_ne [simp]: "u32_from_ne_bytes (u32_to_ne_bytes x) = x"
proof -
  obtain a b c d where "u32_to_be_bytes x = [a, b, c, d]"
    using length_u32_to_be_bytes length_4_conv by metis
  then show ?thesis using u32_from_to_be [of x] by (simp add: u32_to_ne_bytes_def)
qed

lemma u16_ne_to_be [simp]: "u16_to_ne_bytes (u16_to_be x) = u16_to_be_bytes x"
  by (simp add: u16_to_be_def u16_to_from_ne)

lemma u32_ne_to_be [simp]: "u32_to_ne_bytes (u32_to_be x) = u32_to_be_bytes x"
  by (simp add: u32_to_be_def u32_to_from_ne)

lemma from_to_be [simp]: "u16_from_be (u16_to_be x) = x" "u32_from_be (u32_to_be y) = y"
  by (simp_all add: u16_from_be_def u32_from_be_def)

lemma u16_from_ne_eq: "length bs = 2 \<Longrightarrow> u16_from_ne_bytes bs = u16_to_be x \<longleftrightarrow> bs = u16_to_be_bytes x"
  by (metis u16_to_from_ne u16_ne_to_be u16_to_be_def)

lemma u32_from_ne_eq: "length bs = 4 \<Longrightarrow> u32_from_ne_bytes bs = u32_to_be x \<longleftrightarrow> bs = u32_to_be_bytes x"
  by (metis u32_to_from_ne u32_ne_to_be u32_to_be_def)

lemma u16_from_be_from_ne: "length bs = 2 \<Longrightarrow> u16_from_be (u16_from_ne_bytes bs) = u16_from_be_bytes bs"
  by (simp add: u16_from_be_def u16_to_from_ne)

lemma u32_from_be_from_ne: "length bs = 4 \<Longrightarrow> u32_from_be (u32_from_ne_bytes bs) = u32_from_be_bytes bs"
  by (simp add: u32_from_be_def u32_to_from_ne)

declare u16_from_ne_bytes.simps [simp del] u32_from_ne_bytes.simps [simp del]

section \<open>Maps, constants, packet\<close>

record PeeringKey =
  src_vpc_id :: u16
  dst_vpc_id :: u16

record Nat64Key =
  Nat64Key_protocol :: u8
  Nat64Key_src_port :: u16
  Nat64Key_dst_ipv4 :: u32
  Nat64Key_dst_port :: u16

record Nat64Config =
  Nat64Config_node_ipv4 :: u32
  Nat64Config_phys_ifindex :: u32

text \<open>
  The pinned maps. Values are the fields the programs read: \<open>allowed\<close> of a peering, \<open>nk_ifindex\<close> of
  an endpoint, \<open>src_ipv6\<close> of a connection.
\<close>

record 'p tc =
  PEERINGS :: "PeeringKey \<rightharpoonup> u32"
  ENDPOINTS :: "ipv6 \<rightharpoonup> u32"
  NAT64_CONNTRACK :: "Nat64Key \<rightharpoonup> ipv6"
  NAT64_CONFIG :: "Nat64Config option"
  skb :: 'p

text \<open>The constants baked into a pod's or TAP's instance of the programs.\<close>

record rodata =
  MY_GHOST_IPV6 :: ipv6
  MY_GUEST_IPV4 :: u32
  MY_VPC_ID :: u16
  MY_VPC_NETWORK :: u32
  MY_VPC_MASK :: u32
  MY_PLATFORM_PREFIX :: u32
  MY_CLUSTER_ID :: u32

definition GHOST_PREFIX :: u32 where
  "GHOST_PREFIX = 0xfd6b3372"

definition NAT64_PREFIX_U32 :: u32 where
  "NAT64_PREFIX_U32 = 0x0064ff9b"

definition TC_ACT_OK :: int where
  "TC_ACT_OK = 0"

definition TC_ACT_SHOT :: int where
  "TC_ACT_SHOT = 2"

definition ETH_P_IP :: u16 where
  "ETH_P_IP = 0x0800"

definition ETH_P_IPV6 :: u16 where
  "ETH_P_IPV6 = 0x86DD"

definition ETH_LEN :: nat where
  "ETH_LEN = 14"

definition IPV6_SRC_ADDR_OFF :: nat where
  "IPV6_SRC_ADDR_OFF = ETH_LEN + 8"

definition IPV6_DST_ADDR_OFF :: nat where
  "IPV6_DST_ADDR_OFF = ETH_LEN + 24"

section \<open>Kernel helpers\<close>

record 'p tc_helpers =
  h_load :: "'p \<Rightarrow> nat \<Rightarrow> nat \<Rightarrow> bytes option"
  h_store :: "nat \<Rightarrow> bytes \<Rightarrow> ('p, unit) act"
  h_change_proto :: "u16 \<Rightarrow> ('p, unit) act"
  h_l4_csum_replace :: "nat \<Rightarrow> u64 \<Rightarrow> u64 \<Rightarrow> u64 \<Rightarrow> ('p, unit) act"
  h_redirect :: "u32 \<Rightarrow> int"
  h_redirect_peer :: "u32 \<Rightarrow> int"
  h_lru_insert :: "(Nat64Key \<rightharpoonup> ipv6) \<Rightarrow> Nat64Key \<Rightarrow> ipv6 \<Rightarrow> (Nat64Key \<rightharpoonup> ipv6) result"

definition on_skb :: "('p, 'a) act \<Rightarrow> ('p tc, 'a) act" where
  "on_skb m s = (case m (skb s) of (r, p) \<Rightarrow> (r, s\<lparr>skb := p\<rparr>))"

definition load_bytes :: "'p tc_helpers \<Rightarrow> nat \<Rightarrow> nat \<Rightarrow> ('p tc, bytes) act" where
  "load_bytes H off n s = (ok_or (h_load H (skb s) off n) ''load'', s)"

definition load_u8 :: "'p tc_helpers \<Rightarrow> nat \<Rightarrow> ('p tc, u8) act" where
  "load_u8 H off = bindM (load_bytes H off 1) (\<lambda>bs. returnM (bs ! 0))"

definition load_u16 :: "'p tc_helpers \<Rightarrow> nat \<Rightarrow> ('p tc, u16) act" where
  "load_u16 H off = bindM (load_bytes H off 2) (\<lambda>bs. returnM (u16_from_ne_bytes bs))"

definition load_u32 :: "'p tc_helpers \<Rightarrow> nat \<Rightarrow> ('p tc, u32) act" where
  "load_u32 H off = bindM (load_bytes H off 4) (\<lambda>bs. returnM (u32_from_ne_bytes bs))"

text \<open>\<open>match try_x(&ctx) { Ok(action) => action, Err(_) => TC_ACT_OK }\<close>\<close>

definition fail_open :: "('p tc, int) act \<Rightarrow> 'p tc \<Rightarrow> int \<times> 'p tc" where
  "fail_open m s = (case m s of (Inr action, s') \<Rightarrow> (action, s') | (Inl _, s') \<Rightarrow> (TC_ACT_OK, s'))"

section \<open>Bytes of a packet\<close>

definition bytes_at :: "bytes \<Rightarrow> nat \<Rightarrow> nat \<Rightarrow> bytes" where
  "bytes_at b off n = take n (drop off b)"

definition patch :: "bytes \<Rightarrow> nat \<Rightarrow> bytes \<Rightarrow> bytes" where
  "patch b off bs = take off b @ bs @ drop (off + length bs) b"

lemma length_bytes_at [simp]: "off + n \<le> length b \<Longrightarrow> length (bytes_at b off n) = n"
  by (simp add: bytes_at_def)

lemma length_patch [simp]: "off + length bs \<le> length b \<Longrightarrow> length (patch b off bs) = length b"
  by (simp add: patch_def)

lemma bytes_at_patch_same: "off + length bs \<le> length b \<Longrightarrow> n = length bs \<Longrightarrow> bytes_at (patch b off bs) off n = bs"
  by (simp add: bytes_at_def patch_def)

lemma nth_patch:
  assumes "off + length bs \<le> length b" "i < length b"
  shows "patch b off bs ! i = (if off \<le> i \<and> i < off + length bs then bs ! (i - off) else b ! i)"
proof -
  have "drop (off + length bs) b ! (i - off - length bs) = b ! i" if "off + length bs \<le> i"
    using that assms by simp
  then show ?thesis using assms by (auto simp: patch_def nth_append not_less)
qed

lemma bytes_at_patch_other:
  assumes "off + length bs \<le> length b" "o' + n \<le> off \<or> off + length bs \<le> o'"
  shows "bytes_at (patch b off bs) o' n = bytes_at b o' n"
proof (rule nth_equalityI)
  show len: "length (bytes_at (patch b off bs) o' n) = length (bytes_at b o' n)"
    using assms(1) by (simp add: bytes_at_def)
  fix i assume i: "i < length (bytes_at (patch b off bs) o' n)"
  then have lt: "i < n" "o' + i < length b" using length_patch [OF assms(1)] by (auto simp: bytes_at_def)
  have "bytes_at (patch b off bs) o' n ! i = patch b off bs ! (o' + i)"
    using lt assms(1) by (simp add: bytes_at_def)
  also have "\<dots> = b ! (o' + i)" using nth_patch [OF assms(1) lt(2)] assms(2) lt(1) by auto
  also have "\<dots> = bytes_at b o' n ! i" using lt by (simp add: bytes_at_def)
  finally show "bytes_at (patch b off bs) o' n ! i = bytes_at b o' n ! i" .
qed

lemma drop_patch: "off + length bs \<le> n \<Longrightarrow> n \<le> length b \<Longrightarrow> drop n (patch b off bs) = drop n b"
  by (simp add: patch_def)

lemma take_patch: "n \<le> off \<Longrightarrow> off \<le> length b \<Longrightarrow> take n (patch b off bs) = take n b"
  by (simp add: patch_def)

lemma bytes_at_bytes_at: "i + k \<le> n \<Longrightarrow> bytes_at (bytes_at b off n) i k = bytes_at b (off + i) k"
  by (simp add: bytes_at_def drop_take min_def add.commute)

lemma bytes_at_append: "bytes_at b o' (n + m) = bytes_at b o' n @ bytes_at b (o' + n) m"
  unfolding bytes_at_def take_add drop_drop by (simp only: add.commute)

section \<open>What the kernel promises\<close>

text \<open>
  \<open>view\<close> gives the bytes of a packet. Loads succeed exactly within the packet; stores replace
  bytes; changing the protocol resizes the network header by 20 bytes and keeps the Ethernet
  addresses and what follows the network header (nothing is promised of the EtherType); a checksum update touches its two bytes; an insert
  into the connection table may evict other entries.
\<close>

locale tc_kernel =
  fixes H :: "'p tc_helpers" and view :: "'p \<Rightarrow> bytes"
  assumes load_iff: "h_load H p off n = Some bs \<longleftrightarrow> off + n \<le> length (view p) \<and> bs = bytes_at (view p) off n"
    and store_ok: "h_store H off bs p = (Inr u, p') \<Longrightarrow>
      off + length bs \<le> length (view p) \<and> view p' = patch (view p) off bs"
    and proto_4_to_6: "h_change_proto H ETH_P_IPV6 p = (Inr u, p') \<Longrightarrow>
      34 \<le> length (view p) \<and> length (view p') = length (view p) + 20 \<and>
      take 12 (view p') = take 12 (view p) \<and> drop 54 (view p') = drop 34 (view p)"
    and proto_6_to_4: "h_change_proto H ETH_P_IP p = (Inr u, p') \<Longrightarrow>
      54 \<le> length (view p) \<and> length (view p') + 20 = length (view p) \<and>
      take 12 (view p') = take 12 (view p) \<and> drop 34 (view p') = drop 54 (view p)"
    and csum_ok: "h_l4_csum_replace H off fr t fl p = (Inr u, p') \<Longrightarrow>
      \<exists>c. length c = 2 \<and> off + 2 \<le> length (view p) \<and> view p' = patch (view p) off c"
    and lru_ok: "h_lru_insert H ct k v = Inr ct' \<Longrightarrow> ct' k = Some v \<and> (\<forall>k'. k' \<noteq> k \<longrightarrow> ct' k' = ct k' \<or> ct' k' = None)"
begin

abbreviation pkt :: "'p tc \<Rightarrow> bytes" where
  "pkt s \<equiv> view (skb s)"

lemma load_bytes_ok: "off + n \<le> length (pkt s) \<Longrightarrow> load_bytes H off n s = (Inr (bytes_at (pkt s) off n), s)"
  using load_iff [of "skb s" off n] by (simp add: load_bytes_def ok_or_def split: option.split)

lemma load_bytes_short: "length (pkt s) < off + n \<Longrightarrow> load_bytes H off n s = (Inl (Err ''load''), s)"
  using load_iff [of "skb s" off n] by (cases "h_load H (skb s) off n") (auto simp: load_bytes_def ok_or_def)

lemma load_u8_ok: "off + 1 \<le> length (pkt s) \<Longrightarrow> load_u8 H off s = (Inr (pkt s ! off), s)"
  by (simp add: load_u8_def bindM_def load_bytes_ok returnM_def bytes_at_def)

lemma load_u16_ok: "off + 2 \<le> length (pkt s) \<Longrightarrow>
    load_u16 H off s = (Inr (u16_from_ne_bytes (bytes_at (pkt s) off 2)), s)"
  by (simp add: load_u16_def bindM_def load_bytes_ok returnM_def)

lemma load_u32_ok: "off + 4 \<le> length (pkt s) \<Longrightarrow>
    load_u32 H off s = (Inr (u32_from_ne_bytes (bytes_at (pkt s) off 4)), s)"
  by (simp add: load_u32_def bindM_def load_bytes_ok returnM_def)

end

section \<open>A kernel that keeps its promises\<close>

text \<open>Packets as byte lists; helpers that fail only out of bounds.\<close>

definition mem_store :: "nat \<Rightarrow> bytes \<Rightarrow> (bytes, unit) act" where
  "mem_store off bs p =
     (if off + length bs \<le> length p then (Inr (), patch p off bs) else (Inl (Err ''store''), p))"

definition mem_change_proto :: "u16 \<Rightarrow> (bytes, unit) act" where
  "mem_change_proto proto p =
     (if proto = ETH_P_IPV6 \<and> 34 \<le> length p then (Inr (), take 14 p @ replicate 20 0 @ drop 14 p)
      else if proto = ETH_P_IP \<and> 54 \<le> length p then (Inr (), take 14 p @ drop 34 p)
      else (Inl (Err ''proto''), p))"

definition mem_helpers :: "bytes tc_helpers" where
  "mem_helpers =
     \<lparr> h_load = (\<lambda>p off n. if off + n \<le> length p then Some (bytes_at p off n) else None),
       h_store = mem_store, h_change_proto = mem_change_proto,
       h_l4_csum_replace = (\<lambda>off fr t fl. mem_store off [0, 0]),
       h_redirect = (\<lambda>ifindex. 7), h_redirect_peer = (\<lambda>ifindex. 7),
       h_lru_insert = (\<lambda>ct k v. Inr (ct(k \<mapsto> v))) \<rparr>"

interpretation memtc: tc_kernel mem_helpers "\<lambda>p. p"
proof unfold_locales
  fix p p' :: bytes and u
  show "h_change_proto mem_helpers ETH_P_IPV6 p = (Inr u, p') \<Longrightarrow>
      34 \<le> length p \<and> length p' = length p + 20 \<and> take 12 p' = take 12 p \<and> drop 54 p' = drop 34 p"
    by (auto simp: mem_helpers_def mem_change_proto_def ETH_P_IP_def ETH_P_IPV6_def split: if_splits)
  show "h_change_proto mem_helpers ETH_P_IP p = (Inr u, p') \<Longrightarrow>
      54 \<le> length p \<and> length p' + 20 = length p \<and> take 12 p' = take 12 p \<and> drop 34 p' = drop 54 p"
    by (auto simp: mem_helpers_def mem_change_proto_def ETH_P_IP_def ETH_P_IPV6_def split: if_splits)
  fix off fr t fl
  show "h_l4_csum_replace mem_helpers off fr t fl p = (Inr u, p') \<Longrightarrow>
      \<exists>c. length c = 2 \<and> off + 2 \<le> length p \<and> p' = patch p off c"
    by (intro exI [of _ "[0, 0]"]) (auto simp: mem_helpers_def mem_store_def split: if_splits)
qed (auto simp: mem_helpers_def mem_store_def bytes_at_def split: if_splits)

end
