(* ===== verification/Ebpf_Programs.thy ===== *)
theory Ebpf_Programs
  imports Ebpf_Packet
begin

text \<open>
  The eBPF classifiers of \<open>cmd/k3rs-vpc-ebpf/src/main.rs\<close>, statement by statement: VPC isolation
  (\<open>enforce_v6\<close> and the egress and ingress classifiers), the IPv4/IPv6 translators of a pod
  (\<open>siit_in\<close>, \<open>siit_out\<close>), the TAP guard, and NAT64. Every load, store and helper call that can fail
  ends the program with \<open>TC_ACT_OK\<close>, on the packet as it stands then.
\<close>

section \<open>Isolation\<close>

definition is_ghost_prefix :: "'p tc_helpers \<Rightarrow> nat \<Rightarrow> ('p tc, bool) act" where
  "is_ghost_prefix H addr_offset =
     bindM (load_u32 H addr_offset) (\<lambda>prefix_raw. returnM (prefix_raw = u32_to_be GHOST_PREFIX))"

definition extract_vpc_id :: "'p tc_helpers \<Rightarrow> nat \<Rightarrow> ('p tc, u16) act" where
  "extract_vpc_id H addr_offset =
     bindM (load_u16 H (addr_offset + 10)) (\<lambda>raw. returnM (u16_from_be raw))"

definition read_ipv6_addr :: "'p tc_helpers \<Rightarrow> nat \<Rightarrow> ('p tc, ipv6) act" where
  "read_ipv6_addr H offset =
     bindM (load_u32 H offset) (\<lambda>w0.
     bindM (load_u32 H (offset + 4)) (\<lambda>w1.
     bindM (load_u32 H (offset + 8)) (\<lambda>w2.
     bindM (load_u32 H (offset + 12)) (\<lambda>w3.
     returnM (u32_to_ne_bytes w0 @ u32_to_ne_bytes w1 @ u32_to_ne_bytes w2 @ u32_to_ne_bytes w3)))))"

definition enforce_v6 :: "'p tc_helpers \<Rightarrow> ('p tc, int) act" where
  "enforce_v6 H =
     bindM (load_u16 H 12) (\<lambda>etype.
     if etype \<noteq> u16_to_be ETH_P_IPV6 then returnM TC_ACT_OK
     else
     bindM (is_ghost_prefix H IPV6_SRC_ADDR_OFF) (\<lambda>src_is_ghost.
     bindM (is_ghost_prefix H IPV6_DST_ADDR_OFF) (\<lambda>dst_is_ghost.
     if \<not> src_is_ghost \<and> dst_is_ghost then returnM TC_ACT_SHOT
     else if \<not> src_is_ghost \<or> \<not> dst_is_ghost then returnM TC_ACT_OK
     else
     bindM (extract_vpc_id H IPV6_SRC_ADDR_OFF) (\<lambda>src_vpc.
     bindM (extract_vpc_id H IPV6_DST_ADDR_OFF) (\<lambda>dst_vpc.
     if src_vpc = 0 \<or> dst_vpc = 0 then returnM TC_ACT_OK
     else if src_vpc = dst_vpc then returnM TC_ACT_OK
     else
     bindM (getM PEERINGS) (\<lambda>peerings.
     case peerings \<lparr> src_vpc_id = src_vpc, dst_vpc_id = dst_vpc \<rparr> of
       Some allowed \<Rightarrow> if allowed \<noteq> 0 then returnM TC_ACT_OK else returnM TC_ACT_SHOT
     | None \<Rightarrow> returnM TC_ACT_SHOT))))))"

definition tc_egress_v6 :: "'p tc_helpers \<Rightarrow> 'p tc \<Rightarrow> int \<times> 'p tc" where
  "tc_egress_v6 H = fail_open (enforce_v6 H)"

definition try_tc_ingress_v6 :: "'p tc_helpers \<Rightarrow> ('p tc, int) act" where
  "try_tc_ingress_v6 H =
     bindM (enforce_v6 H) (\<lambda>vpc_result.
     if vpc_result \<noteq> TC_ACT_OK then returnM vpc_result
     else
     bindM (load_u16 H 12) (\<lambda>etype.
     if etype \<noteq> u16_to_be ETH_P_IPV6 then returnM TC_ACT_OK
     else
     bindM (is_ghost_prefix H IPV6_DST_ADDR_OFF) (\<lambda>ghost.
     if \<not> ghost then returnM TC_ACT_OK
     else
     bindM (read_ipv6_addr H IPV6_DST_ADDR_OFF) (\<lambda>dst_ipv6.
     bindM (getM ENDPOINTS) (\<lambda>endpoints.
     case endpoints dst_ipv6 of
       Some nk_ifindex \<Rightarrow> returnM (h_redirect_peer H nk_ifindex)
     | None \<Rightarrow> returnM TC_ACT_OK)))))"

definition tc_ingress_v6 :: "'p tc_helpers \<Rightarrow> 'p tc \<Rightarrow> int \<times> 'p tc" where
  "tc_ingress_v6 H = fail_open (try_tc_ingress_v6 H)"

section \<open>Addresses and checksums\<close>

definition construct_ghost_ipv6 :: "u32 \<Rightarrow> u32 \<Rightarrow> u16 \<Rightarrow> u32 \<Rightarrow> ipv6" where
  "construct_ghost_ipv6 pfx cluster vpc ip =
     u32_to_be_bytes pfx @ [push_bit 4 1, 0x00]
     @ u16_to_be_bytes (ucast (drop_bit 16 cluster)) @ u16_to_be_bytes (ucast (cluster AND 0xFFFF))
     @ u16_to_be_bytes vpc @ u32_to_be_bytes ip"

definition nat64_addr :: "u32 \<Rightarrow> ipv6" where
  "nat64_addr ip = [0x00, 0x64, 0xff, 0x9b, 0, 0, 0, 0, 0, 0, 0, 0] @ u32_to_be_bytes ip"

definition addr_words :: "ipv6 \<Rightarrow> u32 list" where
  "addr_words a =
     [u32_from_ne_bytes [a ! 0, a ! 1, a ! 2, a ! 3], u32_from_ne_bytes [a ! 4, a ! 5, a ! 6, a ! 7],
      u32_from_ne_bytes [a ! 8, a ! 9, a ! 10, a ! 11], u32_from_ne_bytes [a ! 12, a ! 13, a ! 14, a ! 15]]"

definition IPV4_HDR_LEN :: nat where
  "IPV4_HDR_LEN = 20"

definition IPV6_HDR_LEN :: nat where
  "IPV6_HDR_LEN = 40"

definition IPPROTO_TCP :: u8 where
  "IPPROTO_TCP = 6"

definition IPPROTO_UDP :: u8 where
  "IPPROTO_UDP = 17"

definition TCP_CSUM_OFF :: nat where
  "TCP_CSUM_OFF = 16"

definition UDP_CSUM_OFF :: nat where
  "UDP_CSUM_OFF = 6"

definition BPF_F_PSEUDO_HDR :: u64 where
  "BPF_F_PSEUDO_HDR = 0x10"

definition ipv4_hdr_csum :: "u16 \<Rightarrow> u8 \<Rightarrow> u8 \<Rightarrow> u32 \<Rightarrow> u32 \<Rightarrow> u16" where
  "ipv4_hdr_csum total_len ttl proto src dst =
     (let s = 0x4500 :: u32;
          s = s + ucast total_len;
          s = s + 0x4000;
          s = s + (push_bit 8 (ucast ttl) OR ucast proto);
          s = s + (drop_bit 16 src AND 0xFFFF);
          s = s + (src AND 0xFFFF);
          s = s + (drop_bit 16 dst AND 0xFFFF);
          s = s + (dst AND 0xFFFF);
          s = (s AND 0xFFFF) + drop_bit 16 s;
          s = (s AND 0xFFFF) + drop_bit 16 s
      in NOT (ucast s))"

text \<open>One step of a pseudo-header update; both adjustments make eight of them.\<close>

definition csum_step :: "'p tc_helpers \<Rightarrow> nat \<Rightarrow> u32 \<times> u32 \<Rightarrow> ('p tc, unit) act" where
  "csum_step H off = (\<lambda>(fr, t). on_skb (h_l4_csum_replace H off (ucast fr) (ucast t) (BPF_F_PSEUDO_HDR OR 4)))"

definition csum_6to4 ::
  "'p tc_helpers \<Rightarrow> nat \<Rightarrow> u32 list \<Rightarrow> u32 list \<Rightarrow> u32 \<Rightarrow> u32 \<Rightarrow> ('p tc, unit) act" where
  "csum_6to4 H off s6 d6 s4 d4 =
     forM [(s6 ! 0, s4), (s6 ! 1, 0), (s6 ! 2, 0), (s6 ! 3, 0),
           (d6 ! 0, d4), (d6 ! 1, 0), (d6 ! 2, 0), (d6 ! 3, 0)] (csum_step H off)"

definition csum_4to6 ::
  "'p tc_helpers \<Rightarrow> nat \<Rightarrow> u32 \<Rightarrow> u32 \<Rightarrow> u32 list \<Rightarrow> u32 list \<Rightarrow> ('p tc, unit) act" where
  "csum_4to6 H off s4 d4 s6 d6 =
     forM [(s4, s6 ! 0), (0, s6 ! 1), (0, s6 ! 2), (0, s6 ! 3),
           (d4, d6 ! 0), (0, d6 ! 1), (0, d6 ! 2), (0, d6 ! 3)] (csum_step H off)"

text \<open>The two header writers the translators share, store by store.\<close>

definition store_at :: "'p tc_helpers \<Rightarrow> nat \<times> bytes \<Rightarrow> ('p tc, unit) act" where
  "store_at H = (\<lambda>(off, bs). on_skb (h_store H off bs))"

definition write_ipv6_header ::
  "'p tc_helpers \<Rightarrow> u16 \<Rightarrow> u8 \<Rightarrow> u8 \<Rightarrow> u32 list \<Rightarrow> u32 list \<Rightarrow> ('p tc, unit) act" where
  "write_ipv6_header H payload_len next_hdr hop_limit s6 d6 =
     (let l3 = ETH_LEN in
      forM [(l3, u32_to_ne_bytes (u32_to_be 0x60000000)),
            (l3 + 4, u16_to_ne_bytes (u16_to_be payload_len)),
            (l3 + 6, [next_hdr]),
            (l3 + 7, [hop_limit]),
            (l3 + 8, u32_to_ne_bytes (s6 ! 0)),
            (l3 + 12, u32_to_ne_bytes (s6 ! 1)),
            (l3 + 16, u32_to_ne_bytes (s6 ! 2)),
            (l3 + 20, u32_to_ne_bytes (s6 ! 3)),
            (l3 + 24, u32_to_ne_bytes (d6 ! 0)),
            (l3 + 28, u32_to_ne_bytes (d6 ! 1)),
            (l3 + 32, u32_to_ne_bytes (d6 ! 2)),
            (l3 + 36, u32_to_ne_bytes (d6 ! 3))] (store_at H))"

definition write_ipv4_header ::
  "'p tc_helpers \<Rightarrow> u16 \<Rightarrow> u8 \<Rightarrow> u8 \<Rightarrow> u32 \<Rightarrow> u32 \<Rightarrow> u16 \<Rightarrow> ('p tc, unit) act" where
  "write_ipv4_header H total_len ttl protocol src_raw dst_raw csum =
     (let l3 = ETH_LEN in
      forM [(l3, [0x45]),
            (l3 + 1, [0]),
            (l3 + 2, u16_to_ne_bytes (u16_to_be total_len)),
            (l3 + 4, u16_to_ne_bytes 0),
            (l3 + 6, u16_to_ne_bytes (u16_to_be 0x4000)),
            (l3 + 8, [ttl]),
            (l3 + 9, [protocol]),
            (l3 + 10, u16_to_ne_bytes 0),
            (l3 + 12, u32_to_ne_bytes src_raw),
            (l3 + 16, u32_to_ne_bytes dst_raw),
            (l3 + 10, u16_to_ne_bytes (u16_to_be csum))] (store_at H))"

definition load_words :: "'p tc_helpers \<Rightarrow> nat \<Rightarrow> ('p tc, u32 list) act" where
  "load_words H off =
     bindM (load_u32 H off) (\<lambda>w0.
     bindM (load_u32 H (off + 4)) (\<lambda>w1.
     bindM (load_u32 H (off + 8)) (\<lambda>w2.
     bindM (load_u32 H (off + 12)) (\<lambda>w3.
     returnM [w0, w1, w2, w3]))))"

definition csum_off_in_l4 :: "u8 \<Rightarrow> nat" where
  "csum_off_in_l4 protocol = (if protocol = IPPROTO_TCP then TCP_CSUM_OFF else UDP_CSUM_OFF)"

section \<open>Pod translators\<close>

definition try_siit_in :: "'p tc_helpers \<Rightarrow> rodata \<Rightarrow> ('p tc, int) act" where
  "try_siit_in H R =
     bindM (load_u16 H 12) (\<lambda>etype.
     if etype \<noteq> u16_to_be ETH_P_IP then returnM TC_ACT_OK
     else
     bindM (load_u8 H ETH_LEN) (\<lambda>ver_ihl.
     if ver_ihl \<noteq> 0x45 then returnM TC_ACT_OK
     else
     bindM (load_u8 H (ETH_LEN + 9)) (\<lambda>protocol.
     if protocol \<noteq> IPPROTO_TCP \<and> protocol \<noteq> IPPROTO_UDP then returnM TC_ACT_OK
     else
     bindM (load_u32 H (ETH_LEN + 12)) (\<lambda>src_raw.
     bindM (load_u32 H (ETH_LEN + 16)) (\<lambda>dst_raw.
     let src_ip = u32_from_be src_raw; dst_ip = u32_from_be dst_raw in
     if src_ip \<noteq> MY_GUEST_IPV4 R then returnM TC_ACT_SHOT
     else
     let dst_ipv6 =
           (if MY_VPC_NETWORK R \<noteq> 0 \<and> (dst_ip AND MY_VPC_MASK R) = (MY_VPC_NETWORK R AND MY_VPC_MASK R)
            then construct_ghost_ipv6 (MY_PLATFORM_PREFIX R) (MY_CLUSTER_ID R) (MY_VPC_ID R) dst_ip
            else nat64_addr dst_ip);
         src_ipv6 = MY_GHOST_IPV6 R in
     bindM (load_u16 H (ETH_LEN + 2)) (\<lambda>len_raw.
     let payload_len = u16_from_be len_raw - of_nat IPV4_HDR_LEN in
     bindM (load_u8 H (ETH_LEN + 8)) (\<lambda>ttl.
     if ttl \<le> 1 then returnM TC_ACT_SHOT
     else
     bindM (load_u16 H (ETH_LEN + IPV4_HDR_LEN)) (\<lambda>src_port.
     bindM (on_skb (h_change_proto H ETH_P_IPV6)) (\<lambda>_.
     let s6 = addr_words src_ipv6; d6 = addr_words dst_ipv6 in
     bindM (write_ipv6_header H payload_len protocol (ttl - 1) s6 d6) (\<lambda>_.
     bindM (csum_4to6 H (ETH_LEN + IPV6_HDR_LEN + csum_off_in_l4 protocol) src_raw dst_raw s6 d6) (\<lambda>_.
     returnM TC_ACT_OK)))))))))))"

definition siit_in :: "'p tc_helpers \<Rightarrow> rodata \<Rightarrow> 'p tc \<Rightarrow> int \<times> 'p tc" where
  "siit_in H R = fail_open (try_siit_in H R)"

definition try_siit_out :: "'p tc_helpers \<Rightarrow> rodata \<Rightarrow> ('p tc, int) act" where
  "try_siit_out H R =
     bindM (load_u16 H 12) (\<lambda>etype.
     if etype \<noteq> u16_to_be ETH_P_IPV6 then returnM TC_ACT_OK
     else
     bindM (load_words H IPV6_DST_ADDR_OFF) (\<lambda>dst_v6_words.
     if dst_v6_words \<noteq> addr_words (MY_GHOST_IPV6 R) then returnM TC_ACT_OK
     else
     bindM (load_u16 H (ETH_LEN + 4)) (\<lambda>len_raw.
     let payload_len = u16_from_be len_raw in
     bindM (load_u8 H (ETH_LEN + 6)) (\<lambda>next_hdr.
     bindM (load_u8 H (ETH_LEN + 7)) (\<lambda>hop_limit.
     if next_hdr \<noteq> IPPROTO_TCP \<and> next_hdr \<noteq> IPPROTO_UDP then returnM TC_ACT_OK
     else
     bindM (load_words H IPV6_SRC_ADDR_OFF) (\<lambda>src_v6.
     let src_ipv4 = u32_from_be (src_v6 ! 3); dst_ipv4 = MY_GUEST_IPV4 R in
     bindM (on_skb (h_change_proto H ETH_P_IP)) (\<lambda>_.
     let total_len = payload_len + of_nat IPV4_HDR_LEN;
         src_raw = u32_to_be src_ipv4; dst_raw = u32_to_be dst_ipv4;
         csum = ipv4_hdr_csum total_len hop_limit next_hdr src_ipv4 dst_ipv4 in
     bindM (write_ipv4_header H total_len hop_limit next_hdr src_raw dst_raw csum) (\<lambda>_.
     bindM (csum_6to4 H (ETH_LEN + IPV4_HDR_LEN + csum_off_in_l4 next_hdr) src_v6 dst_v6_words src_raw dst_raw) (\<lambda>_.
     returnM TC_ACT_OK)))))))))"

definition siit_out :: "'p tc_helpers \<Rightarrow> rodata \<Rightarrow> 'p tc \<Rightarrow> int \<times> 'p tc" where
  "siit_out H R = fail_open (try_siit_out H R)"

section \<open>TAP guard\<close>

definition try_tap_guard :: "'p tc_helpers \<Rightarrow> rodata \<Rightarrow> ('p tc, int) act" where
  "try_tap_guard H R =
     bindM (load_u16 H 12) (\<lambda>etype.
     if etype \<noteq> u16_to_be ETH_P_IPV6 then returnM TC_ACT_SHOT
     else
     bindM (is_ghost_prefix H IPV6_SRC_ADDR_OFF) (\<lambda>ghost.
     if \<not> ghost then returnM TC_ACT_OK
     else
     bindM (load_words H IPV6_SRC_ADDR_OFF) (\<lambda>src.
     if src \<noteq> addr_words (MY_GHOST_IPV6 R) then returnM TC_ACT_SHOT
     else returnM TC_ACT_OK)))"

definition tap_guard :: "'p tc_helpers \<Rightarrow> rodata \<Rightarrow> 'p tc \<Rightarrow> int \<times> 'p tc" where
  "tap_guard H R = fail_open (try_tap_guard H R)"

section \<open>NAT64\<close>

definition set_conntrack :: "'p tc_helpers \<Rightarrow> Nat64Key \<Rightarrow> ipv6 \<Rightarrow> ('p tc, unit) act" where
  "set_conntrack H k v s =
     (case h_lru_insert H (NAT64_CONNTRACK s) k v of
        Inl e \<Rightarrow> (Inl e, s)
      | Inr ct \<Rightarrow> (Inr (), s\<lparr>NAT64_CONNTRACK := ct\<rparr>))"

definition try_nat64_egress :: "'p tc_helpers \<Rightarrow> ('p tc, int) act" where
  "try_nat64_egress H =
     bindM (load_u16 H 12) (\<lambda>etype.
     if etype \<noteq> u16_to_be ETH_P_IPV6 then returnM TC_ACT_OK
     else
     bindM (load_u32 H IPV6_DST_ADDR_OFF) (\<lambda>d0.
     if d0 \<noteq> u32_to_be NAT64_PREFIX_U32 then returnM TC_ACT_OK
     else
     bindM (load_u32 H (IPV6_DST_ADDR_OFF + 4)) (\<lambda>d1.
     bindM (load_u32 H (IPV6_DST_ADDR_OFF + 8)) (\<lambda>d2.
     if d1 \<noteq> 0 \<or> d2 \<noteq> 0 then returnM TC_ACT_OK
     else
     bindM (load_u32 H (IPV6_DST_ADDR_OFF + 12)) (\<lambda>d3.
     let dst_ipv4 = u32_from_be d3 in
     bindM (load_u16 H (ETH_LEN + 4)) (\<lambda>len_raw.
     let payload_len = u16_from_be len_raw in
     bindM (load_u8 H (ETH_LEN + 6)) (\<lambda>next_hdr.
     bindM (load_u8 H (ETH_LEN + 7)) (\<lambda>hop_limit.
     if next_hdr \<noteq> IPPROTO_TCP \<and> next_hdr \<noteq> IPPROTO_UDP then returnM TC_ACT_OK
     else if payload_len = 0 then returnM TC_ACT_OK
     else
     bindM (load_words H IPV6_SRC_ADDR_OFF) (\<lambda>src_v6.
     let src_ipv6 = concat (map u32_to_ne_bytes src_v6); l4 = ETH_LEN + IPV6_HDR_LEN in
     bindM (load_u16 H l4) (\<lambda>sp.
     bindM (load_u16 H (l4 + 2)) (\<lambda>dp.
     bindM (getM NAT64_CONFIG) (\<lambda>config.
     bindM (liftR (ok_or config ''NAT64_CONFIG'')) (\<lambda>cfg.
     let ct_key = \<lparr> Nat64Key_protocol = next_hdr, Nat64Key_src_port = u16_from_be sp,
                    Nat64Key_dst_ipv4 = dst_ipv4, Nat64Key_dst_port = u16_from_be dp \<rparr> in
     bindM (set_conntrack H ct_key src_ipv6) (\<lambda>_.
     bindM (on_skb (h_change_proto H ETH_P_IP)) (\<lambda>_.
     let total_len = payload_len + of_nat IPV4_HDR_LEN; node_raw = u32_to_be (Nat64Config_node_ipv4 cfg);
         csum = ipv4_hdr_csum total_len hop_limit next_hdr (Nat64Config_node_ipv4 cfg) dst_ipv4 in
     bindM (write_ipv4_header H total_len hop_limit next_hdr node_raw d3 csum) (\<lambda>_.
     bindM (csum_6to4 H (ETH_LEN + IPV4_HDR_LEN + csum_off_in_l4 next_hdr) src_v6 [d0, d1, d2, d3] node_raw d3) (\<lambda>_.
     returnM (h_redirect H (Nat64Config_phys_ifindex cfg)))))))))))))))))))"

definition nat64_egress :: "'p tc_helpers \<Rightarrow> 'p tc \<Rightarrow> int \<times> 'p tc" where
  "nat64_egress H = fail_open (try_nat64_egress H)"

definition try_nat64_ingress :: "'p tc_helpers \<Rightarrow> ('p tc, int) act" where
  "try_nat64_ingress H =
     bindM (load_u16 H 12) (\<lambda>etype.
     if etype \<noteq> u16_to_be ETH_P_IP then returnM TC_ACT_OK
     else
     bindM (load_u8 H ETH_LEN) (\<lambda>ver_ihl.
     if ver_ihl \<noteq> 0x45 then returnM TC_ACT_OK
     else
     bindM (load_u8 H (ETH_LEN + 9)) (\<lambda>protocol.
     if protocol \<noteq> IPPROTO_TCP \<and> protocol \<noteq> IPPROTO_UDP then returnM TC_ACT_OK
     else
     bindM (load_u32 H (ETH_LEN + 12)) (\<lambda>src_raw.
     bindM (load_u32 H (ETH_LEN + 16)) (\<lambda>dst_raw.
     let src_ip = u32_from_be src_raw; dst_ip = u32_from_be dst_raw in
     bindM (getM NAT64_CONFIG) (\<lambda>config.
     bindM (liftR (ok_or config ''NAT64_CONFIG'')) (\<lambda>cfg.
     if dst_ip \<noteq> Nat64Config_node_ipv4 cfg then returnM TC_ACT_OK
     else
     let l4 = ETH_LEN + IPV4_HDR_LEN in
     bindM (load_u16 H l4) (\<lambda>sp.
     bindM (load_u16 H (l4 + 2)) (\<lambda>dp.
     let ct_key = \<lparr> Nat64Key_protocol = protocol, Nat64Key_src_port = u16_from_be dp,
                    Nat64Key_dst_ipv4 = src_ip, Nat64Key_dst_port = u16_from_be sp \<rparr> in
     bindM (getM NAT64_CONNTRACK) (\<lambda>conntrack.
     bindM (liftR (ok_or (conntrack ct_key) ''NAT64_CONNTRACK'')) (\<lambda>pod_ipv6.
     bindM (load_u16 H (ETH_LEN + 2)) (\<lambda>len_raw.
     let payload_len = u16_from_be len_raw - of_nat IPV4_HDR_LEN in
     bindM (load_u8 H (ETH_LEN + 8)) (\<lambda>ttl.
     let s6 = addr_words (nat64_addr src_ip); d6 = addr_words pod_ipv6 in
     bindM (on_skb (h_change_proto H ETH_P_IPV6)) (\<lambda>_.
     bindM (write_ipv6_header H payload_len protocol ttl s6 d6) (\<lambda>_.
     bindM (csum_4to6 H (ETH_LEN + IPV6_HDR_LEN + csum_off_in_l4 protocol) src_raw dst_raw s6 d6) (\<lambda>_.
     bindM (getM ENDPOINTS) (\<lambda>endpoints.
     case endpoints pod_ipv6 of
       Some nk_ifindex \<Rightarrow> returnM (h_redirect_peer H nk_ifindex)
     | None \<Rightarrow> returnM TC_ACT_OK)))))))))))))))))"

definition nat64_ingress :: "'p tc_helpers \<Rightarrow> 'p tc \<Rightarrow> int \<times> 'p tc" where
  "nat64_ingress H = fail_open (try_nat64_ingress H)"

end
