(* ===== verification/Ebpf_Isolation.thy ===== *)
theory Ebpf_Isolation
  imports Ebpf_Programs
begin

text \<open>
  VPC isolation on the data path: what \<open>enforce_v6\<close>, the egress and ingress classifiers and the TAP
  guard decide, as functions of the packet bytes and the peering map, for every kernel that keeps
  the promises of \<open>tc_kernel\<close>.
\<close>

section \<open>The decision\<close>

definition etype_of :: "bytes \<Rightarrow> bytes" where
  "etype_of b = bytes_at b 12 2"

definition src6_of :: "bytes \<Rightarrow> ipv6" where
  "src6_of b = bytes_at b 22 16"

definition dst6_of :: "bytes \<Rightarrow> ipv6" where
  "dst6_of b = bytes_at b 38 16"

definition ghost_addr :: "ipv6 \<Rightarrow> bool" where
  "ghost_addr a \<longleftrightarrow> bytes_at a 0 4 = u32_to_be_bytes GHOST_PREFIX"

definition vpc_of :: "ipv6 \<Rightarrow> u16" where
  "vpc_of a = u16_from_be_bytes (bytes_at a 10 2)"

definition may_talk :: "(PeeringKey \<rightharpoonup> u32) \<Rightarrow> u16 \<Rightarrow> u16 \<Rightarrow> bool" where
  "may_talk P s d \<longleftrightarrow> s = 0 \<or> d = 0 \<or> s = d \<or>
     (\<exists>allowed. P \<lparr> src_vpc_id = s, dst_vpc_id = d \<rparr> = Some allowed \<and> allowed \<noteq> 0)"

definition passes :: "(PeeringKey \<rightharpoonup> u32) \<Rightarrow> bytes \<Rightarrow> bool" where
  "passes P b \<longleftrightarrow> etype_of b \<noteq> u16_to_be_bytes ETH_P_IPV6 \<or> \<not> ghost_addr (dst6_of b) \<or>
     (ghost_addr (src6_of b) \<and> may_talk P (vpc_of (src6_of b)) (vpc_of (dst6_of b)))"

lemmas offset_defs = IPV6_SRC_ADDR_OFF_def IPV6_DST_ADDR_OFF_def ETH_LEN_def

context tc_kernel
begin

lemma etype_test:
  "14 \<le> length (pkt s) \<Longrightarrow> load_u16 H 12 s = (Inr (u16_from_ne_bytes (etype_of (pkt s))), s)"
  "14 \<le> length (pkt s) \<Longrightarrow> u16_from_ne_bytes (etype_of (pkt s)) = u16_to_be x \<longleftrightarrow> etype_of (pkt s) = u16_to_be_bytes x"
  by (simp_all add: load_u16_ok etype_of_def u16_from_ne_eq)

lemma is_ghost_prefix_ok:
  "off + 4 \<le> length (pkt s) \<Longrightarrow>
     is_ghost_prefix H off s = (Inr (bytes_at (pkt s) off 4 = u32_to_be_bytes GHOST_PREFIX), s)"
  by (simp add: is_ghost_prefix_def bindM_step [OF load_u32_ok] returnM_def u32_from_ne_eq)

lemma extract_vpc_id_ok:
  "off + 12 \<le> length (pkt s) \<Longrightarrow>
     extract_vpc_id H off s = (Inr (u16_from_be_bytes (bytes_at (pkt s) (off + 10) 2)), s)"
  by (simp add: extract_vpc_id_def bindM_step [OF load_u16_ok] returnM_def u16_from_be_from_ne)

lemma src_ghost: "54 \<le> length (pkt s) \<Longrightarrow>
    is_ghost_prefix H IPV6_SRC_ADDR_OFF s = (Inr (ghost_addr (src6_of (pkt s))), s)"
  and dst_ghost: "54 \<le> length (pkt s) \<Longrightarrow>
    is_ghost_prefix H IPV6_DST_ADDR_OFF s = (Inr (ghost_addr (dst6_of (pkt s))), s)"
  and src_vpc: "54 \<le> length (pkt s) \<Longrightarrow>
    extract_vpc_id H IPV6_SRC_ADDR_OFF s = (Inr (vpc_of (src6_of (pkt s))), s)"
  and dst_vpc: "54 \<le> length (pkt s) \<Longrightarrow>
    extract_vpc_id H IPV6_DST_ADDR_OFF s = (Inr (vpc_of (dst6_of (pkt s))), s)"
  by (simp_all add: is_ghost_prefix_ok extract_vpc_id_ok offset_defs ghost_addr_def vpc_of_def
      src6_of_def dst6_of_def bytes_at_bytes_at)

lemma enforce_v6_ok:
  assumes "54 \<le> length (pkt s)"
  shows "enforce_v6 H s = (Inr (if passes (PEERINGS s) (pkt s) then TC_ACT_OK else TC_ACT_SHOT), s)"
proof (cases "etype_of (pkt s) = u16_to_be_bytes ETH_P_IPV6")
  case False
  then show ?thesis
    using assms by (simp add: enforce_v6_def bindM_step [OF etype_test(1)] etype_test(2) passes_def returnM_def)
next
  case True
  have 1: "enforce_v6 H s = (if \<not> ghost_addr (src6_of (pkt s)) \<and> ghost_addr (dst6_of (pkt s)) then (Inr TC_ACT_SHOT, s)
     else if \<not> ghost_addr (src6_of (pkt s)) \<or> \<not> ghost_addr (dst6_of (pkt s)) then (Inr TC_ACT_OK, s)
     else bindM (extract_vpc_id H IPV6_SRC_ADDR_OFF) (\<lambda>src_vpc.
     bindM (extract_vpc_id H IPV6_DST_ADDR_OFF) (\<lambda>dst_vpc.
     if src_vpc = 0 \<or> dst_vpc = 0 then returnM TC_ACT_OK
     else if src_vpc = dst_vpc then returnM TC_ACT_OK
     else
     bindM (getM PEERINGS) (\<lambda>peerings.
     case peerings \<lparr> src_vpc_id = src_vpc, dst_vpc_id = dst_vpc \<rparr> of
       Some allowed \<Rightarrow> if allowed \<noteq> 0 then returnM TC_ACT_OK else returnM TC_ACT_SHOT
     | None \<Rightarrow> returnM TC_ACT_SHOT))) s)"
    using True assms
    by (simp add: enforce_v6_def bindM_step [OF etype_test(1)] u16_to_be_def bindM_step [OF src_ghost]
        bindM_step [OF dst_ghost] returnM_def)
  show ?thesis
    unfolding 1 using True assms
    by (auto simp: bindM_step [OF src_vpc] bindM_step [OF dst_vpc] passes_def may_talk_def returnM_def
        bindM_get split: option.splits)
qed

lemma read_ipv6_addr_ok:
  assumes "off + 16 \<le> length (pkt s)"
  shows "read_ipv6_addr H off s = (Inr (bytes_at (pkt s) off 16), s)"
proof -
  have "bytes_at (pkt s) off 16 = bytes_at (pkt s) off 4 @ bytes_at (pkt s) (off + 4) 4 @
      bytes_at (pkt s) (off + 8) 4 @ bytes_at (pkt s) (off + 12) 4"
    using bytes_at_append [of "pkt s" off 4 12] bytes_at_append [of "pkt s" "off + 4" 4 8]
      bytes_at_append [of "pkt s" "off + 8" 4 4] by (simp add: add.assoc)
  then show ?thesis
    using assms by (simp add: read_ipv6_addr_def bindM_step [OF load_u32_ok] returnM_def u32_to_from_ne)
qed

text \<open>The guard compares words; equal words are equal bytes.\<close>

lemma load_words_ok:
  assumes "off + 16 \<le> length (pkt s)"
  shows "load_words H off s = (Inr (addr_words (bytes_at (pkt s) off 16)), s)"
proof -
  have nth: "bytes_at (pkt s) off 16 ! k = pkt s ! (off + k)" if "k < 16" for k
    using assms that by (simp add: bytes_at_def)
  have four: "bytes_at (pkt s) o' 4 = [pkt s ! o', pkt s ! (o' + 1), pkt s ! (o' + 2), pkt s ! (o' + 3)]"
    if "o' + 4 \<le> length (pkt s)" for o'
    using that by (intro nth_equalityI) (auto simp: bytes_at_def less_Suc_eq numeral_nat nth_Cons')
  show ?thesis
    using assms
    by (simp add: load_words_def bindM_step [OF load_u32_ok] returnM_def addr_words_def nth four ac_simps)
qed

end

lemma concat_addr_words: "length a = 16 \<Longrightarrow> concat (map u32_to_ne_bytes (addr_words a)) = a"
proof -
  assume "length a = 16"
  then have "a = [a ! 0, a ! 1, a ! 2, a ! 3, a ! 4, a ! 5, a ! 6, a ! 7,
      a ! 8, a ! 9, a ! 10, a ! 11, a ! 12, a ! 13, a ! 14, a ! 15]" by (rule length_16_split)
  moreover have "concat (map u32_to_ne_bytes (addr_words a)) = [a ! 0, a ! 1, a ! 2, a ! 3, a ! 4, a ! 5,
      a ! 6, a ! 7, a ! 8, a ! 9, a ! 10, a ! 11, a ! 12, a ! 13, a ! 14, a ! 15]"
    by (simp add: addr_words_def u32_to_from_ne)
  ultimately show ?thesis by simp
qed

lemma addr_words_inject: "length a = 16 \<Longrightarrow> length b = 16 \<Longrightarrow> addr_words a = addr_words b \<longleftrightarrow> a = b"
  by (metis concat_addr_words)

context tc_kernel
begin

lemma try_tap_guard_ok:
  assumes "54 \<le> length (pkt s)" "length (MY_GHOST_IPV6 R) = 16"
  shows "try_tap_guard H R s =
    (Inr (if etype_of (pkt s) \<noteq> u16_to_be_bytes ETH_P_IPV6 then TC_ACT_SHOT
          else if ghost_addr (src6_of (pkt s)) \<and> src6_of (pkt s) \<noteq> MY_GHOST_IPV6 R then TC_ACT_SHOT
          else TC_ACT_OK), s)"
proof -
  have words: "load_words H IPV6_SRC_ADDR_OFF s = (Inr (addr_words (src6_of (pkt s))), s)"
    using assms by (simp add: load_words_ok offset_defs src6_of_def)
  have "addr_words (src6_of (pkt s)) = addr_words (MY_GHOST_IPV6 R) \<longleftrightarrow> src6_of (pkt s) = MY_GHOST_IPV6 R"
    using assms by (intro addr_words_inject) (simp_all add: src6_of_def)
  then show ?thesis
    using assms
    by (simp add: try_tap_guard_def bindM_step [OF etype_test(1)] etype_test(2) bindM_step [OF src_ghost]
        bindM_step [of "load_words H IPV6_SRC_ADDR_OFF", OF words] returnM_def)
qed

end

section \<open>Properties\<close>

lemma ghost_addr_construct: "ghost_addr (construct GHOST_PREFIX c v ip)"
  by (simp add: ghost_addr_def bytes_at_def construct_def Let_def)

lemma vpc_of_construct [simp]: "vpc_of (construct p c v ip) = v"
  by (simp add: vpc_of_def bytes_at_def construct_def Let_def)

text \<open>A frame with these addresses, and the state of a node with one peering, from VPC 5 to VPC 6.\<close>

definition frame_v6 :: "ipv6 \<Rightarrow> ipv6 \<Rightarrow> bytes" where
  "frame_v6 src dst = replicate 12 0 @ [0x86, 0xDD] @ replicate 8 0 @ src @ dst"

definition node_state :: "bytes \<Rightarrow> bytes tc" where
  "node_state b = \<lparr> PEERINGS = [\<lparr> src_vpc_id = 5, dst_vpc_id = 6 \<rparr> \<mapsto> 1], ENDPOINTS = Map.empty,
     NAT64_CONNTRACK = Map.empty, NAT64_CONFIG = None, skb = b \<rparr>"

lemma frame_v6_fields:
  assumes "length src = 16" "length dst = 16"
  shows "length (frame_v6 src dst) = 54" "etype_of (frame_v6 src dst) = u16_to_be_bytes ETH_P_IPV6"
    "src6_of (frame_v6 src dst) = src" "dst6_of (frame_v6 src dst) = dst"
  using assms
  by (simp_all add: frame_v6_def etype_of_def src6_of_def dst6_of_def bytes_at_def u16_to_be_bytes_def
      ETH_P_IPV6_def)

text \<open>C9: the host-side classifier isolates VPCs. On a packet with a full IPv6 header it drops every IPv6
  packet to a Ghost address whose source is not a Ghost address, or is one of another VPC (neither
  being the infrastructure VPC 0) that the peering map does not allow to talk to the destination's;
  it passes every other packet and changes nothing.\<close>

theorem vpc_isolation:
  assumes "tc_kernel H view" and "54 \<le> length (view (skb s))"
  shows "tc_egress_v6 H s = (if passes (PEERINGS s) (view (skb s)) then TC_ACT_OK else TC_ACT_SHOT, s)"
  using tc_kernel.enforce_v6_ok [OF assms] by (simp add: tc_egress_v6_def fail_open_def)

theorem vpc_isolation_witness:
  "tc_egress_v6 mem_helpers (node_state (frame_v6 (construct GHOST_PREFIX 1 5 10) (construct GHOST_PREFIX 1 6 20)))
     = (TC_ACT_OK, node_state (frame_v6 (construct GHOST_PREFIX 1 5 10) (construct GHOST_PREFIX 1 6 20))) \<and>
   tc_egress_v6 mem_helpers (node_state (frame_v6 (construct GHOST_PREFIX 1 6 20) (construct GHOST_PREFIX 1 5 10)))
     = (TC_ACT_SHOT, node_state (frame_v6 (construct GHOST_PREFIX 1 6 20) (construct GHOST_PREFIX 1 5 10)))"
  using vpc_isolation [OF memtc.tc_kernel_axioms, of "node_state (frame_v6 (construct GHOST_PREFIX 1 5 10) (construct GHOST_PREFIX 1 6 20))"]
    vpc_isolation [OF memtc.tc_kernel_axioms, of "node_state (frame_v6 (construct GHOST_PREFIX 1 6 20) (construct GHOST_PREFIX 1 5 10))"]
  by (simp add: node_state_def frame_v6_fields passes_def may_talk_def ghost_addr_construct)

text \<open>Delivery on the node respects isolation: the ingress classifier redirects a packet into a local
  pod only when \<open>passes\<close> holds, the destination is a Ghost address, and the endpoint map has exactly
  that address; otherwise it drops the packet or leaves it to routing.\<close>

theorem ingress_delivery:
  assumes "tc_kernel H view" and "54 \<le> length (view (skb s))"
  shows "tc_ingress_v6 H s =
    (if \<not> passes (PEERINGS s) (view (skb s)) then (TC_ACT_SHOT, s)
     else if etype_of (view (skb s)) = u16_to_be_bytes ETH_P_IPV6 \<and> ghost_addr (dst6_of (view (skb s)))
     then (case ENDPOINTS s (dst6_of (view (skb s))) of
             Some nk \<Rightarrow> (h_redirect_peer H nk, s) | None \<Rightarrow> (TC_ACT_OK, s))
     else (TC_ACT_OK, s))"
proof -
  note enf = tc_kernel.enforce_v6_ok [OF assms]
  have l14: "14 \<le> length (view (skb s))" using assms(2) by simp
  note ety = tc_kernel.etype_test [OF assms(1) l14]
  note gh = tc_kernel.dst_ghost [OF assms]
  have addr: "read_ipv6_addr H IPV6_DST_ADDR_OFF s = (Inr (dst6_of (view (skb s))), s)"
    using tc_kernel.read_ipv6_addr_ok [OF assms(1), of IPV6_DST_ADDR_OFF s] assms(2)
    by (simp add: offset_defs dst6_of_def)
  show ?thesis
    by (simp add: tc_ingress_v6_def fail_open_def try_tc_ingress_v6_def bindM_def enf ety gh addr
        returnM_def getM_def TC_ACT_OK_def TC_ACT_SHOT_def split: option.splits)
qed

theorem ingress_delivery_witness:
  "tc_ingress_v6 mem_helpers ((node_state (frame_v6 (construct GHOST_PREFIX 1 5 10) (construct GHOST_PREFIX 1 5 20)))
       \<lparr> ENDPOINTS := [construct GHOST_PREFIX 1 5 20 \<mapsto> 42] \<rparr>) =
     (7, (node_state (frame_v6 (construct GHOST_PREFIX 1 5 10) (construct GHOST_PREFIX 1 5 20)))
       \<lparr> ENDPOINTS := [construct GHOST_PREFIX 1 5 20 \<mapsto> 42] \<rparr>)"
  using ingress_delivery [OF memtc.tc_kernel_axioms, of "(node_state (frame_v6 (construct GHOST_PREFIX 1 5 10) (construct GHOST_PREFIX 1 5 20)))
       \<lparr> ENDPOINTS := [construct GHOST_PREFIX 1 5 20 \<mapsto> 42] \<rparr>"]
  by (simp add: node_state_def frame_v6_fields passes_def may_talk_def ghost_addr_construct mem_helpers_def)

text \<open>C10: the TAP guard stops a VM from spoofing: of the packets with a full IPv6 header, those that are
  not IPv6 are dropped, and those with a Ghost source pass exactly when it is the VM's own Ghost
  address.\<close>

theorem tap_guard_no_spoofing:
  assumes "tc_kernel H view" and "54 \<le> length (view (skb s))" and "length (MY_GHOST_IPV6 R) = 16"
  shows "tap_guard H R s =
    (if etype_of (view (skb s)) \<noteq> u16_to_be_bytes ETH_P_IPV6 then TC_ACT_SHOT
     else if ghost_addr (src6_of (view (skb s))) \<and> src6_of (view (skb s)) \<noteq> MY_GHOST_IPV6 R then TC_ACT_SHOT
     else TC_ACT_OK, s)"
  using tc_kernel.try_tap_guard_ok [OF assms] by (simp add: tap_guard_def fail_open_def)

definition vm_rodata :: rodata where
  "vm_rodata = \<lparr> MY_GHOST_IPV6 = construct GHOST_PREFIX 1 5 10, MY_GUEST_IPV4 = 10, MY_VPC_ID = 5,
     MY_VPC_NETWORK = 0, MY_VPC_MASK = 0, MY_PLATFORM_PREFIX = GHOST_PREFIX, MY_CLUSTER_ID = 1 \<rparr>"

theorem tap_guard_no_spoofing_witness:
  "fst (tap_guard mem_helpers vm_rodata (node_state (frame_v6 (construct GHOST_PREFIX 1 6 10) (construct GHOST_PREFIX 1 5 20))))
     = TC_ACT_SHOT"
  using tap_guard_no_spoofing [OF memtc.tc_kernel_axioms, of "node_state (frame_v6 (construct GHOST_PREFIX 1 6 10) (construct GHOST_PREFIX 1 5 20))" vm_rodata]
  by (simp add: node_state_def frame_v6_fields vm_rodata_def ghost_addr_construct construct_inject)

end
