(* ===== verification/Ebpf_Translation.thy ===== *)
theory Ebpf_Translation
  imports Ebpf_Isolation
begin

text \<open>
  The translators: what a successful run of \<open>siit_in\<close>, \<open>siit_out\<close> and the NAT64 programs does to the
  bytes of the packet, the correctness of the IPv4 header checksum, and the round trip of a packet
  from one pod to another of the same VPC.
\<close>

section \<open>Consecutive stores\<close>

lemma patch_append:
  "off + length xs + length ys \<le> length b \<Longrightarrow> patch (patch b off xs) (off + length xs) ys = patch b off (xs @ ys)"
  by (simp add: patch_def ac_simps)

lemma patch_again: "off + length xs \<le> length b \<Longrightarrow> length ys = length xs \<Longrightarrow> patch (patch b off xs) off ys = patch b off ys"
  by (simp add: patch_def)

lemma patch_inside:
  assumes "off + length (xs @ ys @ zs) \<le> length b" "length ys' = length ys"
  shows "patch (patch b off (xs @ ys @ zs)) (off + length xs) ys' = patch b off (xs @ ys' @ zs)"
  using assms by (simp add: patch_def ac_simps)

lemma patch_suffix: "length xs \<le> n \<Longrightarrow> patch (xs @ ys) n zs = xs @ patch ys (n - length xs) zs"
  by (simp add: patch_def)

fun at_offsets :: "nat \<Rightarrow> bytes list \<Rightarrow> (nat \<times> bytes) list" where
  "at_offsets base [] = []"
| "at_offsets base (bs # bss) = (base, bs) # at_offsets (base + length bs) bss"

definition ipv6_header :: "u16 \<Rightarrow> u8 \<Rightarrow> u8 \<Rightarrow> ipv6 \<Rightarrow> ipv6 \<Rightarrow> bytes" where
  "ipv6_header payload_len next_hdr hop_limit src dst =
     u32_to_be_bytes 0x60000000 @ u16_to_be_bytes payload_len @ [next_hdr, hop_limit] @ src @ dst"

definition ipv4_header :: "u16 \<Rightarrow> u8 \<Rightarrow> u8 \<Rightarrow> u16 \<Rightarrow> u32 \<Rightarrow> u32 \<Rightarrow> bytes" where
  "ipv4_header total_len ttl protocol csum src dst =
     [0x45, 0] @ u16_to_be_bytes total_len @ [0, 0] @ u16_to_be_bytes 0x4000 @ [ttl, protocol] @
     u16_to_be_bytes csum @ u32_to_be_bytes src @ u32_to_be_bytes dst"

lemma length_headers [simp]:
  "length src = 16 \<Longrightarrow> length dst = 16 \<Longrightarrow> length (ipv6_header l n h src dst) = 40"
  "length (ipv4_header l t p c s d) = 20"
  by (simp_all add: ipv6_header_def ipv4_header_def)

lemma u16_ne_zero [simp]: "u16_to_ne_bytes 0 = [0, 0]"
  by (simp add: u16_to_ne_bytes_def u16_to_be_bytes_def)

text \<open>Everything of the state but the packet.\<close>

definition same_maps :: "'p tc \<Rightarrow> 'p tc \<Rightarrow> bool" where
  "same_maps s t \<longleftrightarrow> t = s\<lparr>skb := skb t\<rparr>"

lemma same_maps_refl [simp]: "same_maps s s"
  by (simp add: same_maps_def)

lemma same_maps_trans: "same_maps s t \<Longrightarrow> same_maps t u \<Longrightarrow> same_maps s u"
  by (cases s; cases t; cases u) (simp add: same_maps_def)

lemma same_mapsD:
  assumes "same_maps s t"
  shows "PEERINGS t = PEERINGS s" "ENDPOINTS t = ENDPOINTS s" "NAT64_CONNTRACK t = NAT64_CONNTRACK s"
    "NAT64_CONFIG t = NAT64_CONFIG s"
  using assms by (cases s; cases t; simp add: same_maps_def)+

context tc_kernel
begin

lemma on_skb_maps: "on_skb m s = (r, t) \<Longrightarrow> same_maps s t"
  by (auto simp: on_skb_def same_maps_def split: prod.splits)

lemma on_skb_store:
  assumes "on_skb (h_store H off bs) s = (Inr u, t)"
  shows "off + length bs \<le> length (pkt s)" "pkt t = patch (pkt s) off bs" "same_maps s t"
  using assms store_ok on_skb_maps [OF assms] by (auto simp: on_skb_def split: prod.splits)

text \<open>A run of stores at consecutive offsets is one store of the concatenation.\<close>

lemma store_run:
  "forM (at_offsets base bss) (store_at H) s = (Inr u, t) \<Longrightarrow> base \<le> length (pkt s) \<Longrightarrow>
     same_maps s t \<and> base + length (concat bss) \<le> length (pkt s) \<and> pkt t = patch (pkt s) base (concat bss)"
proof (induction bss arbitrary: base s)
  case Nil
  then show ?case by (simp add: returnM_def patch_def)
next
  case (Cons bs bss)
  then obtain v s1 where st: "on_skb (h_store H base bs) s = (Inr v, s1)"
    and rest: "forM (at_offsets (base + length bs) bss) (store_at H) s1 = (Inr u, t)"
    by (auto simp: bindM_Inr store_at_def)
  note one = on_skb_store [OF st]
  have len: "length (pkt s1) = length (pkt s)" using one by simp
  note IH = Cons.IH [OF rest]
  have "pkt t = patch (patch (pkt s) base bs) (base + length bs) (concat bss)"
    using IH one len by simp
  also have "\<dots> = patch (pkt s) base (bs @ concat bss)"
    using IH one len by (intro patch_append) simp
  finally show ?case using IH one len same_maps_trans [OF one(3)] by simp
qed

lemma write_ipv6_header_ok:
  assumes "write_ipv6_header H l n h (addr_words src) (addr_words dst) s = (Inr u, t)"
    and "length src = 16" "length dst = 16" "14 \<le> length (pkt s)"
  shows "same_maps s t" "54 \<le> length (pkt s)" "pkt t = patch (pkt s) 14 (ipv6_header l n h src dst)"
proof -
  let ?bss = "[u32_to_be_bytes 0x60000000, u16_to_be_bytes l, [n], [h]] @
    map u32_to_ne_bytes (addr_words src) @ map u32_to_ne_bytes (addr_words dst)"
  have cat: "concat ?bss = ipv6_header l n h src dst"
    using concat_addr_words [OF assms(2)] concat_addr_words [OF assms(3)] by (simp add: ipv6_header_def)
  have "forM (at_offsets 14 ?bss) (store_at H) s = (Inr u, t)"
    using assms(1) by (simp add: write_ipv6_header_def Let_def ETH_LEN_def addr_words_def)
  from store_run [OF this assms(4), unfolded cat]
  show "same_maps s t" "54 \<le> length (pkt s)" "pkt t = patch (pkt s) 14 (ipv6_header l n h src dst)"
    using assms(2,3) by auto
qed

lemma write_ipv4_header_ok:
  assumes "write_ipv4_header H l ttl p (u32_to_be src) (u32_to_be dst) c s = (Inr u, t)"
    and "14 \<le> length (pkt s)"
  shows "same_maps s t" "34 \<le> length (pkt s)" "pkt t = patch (pkt s) 14 (ipv4_header l ttl p c src dst)"
proof -
  let ?xs = "[[0x45], [0], u16_to_be_bytes l, [0, 0], u16_to_be_bytes 0x4000, [ttl], [p]]"
  let ?zs = "[u32_to_be_bytes src, u32_to_be_bytes dst]"
  have "forM (at_offsets 14 (?xs @ [[0, 0]] @ ?zs) @ [(24, u16_to_be_bytes c)]) (store_at H) s = (Inr u, t)"
    using assms(1) by (simp add: write_ipv4_header_def Let_def ETH_LEN_def)
  then obtain v s1 where run: "forM (at_offsets 14 (?xs @ [[0, 0]] @ ?zs)) (store_at H) s = (Inr v, s1)"
    and "store_at H (24, u16_to_be_bytes c) s1 = (Inr u, t)"
    unfolding forM_snoc by (elim exE conjE)
  then have last: "on_skb (h_store H 24 (u16_to_be_bytes c)) s1 = (Inr u, t)" by (simp only: store_at_def prod.case)
  note r = store_run [OF run assms(2)]
  have len: "34 \<le> length (pkt s)" using r by simp
  have "pkt t = patch (patch (pkt s) 14 (concat ?xs @ [0, 0] @ concat ?zs)) (14 + length (concat ?xs)) (u16_to_be_bytes c)"
    using r on_skb_store(2) [OF last] by simp
  also have "\<dots> = patch (pkt s) 14 (concat ?xs @ u16_to_be_bytes c @ concat ?zs)"
    using len by (intro patch_inside) simp_all
  finally show "pkt t = patch (pkt s) 14 (ipv4_header l ttl p c src dst)" by (simp add: ipv4_header_def)
  show "same_maps s t" using r on_skb_store(3) [OF last] same_maps_trans by blast
  show "34 \<le> length (pkt s)" by (rule len)
qed

lemma csum_step_ok:
  assumes "csum_step H off x s = (Inr u, t)"
  shows "same_maps s t \<and> off + 2 \<le> length (pkt s) \<and> (\<exists>c. length c = 2 \<and> pkt t = patch (pkt s) off c)"
proof -
  obtain fr tt where x: "x = (fr, tt)" by (cases x)
  obtain r p' where h: "h_l4_csum_replace H off (ucast fr) (ucast tt) (BPF_F_PSEUDO_HDR OR 4) (skb s) = (r, p')"
    by (meson surj_pair)
  then have "r = Inr u" and t: "t = s\<lparr>skb := p'\<rparr>"
    using assms by (simp_all add: csum_step_def x on_skb_def)
  from csum_ok [OF h [unfolded \<open>r = Inr u\<close>]] show ?thesis by (auto simp: same_maps_def t)
qed

lemma csum_steps:
  "forM xs (csum_step H off) s = (Inr u, t) \<Longrightarrow> xs \<noteq> [] \<Longrightarrow>
     same_maps s t \<and> off + 2 \<le> length (pkt s) \<and> (\<exists>c. length c = 2 \<and> pkt t = patch (pkt s) off c)"
proof (induction xs arbitrary: s)
  case (Cons x xs)
  then obtain v s1 where one: "csum_step H off x s = (Inr v, s1)" and rest: "forM xs (csum_step H off) s1 = (Inr u, t)"
    by (auto simp: bindM_Inr)
  obtain c where c: "length c = 2" "off + 2 \<le> length (pkt s)" "pkt s1 = patch (pkt s) off c"
    and m: "same_maps s s1"
    using csum_step_ok [OF one] by blast
  show ?case
  proof (cases "xs = []")
    case True
    then show ?thesis using rest c m by (auto simp: returnM_def)
  next
    case False
    from Cons.IH [OF rest False] obtain d where d: "same_maps s1 t" "length d = 2" "pkt t = patch (pkt s1) off d"
      by blast
    then have "pkt t = patch (pkt s) off d" using c patch_again [of off c "pkt s" d] by simp
    then show ?thesis using c(2) d m same_maps_trans by blast
  qed
qed simp

text \<open>
  A pod's IPv4 packet that \<open>siit_in\<close> translates: the header fields it reads, and the packet it leaves.
\<close>

lemma ipv4_fields:
  assumes "34 \<le> length (pkt s)"
  shows "load_u8 H 14 s = (Inr (pkt s ! 14), s)" "load_u8 H 23 s = (Inr (pkt s ! 23), s)"
    "load_u8 H 22 s = (Inr (pkt s ! 22), s)"
    "load_u16 H 16 s = (Inr (u16_from_ne_bytes (bytes_at (pkt s) 16 2)), s)"
    "load_u32 H 26 s = (Inr (u32_from_ne_bytes (bytes_at (pkt s) 26 4)), s)"
    "load_u32 H 30 s = (Inr (u32_from_ne_bytes (bytes_at (pkt s) 30 4)), s)"
  using assms by (simp_all add: ETH_LEN_def load_u8_ok load_u16_ok load_u32_ok)

lemma ipv6_fields:
  assumes "54 \<le> length (pkt s)"
  shows "load_u8 H 20 s = (Inr (pkt s ! 20), s)" "load_u8 H 21 s = (Inr (pkt s ! 21), s)"
    "load_u16 H 18 s = (Inr (u16_from_ne_bytes (bytes_at (pkt s) 18 2)), s)"
    "load_words H 22 s = (Inr (addr_words (src6_of (pkt s))), s)"
    "load_words H 38 s = (Inr (addr_words (dst6_of (pkt s))), s)"
  using assms
  by (simp_all add: offset_defs load_u8_ok load_u16_ok load_words_ok src6_of_def dst6_of_def)

text \<open>Growing the header, writing it, fixing the checksum.\<close>

lemma grow_and_write:
  assumes proto: "on_skb (h_change_proto H ETH_P_IPV6) s = (Inr u, s1)"
    and hdr: "write_ipv6_header H l n h (addr_words src) (addr_words dst) s1 = (Inr v, s2)"
    and csum: "forM xs (csum_step H (54 + k)) s2 = (Inr w, t)" "xs \<noteq> []"
    and len: "length src = 16" "length dst = 16"
  shows "same_maps s t" "36 + k \<le> length (pkt s)" "take 12 (pkt t) = take 12 (pkt s)"
    "\<exists>c. length c = 2 \<and> drop 14 (pkt t) = ipv6_header l n h src dst @ patch (drop 34 (pkt s)) k c"
proof -
  obtain p' where p': "h_change_proto H ETH_P_IPV6 (skb s) = (Inr u, p')" "skb s1 = p'"
    using proto by (auto simp: on_skb_def split: prod.splits)
  note pr = proto_4_to_6 [OF p'(1), folded p'(2)]
  have "14 \<le> length (pkt s1)" using pr by simp
  note w = write_ipv6_header_ok [OF hdr len this]
  obtain c where c: "same_maps s2 t" "54 + k + 2 \<le> length (pkt s2)" "length c = 2"
    "pkt t = patch (pkt s2) (54 + k) c" using csum_steps [OF csum] by blast
  let ?h = "ipv6_header l n h src dst"
  have s2: "pkt s2 = take 14 (pkt s1) @ ?h @ drop 34 (pkt s)"
    using w pr len by (simp add: patch_def)
  have t: "pkt t = (take 14 (pkt s1) @ ?h) @ patch (drop 34 (pkt s)) k c"
    using c(4) w(2) len patch_suffix [of "take 14 (pkt s1) @ ?h" "54 + k" "drop 34 (pkt s)" c]
    by (simp add: s2)
  show "same_maps s t" using on_skb_maps [OF proto] w(1) c(1) same_maps_trans by blast
  show "36 + k \<le> length (pkt s)" using pr w(2,3) c(2) len by simp
  have "take 12 (take 14 (pkt s1)) = take 12 (pkt s1)" by simp
  then show "take 12 (pkt t) = take 12 (pkt s)" using pr w(2) by (simp add: t)
  show "\<exists>c. length c = 2 \<and> drop 14 (pkt t) = ?h @ patch (drop 34 (pkt s)) k c"
    using c(3) w(2) by (intro exI [of _ c]) (simp add: t)
qed

lemma shrink_and_write:
  assumes proto: "on_skb (h_change_proto H ETH_P_IP) s = (Inr u, s1)"
    and hdr: "write_ipv4_header H l ttl p (u32_to_be src) (u32_to_be dst) cs s1 = (Inr v, s2)"
    and csum: "forM xs (csum_step H (34 + k)) s2 = (Inr w, t)" "xs \<noteq> []"
  shows "same_maps s t" "56 + k \<le> length (pkt s)" "take 12 (pkt t) = take 12 (pkt s)"
    "\<exists>c. length c = 2 \<and> drop 14 (pkt t) = ipv4_header l ttl p cs src dst @ patch (drop 54 (pkt s)) k c"
proof -
  obtain p' where p': "h_change_proto H ETH_P_IP (skb s) = (Inr u, p')" "skb s1 = p'"
    using proto by (auto simp: on_skb_def split: prod.splits)
  note pr = proto_6_to_4 [OF p'(1), folded p'(2)]
  have "14 \<le> length (pkt s1)" using pr by simp
  note w = write_ipv4_header_ok [OF hdr this]
  obtain c where c: "same_maps s2 t" "34 + k + 2 \<le> length (pkt s2)" "length c = 2"
    "pkt t = patch (pkt s2) (34 + k) c" using csum_steps [OF csum] by blast
  let ?h = "ipv4_header l ttl p cs src dst"
  have s2: "pkt s2 = take 14 (pkt s1) @ ?h @ drop 54 (pkt s)"
    using w pr by (simp add: patch_def)
  have t: "pkt t = (take 14 (pkt s1) @ ?h) @ patch (drop 54 (pkt s)) k c"
    using c(4) w(2) patch_suffix [of "take 14 (pkt s1) @ ?h" "34 + k" "drop 54 (pkt s)" c]
    by (simp add: s2)
  show "same_maps s t" using on_skb_maps [OF proto] w(1) c(1) same_maps_trans by blast
  show "56 + k \<le> length (pkt s)" using pr w(2,3) c(2) by simp
  have "take 12 (take 14 (pkt s1)) = take 12 (pkt s1)" by simp
  then show "take 12 (pkt t) = take 12 (pkt s)" using pr w(2) by (simp add: t)
  show "\<exists>c. length c = 2 \<and> drop 14 (pkt t) = ?h @ patch (drop 54 (pkt s)) k c"
    using c(3) w(2) by (intro exI [of _ c]) (simp add: t)
qed

end

section \<open>The pod translators\<close>

definition ip4_len :: "bytes \<Rightarrow> u16" where
  "ip4_len b = u16_from_be_bytes (bytes_at b 16 2)"

definition ip4_src :: "bytes \<Rightarrow> u32" where
  "ip4_src b = u32_from_be_bytes (bytes_at b 26 4)"

definition ip4_dst :: "bytes \<Rightarrow> u32" where
  "ip4_dst b = u32_from_be_bytes (bytes_at b 30 4)"

text \<open>An IPv4 frame without options that carries TCP or UDP and at least a source port.\<close>

definition ip4_l4_frame :: "bytes \<Rightarrow> bool" where
  "ip4_l4_frame b \<longleftrightarrow> 36 \<le> length b \<and> etype_of b = u16_to_be_bytes ETH_P_IP \<and> b ! 14 = 0x45 \<and>
     (b ! 23 = IPPROTO_TCP \<or> b ! 23 = IPPROTO_UDP)"

definition in_vpc :: "rodata \<Rightarrow> u32 \<Rightarrow> bool" where
  "in_vpc R dst \<longleftrightarrow> MY_VPC_NETWORK R \<noteq> 0 \<and> dst AND MY_VPC_MASK R = MY_VPC_NETWORK R AND MY_VPC_MASK R"

definition siit_dst :: "rodata \<Rightarrow> u32 \<Rightarrow> ipv6" where
  "siit_dst R dst =
     (if in_vpc R dst then construct (MY_PLATFORM_PREFIX R) (MY_CLUSTER_ID R) (MY_VPC_ID R) dst
      else nat64_addr dst)"

text \<open>What \<open>siit_in\<close> makes of a pod's frame: a spoofed source or an expired TTL is dropped, anything else
  becomes an IPv6 frame from the pod's Ghost address.\<close>

definition siit_in_result :: "rodata \<Rightarrow> bytes \<Rightarrow> int \<Rightarrow> bytes \<Rightarrow> bool" where
  "siit_in_result R b a b' \<longleftrightarrow>
     (if ip4_src b \<noteq> MY_GUEST_IPV4 R \<or> b ! 22 \<le> 1 then a = TC_ACT_SHOT \<and> b' = b
      else a = TC_ACT_OK \<and> 36 + csum_off_in_l4 (b ! 23) \<le> length b \<and> take 12 b' = take 12 b \<and>
        (\<exists>c. length c = 2 \<and> drop 14 b' =
           ipv6_header (ip4_len b - 20) (b ! 23) (b ! 22 - 1) (MY_GHOST_IPV6 R) (siit_dst R (ip4_dst b)) @
           patch (drop 34 b) (csum_off_in_l4 (b ! 23)) c))"

definition ip6_len :: "bytes \<Rightarrow> u16" where
  "ip6_len b = u16_from_be_bytes (bytes_at b 18 2)"

definition ip4_part :: "ipv6 \<Rightarrow> u32" where
  "ip4_part a = u32_from_be_bytes (bytes_at a 12 4)"

definition ip6_l4_frame :: "bytes \<Rightarrow> bool" where
  "ip6_l4_frame b \<longleftrightarrow> 54 \<le> length b \<and> etype_of b = u16_to_be_bytes ETH_P_IPV6 \<and>
     (b ! 20 = IPPROTO_TCP \<or> b ! 20 = IPPROTO_UDP)"

definition siit_out_result :: "rodata \<Rightarrow> bytes \<Rightarrow> int \<Rightarrow> bytes \<Rightarrow> bool" where
  "siit_out_result R b a b' \<longleftrightarrow> a = TC_ACT_OK \<and>
     (if dst6_of b \<noteq> MY_GHOST_IPV6 R then b' = b
      else 56 + csum_off_in_l4 (b ! 20) \<le> length b \<and> take 12 b' = take 12 b \<and>
        (\<exists>c. length c = 2 \<and> drop 14 b' =
           ipv4_header (ip6_len b + 20) (b ! 21) (b ! 20)
             (ipv4_hdr_csum (ip6_len b + 20) (b ! 21) (b ! 20) (ip4_part (src6_of b)) (MY_GUEST_IPV4 R))
             (ip4_part (src6_of b)) (MY_GUEST_IPV4 R) @
           patch (drop 54 b) (csum_off_in_l4 (b ! 20)) c))"

lemma construct_ghost_ipv6_eq: "construct_ghost_ipv6 = construct"
  by (simp add: fun_eq_iff construct_ghost_ipv6_def construct_def GHOST_VERSION_def Let_def)

lemma length_nat64_addr [simp]: "length (nat64_addr ip) = 16"
  by (simp add: nat64_addr_def)

lemma length_siit_dst [simp]: "length (siit_dst R dst) = 16"
  by (simp add: siit_dst_def)

lemma construct_ipv4_bytes: "bytes_at (construct p c v ip) 12 4 = u32_to_be_bytes ip"
  by (simp add: bytes_at_def construct_def Let_def)

lemma addr_word_3: "length a = 16 \<Longrightarrow> u32_from_be (addr_words a ! 3) = u32_from_be_bytes (bytes_at a 12 4)"
proof -
  assume len: "length a = 16"
  then have "bytes_at a 12 4 = [a ! 12, a ! 13, a ! 14, a ! 15]"
    by (intro nth_equalityI) (auto simp: bytes_at_def less_Suc_eq numeral_nat nth_Cons')
  then show ?thesis by (simp add: addr_words_def u32_from_be_from_ne)
qed

context tc_kernel
begin

lemma ip4_addrs:
  assumes "34 \<le> length (pkt s)"
  shows "u32_from_be (u32_from_ne_bytes (bytes_at (pkt s) 26 4)) = ip4_src (pkt s)"
    "u32_from_be (u32_from_ne_bytes (bytes_at (pkt s) 30 4)) = ip4_dst (pkt s)"
    "u16_from_be (u16_from_ne_bytes (bytes_at (pkt s) 16 2)) = ip4_len (pkt s)"
  using assms
  by (simp_all add: u32_from_be_from_ne u16_from_be_from_ne ip4_src_def ip4_dst_def ip4_len_def)

text \<open>What remains of \<open>siit_in\<close> once the packet is one it translates.\<close>

lemma try_siit_in_frame:
  assumes f: "ip4_l4_frame (pkt s)"
  shows "try_siit_in H R s =
    (if ip4_src (pkt s) \<noteq> MY_GUEST_IPV4 R \<or> pkt s ! 22 \<le> 1 then (Inr TC_ACT_SHOT, s)
     else bindM (on_skb (h_change_proto H ETH_P_IPV6)) (\<lambda>_.
          bindM (write_ipv6_header H (ip4_len (pkt s) - 20) (pkt s ! 23) (pkt s ! 22 - 1)
            (addr_words (MY_GHOST_IPV6 R)) (addr_words (siit_dst R (ip4_dst (pkt s))))) (\<lambda>_.
          bindM (csum_4to6 H (54 + csum_off_in_l4 (pkt s ! 23))
            (u32_from_ne_bytes (bytes_at (pkt s) 26 4)) (u32_from_ne_bytes (bytes_at (pkt s) 30 4))
            (addr_words (MY_GHOST_IPV6 R)) (addr_words (siit_dst R (ip4_dst (pkt s))))) (\<lambda>_.
          returnM TC_ACT_OK))) s)"
proof -
  have len: "14 \<le> length (pkt s)" "34 \<le> length (pkt s)" "36 \<le> length (pkt s)"
    and b: "etype_of (pkt s) = u16_to_be_bytes ETH_P_IP" "pkt s ! 14 = 0x45"
      "\<not> (pkt s ! 23 \<noteq> IPPROTO_TCP \<and> pkt s ! 23 \<noteq> IPPROTO_UDP)"
    using f by (auto simp: ip4_l4_frame_def)
  have port: "load_u16 H 34 s = (Inr (u16_from_ne_bytes (bytes_at (pkt s) 34 2)), s)"
    using len(3) by (simp add: ETH_LEN_def IPV4_HDR_LEN_def load_u16_ok)
  have e: "u16_from_ne_bytes (etype_of (pkt s)) = u16_to_be ETH_P_IP" by (simp add: b(1) u16_to_be_def)
  have dst: "(if MY_VPC_NETWORK R \<noteq> 0 \<and> x AND MY_VPC_MASK R = MY_VPC_NETWORK R AND MY_VPC_MASK R
      then construct_ghost_ipv6 (MY_PLATFORM_PREFIX R) (MY_CLUSTER_ID R) (MY_VPC_ID R) x
      else nat64_addr x) = siit_dst R x" for x
    by (simp add: siit_dst_def in_vpc_def construct_ghost_ipv6_eq)
  show ?thesis
    using b(3)
    by (auto simp: try_siit_in_def bindM_def etype_test(1) [OF len(1)] e ipv4_fields [OF len(2)] port
        Let_def ip4_addrs [OF len(2)] dst b(2) ETH_LEN_def IPV4_HDR_LEN_def IPV6_HDR_LEN_def returnM_def)
qed

lemma try_siit_in_ok:
  assumes f: "ip4_l4_frame (pkt s)" and gl: "length (MY_GHOST_IPV6 R) = 16"
    and run: "try_siit_in H R s = (Inr a, t)"
  shows "siit_in_result R (pkt s) a (pkt t) \<and> same_maps s t"
proof (cases "ip4_src (pkt s) \<noteq> MY_GUEST_IPV4 R \<or> pkt s ! 22 \<le> 1")
  case True
  then show ?thesis using run by (auto simp: try_siit_in_frame [OF f] siit_in_result_def)
next
  case False
  let ?d = "siit_dst R (ip4_dst (pkt s))"
  from False run obtain u v w s1 s2 where pr: "on_skb (h_change_proto H ETH_P_IPV6) s = (Inr u, s1)"
    and wr: "write_ipv6_header H (ip4_len (pkt s) - 20) (pkt s ! 23) (pkt s ! 22 - 1)
            (addr_words (MY_GHOST_IPV6 R)) (addr_words ?d) s1 = (Inr v, s2)"
    and cs: "csum_4to6 H (54 + csum_off_in_l4 (pkt s ! 23))
            (u32_from_ne_bytes (bytes_at (pkt s) 26 4)) (u32_from_ne_bytes (bytes_at (pkt s) 30 4))
            (addr_words (MY_GHOST_IPV6 R)) (addr_words ?d) s2 = (Inr w, t)" and a: "a = TC_ACT_OK"
    unfolding try_siit_in_frame [OF f] by (auto simp: bindM_Inr returnM_def)
  note g = grow_and_write [OF pr wr cs [unfolded csum_4to6_def] list.distinct(2) gl length_siit_dst]
  show ?thesis
    unfolding siit_in_result_def if_not_P [OF False] by (intro conjI a g)
qed

lemma try_siit_out_frame:
  assumes f: "ip6_l4_frame (pkt s)" and gl: "length (MY_GHOST_IPV6 R) = 16"
  shows "try_siit_out H R s =
    (if dst6_of (pkt s) \<noteq> MY_GHOST_IPV6 R then (Inr TC_ACT_OK, s)
     else bindM (on_skb (h_change_proto H ETH_P_IP)) (\<lambda>_.
          bindM (write_ipv4_header H (ip6_len (pkt s) + 20) (pkt s ! 21) (pkt s ! 20)
            (u32_to_be (ip4_part (src6_of (pkt s)))) (u32_to_be (MY_GUEST_IPV4 R))
            (ipv4_hdr_csum (ip6_len (pkt s) + 20) (pkt s ! 21) (pkt s ! 20) (ip4_part (src6_of (pkt s))) (MY_GUEST_IPV4 R))) (\<lambda>_.
          bindM (csum_6to4 H (34 + csum_off_in_l4 (pkt s ! 20)) (addr_words (src6_of (pkt s)))
            (addr_words (dst6_of (pkt s))) (u32_to_be (ip4_part (src6_of (pkt s)))) (u32_to_be (MY_GUEST_IPV4 R))) (\<lambda>_.
          returnM TC_ACT_OK))) s)"
proof -
  have len: "14 \<le> length (pkt s)" "54 \<le> length (pkt s)"
    and b: "etype_of (pkt s) = u16_to_be_bytes ETH_P_IPV6" "pkt s ! 20 = IPPROTO_TCP \<or> pkt s ! 20 = IPPROTO_UDP"
    using f by (auto simp: ip6_l4_frame_def)
  have e: "u16_from_ne_bytes (etype_of (pkt s)) = u16_to_be ETH_P_IPV6" by (simp add: b(1) u16_to_be_def)
  have l16: "length (dst6_of (pkt s)) = 16" "length (src6_of (pkt s)) = 16"
    using len by (simp_all add: dst6_of_def src6_of_def)
  have l: "u16_from_be (u16_from_ne_bytes (bytes_at (pkt s) 18 2)) = ip6_len (pkt s)"
    using len by (simp add: u16_from_be_from_ne ip6_len_def)
  show ?thesis
    using b(2)
    by (auto simp: try_siit_out_def bindM_def etype_test(1) [OF len(1)] e ipv6_fields [OF len(2)] offset_defs
        Let_def addr_words_inject [OF l16(1) gl] addr_word_3 [OF l16(2)] l IPV4_HDR_LEN_def returnM_def ip4_part_def)
qed

lemma try_siit_out_ok:
  assumes f: "ip6_l4_frame (pkt s)" and gl: "length (MY_GHOST_IPV6 R) = 16"
    and run: "try_siit_out H R s = (Inr a, t)"
  shows "siit_out_result R (pkt s) a (pkt t) \<and> same_maps s t"
proof (cases "dst6_of (pkt s) \<noteq> MY_GHOST_IPV6 R")
  case True
  then show ?thesis using run by (auto simp: try_siit_out_frame [OF f gl] siit_out_result_def)
next
  case False
  from False run obtain u v w s1 s2 where pr: "on_skb (h_change_proto H ETH_P_IP) s = (Inr u, s1)"
    and wr: "write_ipv4_header H (ip6_len (pkt s) + 20) (pkt s ! 21) (pkt s ! 20)
            (u32_to_be (ip4_part (src6_of (pkt s)))) (u32_to_be (MY_GUEST_IPV4 R))
            (ipv4_hdr_csum (ip6_len (pkt s) + 20) (pkt s ! 21) (pkt s ! 20) (ip4_part (src6_of (pkt s))) (MY_GUEST_IPV4 R)) s1 = (Inr v, s2)"
    and cs: "csum_6to4 H (34 + csum_off_in_l4 (pkt s ! 20)) (addr_words (src6_of (pkt s)))
            (addr_words (dst6_of (pkt s))) (u32_to_be (ip4_part (src6_of (pkt s)))) (u32_to_be (MY_GUEST_IPV4 R)) s2 = (Inr w, t)"
    and a: "a = TC_ACT_OK"
    unfolding try_siit_out_frame [OF f gl] by (auto simp: bindM_Inr returnM_def)
  note g = shrink_and_write [OF pr wr cs [unfolded csum_6to4_def] list.distinct(2)]
  show ?thesis
    unfolding siit_out_result_def if_not_P [OF False] by (intro conjI a g)
qed

end

end
