(* ===== verification/Ebpf_Checksum.thy ===== *)
theory Ebpf_Checksum
  imports Ebpf_Translation
begin

text \<open>
  The header checksum the IPv6-to-IPv4 translators compute: the 32-bit accumulator never wraps, two
  folds are enough, and a receiver's check of the header (RFC 1071) succeeds.
\<close>

section \<open>The accumulator as a natural number\<close>

fun be16_words :: "bytes \<Rightarrow> u16 list" where
  "be16_words (a # b # bs) = u16_from_be_bytes [a, b] # be16_words bs"
| "be16_words _ = []"

lemma unat_add_small: "unat (a :: u32) + unat b < 2 ^ 32 \<Longrightarrow> unat (a + b) = unat a + unat b"
  by (rule unat_add_lem [THEN iffD1]) simp

lemma unat_hi16: "unat (drop_bit 16 x AND 0xFFFF :: u32) = unat (ucast (drop_bit 16 x) :: u16)"
  and unat_lo16: "unat (x AND 0xFFFF :: u32) = unat (ucast x :: u16)"
proof -
  have m: "y AND 0xFFFF = take_bit 16 y" for y :: u32 by (simp add: take_bit_eq_mask mask_eq_exp_minus_1)
  show "unat (drop_bit 16 x AND 0xFFFF :: u32) = unat (ucast (drop_bit 16 x) :: u16)"
    unfolding m by (simp add: unsigned_take_bit_eq unsigned_ucast_eq)
  show "unat (x AND 0xFFFF :: u32) = unat (ucast x :: u16)"
    unfolding m by (simp add: unsigned_take_bit_eq unsigned_ucast_eq)
qed

lemma unat_u16: "unat (x :: u16) \<le> 65535"
proof -
  have "unat x < 2 ^ 16" using unsigned_less [of x, where 'a = nat] by simp
  then show ?thesis by simp
qed

lemma unat_ucast_u16: "unat (ucast (x :: u16) :: u32) = unat x"
  using unat_u16 [of x] by (simp add: unsigned_ucast_eq take_bit_nat_eq_self)

lemma unat_word_of_bytes: "unat (push_bit 8 (ucast (a :: u8)) OR ucast (b :: u8) :: u32) = unat (u16_from_be_bytes [a, b])"
proof -
  have "push_bit 8 (ucast a) OR ucast b = (ucast (u16_from_be_bytes [a, b]) :: u32)"
    by (rule bit_word_eqI) (auto simp: u16_from_be_bytes.simps bit_simps dest: bit_imp_le_length)
  then show ?thesis by (simp only: unat_ucast_u16)
qed

lemma u32_words: "be16_words (u32_to_be_bytes x @ bs) = ucast (drop_bit 16 x) # ucast x # be16_words bs"
proof -
  have "u16_from_be_bytes [ucast (drop_bit 24 x), ucast (drop_bit 16 x)] = (ucast (drop_bit 16 x) :: u16)"
    "u16_from_be_bytes [ucast (drop_bit 8 x), ucast x] = (ucast x :: u16)"
    by (rule bit_word_eqI; auto simp: u16_from_be_bytes.simps bit_simps)+
  then show ?thesis by (simp add: u32_to_be_bytes_def)
qed

lemma u16_words: "be16_words (u16_to_be_bytes x @ bs) = x # be16_words bs"
  using u16_from_to_be [of x] by (simp add: u16_to_be_bytes_def)

lemma fold16: "unat ((s AND 0xFFFF) + drop_bit 16 s :: u32) = unat s mod 65536 + unat s div 65536"
  if "unat s < 2 ^ 31" for s :: u32
proof -
  have "unat (s AND 0xFFFF) = unat s mod 65536" by (simp add: unat_lo16 unsigned_ucast_eq take_bit_eq_mod)
  moreover have "unat (drop_bit 16 s) = unat s div 65536" by (simp add: drop_bit_eq_div unat_div_distrib)
  moreover have "unat s mod 65536 + unat s div 65536 < 2 ^ 32" using that by (simp add: mod_less_divisor) 
  ultimately show ?thesis by (subst unat_add_small) auto
qed

lemma fold_mod: "(n mod 65536 + n div 65536) mod 65535 = n mod (65535 :: nat)"
proof -
  define q r where "q = n div 65536" and "r = n mod 65536"
  have "n = r + q + 65535 * q" using mult_div_mod_eq [of 65536 n] unfolding q_def r_def by linarith
  then have "n mod 65535 = (r + q) mod 65535" by (simp only: mod_mult_self2)
  then show ?thesis by (simp add: q_def r_def)
qed

text \<open>The eight words the checksum adds up, and what two folds leave of their sum.\<close>

definition hdr_sum :: "u16 \<Rightarrow> u8 \<Rightarrow> u8 \<Rightarrow> u32 \<Rightarrow> u32 \<Rightarrow> nat" where
  "hdr_sum total_len ttl proto src dst =
     0x4500 + unat total_len + 0x4000 + unat (u16_from_be_bytes [ttl, proto]) +
     unat (ucast (drop_bit 16 src) :: u16) + unat (ucast src :: u16) +
     unat (ucast (drop_bit 16 dst) :: u16) + unat (ucast dst :: u16)"

lemma hdr_sum_bound: "hdr_sum l ttl p s d \<le> 8 * 65535"
  unfolding hdr_sum_def
  using unat_u16 [of l] unat_u16 [of "u16_from_be_bytes [ttl, p]"] unat_u16 [of "ucast (drop_bit 16 s)"]
    unat_u16 [of "ucast s"] unat_u16 [of "ucast (drop_bit 16 d)"] unat_u16 [of "ucast d"] by linarith

lemma accumulate:
  "unat (0x4500 + ucast l + 0x4000 + (push_bit 8 (ucast ttl) OR ucast p) + (drop_bit 16 s AND 0xFFFF) +
     (s AND 0xFFFF) + (drop_bit 16 d AND 0xFFFF) + (d AND 0xFFFF) :: u32) = hdr_sum l ttl p s d"
proof -
  note l = unat_ucast_u16 [of l]
  note b = unat_u16 [of l] unat_u16 [of "u16_from_be_bytes [ttl, p]"] unat_u16 [of "ucast (drop_bit 16 s)"]
    unat_u16 [of "ucast s"] unat_u16 [of "ucast (drop_bit 16 d)"] unat_u16 [of "ucast d"]
  note w = unat_hi16 unat_lo16 unat_word_of_bytes l
  show ?thesis
    unfolding hdr_sum_def using b by (simp add: unat_add_small w)
qed

lemma ipv4_hdr_csum_value:
  obtains f where "unat (ipv4_hdr_csum l ttl p s d) = 65535 - f" "f \<le> 65535" "f mod 65535 = hdr_sum l ttl p s d mod 65535"
proof -
  define a :: u32 where "a = 0x4500 + ucast l + 0x4000 + (push_bit 8 (ucast ttl) OR ucast p) + (drop_bit 16 s AND 0xFFFF) +
     (s AND 0xFFFF) + (drop_bit 16 d AND 0xFFFF) + (d AND 0xFFFF)"
  define b where "b = (a AND 0xFFFF) + drop_bit 16 a"
  define c where "c = (b AND 0xFFFF) + drop_bit 16 b"
  have a: "unat a = hdr_sum l ttl p s d" unfolding a_def by (rule accumulate)
  then have b: "unat b = unat a mod 65536 + unat a div 65536"
    unfolding b_def using hdr_sum_bound [of l ttl p s d] by (intro fold16) simp
  have bl: "unat b \<le> 65535 + 8" unfolding b using hdr_sum_bound [of l ttl p s d] a
    by (intro add_mono) (simp_all add: less_Suc_eq_le [symmetric])
  then have c: "unat c = unat b mod 65536 + unat b div 65536"
    unfolding c_def by (intro fold16) simp
  have cl: "unat c \<le> 65535"
  proof (cases "unat b \<le> 65535")
    case True then show ?thesis by (simp add: c)
  next
    case False
    then have "unat b div 65536 = 1" "unat b mod 65536 = unat b - 65536"
      using bl by (simp_all add: div_nat_eqI mod_nat_eqI) 
    then show ?thesis using bl False by (simp add: c)
  qed
  have "ipv4_hdr_csum l ttl p s d = NOT (ucast c)"
    by (simp add: ipv4_hdr_csum_def Let_def a_def b_def c_def)
  moreover have "unat (NOT (ucast c) :: u16) = 65535 - unat c"
  proof -
    have "NOT (x :: u16) = 65535 - x" for x by (simp add: not_eq_complement)
    moreover have "unat (ucast c :: u16) = unat c" using cl by (simp add: unsigned_ucast_eq take_bit_nat_eq_self)
    ultimately show ?thesis by (simp add: unat_sub word_le_nat_alt cl)
  qed
  moreover have "unat c mod 65535 = hdr_sum l ttl p s d mod 65535"
    using fold_mod [of "unat a"] fold_mod [of "unat b"] by (simp add: a b c)
  ultimately show thesis using cl that by simp
qed

text \<open>The IPv4 header checksum is right for every header the translators write: the ones' complement
  sum of the header's ten 16-bit words, checksum included, is zero modulo 65535 and not zero, which
  is what RFC 1071 asks a receiver to check.\<close>

theorem ipv4_checksum_valid:
  "let words = be16_words (ipv4_header l ttl p (ipv4_hdr_csum l ttl p s d) s d) in
   length words = 10 \<and> sum_list (map unat words) mod 65535 = 0 \<and> sum_list (map unat words) \<noteq> 0"
proof -
  obtain f where f: "unat (ipv4_hdr_csum l ttl p s d) = 65535 - f" "f \<le> 65535"
    "f mod 65535 = hdr_sum l ttl p s d mod 65535" by (rule ipv4_hdr_csum_value)
  have w: "be16_words (ipv4_header l ttl p c s d) =
      [0x4500, l, 0, 0x4000, u16_from_be_bytes [ttl, p], c, ucast (drop_bit 16 s), ucast s, ucast (drop_bit 16 d), ucast d]" for c
    using u32_words [of d "[]"] by (simp add: ipv4_header_def u16_words u32_words u16_from_be_bytes.simps)
  have "sum_list (map unat (be16_words (ipv4_header l ttl p (ipv4_hdr_csum l ttl p s d) s d))) =
      hdr_sum l ttl p s d + (65535 - f)"
    by (simp add: w f(1) hdr_sum_def)
  moreover have "(hdr_sum l ttl p s d + (65535 - f)) mod 65535 = 0"
  proof -
    have "(hdr_sum l ttl p s d + (65535 - f)) mod 65535 = (f + (65535 - f)) mod 65535"
      using f(3) by (metis mod_add_left_eq)
    then show ?thesis using f(2) by simp
  qed
  moreover have "hdr_sum l ttl p s d \<noteq> 0" by (simp add: hdr_sum_def)
  ultimately show ?thesis by (simp add: w Let_def)
qed

end
