(* ===== verification/Ebpf_Pods.thy ===== *)
theory Ebpf_Pods
  imports Ebpf_Checksum
begin

text \<open>
  The translators end to end: a pod's IPv4 packet over the Ghost IPv6 network to another pod of its
  VPC, and through NAT64 to an outside server and back.
\<close>

section \<open>Reading a header back\<close>

lemma bytes_at_from_14: "bytes_at b (14 + j) n = bytes_at (drop 14 b) j n"
  by (simp add: bytes_at_def add.commute)

lemma nth_from_14: "14 + j < length b \<Longrightarrow> b ! (14 + j) = drop 14 b ! j"
  by simp

lemma length_from_14: "drop 14 b = xs \<Longrightarrow> xs \<noteq> [] \<Longrightarrow> length b = 14 + length xs"
  by auto

lemma ipv6_header_fields:
  assumes "drop 14 b = ipv6_header l n h src dst @ rest" "length src = 16" "length dst = 16"
  shows "54 \<le> length b" "src6_of b = src" "dst6_of b = dst" "ip6_len b = l" "b ! 20 = n" "b ! 21 = h" "drop 54 b = rest"
proof -
  have ne: "ipv6_header l n h src dst @ rest \<noteq> []" by (simp add: ipv6_header_def)
  then have len: "length b = 54 + length rest" using length_from_14 [OF assms(1) ne] assms(2,3) by simp
  then show "54 \<le> length b" by simp
  show "src6_of b = src" "dst6_of b = dst" "ip6_len b = l"
    using bytes_at_from_14 [of b 8 16] bytes_at_from_14 [of b 24 16] bytes_at_from_14 [of b 4 2] assms
    by (simp_all add: src6_of_def dst6_of_def ip6_len_def ipv6_header_def bytes_at_def)
  show "b ! 20 = n" "b ! 21 = h"
    using nth_from_14 [of 6 b] nth_from_14 [of 7 b] len
    by (simp_all add: assms(1)) (simp_all add: ipv6_header_def nth_append)
  have "drop 54 b = drop 40 (drop 14 b)" by simp
  then show "drop 54 b = rest" by (simp only: assms(1)) (simp add: assms(2,3))
qed

lemma ipv4_header_fields:
  assumes "drop 14 b = ipv4_header l ttl p c src dst @ rest"
  shows "34 \<le> length b" "ip4_src b = src" "ip4_dst b = dst" "ip4_len b = l" "b ! 14 = 0x45" "b ! 22 = ttl" "b ! 23 = p"
    "drop 34 b = rest"
proof -
  have ne: "ipv4_header l ttl p c src dst @ rest \<noteq> []" by (simp add: ipv4_header_def)
  then have len: "length b = 34 + length rest" using length_from_14 [OF assms(1) ne] by simp
  then show "34 \<le> length b" by simp
  show "ip4_src b = src" "ip4_dst b = dst" "ip4_len b = l"
    using bytes_at_from_14 [of b 12 4] bytes_at_from_14 [of b 16 4] bytes_at_from_14 [of b 2 2] assms
    by (simp_all add: ip4_src_def ip4_dst_def ip4_len_def ipv4_header_def bytes_at_def)
  show "b ! 14 = 0x45" "b ! 22 = ttl" "b ! 23 = p"
    using nth_from_14 [of 0 b] nth_from_14 [of 8 b] nth_from_14 [of 9 b] len
    by (simp_all add: assms(1)) (simp_all add: ipv4_header_def nth_append)
  have "drop 34 b = drop 20 (drop 14 b)" by simp
  then show "drop 34 b = rest" by (simp only: assms(1)) simp
qed

section \<open>Pod to pod\<close>

text \<open>The constants of a pod: its Ghost address is built from the others.\<close>

definition pod_consts :: "rodata \<Rightarrow> bool" where
  "pod_consts R \<longleftrightarrow>
     MY_GHOST_IPV6 R = construct (MY_PLATFORM_PREFIX R) (MY_CLUSTER_ID R) (MY_VPC_ID R) (MY_GUEST_IPV4 R)"

definition same_vpc :: "rodata \<Rightarrow> rodata \<Rightarrow> bool" where
  "same_vpc R R' \<longleftrightarrow> MY_PLATFORM_PREFIX R = MY_PLATFORM_PREFIX R' \<and> MY_CLUSTER_ID R = MY_CLUSTER_ID R' \<and>
     MY_VPC_ID R = MY_VPC_ID R'"

lemma length_pod_ghost: "pod_consts R \<Longrightarrow> length (MY_GHOST_IPV6 R) = 16"
  by (simp add: pod_consts_def)

lemma ip4_part_construct [simp]: "ip4_part (construct p c v ip) = ip"
  by (simp add: ip4_part_def construct_ipv4_bytes)

lemma siit_dst_local: "pod_consts R' \<Longrightarrow> same_vpc R R' \<Longrightarrow> in_vpc R (MY_GUEST_IPV4 R') \<Longrightarrow>
    siit_dst R (MY_GUEST_IPV4 R') = MY_GHOST_IPV6 R'"
  by (simp add: siit_dst_def pod_consts_def same_vpc_def)

text \<open>A pod's TCP or UDP frame, as \<open>siit_in\<close> leaves it: dropped when the source is not the pod's own
  address or the TTL would expire; otherwise, when the kernel helpers succeed, an IPv6 frame from the
  pod's Ghost address to the destination's Ghost address inside the VPC's network and to the NAT64
  prefix outside it, with the payload unchanged but for the two checksum bytes.\<close>

theorem siit_in_translates:
  assumes "tc_kernel H view" and "ip4_l4_frame (view (skb s))" and "length (MY_GHOST_IPV6 R) = 16"
    and "try_siit_in H R s = (Inr a, t)"
  shows "siit_in H R s = (a, t) \<and> siit_in_result R (view (skb s)) a (view (skb t)) \<and> same_maps s t"
  using tc_kernel.try_siit_in_ok [OF assms] assms(4) by (simp add: siit_in_def fail_open_def)


text \<open>A TCP frame from 10.0.0.10 to 10.0.0.20, pods of VPC 5.\<close>

definition pod_rodata :: "u32 \<Rightarrow> rodata" where
  "pod_rodata ip = \<lparr> MY_GHOST_IPV6 = construct GHOST_PREFIX 1 5 ip, MY_GUEST_IPV4 = ip, MY_VPC_ID = 5,
     MY_VPC_NETWORK = 0x0A000000, MY_VPC_MASK = 0xFFFFFF00, MY_PLATFORM_PREFIX = GHOST_PREFIX, MY_CLUSTER_ID = 1 \<rparr>"

definition frame_v4 :: "u32 \<Rightarrow> u32 \<Rightarrow> bytes" where
  "frame_v4 src dst = replicate 12 0 @ [0x08, 0x00] @ ipv4_header 40 64 6 0 src dst @ replicate 20 0"

definition sent_frame :: "bytes tc" where
  "sent_frame = snd (try_siit_in mem_helpers (pod_rodata 0x0A00000A) (node_state (frame_v4 0x0A00000A 0x0A000014)))"

definition on_wire :: "bytes \<Rightarrow> bytes tc" where
  "on_wire b = node_state (replicate 12 0 @ [0x86, 0xDD] @ drop 14 b)"

definition received_frame :: "bytes tc" where
  "received_frame = snd (try_siit_out mem_helpers (pod_rodata 0x0A000014) (on_wire (skb sent_frame)))"

lemma frame_v4_facts:
  "ip4_l4_frame (frame_v4 s d)" "ip4_src (frame_v4 s d) = s" "ip4_dst (frame_v4 s d) = d" "ip4_len (frame_v4 s d) = 40"
  "frame_v4 s d ! 22 = 64" "frame_v4 s d ! 23 = 6" "drop 34 (frame_v4 s d) = replicate 20 0"
proof -
  have d14: "drop 14 (frame_v4 s d) = ipv4_header 40 64 6 0 s d @ replicate 20 0" by (simp add: frame_v4_def)
  note f = ipv4_header_fields [OF d14]
  show "ip4_src (frame_v4 s d) = s" "ip4_dst (frame_v4 s d) = d" "ip4_len (frame_v4 s d) = 40"
    "frame_v4 s d ! 22 = 64" "frame_v4 s d ! 23 = 6" "drop 34 (frame_v4 s d) = replicate 20 0" by (rule f)+
  have "length (frame_v4 s d) = 54" by (simp add: frame_v4_def)
  then show "ip4_l4_frame (frame_v4 s d)"
    by (simp add: ip4_l4_frame_def f IPPROTO_TCP_def)
      (simp add: frame_v4_def etype_of_def bytes_at_def u16_to_be_bytes_def ETH_P_IP_def)
qed

lemma sent_run: "try_siit_in mem_helpers (pod_rodata 0x0A00000A) (node_state (frame_v4 0x0A00000A 0x0A000014)) =
    (Inr TC_ACT_OK, sent_frame)"
proof -
  have "fst (try_siit_in mem_helpers (pod_rodata 0x0A00000A) (node_state (frame_v4 0x0A00000A 0x0A000014))) = Inr TC_ACT_OK"
    by code_simp
  then show ?thesis by (simp add: sent_frame_def prod_eq_iff)
qed

lemma received_run: "try_siit_out mem_helpers (pod_rodata 0x0A000014) (on_wire (skb sent_frame)) = (Inr TC_ACT_OK, received_frame)"
proof -
  have "fst (try_siit_out mem_helpers (pod_rodata 0x0A000014) (on_wire (skb sent_frame))) = Inr TC_ACT_OK"
    by code_simp
  then show ?thesis by (simp add: received_frame_def prod_eq_iff)
qed

lemma on_wire_facts: "drop 14 (skb (on_wire b)) = drop 14 b" "etype_of (skb (on_wire b)) = u16_to_be_bytes ETH_P_IPV6"
  by (simp_all add: on_wire_def node_state_def etype_of_def bytes_at_def u16_to_be_bytes_def ETH_P_IPV6_def)

lemma pod_rodata_facts: "pod_consts (pod_rodata ip)" "same_vpc (pod_rodata ip) (pod_rodata ip')"
  "in_vpc (pod_rodata ip) ip' \<longleftrightarrow> ip' AND 0xFFFFFF00 = 0x0A000000"
  "MY_PLATFORM_PREFIX (pod_rodata ip) = GHOST_PREFIX" "MY_GUEST_IPV4 (pod_rodata ip) = ip"
  by (simp_all add: pod_rodata_def pod_consts_def same_vpc_def in_vpc_def)

lemma skb_node_state [simp]: "skb (node_state b) = b"
  by (simp add: node_state_def)

theorem siit_in_translates_witness:
  "siit_in_result (pod_rodata 0x0A00000A) (frame_v4 0x0A00000A 0x0A000014) TC_ACT_OK (skb sent_frame)"
  using siit_in_translates [OF memtc.tc_kernel_axioms _ length_pod_ghost [OF pod_rodata_facts(1)] sent_run]
  by (simp add: frame_v4_facts)


end
