(* ===== verification/Vpc_Enforcer.thy ===== *)
theory Vpc_Enforcer
  imports Ghost_Allocator Ebpf_Pods
begin

text \<open>
  The daemon's enforcement backends: the \<open>NetworkEnforcer\<close> trait (\<open>enforcer.rs\<close>) as a record of
  operations with its default \<open>rebuild\<close>, the no-op backend (\<open>noop_enforcer.rs\<close>) and the eBPF backend
  (\<open>ebpf_enforcer.rs\<close>), which keeps the pinned maps the data path reads. Loading and attaching
  programs, network namespaces and the map system calls are the kernel's and aya's: they are the
  record \<open>aya\<close>, with the laws of the locale \<open>bpf_kernel\<close>. The lemmas say which peering keys are in the
  map and which peering owns them.
\<close>

section \<open>The trait\<close>

record 'e NetworkEnforcer =
  enf_name :: string
  enf_init :: "('e, unit) act"
  ensure_vpc :: "u16 \<Rightarrow> string \<Rightarrow> ('e, unit) act"
  remove_vpc :: "u16 \<Rightarrow> ('e, unit) act"
  install_tap_rules :: "string \<Rightarrow> string \<Rightarrow> string \<Rightarrow> u16 \<Rightarrow> string \<Rightarrow> ('e, unit) act"
  remove_tap_rules :: "string \<Rightarrow> ('e, unit) act"
  install_netkit_rules :: "string \<Rightarrow> string \<Rightarrow> string \<Rightarrow> u16 \<Rightarrow> string \<Rightarrow> u32 \<Rightarrow> ('e, unit) act"
  remove_netkit_rules :: "string \<Rightarrow> ('e, unit) act"
  install_peering_rules :: "VpcPeering \<Rightarrow> Vpc list \<Rightarrow> ('e, unit) act"
  remove_peering_rules :: "string \<Rightarrow> ('e, unit) act"
  install_nat64 :: "string \<Rightarrow> string \<Rightarrow> string \<Rightarrow> ('e, unit) act"
  remove_nat64 :: "('e, unit) act"
  enf_snapshot :: "('e, string) act"
  enf_cleanup :: "('e, unit) act"

text \<open>\<open>rebuild\<close>, the trait's default: failures of single rules are logged and skipped.\<close>

definition rebuild_tap :: "'e NetworkEnforcer \<Rightarrow> Vpc list \<Rightarrow> StoredAllocation \<Rightarrow> ('e, unit) act" where
  "rebuild_tap E vpcs alloc =
     (if StoredAllocation_interface_type alloc = ''tap'' then
        let vpc_cidr = (case find (\<lambda>v. Vpc_vpc_id v = StoredAllocation_vpc_id alloc) vpcs of
                          Some v \<Rightarrow> Vpc_ipv4_cidr v | None \<Rightarrow> ''0.0.0.0/0'');
            short_id = take (min 8 (length (StoredAllocation_pod_id alloc))) (StoredAllocation_pod_id alloc);
            tap_name = ''tap-'' @ short_id
        in ignoreM (install_tap_rules E tap_name (StoredAllocation_guest_ipv4 alloc)
             (StoredAllocation_ghost_ipv6 alloc) (StoredAllocation_vpc_id alloc) vpc_cidr)
      else returnM ())"

definition rebuild ::
  "'e NetworkEnforcer \<Rightarrow> Vpc list \<Rightarrow> StoredAllocation list \<Rightarrow> VpcPeering list \<Rightarrow> ('e, unit) act" where
  "rebuild E vpcs allocations peerings =
     bindM (forM vpcs (\<lambda>vpc. ignoreM (ensure_vpc E (Vpc_vpc_id vpc) (Vpc_ipv4_cidr vpc)))) (\<lambda>_.
     bindM (forM allocations (rebuild_tap E vpcs)) (\<lambda>_.
     forM peerings (\<lambda>peering. ignoreM (install_peering_rules E peering vpcs))))"

section \<open>The no-op backend\<close>

definition NoopEnforcer :: "unit NetworkEnforcer" where
  "NoopEnforcer =
     \<lparr> enf_name = ''noop'', enf_init = returnM (), ensure_vpc = (\<lambda>_ _. returnM ()), remove_vpc = (\<lambda>_. returnM ()),
       install_tap_rules = (\<lambda>_ _ _ _ _. returnM ()), remove_tap_rules = (\<lambda>_. returnM ()),
       install_netkit_rules = (\<lambda>_ _ _ _ _ _. returnM ()), remove_netkit_rules = (\<lambda>_. returnM ()),
       install_peering_rules = (\<lambda>_ _. returnM ()), remove_peering_rules = (\<lambda>_. returnM ()),
       install_nat64 = (\<lambda>_ _ _. returnM ()), remove_nat64 = returnM (), enf_snapshot = returnM ''(noop)'',
       enf_cleanup = returnM () \<rparr>"

section \<open>The kernel as the eBPF backend uses it\<close>

datatype TcAttachType = Ingress | Egress

record VpcCidrValue =
  VpcCidrValue_network :: u32
  VpcCidrValue_mask :: u32

text \<open>
  \<open>k_load\<close> loads an instance with these constants, \<open>k_program\<close> looks a program up, \<open>k_map\<close> looks a map
  up and converts its handle; \<open>k_setns\<close> enters a process's network namespace or goes back.
\<close>

record 'k aya =
  k_create_pin_dir :: "('k, unit) act"
  k_has_pinned_maps :: "'k \<Rightarrow> bool"
  k_remove_pin_dir :: "('k, unit) act"
  k_load :: "rodata \<Rightarrow> ('k, unit) act"
  k_program :: "string \<Rightarrow> ('k, unit) act"
  k_prog_load :: "string \<Rightarrow> ('k, unit) act"
  k_attach :: "string \<Rightarrow> string \<Rightarrow> TcAttachType \<Rightarrow> ('k, unit) act"
  k_qdisc_add_clsact :: "string \<Rightarrow> ('k, unit) act"
  k_open_netns :: "u32 \<Rightarrow> ('k, unit) act"
  k_setns :: "u32 option \<Rightarrow> ('k, unit) act"
  k_ifindex :: "string \<Rightarrow> ('k, u32) act"
  k_map :: "string \<Rightarrow> ('k, unit) act"
  k_cidr_iter :: "'k \<Rightarrow> (u16 \<times> VpcCidrValue) result list"
  k_cidr_insert :: "u16 \<Rightarrow> VpcCidrValue \<Rightarrow> ('k, unit) act"
  k_cidr_remove :: "u16 \<Rightarrow> ('k, unit) act"
  k_peering_iter :: "'k \<Rightarrow> (PeeringKey \<times> u32) result list"
  k_peering_insert :: "PeeringKey \<Rightarrow> u32 \<Rightarrow> ('k, unit) act"
  k_peering_remove :: "PeeringKey \<Rightarrow> ('k, unit) act"
  k_endpoint_iter :: "'k \<Rightarrow> (ipv6 \<times> u32) result list"
  k_endpoint_insert :: "ipv6 \<Rightarrow> u32 \<Rightarrow> ('k, unit) act"
  k_endpoint_remove :: "ipv6 \<Rightarrow> ('k, unit) act"
  k_nat64_set :: "Nat64Config \<Rightarrow> ('k, unit) act"

section \<open>The eBPF backend\<close>

record 'k EbpfEnforcer =
  kern :: 'k
  EbpfEnforcer_platform_prefix :: u32
  EbpfEnforcer_cluster_id :: u32
  active_vpcs :: "u16 list"
  peering_to_keys :: "(string, PeeringKey list) hmap"
  pod_bpf :: "(string, rodata) hmap"
  nk_info :: "(string, u32 \<times> u16 \<times> u32 \<times> u32 \<times> ipv6) hmap"
  tap_bpf :: "(string, rodata) hmap"
  tap_to_ip :: "(string, u32 \<times> u16) hmap"

definition on_kern :: "('k, 'a) act \<Rightarrow> ('k EbpfEnforcer, 'a) act" where
  "on_kern m s = (case m (kern s) of (r, k) \<Rightarrow> (r, s\<lparr>kern := k\<rparr>))"

text \<open>\<open>EbpfEnforcer::new\<close> once the pin directory is there and the shared instance is loaded.\<close>

definition EbpfEnforcer_new :: "u32 \<Rightarrow> u32 \<Rightarrow> 'k \<Rightarrow> 'k EbpfEnforcer" where
  "EbpfEnforcer_new pp cid k =
     \<lparr> kern = k, EbpfEnforcer_platform_prefix = pp, EbpfEnforcer_cluster_id = cid, active_vpcs = [],
       peering_to_keys = [], pod_bpf = [], nk_info = [], tap_bpf = [], tap_to_ip = [] \<rparr>"

definition recovered_vpcs :: "(u16 \<times> VpcCidrValue) result list \<Rightarrow> u16 list \<Rightarrow> u16 list" where
  "recovered_vpcs items vpcs = fold (\<lambda>item acc. case item of Inr (k, _) \<Rightarrow> List.insert k acc | Inl _ \<Rightarrow> acc) items vpcs"

definition ebpf_init :: "'k aya \<Rightarrow> ('k EbpfEnforcer, unit) act" where
  "ebpf_init K =
     bindM (on_kern (k_create_pin_dir K)) (\<lambda>_.
     bindM (getM (\<lambda>s. k_has_pinned_maps K (kern s))) (\<lambda>pinned.
     if pinned then
       bindM (tryM (on_kern (k_map K ''VPC_CIDRS''))) (\<lambda>r.
       case r of
         Inr _ \<Rightarrow> modifyM (\<lambda>s. s\<lparr>active_vpcs := recovered_vpcs (k_cidr_iter K (kern s)) (active_vpcs s)\<rparr>)
       | Inl _ \<Rightarrow> returnM ())
     else returnM ()))"

definition ebpf_ensure_vpc :: "'k aya \<Rightarrow> u16 \<Rightarrow> string \<Rightarrow> ('k EbpfEnforcer, unit) act" where
  "ebpf_ensure_vpc K vid cidr =
     bindM (getM active_vpcs) (\<lambda>active.
     if vid \<in> set active then returnM ()
     else
     bindM (liftR (enforcer_parse_cidr cidr)) (\<lambda>(network, mask).
     bindM (on_kern (k_map K ''VPC_CIDRS'')) (\<lambda>_.
     bindM (on_kern (k_cidr_insert K vid \<lparr> VpcCidrValue_network = network, VpcCidrValue_mask = mask \<rparr>)) (\<lambda>_.
     modifyM (\<lambda>s. s\<lparr>active_vpcs := List.insert vid (active_vpcs s)\<rparr>)))))"

definition ebpf_remove_vpc :: "'k aya \<Rightarrow> u16 \<Rightarrow> ('k EbpfEnforcer, unit) act" where
  "ebpf_remove_vpc K vid =
     bindM (getM active_vpcs) (\<lambda>active.
     if vid \<notin> set active then returnM ()
     else
     bindM (modifyM (\<lambda>s. s\<lparr>active_vpcs := removeAll vid (active_vpcs s)\<rparr>)) (\<lambda>_.
     bindM (on_kern (k_map K ''VPC_CIDRS'')) (\<lambda>_.
     ignoreM (on_kern (k_cidr_remove K vid)))))"

text \<open>The constants baked into a per-interface instance.\<close>

definition baked :: "'k EbpfEnforcer \<Rightarrow> ipv6 \<Rightarrow> u32 \<Rightarrow> u16 \<Rightarrow> u32 \<times> u32 \<Rightarrow> rodata" where
  "baked s ipv6_bytes ip_host vid = (\<lambda>(vpc_network, vpc_mask).
     \<lparr> MY_GHOST_IPV6 = ipv6_bytes, MY_GUEST_IPV4 = ip_host, MY_VPC_ID = vid, MY_VPC_NETWORK = vpc_network,
       MY_VPC_MASK = vpc_mask, MY_PLATFORM_PREFIX = EbpfEnforcer_platform_prefix s,
       MY_CLUSTER_ID = EbpfEnforcer_cluster_id s \<rparr>)"

text \<open>The shared isolation classifiers, attached to the host side of an interface.\<close>

definition attach_shared :: "'k aya \<Rightarrow> string \<Rightarrow> string \<Rightarrow> TcAttachType \<Rightarrow> ('k EbpfEnforcer, unit) act" where
  "attach_shared K prog iface dir =
     bindM (on_kern (k_program K prog)) (\<lambda>_.
     bindM (ignoreM (on_kern (k_prog_load K prog))) (\<lambda>_.
     on_kern (k_attach K prog iface dir)))"

definition attach_isolation :: "'k aya \<Rightarrow> string \<Rightarrow> ('k EbpfEnforcer, unit) act" where
  "attach_isolation K iface =
     bindM (attach_shared K ''tc_ingress_v6'' iface Ingress) (\<lambda>_.
     attach_shared K ''tc_egress_v6'' iface Egress)"

definition ebpf_install_tap_rules ::
  "'k aya \<Rightarrow> string \<Rightarrow> string \<Rightarrow> string \<Rightarrow> u16 \<Rightarrow> string \<Rightarrow> ('k EbpfEnforcer, unit) act" where
  "ebpf_install_tap_rules K tap_name guest_str ghost_str vid vpc_cidr =
     bindM (liftR (ok_or (parse_ipv4 guest_str) ''invalid tap IPv4'')) (\<lambda>ip_host.
     bindM (liftR (ok_or (parse_ipv6 ghost_str) ''invalid tap Ghost IPv6'')) (\<lambda>ipv6_bytes.
     bindM (liftR (enforcer_parse_cidr vpc_cidr)) (\<lambda>cidr.
     bindM (getM (\<lambda>s. baked s ipv6_bytes ip_host vid cidr)) (\<lambda>tap_ebpf.
     bindM (on_kern (k_load K tap_ebpf)) (\<lambda>_.
     bindM (ignoreM (on_kern (k_qdisc_add_clsact K tap_name))) (\<lambda>_.
     bindM (on_kern (k_program K ''tap_guard'')) (\<lambda>_.
     bindM (on_kern (k_prog_load K ''tap_guard'')) (\<lambda>_.
     bindM (on_kern (k_attach K ''tap_guard'' tap_name Ingress)) (\<lambda>_.
     bindM (attach_isolation K tap_name) (\<lambda>_.
     modifyM (\<lambda>s. s\<lparr>tap_bpf := hm_insert tap_name tap_ebpf (tap_bpf s),
                    tap_to_ip := hm_insert tap_name (ip_host, vid) (tap_to_ip s)\<rparr>)))))))))))"

definition ebpf_remove_tap_rules :: "string \<Rightarrow> ('k EbpfEnforcer, unit) act" where
  "ebpf_remove_tap_rules tap_name =
     modifyM (\<lambda>s. case hm_get (tap_to_ip s) tap_name of
       Some _ \<Rightarrow> s\<lparr>tap_to_ip := hm_remove tap_name (tap_to_ip s), tap_bpf := hm_remove tap_name (tap_bpf s)\<rparr>
     | None \<Rightarrow> s)"

text \<open>The translators, attached inside the pod's network namespace, which is left again in every case.\<close>

definition attach_siit :: "'k aya \<Rightarrow> u32 \<Rightarrow> ('k EbpfEnforcer, unit) act" where
  "attach_siit K pid =
     bindM (on_kern (k_open_netns K pid)) (\<lambda>_.
     bindM (on_kern (k_setns K (Some pid))) (\<lambda>_.
     bindM (tryM (
       bindM (ignoreM (on_kern (k_qdisc_add_clsact K ''eth0''))) (\<lambda>_.
       bindM (on_kern (k_attach K ''siit_in'' ''eth0'' Egress)) (\<lambda>_.
       on_kern (k_attach K ''siit_out'' ''eth0'' Ingress))))) (\<lambda>attach_result.
     bindM (on_kern (k_setns K None)) (\<lambda>_.
     liftR attach_result))))"

text \<open>The programs of a pod: its own translators and the shared classifiers on the host side.\<close>

definition attach_pod :: "'k aya \<Rightarrow> string \<Rightarrow> rodata \<Rightarrow> u32 \<Rightarrow> ('k EbpfEnforcer, unit) act" where
  "attach_pod K nk_name pod_ebpf container_pid =
     bindM (on_kern (k_load K pod_ebpf)) (\<lambda>_.
     bindM (on_kern (k_program K ''siit_in'')) (\<lambda>_.
     bindM (on_kern (k_prog_load K ''siit_in'')) (\<lambda>_.
     bindM (on_kern (k_program K ''siit_out'')) (\<lambda>_.
     bindM (on_kern (k_prog_load K ''siit_out'')) (\<lambda>_.
     bindM (attach_siit K container_pid) (\<lambda>_.
     bindM (ignoreM (on_kern (k_qdisc_add_clsact K nk_name))) (\<lambda>_.
     attach_isolation K nk_name)))))))"

definition ebpf_install_netkit_rules ::
  "'k aya \<Rightarrow> string \<Rightarrow> string \<Rightarrow> string \<Rightarrow> u16 \<Rightarrow> string \<Rightarrow> u32 \<Rightarrow> ('k EbpfEnforcer, unit) act" where
  "ebpf_install_netkit_rules K nk_name guest_str ghost_str vid vpc_cidr container_pid =
     bindM (liftR (ok_or (parse_ipv4 guest_str) ''invalid netkit IPv4'')) (\<lambda>ip_host.
     bindM (liftR (ok_or (parse_ipv6 ghost_str) ''invalid netkit Ghost IPv6'')) (\<lambda>ipv6_bytes.
     bindM (liftR (enforcer_parse_cidr vpc_cidr)) (\<lambda>cidr.
     bindM (getM (\<lambda>s. baked s ipv6_bytes ip_host vid cidr)) (\<lambda>pod_ebpf.
     bindM (attach_pod K nk_name pod_ebpf container_pid) (\<lambda>_.
     bindM (on_kern (k_ifindex K nk_name)) (\<lambda>nk_ifindex.
     bindM (on_kern (k_map K ''ENDPOINTS'')) (\<lambda>_.
     bindM (on_kern (k_endpoint_insert K ipv6_bytes nk_ifindex)) (\<lambda>_.
     modifyM (\<lambda>s. s\<lparr>pod_bpf := hm_insert nk_name pod_ebpf (pod_bpf s),
                    nk_info := hm_insert nk_name (ip_host, vid, fst cidr, snd cidr, ipv6_bytes) (nk_info s)\<rparr>)))))))))"

definition ebpf_remove_netkit_rules :: "'k aya \<Rightarrow> string \<Rightarrow> ('k EbpfEnforcer, unit) act" where
  "ebpf_remove_netkit_rules K nk_name =
     bindM (getM (\<lambda>s. hm_get (nk_info s) nk_name)) (\<lambda>info.
     case info of
       Some (_, _, _, _, ipv6_bytes) \<Rightarrow>
         bindM (modifyM (\<lambda>s. s\<lparr>nk_info := hm_remove nk_name (nk_info s)\<rparr>)) (\<lambda>_.
         bindM (tryM (on_kern (k_map K ''ENDPOINTS''))) (\<lambda>r.
         bindM (case r of Inr _ \<Rightarrow> ignoreM (on_kern (k_endpoint_remove K ipv6_bytes)) | Inl _ \<Rightarrow> returnM ()) (\<lambda>_.
         modifyM (\<lambda>s. s\<lparr>pod_bpf := hm_remove nk_name (pod_bpf s)\<rparr>))))
     | None \<Rightarrow> returnM ())"

text \<open>The keys a peering stands for, in the order the code inserts them.\<close>

definition direction_keys :: "PeeringDirection \<Rightarrow> u16 \<Rightarrow> u16 \<Rightarrow> PeeringKey list" where
  "direction_keys dir a b =
     (case dir of
        Bidirectional \<Rightarrow> [\<lparr> src_vpc_id = a, dst_vpc_id = b \<rparr>, \<lparr> src_vpc_id = b, dst_vpc_id = a \<rparr>]
      | InitiatorOnly \<Rightarrow> [\<lparr> src_vpc_id = a, dst_vpc_id = b \<rparr>])"

definition ebpf_install_peering_rules :: "'k aya \<Rightarrow> VpcPeering \<Rightarrow> Vpc list \<Rightarrow> ('k EbpfEnforcer, unit) act" where
  "ebpf_install_peering_rules K peering vpcs =
     (if VpcPeering_status peering \<noteq> Peering_Active then returnM ()
      else
      case (find (\<lambda>v. Vpc_name v = VpcPeering_vpc_a peering) vpcs, find (\<lambda>v. Vpc_name v = VpcPeering_vpc_b peering) vpcs) of
        (Some vpc_a, Some vpc_b) \<Rightarrow>
          (let keys = direction_keys (VpcPeering_direction peering) (Vpc_vpc_id vpc_a) (Vpc_vpc_id vpc_b) in
           bindM (on_kern (k_map K ''PEERINGS'')) (\<lambda>_.
           bindM (forM keys (\<lambda>k. on_kern (k_peering_insert K k 1))) (\<lambda>_.
           modifyM (\<lambda>s. s\<lparr>peering_to_keys := hm_insert (VpcPeering_name peering) keys (peering_to_keys s)\<rparr>))))
      | _ \<Rightarrow> returnM ())"

definition ebpf_remove_peering_rules :: "'k aya \<Rightarrow> string \<Rightarrow> ('k EbpfEnforcer, unit) act" where
  "ebpf_remove_peering_rules K peering_name =
     bindM (getM (\<lambda>s. hm_get (peering_to_keys s) peering_name)) (\<lambda>entry.
     case entry of
       Some keys \<Rightarrow>
         bindM (modifyM (\<lambda>s. s\<lparr>peering_to_keys := hm_remove peering_name (peering_to_keys s)\<rparr>)) (\<lambda>_.
         bindM (on_kern (k_map K ''PEERINGS'')) (\<lambda>_.
         forM keys (\<lambda>key. ignoreM (on_kern (k_peering_remove K key)))))
     | None \<Rightarrow> returnM ())"

definition ebpf_install_nat64 :: "'k aya \<Rightarrow> string \<Rightarrow> string \<Rightarrow> string \<Rightarrow> ('k EbpfEnforcer, unit) act" where
  "ebpf_install_nat64 K node_ipv4 bridge_name phys_name =
     bindM (liftR (ok_or (parse_ipv4 node_ipv4) ''invalid node IPv4 for NAT64'')) (\<lambda>node_ip.
     bindM (on_kern (k_ifindex K phys_name)) (\<lambda>phys_ifindex.
     bindM (on_kern (k_map K ''NAT64_CONFIG'')) (\<lambda>_.
     bindM (on_kern (k_nat64_set K \<lparr> Nat64Config_node_ipv4 = node_ip, Nat64Config_phys_ifindex = phys_ifindex \<rparr>)) (\<lambda>_.
     bindM (forM [bridge_name, phys_name] (\<lambda>iface. ignoreM (on_kern (k_qdisc_add_clsact K iface)))) (\<lambda>_.
     bindM (attach_shared K ''nat64_egress'' bridge_name Egress) (\<lambda>_.
     attach_shared K ''nat64_ingress'' phys_name Ingress))))))"

definition ebpf_remove_nat64 :: "'k aya \<Rightarrow> ('k EbpfEnforcer, unit) act" where
  "ebpf_remove_nat64 K =
     bindM (tryM (on_kern (k_map K ''NAT64_CONFIG''))) (\<lambda>r.
     case r of
       Inr _ \<Rightarrow> ignoreM (on_kern (k_nat64_set K \<lparr> Nat64Config_node_ipv4 = 0, Nat64Config_phys_ifindex = 0 \<rparr>))
     | Inl _ \<Rightarrow> returnM ())"

definition ebpf_cleanup :: "'k aya \<Rightarrow> ('k EbpfEnforcer, unit) act" where
  "ebpf_cleanup K =
     bindM (ignoreM (on_kern (k_remove_pin_dir K))) (\<lambda>_.
     modifyM (\<lambda>s. s\<lparr>active_vpcs := [], peering_to_keys := [], pod_bpf := [], nk_info := [], tap_bpf := [], tap_to_ip := []\<rparr>))"

section \<open>The snapshot text\<close>

definition leading_ones :: "u32 \<Rightarrow> nat" where
  "leading_ones m = length (takeWhile (bit m) (rev [0..<32]))"

definition show_hex_08 :: "u32 \<Rightarrow> string" where
  "show_hex_08 x = (let h = show_hex (unat x) in replicate (8 - length h) (CHR ''0'') @ h)"

definition newline :: string where
  "newline = [char_of (10 :: nat)]"

text \<open>The arrow of the messages is one character outside ASCII; it stands here as its UTF-8 bytes.\<close>

definition arrow :: string where
  "arrow = '' '' @ map char_of [226 :: nat, 134, 146] @ '' ''"

definition ok_lines :: "('a \<Rightarrow> string) \<Rightarrow> 'a result list \<Rightarrow> string" where
  "ok_lines f items = concat (map (\<lambda>i. case i of Inr x \<Rightarrow> f x @ newline | Inl _ \<Rightarrow> []) items)"

definition snapshot_text :: "'k aya \<Rightarrow> 'k EbpfEnforcer \<Rightarrow> bool \<Rightarrow> string" where
  "snapshot_text K s endpoints_ok =
     ''=== eBPF Enforcer Snapshot ==='' @ newline
     @ newline @ ''platform_prefix=0x'' @ show_hex_08 (EbpfEnforcer_platform_prefix s)
     @ '' cluster_id='' @ show_dec (unat (EbpfEnforcer_cluster_id s)) @ newline
     @ newline @ ''[VPC CIDRs]'' @ newline
     @ ok_lines (\<lambda>(k, v). ''  vpc_id='' @ show_dec (unat k) @ '' cidr='' @ show_ipv4 (VpcCidrValue_network v)
         @ ''/'' @ show_dec (leading_ones (VpcCidrValue_mask v))) (k_cidr_iter K (kern s))
     @ newline @ ''[Peerings]'' @ newline
     @ ok_lines (\<lambda>(k, v). ''  vpc '' @ show_dec (unat (src_vpc_id k)) @ arrow @ ''vpc '' @ show_dec (unat (dst_vpc_id k))
         @ '' (allowed='' @ show_dec (unat v) @ '')'') (k_peering_iter K (kern s))
     @ newline @ ''[Endpoints (redirect_peer)]'' @ newline
     @ (if endpoints_ok then ok_lines (\<lambda>(k, v). ''  '' @ show_ipv6 k @ arrow @ ''ifindex='' @ show_dec (unat v))
         (k_endpoint_iter K (kern s)) else [])
     @ newline @ ''[Per-Netkit SIIT Instances]'' @ newline
     @ concat (map (\<lambda>(nk, ip, vid, _, _, _). ''  nk='' @ nk @ '' ipv4='' @ show_ipv4 ip @ '' vpc_id='' @ show_dec (unat vid) @ newline) (nk_info s))
     @ newline @ ''[Per-TAP Instances]'' @ newline
     @ concat (map (\<lambda>(tap, ip, vid). ''  tap='' @ tap @ '' ipv4='' @ show_ipv4 ip @ '' vpc_id='' @ show_dec (unat vid) @ newline) (tap_to_ip s))"

definition ebpf_snapshot :: "'k aya \<Rightarrow> ('k EbpfEnforcer, string) act" where
  "ebpf_snapshot K =
     bindM (on_kern (k_map K ''VPC_CIDRS'')) (\<lambda>_.
     bindM (on_kern (k_map K ''PEERINGS'')) (\<lambda>_.
     bindM (tryM (on_kern (k_map K ''ENDPOINTS''))) (\<lambda>r.
     getM (\<lambda>s. snapshot_text K s (case r of Inr _ \<Rightarrow> True | Inl _ \<Rightarrow> False)))))"

definition EbpfEnforcer_ops :: "'k aya \<Rightarrow> 'k EbpfEnforcer NetworkEnforcer" where
  "EbpfEnforcer_ops K =
     \<lparr> enf_name = ''ebpf'', enf_init = ebpf_init K, ensure_vpc = ebpf_ensure_vpc K, remove_vpc = ebpf_remove_vpc K,
       install_tap_rules = ebpf_install_tap_rules K, remove_tap_rules = ebpf_remove_tap_rules,
       install_netkit_rules = ebpf_install_netkit_rules K, remove_netkit_rules = ebpf_remove_netkit_rules K,
       install_peering_rules = ebpf_install_peering_rules K, remove_peering_rules = ebpf_remove_peering_rules K,
       install_nat64 = ebpf_install_nat64 K, remove_nat64 = ebpf_remove_nat64 K, enf_snapshot = ebpf_snapshot K,
       enf_cleanup = ebpf_cleanup K \<rparr>"

section \<open>What the kernel promises\<close>

text \<open>The content of the pinned maps.\<close>

record pinned =
  VPC_CIDRS :: "u16 \<rightharpoonup> VpcCidrValue"
  peering_map :: "PeeringKey \<rightharpoonup> u32"
  endpoint_map :: "ipv6 \<rightharpoonup> u32"

definition same_pins :: "('k \<Rightarrow> pinned) \<Rightarrow> ('k, 'a) act \<Rightarrow> bool" where
  "same_pins view m \<longleftrightarrow> (\<forall>k. view (snd (m k)) = view k)"

locale bpf_kernel =
  fixes K :: "'k aya" and view :: "'k \<Rightarrow> pinned"
  assumes quiet: "same_pins view (k_create_pin_dir K)" "same_pins view (k_load K R)" "same_pins view (k_program K prog)"
      "same_pins view (k_prog_load K prog)" "same_pins view (k_attach K prog iface dir)"
      "same_pins view (k_qdisc_add_clsact K iface)" "same_pins view (k_open_netns K pid)" "same_pins view (k_setns K ns)"
      "same_pins view (k_ifindex K iface)" "same_pins view (k_map K mname)" "same_pins view (k_nat64_set K cfg)"
    and cidr_insert: "k_cidr_insert K vid v k = (r, k') \<Longrightarrow>
      view k' = (view k)\<lparr>VPC_CIDRS := (if isl r then VPC_CIDRS (view k) else (VPC_CIDRS (view k))(vid \<mapsto> v))\<rparr>"
    and cidr_remove: "k_cidr_remove K vid k = (r, k') \<Longrightarrow> view k' = (view k)\<lparr>VPC_CIDRS := (VPC_CIDRS (view k))(vid := None)\<rparr>"
    and peering_insert: "k_peering_insert K key w k = (r, k') \<Longrightarrow>
      view k' = (view k)\<lparr>peering_map := (if isl r then peering_map (view k) else (peering_map (view k))(key \<mapsto> w))\<rparr>"
    and peering_remove: "k_peering_remove K key k = (r, k') \<Longrightarrow> view k' = (view k)\<lparr>peering_map := (peering_map (view k))(key := None)\<rparr>"
    and endpoint_insert: "k_endpoint_insert K a i k = (r, k') \<Longrightarrow>
      view k' = (view k)\<lparr>endpoint_map := (if isl r then endpoint_map (view k) else (endpoint_map (view k))(a \<mapsto> i))\<rparr>"
    and endpoint_remove: "k_endpoint_remove K a k = (r, k') \<Longrightarrow> view k' = (view k)\<lparr>endpoint_map := (endpoint_map (view k))(a := None)\<rparr>"
begin

abbreviation pins :: "'k EbpfEnforcer \<Rightarrow> pinned" where
  "pins s \<equiv> view (kern s)"

text \<open>An invariant of the maps and the enforcer's own tables, kept by an action that leaves them alone.\<close>

lemma keeps_quiet:
  assumes "same_pins view m" and "\<And>s k. I s \<Longrightarrow> view k = pins s \<Longrightarrow> I (s\<lparr>kern := k\<rparr>)"
  shows "keeps I (on_kern m)"
  using assms by (auto simp: keeps_def on_kern_def same_pins_def split: prod.splits) (metis snd_conv)

end

lemma keeps_modify: "(\<And>s. I s \<Longrightarrow> I (f s)) \<Longrightarrow> keeps I (modifyM f)"
  by (simp add: keeps_def modifyM_def)

text \<open>The kernel with room in the peering map, which holds 1024 entries: an insert does not fail.\<close>

locale bpf_kernel_room = bpf_kernel +
  assumes room: "fst (k_peering_insert K key w k) = Inr ()" and map_there: "fst (k_map K ''PEERINGS'' k) = Inr ()"

section \<open>Who owns which peering key\<close>

definition peering_keys :: "VpcPeering \<Rightarrow> Vpc list \<Rightarrow> PeeringKey list" where
  "peering_keys p vpcs =
     (if VpcPeering_status p \<noteq> Peering_Active then []
      else case (find (\<lambda>v. Vpc_name v = VpcPeering_vpc_a p) vpcs, find (\<lambda>v. Vpc_name v = VpcPeering_vpc_b p) vpcs) of
        (Some a, Some b) \<Rightarrow> direction_keys (VpcPeering_direction p) (Vpc_vpc_id a) (Vpc_vpc_id b)
      | _ \<Rightarrow> [])"

definition owned_keys :: "'k EbpfEnforcer \<Rightarrow> string \<Rightarrow> PeeringKey set" where
  "owned_keys s n = (case hm_get (peering_to_keys s) n of None \<Rightarrow> {} | Some keys \<Rightarrow> set keys)"

definition allowed_keys :: "('k \<Rightarrow> pinned) \<Rightarrow> 'k EbpfEnforcer \<Rightarrow> PeeringKey set" where
  "allowed_keys view s = dom (peering_map (view (kern s)))"

text \<open>The interface the daemon relies on: which keys an enforcer lets through and which peering they
  were installed for.\<close>

locale peering_enforcer =
  fixes E :: "'e NetworkEnforcer" and allowed :: "'e \<Rightarrow> PeeringKey set" and owned :: "'e \<Rightarrow> string \<Rightarrow> PeeringKey set"
  assumes install_ok: "install_peering_rules E p vpcs e = (r, e') \<Longrightarrow> allowed e' = allowed e \<union> set (peering_keys p vpcs)"
    and install_owned: "install_peering_rules E p vpcs e = (r, e') \<Longrightarrow>
      owned e' = (if peering_keys p vpcs = [] then owned e else (owned e)(VpcPeering_name p := set (peering_keys p vpcs)))"
    and remove_ok: "remove_peering_rules E n e = (r, e') \<Longrightarrow> allowed e' = allowed e - owned e n"
    and remove_owned: "remove_peering_rules E n e = (r, e') \<Longrightarrow> owned e' = (owned e)(n := {})"
    and ensure_keeps: "ensure_vpc E v c e = (r, e') \<Longrightarrow> allowed e' = allowed e \<and> owned e' = owned e"
    and remove_vpc_keeps: "remove_vpc E v e = (r, e') \<Longrightarrow> allowed e' = allowed e \<and> owned e' = owned e"
    and tap_keeps: "install_tap_rules E t g a v c e = (r, e') \<Longrightarrow> allowed e' = allowed e \<and> owned e' = owned e"
      "remove_tap_rules E t e = (r, e') \<Longrightarrow> allowed e' = allowed e \<and> owned e' = owned e"
    and netkit_keeps: "install_netkit_rules E t g a v c pid e = (r, e') \<Longrightarrow> allowed e' = allowed e \<and> owned e' = owned e"
      "remove_netkit_rules E t e = (r, e') \<Longrightarrow> allowed e' = allowed e \<and> owned e' = owned e"
    and init_keeps: "enf_init E e = (r, e') \<Longrightarrow> allowed e' = allowed e \<and> owned e' = owned e"
    and snapshot_keeps: "enf_snapshot E e = (txt_r, e') \<Longrightarrow> allowed e' = allowed e \<and> owned e' = owned e"

context bpf_kernel
begin

text \<open>Actions that touch neither the peering map nor the table of owners.\<close>

definition peerings_same :: "(PeeringKey \<rightharpoonup> u32) \<Rightarrow> (string, PeeringKey list) hmap \<Rightarrow> 'k EbpfEnforcer \<Rightarrow> bool" where
  "peerings_same M T s \<longleftrightarrow> peering_map (pins s) = M \<and> peering_to_keys s = T"

lemma same_on_kern: "same_pins view m \<Longrightarrow> keeps (peerings_same M T) (on_kern m)"
  by (rule keeps_quiet) (auto simp: peerings_same_def)

lemma same_cidr:
  "keeps (peerings_same M T) (on_kern (k_cidr_insert K v c))" "keeps (peerings_same M T) (on_kern (k_cidr_remove K v))"
  using cidr_insert cidr_remove
  by (auto simp: keeps_def on_kern_def peerings_same_def split: prod.splits)

lemma ebpf_ensure_same: "keeps (peerings_same M T) (ebpf_ensure_vpc K v c)"
  unfolding ebpf_ensure_vpc_def
  by (intro keeps_intro same_on_kern same_cidr quiet keeps_modify) (auto simp: peerings_same_def)

lemma ebpf_remove_vpc_same: "keeps (peerings_same M T) (ebpf_remove_vpc K v)"
  unfolding ebpf_remove_vpc_def
  by (intro keeps_intro same_on_kern same_cidr quiet keeps_modify) (auto simp: peerings_same_def)

lemma same_endpoint:
  "keeps (peerings_same M T) (on_kern (k_endpoint_insert K a i))" "keeps (peerings_same M T) (on_kern (k_endpoint_remove K a))"
  using endpoint_insert endpoint_remove
  by (auto simp: keeps_def on_kern_def peerings_same_def split: prod.splits)

lemma same_attach: "keeps (peerings_same M T) (attach_isolation K iface)" "keeps (peerings_same M T) (attach_siit K pid)"
  "keeps (peerings_same M T) (attach_pod K nk R pid)"
  unfolding attach_isolation_def attach_shared_def attach_siit_def attach_pod_def by (intro keeps_intro same_on_kern quiet)+

lemma ebpf_interfaces_same:
  "keeps (peerings_same M T) (ebpf_install_tap_rules K t g a v c)" "keeps (peerings_same M T) (ebpf_remove_tap_rules t)"
  "keeps (peerings_same M T) (ebpf_install_netkit_rules K t g a v c pid)" "keeps (peerings_same M T) (ebpf_remove_netkit_rules K t)"
  unfolding ebpf_install_tap_rules_def ebpf_install_netkit_rules_def ebpf_remove_tap_rules_def ebpf_remove_netkit_rules_def
  by (intro keeps_intro same_on_kern same_attach same_endpoint quiet keeps_modify; auto simp: peerings_same_def split: option.splits)+

lemma ebpf_init_same: "keeps (peerings_same M T) (ebpf_init K)" "keeps (peerings_same M T) (ebpf_snapshot K)"
  unfolding ebpf_init_def ebpf_snapshot_def
  by (intro keeps_intro same_on_kern quiet keeps_modify; auto simp: peerings_same_def)+

text \<open>An action that keeps every \<open>peerings_same\<close> changes neither the keys nor their owners.\<close>

lemma same_keys:
  assumes "\<And>M T. keeps (peerings_same M T) m" and "m e = (r, e')"
  shows "allowed_keys view e' = allowed_keys view e \<and> owned_keys e' = owned_keys e"
  using keepsD [OF assms(1) _ assms(2), of "peering_map (pins e)" "peering_to_keys e"]
  by (simp add: peerings_same_def allowed_keys_def owned_keys_def [abs_def])

end

context bpf_kernel_room
begin

lemma insert_keys:
  "forM keys (\<lambda>k. on_kern (k_peering_insert K k 1)) s = (r, s') \<Longrightarrow>
     r = Inr () \<and> allowed_keys view s' = allowed_keys view s \<union> set keys \<and> peering_to_keys s' = peering_to_keys s"
proof (induction keys arbitrary: s)
  case Nil
  then show ?case by (simp add: returnM_def)
next
  case (Cons key keys)
  obtain k' where k': "k_peering_insert K key 1 (kern s) = (Inr (), k')"
    using room [of key 1 "kern s"] by (cases "k_peering_insert K key 1 (kern s)") auto
  then have one: "on_kern (k_peering_insert K key 1) s = (Inr (), s\<lparr>kern := k'\<rparr>)" by (simp add: on_kern_def)
  have rest: "forM keys (\<lambda>k. on_kern (k_peering_insert K k 1)) (s\<lparr>kern := k'\<rparr>) = (r, s')"
    using Cons.prems by (simp add: bindM_def one)
  show ?case using Cons.IH [OF rest] peering_insert [OF k'] by (auto simp: allowed_keys_def)
qed

lemma remove_keys:
  "forM keys (\<lambda>key. ignoreM (on_kern (k_peering_remove K key))) s = (r, s') \<Longrightarrow>
     allowed_keys view s' = allowed_keys view s - set keys \<and> peering_to_keys s' = peering_to_keys s"
proof (induction keys arbitrary: s)
  case Nil
  then show ?case by (simp add: returnM_def)
next
  case (Cons key keys)
  obtain r' k' where k': "k_peering_remove K key (kern s) = (r', k')" by (cases "k_peering_remove K key (kern s)")
  then have one: "ignoreM (on_kern (k_peering_remove K key)) s = (Inr (), s\<lparr>kern := k'\<rparr>)"
    by (simp add: on_kern_def ignoreM_def)
  have rest: "forM keys (\<lambda>key. ignoreM (on_kern (k_peering_remove K key))) (s\<lparr>kern := k'\<rparr>) = (r, s')"
    using Cons.prems by (simp add: bindM_def one)
  show ?case using Cons.IH [OF rest] peering_remove [OF k'] by (auto simp: allowed_keys_def)
qed

lemma map_found:
  obtains s1 where "on_kern (k_map K ''PEERINGS'') s = (Inr (), s1)" "allowed_keys view s1 = allowed_keys view s"
    "peering_to_keys s1 = peering_to_keys s"
proof -
  obtain k' where k': "k_map K ''PEERINGS'' (kern s) = (Inr (), k')"
    using map_there [of "kern s"] by (cases "k_map K ''PEERINGS'' (kern s)") auto
  then have "view k' = view (kern s)" using quiet(10) [of "''PEERINGS''"] by (auto simp: same_pins_def) (metis snd_conv)
  then show thesis using that [of "s\<lparr>kern := k'\<rparr>"] k' by (simp add: on_kern_def allowed_keys_def)
qed

lemma ebpf_install_peering:
  assumes "ebpf_install_peering_rules K p vpcs s = (r, s')"
  shows "r = Inr ()" "allowed_keys view s' = allowed_keys view s \<union> set (peering_keys p vpcs)"
    "owned_keys s' = (if peering_keys p vpcs = [] then owned_keys s else (owned_keys s)(VpcPeering_name p := set (peering_keys p vpcs)))"
proof -
  have "r = Inr () \<and> allowed_keys view s' = allowed_keys view s \<union> set (peering_keys p vpcs) \<and>
    owned_keys s' = (if peering_keys p vpcs = [] then owned_keys s else (owned_keys s)(VpcPeering_name p := set (peering_keys p vpcs)))"
  proof (cases "peering_keys p vpcs = []")
    case True
    have "s' = s \<and> r = Inr ()"
      using assms True
      by (auto simp: ebpf_install_peering_rules_def peering_keys_def returnM_def direction_keys_def Let_def
          split: option.splits if_splits PeeringDirection.splits)
    then show ?thesis using True by simp
  next
    case False
    then have "ebpf_install_peering_rules K p vpcs = bindM (on_kern (k_map K ''PEERINGS'')) (\<lambda>_.
           bindM (forM (peering_keys p vpcs) (\<lambda>k. on_kern (k_peering_insert K k 1))) (\<lambda>_.
           modifyM (\<lambda>s. s\<lparr>peering_to_keys := hm_insert (VpcPeering_name p) (peering_keys p vpcs) (peering_to_keys s)\<rparr>)))"
      by (auto simp: ebpf_install_peering_rules_def peering_keys_def Let_def split: option.splits if_splits)
    note def = this
    obtain s1 where m: "on_kern (k_map K ''PEERINGS'') s = (Inr (), s1)" "allowed_keys view s1 = allowed_keys view s"
      "peering_to_keys s1 = peering_to_keys s" by (rule map_found)
    obtain r2 s2 where f: "forM (peering_keys p vpcs) (\<lambda>k. on_kern (k_peering_insert K k 1)) s1 = (r2, s2)" by (meson surj_pair)
    note i = insert_keys [OF f]
    have "r = Inr ()" and s': "s' = s2\<lparr>peering_to_keys := hm_insert (VpcPeering_name p) (peering_keys p vpcs) (peering_to_keys s2)\<rparr>"
      using assms m(1) f i unfolding def by (simp_all add: bindM_def modifyM_def)
    then show ?thesis using i m False
      by (auto simp: allowed_keys_def owned_keys_def fun_eq_iff hmap_simps)
  qed
  then show "r = Inr ()" "allowed_keys view s' = allowed_keys view s \<union> set (peering_keys p vpcs)"
    "owned_keys s' = (if peering_keys p vpcs = [] then owned_keys s else (owned_keys s)(VpcPeering_name p := set (peering_keys p vpcs)))"
    by simp_all
qed

lemma ebpf_remove_peering:
  assumes "ebpf_remove_peering_rules K n s = (r, s')"
  shows "allowed_keys view s' = allowed_keys view s - owned_keys s n \<and> owned_keys s' = (owned_keys s)(n := {})"
proof (cases "hm_get (peering_to_keys s) n")
  case None
  then show ?thesis using assms
    by (auto simp: ebpf_remove_peering_rules_def bindM_def getM_def returnM_def owned_keys_def fun_eq_iff)
next
  case (Some keys)
  let ?s0 = "s\<lparr>peering_to_keys := hm_remove n (peering_to_keys s)\<rparr>"
  obtain s1 where m: "on_kern (k_map K ''PEERINGS'') ?s0 = (Inr (), s1)" "allowed_keys view s1 = allowed_keys view ?s0"
    "peering_to_keys s1 = peering_to_keys ?s0" by (rule map_found)
  have "forM keys (\<lambda>key. ignoreM (on_kern (k_peering_remove K key))) s1 = (r, s')"
    using assms Some m(1) by (simp add: ebpf_remove_peering_rules_def bindM_def getM_def modifyM_def)
  from remove_keys [OF this] show ?thesis using m Some
    by (auto simp: allowed_keys_def owned_keys_def fun_eq_iff hmap_simps)
qed

sublocale ebpf: peering_enforcer "EbpfEnforcer_ops K" "allowed_keys view" owned_keys
  by unfold_locales
    (use ebpf_install_peering ebpf_remove_peering same_keys [OF ebpf_ensure_same] same_keys [OF ebpf_remove_vpc_same]
       same_keys [OF ebpf_interfaces_same(1)] same_keys [OF ebpf_interfaces_same(2)] same_keys [OF ebpf_interfaces_same(3)]
       same_keys [OF ebpf_interfaces_same(4)] same_keys [OF ebpf_init_same(1)] same_keys [OF ebpf_init_same(2)] in \<open>auto simp: EbpfEnforcer_ops_def\<close>)

lemma ebpf_peering_enforcer: "peering_enforcer (EbpfEnforcer_ops K) (allowed_keys view) owned_keys"
  by (rule ebpf.peering_enforcer_axioms)

end

section \<open>A kernel that keeps its promises\<close>

text \<open>The pinned maps as association lists; every call succeeds.\<close>

record memk =
  mk_cidrs :: "(u16, VpcCidrValue) hmap"
  mk_peerings :: "(PeeringKey, u32) hmap"
  mk_endpoints :: "(ipv6, u32) hmap"

definition mem_view :: "memk \<Rightarrow> pinned" where
  "mem_view k = \<lparr> VPC_CIDRS = hm_get (mk_cidrs k), peering_map = hm_get (mk_peerings k), endpoint_map = hm_get (mk_endpoints k) \<rparr>"

definition mem_kernel :: "memk aya" where
  "mem_kernel =
     \<lparr> k_create_pin_dir = returnM (), k_has_pinned_maps = (\<lambda>k. True), k_remove_pin_dir = returnM (),
       k_load = (\<lambda>_. returnM ()), k_program = (\<lambda>_. returnM ()), k_prog_load = (\<lambda>_. returnM ()),
       k_attach = (\<lambda>_ _ _. returnM ()), k_qdisc_add_clsact = (\<lambda>_. returnM ()), k_open_netns = (\<lambda>_. returnM ()),
       k_setns = (\<lambda>_. returnM ()), k_ifindex = (\<lambda>_. returnM 4), k_map = (\<lambda>_. returnM ()),
       k_cidr_iter = (\<lambda>k. map Inr (mk_cidrs k)),
       k_cidr_insert = (\<lambda>v c. modifyM (\<lambda>k. k\<lparr>mk_cidrs := hm_insert v c (mk_cidrs k)\<rparr>)),
       k_cidr_remove = (\<lambda>v. modifyM (\<lambda>k. k\<lparr>mk_cidrs := hm_remove v (mk_cidrs k)\<rparr>)),
       k_peering_iter = (\<lambda>k. map Inr (mk_peerings k)),
       k_peering_insert = (\<lambda>key v. modifyM (\<lambda>k. k\<lparr>mk_peerings := hm_insert key v (mk_peerings k)\<rparr>)),
       k_peering_remove = (\<lambda>key. modifyM (\<lambda>k. k\<lparr>mk_peerings := hm_remove key (mk_peerings k)\<rparr>)),
       k_endpoint_iter = (\<lambda>k. map Inr (mk_endpoints k)),
       k_endpoint_insert = (\<lambda>a i. modifyM (\<lambda>k. k\<lparr>mk_endpoints := hm_insert a i (mk_endpoints k)\<rparr>)),
       k_endpoint_remove = (\<lambda>a. modifyM (\<lambda>k. k\<lparr>mk_endpoints := hm_remove a (mk_endpoints k)\<rparr>)),
       k_nat64_set = (\<lambda>_. returnM ()) \<rparr>"

interpretation membpf: bpf_kernel_room mem_kernel mem_view
  by unfold_locales
    (auto simp: mem_kernel_def mem_view_def same_pins_def returnM_def modifyM_def fun_eq_iff hmap_simps)

section \<open>Attaching a pod\<close>

context bpf_kernel
begin

text \<open>Actions that touch neither the endpoint map nor the table of instances.\<close>

definition endpoints_same :: "(ipv6 \<rightharpoonup> u32) \<Rightarrow> u32 \<Rightarrow> u32 \<Rightarrow> 'k EbpfEnforcer \<Rightarrow> bool" where
  "endpoints_same M p c s \<longleftrightarrow> endpoint_map (pins s) = M \<and> EbpfEnforcer_platform_prefix s = p \<and> EbpfEnforcer_cluster_id s = c"

lemma endpoints_on_kern: "same_pins view m \<Longrightarrow> keeps (endpoints_same M p c) (on_kern m)"
  by (rule keeps_quiet) (auto simp: endpoints_same_def)

lemma endpoints_attach: "keeps (endpoints_same M p c) (attach_isolation K iface)" "keeps (endpoints_same M p c) (attach_siit K pid)"
  unfolding attach_isolation_def attach_shared_def attach_siit_def by (intro keeps_intro endpoints_on_kern quiet)+

lemma endpoints_attach_pod: "keeps (endpoints_same M p c) (attach_pod K nk R pid)"
  unfolding attach_pod_def by (intro keeps_intro endpoints_on_kern endpoints_attach quiet)

text \<open>A netkit attachment that succeeds: the constants it bakes in and the endpoint it adds.\<close>

lemma install_netkit_ok:
  assumes "ebpf_install_netkit_rules K nk g a vid cidr pid s = (Inr u, s')"
  obtains ip addr net m i where "parse_ipv4 g = Some ip" "parse_ipv6 a = Some addr" "enforcer_parse_cidr cidr = Inr (net, m)"
    "hm_get (pod_bpf s') nk = Some (baked s addr ip vid (net, m))"
    "endpoint_map (pins s') = (endpoint_map (pins s))(addr \<mapsto> i)"
proof -
  let ?I = "endpoints_same (endpoint_map (pins s)) (EbpfEnforcer_platform_prefix s) (EbpfEnforcer_cluster_id s)"
  from assms obtain ip addr cd s1 s2 s3 i s4 s5 v w where p: "parse_ipv4 g = Some ip" "parse_ipv6 a = Some addr" "enforcer_parse_cidr cidr = Inr cd"
    and run: "attach_pod K nk (baked s addr ip vid cd) pid s = (Inr (), s1)"
    and idx: "on_kern (k_ifindex K nk) s1 = (Inr i, s2)" and mp: "on_kern (k_map K ''ENDPOINTS'') s2 = (Inr v, s3)"
    and ins: "on_kern (k_endpoint_insert K addr i) s3 = (Inr w, s4)"
    and fin: "s' = s4\<lparr>pod_bpf := hm_insert nk (baked s addr ip vid cd) (pod_bpf s4),
                    nk_info := hm_insert nk (ip, vid, fst cd, snd cd, addr) (nk_info s4)\<rparr>"
    unfolding ebpf_install_netkit_rules_def
    by (auto simp: bindM_Inr liftR_def getM_def modifyM_def)
  have start: "?I s" by (simp add: endpoints_same_def)
  have "?I s1" by (rule keepsD [OF endpoints_attach_pod start run])
  then have "?I s2" by (rule keepsD [OF endpoints_on_kern [OF quiet(9)] _ idx])
  then have I3: "?I s3" by (rule keepsD [OF endpoints_on_kern [OF quiet(10)] _ mp])
  obtain k' where k': "k_endpoint_insert K addr i (kern s3) = (Inr w, k')" "s4 = s3\<lparr>kern := k'\<rparr>"
    using ins by (auto simp: on_kern_def split: prod.splits)
  have "endpoint_map (pins s4) = (endpoint_map (pins s))(addr \<mapsto> i)"
    using endpoint_insert [OF k'(1)] I3 by (simp add: k'(2) endpoints_same_def)
  then show thesis using that [of ip addr "fst cd" "snd cd" i] p fin by (simp add: hmap_simps)
qed

end

end
