(* ===== verification/Vpc_Protocol.thy ===== *)
theory Vpc_Protocol
  imports K3_Action K3_Types
begin

text \<open>
  The socket between the agent and the VPC daemon: the messages (\<open>cmd/k3rs-vpc/src/protocol.rs\<close>) and the
  agent's client (\<open>cmd/k3rs-agent/src/vpc_client.rs\<close>). One exchange over the socket is a parameter of
  the client, \<open>request\<close>; the daemon's side is in \<open>Vpc_Daemon\<close>.
\<close>

section \<open>Messages\<close>

datatype VpcRequest =
    Allocate string string
  | Release string string
  | Query string
  | GetRoutes u16
  | CheckReachability string string
  | AttachNetkit string string string u16 string u32
  | DetachNetkit string
  | AttachTap string string string u16 string
  | DetachTap string
  | ListVpcs
  | Ping
  | GetWgPublicKey

record RouteEntry =
  RouteEntry_destination :: string
  RouteEntry_next_hop :: string

record VpcInfo =
  VpcInfo_name :: string
  VpcInfo_vpc_id :: u16
  VpcInfo_ipv4_cidr :: string
  VpcInfo_status :: VpcStatus

datatype VpcResponse =
    Allocated string string u16 string
  | Released
  | QueryResponse string string u16 string
  | Routes "RouteEntry list"
  | Reachable bool
  | VpcList "VpcInfo list"
  | Pong
  | WgPublicKey "string option" "u16 option"
  | Response_Ok
  | Response_Error string string

fun err_text :: "error \<Rightarrow> string" where
  "err_text (Err m) = m"

section \<open>The client\<close>

text \<open>Every call sends one message and takes one kind of answer; an error answer or another kind is an error.\<close>

definition expecting :: "string \<Rightarrow> (VpcRequest \<Rightarrow> ('w, VpcResponse) act) \<Rightarrow> VpcRequest \<Rightarrow> (VpcResponse \<Rightarrow> 'a option) \<Rightarrow> ('w, 'a) act" where
  "expecting what request req take_answer =
     bindM (request req) (\<lambda>resp. case take_answer resp of
         Some x \<Rightarrow> returnM x
       | None \<Rightarrow> (case resp of
           Response_Error code message \<Rightarrow> failM (Err (''VPC '' @ what @ '' error ['' @ code @ '']: '' @ message))
         | _ \<Rightarrow> failM (Err (''Unexpected VPC response to '' @ what))))"

text \<open>An error of the exchange itself is tried again, five times in all; any answer ends the loop.\<close>

fun allocate_attempts :: "(VpcRequest \<Rightarrow> ('w, VpcResponse) act) \<Rightarrow> VpcRequest \<Rightarrow> nat \<Rightarrow> error option \<Rightarrow> ('w, string \<times> string \<times> u16 \<times> string) act" where
  "allocate_attempts request req 0 last_err = failM (case last_err of Some e \<Rightarrow> e | None \<Rightarrow> Err ''VPC allocate failed after 5 retries'')"
| "allocate_attempts request req (Suc n) last_err =
     bindM (tryM (request req)) (\<lambda>r. case r of
         Inr (Allocated guest_ipv4 ghost_ipv6 vid vpc_cidr) \<Rightarrow> returnM (guest_ipv4, ghost_ipv6, vid, vpc_cidr)
       | Inr (Response_Error code message) \<Rightarrow> failM (Err (''VPC allocate error ['' @ code @ '']: '' @ message))
       | Inr _ \<Rightarrow> failM (Err ''Unexpected VPC response to Allocate'')
       | Inl e \<Rightarrow> allocate_attempts request req n (Some e))"

definition vpc_allocate :: "('w \<Rightarrow> bool) \<Rightarrow> (VpcRequest \<Rightarrow> ('w, VpcResponse) act) \<Rightarrow> string \<Rightarrow> string \<Rightarrow> ('w, string \<times> string \<times> u16 \<times> string) act" where
  "vpc_allocate socket_exists request pod_id vpc_name =
     bindM (getM socket_exists) (\<lambda>there.
       if \<not> there then failM (Err ''VPC daemon socket not found'')
       else allocate_attempts request (Allocate pod_id vpc_name) 5 None)"

definition vpc_release :: "(VpcRequest \<Rightarrow> ('w, VpcResponse) act) \<Rightarrow> string \<Rightarrow> string \<Rightarrow> ('w, unit) act" where
  "vpc_release request pod_id vpc_name =
     expecting ''release'' request (Release pod_id vpc_name) (\<lambda>resp. case resp of Released \<Rightarrow> Some () | _ \<Rightarrow> None)"

definition vpc_list_vpcs :: "(VpcRequest \<Rightarrow> ('w, VpcResponse) act) \<Rightarrow> ('w, VpcInfo list) act" where
  "vpc_list_vpcs request = expecting ''list_vpcs'' request ListVpcs (\<lambda>resp. case resp of VpcList vpcs \<Rightarrow> Some vpcs | _ \<Rightarrow> None)"

definition vpc_get_routes :: "(VpcRequest \<Rightarrow> ('w, VpcResponse) act) \<Rightarrow> u16 \<Rightarrow> ('w, RouteEntry list) act" where
  "vpc_get_routes request vid = expecting ''get_routes'' request (GetRoutes vid) (\<lambda>resp. case resp of Routes entries \<Rightarrow> Some entries | _ \<Rightarrow> None)"

definition vpc_check_reachability :: "(VpcRequest \<Rightarrow> ('w, VpcResponse) act) \<Rightarrow> string \<Rightarrow> string \<Rightarrow> ('w, bool) act" where
  "vpc_check_reachability request src_vpc dst_vpc =
     expecting ''check_reachability'' request (CheckReachability src_vpc dst_vpc) (\<lambda>resp. case resp of Reachable b \<Rightarrow> Some b | _ \<Rightarrow> None)"

definition answered_ok :: "VpcResponse \<Rightarrow> unit option" where
  "answered_ok resp = (case resp of Response_Ok \<Rightarrow> Some () | _ \<Rightarrow> None)"

definition vpc_attach_netkit :: "(VpcRequest \<Rightarrow> ('w, VpcResponse) act) \<Rightarrow> string \<Rightarrow> string \<Rightarrow> string \<Rightarrow> u16 \<Rightarrow> string \<Rightarrow> u32 \<Rightarrow> ('w, unit) act" where
  "vpc_attach_netkit request nk_name guest_ipv4 ghost_ipv6 vid vpc_cidr pid =
     expecting ''attach_netkit'' request (AttachNetkit nk_name guest_ipv4 ghost_ipv6 vid vpc_cidr pid) answered_ok"

definition vpc_detach_netkit :: "(VpcRequest \<Rightarrow> ('w, VpcResponse) act) \<Rightarrow> string \<Rightarrow> ('w, unit) act" where
  "vpc_detach_netkit request nk_name = expecting ''detach_netkit'' request (DetachNetkit nk_name) answered_ok"

definition vpc_attach_tap :: "(VpcRequest \<Rightarrow> ('w, VpcResponse) act) \<Rightarrow> string \<Rightarrow> string \<Rightarrow> string \<Rightarrow> u16 \<Rightarrow> string \<Rightarrow> ('w, unit) act" where
  "vpc_attach_tap request tap_name guest_ipv4 ghost_ipv6 vid vpc_cidr =
     expecting ''attach_tap'' request (AttachTap tap_name guest_ipv4 ghost_ipv6 vid vpc_cidr) answered_ok"

definition vpc_detach_tap :: "(VpcRequest \<Rightarrow> ('w, VpcResponse) act) \<Rightarrow> string \<Rightarrow> ('w, unit) act" where
  "vpc_detach_tap request tap_name = expecting ''detach_tap'' request (DetachTap tap_name) answered_ok"

definition vpc_get_wg_public_key :: "(VpcRequest \<Rightarrow> ('w, VpcResponse) act) \<Rightarrow> ('w, string option \<times> u16 option) act" where
  "vpc_get_wg_public_key request =
     expecting ''get_wg_public_key'' request GetWgPublicKey (\<lambda>resp. case resp of WgPublicKey k p \<Rightarrow> Some (k, p) | _ \<Rightarrow> None)"

definition vpc_ping :: "(VpcRequest \<Rightarrow> ('w, VpcResponse) act) \<Rightarrow> ('w, unit) act" where
  "vpc_ping request = expecting ''ping'' request Ping (\<lambda>resp. case resp of Pong \<Rightarrow> Some () | _ \<Rightarrow> None)"

lemma expecting_Inr: "expecting what request req f w = (Inr x, w') \<longleftrightarrow> (\<exists>resp. request req w = (Inr resp, w') \<and> f resp = Some x)"
  by (auto simp: expecting_def bindM_def action_defs split: prod.splits sum.splits option.splits VpcResponse.splits)

end
