(* ===== verification/Vpc_Daemon.thy ===== *)
theory Vpc_Daemon
  imports Vpc_Enforcer Vpc_Protocol
begin

text \<open>
  The VPC daemon around allocator, store and enforcer: one pass of the sync loop (\<open>sync.rs\<close>), the
  socket requests (\<open>protocol.rs\<close>, \<open>socket.rs\<close>) and the start of the daemon (\<open>main.rs\<close>). The server's
  answers are arguments. The lemmas, proved once for every enforcer with the contract
  \<open>peering_enforcer\<close>, relate the peerings the server lists to the pairs of VPCs the data path lets
  talk.
\<close>

section \<open>State\<close>

record ('db, 'e) vpcd =
  vd_alloc :: "'db GhostAllocator"
  vd_enf :: 'e
  prev_vpc_ids :: "(u16, string) hmap"
  prev_peering_names :: "string list"

definition on_alloc :: "('db GhostAllocator, 'a) act \<Rightarrow> (('db, 'e) vpcd, 'a) act" where
  "on_alloc m s = (case m (vd_alloc s) of (r, a) \<Rightarrow> (r, s\<lparr>vd_alloc := a\<rparr>))"

definition on_enf :: "('e, 'a) act \<Rightarrow> (('db, 'e) vpcd, 'a) act" where
  "on_enf m s = (case m (vd_enf s) of (r, e) \<Rightarrow> (r, s\<lparr>vd_enf := e\<rparr>))"

section \<open>The sync loop\<close>

definition is_active :: "VpcPeering \<Rightarrow> bool" where
  "is_active p \<longleftrightarrow> VpcPeering_status p = Peering_Active"

definition active_names :: "VpcPeering list \<Rightarrow> string list" where
  "active_names peerings = remdups (map VpcPeering_name (filter is_active peerings))"

text \<open>Rules of the VPCs: ensured for those listed, removed for those the last pass had and this one lacks.\<close>

definition sync_vpc_rules :: "'e NetworkEnforcer \<Rightarrow> Vpc list \<Rightarrow> (u16, string) hmap \<Rightarrow> ('e, unit) act" where
  "sync_vpc_rules E vpcs prev =
     bindM (forM vpcs (\<lambda>vpc. ignoreM (ensure_vpc E (Vpc_vpc_id vpc) (Vpc_ipv4_cidr vpc)))) (\<lambda>_.
     forM (map fst prev) (\<lambda>vid. if vid \<notin> Vpc_vpc_id ` set vpcs then ignoreM (remove_vpc E vid) else returnM ()))"

text \<open>Rules of the peerings: those that went away are removed, the active ones removed and installed afresh.\<close>

definition refresh_peering :: "'e NetworkEnforcer \<Rightarrow> Vpc list \<Rightarrow> VpcPeering \<Rightarrow> ('e, unit) act" where
  "refresh_peering E vpcs peering =
     bindM (ignoreM (remove_peering_rules E (VpcPeering_name peering))) (\<lambda>_.
     ignoreM (install_peering_rules E peering vpcs))"

definition sync_peering_rules :: "'e NetworkEnforcer \<Rightarrow> Vpc list \<Rightarrow> VpcPeering list \<Rightarrow> string list \<Rightarrow> ('e, unit) act" where
  "sync_peering_rules E vpcs peerings prev =
     bindM (forM prev (\<lambda>n. if n \<notin> set (active_names peerings) then ignoreM (remove_peering_rules E n) else returnM ())) (\<lambda>_.
     forM (filter is_active peerings) (refresh_peering E vpcs))"

definition update_meta :: "('db, 'v) VpcDb \<Rightarrow> 'v vpc_serde \<Rightarrow> DateTime \<Rightarrow> ('db GhostAllocator, unit) act" where
  "update_meta V C now =
     bindM (tryM (load_meta V C)) (\<lambda>r.
     let existing_meta = (case r of Inr m \<Rightarrow> m | Inl _ \<Rightarrow> None);
         cluster_id = Option.bind existing_meta VpcDaemonMeta_cluster_id
     in ignoreM (save_meta V C \<lparr> VpcDaemonMeta_cluster_id = cluster_id, VpcDaemonMeta_platform_prefix = PLATFORM_PREFIX,
          VpcDaemonMeta_last_synced_at = now \<rparr>))"

text \<open>One pass; a failed request or an answer that does not parse skips the rest of it.\<close>

definition sync_pass ::
  "('db, 'v) VpcDb \<Rightarrow> 'v vpc_serde \<Rightarrow> 'e NetworkEnforcer \<Rightarrow> Vpc list result \<Rightarrow> VpcPeering list result \<Rightarrow> DateTime \<Rightarrow>
    (('db, 'e) vpcd, unit) act" where
  "sync_pass V C E got_vpcs got_peerings now =
     (case got_vpcs of Inl _ \<Rightarrow> returnM () | Inr vpcs \<Rightarrow>
     (case got_peerings of Inl _ \<Rightarrow> returnM () | Inr peerings \<Rightarrow>
     bindM (ignoreM (on_alloc (save_vpcs V C vpcs))) (\<lambda>_.
     bindM (ignoreM (on_alloc (save_peerings V C peerings))) (\<lambda>_.
     bindM (on_alloc (modifyM (sync_vpcs vpcs))) (\<lambda>_.
     bindM (getM prev_vpc_ids) (\<lambda>prev.
     bindM (on_enf (sync_vpc_rules E vpcs prev)) (\<lambda>_.
     bindM (modifyM (\<lambda>s. s\<lparr>prev_vpc_ids := fold (\<lambda>v m. hm_insert (Vpc_vpc_id v) (Vpc_ipv4_cidr v) m) vpcs []\<rparr>)) (\<lambda>_.
     bindM (getM prev_peering_names) (\<lambda>prevp.
     bindM (on_enf (sync_peering_rules E vpcs peerings prevp)) (\<lambda>_.
     bindM (modifyM (\<lambda>s. s\<lparr>prev_peering_names := active_names peerings\<rparr>)) (\<lambda>_.
     on_alloc (update_meta V C now))))))))))))"

section \<open>The socket\<close>

definition peering_permits :: "string \<Rightarrow> string \<Rightarrow> VpcPeering \<Rightarrow> bool" where
  "peering_permits src_vpc dst_vpc p =
     (if VpcPeering_status p \<noteq> Peering_Active then False
      else case VpcPeering_direction p of
        Bidirectional \<Rightarrow> VpcPeering_vpc_a p = src_vpc \<and> VpcPeering_vpc_b p = dst_vpc \<or>
          VpcPeering_vpc_a p = dst_vpc \<and> VpcPeering_vpc_b p = src_vpc
      | InitiatorOnly \<Rightarrow> VpcPeering_vpc_a p = src_vpc \<and> VpcPeering_vpc_b p = dst_vpc)"

text \<open>The answer to an enforcer request: \<open>Ok\<close> or an error with this code and message.\<close>

definition enf_response :: "string \<Rightarrow> string \<Rightarrow> ('e, unit) act \<Rightarrow> ('db, 'e) vpcd \<Rightarrow> VpcResponse \<times> ('db, 'e) vpcd" where
  "enf_response code msg m s =
     (case on_enf m s of
        (Inr _, s') \<Rightarrow> (Response_Ok, s')
      | (Inl e, s') \<Rightarrow> (Response_Error code (msg @ '': '' @ err_text e), s'))"

definition dispatch ::
  "('db, 'v) VpcDb \<Rightarrow> 'v vpc_serde \<Rightarrow> 'e NetworkEnforcer \<Rightarrow> DateTime \<Rightarrow> (string \<times> u16) option \<Rightarrow> VpcRequest \<Rightarrow>
    ('db, 'e) vpcd \<Rightarrow> VpcResponse \<times> ('db, 'e) vpcd" where
  "dispatch V C E now wg_manager req s =
     (case req of
        Ping \<Rightarrow> (Pong, s)
      | ListVpcs \<Rightarrow>
          (case load_vpcs V C (vd_alloc s) of
             (Inr vpcs, a) \<Rightarrow> (VpcList (map (\<lambda>v. \<lparr> VpcInfo_name = Vpc_name v, VpcInfo_vpc_id = Vpc_vpc_id v,
                VpcInfo_ipv4_cidr = Vpc_ipv4_cidr v, VpcInfo_status = Vpc_status v \<rparr>) vpcs), s\<lparr>vd_alloc := a\<rparr>)
           | (Inl e, a) \<Rightarrow> (Response_Error ''store_error'' (''Failed to load VPCs: '' @ err_text e), s\<lparr>vd_alloc := a\<rparr>))
      | Allocate pod_id vpc_name \<Rightarrow>
          (case on_alloc (allocate V C now pod_id vpc_name) s of
             (Inr result, s') \<Rightarrow> (Allocated (show_ipv4 (AllocateResult_guest_ipv4 result)) (show_ipv6 (AllocateResult_ghost_ipv6 result))
                (AllocateResult_vpc_id result) (AllocateResult_vpc_cidr result), s')
           | (Inl e, s') \<Rightarrow> (Response_Error ''allocate_error'' (err_text e), s'))
      | Release pod_id vpc_name \<Rightarrow>
          (case on_alloc (release V pod_id vpc_name) s of
             (Inr _, s') \<Rightarrow> (Released, s')
           | (Inl e, s') \<Rightarrow> (Response_Error ''release_error'' (err_text e), s'))
      | GetRoutes vid \<Rightarrow>
          (Routes (map (\<lambda>(_, guest, ghost). \<lparr> RouteEntry_destination = guest, RouteEntry_next_hop = ghost \<rparr>)
             (get_routes vid (vd_alloc s))), s)
      | Query pod_id \<Rightarrow>
          (case query pod_id (vd_alloc s) of
             Some result \<Rightarrow> (QueryResponse (show_ipv4 (QueryResult_guest_ipv4 result)) (show_ipv6 (QueryResult_ghost_ipv6 result))
                (QueryResult_vpc_id result) (QueryResult_vpc_name result), s)
           | None \<Rightarrow> (Response_Error ''not_found'' (''No allocation for pod '' @ [CHR 0x27] @ pod_id @ [CHR 0x27]), s))
      | AttachNetkit nk_name guest_str ghost_str vid vpc_cidr container_pid \<Rightarrow>
          enf_response ''attach_netkit_error'' (''Failed to attach TC to netkit '' @ nk_name)
            (install_netkit_rules E nk_name guest_str ghost_str vid vpc_cidr container_pid) s
      | DetachNetkit nk_name \<Rightarrow>
          enf_response ''detach_netkit_error'' (''Failed to detach TC from netkit '' @ nk_name) (remove_netkit_rules E nk_name) s
      | AttachTap tap_name guest_str ghost_str vid vpc_cidr \<Rightarrow>
          enf_response ''attach_tap_error'' (''Failed to attach TC to TAP '' @ tap_name)
            (install_tap_rules E tap_name guest_str ghost_str vid vpc_cidr) s
      | DetachTap tap_name \<Rightarrow>
          enf_response ''detach_tap_error'' (''Failed to detach TC from TAP '' @ tap_name) (remove_tap_rules E tap_name) s
      | GetWgPublicKey \<Rightarrow>
          (case wg_manager of
             Some (public_key, listen_port) \<Rightarrow> (WgPublicKey (Some public_key) (Some listen_port), s)
           | None \<Rightarrow> (WgPublicKey None None, s))
      | CheckReachability src_vpc dst_vpc \<Rightarrow>
          if src_vpc = dst_vpc then (Reachable True, s)
          else
          (case load_peerings V C (vd_alloc s) of
             (Inr peerings, a) \<Rightarrow> (Reachable (list_ex (peering_permits src_vpc dst_vpc) peerings), s\<lparr>vd_alloc := a\<rparr>)
           | (Inl e, a) \<Rightarrow> (Response_Error ''store_error'' (''Failed to load peerings: '' @ err_text e), s\<lparr>vd_alloc := a\<rparr>)))"

section \<open>Start\<close>

text \<open>\<open>main\<close> from the loads to the first pass, without the cleanup flag and NAT64.\<close>

definition boot_enforcer ::
  "'e NetworkEnforcer \<Rightarrow> Vpc list \<Rightarrow> StoredAllocation list \<Rightarrow> VpcPeering list \<Rightarrow> ('e, string result) act" where
  "boot_enforcer E cached_vpcs stored_allocations cached_peerings =
     bindM (enf_init E) (\<lambda>_.
     bindM (rebuild E cached_vpcs stored_allocations cached_peerings) (\<lambda>_.
     tryM (enf_snapshot E)))"

definition daemon_boot ::
  "('db, 'v) VpcDb \<Rightarrow> 'v vpc_serde \<Rightarrow> 'e NetworkEnforcer \<Rightarrow> (u32 \<Rightarrow> u32 \<Rightarrow> 'e) \<Rightarrow> 'db \<Rightarrow> ('db, 'e) vpcd result" where
  "daemon_boot V C E select_enforcer db =
     (let s = \<lparr> VpcStore_db = db \<rparr> in
      bindR (fst (load_vpcs V C s)) (\<lambda>cached_vpcs.
      bindR (fst (load_peerings V C s)) (\<lambda>cached_peerings.
      bindR (fst (load_all_allocations V C s)) (\<lambda>stored_allocations.
      bindR (daemon_start V C db) (\<lambda>allocator.
      let enf = select_enforcer (GhostAllocator_platform_prefix allocator) (GhostAllocator_cluster_id allocator) in
      (case boot_enforcer E cached_vpcs stored_allocations cached_peerings enf of
         (Inl e, _) \<Rightarrow> Inl e
       | (Inr snap_r, enf) \<Rightarrow>
           Inr \<lparr> vd_alloc = (case snap_r of Inl _ \<Rightarrow> allocator | Inr snap \<Rightarrow> snd (save_enforcer_snapshot V C snap allocator)),
                 vd_enf = enf, prev_vpc_ids = [], prev_peering_names = [] \<rparr>))))))"

section \<open>What a pass installs\<close>

text \<open>The pairs of VPC ids that the active peerings of a list allow.\<close>

definition active_keys :: "Vpc list \<Rightarrow> VpcPeering list \<Rightarrow> PeeringKey set" where
  "active_keys vpcs peerings = (\<Union>p \<in> set (filter is_active peerings). set (peering_keys p vpcs))"

lemma peering_keys_inactive: "\<not> is_active p \<Longrightarrow> peering_keys p vpcs = []"
  by (simp add: is_active_def peering_keys_def)

context peering_enforcer
begin

text \<open>Every key in the map belongs to a peering of this list of names.\<close>

definition covered :: "string set \<Rightarrow> 'e \<Rightarrow> bool" where
  "covered N e \<longleftrightarrow> (\<forall>k \<in> allowed e. \<exists>n. k \<in> owned e n) \<and> (\<forall>n. owned e n \<noteq> {} \<longrightarrow> n \<in> N)"

lemma coveredD: "covered N e \<Longrightarrow> k \<in> allowed e \<Longrightarrow> \<exists>n. k \<in> owned e n" "covered N e \<Longrightarrow> owned e n \<noteq> {} \<Longrightarrow> n \<in> N"
  by (simp_all add: covered_def)

definition same_peerings :: "'e \<Rightarrow> 'e \<Rightarrow> bool" where
  "same_peerings e e' \<longleftrightarrow> allowed e' = allowed e \<and> owned e' = owned e"

lemma vpc_rules_same: "keeps (same_peerings e) (sync_vpc_rules E vpcs prev)"
proof -
  have "keeps (same_peerings e) (ensure_vpc E v c)" "keeps (same_peerings e) (remove_vpc E v)" for v c
    unfolding keeps_def same_peerings_def using ensure_keeps remove_vpc_keeps by (metis surjective_pairing)+
  then show ?thesis unfolding sync_vpc_rules_def by (intro keeps_intro)
qed

text \<open>Removing the peerings that went away.\<close>

lemma remove_stale:
  "forM prev (\<lambda>n. if n \<notin> A then ignoreM (remove_peering_rules E n) else returnM ()) e = (r, e') \<Longrightarrow> covered N e \<Longrightarrow>
     r = Inr () \<and> covered N e' \<and> owned e' = (\<lambda>n. if n \<in> set prev \<and> n \<notin> A then {} else owned e n)"
proof (induction prev arbitrary: e)
  case Nil
  then show ?case by (simp add: returnM_def)
next
  case (Cons n prev)
  show ?case
  proof (cases "n \<in> A")
    case True
    then have "forM prev (\<lambda>n. if n \<notin> A then ignoreM (remove_peering_rules E n) else returnM ()) e = (r, e')"
      using Cons.prems(1) by (simp add: bindM_def returnM_def)
    from Cons.IH [OF this Cons.prems(2)] show ?thesis using True by (auto simp: fun_eq_iff)
  next
    case False
    obtain r1 e1 where rm: "remove_peering_rules E n e = (r1, e1)" by (meson surj_pair)
    have "forM prev (\<lambda>n. if n \<notin> A then ignoreM (remove_peering_rules E n) else returnM ()) e1 = (r, e')"
      using Cons.prems(1) False by (simp add: bindM_def ignoreM_def rm)
    moreover have "covered N e1"
      using Cons.prems(2) unfolding covered_def remove_ok [OF rm] remove_owned [OF rm] by (metis DiffE fun_upd_apply)
    ultimately show ?thesis using Cons.IH False by (auto simp: fun_eq_iff remove_owned [OF rm])
  qed
qed

text \<open>Refreshing one active peering.\<close>

lemma refresh_ok:
  assumes "refresh_peering E vpcs p e = (r, e')"
  shows "r = Inr ()" "allowed e' = (allowed e - owned e (VpcPeering_name p)) \<union> set (peering_keys p vpcs)"
    "owned e' = (owned e)(VpcPeering_name p := set (peering_keys p vpcs))"
proof -
  obtain r1 e1 where rm: "remove_peering_rules E (VpcPeering_name p) e = (r1, e1)" by (meson surj_pair)
  obtain r2 where ins: "install_peering_rules E p vpcs e1 = (r2, e')" and "r = Inr ()"
    using assms rm by (auto simp: refresh_peering_def bindM_def ignoreM_def split: prod.splits) (metis surjective_pairing)
  show "r = Inr ()" by fact
  show "allowed e' = (allowed e - owned e (VpcPeering_name p)) \<union> set (peering_keys p vpcs)"
    by (simp add: install_ok [OF ins] remove_ok [OF rm])
  show "owned e' = (owned e)(VpcPeering_name p := set (peering_keys p vpcs))"
    by (simp add: install_owned [OF ins] remove_owned [OF rm])
qed

lemma refresh_all:
  "forM ps (refresh_peering E vpcs) e = (r, e') \<Longrightarrow> covered N e \<Longrightarrow>
     r = Inr () \<and> covered (N \<union> VpcPeering_name ` set ps) e' \<and>
     (\<forall>n. n \<notin> VpcPeering_name ` set ps \<longrightarrow> owned e' n = owned e n) \<and>
     (\<forall>n \<in> VpcPeering_name ` set ps. \<exists>p \<in> set ps. VpcPeering_name p = n \<and> owned e' n = set (peering_keys p vpcs))"
proof (induction ps arbitrary: e N)
  case Nil
  then show ?case by (simp add: returnM_def)
next
  case (Cons p ps)
  obtain r1 e1 where one: "refresh_peering E vpcs p e = (r1, e1)" by (meson surj_pair)
  note o = refresh_ok [OF one]
  have rest: "forM ps (refresh_peering E vpcs) e1 = (r, e')"
    using Cons.prems(1) o(1) by (simp add: bindM_def one)
  have "covered (insert (VpcPeering_name p) N) e1"
    using Cons.prems(2) unfolding covered_def o(2,3) by (metis DiffE UnE fun_upd_apply insert_iff)
  from Cons.IH [OF rest this] show ?case
    by (auto simp: o(3) image_iff split: if_splits)
qed

lemma sync_peerings_ok:
  assumes run: "sync_peering_rules E vpcs peerings prev e = (r, e')" and cov: "covered (set prev) e"
  shows "r = Inr ()" "covered (set (active_names peerings)) e'" "allowed e' \<subseteq> active_keys vpcs peerings"
    "\<And>n. n \<notin> set (active_names peerings) \<Longrightarrow> owned e' n = {}"
    "\<And>n. n \<in> set (active_names peerings) \<Longrightarrow> \<exists>p \<in> set peerings. is_active p \<and> VpcPeering_name p = n \<and> owned e' n = set (peering_keys p vpcs)"
proof -
  let ?A = "set (active_names peerings)" and ?ps = "filter is_active peerings"
  have A: "?A = VpcPeering_name ` set ?ps" by (simp add: active_names_def)
  obtain r1 e1 where st: "forM prev (\<lambda>n. if n \<notin> ?A then ignoreM (remove_peering_rules E n) else returnM ()) e = (r1, e1)"
    by (meson surj_pair)
  note one = remove_stale [OF st cov]
  have rest: "forM ?ps (refresh_peering E vpcs) e1 = (r, e')"
    using run one unfolding sync_peering_rules_def by (simp add: bindM_def st)
  note c1 = one [THEN conjunct2, THEN conjunct1] and ow = one [THEN conjunct2, THEN conjunct2]
  have "n \<in> set prev \<inter> ?A" if "owned e1 n \<noteq> {}" for n
    using coveredD(2) [OF c1 that] fun_cong [OF ow, of n] that by (cases "n \<in> ?A") simp_all
  then have "covered (set prev \<inter> ?A) e1" using c1 unfolding covered_def by (elim conjE) (intro conjI allI impI)
  note two = refresh_all [OF rest this]
  show "r = Inr ()" using two by simp
  have "set prev \<inter> ?A \<union> VpcPeering_name ` set ?ps = ?A" using A by blast
  then show cov': "covered ?A e'" using two by simp
  show out: "owned e' n = {}" if "n \<notin> ?A" for n using coveredD(2) [OF cov', of n] that by metis
  show ins: "\<exists>p \<in> set peerings. is_active p \<and> VpcPeering_name p = n \<and> owned e' n = set (peering_keys p vpcs)" if "n \<in> ?A" for n
  proof -
    from two have "\<forall>n \<in> VpcPeering_name ` set ?ps. \<exists>p \<in> set ?ps. VpcPeering_name p = n \<and> owned e' n = set (peering_keys p vpcs)"
      by (elim conjE)
    from bspec [OF this that [unfolded A]] show ?thesis by auto
  qed
  show "allowed e' \<subseteq> active_keys vpcs peerings"
  proof
    fix k assume "k \<in> allowed e'"
    then obtain n where n: "k \<in> owned e' n" using coveredD(1) [OF cov'] by metis
    then have "n \<in> ?A" using out by auto
    from ins [OF this] show "k \<in> active_keys vpcs peerings" using n by (auto simp: active_keys_def)
  qed
qed

text \<open>When the list did not change since the last pass, nothing is lost on the way.\<close>

lemma refresh_stable:
  "forM ps (refresh_peering E vpcs) e = (r, e') \<Longrightarrow> \<forall>p \<in> set ps. owned e (VpcPeering_name p) = set (peering_keys p vpcs) \<Longrightarrow>
     allowed e' = allowed e \<union> (\<Union>p \<in> set ps. set (peering_keys p vpcs))"
proof (induction ps arbitrary: e)
  case Nil
  then show ?case by (simp add: returnM_def)
next
  case (Cons p ps)
  obtain r1 e1 where one: "refresh_peering E vpcs p e = (r1, e1)" by (meson surj_pair)
  note o = refresh_ok [OF one]
  have rest: "forM ps (refresh_peering E vpcs) e1 = (r, e')"
    using Cons.prems(1) o(1) by (simp add: bindM_def one)
  have same: "owned e1 = owned e" using Cons.prems(2) by (simp add: o(3) fun_eq_iff)
  have "allowed e1 = allowed e \<union> set (peering_keys p vpcs)" using Cons.prems(2) by (auto simp: o(2))
  then show ?case using Cons.IH [OF rest] Cons.prems(2) by (auto simp: same)
qed

lemma sync_peerings_stable:
  assumes run: "sync_peering_rules E vpcs peerings prev e = (r, e')" and cov: "covered (set prev) e"
    and stable: "\<And>p. p \<in> set peerings \<Longrightarrow> is_active p \<Longrightarrow> owned e (VpcPeering_name p) = set (peering_keys p vpcs)"
  shows "allowed e' = active_keys vpcs peerings"
proof
  show "allowed e' \<subseteq> active_keys vpcs peerings" by (rule sync_peerings_ok(3) [OF run cov])
  let ?A = "set (active_names peerings)" and ?ps = "filter is_active peerings"
  obtain r1 e1 where st: "forM prev (\<lambda>n. if n \<notin> ?A then ignoreM (remove_peering_rules E n) else returnM ()) e = (r1, e1)"
    by (meson surj_pair)
  note one = remove_stale [OF st cov]
  have rest: "forM ?ps (refresh_peering E vpcs) e1 = (r, e')"
    using run one unfolding sync_peering_rules_def by (simp add: bindM_def st)
  have "\<forall>p \<in> set ?ps. owned e1 (VpcPeering_name p) = set (peering_keys p vpcs)"
    using one stable by (auto simp: active_names_def)
  from refresh_stable [OF rest this] show "active_keys vpcs peerings \<subseteq> allowed e'" by (auto simp: active_keys_def)
qed

end

section \<open>Runs of the daemon\<close>

text \<open>A run: passes of the sync loop with whatever the server answers, and requests on the socket. The two
  tasks share the enforcer and the allocator through locks, so that they interleave between these
  steps only.\<close>

inductive vpcd_step ::
  "('db, 'v) VpcDb \<Rightarrow> 'v vpc_serde \<Rightarrow> 'e NetworkEnforcer \<Rightarrow> ('db, 'e) vpcd \<Rightarrow> ('db, 'e) vpcd \<Rightarrow> bool" for V C E where
  Sync: "snd (sync_pass V C E got_vpcs got_peerings now d) = d' \<Longrightarrow> vpcd_step V C E d d'"
| Request: "snd (dispatch V C E now wg req d) = d' \<Longrightarrow> vpcd_step V C E d d'"

text \<open>What a pass does to the enforcer and to the names it remembers.\<close>

lemma on_alloc_frame: "on_alloc m d = (r, d') \<Longrightarrow> vd_enf d' = vd_enf d \<and> prev_peering_names d' = prev_peering_names d \<and> prev_vpc_ids d' = prev_vpc_ids d"
  by (auto simp: on_alloc_def split: prod.splits)

lemma ignored_alloc:
  obtains d' where "ignoreM (on_alloc m) d = (Inr (), d')" "vd_enf d' = vd_enf d" "prev_peering_names d' = prev_peering_names d"
    "prev_vpc_ids d' = prev_vpc_ids d"
  using that [of "snd (on_alloc m d)"] by (simp add: ignoreM_def on_alloc_def split: prod.splits)

lemma sync_pass_enf:
  assumes run: "sync_pass V C E (Inr vpcs) (Inr peerings) now d = (r, d')"
    and ok: "fst (sync_vpc_rules E vpcs (prev_vpc_ids d) (vd_enf d)) = Inr ()"
      "\<And>e. fst (sync_peering_rules E vpcs peerings (prev_peering_names d) e) = Inr ()"
  shows "vd_enf d' = snd (sync_peering_rules E vpcs peerings (prev_peering_names d)
      (snd (sync_vpc_rules E vpcs (prev_vpc_ids d) (vd_enf d))))"
    and "prev_peering_names d' = active_names peerings"
proof -
  define e1 where "e1 = snd (sync_vpc_rules E vpcs (prev_vpc_ids d) (vd_enf d))"
  define e2 where "e2 = snd (sync_peering_rules E vpcs peerings (prev_peering_names d) e1)"
  obtain da where a: "ignoreM (on_alloc (save_vpcs V C vpcs)) d = (Inr (), da)"
    and fa: "vd_enf da = vd_enf d" "prev_peering_names da = prev_peering_names d" "prev_vpc_ids da = prev_vpc_ids d"
    by (rule ignored_alloc)
  obtain db where b: "ignoreM (on_alloc (save_peerings V C peerings)) da = (Inr (), db)"
    and fb: "vd_enf db = vd_enf d" "prev_peering_names db = prev_peering_names d" "prev_vpc_ids db = prev_vpc_ids d"
    by (rule ignored_alloc [where d = da, unfolded fa])
  define dc where "dc = db\<lparr>vd_alloc := sync_vpcs vpcs (vd_alloc db)\<rparr>"
  have c: "on_alloc (modifyM (sync_vpcs vpcs)) db = (Inr (), dc)" by (simp add: dc_def on_alloc_def modifyM_def)
  have fc: "vd_enf dc = vd_enf d" "prev_peering_names dc = prev_peering_names d" "prev_vpc_ids dc = prev_vpc_ids d"
    by (simp_all add: dc_def fb)
  have p1: "sync_vpc_rules E vpcs (prev_vpc_ids d) (vd_enf d) = (Inr (), e1)"
    and p2: "sync_peering_rules E vpcs peerings (prev_peering_names d) e1 = (Inr (), e2)"
    using ok by (simp_all add: prod_eq_iff e1_def e2_def)
  define d2 where "d2 = dc\<lparr>prev_vpc_ids := fold (\<lambda>v m. hm_insert (Vpc_vpc_id v) (Vpc_ipv4_cidr v) m) vpcs [], vd_enf := e2,
      prev_peering_names := active_names peerings\<rparr>"
  have "on_alloc (update_meta V C now) d2 = (r, d')"
    unfolding run [symmetric] sync_pass_def
    by (simp add: bindM_def a b c getM_def modifyM_def on_enf_def fc p1 p2 d2_def)
  from on_alloc_frame [OF this]
  show "vd_enf d' = snd (sync_peering_rules E vpcs peerings (prev_peering_names d)
      (snd (sync_vpc_rules E vpcs (prev_vpc_ids d) (vd_enf d))))" "prev_peering_names d' = active_names peerings"
    by (simp_all add: d2_def e2_def e1_def)
qed

lemma bindM_Inr_unit: "fst (m s) = Inr () \<Longrightarrow> (\<And>s. fst (f () s) = Inr ()) \<Longrightarrow> fst (bindM m f s) = Inr ()"
  by (auto simp: bindM_def split: prod.splits sum.splits)

lemma forM_Inr: "(\<And>x s. x \<in> set xs \<Longrightarrow> fst (f x s) = Inr ()) \<Longrightarrow> fst (forM xs f s) = Inr ()"
proof (induction xs arbitrary: s)
  case Nil
  then show ?case by (simp add: returnM_def)
next
  case (Cons x xs)
  show ?case unfolding forM.simps by (rule bindM_Inr_unit) (simp_all add: Cons)
qed

lemma sync_rules_Inr: "fst (sync_vpc_rules E vpcs prev e) = Inr ()" "fst (sync_peering_rules E vpcs peerings prevp e) = Inr ()"
  unfolding sync_vpc_rules_def sync_peering_rules_def refresh_peering_def
  by (auto intro!: bindM_Inr_unit forM_Inr simp: ignoreM_def returnM_def)

lemma on_enf_fields: "vd_enf (snd (on_enf m d)) = snd (m (vd_enf d))" "prev_peering_names (snd (on_enf m d)) = prev_peering_names d"
  by (simp_all add: on_enf_def split: prod.splits)

lemma enf_response_fields:
  "vd_enf (snd (enf_response c m act d)) = snd (act (vd_enf d))" "prev_peering_names (snd (enf_response c m act d)) = prev_peering_names d"
  by (simp_all add: enf_response_def on_enf_def split: prod.splits sum.splits)

lemma on_alloc_fields: "vd_enf (snd (on_alloc m d)) = vd_enf d" "prev_peering_names (snd (on_alloc m d)) = prev_peering_names d"
  by (simp_all add: on_alloc_def split: prod.splits)

context peering_enforcer
begin

lemma same_keeps:
  assumes "\<And>e r e'. m e = (r, e') \<Longrightarrow> allowed e' = allowed e \<and> owned e' = owned e"
  shows "keeps (same_peerings e0) m"
  unfolding keeps_def same_peerings_def using assms by (metis surjective_pairing)

lemma install_all:
  "forM ps (\<lambda>p. ignoreM (install_peering_rules E p vpcs)) e = (r, e') \<Longrightarrow>
     allowed e' = allowed e \<union> (\<Union>p \<in> set ps. set (peering_keys p vpcs))"
proof (induction ps arbitrary: e)
  case Nil
  then show ?case by (simp add: returnM_def)
next
  case (Cons p ps)
  obtain r1 e1 where one: "install_peering_rules E p vpcs e = (r1, e1)" by (meson surj_pair)
  then have ig: "ignoreM (install_peering_rules E p vpcs) e = (Inr (), e1)" by (simp add: ignoreM_def)
  have "forM ps (\<lambda>p. ignoreM (install_peering_rules E p vpcs)) e1 = (r, e')"
    using Cons.prems by (simp add: bindM_def ig)
  from Cons.IH [OF this] show ?case by (auto simp: install_ok [OF one])
qed

lemma rebuild_ok:
  assumes "rebuild E vpcs allocs ps e = (r, e')"
  shows "allowed e' = allowed e \<union> (\<Union>p \<in> set ps. set (peering_keys p vpcs))"
proof -
  let ?a = "forM vpcs (\<lambda>vpc. ignoreM (ensure_vpc E (Vpc_vpc_id vpc) (Vpc_ipv4_cidr vpc)))" and ?b = "forM allocs (rebuild_tap E vpcs)"
  have ka: "keeps (same_peerings e) ?a" "keeps (same_peerings e) ?b"
    unfolding rebuild_tap_def Let_def by (intro keeps_intro same_keeps ensure_keeps tap_keeps; assumption)+
  have ia: "fst (?a e0) = Inr ()" "fst (?b e0) = Inr ()" for e0
    by (auto intro!: forM_Inr simp: ignoreM_def returnM_def rebuild_tap_def Let_def)
  obtain e1 where a: "?a e = (Inr (), e1)" using ia(1) [of e] by (metis prod.collapse)
  obtain e2 where b: "?b e1 = (Inr (), e2)" using ia(2) [of e1] by (metis prod.collapse)
  have "same_peerings e e" by (simp add: same_peerings_def)
  from keepsD [OF ka(2) keepsD [OF ka(1) this a] b] have e2: "allowed e2 = allowed e" by (simp add: same_peerings_def)
  have "forM ps (\<lambda>p. ignoreM (install_peering_rules E p vpcs)) e2 = (r, e')"
    using assms by (simp add: rebuild_def bindM_def a b)
  from install_all [OF this] show ?thesis by (simp add: e2)
qed

lemma sync_nothing: "sync_peering_rules E vpcs [] [] e = (Inr (), e)"
  by (simp add: sync_peering_rules_def bindM_def returnM_def)

definition vpcd_ok :: "('db, 'e) vpcd \<Rightarrow> bool" where
  "vpcd_ok d \<longleftrightarrow> covered (set (prev_peering_names d)) (vd_enf d)"

lemma pass_vpc_rules: "allowed (snd (sync_vpc_rules E vpcs prev e)) = allowed e" "owned (snd (sync_vpc_rules E vpcs prev e)) = owned e"
  using vpc_rules_same [of e vpcs prev] by (auto simp: keeps_def same_peerings_def)

lemma sync_pass_ok:
  assumes run: "sync_pass V C E (Inr vpcs) (Inr peerings) now d = (r, d')" and ok: "vpcd_ok d"
  shows "vpcd_ok d'" "allowed (vd_enf d') \<subseteq> active_keys vpcs peerings"
    "prev_peering_names d' = active_names peerings"
    "\<And>n. n \<in> set (active_names peerings) \<Longrightarrow>
       \<exists>p \<in> set peerings. is_active p \<and> VpcPeering_name p = n \<and> owned (vd_enf d') n = set (peering_keys p vpcs)"
    "(\<And>p. p \<in> set peerings \<Longrightarrow> is_active p \<Longrightarrow> owned (vd_enf d) (VpcPeering_name p) = set (peering_keys p vpcs)) \<Longrightarrow>
       allowed (vd_enf d') = active_keys vpcs peerings"
proof -
  let ?e1 = "snd (sync_vpc_rules E vpcs (prev_vpc_ids d) (vd_enf d))"
  note p = sync_pass_enf [OF run sync_rules_Inr(1) sync_rules_Inr(2)]
  have run': "sync_peering_rules E vpcs peerings (prev_peering_names d) ?e1 = (Inr (), vd_enf d')"
    using sync_rules_Inr(2) [of E vpcs peerings "prev_peering_names d" ?e1] by (simp add: p(1) prod_eq_iff)
  have cov: "covered (set (prev_peering_names d)) ?e1"
    using ok unfolding vpcd_ok_def covered_def pass_vpc_rules .
  note sp = sync_peerings_ok [OF run' cov]
  show "vpcd_ok d'" unfolding vpcd_ok_def p(2) by (rule sp(2))
  show "allowed (vd_enf d') \<subseteq> active_keys vpcs peerings" by (rule sp(3))
  show "prev_peering_names d' = active_names peerings" by (rule p(2))
  show "\<exists>p \<in> set peerings. is_active p \<and> VpcPeering_name p = n \<and> owned (vd_enf d') n = set (peering_keys p vpcs)"
    if "n \<in> set (active_names peerings)" for n using sp(5) [OF that] .
  show "allowed (vd_enf d') = active_keys vpcs peerings"
    if "\<And>p. p \<in> set peerings \<Longrightarrow> is_active p \<Longrightarrow> owned (vd_enf d) (VpcPeering_name p) = set (peering_keys p vpcs)"
    by (rule sync_peerings_stable [OF run' cov]) (simp add: that pass_vpc_rules)
qed

lemma vpcd_ok_dispatch:
  fixes d :: "('db, 'e) vpcd"
  assumes "vpcd_ok d"
  shows "vpcd_ok (snd (dispatch V C E now wg req d))"
proof -
  have same: "vpcd_ok d'" if "prev_peering_names d' = prev_peering_names d"
    "allowed (vd_enf d') = allowed (vd_enf d) \<and> owned (vd_enf d') = owned (vd_enf d)" for d' :: "('db, 'e) vpcd"
    using assms that unfolding vpcd_ok_def covered_def by simp
  have enf: "vpcd_ok (snd (enf_response c m act d))"
    if "\<And>r e'. act (vd_enf d) = (r, e') \<Longrightarrow> allowed e' = allowed (vd_enf d) \<and> owned e' = owned (vd_enf d)" for c m act
    using that [of "fst (act (vd_enf d))" "snd (act (vd_enf d))"] by (intro same) (simp_all add: enf_response_fields)
  have alloc: "vpcd_ok (d\<lparr>vd_alloc := A\<rparr>)" for A
    by (rule same) simp_all
  show ?thesis
  proof (cases req)
    case (Allocate pod vpc)
    then show ?thesis by (auto simp: dispatch_def on_alloc_def alloc split: prod.splits sum.splits)
  next
    case (Release pod vpc)
    then show ?thesis by (auto simp: dispatch_def on_alloc_def alloc split: prod.splits sum.splits)
  next
    case (AttachNetkit nk g a v c pid)
    then show ?thesis unfolding dispatch_def by (simp, intro enf) (rule netkit_keeps(1))
  next
    case (DetachNetkit nk)
    then show ?thesis unfolding dispatch_def by (simp, intro enf) (rule netkit_keeps(2))
  next
    case (AttachTap t g a v c)
    then show ?thesis unfolding dispatch_def by (simp, intro enf) (rule tap_keeps(1))
  next
    case (DetachTap t)
    then show ?thesis unfolding dispatch_def by (simp, intro enf) (rule tap_keeps(2))
  qed (use assms in \<open>auto simp: dispatch_def alloc split: prod.splits sum.splits option.splits\<close>)
qed

lemma vpcd_ok_step: "vpcd_step V C E d d' \<Longrightarrow> vpcd_ok d \<Longrightarrow> vpcd_ok d'"
proof (cases rule: vpcd_step.cases, assumption)
  fix got_vpcs got_peerings now
  assume ok: "vpcd_ok d" and d': "snd (sync_pass V C E got_vpcs got_peerings now d) = d'"
  show "vpcd_ok d'"
  proof (cases got_vpcs; cases got_peerings)
    fix vpcs peerings assume "got_vpcs = Inr vpcs" "got_peerings = Inr peerings"
    then have "sync_pass V C E (Inr vpcs) (Inr peerings) now d = (fst (sync_pass V C E got_vpcs got_peerings now d), d')"
      using d' by (simp add: prod_eq_iff)
    from sync_pass_ok(1) [OF this ok] show ?thesis .
  qed (use ok d' in \<open>auto simp: sync_pass_def returnM_def\<close>)
next
  fix now wg req
  assume "vpcd_ok d" and "snd (dispatch V C E now wg req d) = d'"
  then show "vpcd_ok d'" using vpcd_ok_dispatch by metis
qed

lemma vpcd_ok_run: "(vpcd_step V C E)\<^sup>*\<^sup>* d d' \<Longrightarrow> vpcd_ok d \<Longrightarrow> vpcd_ok d'"
  by (induction rule: rtranclp_induct) (auto intro: vpcd_ok_step)

end

section \<open>Properties\<close>


text \<open>A peering the daemon has stored comes back at every start, whatever the server says. When the
  daemon starts, \<open>rebuild\<close> installs every active peering found in the store; the first pass removes
  only peerings that an earlier pass of the same process has seen, so with a server that lists no
  peering at all the stored one stays allowed.\<close>

theorem deleted_peering_survives_restart:
  assumes k: "bpf_kernel_room K view"
    and boot: "daemon_boot V C (EbpfEnforcer_ops K) (\<lambda>p c. EbpfEnforcer_new p c k0) db = Inr d"
    and stored: "fst (load_peerings V C \<lparr> VpcStore_db = db \<rparr>) = Inr ps" "fst (load_vpcs V C \<lparr> VpcStore_db = db \<rparr>) = Inr vpcs" "p \<in> set ps"
    and pass: "sync_pass V C (EbpfEnforcer_ops K) (Inr vpcs') (Inr []) now d = (r, d')"
  shows "set (peering_keys p vpcs) \<subseteq> allowed_keys view (vd_enf d')"
proof -
  note P = bpf_kernel_room.ebpf_peering_enforcer [OF k]
  let ?E = "EbpfEnforcer_ops K"
  from boot stored(1,2) obtain sa A where step: "(case boot_enforcer ?E vpcs sa ps
        (EbpfEnforcer_new (GhostAllocator_platform_prefix A) (GhostAllocator_cluster_id A) k0) of
         (Inl e, _) \<Rightarrow> Inl e
       | (Inr snap_r, enf) \<Rightarrow>
           Inr \<lparr> vd_alloc = (case snap_r of Inl _ \<Rightarrow> A | Inr snap \<Rightarrow> snd (save_enforcer_snapshot V C snap A)),
                 vd_enf = enf, prev_vpc_ids = [], prev_peering_names = [] \<rparr>) = Inr d"
    unfolding daemon_boot_def Let_def bindR_eq_Inr by auto
  obtain x e where x: "boot_enforcer ?E vpcs sa ps
        (EbpfEnforcer_new (GhostAllocator_platform_prefix A) (GhostAllocator_cluster_id A) k0) = (x, e)" by (meson surj_pair)
  from step obtain e0 t where "boot_enforcer ?E vpcs sa ps e0 = (Inr t, vd_enf d)" and d: "prev_peering_names d = []"
    unfolding x by (cases x) (use x in auto)
  then obtain ei e1 where "rebuild ?E vpcs sa ps ei = (Inr (), e1)" and sn: "vd_enf d = snd (enf_snapshot ?E e1)"
    by (auto simp: boot_enforcer_def bindM_Inr tryM_def)
  from peering_enforcer.rebuild_ok [OF P this(1)] stored(3)
  have "set (peering_keys p vpcs) \<subseteq> allowed_keys view e1" by auto
  then have "set (peering_keys p vpcs) \<subseteq> allowed_keys view (vd_enf d)"
    using peering_enforcer.snapshot_keeps [OF P surjective_pairing] by (simp add: sn)
  moreover have "vd_enf d' = snd (sync_vpc_rules ?E vpcs' (prev_vpc_ids d) (vd_enf d))"
    using sync_pass_enf(1) [OF pass sync_rules_Inr(1) sync_rules_Inr(2)] by (simp add: d peering_enforcer.sync_nothing [OF P])
  ultimately show ?thesis using peering_enforcer.pass_vpc_rules(1) [OF P] by simp
qed

section \<open>The stored peerings\<close>

lemma map_fst_batch: "batch_of c key xs = Inr b \<Longrightarrow> map fst b = map key xs"
  by (induction xs arbitrary: b) (auto simp: bindR_eq_Inr)

lemma batch_of_keys: "batch_of c key xs = Inr b \<Longrightarrow> fst ` set b = key ` set xs"
  by (metis map_fst_batch list.set_map)

lemma keeps_on_alloc: "keeps I m \<Longrightarrow> keeps (\<lambda>d. I (vd_alloc d)) (on_alloc m)"
  by (auto simp: keeps_def on_alloc_def split: prod.splits)

lemma keeps_on_enf: "keeps (\<lambda>d. I (vd_alloc d)) (on_enf m)"
  by (auto simp: keeps_def on_enf_def split: prod.splits)

context vpc_db
begin

text \<open>Nothing but a write of a key changes it.\<close>

definition holds :: "string \<Rightarrow> 'v option \<Rightarrow> ('db, 'z) VpcStore_scheme \<Rightarrow> bool" where
  "holds k x s \<longleftrightarrow> kept s k = x"

lemma keeps_db_write:
  assumes "\<And>b. batch = Inr b \<Longrightarrow> k \<notin> fst ` set b"
  shows "keeps (holds k x) (vpc_db_write V batch)"
proof (cases batch)
  case (Inr b)
  have "map_of (rev b) k = None" using assms [OF Inr] by (simp add: map_of_eq_None_iff)
  then have "(content db ++ map_of (rev b)) k = content db k" for db by (simp add: map_add_def)
  then show ?thesis
    using write_ok write_err by (fastforce simp: Inr keeps_def holds_def vpc_db_write_def split: prod.splits sum.splits)
qed (simp add: keeps_def vpc_db_write_def)

lemma keeps_db_put: "key \<noteq> k \<Longrightarrow> keeps (holds k x) (vpc_db_put V c key y)"
  using put_ok put_err by (fastforce simp: keeps_def holds_def vpc_db_put_def split: prod.splits sum.splits)

lemma keeps_db_get: "keeps (holds k x) (vpc_db_get V c key)"
  by (auto simp: keeps_def vpc_db_get_def split: sum.splits option.splits)

lemma keeps_save:
  "\<not> prefix PREFIX_DEFINITIONS k \<Longrightarrow> keeps (holds k x) (save_vpcs V C vpcs)"
  "k \<notin> (\<lambda>p. PREFIX_PEERINGS @ VpcPeering_name p) ` set ps \<Longrightarrow> keeps (holds k x) (save_peerings V C ps)"
  "k \<noteq> KEY_META \<Longrightarrow> keeps (holds k x) (update_meta V C now)"
proof -
  show "keeps (holds k x) (save_vpcs V C vpcs)" if "\<not> prefix PREFIX_DEFINITIONS k"
    unfolding save_vpcs_def by (rule keeps_db_write) (use that in \<open>auto simp only: batch_of_keys prefix_def image_iff\<close>)
  show "keeps (holds k x) (save_peerings V C ps)" if "k \<notin> (\<lambda>p. PREFIX_PEERINGS @ VpcPeering_name p) ` set ps"
    unfolding save_peerings_def by (rule keeps_db_write) (use that in \<open>auto simp only: batch_of_keys prefix_def image_iff\<close>)
  show "keeps (holds k x) (update_meta V C now)" if "k \<noteq> KEY_META"
    unfolding update_meta_def Let_def load_meta_def save_meta_def
    by (intro keeps_intro keeps_db_get keeps_db_put) (use that in simp)
qed

lemma keeps_pass:
  assumes "n \<notin> VpcPeering_name ` set peerings"
  shows "keeps (\<lambda>d. holds (PREFIX_PEERINGS @ n) x (vd_alloc d)) (sync_pass V C E (Inr vpcs) (Inr peerings) now)"
proof -
  let ?I = "holds (PREFIX_PEERINGS @ n) x"
  have "keeps ?I (modifyM (sync_vpcs vpcs))"
    by (rule keeps_modify) (simp add: holds_def sync_vpcs_def)
  moreover have "keeps ?I (save_vpcs V C vpcs)" "keeps ?I (save_peerings V C peerings)" "keeps ?I (update_meta V C now)"
    using assms by (auto intro!: keeps_save simp: vpc_key_defs)
  ultimately show ?thesis
    unfolding sync_pass_def sum.case
    by (intro keeps_intro keeps_on_alloc keeps_on_enf) (simp_all add: keeps_modify)
qed

end

text \<open>\<open>CheckReachability\<close> answers from peerings that no longer exist: a pass stores the peerings the
  server lists and deletes none, so an active peering stored once still makes the daemon answer that
  its VPCs reach each other after passes in which the server no longer lists it.\<close>

theorem check_reachability_stale:
  assumes db: "vpc_db V content"
    and stored: "content (VpcStore_db (vd_alloc d)) (PREFIX_PEERINGS @ n) = Some v" "from_slice (VS_peering C) v = Inr p"
    and p: "peering_permits src dst p"
    and pass: "sync_pass V C E (Inr vpcs) (Inr peerings) now d = (r, d')" and gone: "n \<notin> VpcPeering_name ` set peerings"
    and ask: "dispatch V C E now' wg (CheckReachability src dst) d' = (Reachable b, d2)"
  shows "b"
proof (cases "src = dst")
  case True
  then show ?thesis using ask by (simp add: dispatch_def)
next
  case False
  have "content (VpcStore_db (vd_alloc d')) (PREFIX_PEERINGS @ n) = Some v"
    using keepsD [OF vpc_db.keeps_pass [OF db gone] _ pass] stored(1) by (simp add: vpc_db.holds_def [OF db])
  moreover obtain ps a where l: "vpc_scan_prefix V (VS_peering C) PREFIX_PEERINGS (vd_alloc d') = (Inr ps, a)"
    and b: "b = list_ex (peering_permits src dst) ps"
    using ask False by (auto simp: dispatch_def load_peerings_def split: prod.split_asm sum.split_asm)
  moreover obtain kvs where "set kvs = {(k, v). prefix PREFIX_PEERINGS k \<and> content (VpcStore_db (vd_alloc d')) k = Some v}"
    and m: "map (\<lambda>(k, v). from_slice (VS_peering C) v) kvs = map Inr ps"
    using vpc_db.scan_prefix_ok(2) [OF db l] by (elim exE conjE)
  ultimately have "(PREFIX_PEERINGS @ n, v) \<in> set kvs" by simp
  then have "Inr p \<in> set (map (\<lambda>(k, v). from_slice (VS_peering C) v) kvs)" using stored(2) by force
  then show ?thesis using p unfolding m b by (auto simp: list_ex_iff)
qed

lemma allocate_ghost:
  assumes "alloc_inv A" "allocate V C now pod name A = (Inr res, A')"
  shows "AllocateResult_ghost_ipv6 res = construct (GhostAllocator_platform_prefix A) (GhostAllocator_cluster_id A)
    (AllocateResult_vpc_id res) (AllocateResult_guest_ipv4 res)"
  using assms(2)
proof (cases rule: allocate_cases)
  case (again pool a)
  have "pool_ok (GhostAllocator_platform_prefix A) (GhostAllocator_cluster_id A) pool"
    using assms(1) again(1) by (simp add: alloc_inv_def)
  from pool_okD(3) [OF this again(2)] again(3) show ?thesis by (simp add: alloc_result_def)
qed (simp_all add: alloc_result_def)

text \<open>C15: what a pod gets is what the data path enforces for it: when a pod is given an address and its
  interface is then attached with the values of that answer, the translator loaded for it has the
  allocated guest address, the VPC id, and the Ghost address built from the two (the condition under
  which pods of one VPC exchange packets), and the endpoint map delivers to that address.\<close>

theorem attached_pod_is_its_allocation:
  assumes k: "bpf_kernel K view" and inv: "alloc_inv (vd_alloc d)"
    and ids: "EbpfEnforcer_platform_prefix (vd_enf d) = GhostAllocator_platform_prefix (vd_alloc d)"
      "EbpfEnforcer_cluster_id (vd_enf d) = GhostAllocator_cluster_id (vd_alloc d)"
    and alloc: "dispatch V C (EbpfEnforcer_ops K) now wg (Allocate pod name) d = (Allocated g a v c, d1)"
    and attach: "dispatch V C (EbpfEnforcer_ops K) now' wg (AttachNetkit nk g a v c pid) d1 = (Response_Ok, d2)"
  shows "\<exists>R i. hm_get (pod_bpf (vd_enf d2)) nk = Some R \<and> pod_consts R \<and> g = show_ipv4 (MY_GUEST_IPV4 R) \<and>
    a = show_ipv6 (MY_GHOST_IPV6 R) \<and> MY_VPC_ID R = v \<and> endpoint_map (view (kern (vd_enf d2))) (MY_GHOST_IPV6 R) = Some i"
proof -
  obtain res A' where al: "allocate V C now pod name (vd_alloc d) = (Inr res, A')" and d1: "d1 = d\<lparr>vd_alloc := A'\<rparr>"
    and g: "g = show_ipv4 (AllocateResult_guest_ipv4 res)" "a = show_ipv6 (AllocateResult_ghost_ipv6 res)" "v = AllocateResult_vpc_id res"
    using alloc by (auto simp: dispatch_def on_alloc_def split: prod.split_asm sum.split_asm)
  note gh = allocate_ghost [OF inv al]
  have "ebpf_install_netkit_rules K nk g a v c pid (vd_enf d) = (Inr (), vd_enf d2)"
    using attach
    by (auto simp: dispatch_def enf_response_def on_enf_def EbpfEnforcer_ops_def d1 split: prod.split_asm sum.split_asm)
  then obtain ip addr net m i where p: "parse_ipv4 g = Some ip" "parse_ipv6 a = Some addr"
    and R: "hm_get (pod_bpf (vd_enf d2)) nk = Some (baked (vd_enf d) addr ip v (net, m))"
    and e: "endpoint_map (view (kern (vd_enf d2))) = (endpoint_map (view (kern (vd_enf d))))(addr \<mapsto> i)"
    by (rule bpf_kernel.install_netkit_ok [OF k])
  have "ip = AllocateResult_guest_ipv4 res" "addr = AllocateResult_ghost_ipv6 res" using p by (simp_all add: g gh)
  then show ?thesis using R e g gh ids by (auto simp: baked_def pod_consts_def)
qed

section \<open>Witnesses\<close>

text \<open>Two VPCs and a peering from one to the other.\<close>

definition vpc_web :: Vpc where
  "vpc_web = vpc_24\<lparr> Vpc_ipv4_cidr := ''10.0.0.0/24'' \<rparr>"

definition vpc_db6 :: Vpc where
  "vpc_db6 = vpc_24\<lparr> Vpc_name := ''db'', Vpc_vpc_id := 6, Vpc_ipv4_cidr := ''10.0.1.0/24'' \<rparr>"

definition web_db :: VpcPeering where
  "web_db = \<lparr> VpcPeering_name = ''web-db'', VpcPeering_vpc_a = ''web'', VpcPeering_vpc_b = ''db'',
     VpcPeering_direction = InitiatorOnly, VpcPeering_status = Peering_Active, VpcPeering_created_at = 0 \<rparr>"

definition stored_db :: "(string \<times> vpc_json) list" where
  "stored_db = [(PREFIX_DEFINITIONS @ ''web'', VJ_Vpc vpc_web), (PREFIX_DEFINITIONS @ ''db'', VJ_Vpc vpc_db6),
     (PREFIX_PEERINGS @ ''web-db'', VJ_Peering web_db)]"

definition empty_kernel :: memk where
  "empty_kernel = \<lparr> mk_cidrs = [], mk_peerings = [], mk_endpoints = [] \<rparr>"

type_synonym mem_vpcd = "((string \<times> vpc_json) list, memk EbpfEnforcer) vpcd"

definition mem_vpcd0 :: mem_vpcd where
  "mem_vpcd0 = \<lparr> vd_alloc = daemon_empty, vd_enf = EbpfEnforcer_new PLATFORM_PREFIX 1 empty_kernel,
     prev_vpc_ids = [], prev_peering_names = [] \<rparr>"

definition mem_pass :: "VpcPeering list \<Rightarrow> mem_vpcd \<Rightarrow> unit result \<times> mem_vpcd" where
  "mem_pass ps = sync_pass mem_vpcdb vpc_tag_serde (EbpfEnforcer_ops mem_kernel) (Inr [vpc_web, vpc_db6]) (Inr ps) 0"

lemma web_db_keys: "peering_keys web_db [vpc_web, vpc_db6] = [\<lparr> src_vpc_id = 5, dst_vpc_id = 6 \<rparr>]"
  "peering_keys web_db [vpc_db6, vpc_web] = [\<lparr> src_vpc_id = 5, dst_vpc_id = 6 \<rparr>]"
  by (simp_all add: peering_keys_def web_db_def vpc_web_def vpc_db6_def vpc_24_def direction_keys_def)

lemma web_db_active: "is_active web_db"
  by (simp add: is_active_def web_db_def)


lemma stored_db_loads:
  "fst (load_vpcs mem_vpcdb vpc_tag_serde \<lparr> VpcStore_db = stored_db \<rparr>) = Inr [vpc_db6, vpc_web]"
  "fst (load_peerings mem_vpcdb vpc_tag_serde \<lparr> VpcStore_db = stored_db \<rparr>) = Inr [web_db]"
  "fst (load_all_allocations mem_vpcdb vpc_tag_serde \<lparr> VpcStore_db = stored_db \<rparr>) = Inr []"
  "fst (load_meta mem_vpcdb vpc_tag_serde \<lparr> VpcStore_db = stored_db \<rparr>) = Inr None"
  by code_simp+

lemma rebuild_Inr: "fst (rebuild E vpcs allocs ps e) = Inr ()"
  unfolding rebuild_def rebuild_tap_def Let_def
  by (intro bindM_Inr_unit forM_Inr) (auto simp: ignoreM_def returnM_def)

lemma mem_boot_ok:
  obtains d where "daemon_boot mem_vpcdb vpc_tag_serde (EbpfEnforcer_ops mem_kernel) (\<lambda>p c. EbpfEnforcer_new p c empty_kernel) stored_db = Inr d"
proof -
  have "fst (enf_init (EbpfEnforcer_ops mem_kernel) e) = Inr ()" for e
    by (simp add: EbpfEnforcer_ops_def ebpf_init_def mem_kernel_def on_kern_def action_defs)
  then have "\<exists>t e'. boot_enforcer (EbpfEnforcer_ops mem_kernel) vpcs sa ps e = (Inr t, e')" for vpcs sa ps e
    unfolding boot_enforcer_def bindM_Inr tryM_def by (metis prod.collapse rebuild_Inr old.unit.exhaust)
  then obtain t e' where "boot_enforcer (EbpfEnforcer_ops mem_kernel) [vpc_db6, vpc_web] [] [web_db]
      (EbpfEnforcer_new PLATFORM_PREFIX 0 empty_kernel) = (Inr t, e')" by blast
  then have "\<exists>d. daemon_boot mem_vpcdb vpc_tag_serde (EbpfEnforcer_ops mem_kernel) (\<lambda>p c. EbpfEnforcer_new p c empty_kernel) stored_db = Inr d"
    by (simp add: daemon_boot_def stored_db_loads daemon_start_def Let_def rebuild_pools_def GhostAllocator_new_def)
  then show thesis using that by blast
qed

theorem deleted_peering_survives_restart_witness:
  "\<exists>d. daemon_boot mem_vpcdb vpc_tag_serde (EbpfEnforcer_ops mem_kernel) (\<lambda>p c. EbpfEnforcer_new p c empty_kernel) stored_db = Inr d \<and>
     \<lparr> src_vpc_id = 5, dst_vpc_id = 6 \<rparr> \<in> allowed_keys mem_view (vd_enf (snd (mem_pass [] d)))"
proof -
  obtain d where d: "daemon_boot mem_vpcdb vpc_tag_serde (EbpfEnforcer_ops mem_kernel) (\<lambda>p c. EbpfEnforcer_new p c empty_kernel) stored_db = Inr d"
    by (rule mem_boot_ok)
  from deleted_peering_survives_restart [OF membpf.bpf_kernel_room_axioms d stored_db_loads(2,1) _ surjective_pairing, of web_db "[vpc_web, vpc_db6]" 0]
  show ?thesis using d by (auto simp: mem_pass_def web_db_keys)
qed

text \<open>The same store under the no-op backend, after a pass in which the server lists nothing.\<close>

definition noop_vpcd :: "((string \<times> vpc_json) list, unit) vpcd" where
  "noop_vpcd = \<lparr> vd_alloc = GhostAllocator_new PLATFORM_PREFIX 1 stored_db, vd_enf = (), prev_vpc_ids = [], prev_peering_names = [] \<rparr>"

definition noop_after :: "((string \<times> vpc_json) list, unit) vpcd" where
  "noop_after = snd (sync_pass mem_vpcdb vpc_tag_serde NoopEnforcer (Inr []) (Inr []) 0 noop_vpcd)"

lemma noop_asked: "\<exists>b. dispatch mem_vpcdb vpc_tag_serde NoopEnforcer 0 None (CheckReachability ''web'' ''db'') noop_after = (Reachable b, noop_after)"
proof -
  have "fst (load_peerings mem_vpcdb vpc_tag_serde (vd_alloc noop_after)) = Inr [web_db]" by code_simp
  moreover have "snd (load_peerings mem_vpcdb vpc_tag_serde (vd_alloc noop_after)) = vd_alloc noop_after"
    by (simp add: load_peerings_def vpc_scan_prefix_def mem_vpcdb_def)
  ultimately show ?thesis by (auto simp: dispatch_def split: prod.splits)
qed

theorem check_reachability_stale_witness:
  "fst (dispatch mem_vpcdb vpc_tag_serde NoopEnforcer 0 None (CheckReachability ''web'' ''db'') noop_after) = Reachable True"
proof -
  obtain b where b: "dispatch mem_vpcdb vpc_tag_serde NoopEnforcer 0 None (CheckReachability ''web'' ''db'') noop_after = (Reachable b, noop_after)"
    using noop_asked by blast
  have p: "peering_permits ''web'' ''db'' web_db" by (simp add: peering_permits_def web_db_def)
  have st: "map_of (VpcStore_db (vd_alloc noop_vpcd)) (PREFIX_PEERINGS @ ''web-db'') = Some (VJ_Peering web_db)"
    "from_slice (VS_peering vpc_tag_serde) (VJ_Peering web_db) = Inr web_db"
    by (simp_all add: noop_vpcd_def GhostAllocator_new_def stored_db_def vpc_key_defs vpc_tag_serde_def tag_codec_def)
  have run: "sync_pass mem_vpcdb vpc_tag_serde NoopEnforcer (Inr []) (Inr []) 0 noop_vpcd =
      (fst (sync_pass mem_vpcdb vpc_tag_serde NoopEnforcer (Inr []) (Inr []) 0 noop_vpcd), noop_after)"
    by (simp add: noop_after_def)
  from check_reachability_stale [OF memvpc.vpc_db_axioms st p run _ b] have b by simp
  with b show ?thesis by simp
qed

text \<open>A daemon with the VPC \<open>web\<close> allocates for a pod and attaches its interface.\<close>

definition alloc_vpcd :: mem_vpcd where
  "alloc_vpcd = mem_vpcd0\<lparr>vd_alloc := sync_vpcs [vpc_24] daemon_empty\<rparr>"

definition alloc_answer :: "VpcResponse \<times> mem_vpcd" where
  "alloc_answer = dispatch mem_vpcdb vpc_tag_serde (EbpfEnforcer_ops mem_kernel) 0 None (Allocate ''p1'' ''web'') alloc_vpcd"

lemma alloc_answer_eq: "alloc_answer = (Allocated (show_ipv4 0x0A000001) (show_ipv6 (construct PLATFORM_PREFIX 1 5 0x0A000001)) 5
    (show_cidr 0x0A000000 24), snd alloc_answer)"
  by (simp add: alloc_answer_def dispatch_def on_alloc_def alloc_vpcd_def mem_vpcd0_def alloc_eval alloc_loop_first)

definition attach_answer :: "VpcResponse \<times> mem_vpcd" where
  "attach_answer = dispatch mem_vpcdb vpc_tag_serde (EbpfEnforcer_ops mem_kernel) 0 None
     (AttachNetkit ''nk-p1'' (show_ipv4 0x0A000001) (show_ipv6 (construct PLATFORM_PREFIX 1 5 0x0A000001)) 5
       (show_cidr 0x0A000000 24) 77) (snd alloc_answer)"

lemma mem_attach_pod: "attach_pod mem_kernel nk R pid = returnM ()"
  by (simp add: fun_eq_iff attach_pod_def attach_siit_def attach_isolation_def attach_shared_def mem_kernel_def on_kern_def action_defs)

lemma mem_install_netkit:
  "fst (ebpf_install_netkit_rules mem_kernel nk (show_ipv4 ip) (show_ipv6 (construct p c v ip)) vid (show_cidr net 24) pid e) = Inr ()"
  by (simp add: ebpf_install_netkit_rules_def mem_attach_pod bindM_def liftR_def ok_or_def enforcer_show_cidr getM_def returnM_def)
    (simp add: mem_kernel_def on_kern_def returnM_def modifyM_def bindM_def)

lemma attach_answer_eq: "attach_answer = (Response_Ok, snd attach_answer)"
proof -
  have "fst attach_answer = Response_Ok"
    unfolding attach_answer_def dispatch_def VpcRequest.case enf_response_def on_enf_def
    using mem_install_netkit [of "''nk-p1''" "0x0A000001" PLATFORM_PREFIX 1 5 5 "0x0A000000" 77 "vd_enf (snd alloc_answer)"]
    by (auto simp: EbpfEnforcer_ops_def split: prod.splits sum.splits)
  then show ?thesis by (simp add: prod_eq_iff)
qed

theorem attached_pod_is_its_allocation_witness:
  "\<exists>R. hm_get (pod_bpf (vd_enf (snd attach_answer))) ''nk-p1'' = Some R \<and> pod_consts R \<and> MY_VPC_ID R = 5"
proof -
  have inv: "alloc_inv (vd_alloc alloc_vpcd)"
    unfolding alloc_vpcd_def daemon_empty_def by (simp add: alloc_reach_inv [OF reach_sync [OF reach_new]])
  have ids: "EbpfEnforcer_platform_prefix (vd_enf alloc_vpcd) = GhostAllocator_platform_prefix (vd_alloc alloc_vpcd)"
    "EbpfEnforcer_cluster_id (vd_enf alloc_vpcd) = GhostAllocator_cluster_id (vd_alloc alloc_vpcd)"
    by (simp_all add: alloc_vpcd_def mem_vpcd0_def daemon_empty_def sync_vpcs_def GhostAllocator_new_def EbpfEnforcer_new_def Let_def)
  from attached_pod_is_its_allocation [OF membpf.bpf_kernel_axioms inv ids alloc_answer_eq [unfolded alloc_answer_def]
      attach_answer_eq [unfolded attach_answer_def alloc_answer_def]]
  show ?thesis unfolding attach_answer_def alloc_answer_def by blast
qed

end
