(* ===== verification/Ebpf_Nat64.thy ===== *)
theory Ebpf_Nat64
  imports Ebpf_Pods
begin

text \<open>
  NAT64: a pod's connection to an outside server, out through \<open>nat64_egress\<close> and back through
  \<open>nat64_ingress\<close>, and what happens when two pods use the same source port.
\<close>

section \<open>The two programs on the frames they translate\<close>

definition nat64_key_out :: "bytes \<Rightarrow> Nat64Key" where
  "nat64_key_out b = \<lparr> Nat64Key_protocol = b ! 20, Nat64Key_src_port = u16_from_be_bytes (bytes_at b 54 2),
     Nat64Key_dst_ipv4 = ip4_part (dst6_of b), Nat64Key_dst_port = u16_from_be_bytes (bytes_at b 56 2) \<rparr>"

definition nat64_key_in :: "bytes \<Rightarrow> Nat64Key" where
  "nat64_key_in b = \<lparr> Nat64Key_protocol = b ! 23, Nat64Key_src_port = u16_from_be_bytes (bytes_at b 36 2),
     Nat64Key_dst_ipv4 = ip4_src b, Nat64Key_dst_port = u16_from_be_bytes (bytes_at b 34 2) \<rparr>"

text \<open>A frame from a pod to an outside server, and one from outside to the node.\<close>

definition nat64_out_frame :: "bytes \<Rightarrow> bool" where
  "nat64_out_frame b \<longleftrightarrow> ip6_l4_frame b \<and> 58 \<le> length b \<and> ip6_len b \<noteq> 0 \<and> dst6_of b = nat64_addr (ip4_part (dst6_of b))"

definition nat64_in_frame :: "Nat64Config \<Rightarrow> bytes \<Rightarrow> bool" where
  "nat64_in_frame cfg b \<longleftrightarrow> ip4_l4_frame b \<and> 38 \<le> length b \<and> ip4_dst b = Nat64Config_node_ipv4 cfg"

definition nat64_out_result :: "Nat64Config \<Rightarrow> bytes \<Rightarrow> bytes \<Rightarrow> bool" where
  "nat64_out_result cfg b b' \<longleftrightarrow> 56 + csum_off_in_l4 (b ! 20) \<le> length b \<and> take 12 b' = take 12 b \<and>
     (\<exists>c. length c = 2 \<and> drop 14 b' =
        (let n = ip6_len b + 20; x = Nat64Config_node_ipv4 cfg; y = ip4_part (dst6_of b) in
         ipv4_header n (b ! 21) (b ! 20) (ipv4_hdr_csum n (b ! 21) (b ! 20) x y) x y @
         patch (drop 54 b) (csum_off_in_l4 (b ! 20)) c))"

definition nat64_in_result :: "ipv6 \<Rightarrow> bytes \<Rightarrow> bytes \<Rightarrow> bool" where
  "nat64_in_result pod b b' \<longleftrightarrow> 36 + csum_off_in_l4 (b ! 23) \<le> length b \<and> take 12 b' = take 12 b \<and>
     (\<exists>c. length c = 2 \<and> drop 14 b' =
        ipv6_header (ip4_len b - 20) (b ! 23) (b ! 22) (nat64_addr (ip4_src b)) pod @
        patch (drop 34 b) (csum_off_in_l4 (b ! 23)) c)"

lemma ip4_part_nat64 [simp]: "ip4_part (nat64_addr ip) = ip"
  by (simp add: ip4_part_def nat64_addr_def bytes_at_def)

lemma nat64_words: "addr_words (nat64_addr ip) = [u32_to_be NAT64_PREFIX_U32, 0, 0, u32_to_be ip]"
proof -
  have w: "u32_from_ne_bytes [nat64_addr ip ! 12, nat64_addr ip ! 13, nat64_addr ip ! 14, nat64_addr ip ! 15] = u32_to_be ip"
    by (simp add: u32_to_be_def nat64_addr_def nth_append u32_to_be_bytes_def)
  have z: "u32_from_ne_bytes [0, 0, 0, 0] = 0" by (simp add: u32_from_ne_bytes.simps u32_from_be_bytes.simps)
  show ?thesis unfolding addr_words_def w
    by (simp add: nat64_addr_def nth_append z NAT64_PREFIX_U32_def u32_to_be_def be_eval u32_from_ne_bytes.simps)
qed

context tc_kernel
begin

lemma set_conntrack_ok:
  assumes "set_conntrack H k v s = (Inr u, t)"
  shows "NAT64_CONNTRACK t k = Some v" "t = s\<lparr>NAT64_CONNTRACK := NAT64_CONNTRACK t\<rparr>"
  using assms lru_ok by (auto simp: set_conntrack_def split: sum.splits)

lemma word_loads:
  assumes "54 \<le> length (pkt s)"
  shows "[u32_from_ne_bytes (bytes_at (pkt s) 38 4), u32_from_ne_bytes (bytes_at (pkt s) 42 4),
      u32_from_ne_bytes (bytes_at (pkt s) 46 4), u32_from_ne_bytes (bytes_at (pkt s) 50 4)] = addr_words (dst6_of (pkt s))"
proof -
  have "load_words H 38 s = (Inr [u32_from_ne_bytes (bytes_at (pkt s) 38 4), u32_from_ne_bytes (bytes_at (pkt s) 42 4),
      u32_from_ne_bytes (bytes_at (pkt s) 46 4), u32_from_ne_bytes (bytes_at (pkt s) 50 4)], s)"
    using assms by (simp add: load_words_def bindM_def load_u32_ok returnM_def)
  then show ?thesis using ipv6_fields(5) [OF assms] by simp
qed

lemma try_nat64_egress_frame:
  assumes f: "nat64_out_frame (pkt s)" and cfg: "NAT64_CONFIG s = Some cfg"
  shows "try_nat64_egress H s =
     bindM (set_conntrack H (nat64_key_out (pkt s)) (src6_of (pkt s))) (\<lambda>_.
     bindM (on_skb (h_change_proto H ETH_P_IP)) (\<lambda>_.
     bindM (write_ipv4_header H (ip6_len (pkt s) + 20) (pkt s ! 21) (pkt s ! 20)
        (u32_to_be (Nat64Config_node_ipv4 cfg)) (u32_to_be (ip4_part (dst6_of (pkt s))))
        (ipv4_hdr_csum (ip6_len (pkt s) + 20) (pkt s ! 21) (pkt s ! 20) (Nat64Config_node_ipv4 cfg) (ip4_part (dst6_of (pkt s))))) (\<lambda>_.
     bindM (csum_6to4 H (34 + csum_off_in_l4 (pkt s ! 20)) (addr_words (src6_of (pkt s))) (addr_words (dst6_of (pkt s)))
        (u32_to_be (Nat64Config_node_ipv4 cfg)) (u32_to_be (ip4_part (dst6_of (pkt s))))) (\<lambda>_.
     returnM (h_redirect H (Nat64Config_phys_ifindex cfg)))))) s"
proof -
  have len: "14 \<le> length (pkt s)" "54 \<le> length (pkt s)" "58 \<le> length (pkt s)"
    and b: "etype_of (pkt s) = u16_to_be_bytes ETH_P_IPV6" "pkt s ! 20 = IPPROTO_TCP \<or> pkt s ! 20 = IPPROTO_UDP"
      "ip6_len (pkt s) \<noteq> 0" and d: "dst6_of (pkt s) = nat64_addr (ip4_part (dst6_of (pkt s)))"
    using f by (auto simp: ip6_l4_frame_def nat64_out_frame_def)
  have e: "u16_from_ne_bytes (etype_of (pkt s)) = u16_to_be ETH_P_IPV6" by (simp add: b(1) u16_to_be_def)
  have l: "u16_from_be (u16_from_ne_bytes (bytes_at (pkt s) 18 2)) = ip6_len (pkt s)"
    using len by (simp add: u16_from_be_from_ne ip6_len_def)
  define ip where "ip = ip4_part (dst6_of (pkt s))"
  have w: "load_u32 H 38 s = (Inr (u32_to_be NAT64_PREFIX_U32), s)" "load_u32 H 42 s = (Inr 0, s)"
    "load_u32 H 46 s = (Inr 0, s)" "load_u32 H 50 s = (Inr (u32_to_be ip), s)"
    "addr_words (dst6_of (pkt s)) = [u32_to_be NAT64_PREFIX_U32, 0, 0, u32_to_be ip]"
    using word_loads [OF len(2)] nat64_words [of ip] d len(2) by (simp_all add: load_u32_ok ip_def)
  have p: "load_u16 H 54 s = (Inr (u16_from_ne_bytes (bytes_at (pkt s) 54 2)), s)"
    "load_u16 H 56 s = (Inr (u16_from_ne_bytes (bytes_at (pkt s) 56 2)), s)"
    using len(3) by (simp_all add: load_u16_ok)
  have key: "\<lparr> Nat64Key_protocol = pkt s ! 20, Nat64Key_src_port = u16_from_be (u16_from_ne_bytes (bytes_at (pkt s) 54 2)),
      Nat64Key_dst_ipv4 = ip, Nat64Key_dst_port = u16_from_be (u16_from_ne_bytes (bytes_at (pkt s) 56 2)) \<rparr> = nat64_key_out (pkt s)"
    using len(3) by (simp add: nat64_key_out_def ip_def u16_from_be_from_ne)
  have src: "concat (map u32_to_ne_bytes (addr_words (src6_of (pkt s)))) = src6_of (pkt s)"
    using len by (intro concat_addr_words) (simp add: src6_of_def)
  show ?thesis
    using b(2)
    by (auto simp: try_nat64_egress_def bindM_def etype_test(1) [OF len(1)] e ipv6_fields(1,2,3,4) [OF len(2)] w p offset_defs
        IPV4_HDR_LEN_def IPV6_HDR_LEN_def Let_def l b(3) getM_def cfg liftR_def ok_or_def key src ip_def [symmetric] returnM_def)
qed

lemma try_nat64_egress_ok:
  assumes f: "nat64_out_frame (pkt s)" and cfg: "NAT64_CONFIG s = Some cfg" and run: "try_nat64_egress H s = (Inr a, t)"
  shows "a = h_redirect H (Nat64Config_phys_ifindex cfg) \<and> nat64_out_result cfg (pkt s) (pkt t) \<and>
    NAT64_CONNTRACK t (nat64_key_out (pkt s)) = Some (src6_of (pkt s)) \<and> NAT64_CONFIG t = NAT64_CONFIG s"
proof -
  let ?y = "ip4_part (dst6_of (pkt s))" and ?n = "ip6_len (pkt s) + 20"
  from run obtain u0 s0 u s1 v s2 w where ct: "set_conntrack H (nat64_key_out (pkt s)) (src6_of (pkt s)) s = (Inr u0, s0)"
    and pr: "on_skb (h_change_proto H ETH_P_IP) s0 = (Inr u, s1)"
    and wr: "write_ipv4_header H ?n (pkt s ! 21) (pkt s ! 20) (u32_to_be (Nat64Config_node_ipv4 cfg)) (u32_to_be ?y)
        (ipv4_hdr_csum ?n (pkt s ! 21) (pkt s ! 20) (Nat64Config_node_ipv4 cfg) ?y) s1 = (Inr v, s2)"
    and cs: "csum_6to4 H (34 + csum_off_in_l4 (pkt s ! 20)) (addr_words (src6_of (pkt s))) (addr_words (dst6_of (pkt s)))
        (u32_to_be (Nat64Config_node_ipv4 cfg)) (u32_to_be ?y) s2 = (Inr w, t)"
    and a: "a = h_redirect H (Nat64Config_phys_ifindex cfg)"
    unfolding try_nat64_egress_frame [OF f cfg] by (auto simp: bindM_Inr returnM_def)
  note g = shrink_and_write [OF pr wr cs [unfolded csum_6to4_def] list.distinct(2)]
  note c = set_conntrack_ok [OF ct]
  have k: "skb s0 = skb s" "NAT64_CONFIG s0 = NAT64_CONFIG s" by (subst c(2), simp)+
  note m = same_mapsD [OF g(1)]
  show ?thesis
    using g(2,3,4) by (simp add: a nat64_out_result_def Let_def k c(1) m)
qed

lemma try_nat64_ingress_frame:
  assumes f: "nat64_in_frame cfg (pkt s)" and cfg: "NAT64_CONFIG s = Some cfg"
    and ct: "NAT64_CONNTRACK s (nat64_key_in (pkt s)) = Some pod"
  shows "try_nat64_ingress H s =
     bindM (on_skb (h_change_proto H ETH_P_IPV6)) (\<lambda>_.
     bindM (write_ipv6_header H (ip4_len (pkt s) - 20) (pkt s ! 23) (pkt s ! 22)
        (addr_words (nat64_addr (ip4_src (pkt s)))) (addr_words pod)) (\<lambda>_.
     bindM (csum_4to6 H (54 + csum_off_in_l4 (pkt s ! 23))
        (u32_from_ne_bytes (bytes_at (pkt s) 26 4)) (u32_from_ne_bytes (bytes_at (pkt s) 30 4))
        (addr_words (nat64_addr (ip4_src (pkt s)))) (addr_words pod)) (\<lambda>_.
     bindM (getM ENDPOINTS) (\<lambda>endpoints.
     case endpoints pod of
       Some nk_ifindex \<Rightarrow> returnM (h_redirect_peer H nk_ifindex)
     | None \<Rightarrow> returnM TC_ACT_OK)))) s"
proof -
  have len: "14 \<le> length (pkt s)" "34 \<le> length (pkt s)" "38 \<le> length (pkt s)"
    and b: "etype_of (pkt s) = u16_to_be_bytes ETH_P_IP" "pkt s ! 14 = 0x45"
      "pkt s ! 23 = IPPROTO_TCP \<or> pkt s ! 23 = IPPROTO_UDP" "ip4_dst (pkt s) = Nat64Config_node_ipv4 cfg"
    using f by (auto simp: ip4_l4_frame_def nat64_in_frame_def)
  have p: "load_u16 H 34 s = (Inr (u16_from_ne_bytes (bytes_at (pkt s) 34 2)), s)"
    "load_u16 H 36 s = (Inr (u16_from_ne_bytes (bytes_at (pkt s) 36 2)), s)"
    using len(3) by (simp_all add: load_u16_ok)
  have e: "u16_from_ne_bytes (etype_of (pkt s)) = u16_to_be ETH_P_IP" by (simp add: b(1) u16_to_be_def)
  have key: "\<lparr> Nat64Key_protocol = pkt s ! 23, Nat64Key_src_port = u16_from_be (u16_from_ne_bytes (bytes_at (pkt s) 36 2)),
      Nat64Key_dst_ipv4 = ip4_src (pkt s), Nat64Key_dst_port = u16_from_be (u16_from_ne_bytes (bytes_at (pkt s) 34 2)) \<rparr> = nat64_key_in (pkt s)"
    using len(3) by (simp add: nat64_key_in_def u16_from_be_from_ne)
  show ?thesis
    using b(3)
    by (auto simp: try_nat64_ingress_def bindM_def etype_test(1) [OF len(1)] e ipv4_fields [OF len(2)] p
        Let_def ip4_addrs [OF len(2)] b(2,4) ETH_LEN_def IPV4_HDR_LEN_def IPV6_HDR_LEN_def getM_def cfg liftR_def ok_or_def
        key ct returnM_def)
qed

lemma try_nat64_ingress_ok:
  assumes f: "nat64_in_frame cfg (pkt s)" and cfg: "NAT64_CONFIG s = Some cfg"
    and ct: "NAT64_CONNTRACK s (nat64_key_in (pkt s)) = Some pod" and pl: "length pod = 16"
    and run: "try_nat64_ingress H s = (Inr a, t)"
  shows "nat64_in_result pod (pkt s) (pkt t) \<and> same_maps s t \<and>
    a = (case ENDPOINTS s pod of Some nk \<Rightarrow> h_redirect_peer H nk | None \<Rightarrow> TC_ACT_OK)"
proof -
  from run obtain u s1 v s2 w t' where pr: "on_skb (h_change_proto H ETH_P_IPV6) s = (Inr u, s1)"
    and wr: "write_ipv6_header H (ip4_len (pkt s) - 20) (pkt s ! 23) (pkt s ! 22)
        (addr_words (nat64_addr (ip4_src (pkt s)))) (addr_words pod) s1 = (Inr v, s2)"
    and cs: "csum_4to6 H (54 + csum_off_in_l4 (pkt s ! 23))
        (u32_from_ne_bytes (bytes_at (pkt s) 26 4)) (u32_from_ne_bytes (bytes_at (pkt s) 30 4))
        (addr_words (nat64_addr (ip4_src (pkt s)))) (addr_words pod) s2 = (Inr w, t')"
    and fin: "(case ENDPOINTS t' pod of Some nk \<Rightarrow> returnM (h_redirect_peer H nk) | None \<Rightarrow> returnM TC_ACT_OK) t' = (Inr a, t)"
    unfolding try_nat64_ingress_frame [OF f cfg ct] by (auto simp: bindM_Inr getM_def)
  note g = grow_and_write [OF pr wr cs [unfolded csum_4to6_def] list.distinct(2) length_nat64_addr pl]
  have "t = t'" "a = (case ENDPOINTS t' pod of Some nk \<Rightarrow> h_redirect_peer H nk | None \<Rightarrow> TC_ACT_OK)"
    using fin by (auto simp: returnM_def split: option.splits)
  then show ?thesis using g by (simp add: nat64_in_result_def same_mapsD(2) [OF g(1)])
qed

end

section \<open>Properties\<close>

text \<open>The reply to a translated connection: from the server it went to, to the node, ports swapped.\<close>

definition reply_to :: "Nat64Config \<Rightarrow> bytes \<Rightarrow> bytes \<Rightarrow> bool" where
  "reply_to cfg b r \<longleftrightarrow> nat64_in_frame cfg r \<and> ip4_src r = ip4_part (dst6_of b) \<and> r ! 23 = b ! 20 \<and>
     bytes_at r 34 2 = bytes_at b 56 2 \<and> bytes_at r 36 2 = bytes_at b 54 2"

lemma reply_key: "reply_to cfg b r \<Longrightarrow> nat64_key_in r = nat64_key_out b"
  by (simp add: reply_to_def nat64_key_in_def nat64_key_out_def)

text \<open>C12: NAT64 connects a pod to an outside IPv4 server: when the helpers succeed, \<open>nat64_egress\<close> sends the
  packet out of the physical interface as an IPv4 packet from the node to the server, payload
  unchanged but for the checksum bytes, and as long as the connection table keeps the entry, the
  server's reply to the node is turned into an IPv6 packet from the server's NAT64 address to the
  very pod that opened the connection and is handed to that pod's interface.\<close>

theorem nat64_reply_reaches_pod:
  assumes k: "tc_kernel H view" and f: "nat64_out_frame (view (skb s))" and cfg: "NAT64_CONFIG s = Some cfg"
    and out: "try_nat64_egress H s = (Inr a, t)"
    and later: "NAT64_CONNTRACK s' = NAT64_CONNTRACK t" "NAT64_CONFIG s' = NAT64_CONFIG t"
    and r: "reply_to cfg (view (skb s)) (view (skb s'))"
    and inn: "try_nat64_ingress H s' = (Inr a', t')"
  shows "a = h_redirect H (Nat64Config_phys_ifindex cfg) \<and> nat64_out_result cfg (view (skb s)) (view (skb t)) \<and>
    nat64_in_result (src6_of (view (skb s))) (view (skb s')) (view (skb t')) \<and>
    a' = (case ENDPOINTS s' (src6_of (view (skb s))) of Some nk \<Rightarrow> h_redirect_peer H nk | None \<Rightarrow> TC_ACT_OK)"
proof -
  let ?pod = "src6_of (view (skb s))"
  have e: "a = h_redirect H (Nat64Config_phys_ifindex cfg)" "nat64_out_result cfg (view (skb s)) (view (skb t))"
    "NAT64_CONNTRACK t (nat64_key_out (view (skb s))) = Some ?pod" "NAT64_CONFIG t = Some cfg"
    using tc_kernel.try_nat64_egress_ok [OF k f cfg out] cfg by simp_all
  have l: "length ?pod = 16" using f by (simp add: nat64_out_frame_def src6_of_def)
  have "nat64_in_frame cfg (view (skb s'))" using r by (simp add: reply_to_def)
  moreover have "NAT64_CONFIG s' = Some cfg" using later e by simp
  moreover have "NAT64_CONNTRACK s' (nat64_key_in (view (skb s'))) = Some ?pod"
    using later e reply_key [OF r] by simp
  ultimately show ?thesis using tc_kernel.try_nat64_ingress_ok [OF k _ _ _ l inn] e(1,2) by simp
qed

text \<open>The connection table identifies a connection by protocol, source port, server and server port only,
  and \<open>nat64_egress\<close> keeps the pod's source port: when a second pod opens a connection with the first
  pod's ports and server, its entry replaces the first one's, both connections leave the node with
  the same addresses and ports, and every reply is delivered to the second pod.\<close>

theorem nat64_port_collision:
  assumes k: "tc_kernel H view" and f: "nat64_out_frame (view (skb s1))" "nat64_out_frame (view (skb s2))"
    and cfg: "NAT64_CONFIG s1 = Some cfg" "NAT64_CONFIG s2 = NAT64_CONFIG t1"
    and one: "try_nat64_egress H s1 = (Inr a1, t1)" and two: "try_nat64_egress H s2 = (Inr a2, t2)"
    and same: "nat64_key_out (view (skb s1)) = nat64_key_out (view (skb s2))"
    and later: "NAT64_CONNTRACK s' = NAT64_CONNTRACK t2" "NAT64_CONFIG s' = NAT64_CONFIG t2"
    and r: "reply_to cfg (view (skb s1)) (view (skb s'))" and inn: "try_nat64_ingress H s' = (Inr a', t')"
  shows "nat64_in_result (src6_of (view (skb s2))) (view (skb s')) (view (skb t')) \<and>
    a' = (case ENDPOINTS s' (src6_of (view (skb s2))) of Some nk \<Rightarrow> h_redirect_peer H nk | None \<Rightarrow> TC_ACT_OK)"
proof -
  have c1: "NAT64_CONFIG t1 = Some cfg" using tc_kernel.try_nat64_egress_ok [OF k f(1) cfg(1) one] cfg by simp
  let ?pod = "src6_of (view (skb s2))"
  have c2: "NAT64_CONFIG s2 = Some cfg" using cfg(2) c1 by simp
  have e: "NAT64_CONNTRACK t2 (nat64_key_out (view (skb s2))) = Some ?pod" "NAT64_CONFIG t2 = Some cfg"
    using tc_kernel.try_nat64_egress_ok [OF k f(2) c2 two] c2 by simp_all
  have l: "length ?pod = 16" using f by (simp add: nat64_out_frame_def src6_of_def)
  have "nat64_in_frame cfg (view (skb s'))" using r by (simp add: reply_to_def)
  moreover have "NAT64_CONFIG s' = Some cfg" using later e by simp
  moreover have "NAT64_CONNTRACK s' (nat64_key_in (view (skb s'))) = Some ?pod"
    using later e reply_key [OF r] same by simp
  ultimately show ?thesis using tc_kernel.try_nat64_ingress_ok [OF k _ _ _ l inn] by simp
qed

text \<open>Two pods of VPC 5 send from port 1000 to 8.8.8.8 port 53; the server answers.\<close>

definition dns_query :: "u32 \<Rightarrow> bytes" where
  "dns_query ip = replicate 12 0 @ [0x86, 0xDD] @
     ipv6_header 8 17 64 (construct GHOST_PREFIX 1 5 ip) (nat64_addr 0x08080808) @ [3, 232, 0, 53, 0, 8, 0, 0]"

definition dns_answer :: bytes where
  "dns_answer = replicate 12 0 @ [0x08, 0x00] @ ipv4_header 28 64 17 0 0x08080808 0xC0A80001 @ [0, 53, 3, 232, 0, 8, 0, 0]"

definition nat64_cfg :: Nat64Config where
  "nat64_cfg = \<lparr> Nat64Config_node_ipv4 = 0xC0A80001, Nat64Config_phys_ifindex = 2 \<rparr>"

definition nat64_node :: "bytes tc" where
  "nat64_node = \<lparr> PEERINGS = Map.empty, ENDPOINTS = [construct GHOST_PREFIX 1 5 10 \<mapsto> 100, construct GHOST_PREFIX 1 5 11 \<mapsto> 101],
     NAT64_CONNTRACK = Map.empty, NAT64_CONFIG = Some nat64_cfg, skb = dns_query 10 \<rparr>"

definition after_first :: "bytes tc" where
  "after_first = snd (try_nat64_egress mem_helpers nat64_node)"

definition second_query :: "bytes tc" where
  "second_query = after_first\<lparr>skb := dns_query 11\<rparr>"

definition after_second :: "bytes tc" where
  "after_second = snd (try_nat64_egress mem_helpers second_query)"

definition answered :: "bytes tc \<Rightarrow> bytes tc" where
  "answered s = snd (try_nat64_ingress mem_helpers (s\<lparr>skb := dns_answer\<rparr>))"

lemma dns_query_facts: "nat64_out_frame (dns_query ip)" "src6_of (dns_query ip) = construct GHOST_PREFIX 1 5 ip"
  "ip4_part (dst6_of (dns_query ip)) = 0x08080808" "dns_query ip ! 20 = 17"
  "bytes_at (dns_query ip) 54 2 = [3, 232]" "bytes_at (dns_query ip) 56 2 = [0, 53]"
proof -
  have d: "drop 14 (dns_query ip) = ipv6_header 8 17 64 (construct GHOST_PREFIX 1 5 ip) (nat64_addr 0x08080808) @ [3, 232, 0, 53, 0, 8, 0, 0]"
    by (simp add: dns_query_def)
  note f = ipv6_header_fields [OF d length_construct length_nat64_addr]
  show "src6_of (dns_query ip) = construct GHOST_PREFIX 1 5 ip" "dns_query ip ! 20 = 17" by (rule f)+
  show "ip4_part (dst6_of (dns_query ip)) = 0x08080808" by (simp add: f)
  have d54: "drop 56 (dns_query ip) = drop 2 (drop 54 (dns_query ip))" by simp
  show "bytes_at (dns_query ip) 54 2 = [3, 232]" "bytes_at (dns_query ip) 56 2 = [0, 53]"
    unfolding bytes_at_def d54 f(7) by simp_all
  have len: "58 \<le> length (dns_query ip)" by (simp add: dns_query_def)
  have "etype_of (dns_query ip) = u16_to_be_bytes ETH_P_IPV6"
    by (simp add: dns_query_def etype_of_def bytes_at_def u16_to_be_bytes_def ETH_P_IPV6_def)
  then show "nat64_out_frame (dns_query ip)"
    using len by (simp add: nat64_out_frame_def ip6_l4_frame_def f IPPROTO_UDP_def)
qed

lemma dns_answer_reply: "reply_to nat64_cfg (dns_query ip) dns_answer"
proof -
  have d: "drop 14 dns_answer = ipv4_header 28 64 17 0 0x08080808 0xC0A80001 @ [0, 53, 3, 232, 0, 8, 0, 0]"
    by (simp add: dns_answer_def)
  note f = ipv4_header_fields [OF d]
  have d36: "drop 36 dns_answer = drop 2 (drop 34 dns_answer)" by simp
  have p: "bytes_at dns_answer 34 2 = [0, 53]" "bytes_at dns_answer 36 2 = [3, 232]"
    unfolding bytes_at_def d36 f(8) by simp_all
  have len: "38 \<le> length dns_answer" by (simp add: dns_answer_def)
  have "etype_of dns_answer = u16_to_be_bytes ETH_P_IP"
    by (simp add: dns_answer_def etype_of_def bytes_at_def u16_to_be_bytes_def ETH_P_IP_def)
  then show ?thesis
    using len by (simp add: reply_to_def nat64_in_frame_def ip4_l4_frame_def f p dns_query_facts IPPROTO_UDP_def nat64_cfg_def)
qed

lemma nat64_runs:
  "try_nat64_egress mem_helpers nat64_node = (Inr 7, after_first)"
  "try_nat64_egress mem_helpers second_query = (Inr 7, after_second)"
  "try_nat64_ingress mem_helpers (after_first\<lparr>skb := dns_answer\<rparr>) = (Inr 7, answered after_first)"
  "try_nat64_ingress mem_helpers (after_second\<lparr>skb := dns_answer\<rparr>) = (Inr 7, answered after_second)"
proof -
  have "fst (try_nat64_egress mem_helpers nat64_node) = Inr 7" by code_simp
  then show "try_nat64_egress mem_helpers nat64_node = (Inr 7, after_first)" by (simp add: after_first_def prod_eq_iff)
  have "fst (try_nat64_egress mem_helpers second_query) = Inr 7" by code_simp
  then show "try_nat64_egress mem_helpers second_query = (Inr 7, after_second)" by (simp add: after_second_def prod_eq_iff)
  have "fst (try_nat64_ingress mem_helpers (after_first\<lparr>skb := dns_answer\<rparr>)) = Inr 7" by code_simp
  then show "try_nat64_ingress mem_helpers (after_first\<lparr>skb := dns_answer\<rparr>) = (Inr 7, answered after_first)"
    by (simp add: answered_def prod_eq_iff)
  have "fst (try_nat64_ingress mem_helpers (after_second\<lparr>skb := dns_answer\<rparr>)) = Inr 7" by code_simp
  then show "try_nat64_ingress mem_helpers (after_second\<lparr>skb := dns_answer\<rparr>) = (Inr 7, answered after_second)"
    by (simp add: answered_def prod_eq_iff)
qed

lemma nat64_node_facts: "nat64_out_frame (skb nat64_node)" "NAT64_CONFIG nat64_node = Some nat64_cfg" "skb nat64_node = dns_query 10"
  by (simp_all add: nat64_node_def dns_query_facts)

theorem nat64_reply_reaches_pod_witness:
  "nat64_in_result (construct GHOST_PREFIX 1 5 10) dns_answer (skb (answered after_first))"
  using nat64_reply_reaches_pod [OF memtc.tc_kernel_axioms nat64_node_facts(1,2) nat64_runs(1) _ _ _ nat64_runs(3)]
  by (simp add: nat64_node_facts(3) dns_answer_reply dns_query_facts)

theorem nat64_port_collision_witness:
  "nat64_in_result (construct GHOST_PREFIX 1 5 11) dns_answer (skb (answered after_second))"
  using nat64_port_collision [OF memtc.tc_kernel_axioms nat64_node_facts(1) _ nat64_node_facts(2) _ nat64_runs(1,2) _ _ _ _ nat64_runs(4)]
  by (simp add: nat64_node_facts(3) dns_answer_reply dns_query_facts second_query_def nat64_key_out_def)

end
