(* ===== verification/Controller_Base.thy ===== *)
theory Controller_Base
  imports Registry Pod_Scheduler
begin

text \<open>
  What the controllers of \<open>pkg/controllers/src\<close> share: the loop over the namespaces, reading a list
  of resources, and the choice of a node through the scheduler's counter. Below them is the view the
  lemmas use: \<open>entries_in\<close> is the partial map of the resources of one kind under a prefix, and every
  store operation updates it at one key. A reconcile pass is modelled as one action on the store;
  what the other tasks of the server write between two of its awaits is not.
\<close>

section \<open>Operations\<close>

text \<open>\<open>load_all\<close>: the values under a prefix that decode.\<close>

definition load_all :: "('db, 'v) SlateDb \<Rightarrow> ('v, 'a) codec \<Rightarrow> string \<Rightarrow> (('db, 'v, 'z) StateStore_scheme, 'a list) act" where
  "load_all D c p = bindM (list_prefix D p) (\<lambda>entries. returnM (decoded_values c entries))"

text \<open>\<open>reconcile\<close> of the namespaced controllers: the pass of each listed namespace with a name.\<close>

definition for_namespaces :: "('db, 'v) SlateDb \<Rightarrow> (string \<Rightarrow> (('db, 'v, 'z) StateStore_scheme, unit) act) \<Rightarrow>
    (('db, 'v, 'z) StateStore_scheme, unit) act" where
  "for_namespaces D reconcile_namespace =
     bindM (list_prefix D namespaces_prefix) (\<lambda>ns_entries.
       forM ns_entries (\<lambda>(ns_key, _).
         let ns = (case strip_prefix ns_key namespaces_prefix of Some s \<Rightarrow> s | None \<Rightarrow> [])
         in if ns = [] then returnM () else reconcile_namespace ns))"

definition schedule_pod :: "Pod \<Rightarrow> Node list \<Rightarrow> (('db, 'v) world, string option) act" where
  "schedule_pod pod nodes w =
     (let (choice, i) = schedule pod nodes (rr_index w) in (Inr choice, w\<lparr>rr_index := i\<rparr>))"

text \<open>The pod with the node the scheduler chose, if it chose one.\<close>

definition assigned :: "Pod \<Rightarrow> string option \<Rightarrow> Pod" where
  "assigned pod choice =
     (case choice of
        Some node_name \<Rightarrow> pod\<lparr>Pod_node_name := Some node_name, Pod_status := Pod_Scheduled\<rparr>
      | None \<Rightarrow> pod)"

definition owned_pods :: "('v, Pod) codec \<Rightarrow> string \<Rightarrow> (string \<times> 'v) list \<Rightarrow> (string \<times> Pod) list" where
  "owned_pods c owner entries = filter (\<lambda>(_, pod). Pod_owner_ref pod = Some owner) (decoded c entries)"

definition is_master :: "Node \<Rightarrow> bool" where
  "is_master node \<longleftrightarrow> hm_get (Node_labels node) ''node-role.kubernetes.io/master'' \<noteq> None \<or>
     hm_get (Node_labels node) ''node-role.kubernetes.io/control-plane'' \<noteq> None"

text \<open>\<open>now.signed_duration_since(t).to_std().unwrap_or_default()\<close>: never negative.\<close>

definition age_since :: "DateTime \<Rightarrow> DateTime \<Rightarrow> int" where
  "age_since now t = max 0 (now - t)"

section \<open>The resources under a prefix\<close>

definition entries_in :: "('v, 'a) codec \<Rightarrow> string \<Rightarrow> (string \<rightharpoonup> 'v) \<Rightarrow> string \<rightharpoonup> 'a" where
  "entries_in c p m k = (if prefix p k then Option.bind (m k) (\<lambda>v. ok (from_slice c v)) else None)"

text \<open>The part of such a map that an owner's references select.\<close>

definition owned_by :: "('a \<Rightarrow> string option) \<Rightarrow> string \<Rightarrow> (string \<rightharpoonup> 'a) \<Rightarrow> string \<rightharpoonup> 'a" where
  "owned_by ref owner xs k = (case xs k of Some x \<Rightarrow> if ref x = Some owner then Some x else None | None \<Rightarrow> None)"

text \<open>Every key at which two maps differ held, and holds, only resources of the given owners.\<close>

definition only_owners :: "('a \<Rightarrow> string option) \<Rightarrow> string set \<Rightarrow> (string \<rightharpoonup> 'a) \<Rightarrow> (string \<rightharpoonup> 'a) \<Rightarrow> bool" where
  "only_owners ref I xs ys \<longleftrightarrow>
     (\<forall>k. xs k \<noteq> ys k \<longrightarrow> (\<forall>x. xs k = Some x \<or> ys k = Some x \<longrightarrow> ref x \<in> Some ` I))"

lemma entries_in_Some: "entries_in c p m k = Some x \<longleftrightarrow> prefix p k \<and> (\<exists>v. m k = Some v \<and> from_slice c v = Inr x)"
  by (auto simp: entries_in_def bind_eq_Some_conv)

lemma entries_in_cong: "(\<And>k. prefix p k \<Longrightarrow> m k = m' k) \<Longrightarrow> entries_in c p m = entries_in c p m'"
  by (rule ext) (simp add: entries_in_def)

lemma entries_in_put:
  assumes "from_slice c v = Inr x"
  shows "entries_in c p (m(k \<mapsto> v)) = (if prefix p k then (entries_in c p m)(k \<mapsto> x) else entries_in c p m)"
  using assms by (auto simp: entries_in_def fun_eq_iff ok_def)

lemma entries_in_other: "\<not> prefix p k \<Longrightarrow> entries_in c p (m(k := r)) = entries_in c p m"
  by (auto simp: entries_in_def fun_eq_iff)

lemma entries_in_delete: "entries_in c p (m(k := None)) = (entries_in c p m)(k := None)"
  by (auto simp: entries_in_def fun_eq_iff)

lemma owned_by_Some: "owned_by ref i xs k = Some x \<longleftrightarrow> xs k = Some x \<and> ref x = Some i"
  by (auto simp: owned_by_def split: option.splits if_splits)

lemma owned_by_empty [simp]: "owned_by ref i Map.empty = Map.empty"
  by (simp add: owned_by_def fun_eq_iff)

lemma owned_by_put:
  "owned_by ref i (xs(k \<mapsto> x)) = (if ref x = Some i then (owned_by ref i xs)(k \<mapsto> x) else (owned_by ref i xs)(k := None))"
  by (auto simp: owned_by_def fun_eq_iff)

lemma owned_by_delete: "owned_by ref i (xs(k := None)) = (owned_by ref i xs)(k := None)"
  by (auto simp: owned_by_def fun_eq_iff)

lemma entries_in_sub: "prefix p q \<Longrightarrow> entries_in c q m k = (if prefix q k then entries_in c p m k else None)"
  by (auto simp: entries_in_def intro: prefix_order.trans)

lemma owned_by_map:
  assumes "\<And>x. ref (f x) = ref x"
  shows "owned_by ref i (\<lambda>k. map_option f (m k)) = (\<lambda>k. map_option f (owned_by ref i m k))"
  using assms by (auto simp: owned_by_def fun_eq_iff split: option.splits)

lemma dom_map_option_fun: "dom (\<lambda>k. map_option f (m k)) = dom m"
  by auto

lemma only_owners_refl: "only_owners ref I xs xs"
  by (simp add: only_owners_def)

lemma only_owners_mono: "only_owners ref I xs ys \<Longrightarrow> I \<subseteq> J \<Longrightarrow> only_owners ref J xs ys"
  unfolding only_owners_def by blast

lemma only_owners_trans: "only_owners ref I xs ys \<Longrightarrow> only_owners ref I ys zs \<Longrightarrow> only_owners ref I xs zs"
  unfolding only_owners_def by metis

lemma only_owners_put: "ref x \<in> Some ` I \<Longrightarrow> xs k = None \<Longrightarrow> only_owners ref I xs (xs(k \<mapsto> x))"
  by (auto simp: only_owners_def)

lemma only_owners_delete: "xs k = Some x \<Longrightarrow> ref x \<in> Some ` I \<Longrightarrow> only_owners ref I xs (xs(k := None))"
  by (auto simp: only_owners_def)

lemma only_owners_same:
  assumes "only_owners ref I xs ys" "i \<notin> I"
  shows "owned_by ref i ys = owned_by ref i xs"
proof
  fix k
  have "xs k \<noteq> ys k \<Longrightarrow> xs k = Some x \<or> ys k = Some x \<Longrightarrow> ref x \<noteq> Some i" for x
    using assms(1) [unfolded only_owners_def, rule_format, of k x] assms(2) by auto
  then show "owned_by ref i ys k = owned_by ref i xs k"
    by (cases "xs k = ys k") (auto simp: owned_by_def split: option.splits)
qed

lemma assigned_fields [simp]:
  "Pod_owner_ref (assigned pod ch) = Pod_owner_ref pod" "Pod_created_at (assigned pod ch) = Pod_created_at pod"
  "Pod_name (assigned pod ch) = Pod_name pod" "Pod_id (assigned pod ch) = Pod_id pod" "Pod_spec (assigned pod ch) = Pod_spec pod"
  by (simp_all add: assigned_def split: option.splits)

lemma set_owned_pods: "(k, x) \<in> set (owned_pods c i kvs) \<longleftrightarrow> (k, x) \<in> set (decoded c kvs) \<and> Pod_owner_ref x = Some i"
  by (auto simp: owned_pods_def)

lemma returnM_Inr: "returnM x s = (Inr y, s') \<longleftrightarrow> y = x \<and> s' = s"
  by (auto simp: returnM_def)

lemma list_prefix_iff: "list_prefix D p s = (r, s') \<longleftrightarrow> s' = s \<and> fst (list_prefix D p s) = r"
  by (metis fst_conv list_prefix_state prod.collapse snd_conv)

lemma store_get_iff: "store_get D k s = (r, s') \<longleftrightarrow> s' = s \<and> fst (store_get D k s) = r"
  by (metis fst_conv store_get_state prod.collapse snd_conv)

lemma world_more:
  "StateStore.more (w' :: ('db, 'v) world) = StateStore.more w \<Longrightarrow>
     rr_index w' = rr_index w \<and> uuid_draws w' = uuid_draws w \<and> clock_reads w' = clock_reads w"
  by (cases w; cases w') simp

lemma bindM_return: "bindM (returnM x) f = f x"
  by (simp add: fun_eq_iff bindM_def returnM_def)

lemma for_decoded:
  "forM kvs (\<lambda>(k, v). case from_slice c v of Inl _ \<Rightarrow> returnM () | Inr x \<Rightarrow> f k x) = forM (decoded c kvs) (\<lambda>(k, x). f k x)"
  by (induction kvs) (auto simp: decoded_Cons bindM_return split: sum.splits)

text \<open>The number of identifiers drawn never goes down.\<close>

lemma draws_mono [keeps_intro]:
  fixes n :: nat
  shows "keeps (\<lambda>w :: ('db, 'v) world. n \<le> uuid_draws w) (draw_uuid E)"
    and "keeps (\<lambda>w :: ('db, 'v) world. n \<le> uuid_draws w) (read_clock E)"
    and "keeps (\<lambda>w :: ('db, 'v) world. n \<le> uuid_draws w) (schedule_pod pod nodes)"
    and "keeps (\<lambda>w :: ('db, 'v) world. n \<le> uuid_draws w) (store_put D k v)"
    and "keeps (\<lambda>w :: ('db, 'v) world. n \<le> uuid_draws w) (store_delete D k)"
    and "keeps (\<lambda>w :: ('db, 'v) world. n \<le> uuid_draws w) (put_json D c k x)"
proof -
  show *: "keeps (\<lambda>w :: ('db, 'v) world. n \<le> uuid_draws w) (store_put D k v)" for D :: "('db, 'v) SlateDb" and k v
    by (auto simp: keeps_def store_put_def split: prod.splits sum.splits)
  show "keeps (\<lambda>w :: ('db, 'v) world. n \<le> uuid_draws w) (put_json D c k x)"
    unfolding put_json_def by (intro keeps_intro *)
qed (auto simp: keeps_def draw_uuid_def read_clock_def schedule_pod_def store_delete_def split: prod.splits sum.splits)

context registry
begin

lemma list_entries:
  assumes "list_prefix D p s = (Inr kvs, s')"
  shows "(k, x) \<in> set (decoded c kvs) \<longleftrightarrow> entries_in c p (lookup s) k = Some x"
    and "map_of (decoded c kvs) = entries_in c p (lookup s)"
    and "distinct (map fst (decoded c kvs))" and "s' = s"
proof -
  show m: "(k, x) \<in> set (decoded c kvs) \<longleftrightarrow> entries_in c p (lookup s) k = Some x" for k x
    by (auto simp: list_decoded(1) [OF assms] stored_def entries_in_def)
  show d: "distinct (map fst (decoded c kvs))" by (rule list_decoded(2) [OF assms])
  show "map_of (decoded c kvs) = entries_in c p (lookup s)"
  proof
    fix k
    show "map_of (decoded c kvs) k = entries_in c p (lookup s) k"
      using m [of k] d by (cases "entries_in c p (lookup s) k") (force simp: map_of_eq_None_iff)+
  qed
  show "s' = s" by (rule list_prefix_ok(1) [OF assms])
qed

text \<open>The decoded entries that an owner's references select.\<close>

lemma listed_refs:
  fixes c :: "('v, 'a) codec" and ref :: "'a \<Rightarrow> string option" and i :: string
  assumes "list_prefix D p s = (Inr kvs, s')"
  defines "os \<equiv> filter (\<lambda>(_, x). ref x = Some i) (decoded c kvs)" and "m \<equiv> owned_by ref i (entries_in c p (lookup s))"
  shows "map_of os = m" and "distinct (map fst os)" and "length os = card (dom m)"
proof -
  have m: "(k, x) \<in> set os \<longleftrightarrow> m k = Some x" for k x
    by (simp add: os_def m_def list_entries(1) [OF assms(1)] owned_by_Some)
  show d: "distinct (map fst os)"
    using list_entries(3) [OF assms(1), of c] by (simp add: os_def distinct_map_filter)
  show e: "map_of os = m"
  proof
    fix k show "map_of os k = m k"
      using m [of k] d by (cases "m k") (force simp: map_of_eq_None_iff)+
  qed
  show "length os = card (dom m)"
    using d distinct_card [of "map fst os"] by (simp flip: e add: dom_map_of_conv_image_fst)
qed

lemma listed_owned:
  assumes "list_prefix D p s = (Inr kvs, s')"
  shows "map_of (owned_pods c i kvs) = owned_by Pod_owner_ref i (entries_in c p (lookup s))"
    and "distinct (map fst (owned_pods c i kvs))"
    and "length (owned_pods c i kvs) = card (dom (owned_by Pod_owner_ref i (entries_in c p (lookup s))))"
  unfolding owned_pods_def by (rule listed_refs [OF assms])+

lemma put_entries:
  assumes "put_json D c k x s = (Inr u, s')" "codec_ok c"
  shows "entries_in c p (lookup s') = (if prefix p k then (entries_in c p (lookup s))(k \<mapsto> x) else entries_in c p (lookup s))"
proof -
  obtain v where "from_slice c v = Inr x" "lookup s' = (lookup s)(k \<mapsto> v)" using put_json_ok(1) [OF assms] by blast
  then show ?thesis by (simp add: entries_in_put)
qed

lemma put_entries_other:
  "put_json D c k x s = (r, s') \<Longrightarrow> \<not> prefix p k \<Longrightarrow> entries_in c' p (lookup s') = entries_in c' p (lookup s)"
  by (rule entries_in_cong, rule put_json_other) auto

text \<open>A loop that rewrites some of the listed entries.\<close>

lemma rewrite_loop:
  assumes "codec_ok c"
  shows "forM os (\<lambda>(k, x). whenM (P x) (put_json D c k (f x))) w = (Inr u, w') \<Longrightarrow> distinct (map fst os) \<Longrightarrow> \<forall>k\<in>fst ` set os. prefix p k \<Longrightarrow>
    entries_in c p (lookup w') = (\<lambda>k. case map_of os k of Some x \<Rightarrow> if P x then Some (f x) else entries_in c p (lookup w) k
      | None \<Rightarrow> entries_in c p (lookup w) k) \<and> (\<forall>k. \<not> prefix p k \<longrightarrow> lookup w' k = lookup w k)"
proof (induction os arbitrary: w)
  case Nil
  then show ?case by (simp add: returnM_Inr)
next
  case (Cons kx os)
  obtain k x where kx: "kx = (k, x)" by (cases kx)
  obtain w1 where 1: "whenM (P x) (put_json D c k (f x)) w = (Inr (), w1)"
    and rest: "forM os (\<lambda>(k, x). whenM (P x) (put_json D c k (f x))) w1 = (Inr u, w')"
    using Cons.prems(1) by (auto simp: kx bindM_Inr)
  have w1: "entries_in c p (lookup w1) = (if P x then (entries_in c p (lookup w))(k \<mapsto> f x) else entries_in c p (lookup w)) \<and>
    (\<forall>k. \<not> prefix p k \<longrightarrow> lookup w1 k = lookup w k)"
  proof (cases "P x")
    case True
    then have put: "put_json D c k (f x) w = (Inr (), w1)" using 1 by (simp add: whenM_def)
    show ?thesis using put_entries [OF put assms, of p] put_json_other [OF put] Cons.prems(3) True by (force simp: kx)
  next
    case False
    then show ?thesis using 1 by (simp add: whenM_def returnM_Inr)
  qed
  have "map_of os k = None" using Cons.prems(2) by (simp add: kx map_of_eq_None_iff)
  then show ?case using Cons.IH [OF rest] Cons.prems(2,3) w1 by (auto simp: kx fun_eq_iff split: option.splits)
qed

text \<open>A pass that rewrites the entries under a prefix that a test selects.\<close>

lemma rewrite_pass:
  assumes "forM (decoded c kvs) (\<lambda>(k, x). whenM (P x) (put_json D c k (f x))) s = (Inr u, w')" "codec_ok c"
    and l: "list_prefix D p w = (Inr kvs, w)" and s: "lookup s = lookup w"
  shows "entries_in c p (lookup w') = (\<lambda>k. map_option (\<lambda>x. if P x then f x else x) (entries_in c p (lookup w) k))"
    and "\<not> prefix p k \<Longrightarrow> lookup w' k = lookup w k"
proof -
  have p: "\<forall>k\<in>fst ` set (decoded c kvs). prefix p k"
    using list_decoded(1) [OF l] by fastforce
  note r = rewrite_loop [OF assms(2,1) list_entries(3) [OF l] p, unfolded s list_entries(2) [OF l]]
  show "entries_in c p (lookup w') = (\<lambda>k. map_option (\<lambda>x. if P x then f x else x) (entries_in c p (lookup w) k))"
    using r by (auto simp: fun_eq_iff split: option.splits)
  show "\<not> prefix p k \<Longrightarrow> lookup w' k = lookup w k" using r by blast
qed

lemma delete_entries:
  "store_delete D k s = (Inr u, s') \<Longrightarrow> entries_in c p (lookup s') = (entries_in c p (lookup s))(k := None)"
  by (simp add: store_delete_ok(1) entries_in_delete)

end

section \<open>Actions that never fail\<close>

text \<open>On the in-memory table no pass fails; the concrete runs use these rules.\<close>

definition succeeds :: "('s, 'a) act \<Rightarrow> bool" where
  "succeeds m \<longleftrightarrow> (\<forall>s. \<exists>x. fst (m s) = Inr x)"

named_theorems succeeds_intro \<open>actions that never fail\<close>

lemma succeeds_unit: "succeeds m \<Longrightarrow> fst (m s) = Inr ()"
  by (simp add: succeeds_def)

lemma succeeds_return [succeeds_intro]: "succeeds (returnM x)"
  by (simp add: succeeds_def returnM_def)

lemma succeeds_bind [succeeds_intro]:
  assumes "succeeds m" "\<And>x. succeeds (f x)"
  shows "succeeds (bindM m f)"
  unfolding succeeds_def
proof
  fix s
  obtain x where "fst (m s) = Inr x" using assms(1) by (auto simp: succeeds_def)
  then have "bindM m f s = f x (snd (m s))" by (cases "m s") (simp add: bindM_def)
  then show "\<exists>x. fst (bindM m f s) = Inr x" using assms(2) by (simp add: succeeds_def)
qed

lemma succeeds_when [succeeds_intro]: "succeeds m \<Longrightarrow> succeeds (whenM b m)"
  by (simp add: whenM_def succeeds_return)

lemma succeeds_if [succeeds_intro]: "succeeds m \<Longrightarrow> succeeds n \<Longrightarrow> succeeds (if b then m else n)"
  by simp

lemma succeeds_for [succeeds_intro]: "(\<And>x. succeeds (f x)) \<Longrightarrow> succeeds (forM xs f)"
  by (induction xs) (auto intro!: succeeds_intro)

lemma succeeds_option [succeeds_intro]: "succeeds a \<Longrightarrow> (\<And>x. succeeds (f x)) \<Longrightarrow> succeeds (case y of None \<Rightarrow> a | Some x \<Rightarrow> f x)"
  by (cases y) auto

lemma succeeds_sum [succeeds_intro]: "(\<And>x. succeeds (g x)) \<Longrightarrow> (\<And>x. succeeds (f x)) \<Longrightarrow> succeeds (case y of Inl x \<Rightarrow> g x | Inr x \<Rightarrow> f x)"
  by (cases y) auto

lemma succeeds_prod [succeeds_intro]: "(\<And>a b. succeeds (f a b)) \<Longrightarrow> succeeds (case y of (a, b) \<Rightarrow> f a b)"
  by (cases y) auto

lemma succeeds_mem [succeeds_intro]:
  "succeeds (list_prefix mem_slatedb p)" "succeeds (store_get mem_slatedb k)" "succeeds (store_put mem_slatedb k v)" "succeeds (store_delete mem_slatedb k)"
  "succeeds (draw_uuid E)" "succeeds (read_clock E)" "succeeds (schedule_pod pod nodes)" "succeeds (put_json mem_slatedb (tag_codec tg prj) k x)"
  by (auto simp: succeeds_def list_prefix_def store_get_def store_put_def store_delete_def mem_slatedb_def draw_uuid_def read_clock_def
      schedule_pod_def put_json_def tag_codec_def bindM_def liftR_def split: prod.splits option.splits)

end
