(* ===== verification/Replicaset_Controller.thy ===== *)
theory Replicaset_Controller
  imports Controller_Base
begin

text \<open>
  The ReplicaSet controller (\<open>pkg/controllers/src/replicaset.rs\<close>): one reconcile pass. The lemmas
  show that a pass over a namespace brings every ReplicaSet to its requested number of pods, deletes
  the newest ones first, and records the counts.
\<close>

section \<open>Operations\<close>

definition rs_create_pod :: "('db, 'v) SlateDb \<Rightarrow> 'v serde \<Rightarrow> env \<Rightarrow> string \<Rightarrow> ReplicaSet \<Rightarrow> Node list \<Rightarrow>
    (('db, 'v) world, Pod) act" where
  "rs_create_pod D C E ns rs nodes =
     bindM (draw_uuid E) (\<lambda>pod_id. bindM (read_clock E) (\<lambda>now.
       let pod = \<lparr> Pod_id = pod_id, Pod_name = ReplicaSet_name rs @ ''-'' @ take 8 pod_id,
             Pod_namespace = ns, Pod_spec = ReplicaSetSpec_template (ReplicaSet_spec rs),
             Pod_status = Pod_Pending, Pod_status_message = None, Pod_container_id = None,
             Pod_node_name = None, Pod_labels = ReplicaSetSpec_selector (ReplicaSet_spec rs),
             Pod_owner_ref = Some (ReplicaSet_id rs), Pod_restart_count = 0,
             Pod_runtime_info = None, Pod_ghost_ipv6 = None, Pod_vpc_name = None,
             Pod_created_at = now \<rparr>
       in bindM (schedule_pod pod nodes) (\<lambda>choice.
          let pod = assigned pod choice
          in bindM (put_json D (Pod_codec C) (pods_prefix ns @ Pod_name pod) pod) (\<lambda>_. returnM pod))))"

text \<open>The status counters of the recount: every owned pod, the ones ready, the ones available.\<close>

definition rs_count :: "PodStatus \<Rightarrow> ReplicaSetStatus \<Rightarrow> ReplicaSetStatus" where
  "rs_count st c =
     (let c = c\<lparr>ReplicaSetStatus_replicas := ReplicaSetStatus_replicas c + 1\<rparr>
      in case st of
           Pod_Running \<Rightarrow> c\<lparr>ReplicaSetStatus_ready_replicas := ReplicaSetStatus_ready_replicas c + 1,
                            ReplicaSetStatus_available_replicas := ReplicaSetStatus_available_replicas c + 1\<rparr>
         | Pod_Scheduled \<Rightarrow> c\<lparr>ReplicaSetStatus_ready_replicas := ReplicaSetStatus_ready_replicas c + 1\<rparr>
         | _ \<Rightarrow> c)"

definition rs_recount :: "(string \<times> Pod) list \<Rightarrow> ReplicaSetStatus" where
  "rs_recount owned = fold (\<lambda>(_, pod). rs_count (Pod_status pod)) owned
     \<lparr> ReplicaSetStatus_replicas = 0, ReplicaSetStatus_ready_replicas = 0, ReplicaSetStatus_available_replicas = 0 \<rparr>"

definition rs_scale :: "('db, 'v) SlateDb \<Rightarrow> 'v serde \<Rightarrow> env \<Rightarrow> string \<Rightarrow> Node list \<Rightarrow> ReplicaSet \<Rightarrow>
    (string \<times> Pod) list \<Rightarrow> (('db, 'v) world, unit) act" where
  "rs_scale D C E ns nodes rs owned =
     (let current_count = of_nat (length owned) :: u32;
          replicas = ReplicaSetSpec_replicas (ReplicaSet_spec rs)
      in if current_count < replicas then
           let to_create = replicas - current_count
           in forM [0 ..< unat to_create] (\<lambda>_. bindM (rs_create_pod D C E ns rs nodes) (\<lambda>_. returnM ()))
         else if replicas < current_count then
           let to_delete = unat (current_count - replicas);
               pods_to_delete = sort_key (\<lambda>(_, pod). - Pod_created_at pod) owned
           in forM (take to_delete pods_to_delete) (\<lambda>(pod_key, _). store_delete D pod_key)
         else returnM ())"

definition reconcile_rs :: "('db, 'v) SlateDb \<Rightarrow> 'v serde \<Rightarrow> env \<Rightarrow> string \<Rightarrow> Node list \<Rightarrow> string \<Rightarrow>
    ReplicaSet \<Rightarrow> (('db, 'v) world, unit) act" where
  "reconcile_rs D C E ns nodes rs_key rs =
     bindM (list_prefix D (pods_prefix ns)) (\<lambda>pod_entries.
     bindM (rs_scale D C E ns nodes rs (owned_pods (Pod_codec C) (ReplicaSet_id rs) pod_entries)) (\<lambda>_.
     bindM (list_prefix D (pods_prefix ns)) (\<lambda>pod_entries.
       put_json D (ReplicaSet_codec C) rs_key
         (rs\<lparr>ReplicaSet_status := rs_recount (owned_pods (Pod_codec C) (ReplicaSet_id rs) pod_entries)\<rparr>))))"

definition rs_reconcile_namespace :: "('db, 'v) SlateDb \<Rightarrow> 'v serde \<Rightarrow> env \<Rightarrow> string \<Rightarrow> (('db, 'v) world, unit) act" where
  "rs_reconcile_namespace D C E ns =
     bindM (list_prefix D (replicasets_prefix ns)) (\<lambda>rs_entries.
     bindM (load_all D (Node_codec C) nodes_prefix) (\<lambda>nodes.
       forM rs_entries (\<lambda>(rs_key, rs_value).
         case from_slice (ReplicaSet_codec C) rs_value of
           Inl _ \<Rightarrow> returnM ()
         | Inr rs \<Rightarrow> reconcile_rs D C E ns nodes rs_key rs)))"

definition rs_reconcile :: "('db, 'v) SlateDb \<Rightarrow> 'v serde \<Rightarrow> env \<Rightarrow> (('db, 'v) world, unit) act" where
  "rs_reconcile D C E = for_namespaces D (rs_reconcile_namespace D C E)"

section \<open>Fresh pod names\<close>

text \<open>
  The random identifiers drawn from the n-th up to the m-th have distinct first eight characters, and
  none of the given keys ends in one of them.
\<close>

definition fresh_ids :: "env \<Rightarrow> nat \<Rightarrow> nat \<Rightarrow> string set \<Rightarrow> bool" where
  "fresh_ids E n m keys \<longleftrightarrow>
     (\<forall>i\<in>{n..<m}. 8 \<le> length (new_v4 E i) \<and> (\<forall>j\<in>{n..<m}. take 8 (new_v4 E i) = take 8 (new_v4 E j) \<longrightarrow> i = j) \<and>
            (\<forall>k\<in>keys. \<not> suffix (take 8 (new_v4 E i)) k))"

lemma fresh_ids_mono: "fresh_ids E n m keys \<Longrightarrow> keys' \<subseteq> keys \<Longrightarrow> fresh_ids E n m keys'"
  unfolding fresh_ids_def by blast

lemma suffix_same_length: "suffix xs (zs @ ys) \<Longrightarrow> length xs = length ys \<Longrightarrow> xs = ys"
  by (auto simp: suffix_def append_eq_append_conv)

lemma fresh_ids_draw:
  assumes "fresh_ids E n m keys" "n < m"
  shows "fresh_ids E (Suc n) m (insert (p @ take 8 (new_v4 E n)) keys)" and "p @ take 8 (new_v4 E n) \<notin> keys"
proof -
  have len: "length (take 8 (new_v4 E i)) = 8" if "n \<le> i" "i < m" for i using assms that by (simp add: fresh_ids_def)
  have "\<not> suffix (take 8 (new_v4 E i)) (p @ take 8 (new_v4 E n))" if "Suc n \<le> i" "i < m" for i
    using suffix_same_length [of "take 8 (new_v4 E i)" p "take 8 (new_v4 E n)"] len [of i] len [of n] assms that
    by (force simp: fresh_ids_def)
  then show "fresh_ids E (Suc n) m (insert (p @ take 8 (new_v4 E n)) keys)"
    using assms by (auto simp: fresh_ids_def)
  show "p @ take 8 (new_v4 E n) \<notin> keys" using assms by (force simp: fresh_ids_def suffix_def)
qed

section \<open>One ReplicaSet\<close>

text \<open>The pods of a ReplicaSet before and after: the requested number, none changed, the newest deleted.\<close>

definition rs_goal :: "ReplicaSet \<Rightarrow> (string \<rightharpoonup> Pod) \<Rightarrow> (string \<rightharpoonup> Pod) \<Rightarrow> bool" where
  "rs_goal rs old new \<longleftrightarrow>
     card (dom new) = unat (ReplicaSetSpec_replicas (ReplicaSet_spec rs)) \<and>
     (old \<subseteq>\<^sub>m new \<or> new \<subseteq>\<^sub>m old) \<and>
     (\<forall>k p k' p'. old k = Some p \<and> new k = None \<and> new k' = Some p' \<longrightarrow> Pod_created_at p' \<le> Pod_created_at p)"

definition count_status :: "(PodStatus \<Rightarrow> bool) \<Rightarrow> (string \<rightharpoonup> Pod) \<Rightarrow> u32" where
  "count_status st xs = of_nat (card {k. \<exists>p. xs k = Some p \<and> st (Pod_status p)})"

definition rs_status_of :: "(string \<rightharpoonup> Pod) \<Rightarrow> ReplicaSetStatus" where
  "rs_status_of xs =
     \<lparr> ReplicaSetStatus_replicas = count_status (\<lambda>_. True) xs,
       ReplicaSetStatus_ready_replicas = count_status (\<lambda>s. s \<in> {Pod_Running, Pod_Scheduled}) xs,
       ReplicaSetStatus_available_replicas = count_status (\<lambda>s. s = Pod_Running) xs \<rparr>"

lemma rs_recount_lengths:
  "fold (\<lambda>(_, pod). rs_count (Pod_status pod)) ps \<lparr> ReplicaSetStatus_replicas = a, ReplicaSetStatus_ready_replicas = b,
      ReplicaSetStatus_available_replicas = c \<rparr> =
   \<lparr> ReplicaSetStatus_replicas = a + of_nat (length ps),
     ReplicaSetStatus_ready_replicas = b + of_nat (length (filter (\<lambda>(_, p). Pod_status p \<in> {Pod_Running, Pod_Scheduled}) ps)),
     ReplicaSetStatus_available_replicas = c + of_nat (length (filter (\<lambda>(_, p). Pod_status p = Pod_Running) ps)) \<rparr>"
  by (induction ps arbitrary: a b c) (auto simp: rs_count_def Let_def split: PodStatus.splits)

lemma count_status_list:
  assumes "distinct (map fst ps)"
  shows "count_status st (map_of ps) = of_nat (length (filter (\<lambda>(_, p). st (Pod_status p)) ps))"
proof -
  let ?f = "filter (\<lambda>(_, p). st (Pod_status p)) ps"
  have "{k. \<exists>p. map_of ps k = Some p \<and> st (Pod_status p)} = fst ` set ?f"
    using assms by (force simp: map_of_eq_Some_iff image_iff)
  moreover have "card (fst ` set ?f) = length ?f"
    using distinct_card [OF distinct_map_filter [OF assms, of "\<lambda>(_, p). st (Pod_status p)"]] by simp
  ultimately show ?thesis by (simp add: count_status_def)
qed

lemma rs_recount_map_of: "distinct (map fst ps) \<Longrightarrow> rs_recount ps = rs_status_of (map_of ps)"
  by (simp add: rs_recount_def rs_recount_lengths rs_status_of_def count_status_list del: insert_iff)

lemma sorted_map_split: "sorted (map f xs) \<Longrightarrow> x \<in> set (take n xs) \<Longrightarrow> y \<in> set (drop n xs) \<Longrightarrow> f x \<le> f y"
  using sorted_append [of "map f (take n xs)" "map f (drop n xs)"] by (auto simp flip: map_append)

text \<open>The keys left after deleting the newest entries of a list with distinct keys.\<close>

lemma take_newest:
  fixes ps :: "(string \<times> Pod) list" and n :: nat
  defines "ds \<equiv> take n (sort_key (\<lambda>(_, pod). - Pod_created_at pod) ps)"
  assumes d: "distinct (map fst ps)"
  shows "card (dom (map_of ps |` (- fst ` set ds))) = length ps - n"
    and "map_of ps k = Some p \<Longrightarrow> k \<in> fst ` set ds \<Longrightarrow> (map_of ps |` (- fst ` set ds)) k' = Some p' \<Longrightarrow> Pod_created_at p' \<le> Pod_created_at p"
proof -
  let ?s = "sort_key (\<lambda>(_, pod). - Pod_created_at pod) ps"
  have ds: "distinct (map fst ?s)"
    using d by (metis (no_types, lifting) card_distinct distinct_card length_map length_sort set_map set_sort)
  have "dom (map_of ps |` (- fst ` set ds)) = fst ` set ?s - fst ` set ds"
    by (auto simp: dom_map_of_conv_image_fst)
  also have "card \<dots> = card (fst ` set ?s) - card (fst ` set ds)"
    by (rule card_Diff_subset) (auto simp: ds_def image_iff dest!: in_set_takeD intro!: bexI)
  also have "card (fst ` set ?s) = length ps" using distinct_card [OF ds] by simp
  also have "card (fst ` set ds) = min (length ps) n"
    using distinct_card [OF distinct_take [OF ds, of n]] by (simp add: ds_def take_map)
  finally show "card (dom (map_of ps |` (- fst ` set ds))) = length ps - n" by simp
  assume 1: "map_of ps k = Some p" "k \<in> fst ` set ds" "(map_of ps |` (- fst ` set ds)) k' = Some p'"
  obtain p0 where p0: "(k, p0) \<in> set ds" using 1(2) by auto
  then have "map_of ps k = Some p0" using d by (auto simp: ds_def map_of_eq_Some_iff dest: in_set_takeD)
  with p0 1(1) have "(k, p) \<in> set ds" by simp
  moreover have "(k', p') \<in> set (drop n ?s)"
  proof -
    have "(k', p') \<in> set ps" "k' \<notin> fst ` set ds" using 1(3) d by (auto simp: restrict_map_def map_of_eq_Some_iff split: if_splits)
    then have "(k', p') \<in> set (take n ?s) \<union> set (drop n ?s)" "(k', p') \<notin> set (take n ?s)"
      by (auto simp flip: set_append simp: ds_def rev_image_eqI)
    then show ?thesis by blast
  qed
  ultimately show "Pod_created_at p' \<le> Pod_created_at p"
    using sorted_map_split [of "\<lambda>(_, pod). - Pod_created_at pod" ?s "(k, p)" n "(k', p')"] by (simp add: ds_def)
qed

context registry
begin

lemma rs_create_pod_ok:
  assumes "rs_create_pod D C E ns rs nodes w = (Inr pod, w')"
  shows "entries_in (Pod_codec C) (pods_prefix ns) (lookup w') = (entries_in (Pod_codec C) (pods_prefix ns) (lookup w))
      (pods_prefix ns @ ReplicaSet_name rs @ ''-'' @ take 8 (new_v4 E (uuid_draws w)) \<mapsto> pod)"
    and "Pod_owner_ref pod = Some (ReplicaSet_id rs)" and "uuid_draws w' = Suc (uuid_draws w)"
    and "\<not> prefix (pods_prefix ns) k \<Longrightarrow> lookup w' k = lookup w k"
proof -
  obtain w1 where put: "put_json D (Pod_codec C) (pods_prefix ns @ ReplicaSet_name rs @ ''-'' @ take 8 (new_v4 E (uuid_draws w))) pod w1 = (Inr (), w')"
    and ref: "Pod_owner_ref pod = Some (ReplicaSet_id rs)" and w1: "lookup w1 = lookup w" "uuid_draws w1 = Suc (uuid_draws w)"
    using assms
    by (auto simp: rs_create_pod_def draw_uuid_def read_clock_def schedule_pod_def Let_def action_defs split: prod.splits sum.splits)
  show "entries_in (Pod_codec C) (pods_prefix ns) (lookup w') = (entries_in (Pod_codec C) (pods_prefix ns) (lookup w))
      (pods_prefix ns @ ReplicaSet_name rs @ ''-'' @ take 8 (new_v4 E (uuid_draws w)) \<mapsto> pod)"
    using put_entries [OF put, of "pods_prefix ns"] by (simp add: w1)
  show "Pod_owner_ref pod = Some (ReplicaSet_id rs)" by fact
  show "uuid_draws w' = Suc (uuid_draws w)" using world_more [OF put_json_ok(2) [OF put]] w1(2) by simp
  show "\<not> prefix (pods_prefix ns) k \<Longrightarrow> lookup w' k = lookup w k"
    using put_json_other [OF put, of k] w1(1) by (metis prefixI)
qed

abbreviation pods :: "string \<Rightarrow> ('db, 'v) world \<Rightarrow> string \<rightharpoonup> Pod" where
  "pods ns w \<equiv> entries_in (Pod_codec C) (pods_prefix ns) (lookup w)"

text \<open>
  What a part of a pass leaves: only pods of the given owners have changed, the identifiers to come are
  still fresh, and nothing outside the pods of the namespace has changed.
\<close>

definition rs_frame :: "env \<Rightarrow> string \<Rightarrow> nat \<Rightarrow> string set \<Rightarrow> ('db, 'v) world \<Rightarrow> ('db, 'v) world \<Rightarrow> bool" where
  "rs_frame E ns m I w w' \<longleftrightarrow> only_owners Pod_owner_ref I (pods ns w) (pods ns w') \<and>
     fresh_ids E (uuid_draws w') m (dom (pods ns w')) \<and> uuid_draws w \<le> uuid_draws w' \<and>
     (\<forall>k. \<not> prefix (pods_prefix ns) k \<longrightarrow> lookup w' k = lookup w k)"

lemma rs_frame_trans: "rs_frame E ns m I w w1 \<Longrightarrow> rs_frame E ns m I w1 w2 \<Longrightarrow> rs_frame E ns m I w w2"
  by (auto simp: rs_frame_def intro: only_owners_trans)

text \<open>Creating n pods: n new keys, all owned by the ReplicaSet, the rest as before.\<close>

lemma rs_create_pods_draws:
  "forM is (\<lambda>_. bindM (rs_create_pod D C E ns rs nodes) (\<lambda>_. returnM ())) w = (Inr u, w') \<Longrightarrow>
     uuid_draws w' = uuid_draws w + length is"
proof (induction "is" arbitrary: w)
  case (Cons i "is")
  then show ?case by (auto simp: bindM_Inr returnM_Inr dest!: rs_create_pod_ok(3) Cons.IH)
qed (simp add: returnM_Inr)

lemma rs_create_pods_ok:
  assumes "forM is (\<lambda>_. bindM (rs_create_pod D C E ns rs nodes) (\<lambda>_. returnM ())) w = (Inr u, w')"
    and "fresh_ids E (uuid_draws w) m (dom (pods ns w))" and "uuid_draws w' \<le> m"
  defines "own \<equiv> owned_by Pod_owner_ref (ReplicaSet_id rs)"
  shows "rs_frame E ns m {ReplicaSet_id rs} w w' \<and> own (pods ns w) \<subseteq>\<^sub>m own (pods ns w') \<and>
    (finite (dom (own (pods ns w))) \<longrightarrow> card (dom (own (pods ns w'))) = card (dom (own (pods ns w))) + length is)"
  using assms(1,2)
proof (induction "is" arbitrary: w)
  case Nil
  then show ?case by (auto simp: returnM_def rs_frame_def only_owners_refl)
next
  case (Cons i "is")
  obtain pod w1 where pod: "rs_create_pod D C E ns rs nodes w = (Inr pod, w1)"
    and rest: "forM is (\<lambda>_. bindM (rs_create_pod D C E ns rs nodes) (\<lambda>_. returnM ())) w1 = (Inr u, w')"
    using Cons.prems(1) by (auto simp: bindM_Inr returnM_Inr)
  define k where "k = (pods_prefix ns @ ReplicaSet_name rs @ ''-'') @ take 8 (new_v4 E (uuid_draws w))"
  note p = rs_create_pod_ok [OF pod]
  have lt: "uuid_draws w < m" using rs_create_pods_draws [OF rest] p(3) assms(3) by simp
  have w1: "pods ns w1 = (pods ns w)(k \<mapsto> pod)" using p(1) by (simp add: k_def)
  have new: "pods ns w k = None" and fr: "fresh_ids E (uuid_draws w1) m (dom (pods ns w1))"
    using fresh_ids_draw [OF Cons.prems(2) lt, of "pods_prefix ns @ ReplicaSet_name rs @ ''-''"]
    unfolding p(3) w1 k_def by auto
  then have "rs_frame E ns m {ReplicaSet_id rs} w w1"
    using p(2-4) by (auto simp: rs_frame_def w1 intro: only_owners_put)
  with Cons.IH [OF rest fr] have fr': "rs_frame E ns m {ReplicaSet_id rs} w w'" by (blast intro: rs_frame_trans)
  have o1: "own (pods ns w1) = (own (pods ns w))(k \<mapsto> pod)" and o: "own (pods ns w) k = None"
    using p(2) new by (simp_all only: own_def w1 owned_by_put owned_by_def) simp_all
  have 1: "own (pods ns w1) \<subseteq>\<^sub>m own (pods ns w')"
      "finite (dom (own (pods ns w1))) \<Longrightarrow> card (dom (own (pods ns w'))) = card (dom (own (pods ns w1))) + length is"
    using Cons.IH [OF rest fr] by blast+
  have "own (pods ns w) \<subseteq>\<^sub>m own (pods ns w1)" unfolding o1 using o by (auto simp: map_le_def)
  then have "own (pods ns w) \<subseteq>\<^sub>m own (pods ns w')" using 1(1) by (rule map_le_trans)
  moreover have "card (dom (own (pods ns w'))) = card (dom (own (pods ns w))) + length (i # is)" if "finite (dom (own (pods ns w)))"
    using 1(2) that o unfolding o1 by (simp add: domIff)
  ultimately show ?case using fr' by blast
qed

lemma rs_delete_pods_ok:
  fixes w :: "('db, 'v) world"
  shows "forM ds (\<lambda>(pod_key, _). store_delete D pod_key) w = (Inr u, w') \<Longrightarrow>
    lookup w' = lookup w |` (- fst ` set ds) \<and> StateStore.more w' = StateStore.more w"
proof (induction ds arbitrary: w)
  case (Cons d ds)
  obtain k x w1 where d: "d = (k, x)" and 1: "store_delete D k w = (Inr (), w1)" "forM ds (\<lambda>(pod_key, _). store_delete D pod_key) w1 = (Inr u, w')"
    using Cons.prems by (cases d) (auto simp: bindM_Inr)
  show ?case using Cons.IH [OF 1(2)] store_delete_ok(1,3) [OF 1(1)] d by (auto simp: restrict_map_def fun_eq_iff)
qed (auto simp: returnM_def restrict_map_def)

lemma rs_scale_ok:
  assumes scale: "rs_scale D C E ns nodes rs ps w = (Inr u, w')"
  defines "own \<equiv> owned_by Pod_owner_ref (ReplicaSet_id rs)"
  assumes ps: "map_of ps = own (pods ns w)" "distinct (map fst ps)" "length ps = card (dom (own (pods ns w)))" "length ps < 2 ^ 32"
    and ids: "fresh_ids E (uuid_draws w) m (dom (pods ns w))" "uuid_draws w' \<le> m"
  shows "rs_goal rs (own (pods ns w)) (own (pods ns w')) \<and> rs_frame E ns m {ReplicaSet_id rs} w w'"
proof -
  let ?n = "ReplicaSetSpec_replicas (ReplicaSet_spec rs)" and ?c = "of_nat (length ps) :: u32"
  have c: "unat ?c = length ps" using ps(4) by (simp add: unat_of_nat take_bit_nat_eq_self)
  have fin: "finite (dom (own (pods ns w)))" using finite_dom_map_of [of ps] by (simp add: ps(1))
  consider (up) "?c < ?n" | (down) "?n < ?c" | (same) "?n = ?c" by (metis linorder_neqE)
  then show ?thesis
  proof cases
    case up
    then have n: "length ps + unat (?n - ?c) = unat ?n" using c by (simp add: word_less_nat_alt unat_sub_if')
    have "forM [0..<unat (?n - ?c)] (\<lambda>_. bindM (rs_create_pod D C E ns rs nodes) (\<lambda>_. returnM ())) w = (Inr u, w')"
      using scale up by (simp add: rs_scale_def Let_def)
    from rs_create_pods_ok [OF this ids] fin n ps(3) show ?thesis
      by (auto simp: rs_goal_def own_def map_le_def dom_def)
  next
    case down
    let ?ds = "take (unat (?c - ?n)) (sort_key (\<lambda>(_, pod). - Pod_created_at pod) ps)"
    have n: "length ps - unat (?c - ?n) = unat ?n" using c down by (simp add: word_less_nat_alt unat_sub_if')
    have "forM ?ds (\<lambda>(pod_key, _). store_delete D pod_key) w = (Inr u, w')"
      using scale down less_not_sym [OF down] by (simp add: rs_scale_def Let_def)
    then have d: "lookup w' = lookup w |` (- fst ` set ?ds)" "StateStore.more w' = StateStore.more w"
      using rs_delete_pods_ok by blast+
    have ds: "k \<in> fst ` set ?ds \<Longrightarrow> \<exists>p. own (pods ns w) k = Some p" for k
      using ps(2) by (auto simp flip: ps(1) simp: map_of_eq_Some_iff dest!: in_set_takeD)
    have p': "pods ns w' = pods ns w |` (- fst ` set ?ds)" by (auto simp: d(1) entries_in_def restrict_map_def fun_eq_iff)
    then have o': "own (pods ns w') = map_of ps |` (- fst ` set ?ds)"
      unfolding ps(1) by (auto simp: own_def owned_by_def restrict_map_def fun_eq_iff)
    note t = take_newest [OF ps(2), where n = "unat (?c - ?n)", folded o']
    have "rs_goal rs (own (pods ns w)) (own (pods ns w'))"
      unfolding rs_goal_def
    proof (intro conjI allI impI)
      show "card (dom (own (pods ns w'))) = unat ?n" using t(1) n by simp
      show "own (pods ns w) \<subseteq>\<^sub>m own (pods ns w') \<or> own (pods ns w') \<subseteq>\<^sub>m own (pods ns w)"
        unfolding o' ps(1) by (rule disjI2) (auto simp: map_le_def)
      fix k p k' p' assume "own (pods ns w) k = Some p \<and> own (pods ns w') k = None \<and> own (pods ns w') k' = Some p'"
      moreover from this have "k \<in> fst ` set ?ds" by (auto simp: o' ps(1) restrict_map_def split: if_splits)
      ultimately show "Pod_created_at p' \<le> Pod_created_at p" using t(2) unfolding ps(1) by blast
    qed
    moreover have "rs_frame E ns m {ReplicaSet_id rs} w w'"
      unfolding rs_frame_def
    proof (intro conjI allI impI)
      show "only_owners Pod_owner_ref {ReplicaSet_id rs} (pods ns w) (pods ns w')"
        using ds by (force simp: only_owners_def p' restrict_map_def own_def owned_by_Some)
      show "fresh_ids E (uuid_draws w') m (dom (pods ns w'))"
        using fresh_ids_mono [OF ids(1), of "dom (pods ns w')"] world_more [OF d(2)] unfolding p' by auto
      show "uuid_draws w \<le> uuid_draws w'" using world_more [OF d(2)] by simp
      show "lookup w' k = lookup w k" if "\<not> prefix (pods_prefix ns) k" for k
        using ds [of k] that by (auto simp: d(1) restrict_map_def own_def owned_by_Some entries_in_def)
    qed
    ultimately show ?thesis by blast
  next
    case same
    then have "w' = w" using scale by (simp add: rs_scale_def Let_def returnM_def)
    then show ?thesis using ids c same ps(3) by (auto simp: rs_goal_def rs_frame_def only_owners_refl)
  qed
qed

text \<open>One ReplicaSet: its pods reach the goal and its record gets the counts.\<close>

lemma reconcile_rs_ok:
  assumes run: "reconcile_rs D C E ns nodes rs_key rs w = (Inr u, w')" and key: "\<not> prefix (pods_prefix ns) rs_key"
  defines "own \<equiv> owned_by Pod_owner_ref (ReplicaSet_id rs)"
  assumes small: "card (dom (own (pods ns w))) < 2 ^ 32"
    and ids: "fresh_ids E (uuid_draws w) m (dom (pods ns w))" "uuid_draws w' \<le> m"
  shows "rs_goal rs (own (pods ns w)) (own (pods ns w'))"
    and "only_owners Pod_owner_ref {ReplicaSet_id rs} (pods ns w) (pods ns w')"
    and "fresh_ids E (uuid_draws w') m (dom (pods ns w'))" and "uuid_draws w \<le> uuid_draws w'"
    and "\<not> prefix (pods_prefix ns) p \<Longrightarrow> \<not> prefix p (pods_prefix ns) \<Longrightarrow>
      entries_in (ReplicaSet_codec C) p (lookup w') = (if prefix p rs_key
        then (entries_in (ReplicaSet_codec C) p (lookup w))(rs_key \<mapsto> rs\<lparr>ReplicaSet_status := rs_status_of (own (pods ns w'))\<rparr>)
        else entries_in (ReplicaSet_codec C) p (lookup w))"
proof -
  obtain kvs kvs' w1 where l: "list_prefix D (pods_prefix ns) w = (Inr kvs, w)" "list_prefix D (pods_prefix ns) w1 = (Inr kvs', w1)"
    and scale: "rs_scale D C E ns nodes rs (owned_pods (Pod_codec C) (ReplicaSet_id rs) kvs) w = (Inr (), w1)"
    and put: "put_json D (ReplicaSet_codec C) rs_key
       (rs\<lparr>ReplicaSet_status := rs_recount (owned_pods (Pod_codec C) (ReplicaSet_id rs) kvs')\<rparr>) w1 = (Inr (), w')"
    using run by (auto simp: reconcile_rs_def bindM_Inr list_prefix_iff)
  have same: "pods ns w' = pods ns w1" using put key by (rule put_entries_other)
  have more: "uuid_draws w' = uuid_draws w1" using world_more [OF put_json_ok(2) [OF put]] by simp
  note o = listed_owned [OF l(1), where c = "Pod_codec C" and i = "ReplicaSet_id rs"]
    and o' = listed_owned [OF l(2), where c = "Pod_codec C" and i = "ReplicaSet_id rs"]
  have "rs_goal rs (own (pods ns w)) (own (pods ns w1)) \<and> rs_frame E ns m {ReplicaSet_id rs} w w1"
    using rs_scale_ok [OF scale o] small ids more by (simp add: own_def o(3))
  note 1 = conjunct1 [OF this] conjunct2 [OF this, unfolded rs_frame_def]
  from 1 show "rs_goal rs (own (pods ns w)) (own (pods ns w'))"
    "only_owners Pod_owner_ref {ReplicaSet_id rs} (pods ns w) (pods ns w')"
    "fresh_ids E (uuid_draws w') m (dom (pods ns w'))" "uuid_draws w \<le> uuid_draws w'"
    by (simp_all add: same more)
  from 1(2) have out: "\<not> prefix (pods_prefix ns) k \<Longrightarrow> lookup w1 k = lookup w k" for k by blast
  assume p: "\<not> prefix (pods_prefix ns) p" "\<not> prefix p (pods_prefix ns)"
  have "entries_in (ReplicaSet_codec C) p (lookup w1) = entries_in (ReplicaSet_codec C) p (lookup w)"
    by (rule entries_in_cong) (metis out p prefix_same_cases)
  then show "entries_in (ReplicaSet_codec C) p (lookup w') = (if prefix p rs_key
        then (entries_in (ReplicaSet_codec C) p (lookup w))(rs_key \<mapsto> rs\<lparr>ReplicaSet_status := rs_status_of (own (pods ns w'))\<rparr>)
        else entries_in (ReplicaSet_codec C) p (lookup w))"
    using put_entries [OF put, of p] rs_recount_map_of [OF o'(2)] by (simp add: o'(1) same own_def)
qed

lemma pods_rs_prefix: "\<not> prefix (pods_prefix ns) (replicasets_prefix ns')" "\<not> prefix (replicasets_prefix ns') (pods_prefix ns)"
  by (simp_all add: key_defs)

lemma rs_draws_mono: "keeps (\<lambda>w. n \<le> uuid_draws w) (reconcile_rs D C E ns nodes rs_key rs)"
  unfolding reconcile_rs_def rs_scale_def rs_create_pod_def Let_def by (intro keeps_intro)

lemma rs_namespace_loop:
  assumes "forM es (\<lambda>(rs_key, rs_value). case from_slice (ReplicaSet_codec C) rs_value of
           Inl _ \<Rightarrow> returnM () | Inr rs \<Rightarrow> reconcile_rs D C E ns nodes rs_key rs) w = (Inr u, w')"
  defines "rsets \<equiv> \<lambda>w :: ('db, 'v) world. entries_in (ReplicaSet_codec C) (replicasets_prefix ns) (lookup w)"
    and "own \<equiv> \<lambda>rs. owned_by Pod_owner_ref (ReplicaSet_id rs)"
  assumes "distinct (map fst es)" "\<forall>(k, v)\<in>set es. prefix (replicasets_prefix ns) k"
    and "distinct (map (ReplicaSet_id \<circ> snd) (decoded (ReplicaSet_codec C) es))"
    and "\<forall>(k, rs)\<in>set (decoded (ReplicaSet_codec C) es). card (dom (own rs (pods ns w))) < 2 ^ 32"
    and "fresh_ids E (uuid_draws w) m (dom (pods ns w))" and "uuid_draws w' \<le> m"
  shows "uuid_draws w \<le> uuid_draws w' \<and>
    (\<forall>(k, rs)\<in>set (decoded (ReplicaSet_codec C) es). rs_goal rs (own rs (pods ns w)) (own rs (pods ns w')) \<and>
       rsets w' k = Some (rs\<lparr>ReplicaSet_status := rs_status_of (own rs (pods ns w'))\<rparr>)) \<and>
    only_owners Pod_owner_ref (ReplicaSet_id ` snd ` set (decoded (ReplicaSet_codec C) es)) (pods ns w) (pods ns w') \<and>
    (\<forall>k. k \<notin> fst ` set es \<longrightarrow> rsets w' k = rsets w k)"
  using assms(1,4-8)
proof (induction es arbitrary: w)
  case Nil
  then show ?case by (simp add: returnM_Inr only_owners_refl)
next
  case (Cons e es)
  obtain k v where e: "e = (k, v)" by (cases e)
  let ?body = "\<lambda>(rs_key, rs_value). case from_slice (ReplicaSet_codec C) rs_value of
           Inl _ \<Rightarrow> returnM () | Inr rs \<Rightarrow> reconcile_rs D C E ns nodes rs_key rs"
  show ?case
  proof (cases "from_slice (ReplicaSet_codec C) v")
    case (Inl a)
    then show ?thesis using Cons.IH [of w] Cons.prems by (auto simp: e decoded_Cons bindM_def returnM_def)
  next
    case (Inr rs)
    let ?es = "decoded (ReplicaSet_codec C) es"
    obtain w1 where run: "reconcile_rs D C E ns nodes k rs w = (Inr (), w1)" and rest: "forM es ?body w1 = (Inr u, w')"
      using Cons.prems(1) Inr by (auto simp: e bindM_Inr)
    have "keeps (\<lambda>w. uuid_draws w1 \<le> uuid_draws w) (forM es ?body)" by (intro keeps_intro rs_draws_mono)
    from keepsD [OF this order_refl rest] have m: "uuid_draws w1 \<le> m" using assms(9) by simp
    have key: "prefix (replicasets_prefix ns) k" "\<not> prefix (pods_prefix ns) k"
      using Cons.prems(3) pods_not_replicasets by (auto simp: e)
    have small: "card (dom (own rs (pods ns w))) < 2 ^ 32" using Cons.prems(5) Inr by (simp add: e decoded_Cons)
    note r = reconcile_rs_ok [OF run key(2) small [unfolded own_def] Cons.prems(6) m]
    have w1: "rsets w1 = (rsets w)(k \<mapsto> rs\<lparr>ReplicaSet_status := rs_status_of (own rs (pods ns w1))\<rparr>)"
      using r(5) [OF pods_rs_prefix] key(1) by (simp add: rsets_def own_def)
    have id: "ReplicaSet_id rs \<notin> ReplicaSet_id ` snd ` set ?es"
      using Cons.prems(4) Inr by (auto simp: e decoded_Cons image_iff)
    have eq1: "own rs2 (pods ns w1) = own rs2 (pods ns w)" if "(k2, rs2) \<in> set ?es" for k2 rs2
    proof -
      have "ReplicaSet_id rs2 \<in> ReplicaSet_id ` snd ` set ?es" using that by force
      with id have "ReplicaSet_id rs2 \<notin> {ReplicaSet_id rs}" by (metis singletonD)
      then show ?thesis unfolding own_def by (rule only_owners_same [OF r(2)])
    qed
    have pre: "distinct (map fst es)" "\<forall>(k, v)\<in>set es. prefix (replicasets_prefix ns) k" "distinct (map (ReplicaSet_id \<circ> snd) ?es)"
        "\<forall>(k, rs)\<in>set ?es. card (dom (own rs (pods ns w1))) < 2 ^ 32"
      using Cons.prems(2-5) eq1 Inr by (auto simp: e decoded_Cons comp_def)
    have IH: "uuid_draws w1 \<le> uuid_draws w'" "only_owners Pod_owner_ref (ReplicaSet_id ` snd ` set ?es) (pods ns w1) (pods ns w')"
        "\<forall>k. k \<notin> fst ` set es \<longrightarrow> rsets w' k = rsets w1 k"
        "\<forall>(k, rs)\<in>set ?es. rs_goal rs (own rs (pods ns w1)) (own rs (pods ns w')) \<and>
           rsets w' k = Some (rs\<lparr>ReplicaSet_status := rs_status_of (own rs (pods ns w'))\<rparr>)"
      using Cons.IH [OF rest pre r(3)] by blast+
    have eq2: "own rs (pods ns w') = own rs (pods ns w1)" unfolding own_def by (rule only_owners_same [OF IH(2) id])
    have k': "rsets w' k = rsets w1 k" using IH(3) Cons.prems(2) by (auto simp: e)
    have "only_owners Pod_owner_ref (insert (ReplicaSet_id rs) (ReplicaSet_id ` snd ` set ?es)) (pods ns w) (pods ns w')"
      using only_owners_trans [OF only_owners_mono [OF r(2)] only_owners_mono [OF IH(2)]] by blast
    moreover have "\<forall>(k2, rs2)\<in>set ?es. rs_goal rs2 (own rs2 (pods ns w)) (own rs2 (pods ns w')) \<and>
           rsets w' k2 = Some (rs2\<lparr>ReplicaSet_status := rs_status_of (own rs2 (pods ns w'))\<rparr>)"
      using IH(4) eq1 by fastforce
    moreover have "rs_goal rs (own rs (pods ns w)) (own rs (pods ns w')) \<and> rsets w' k = Some (rs\<lparr>ReplicaSet_status := rs_status_of (own rs (pods ns w'))\<rparr>)"
      using r(1) k' unfolding eq2 by (simp add: w1 own_def)
    moreover have "uuid_draws w \<le> uuid_draws w'" using r(4) IH(1) by simp
    ultimately show ?thesis using IH(3) w1 Inr by (auto simp: e decoded_Cons)
  qed
qed

lemma rs_namespace_ok:
  assumes run: "rs_reconcile_namespace D C E ns w = (Inr (), w')"
  defines "rsets \<equiv> \<lambda>w :: ('db, 'v) world. entries_in (ReplicaSet_codec C) (replicasets_prefix ns) (lookup w)"
    and "own \<equiv> \<lambda>rs. owned_by Pod_owner_ref (ReplicaSet_id rs)"
  assumes ids: "\<And>k1 k2 rs1 rs2. rsets w k1 = Some rs1 \<Longrightarrow> rsets w k2 = Some rs2 \<Longrightarrow> ReplicaSet_id rs1 = ReplicaSet_id rs2 \<Longrightarrow> k1 = k2"
    and small: "\<And>k rs. rsets w k = Some rs \<Longrightarrow> card (dom (own rs (pods ns w))) < 2 ^ 32"
    and fresh: "fresh_ids E (uuid_draws w) (uuid_draws w') (dom (pods ns w))"
    and rs: "rsets w k = Some rs"
  shows "rs_goal rs (own rs (pods ns w)) (own rs (pods ns w'))"
    and "rsets w' k = Some (rs\<lparr>ReplicaSet_status := rs_status_of (own rs (pods ns w'))\<rparr>)"
    and "only_owners Pod_owner_ref {ReplicaSet_id rs | k rs. rsets w k = Some rs} (pods ns w) (pods ns w')"
proof -
  obtain es nodes where l: "list_prefix D (replicasets_prefix ns) w = (Inr es, w)"
    and loop: "forM es (\<lambda>(rs_key, rs_value). case from_slice (ReplicaSet_codec C) rs_value of
           Inl _ \<Rightarrow> returnM () | Inr rs \<Rightarrow> reconcile_rs D C E ns nodes rs_key rs) w = (Inr (), w')"
    using run by (auto simp: rs_reconcile_namespace_def load_all_def bindM_Inr list_prefix_iff returnM_Inr)
  let ?es = "decoded (ReplicaSet_codec C) es"
  have e: "(k, rs) \<in> set ?es \<longleftrightarrow> rsets w k = Some rs" for k rs by (simp add: list_entries(1) [OF l] rsets_def)
  have d: "distinct (map fst ?es)" by (rule list_entries(3) [OF l])
  have "inj_on (ReplicaSet_id \<circ> snd) (set ?es)" by (rule inj_onI) (use ids e in \<open>force simp: e\<close>)
  with d have "distinct (map (ReplicaSet_id \<circ> snd) ?es)" by (simp add: distinct_map)
  moreover have "\<forall>(k, v)\<in>set es. prefix (replicasets_prefix ns) k" using list_prefix_lookup [OF l] by auto
  moreover have "\<forall>(k, rs)\<in>set ?es. card (dom (owned_by Pod_owner_ref (ReplicaSet_id rs) (pods ns w))) < 2 ^ 32"
    using small by (auto simp: e own_def)
  ultimately have "\<forall>(k, rs)\<in>set ?es. rs_goal rs (own rs (pods ns w)) (own rs (pods ns w')) \<and>
       rsets w' k = Some (rs\<lparr>ReplicaSet_status := rs_status_of (own rs (pods ns w'))\<rparr>)"
    and o: "only_owners Pod_owner_ref (ReplicaSet_id ` snd ` set ?es) (pods ns w) (pods ns w')"
    unfolding own_def rsets_def using rs_namespace_loop [OF loop list_prefix_ok(3) [OF l] _ _ _ fresh order_refl] by blast+
  then show "rs_goal rs (own rs (pods ns w)) (own rs (pods ns w'))"
    "rsets w' k = Some (rs\<lparr>ReplicaSet_status := rs_status_of (own rs (pods ns w'))\<rparr>)"
    using rs e by blast+
  have "ReplicaSet_id ` snd ` set ?es \<subseteq> {ReplicaSet_id rs | k rs. rsets w k = Some rs}" using e by fastforce
  with o show "only_owners Pod_owner_ref {ReplicaSet_id rs | k rs. rsets w k = Some rs} (pods ns w) (pods ns w')"
    by (rule only_owners_mono)
qed

end

text \<open>A ReplicaSet that has no pod too many loses none.\<close>

lemma rs_goal_keeps:
  assumes "rs_goal rs old new" and "finite (dom old)" and "card (dom old) \<le> unat (ReplicaSetSpec_replicas (ReplicaSet_spec rs))"
    and "old k = Some p"
  shows "new k = Some p"
proof (cases "old \<subseteq>\<^sub>m new")
  case True
  then show ?thesis using assms(4) by (metis domI map_le_def)
next
  case False
  then have le: "new \<subseteq>\<^sub>m old" and c: "card (dom new) = unat (ReplicaSetSpec_replicas (ReplicaSet_spec rs))"
    using assms(1) by (auto simp: rs_goal_def)
  from le have "dom new \<subseteq> dom old" by (rule map_le_implies_dom_le)
  with card_mono [OF assms(2) this] assms(2,3) c have "dom new = dom old" by (intro card_subset_eq) auto
  then show ?thesis using le assms(4) by (metis domI map_le_def)
qed

section \<open>Convergence\<close>

text \<open>C16: a completed pass of the ReplicaSet controller over a namespace brings every ReplicaSet to its
  requested number of pods: missing pods are created, excess pods are deleted newest first and the
  others stay as they were, the stored status holds the exact counts, and pods of no ReplicaSet of the
  namespace are not touched, as long as ReplicaSet ids differ, the identifiers drawn in the pass
  have distinct first eight characters that end no stored pod's key, and counts fit 32 bits.\<close>

theorem replicaset_converges:
  assumes "registry D content C" and "rs_reconcile_namespace D C E ns w = (Inr (), w')"
    and "\<And>k1 k2 rs1 rs2. entries_in (ReplicaSet_codec C) (replicasets_prefix ns) (content (StateStore_db w)) k1 = Some rs1 \<Longrightarrow>
      entries_in (ReplicaSet_codec C) (replicasets_prefix ns) (content (StateStore_db w)) k2 = Some rs2 \<Longrightarrow>
      ReplicaSet_id rs1 = ReplicaSet_id rs2 \<Longrightarrow> k1 = k2"
    and "\<And>k rs. entries_in (ReplicaSet_codec C) (replicasets_prefix ns) (content (StateStore_db w)) k = Some rs \<Longrightarrow>
      card (dom (owned_by Pod_owner_ref (ReplicaSet_id rs) (entries_in (Pod_codec C) (pods_prefix ns) (content (StateStore_db w))))) < 2 ^ 32"
    and "fresh_ids E (uuid_draws w) (uuid_draws w') (dom (entries_in (Pod_codec C) (pods_prefix ns) (content (StateStore_db w))))"
    and "entries_in (ReplicaSet_codec C) (replicasets_prefix ns) (content (StateStore_db w)) k = Some rs"
  defines "pods \<equiv> entries_in (Pod_codec C) (pods_prefix ns) (content (StateStore_db w))"
    and "pods' \<equiv> entries_in (Pod_codec C) (pods_prefix ns) (content (StateStore_db w'))"
  shows "rs_goal rs (owned_by Pod_owner_ref (ReplicaSet_id rs) pods) (owned_by Pod_owner_ref (ReplicaSet_id rs) pods') \<and>
    entries_in (ReplicaSet_codec C) (replicasets_prefix ns) (content (StateStore_db w')) k =
      Some (rs\<lparr>ReplicaSet_status := rs_status_of (owned_by Pod_owner_ref (ReplicaSet_id rs) pods')\<rparr>) \<and>
    only_owners Pod_owner_ref {ReplicaSet_id rs | k rs. entries_in (ReplicaSet_codec C) (replicasets_prefix ns) (content (StateStore_db w)) k = Some rs} pods pods'"
  unfolding pods_def pods'_def by (intro conjI registry.rs_namespace_ok [OF assms(1-6)])

section \<open>A run\<close>

text \<open>Two replicas requested, one stored, one node.\<close>

definition web_env :: env where
  "web_env = \<lparr> new_v4 = (\<lambda>i. replicate 8 (char_of (65 + i))), utc_now = int \<rparr>"

definition web_rs :: ReplicaSet where
  "web_rs = \<lparr> ReplicaSet_id = ''rs1'', ReplicaSet_name = ''web'', ReplicaSet_namespace = ''default'',
     ReplicaSet_spec = \<lparr> ReplicaSetSpec_replicas = 2, ReplicaSetSpec_selector = [], ReplicaSetSpec_template = empty_spec \<rparr>,
     ReplicaSet_status = \<lparr> ReplicaSetStatus_replicas = 0, ReplicaSetStatus_ready_replicas = 0, ReplicaSetStatus_available_replicas = 0 \<rparr>,
     ReplicaSet_owner_ref = None, ReplicaSet_template_hash = [], ReplicaSet_created_at = 0 \<rparr>"

definition web_pod :: Pod where
  "web_pod = (sample_pod ''web-0'')\<lparr>Pod_owner_ref := Some ''rs1''\<rparr>"

definition mem_world :: "(string \<times> json) list \<Rightarrow> ((string \<times> json) list, json) world" where
  "mem_world db = \<lparr> StateStore_db = db, StateStore_event_log = EventLog_new 16, rr_index = 0, uuid_draws = 0, clock_reads = 0 \<rparr>"

definition web_world :: "((string \<times> json) list, json) world" where
  "web_world = mem_world [(''/registry/nodes/n1'', V_Node (sample_node ''n1'')),
     (''/registry/replicasets/default/web'', V_ReplicaSet web_rs), (''/registry/pods/default/web-0'', V_Pod web_pod)]"

definition web_pass :: "unit result \<times> ((string \<times> json) list, json) world" where
  "web_pass = rs_reconcile_namespace mem_slatedb tag_serde web_env ''default'' web_world"

lemma web_pass_run: "fst web_pass = Inr ()" "uuid_draws (snd web_pass) = 1"
  by code_simp+

lemma web_ids: "8 \<le> length (new_v4 web_env 0)" "\<not> suffix (take 8 (new_v4 web_env 0)) ''/registry/pods/default/web-0''"
  by code_simp+

lemma web_world_entries:
  "entries_in (ReplicaSet_codec tag_serde) (replicasets_prefix ''default'') (map_of (StateStore_db web_world)) = [''/registry/replicasets/default/web'' \<mapsto> web_rs]"
  "entries_in (Pod_codec tag_serde) (pods_prefix ''default'') (map_of (StateStore_db web_world)) = [''/registry/pods/default/web-0'' \<mapsto> web_pod]"
  by (auto simp: fun_eq_iff entries_in_def web_world_def mem_world_def key_defs tag_serde_def tag_codec_def ok_or_def)

theorem replicaset_converges_witness:
  "fst web_pass = Inr () \<and>
   rs_goal web_rs [''/registry/pods/default/web-0'' \<mapsto> web_pod] (owned_by Pod_owner_ref ''rs1''
     (entries_in (Pod_codec tag_serde) (pods_prefix ''default'') (map_of (StateStore_db (snd web_pass)))))"
proof -
  have run: "rs_reconcile_namespace mem_slatedb tag_serde web_env ''default'' web_world = (Inr (), snd web_pass)"
    using web_pass_run(1) by (metis prod.collapse web_pass_def)
  have fresh: "fresh_ids web_env (uuid_draws web_world) (uuid_draws (snd web_pass)) {''/registry/pods/default/web-0''}"
    using web_ids by (simp add: fresh_ids_def web_pass_run(2) web_world_def mem_world_def)
  have own: "owned_by Pod_owner_ref ''rs1'' [''/registry/pods/default/web-0'' \<mapsto> web_pod] = [''/registry/pods/default/web-0'' \<mapsto> web_pod]"
    by (auto simp: owned_by_def web_pod_def fun_eq_iff)
  have ids: "k1 = k2" if "entries_in (ReplicaSet_codec tag_serde) (replicasets_prefix ''default'') (map_of (StateStore_db web_world)) k1 = Some rs1"
      "entries_in (ReplicaSet_codec tag_serde) (replicasets_prefix ''default'') (map_of (StateStore_db web_world)) k2 = Some rs2" for k1 k2 rs1 rs2
    using that unfolding web_world_entries by (metis fun_upd_apply option.distinct(1))
  have small: "card (dom (owned_by Pod_owner_ref i (entries_in (Pod_codec tag_serde) (pods_prefix ''default'') (map_of (StateStore_db web_world))))) < 2 ^ 32" for i
    unfolding web_world_entries by (simp add: owned_by_put)
  have rs: "entries_in (ReplicaSet_codec tag_serde) (replicasets_prefix ''default'') (map_of (StateStore_db web_world)) ''/registry/replicasets/default/web'' = Some web_rs"
    by (simp add: web_world_entries)
  have id: "ReplicaSet_id web_rs = ''rs1''" by (simp add: web_rs_def)
  have fresh': "fresh_ids web_env (uuid_draws web_world) (uuid_draws (snd web_pass))
      (dom (entries_in (Pod_codec tag_serde) (pods_prefix ''default'') (map_of (StateStore_db web_world))))"
    unfolding web_world_entries(2) using fresh by simp
  note T = replicaset_converges [OF memreg.registry_axioms run ids small fresh' rs, unfolded web_world_entries(2) id own]
  show ?thesis by (rule conjI [OF web_pass_run(1) conjunct1 [OF T]])
qed

end
