(* ===== verification/Deployment_Controller.thy ===== *)
theory Deployment_Controller
  imports Controller_Base Ipv6_Text
begin

text \<open>
  The Deployment controller (\<open>pkg/controllers/src/deployment.rs\<close>): the template hash, the canary
  size with its double-precision arithmetic, and the reconcile step of each strategy. \<open>spec_json\<close> is
  serde's JSON text of a pod template, a parameter. The lemmas show when a rollout completes, and for
  which strategies an old version keeps running.
\<close>

section \<open>The template hash\<close>

definition template_hash_of :: "string \<Rightarrow> u64" where
  "template_hash_of json = fold (\<lambda>byte hash. hash * 31 + of_char byte) json 0"

text \<open>\<open>format!("{:016x}", hash)\<close>\<close>

definition show_hex16 :: "u64 \<Rightarrow> string" where
  "show_hex16 hash = (let digits = show_hex (unat hash) in replicate (16 - length digits) (CHR ''0'') @ digits)"

definition compute_template_hash :: "(PodSpec \<Rightarrow> string result) \<Rightarrow> Deployment \<Rightarrow> string" where
  "compute_template_hash spec_json deploy =
     (let json = (case spec_json (DeploymentSpec_template (Deployment_spec deploy)) of Inr s \<Rightarrow> s | Inl _ \<Rightarrow> [])
      in show_hex16 (template_hash_of json))"

section \<open>Double-precision arithmetic of the canary size\<close>

text \<open>
  \<open>((replicas as f64) * (weight as f64 / 100.0)).ceil().max(1.0) as u32\<close>. A positive double in this
  range is \<open>m / 2^s\<close> with m of 53 bits: the quotient and the product are each rounded to that,
  half to even.
\<close>

fun bit_len :: "nat \<Rightarrow> nat" where
  "bit_len n = (if n = 0 then 0 else Suc (bit_len (n div 2)))"

declare bit_len.simps [simp del]

lemma bit_len_numeral: "bit_len 0 = 0" "bit_len (Suc 0) = 1" "bit_len (numeral k) = Suc (bit_len (numeral k div 2))"
  by (simp_all add: bit_len.simps [of 0] bit_len.simps [of "Suc 0"] bit_len.simps [of "numeral k"])

definition round_half_even :: "nat \<Rightarrow> nat \<Rightarrow> nat" where
  "round_half_even n d =
     (let q = n div d; r = n mod d
      in if 2 * r < d \<or> (2 * r = d \<and> even q) then q else Suc q)"

text \<open>\<open>weight as f64 / 100.0\<close> as the pair of m and s; 59 is 52 plus the 7 bits of 100.\<close>

definition f64_percent :: "nat \<Rightarrow> nat \<times> nat" where
  "f64_percent pct =
     (if pct = 0 then (0, 0)
      else let s = 59 - bit_len pct;
               s = (if pct * 2 ^ s < 2 ^ 52 * 100 then Suc s else s)
           in (round_half_even (pct * 2 ^ s) 100, s))"

text \<open>The product, rounded to 53 bits: numerator over \<open>2^s\<close>.\<close>

definition f64_mult :: "nat \<Rightarrow> nat \<times> nat \<Rightarrow> nat \<times> nat" where
  "f64_mult r ms =
     (let (m, s) = ms; x = r * m; t = bit_len x - 53
      in (round_half_even x (2 ^ t) * 2 ^ t, s))"

definition f64_ceil :: "nat \<times> nat \<Rightarrow> nat" where
  "f64_ceil xs = (let (x, s) = xs in (x + 2 ^ s - 1) div 2 ^ s)"

definition canary_replicas :: "u32 \<Rightarrow> u32 \<Rightarrow> u32" where
  "canary_replicas replicas pct =
     of_nat (min (2 ^ 32 - 1) (max 1 (f64_ceil (f64_mult (unat replicas) (f64_percent (unat pct))))))"

section \<open>Operations\<close>

definition create_replicaset :: "('db, 'v) SlateDb \<Rightarrow> 'v serde \<Rightarrow> env \<Rightarrow> string \<Rightarrow> Deployment \<Rightarrow> string \<Rightarrow> u32 \<Rightarrow>
    (('db, 'v) world, ReplicaSet) act" where
  "create_replicaset D C E ns deploy template_hash replicas =
     bindM (draw_uuid E) (\<lambda>rs_id. bindM (read_clock E) (\<lambda>now.
       let rs = \<lparr> ReplicaSet_id = rs_id,
             ReplicaSet_name = Deployment_name deploy @ ''-'' @ take (min 8 (length template_hash)) template_hash,
             ReplicaSet_namespace = ns,
             ReplicaSet_spec = \<lparr> ReplicaSetSpec_replicas = replicas,
               ReplicaSetSpec_selector = DeploymentSpec_selector (Deployment_spec deploy),
               ReplicaSetSpec_template = DeploymentSpec_template (Deployment_spec deploy) \<rparr>,
             ReplicaSet_status = \<lparr> ReplicaSetStatus_replicas = 0, ReplicaSetStatus_ready_replicas = 0,
               ReplicaSetStatus_available_replicas = 0 \<rparr>,
             ReplicaSet_owner_ref = Some (Deployment_id deploy),
             ReplicaSet_template_hash = template_hash, ReplicaSet_created_at = now \<rparr>
       in bindM (put_json D (ReplicaSet_codec C) (replicasets_prefix ns @ ReplicaSet_name rs) rs) (\<lambda>_. returnM rs)))"

definition rs_replicas :: "ReplicaSet \<Rightarrow> u32" where
  "rs_replicas rs = ReplicaSetSpec_replicas (ReplicaSet_spec rs)"

definition with_replicas :: "u32 \<Rightarrow> ReplicaSet \<Rightarrow> ReplicaSet" where
  "with_replicas n rs = rs\<lparr>ReplicaSet_spec := (ReplicaSet_spec rs)\<lparr>ReplicaSetSpec_replicas := n\<rparr>\<rparr>"

definition deploy_replicas :: "Deployment \<Rightarrow> u32" where
  "deploy_replicas deploy = DeploymentSpec_replicas (Deployment_spec deploy)"

text \<open>Bring the current ReplicaSet to the requested size.\<close>

definition resize_current :: "('db, 'v) SlateDb \<Rightarrow> 'v serde \<Rightarrow> Deployment \<Rightarrow> string \<Rightarrow> ReplicaSet \<Rightarrow> (('db, 'v) world, unit) act" where
  "resize_current D C deploy rs_key rs =
     whenM (rs_replicas rs \<noteq> deploy_replicas deploy)
       (put_json D (ReplicaSet_codec C) rs_key (with_replicas (deploy_replicas deploy) rs))"

text \<open>Rewrite the size of every listed ReplicaSet that the test selects and that asks for pods.\<close>

definition shrink_old :: "('db, 'v) SlateDb \<Rightarrow> 'v serde \<Rightarrow> (ReplicaSet \<Rightarrow> bool) \<Rightarrow> (u32 \<Rightarrow> u32) \<Rightarrow> (string \<times> ReplicaSet) list \<Rightarrow>
    (('db, 'v) world, unit) act" where
  "shrink_old D C old shrunk owned_rs =
     forM owned_rs (\<lambda>(old_key, old_rs). whenM (old old_rs \<and> 0 < rs_replicas old_rs)
       (put_json D (ReplicaSet_codec C) old_key (with_replicas (shrunk (rs_replicas old_rs)) old_rs)))"

definition apply_strategy :: "('db, 'v) SlateDb \<Rightarrow> 'v serde \<Rightarrow> env \<Rightarrow> string \<Rightarrow> Deployment \<Rightarrow> string \<Rightarrow> (string \<times> ReplicaSet) list \<Rightarrow>
    (('db, 'v) world, unit) act" where
  "apply_strategy D C E ns deploy template_hash owned_rs =
     (let current_rs = find (\<lambda>(_, rs). ReplicaSet_template_hash rs = template_hash) owned_rs;
          other = (\<lambda>rs. ReplicaSet_template_hash rs \<noteq> template_hash);
          n = deploy_replicas deploy
      in case DeploymentSpec_strategy (Deployment_spec deploy) of
           RollingUpdate surge _ \<Rightarrow>
             (case current_rs of
                Some (rs_key, rs) \<Rightarrow>
                  bindM (resize_current D C deploy rs_key rs) (\<lambda>_. shrink_old D C other (\<lambda>_. 0) owned_rs)
              | None \<Rightarrow>
                  bindM (create_replicaset D C E ns deploy template_hash (min n surge)) (\<lambda>_.
                    shrink_old D C other (\<lambda>k. saturating_sub k (max surge 1)) owned_rs))
         | Recreate \<Rightarrow>
             (case current_rs of
                Some (rs_key, rs) \<Rightarrow> resize_current D C deploy rs_key rs
              | None \<Rightarrow>
                  bindM (shrink_old D C (\<lambda>_. True) (\<lambda>_. 0) owned_rs) (\<lambda>_.
                  bindM (create_replicaset D C E ns deploy template_hash n) (\<lambda>_. returnM ())))
         | BlueGreen \<Rightarrow>
             (case current_rs of
                Some (rs_key, rs) \<Rightarrow>
                  bindM (resize_current D C deploy rs_key rs) (\<lambda>_. shrink_old D C other (\<lambda>_. 0) owned_rs)
              | None \<Rightarrow> bindM (create_replicaset D C E ns deploy template_hash n) (\<lambda>_. returnM ()))
         | Canary pct \<Rightarrow>
             (case current_rs of
                Some (rs_key, rs) \<Rightarrow> resize_current D C deploy rs_key rs
              | None \<Rightarrow> bindM (create_replicaset D C E ns deploy template_hash (canary_replicas n pct)) (\<lambda>_. returnM ())))"

definition owned_rs :: "('v, ReplicaSet) codec \<Rightarrow> string \<Rightarrow> (string \<times> 'v) list \<Rightarrow> (string \<times> ReplicaSet) list" where
  "owned_rs c owner entries = filter (\<lambda>(_, rs). ReplicaSet_owner_ref rs = Some owner) (decoded c entries)"

definition deployment_status :: "string \<Rightarrow> (string \<times> ReplicaSet) list \<Rightarrow> DeploymentStatus" where
  "deployment_status template_hash owned =
     \<lparr> DeploymentStatus_ready_replicas = sum_list (map (\<lambda>(_, rs). ReplicaSetStatus_ready_replicas (ReplicaSet_status rs)) owned),
       DeploymentStatus_available_replicas = sum_list (map (\<lambda>(_, rs). ReplicaSetStatus_available_replicas (ReplicaSet_status rs)) owned),
       DeploymentStatus_updated_replicas = sum_list (map (\<lambda>(_, rs). ReplicaSetStatus_ready_replicas (ReplicaSet_status rs))
         (filter (\<lambda>(_, rs). ReplicaSet_template_hash rs = template_hash) owned)) \<rparr>"

definition reconcile_deployment :: "('db, 'v) SlateDb \<Rightarrow> 'v serde \<Rightarrow> (PodSpec \<Rightarrow> string result) \<Rightarrow> env \<Rightarrow> string \<Rightarrow> string \<Rightarrow> Deployment \<Rightarrow>
    (('db, 'v) world, unit) act" where
  "reconcile_deployment D C spec_json E ns key deploy =
     (let template_hash = compute_template_hash spec_json deploy
      in bindM (list_prefix D (replicasets_prefix ns)) (\<lambda>rs_entries.
         bindM (apply_strategy D C E ns deploy template_hash (owned_rs (ReplicaSet_codec C) (Deployment_id deploy) rs_entries)) (\<lambda>_.
         bindM (list_prefix D (replicasets_prefix ns)) (\<lambda>rs_entries.
           put_json D (Deployment_codec C) key
             (deploy\<lparr>Deployment_status := deployment_status template_hash (owned_rs (ReplicaSet_codec C) (Deployment_id deploy) rs_entries),
                     Deployment_observed_generation := Deployment_generation deploy\<rparr>)))))"

definition deployment_reconcile_namespace :: "('db, 'v) SlateDb \<Rightarrow> 'v serde \<Rightarrow> (PodSpec \<Rightarrow> string result) \<Rightarrow> env \<Rightarrow> string \<Rightarrow>
    (('db, 'v) world, unit) act" where
  "deployment_reconcile_namespace D C spec_json E ns =
     bindM (list_prefix D (deployments_prefix ns)) (\<lambda>deploy_entries.
       forM deploy_entries (\<lambda>(key, value).
         case from_slice (Deployment_codec C) value of
           Inl _ \<Rightarrow> returnM ()
         | Inr deploy \<Rightarrow> reconcile_deployment D C spec_json E ns key deploy))"

definition deployment_reconcile :: "('db, 'v) SlateDb \<Rightarrow> 'v serde \<Rightarrow> (PodSpec \<Rightarrow> string result) \<Rightarrow> env \<Rightarrow> (('db, 'v) world, unit) act" where
  "deployment_reconcile D C spec_json E = for_namespaces D (deployment_reconcile_namespace D C spec_json E)"

text \<open>The rounding shows: seven percent of a hundred pods are eight.\<close>

lemma canary_7_percent: "canary_replicas 100 7 = 8" "canary_replicas 100 10 = 10" "canary_replicas 3 0 = 1"
  by (simp_all add: canary_replicas_def f64_percent_def f64_mult_def f64_ceil_def round_half_even_def bit_len_numeral Let_def)

section \<open>The ReplicaSets of a deployment\<close>

text \<open>A ReplicaSet of the deployment with the current template is stored.\<close>

definition has_current :: "string \<Rightarrow> string \<Rightarrow> (string \<rightharpoonup> ReplicaSet) \<Rightarrow> bool" where
  "has_current h i xs \<longleftrightarrow> (\<exists>k rs. xs k = Some rs \<and> ReplicaSet_owner_ref rs = Some i \<and> ReplicaSet_template_hash rs = h)"

text \<open>One has the requested size, and those of other templates ask for no pods.\<close>

definition rolled_out :: "string \<Rightarrow> string \<Rightarrow> u32 \<Rightarrow> (string \<rightharpoonup> ReplicaSet) \<Rightarrow> bool" where
  "rolled_out h i n xs \<longleftrightarrow>
     (\<exists>k rs. xs k = Some rs \<and> ReplicaSet_owner_ref rs = Some i \<and> ReplicaSet_template_hash rs = h \<and> rs_replicas rs = n) \<and>
     (\<forall>k rs. xs k = Some rs \<and> ReplicaSet_owner_ref rs = Some i \<and> ReplicaSet_template_hash rs \<noteq> h \<longrightarrow> rs_replicas rs = 0)"

lemma with_replicas_fields [simp]:
  "rs_replicas (with_replicas n rs) = n" "ReplicaSet_owner_ref (with_replicas n rs) = ReplicaSet_owner_ref rs"
  "ReplicaSet_template_hash (with_replicas n rs) = ReplicaSet_template_hash rs" "ReplicaSet_id (with_replicas n rs) = ReplicaSet_id rs"
  by (simp_all add: with_replicas_def rs_replicas_def)

lemma with_replicas_same: "rs_replicas rs = n \<Longrightarrow> with_replicas n rs = rs"
  by (auto simp: with_replicas_def rs_replicas_def)

lemma take_min_length: "take (min n (length xs)) xs = take n xs"
  by (simp add: min_def)

lemma find_map_of:
  assumes "distinct (map fst xs)"
  shows "find (\<lambda>(_, x). P x) xs = Some (k, x) \<Longrightarrow> map_of xs k = Some x \<and> P x"
    and "find (\<lambda>(_, x). P x) xs = None \<longleftrightarrow> (\<forall>k x. map_of xs k = Some x \<longrightarrow> \<not> P x)"
proof -
  assume "find (\<lambda>(_, x). P x) xs = Some (k, x)"
  then have "(k, x) \<in> set xs \<and> P x" unfolding find_Some_iff by (metis case_prod_conv nth_mem)
  then show "map_of xs k = Some x \<and> P x" using assms by simp
next
  show "find (\<lambda>(_, x). P x) xs = None \<longleftrightarrow> (\<forall>k x. map_of xs k = Some x \<longrightarrow> \<not> P x)"
    using assms by (auto simp: find_None_iff)
qed

context registry
begin

abbreviation rsets :: "string \<Rightarrow> ('db, 'v) world \<Rightarrow> string \<rightharpoonup> ReplicaSet" where
  "rsets ns w \<equiv> entries_in (ReplicaSet_codec C) (replicasets_prefix ns) (lookup w)"

lemma create_replicaset_ok:
  assumes "create_replicaset D C E ns deploy h n w = (Inr rs, w')"
  shows "rsets ns w' = (rsets ns w)(replicasets_prefix ns @ Deployment_name deploy @ ''-'' @ take 8 h \<mapsto> rs)"
    and "ReplicaSet_owner_ref rs = Some (Deployment_id deploy)" "ReplicaSet_template_hash rs = h" "rs_replicas rs = n"
proof -
  obtain w1 where put: "put_json D (ReplicaSet_codec C) (replicasets_prefix ns @ Deployment_name deploy @ ''-'' @ take 8 h) rs w1 = (Inr (), w')"
    and "lookup w1 = lookup w" and rs: "ReplicaSet_owner_ref rs = Some (Deployment_id deploy)" "ReplicaSet_template_hash rs = h" "rs_replicas rs = n"
    using assms by (auto simp: create_replicaset_def draw_uuid_def read_clock_def Let_def action_defs rs_replicas_def take_min_length split: prod.splits sum.splits)
  then show "rsets ns w' = (rsets ns w)(replicasets_prefix ns @ Deployment_name deploy @ ''-'' @ take 8 h \<mapsto> rs)"
    using put_entries [OF put, of "replicasets_prefix ns"] by simp
  show "ReplicaSet_owner_ref rs = Some (Deployment_id deploy)" "ReplicaSet_template_hash rs = h" "rs_replicas rs = n" by fact+
qed

lemma resize_current_ok:
  assumes "resize_current D C deploy k rs w = (Inr u, w')" "rsets ns w k = Some rs"
  shows "rsets ns w' = (rsets ns w)(k \<mapsto> with_replicas (deploy_replicas deploy) rs)"
proof (cases "rs_replicas rs = deploy_replicas deploy")
  case True
  then show ?thesis using assms by (auto simp: resize_current_def whenM_def returnM_Inr with_replicas_same)
next
  case False
  then have put: "put_json D (ReplicaSet_codec C) k (with_replicas (deploy_replicas deploy) rs) w = (Inr u, w')"
    using assms(1) by (simp add: resize_current_def whenM_def)
  have "prefix (replicasets_prefix ns) k" using assms(2) by (simp add: entries_in_def split: if_splits)
  then show ?thesis using put_entries [OF put, of "replicasets_prefix ns"] by simp
qed

lemma shrink_old_ok:
  assumes "shrink_old D C old shrunk os w = (Inr u, w')" "distinct (map fst os)" "\<forall>k\<in>fst ` set os. prefix (replicasets_prefix ns) k"
  shows "rsets ns w' = (\<lambda>k. case map_of os k of
      Some rs \<Rightarrow> if old rs \<and> 0 < rs_replicas rs then Some (with_replicas (shrunk (rs_replicas rs)) rs) else rsets ns w k
    | None \<Rightarrow> rsets ns w k)"
  using rewrite_loop [OF codecs(3) assms(1) [unfolded shrink_old_def] assms(2,3)] by blast

text \<open>With a ReplicaSet of the current template, the strategies that roll out replace the sizes.\<close>

lemma rollout_current:
  assumes run: "bindM (resize_current D C deploy k rs) (\<lambda>_. shrink_old D C (\<lambda>rs. ReplicaSet_template_hash rs \<noteq> h) (\<lambda>_. 0) os) w = (Inr u, w')"
    and os: "map_of os = owned_by ReplicaSet_owner_ref i (rsets ns w)" "distinct (map fst os)"
    and k: "map_of os k = Some rs" "ReplicaSet_template_hash rs = h"
  shows "rolled_out h i (deploy_replicas deploy) (rsets ns w') \<and> only_owners ReplicaSet_owner_ref {i} (rsets ns w) (rsets ns w')"
proof -
  have o: "rsets ns w k' = Some r \<and> ReplicaSet_owner_ref r = Some i" if "map_of os k' = Some r" for k' r
    using that by (simp add: os owned_by_Some)
  have p: "\<forall>k\<in>fst ` set os. prefix (replicasets_prefix ns) k"
    using os(2) o by (force simp: entries_in_def split: if_splits)
  obtain w1 where 1: "resize_current D C deploy k rs w = (Inr (), w1)"
    "shrink_old D C (\<lambda>rs. ReplicaSet_template_hash rs \<noteq> h) (\<lambda>_. 0) os w1 = (Inr u, w')" using run by (auto simp: bindM_Inr)
  have w': "rsets ns w' k' = (if k' = k then Some (with_replicas (deploy_replicas deploy) rs) else
      case owned_by ReplicaSet_owner_ref i (rsets ns w) k' of
        Some r \<Rightarrow> Some (if ReplicaSet_template_hash r \<noteq> h then with_replicas 0 r else r) | None \<Rightarrow> rsets ns w k')" for k'
    using o [of k'] k os(1) unfolding shrink_old_ok [OF 1(2) os(2) p] resize_current_ok [OF 1(1) conjunct1 [OF o [OF k(1)]]]
    by (auto simp: with_replicas_same word_gt_0 split: option.splits)
  show ?thesis using o [OF k(1)] k(2) unfolding rolled_out_def only_owners_def w'
    by (auto simp: owned_by_def split: option.splits if_splits)
qed

text \<open>Without one, a new ReplicaSet of the current template is stored under a key nobody uses.\<close>

lemma rollout_create:
  assumes run: "bindM (create_replicaset D C E ns deploy h n) (\<lambda>_. shrink_old D C (\<lambda>rs. ReplicaSet_template_hash rs \<noteq> h) shrunk os) w = (Inr u, w')"
    and os: "map_of os = owned_by ReplicaSet_owner_ref (Deployment_id deploy) (rsets ns w)" "distinct (map fst os)"
    and free: "rsets ns w (replicasets_prefix ns @ Deployment_name deploy @ ''-'' @ take 8 h) = None"
  shows "has_current h (Deployment_id deploy) (rsets ns w') \<and> only_owners ReplicaSet_owner_ref {Deployment_id deploy} (rsets ns w) (rsets ns w')"
proof -
  let ?k = "replicasets_prefix ns @ Deployment_name deploy @ ''-'' @ take 8 h"
  have o: "rsets ns w k' = Some r \<and> ReplicaSet_owner_ref r = Some (Deployment_id deploy)" if "map_of os k' = Some r" for k' r
    using that by (simp add: os owned_by_Some)
  have p: "\<forall>k\<in>fst ` set os. prefix (replicasets_prefix ns) k"
    using os(2) o by (force simp: entries_in_def split: if_splits)
  obtain w1 rs where 1: "create_replicaset D C E ns deploy h n w = (Inr rs, w1)"
    "shrink_old D C (\<lambda>rs. ReplicaSet_template_hash rs \<noteq> h) shrunk os w1 = (Inr u, w')" using run by (auto simp: bindM_Inr)
  note c = create_replicaset_ok [OF 1(1)] and s = shrink_old_ok [OF 1(2) os(2) p, unfolded create_replicaset_ok(1) [OF 1(1)]]
  have k: "map_of os ?k = None" using free by (simp add: os(1) owned_by_def)
  have "has_current h (Deployment_id deploy) (rsets ns w')"
    using c(2,3) k unfolding has_current_def s by (intro exI [of _ ?k]) simp
  moreover have "only_owners ReplicaSet_owner_ref {Deployment_id deploy} (rsets ns w) (rsets ns w')"
    unfolding only_owners_def s using c(2) free o by (auto split: option.splits if_splits)
  ultimately show ?thesis ..
qed

lemma apply_strategy_ok:
  assumes run: "apply_strategy D C E ns deploy h os w = (Inr u, w')"
    and os: "map_of os = owned_by ReplicaSet_owner_ref (Deployment_id deploy) (rsets ns w)" "distinct (map fst os)"
    and rolls: "DeploymentSpec_strategy (Deployment_spec deploy) \<in> insert BlueGreen (range (case_prod RollingUpdate))"
    and free: "\<not> has_current h (Deployment_id deploy) (rsets ns w) \<Longrightarrow>
      rsets ns w (replicasets_prefix ns @ Deployment_name deploy @ ''-'' @ take 8 h) = None"
  shows "(if has_current h (Deployment_id deploy) (rsets ns w) then rolled_out h (Deployment_id deploy) (deploy_replicas deploy) (rsets ns w')
      else has_current h (Deployment_id deploy) (rsets ns w')) \<and> only_owners ReplicaSet_owner_ref {Deployment_id deploy} (rsets ns w) (rsets ns w')"
proof (cases "find (\<lambda>(_, rs). ReplicaSet_template_hash rs = h) os")
  case None
  then have no: "\<not> has_current h (Deployment_id deploy) (rsets ns w)"
    using find_map_of(2) [OF os(2), of "\<lambda>rs. ReplicaSet_template_hash rs = h"] by (auto simp: has_current_def os(1) owned_by_Some)
  show ?thesis
  proof (cases "DeploymentSpec_strategy (Deployment_spec deploy)")
    case (RollingUpdate a b)
    then show ?thesis using rollout_create [OF _ os free [OF no]] run None no by (simp add: apply_strategy_def Let_def)
  next
    case BlueGreen
    obtain rs where c: "create_replicaset D C E ns deploy h (deploy_replicas deploy) w = (Inr rs, w')"
      using run None BlueGreen by (auto simp: apply_strategy_def Let_def bindM_Inr returnM_Inr)
    show ?thesis using create_replicaset_ok [OF c] free [OF no] no
      by (auto simp: has_current_def intro: only_owners_put)
  qed (use rolls in auto)
next
  case (Some kr)
  obtain k rs where kr: "kr = (k, rs)" by (cases kr)
  have f: "map_of os k = Some rs" "ReplicaSet_template_hash rs = h"
    using find_map_of(1) [OF os(2)] Some by (auto simp: kr)
  then have yes: "has_current h (Deployment_id deploy) (rsets ns w)" by (auto simp: has_current_def os(1) owned_by_Some)
  have "bindM (resize_current D C deploy k rs) (\<lambda>_. shrink_old D C (\<lambda>rs. ReplicaSet_template_hash rs \<noteq> h) (\<lambda>_. 0) os) w = (Inr u, w')"
    using run rolls Some by (auto simp: apply_strategy_def Let_def kr)
  from rollout_current [OF this os f] yes show ?thesis by simp
qed

lemma reconcile_deployment_steps:
  assumes "reconcile_deployment D C spec_json E ns key deploy w = (Inr u, w')" "prefix (deployments_prefix ns) key"
  obtains os w1 where "map_of os = owned_by ReplicaSet_owner_ref (Deployment_id deploy) (rsets ns w)" "distinct (map fst os)"
    "apply_strategy D C E ns deploy (compute_template_hash spec_json deploy) os w = (Inr (), w1)" "rsets ns w' = rsets ns w1"
proof -
  obtain kvs kvs' w1 x where l: "list_prefix D (replicasets_prefix ns) w = (Inr kvs, w)"
    and run: "apply_strategy D C E ns deploy (compute_template_hash spec_json deploy) (owned_rs (ReplicaSet_codec C) (Deployment_id deploy) kvs) w = (Inr (), w1)"
    and put: "put_json D (Deployment_codec C) key x w1 = (Inr (), w')"
    using assms(1) by (auto simp: reconcile_deployment_def Let_def bindM_Inr list_prefix_iff)
  have "\<not> prefix (replicasets_prefix ns) key" using assms(2) by (auto simp: key_defs prefix_def)
  note same = put_entries_other [OF put this]
  show thesis by (rule that [OF _ _ run same])
    (auto simp: owned_rs_def listed_refs [OF l, where ref = ReplicaSet_owner_ref and c = "ReplicaSet_codec C"])
qed

lemma keeps_old_version:
  assumes run: "apply_strategy D C E ns deploy h os w = (Inr u, w')"
    and os: "map_of os = owned_by ReplicaSet_owner_ref (Deployment_id deploy) (rsets ns w)" "distinct (map fst os)"
    and strat: "DeploymentSpec_strategy (Deployment_spec deploy) \<in> insert Recreate (range Canary)"
    and cur: "has_current h (Deployment_id deploy) (rsets ns w)"
    and old: "rsets ns w k = Some rs" "ReplicaSet_template_hash rs \<noteq> h"
  shows "rsets ns w' k = Some rs"
proof -
  have "find (\<lambda>(_, rs). ReplicaSet_template_hash rs = h) os \<noteq> None"
    using cur find_map_of(2) [OF os(2), of "\<lambda>rs. ReplicaSet_template_hash rs = h"] by (auto simp: has_current_def os(1) owned_by_Some)
  then obtain k0 r0 where f: "find (\<lambda>(_, rs). ReplicaSet_template_hash rs = h) os = Some (k0, r0)" by auto
  have 0: "rsets ns w k0 = Some r0" "ReplicaSet_template_hash r0 = h"
    using find_map_of(1) [OF os(2) f] by (auto simp: os(1) owned_by_Some)
  have "resize_current D C deploy k0 r0 w = (Inr u, w')"
    using run strat f by (auto simp: apply_strategy_def Let_def)
  from resize_current_ok [OF this 0(1)] show ?thesis using old 0(2) by (simp, metis 0(1) old(1) option.inject)
qed

end

section \<open>Rollouts\<close>


text \<open>Under Recreate and Canary a completed pass that finds a ReplicaSet of the current template leaves
  every ReplicaSet of another template with the size it had: after returning to an earlier
  template, or once a canary exists, the other version keeps all its pods in every later pass.\<close>

theorem old_version_kept:
  fixes D :: "('db, 'v) SlateDb" and w :: "('db, 'v) world"
  assumes "registry D content C" and "reconcile_deployment D C spec_json E ns key deploy w = (Inr (), w')"
    and "prefix (deployments_prefix ns) key"
    and "DeploymentSpec_strategy (Deployment_spec deploy) \<in> insert Recreate (range Canary)"
  defines "h \<equiv> compute_template_hash spec_json deploy"
    and "rsets \<equiv> \<lambda>w :: ('db, 'v) world. entries_in (ReplicaSet_codec C) (replicasets_prefix ns) (content (StateStore_db w))"
  assumes "has_current h (Deployment_id deploy) (rsets w)" and "rsets w k = Some rs" "ReplicaSet_template_hash rs \<noteq> h"
  shows "rsets w' k = Some rs"
proof -
  obtain os w1 where os: "map_of os = owned_by ReplicaSet_owner_ref (Deployment_id deploy) (rsets w)" "distinct (map fst os)"
    and run: "apply_strategy D C E ns deploy h os w = (Inr (), w1)" and w1: "rsets w' = rsets w1"
    unfolding rsets_def h_def by (rule registry.reconcile_deployment_steps [OF assms(1-3)])
  show ?thesis unfolding w1 unfolding rsets_def
    by (rule registry.keeps_old_version [OF assms(1) run os [unfolded rsets_def] assms(4) assms(7-9) [unfolded rsets_def]])
qed

section \<open>A run\<close>

text \<open>Back to the first of two templates: its ReplicaSet has size 0, the other one asks for three pods.\<close>

definition web_deploy :: "DeploymentStrategy \<Rightarrow> Deployment" where
  "web_deploy strategy = \<lparr> Deployment_id = ''d1'', Deployment_name = ''web'', Deployment_namespace = ''default'',
     Deployment_spec = \<lparr> DeploymentSpec_replicas = 3, DeploymentSpec_template = empty_spec,
       DeploymentSpec_strategy = strategy, DeploymentSpec_selector = [] \<rparr>,
     Deployment_status = \<lparr> DeploymentStatus_ready_replicas = 0, DeploymentStatus_available_replicas = 0, DeploymentStatus_updated_replicas = 0 \<rparr>,
     Deployment_generation = 1, Deployment_observed_generation = 0, Deployment_created_at = 0 \<rparr>"

definition web_version :: "string \<Rightarrow> u32 \<Rightarrow> ReplicaSet" where
  "web_version h n = \<lparr> ReplicaSet_id = h, ReplicaSet_name = ''web'', ReplicaSet_namespace = ''default'',
     ReplicaSet_spec = \<lparr> ReplicaSetSpec_replicas = n, ReplicaSetSpec_selector = [], ReplicaSetSpec_template = empty_spec \<rparr>,
     ReplicaSet_status = \<lparr> ReplicaSetStatus_replicas = 0, ReplicaSetStatus_ready_replicas = 0, ReplicaSetStatus_available_replicas = 0 \<rparr>,
     ReplicaSet_owner_ref = Some ''d1'', ReplicaSet_template_hash = h, ReplicaSet_created_at = 0 \<rparr>"

definition two_versions :: "((string \<times> json) list, json) world" where
  "two_versions = \<lparr> StateStore_db = [(''/registry/replicasets/default/web-1'', V_ReplicaSet (web_version ''0000000000000000'' 0)),
       (''/registry/replicasets/default/web-2'', V_ReplicaSet (web_version ''0000000000000001'' 3))],
     StateStore_event_log = EventLog_new 16, rr_index = 0, uuid_draws = 0, clock_reads = 0 \<rparr>"

definition web_deploy_pass :: "DeploymentStrategy \<Rightarrow> unit result \<times> ((string \<times> json) list, json) world" where
  "web_deploy_pass strategy = reconcile_deployment mem_slatedb tag_serde (\<lambda>_. Inr []) \<lparr> new_v4 = (\<lambda>_. []), utc_now = int \<rparr> ''default''
     ''/registry/deployments/default/web'' (web_deploy strategy) two_versions"

lemma web_deploy_hash: "compute_template_hash (\<lambda>_. Inr []) (web_deploy s) = ''0000000000000000''"
proof -
  have "show_hex16 0 = ''0000000000000000''" by code_simp
  then show ?thesis by (simp add: compute_template_hash_def template_hash_of_def)
qed

lemma web_deploy_run: "fst (web_deploy_pass Recreate) = Inr ()" "fst (web_deploy_pass BlueGreen) = Inr ()"
  unfolding web_deploy_pass_def reconcile_deployment_def web_deploy_hash Let_def by code_simp+

lemma two_versions_entries:
  "entries_in (ReplicaSet_codec tag_serde) (replicasets_prefix ''default'') (map_of (StateStore_db two_versions)) =
     [''/registry/replicasets/default/web-1'' \<mapsto> web_version ''0000000000000000'' 0,
      ''/registry/replicasets/default/web-2'' \<mapsto> web_version ''0000000000000001'' 3]"
  by (auto simp: fun_eq_iff entries_in_def two_versions_def key_defs tag_serde_def tag_codec_def ok_or_def)

lemma two_versions_current:
  "has_current ''0000000000000000'' ''d1'' [''/registry/replicasets/default/web-1'' \<mapsto> web_version ''0000000000000000'' 0,
      ''/registry/replicasets/default/web-2'' \<mapsto> web_version ''0000000000000001'' 3]"
  unfolding has_current_def by (intro exI [of _ "''/registry/replicasets/default/web-1''"]) (simp add: web_version_def)


theorem old_version_kept_witness:
  "entries_in (ReplicaSet_codec tag_serde) (replicasets_prefix ''default'') (map_of (StateStore_db (snd (web_deploy_pass Recreate))))
     ''/registry/replicasets/default/web-2'' = Some (web_version ''0000000000000001'' 3)"
proof -
  have run: "reconcile_deployment mem_slatedb tag_serde (\<lambda>_. Inr []) \<lparr> new_v4 = (\<lambda>_. []), utc_now = int \<rparr> ''default''
     ''/registry/deployments/default/web'' (web_deploy Recreate) two_versions = (Inr (), snd (web_deploy_pass Recreate))"
    using web_deploy_run(1) by (metis prod.collapse web_deploy_pass_def)
  have p: "prefix (deployments_prefix ''default'') ''/registry/deployments/default/web''" by (simp add: key_defs)
  have f: "Deployment_id (web_deploy s) = ''d1''" "DeploymentSpec_strategy (Deployment_spec (web_deploy s)) = s" for s
    by (simp_all add: web_deploy_def)
  have v: "ReplicaSet_template_hash (web_version ''0000000000000001'' 3) \<noteq> ''0000000000000000''" by (simp add: web_version_def)
  show ?thesis
    by (rule old_version_kept [OF memreg.registry_axioms run p, unfolded web_deploy_hash two_versions_entries f, OF _ two_versions_current _ v]) simp_all
qed

end
