(* ===== verification/Node_Controllers.thy ===== *)
theory Node_Controllers
  imports Controller_Base
begin

text \<open>
  The node controller and the eviction controller (\<open>pkg/controllers/src/node.rs\<close>, \<open>eviction.rs\<close>): a
  node's status follows the age of its heartbeat, and the pods of a node that has been silent past
  the grace period are reset. The lemmas show the status every node has after a pass and exactly which
  pods an eviction pass changes.
\<close>

section \<open>Node status\<close>

definition not_ready_threshold :: int where "not_ready_threshold = secs 30"
definition unknown_threshold :: int where "unknown_threshold = secs 60"
definition grace_period :: int where "grace_period = secs 300"

definition node_status_at :: "DateTime \<Rightarrow> Node \<Rightarrow> NodeStatus" where
  "node_status_at now node =
     (let age = age_since now (Node_last_heartbeat node)
      in if is_master node then Node_Ready
         else if unknown_threshold \<le> age then Node_Unknown
         else if not_ready_threshold \<le> age then Node_NotReady
         else Node_Ready)"

definition node_reconcile :: "('db, 'v) SlateDb \<Rightarrow> 'v serde \<Rightarrow> env \<Rightarrow> (('db, 'v) world, unit) act" where
  "node_reconcile D C E =
     bindM (list_prefix D nodes_prefix) (\<lambda>entries.
     bindM (read_clock E) (\<lambda>now.
       forM entries (\<lambda>(key, value).
         case from_slice (Node_codec C) value of
           Inl _ \<Rightarrow> returnM ()
         | Inr node \<Rightarrow>
             let new_status = node_status_at now node
             in whenM (Node_status node \<noteq> new_status)
                  (put_json D (Node_codec C) key (node\<lparr>Node_status := new_status\<rparr>)))))"

section \<open>Eviction\<close>

definition failed_node :: "DateTime \<Rightarrow> Node \<Rightarrow> bool" where
  "failed_node now node \<longleftrightarrow>
     \<not> is_master node \<and> Node_status node = Node_Unknown \<and> grace_period \<le> age_since now (Node_last_heartbeat node)"

definition evictable :: "string list \<Rightarrow> Pod \<Rightarrow> bool" where
  "evictable failed_node_names pod \<longleftrightarrow>
     (case Pod_node_name pod of
        None \<Rightarrow> False
      | Some node_name \<Rightarrow> node_name \<in> set failed_node_names \<and> Pod_status pod \<noteq> Pod_Pending \<and>
          Pod_status pod \<noteq> Pod_Succeeded \<and> Pod_status pod \<noteq> Pod_Failed)"

definition evicted :: "Pod \<Rightarrow> Pod" where
  "evicted pod = pod\<lparr>Pod_node_name := None, Pod_status := Pod_Pending\<rparr>"

definition all_pods_prefix :: string where "all_pods_prefix = ''/registry/pods/''"

definition eviction_reconcile :: "('db, 'v) SlateDb \<Rightarrow> 'v serde \<Rightarrow> env \<Rightarrow> (('db, 'v) world, unit) act" where
  "eviction_reconcile D C E =
     bindM (list_prefix D nodes_prefix) (\<lambda>node_entries.
     bindM (read_clock E) (\<lambda>now.
       let failed_node_names = map Node_name (filter (failed_node now) (decoded_values (Node_codec C) node_entries))
       in if failed_node_names = [] then returnM ()
          else bindM (list_prefix D all_pods_prefix) (\<lambda>pod_entries.
            forM pod_entries (\<lambda>(key, value).
              case from_slice (Pod_codec C) value of
                Inl _ \<Rightarrow> returnM ()
              | Inr pod \<Rightarrow> whenM (evictable failed_node_names pod) (put_json D (Pod_codec C) key (evicted pod))))))"

section \<open>Lemmas\<close>

lemma map_option_names:
  assumes "\<And>x. nm (g x) = nm x"
  shows "{nm y | k y. map_option g (N k) = Some y \<and> P y} = {nm x | k x. N k = Some x \<and> P (g x)}"
proof (intro set_eqI iffI)
  fix z assume "z \<in> {nm y | k y. map_option g (N k) = Some y \<and> P y}"
  then obtain k x where "N k = Some x" "P (g x)" "z = nm (g x)" by auto
  then show "z \<in> {nm x | k x. N k = Some x \<and> P (g x)}" using assms by blast
next
  fix z assume "z \<in> {nm x | k x. N k = Some x \<and> P (g x)}"
  then obtain k x where "map_option g (N k) = Some (g x)" "P (g x)" "z = nm (g x)" using assms by auto
  then show "z \<in> {nm y | k y. map_option g (N k) = Some y \<and> P y}" by blast
qed

context registry
begin

lemma node_reconcile_ok:
  assumes "node_reconcile D C E w = (Inr u, w')"
  shows "entries_in (Node_codec C) nodes_prefix (lookup w') = (\<lambda>k. map_option
      (\<lambda>node. node\<lparr>Node_status := node_status_at (utc_now E (clock_reads w)) node\<rparr>) (entries_in (Node_codec C) nodes_prefix (lookup w) k))"
    and "\<not> prefix nodes_prefix k \<Longrightarrow> lookup w' k = lookup w k"
proof -
  let ?now = "utc_now E (clock_reads w)" and ?w = "w\<lparr>clock_reads := Suc (clock_reads w)\<rparr>"
  obtain kvs where l: "list_prefix D nodes_prefix w = (Inr kvs, w)"
    and loop: "forM (decoded (Node_codec C) kvs) (\<lambda>(k, x). whenM (Node_status x \<noteq> node_status_at ?now x)
        (put_json D (Node_codec C) k (x\<lparr>Node_status := node_status_at ?now x\<rparr>))) ?w = (Inr (), w')"
    using assms by (auto simp: node_reconcile_def bindM_Inr list_prefix_iff read_clock_def Let_def for_decoded)
  note r = rewrite_pass [OF loop codecs(2) l]
  show "entries_in (Node_codec C) nodes_prefix (lookup w') = (\<lambda>k. map_option
      (\<lambda>node. node\<lparr>Node_status := node_status_at ?now node\<rparr>) (entries_in (Node_codec C) nodes_prefix (lookup w) k))"
    using r(1) by (auto simp: fun_eq_iff intro!: option.map_cong)
  show "\<not> prefix nodes_prefix k \<Longrightarrow> lookup w' k = lookup w k" using r(2) by simp
qed

text \<open>The names of the failed nodes a pass sees.\<close>

definition failed_names :: "DateTime \<Rightarrow> ('db, 'v) world \<Rightarrow> string set" where
  "failed_names now w = {Node_name n | k n. entries_in (Node_codec C) nodes_prefix (lookup w) k = Some n \<and> failed_node now n}"

lemma eviction_ok:
  assumes "eviction_reconcile D C E w = (Inr u, w')"
  defines "F \<equiv> failed_names (utc_now E (clock_reads w)) w"
  shows "entries_in (Pod_codec C) all_pods_prefix (lookup w') = (\<lambda>k. map_option
      (\<lambda>pod. if (\<exists>n\<in>F. Pod_node_name pod = Some n) \<and> Pod_status pod \<notin> {Pod_Pending, Pod_Succeeded, Pod_Failed} then evicted pod else pod)
      (entries_in (Pod_codec C) all_pods_prefix (lookup w) k))"
    and "\<not> prefix all_pods_prefix k \<Longrightarrow> lookup w' k = lookup w k"
proof -
  let ?now = "utc_now E (clock_reads w)" and ?w = "w\<lparr>clock_reads := Suc (clock_reads w)\<rparr>"
  obtain nkvs where nl: "list_prefix D nodes_prefix w = (Inr nkvs, w)" using assms(1) by (auto simp: eviction_reconcile_def bindM_Inr list_prefix_iff)
  define names where "names = map Node_name (filter (failed_node ?now) (decoded_values (Node_codec C) nkvs))"
  have F: "set names = F"
    using list_entries(1) [OF nl, where c = "Node_codec C"] by (force simp: names_def F_def failed_names_def decoded_values_def)
  have ev: "evictable names pod \<longleftrightarrow> (\<exists>n\<in>F. Pod_node_name pod = Some n) \<and> Pod_status pod \<notin> {Pod_Pending, Pod_Succeeded, Pod_Failed}" for pod
    by (auto simp: evictable_def F split: option.splits)
  have run: "(if names = [] then returnM () else bindM (list_prefix D all_pods_prefix) (\<lambda>pod_entries.
      forM (decoded (Pod_codec C) pod_entries) (\<lambda>(k, x). whenM (evictable names x) (put_json D (Pod_codec C) k (evicted x))))) ?w = (Inr (), w')"
    using assms(1) unfolding eviction_reconcile_def bindM_step [of "list_prefix D nodes_prefix", OF nl]
      bindM_step [of "read_clock E", OF read_clock_def] names_def Let_def by (simp add: for_decoded cong: if_cong)
  have "entries_in (Pod_codec C) all_pods_prefix (lookup w') = (\<lambda>k. map_option (\<lambda>pod. if evictable names pod then evicted pod else pod)
      (entries_in (Pod_codec C) all_pods_prefix (lookup w) k)) \<and> (\<forall>k. \<not> prefix all_pods_prefix k \<longrightarrow> lookup w' k = lookup w k)"
  proof (cases "names = []")
    case True
    moreover have "\<not> evictable [] pod" for pod by (simp add: evictable_def split: option.splits)
    ultimately show ?thesis using run by (simp add: returnM_Inr option.map_ident)
  next
    case False
    then obtain kvs where l: "list_prefix D all_pods_prefix ?w = (Inr kvs, ?w)"
      and loop: "forM (decoded (Pod_codec C) kvs) (\<lambda>(k, x). whenM (evictable names x) (put_json D (Pod_codec C) k (evicted x))) ?w = (Inr (), w')"
      using run by (auto simp: bindM_Inr list_prefix_iff)
    show ?thesis using rewrite_pass [OF loop codecs(1) l refl] by simp
  qed
  then show "entries_in (Pod_codec C) all_pods_prefix (lookup w') = (\<lambda>k. map_option
      (\<lambda>pod. if (\<exists>n\<in>F. Pod_node_name pod = Some n) \<and> Pod_status pod \<notin> {Pod_Pending, Pod_Succeeded, Pod_Failed} then evicted pod else pod)
      (entries_in (Pod_codec C) all_pods_prefix (lookup w) k))"
    "\<not> prefix all_pods_prefix k \<Longrightarrow> lookup w' k = lookup w k" unfolding ev by blast+
qed

end

lemma pods_sub: "prefix all_pods_prefix (pods_prefix ns)"
  by (simp add: all_pods_prefix_def pods_prefix_def prefix_def)

text \<open>What a pass of the eviction controller does to the pods of one namespace.\<close>

lemma eviction_namespace:
  fixes ns :: string
  assumes "registry D content C" and "eviction_reconcile D C E w = (Inr (), w1)"
  defines "pods \<equiv> \<lambda>w :: ('db, 'v) world. entries_in (Pod_codec C) (pods_prefix ns) (content (StateStore_db w))"
    and "F \<equiv> registry.failed_names content C (utc_now E (clock_reads w)) w"
  shows "pods w1 = (\<lambda>k. map_option (\<lambda>pod. if (\<exists>n\<in>F. Pod_node_name pod = Some n) \<and>
      Pod_status pod \<notin> {Pod_Pending, Pod_Succeeded, Pod_Failed} then evicted pod else pod) (pods w k))"
  using registry.eviction_ok(1) [OF assms(1,2)]
  by (simp add: pods_def F_def fun_eq_iff entries_in_sub [OF pods_sub])

section \<open>Failure detection\<close>


text \<open>A worker that went silent at time 0, seen at 400 seconds, and a running pod on it.\<close>

definition silent_world :: "((string \<times> json) list, json) world" where
  "silent_world = \<lparr> StateStore_db = [(''/registry/nodes/n1'', V_Node (sample_node ''n1'')),
       (''/registry/pods/default/web'', V_Pod ((sample_pod ''web'')\<lparr>Pod_node_name := Some ''n1'', Pod_status := Pod_Running\<rparr>))],
     StateStore_event_log = EventLog_new 16, rr_index = 0, uuid_draws = 0, clock_reads = 0 \<rparr>"

definition late_env :: env where
  "late_env = \<lparr> new_v4 = (\<lambda>_. []), utc_now = (\<lambda>_. secs 400) \<rparr>"

definition silent1 :: "unit result \<times> ((string \<times> json) list, json) world" where
  "silent1 = node_reconcile mem_slatedb tag_serde late_env silent_world"

definition silent2 :: "unit result \<times> ((string \<times> json) list, json) world" where
  "silent2 = eviction_reconcile mem_slatedb tag_serde late_env (snd silent1)"

lemma silent_runs: "fst silent1 = Inr ()" "fst silent2 = Inr ()"
  by code_simp+


end
