(* ===== verification/Hpa_Controller.thy ===== *)
theory Hpa_Controller
  imports Controller_Base
begin

text \<open>
  The horizontal pod autoscaler (\<open>pkg/controllers/src/hpa.rs\<close>): its scaling decision on 32-bit
  replica counts and one reconcile pass. The lemmas bound the decision and show what a pass writes to
  the target deployment.
\<close>

section \<open>The decision\<close>

text \<open>One metric: up by one towards the maximum, down by one towards the minimum, or as it is.\<close>

definition scale_by :: "u32 \<Rightarrow> u32 \<Rightarrow> u32 \<Rightarrow> u32 \<Rightarrow> u32 \<Rightarrow> u32" where
  "scale_by util target lo hi n =
     (if target < util \<and> n < hi then min (n + 1) hi
      else if util < saturating_sub target 10 \<and> lo < n then max (n - 1) lo
      else n)"

definition avg_cpu_util :: "Pod list \<Rightarrow> u32" where
  "avg_cpu_util running_pods =
     (let total_cpu_requested = sum_list (map (\<lambda>c. cpu_millis (ContainerSpec_resources c))
            (concat (map (\<lambda>p. PodSpec_containers (Pod_spec p)) running_pods)))
      in if 0 < total_cpu_requested then 70 else 0)"

definition desired_replicas :: "HPASpec \<Rightarrow> Pod list \<Rightarrow> u32 \<Rightarrow> u32" where
  "desired_replicas spec running_pods current_replicas =
     (let lo = HPASpec_min_replicas spec; hi = HPASpec_max_replicas spec; metrics = HPASpec_metrics spec;
          n = (case cpu_utilization_percent metrics of
                 Some target_cpu \<Rightarrow> if running_pods \<noteq> [] then scale_by (avg_cpu_util running_pods) target_cpu lo hi current_replicas
                                    else current_replicas
               | None \<Rightarrow> current_replicas)
      in case memory_utilization_percent metrics of
           Some target_mem \<Rightarrow> if running_pods \<noteq> [] then scale_by 60 target_mem lo hi n else n
         | None \<Rightarrow> n)"

definition hpa_utilization :: "HorizontalPodAutoscaler \<Rightarrow> Pod list \<Rightarrow> HPAStatus \<Rightarrow> HPAStatus" where
  "hpa_utilization hpa running_pods st =
     (let metrics = HPASpec_metrics (HPA_spec hpa);
          st = (if cpu_utilization_percent metrics \<noteq> None \<and> running_pods \<noteq> []
                then st\<lparr>HPAStatus_current_cpu_utilization_percent := Some (avg_cpu_util running_pods)\<rparr> else st)
      in if memory_utilization_percent metrics \<noteq> None \<and> running_pods \<noteq> []
         then st\<lparr>HPAStatus_current_memory_utilization_percent := Some 60\<rparr> else st)"

section \<open>The pass\<close>

text \<open>The running pods of a deployment, through its ReplicaSets.\<close>

definition running_pods_of :: "string list \<Rightarrow> Pod list \<Rightarrow> Pod list" where
  "running_pods_of rs_ids pods =
     filter (\<lambda>pod. (case Pod_owner_ref pod of Some r \<Rightarrow> r \<in> set rs_ids | None \<Rightarrow> False) \<and>
        (Pod_status pod = Pod_Running \<or> Pod_status pod = Pod_Scheduled)) pods"

definition apply_scaling :: "('db, 'v) SlateDb \<Rightarrow> 'v serde \<Rightarrow> env \<Rightarrow> string \<Rightarrow> Deployment \<Rightarrow> u32 \<Rightarrow> HPAStatus \<Rightarrow>
    (('db, 'v) world, HPAStatus) act" where
  "apply_scaling D C E deploy_key deploy desired st =
     (if desired \<noteq> DeploymentSpec_replicas (Deployment_spec deploy) then
        bindM (put_json D (Deployment_codec C) deploy_key
          (deploy\<lparr>Deployment_spec := (Deployment_spec deploy)\<lparr>DeploymentSpec_replicas := desired\<rparr>,
                  Deployment_generation := Deployment_generation deploy + 1\<rparr>)) (\<lambda>_.
        bindM (read_clock E) (\<lambda>now. returnM (st\<lparr>HPAStatus_last_scale_time := Some now\<rparr>)))
      else returnM st)"

definition reconcile_hpa :: "('db, 'v) SlateDb \<Rightarrow> 'v serde \<Rightarrow> env \<Rightarrow> string \<Rightarrow> string \<Rightarrow> HorizontalPodAutoscaler \<Rightarrow>
    (('db, 'v) world, unit) act" where
  "reconcile_hpa D C E ns hpa_key hpa =
     (let deploy_key = deployments_prefix ns @ HPASpec_target_deployment (HPA_spec hpa)
      in bindM (store_get D deploy_key) (\<lambda>found.
         case found of None \<Rightarrow> returnM () | Some deploy_data \<Rightarrow>
         (case from_slice (Deployment_codec C) deploy_data of Inl _ \<Rightarrow> returnM () | Inr deploy \<Rightarrow>
         bindM (load_all D (Pod_codec C) (pods_prefix ns)) (\<lambda>pods.
         bindM (load_all D (ReplicaSet_codec C) (replicasets_prefix ns)) (\<lambda>rsets.
           let rs_ids = map ReplicaSet_id (filter (\<lambda>rs. ReplicaSet_owner_ref rs = Some (Deployment_id deploy)) rsets);
               running_pods = running_pods_of rs_ids pods;
               current_replicas = DeploymentSpec_replicas (Deployment_spec deploy);
               desired = desired_replicas (HPA_spec hpa) running_pods current_replicas
           in bindM (apply_scaling D C E deploy_key deploy desired (hpa_utilization hpa running_pods (HPA_status hpa))) (\<lambda>st.
              put_json D (HPA_codec C) hpa_key
                (hpa\<lparr>HPA_status := st\<lparr>HPAStatus_current_replicas := current_replicas, HPAStatus_desired_replicas := desired\<rparr>\<rparr>)))))))"

definition hpa_reconcile_namespace :: "('db, 'v) SlateDb \<Rightarrow> 'v serde \<Rightarrow> env \<Rightarrow> string \<Rightarrow> (('db, 'v) world, unit) act" where
  "hpa_reconcile_namespace D C E ns =
     bindM (list_prefix D (hpa_prefix ns)) (\<lambda>hpa_entries.
       forM hpa_entries (\<lambda>(hpa_key, hpa_value).
         case from_slice (HPA_codec C) hpa_value of
           Inl _ \<Rightarrow> returnM ()
         | Inr hpa \<Rightarrow> reconcile_hpa D C E ns hpa_key hpa))"

definition hpa_reconcile :: "('db, 'v) SlateDb \<Rightarrow> 'v serde \<Rightarrow> env \<Rightarrow> (('db, 'v) world, unit) act" where
  "hpa_reconcile D C E = for_namespaces D (hpa_reconcile_namespace D C E)"

section \<open>Bounds\<close>

lemma scale_by_unat:
  "unat (scale_by util target lo hi n) =
     (if target < util \<and> n < hi then Suc (unat n)
      else if util < saturating_sub target 10 \<and> lo < n then unat n - 1
      else unat n)"
proof -
  have "unat (n + 1) = Suc (unat n)" "min (n + 1) hi = n + 1" if "n < hi"
  proof -
    have "unat hi < 2 ^ LENGTH(32)" by (rule unsigned_less)
    then show 1: "unat (n + 1) = Suc (unat n)" using that by (simp add: word_less_nat_alt unat_word_ariths)
    show "min (n + 1) hi = n + 1" using that by (simp add: min_def word_le_nat_alt word_less_nat_alt 1)
  qed
  moreover have "unat (n - 1) = unat n - 1" "max (n - 1) lo = n - 1" if "lo < n"
  proof -
    have "0 < unat n" using that by (simp add: word_less_nat_alt)
    then show 1: "unat (n - 1) = unat n - 1" by (simp add: unat_sub_if' word_le_nat_alt)
    show "max (n - 1) lo = n - 1" using that by (auto simp: max_def word_le_nat_alt word_less_nat_alt word_unat_eq_iff 1)
  qed
  ultimately show ?thesis by (simp add: scale_by_def)
qed

text \<open>
  What a decision may be: inside the limits when it starts there, never away from them when it starts
  outside, and at most two steps from the current size, one per metric.
\<close>

definition hpa_allowed :: "HPASpec \<Rightarrow> u32 \<Rightarrow> u32 \<Rightarrow> bool" where
  "hpa_allowed spec n m \<longleftrightarrow>
     (let lo = HPASpec_min_replicas spec; hi = HPASpec_max_replicas spec
      in (lo \<le> n \<and> n \<le> hi \<longrightarrow> lo \<le> m \<and> m \<le> hi) \<and> (hi \<le> n \<and> lo \<le> n \<longrightarrow> m \<le> n) \<and> (n \<le> lo \<and> n \<le> hi \<longrightarrow> n \<le> m) \<and>
         unat m \<le> unat n + 2 \<and> unat n \<le> unat m + 2)"

lemma desired_allowed: "hpa_allowed spec n (desired_replicas spec ps n)"
proof -
  let ?lo = "HPASpec_min_replicas spec" and ?hi = "HPASpec_max_replicas spec"
  have step: "(?lo \<le> n \<and> n \<le> ?hi \<longrightarrow> ?lo \<le> m \<and> m \<le> ?hi) \<and> (?hi \<le> n \<and> ?lo \<le> n \<longrightarrow> m \<le> n) \<and> (n \<le> ?lo \<and> n \<le> ?hi \<longrightarrow> n \<le> m) \<and>
      unat m \<le> unat n + 1 \<and> unat n \<le> unat m + 1" if "m = scale_by u t ?lo ?hi n \<or> m = n" for u t n m
    using that scale_by_unat [of u t ?lo ?hi n] by (auto simp: word_le_nat_alt word_less_nat_alt split: if_splits)
  define n1 where "n1 = (case cpu_utilization_percent (HPASpec_metrics spec) of
      Some t \<Rightarrow> if ps \<noteq> [] then scale_by (avg_cpu_util ps) t ?lo ?hi n else n | None \<Rightarrow> n)"
  have "desired_replicas spec ps n = (case memory_utilization_percent (HPASpec_metrics spec) of
      Some t \<Rightarrow> if ps \<noteq> [] then scale_by 60 t ?lo ?hi n1 else n1 | None \<Rightarrow> n1)"
    unfolding desired_replicas_def Let_def n1_def by (rule refl)
  then have "\<exists>t. desired_replicas spec ps n = scale_by 60 t ?lo ?hi n1 \<or> desired_replicas spec ps n = n1"
    by (auto split: option.splits)
  moreover have "\<exists>t. n1 = scale_by (avg_cpu_util ps) t ?lo ?hi n \<or> n1 = n" by (auto simp: n1_def split: option.splits)
  ultimately obtain t t' where 1: "n1 = scale_by (avg_cpu_util ps) t ?lo ?hi n \<or> n1 = n"
    and 2: "desired_replicas spec ps n = scale_by 60 t' ?lo ?hi n1 \<or> desired_replicas spec ps n = n1" by blast
  from step [OF 1] step [OF 2] show ?thesis unfolding hpa_allowed_def Let_def by (auto simp: word_le_nat_alt)
qed

context registry
begin

lemma reconcile_hpa_ok:
  assumes run: "reconcile_hpa D C E ns hpa_key hpa w = (Inr u, w')" and hk: "prefix (hpa_prefix ns) hpa_key"
  defines "k \<equiv> deployments_prefix ns @ HPASpec_target_deployment (HPA_spec hpa)"
  assumes d: "entries_in (Deployment_codec C) (deployments_prefix ns) (lookup w) k = Some d"
  shows "\<exists>m. hpa_allowed (HPA_spec hpa) (DeploymentSpec_replicas (Deployment_spec d)) m \<and>
    entries_in (Deployment_codec C) (deployments_prefix ns) (lookup w') = (entries_in (Deployment_codec C) (deployments_prefix ns) (lookup w))
      (k \<mapsto> d\<lparr>Deployment_spec := (Deployment_spec d)\<lparr>DeploymentSpec_replicas := m\<rparr>,
             Deployment_generation := Deployment_generation d + (if m = DeploymentSpec_replicas (Deployment_spec d) then 0 else 1)\<rparr>)"
proof -
  obtain v where v: "lookup w k = Some v" "from_slice (Deployment_codec C) v = Inr d"
    using d by (auto simp: entries_in_Some)
  obtain found where g: "store_get D k w = (Inr found, w)"
    using run by (auto simp: reconcile_hpa_def Let_def bindM_Inr store_get_iff k_def)
  have found: "found = Some v" using store_get_ok [OF g] v by simp
  obtain ps w1 st st0 x where sc: "apply_scaling D C E k d (desired_replicas (HPA_spec hpa) ps (DeploymentSpec_replicas (Deployment_spec d))) st0 w = (Inr st, w1)"
    and put: "put_json D (HPA_codec C) hpa_key x w1 = (Inr (), w')"
    using run unfolding reconcile_hpa_def Let_def k_def [symmetric] bindM_step [of "store_get D k", OF g] found
    by (auto simp: v(2) load_all_def bindM_Inr list_prefix_iff returnM_Inr)
  define m where "m = desired_replicas (HPA_spec hpa) ps (DeploymentSpec_replicas (Deployment_spec d))"
  have other: "\<not> prefix (deployments_prefix ns) hpa_key" using hk by (auto simp: key_defs prefix_def)
  have pk: "prefix (deployments_prefix ns) k" by (simp add: k_def)
  have "entries_in (Deployment_codec C) (deployments_prefix ns) (lookup w1) = (entries_in (Deployment_codec C) (deployments_prefix ns) (lookup w))
      (k \<mapsto> d\<lparr>Deployment_spec := (Deployment_spec d)\<lparr>DeploymentSpec_replicas := m\<rparr>,
             Deployment_generation := Deployment_generation d + (if m = DeploymentSpec_replicas (Deployment_spec d) then 0 else 1)\<rparr>)"
  proof (cases "m = DeploymentSpec_replicas (Deployment_spec d)")
    case True
    then have "w1 = w" using sc by (simp add: apply_scaling_def m_def returnM_Inr)
    then show ?thesis using True d by (auto simp: fun_eq_iff)
  next
    case False
    then obtain w0 where "put_json D (Deployment_codec C) k (d\<lparr>Deployment_spec := (Deployment_spec d)\<lparr>DeploymentSpec_replicas := m\<rparr>,
        Deployment_generation := Deployment_generation d + 1\<rparr>) w = (Inr (), w0)" and "lookup w1 = lookup w0"
      using sc by (auto simp: apply_scaling_def m_def bindM_Inr read_clock_def returnM_Inr)
    from put_entries [OF this(1), of "deployments_prefix ns"] this(2) False pk show ?thesis by simp
  qed
  then show ?thesis unfolding put_entries_other [OF put other] m_def using desired_allowed by blast
qed

end

text \<open>C19: a completed pass of the autoscaler whose target deployment is stored writes it a size that is
  inside the limits if the old one was, never further outside if it was not, and at most two steps from the
  old one, counts the generation up exactly when the size changes, and touches no other deployment.\<close>

theorem hpa_scales_within_limits:
  assumes "registry D content C" and "reconcile_hpa D C E ns hpa_key hpa w = (Inr (), w')" and "prefix (hpa_prefix ns) hpa_key"
    and "entries_in (Deployment_codec C) (deployments_prefix ns) (content (StateStore_db w)) (deployments_prefix ns @ HPASpec_target_deployment (HPA_spec hpa)) = Some d"
  shows "\<exists>m. hpa_allowed (HPA_spec hpa) (DeploymentSpec_replicas (Deployment_spec d)) m \<and>
    entries_in (Deployment_codec C) (deployments_prefix ns) (content (StateStore_db w')) =
      (entries_in (Deployment_codec C) (deployments_prefix ns) (content (StateStore_db w)))
      (deployments_prefix ns @ HPASpec_target_deployment (HPA_spec hpa) \<mapsto>
         d\<lparr>Deployment_spec := (Deployment_spec d)\<lparr>DeploymentSpec_replicas := m\<rparr>,
           Deployment_generation := Deployment_generation d + (if m = DeploymentSpec_replicas (Deployment_spec d) then 0 else 1)\<rparr>)"
  by (rule registry.reconcile_hpa_ok [OF assms])

text \<open>A deployment of three pods with a target of 50 percent and a running pod that requests CPU.\<close>

definition api_deploy :: Deployment where
  "api_deploy = \<lparr> Deployment_id = ''d1'', Deployment_name = ''api'', Deployment_namespace = ''default'',
     Deployment_spec = \<lparr> DeploymentSpec_replicas = 3, DeploymentSpec_template = empty_spec,
       DeploymentSpec_strategy = Recreate, DeploymentSpec_selector = [] \<rparr>,
     Deployment_status = \<lparr> DeploymentStatus_ready_replicas = 0, DeploymentStatus_available_replicas = 0, DeploymentStatus_updated_replicas = 0 \<rparr>,
     Deployment_generation = 1, Deployment_observed_generation = 0, Deployment_created_at = 0 \<rparr>"

definition api_hpa :: HorizontalPodAutoscaler where
  "api_hpa = \<lparr> HPA_id = ''h1'', HPA_name = ''api'', HPA_namespace = ''default'',
     HPA_spec = \<lparr> HPASpec_target_deployment = ''api'', HPASpec_min_replicas = 1, HPASpec_max_replicas = 10,
       HPASpec_metrics = \<lparr> cpu_utilization_percent = Some 50, memory_utilization_percent = None \<rparr> \<rparr>,
     HPA_status = \<lparr> HPAStatus_current_replicas = 0, HPAStatus_desired_replicas = 0, HPAStatus_current_cpu_utilization_percent = None,
       HPAStatus_current_memory_utilization_percent = None, HPAStatus_last_scale_time = None \<rparr>, HPA_created_at = 0 \<rparr>"

definition api_world :: "((string \<times> json) list, json) world" where
  "api_world = \<lparr> StateStore_db = [(''/registry/deployments/default/api'', V_Deployment api_deploy),
      (''/registry/replicasets/default/api'', V_ReplicaSet \<lparr> ReplicaSet_id = ''r1'', ReplicaSet_name = ''api'', ReplicaSet_namespace = ''default'',
         ReplicaSet_spec = \<lparr> ReplicaSetSpec_replicas = 3, ReplicaSetSpec_selector = [], ReplicaSetSpec_template = empty_spec \<rparr>,
         ReplicaSet_status = \<lparr> ReplicaSetStatus_replicas = 0, ReplicaSetStatus_ready_replicas = 0, ReplicaSetStatus_available_replicas = 0 \<rparr>,
         ReplicaSet_owner_ref = Some ''d1'', ReplicaSet_template_hash = [], ReplicaSet_created_at = 0 \<rparr>),
      (''/registry/pods/default/api-0'', V_Pod ((sample_pod ''api-0'')\<lparr>Pod_owner_ref := Some ''r1'', Pod_status := Pod_Running,
         Pod_spec := empty_spec\<lparr>PodSpec_containers := [\<lparr> ContainerSpec_name = ''c'', ContainerSpec_image = [], ContainerSpec_command = [],
           ContainerSpec_args = [], ContainerSpec_env = [], ContainerSpec_resources = \<lparr> cpu_millis = 100, memory_bytes = 0 \<rparr>,
           ContainerSpec_volume_mounts = [] \<rparr>]\<rparr>\<rparr>))],
     StateStore_event_log = EventLog_new 16, rr_index = 0, uuid_draws = 0, clock_reads = 0 \<rparr>"

definition api_pass :: "unit result \<times> ((string \<times> json) list, json) world" where
  "api_pass = reconcile_hpa mem_slatedb tag_serde \<lparr> new_v4 = (\<lambda>_. []), utc_now = int \<rparr> ''default'' ''/registry/hpa/default/api'' api_hpa api_world"

lemma api_pass_run: "fst api_pass = Inr ()"
  "map_option DeploymentSpec_replicas (map_option Deployment_spec (entries_in (Deployment_codec tag_serde) (deployments_prefix ''default'')
     (map_of (StateStore_db (snd api_pass))) ''/registry/deployments/default/api'')) = Some 4"
  by code_simp+

theorem hpa_scales_within_limits_witness:
  "\<exists>d m. entries_in (Deployment_codec tag_serde) (deployments_prefix ''default'') (map_of (StateStore_db (snd api_pass)))
     ''/registry/deployments/default/api'' = Some d \<and> DeploymentSpec_replicas (Deployment_spec d) = m \<and> m = 4 \<and> hpa_allowed (HPA_spec api_hpa) 3 m"
proof -
  have run: "reconcile_hpa mem_slatedb tag_serde \<lparr> new_v4 = (\<lambda>_. []), utc_now = int \<rparr> ''default'' ''/registry/hpa/default/api'' api_hpa api_world = (Inr (), snd api_pass)"
    using api_pass_run(1) by (metis api_pass_def prod.collapse)
  have k: "deployments_prefix ''default'' @ HPASpec_target_deployment (HPA_spec api_hpa) = ''/registry/deployments/default/api''"
    and r: "DeploymentSpec_replicas (Deployment_spec api_deploy) = 3" and h: "prefix (hpa_prefix ''default'') ''/registry/hpa/default/api''"
    by (simp_all add: key_defs api_hpa_def api_deploy_def)
  have d: "entries_in (Deployment_codec tag_serde) (deployments_prefix ''default'') (map_of (StateStore_db api_world)) ''/registry/deployments/default/api'' = Some api_deploy"
    by (simp add: entries_in_def key_defs api_world_def tag_serde_def tag_codec_def ok_or_def)
  obtain m where m: "hpa_allowed (HPA_spec api_hpa) 3 m" and e: "map_option DeploymentSpec_replicas (map_option Deployment_spec
      (entries_in (Deployment_codec tag_serde) (deployments_prefix ''default'') (map_of (StateStore_db (snd api_pass))) ''/registry/deployments/default/api'')) = Some m"
    using hpa_scales_within_limits [OF memreg.registry_axioms run h, unfolded k, OF d] unfolding r by auto
  then have "m = 4" using api_pass_run(2) by simp
  then show ?thesis using m e by auto
qed

end
