(* ===== verification/Endpoint_Controller.thy ===== *)
theory Endpoint_Controller
  imports Controller_Base
begin

text \<open>
  The endpoint controller and the VPC controller (\<open>pkg/controllers/src/endpoint.rs\<close>, \<open>vpc.rs\<close>): endpoints
  are generated from the running pods a service selects in its namespace and VPC, and the default VPC is
  seeded. The lemmas show that the generated addresses are exactly those of the selected pods.
\<close>

section \<open>Endpoints\<close>

definition services_prefix :: string where "services_prefix = ''/registry/services/''"
definition endpoints_prefix :: string where "endpoints_prefix = ''/registry/endpoints/''"
definition pods_root :: string where "pods_root = ''/registry/pods/''"

definition matches_selector :: "labels \<Rightarrow> labels \<Rightarrow> bool" where
  "matches_selector labels selector \<longleftrightarrow> list_all (\<lambda>(k, v). hm_get labels k = Some v) selector"

definition pod_vpc :: "Pod \<Rightarrow> string" where
  "pod_vpc p =
     (case Pod_vpc_name p of
        Some v \<Rightarrow> v
      | None \<Rightarrow> (case PodSpec_vpc (Pod_spec p) of Some v \<Rightarrow> v | None \<Rightarrow> ''default''))"

definition service_vpc :: "Service \<Rightarrow> string" where
  "service_vpc svc = (case Service_vpc svc of Some v \<Rightarrow> v | None \<Rightarrow> ''default'')"

definition selects :: "Service \<Rightarrow> Pod \<Rightarrow> bool" where
  "selects svc p \<longleftrightarrow>
     Pod_namespace p = Service_namespace svc \<and> Pod_status p = Pod_Running \<and>
     matches_selector (Pod_labels p) (ServiceSpec_selector (Service_spec svc)) \<and> pod_vpc p = service_vpc svc"

definition pod_address :: "Pod \<Rightarrow> EndpointAddress option" where
  "pod_address p =
     (case Pod_ghost_ipv6 p of
        None \<Rightarrow> None
      | Some ip \<Rightarrow> Some \<lparr> EndpointAddress_ip = ip, EndpointAddress_node_name = Pod_node_name p, EndpointAddress_pod_id = Some (Pod_id p) \<rparr>)"

definition endpoint_of :: "Service \<Rightarrow> Pod list \<Rightarrow> DateTime \<Rightarrow> Endpoint" where
  "endpoint_of svc pods now =
     \<lparr> Endpoint_id = Service_id svc, Endpoint_service_id = Service_id svc, Endpoint_service_name = Service_name svc,
       Endpoint_namespace = Service_namespace svc,
       Endpoint_addresses = List.map_filter pod_address (filter (selects svc) pods),
       Endpoint_ports = map (\<lambda>sp. \<lparr> EndpointPort_name = ServicePort_name sp, EndpointPort_port = ServicePort_target_port sp,
           EndpointPort_protocol = ''TCP'' \<rparr>) (ServiceSpec_ports (Service_spec svc)),
       Endpoint_created_at = now \<rparr>"

definition endpoint_key :: "Service \<Rightarrow> string" where
  "endpoint_key svc = endpoints_prefix @ Service_namespace svc @ ''/'' @ Service_id svc"

definition endpoint_reconcile :: "('db, 'v) SlateDb \<Rightarrow> 'v serde \<Rightarrow> env \<Rightarrow> (('db, 'v) world, unit) act" where
  "endpoint_reconcile D C E =
     bindM (load_all D (Service_codec C) services_prefix) (\<lambda>services.
     bindM (load_all D (Pod_codec C) pods_root) (\<lambda>pods.
       forM services (\<lambda>svc.
         if ServiceSpec_selector (Service_spec svc) = [] then returnM ()
         else bindM (read_clock E) (\<lambda>now.
           put_json D (Endpoint_codec C) (endpoint_key svc) (endpoint_of svc pods now)))))"

section \<open>The default VPC\<close>

definition ensure_default_vpc :: "('db, 'v) SlateDb \<Rightarrow> 'v serde \<Rightarrow> env \<Rightarrow> (('db, 'v) world, unit) act" where
  "ensure_default_vpc D C E =
     bindM (store_get D ''/registry/vpcs/default'') (\<lambda>found.
       whenM (found = None) (bindM (read_clock E) (\<lambda>now.
         put_json D (Vpc_codec C) ''/registry/vpcs/default''
           \<lparr> Vpc_name = ''default'', Vpc_vpc_id = 1, Vpc_ipv4_cidr = ''10.42.0.0/16'', Vpc_status = Vpc_Active,
             Vpc_created_at = now, Vpc_deleted_at = None \<rparr>)))"

section \<open>Lemmas\<close>

lemma set_map_filter_iff: "y \<in> set (List.map_filter f xs) \<longleftrightarrow> (\<exists>x\<in>set xs. f x = Some y)"
  by (force simp: List.map_filter_def)

lemma load_all_iff: "load_all D c p s = (r, s') \<longleftrightarrow> s' = s \<and> fst (load_all D c p s) = r"
  by (auto simp: load_all_def bindM_def returnM_def list_prefix_iff split: prod.splits sum.splits)

context registry
begin

lemma load_all_ok:
  assumes "load_all D c p w = (Inr xs, w')"
  shows "w' = w" and "x \<in> set xs \<longleftrightarrow> (\<exists>k. entries_in c p (lookup w) k = Some x)"
proof -
  obtain kvs where l: "list_prefix D p w = (Inr kvs, w)" and xs: "xs = decoded_values c kvs" and "w' = w"
    using assms by (auto simp: load_all_def bindM_Inr list_prefix_iff returnM_Inr)
  show "w' = w" by fact
  show "x \<in> set xs \<longleftrightarrow> (\<exists>k. entries_in c p (lookup w) k = Some x)"
    using list_entries(1) [OF l, where c = c] by (force simp: xs decoded_values_def image_iff)
qed

text \<open>The entry the last write of a loop leaves at each key, when no key is written twice.\<close>

lemma endpoint_loop:
  fixes w :: "('db, 'v) world"
  shows "forM svcs (\<lambda>svc. if ServiceSpec_selector (Service_spec svc) = [] then returnM ()
      else bindM (read_clock E) (\<lambda>now. put_json D (Endpoint_codec C) (endpoint_key svc) (endpoint_of svc pods now))) w = (Inr u, w') \<Longrightarrow>
    (\<And>a b. a \<in> set svcs \<Longrightarrow> b \<in> set svcs \<Longrightarrow> endpoint_key a = endpoint_key b \<Longrightarrow> a = b) \<Longrightarrow>
    (\<forall>svc\<in>set svcs. ServiceSpec_selector (Service_spec svc) \<noteq> [] \<longrightarrow>
       (\<exists>now. entries_in (Endpoint_codec C) endpoints_prefix (lookup w') (endpoint_key svc) = Some (endpoint_of svc pods now))) \<and>
    (\<forall>k. k \<notin> endpoint_key ` set svcs \<longrightarrow> entries_in (Endpoint_codec C) endpoints_prefix (lookup w') k = entries_in (Endpoint_codec C) endpoints_prefix (lookup w) k)"
proof (induction svcs arbitrary: w)
  case Nil
  then show ?case by (simp add: returnM_Inr)
next
  case (Cons a svcs)
  let ?eps = "\<lambda>w :: ('db, 'v) world. entries_in (Endpoint_codec C) endpoints_prefix (lookup w)"
  let ?body = "\<lambda>svc. if ServiceSpec_selector (Service_spec svc) = [] then returnM ()
      else bindM (read_clock E) (\<lambda>now. put_json D (Endpoint_codec C) (endpoint_key svc) (endpoint_of svc pods now))"
  obtain w1 where 1: "?body a w = (Inr (), w1)" and rest: "forM svcs ?body w1 = (Inr u, w')"
    using Cons.prems(1) by (auto simp: bindM_Inr)
  have pk: "prefix endpoints_prefix (endpoint_key a)" by (simp add: endpoint_key_def)
  have w1: "\<exists>now. ?eps w1 = (if ServiceSpec_selector (Service_spec a) = [] then ?eps w else (?eps w)(endpoint_key a \<mapsto> endpoint_of a pods now))"
  proof (cases "ServiceSpec_selector (Service_spec a) = []")
    case True
    then show ?thesis using 1 by (simp add: returnM_Inr)
  next
    case False
    then obtain now w0 where put: "put_json D (Endpoint_codec C) (endpoint_key a) (endpoint_of a pods now) w0 = (Inr (), w1)" and "lookup w0 = lookup w"
      using 1 by (auto simp: bindM_def read_clock_def)
    then show ?thesis using put_entries [OF put, of endpoints_prefix] pk False by auto
  qed
  note IH = Cons.IH [OF rest]
  have IH': "(\<forall>svc\<in>set svcs. ServiceSpec_selector (Service_spec svc) \<noteq> [] \<longrightarrow> (\<exists>now. ?eps w' (endpoint_key svc) = Some (endpoint_of svc pods now))) \<and>
      (\<forall>k. k \<notin> endpoint_key ` set svcs \<longrightarrow> ?eps w' k = ?eps w1 k)" by (rule IH) (use Cons.prems(2) in auto)
  have "\<exists>now. ?eps w' (endpoint_key a) = Some (endpoint_of a pods now)" if "ServiceSpec_selector (Service_spec a) \<noteq> []"
  proof (cases "endpoint_key a \<in> endpoint_key ` set svcs")
    case True
    then have "a \<in> set svcs" using Cons.prems(2) by auto
    then show ?thesis using IH' that by blast
  next
    case False
    then show ?thesis using IH' w1 that by auto
  qed
  moreover have "?eps w' k = ?eps w k" if "k \<notin> endpoint_key ` set (a # svcs)" for k
    using IH' w1 that by (auto split: if_splits)
  ultimately show ?case using IH' by auto
qed

end

text \<open>Which pods back a service, and the address they are listed with.\<close>

lemma selects_address:
  "selects svc p \<and> pod_address p = Some a \<longleftrightarrow>
    (\<exists>ip. Pod_namespace p = Service_namespace svc \<and> Pod_status p = Pod_Running \<and>
       (\<forall>(label, val)\<in>set (ServiceSpec_selector (Service_spec svc)). hm_get (Pod_labels p) label = Some val) \<and>
       pod_vpc p = service_vpc svc \<and> Pod_ghost_ipv6 p = Some ip \<and>
       a = \<lparr> EndpointAddress_ip = ip, EndpointAddress_node_name = Pod_node_name p, EndpointAddress_pod_id = Some (Pod_id p) \<rparr>)"
  by (auto simp: selects_def pod_address_def matches_selector_def list_all_iff split: option.split)


lemma ex_two: "(\<exists>k p. [k1 \<mapsto> x, k2 \<mapsto> y] k = Some p \<and> Q p) \<longleftrightarrow> Q y \<or> (k1 \<noteq> k2 \<and> Q x)"
  by auto

text \<open>A service in the default VPC, a pod it selects and one with the same labels in another VPC.\<close>

definition shop_svc :: Service where
  "shop_svc = \<lparr> Service_id = ''s1'', Service_name = ''shop'', Service_namespace = ''default'',
     Service_spec = \<lparr> ServiceSpec_selector = [(''app'', ''shop'')], ServiceSpec_ports = [], ServiceSpec_service_type = ClusterIP \<rparr>,
     Service_cluster_ip = None, Service_vpc = None, Service_created_at = 0 \<rparr>"

definition shop_pod :: "string \<Rightarrow> string option \<Rightarrow> string \<Rightarrow> Pod" where
  "shop_pod name vpc ip = (sample_pod name)\<lparr>Pod_labels := [(''app'', ''shop'')], Pod_status := Pod_Running, Pod_vpc_name := vpc, Pod_ghost_ipv6 := Some ip\<rparr>"

definition shop_world :: "((string \<times> json) list, json) world" where
  "shop_world = \<lparr> StateStore_db = [(''/registry/services/default/s1'', V_Service shop_svc),
       (''/registry/pods/default/a'', V_Pod (shop_pod ''a'' None ''fd00::1'')), (''/registry/pods/default/b'', V_Pod (shop_pod ''b'' (Some ''blue'') ''fd00::2''))],
     StateStore_event_log = EventLog_new 16, rr_index = 0, uuid_draws = 0, clock_reads = 0 \<rparr>"

definition shop_pass :: "unit result \<times> ((string \<times> json) list, json) world" where
  "shop_pass = endpoint_reconcile mem_slatedb tag_serde \<lparr> new_v4 = (\<lambda>_. []), utc_now = int \<rparr> shop_world"

lemma shop_pass_run: "fst shop_pass = Inr ()"
  unfolding shop_pass_def endpoint_reconcile_def load_all_def tag_serde_def serde.select_convs
  by (intro succeeds_unit succeeds_intro)


end
