(* ===== verification/Job_Controllers.thy ===== *)
theory Job_Controllers
  imports Controller_Base
begin

text \<open>
  The Job and CronJob controllers (\<open>pkg/controllers/src/job.rs\<close>, \<open>cronjob.rs\<close>). \<open>fmt\<close> is chrono's
  formatting of a time by a directive, a parameter. The lemmas bound the pods a job runs at a time and in
  all, and show what a CronJob's list of active jobs becomes.
\<close>

section \<open>Jobs\<close>

definition create_job_pod :: "('db, 'v) SlateDb \<Rightarrow> 'v serde \<Rightarrow> env \<Rightarrow> string \<Rightarrow> Job \<Rightarrow> Node list \<Rightarrow> (('db, 'v) world, Pod) act" where
  "create_job_pod D C E ns job nodes =
     bindM (draw_uuid E) (\<lambda>pod_id. bindM (read_clock E) (\<lambda>now.
       let pod = \<lparr> Pod_id = pod_id, Pod_name = Job_name job @ ''-'' @ take 8 pod_id, Pod_namespace = ns,
             Pod_spec = JobSpec_template (Job_spec job), Pod_status = Pod_Pending, Pod_status_message = None,
             Pod_container_id = None, Pod_node_name = None, Pod_labels = [], Pod_owner_ref = Some (Job_id job),
             Pod_restart_count = 0, Pod_runtime_info = None, Pod_ghost_ipv6 = None, Pod_vpc_name = None,
             Pod_created_at = now \<rparr>
       in bindM (schedule_pod pod nodes) (\<lambda>choice.
          let pod = assigned pod choice
          in bindM (put_json D (Pod_codec C) (pods_prefix ns @ Pod_name pod) pod) (\<lambda>_. returnM pod))))"

definition is_active_pod :: "Pod \<Rightarrow> bool" where
  "is_active_pod p \<longleftrightarrow> Pod_status p \<in> {Pod_Pending, Pod_Scheduled, Pod_ContainerCreating, Pod_Running}"

definition count_pods :: "(Pod \<Rightarrow> bool) \<Rightarrow> (string \<times> Pod) list \<Rightarrow> u32" where
  "count_pods P owned = of_nat (length (filter (\<lambda>(_, p). P p) owned))"

text \<open>The step after the counts are known: the new status and how many pods to create.\<close>

definition job_decision :: "JobSpec \<Rightarrow> JobStatus \<Rightarrow> JobCondition \<times> nat" where
  "job_decision spec st =
     (let active = JobStatus_active st; succeeded = JobStatus_succeeded st; failed = JobStatus_failed st
      in if JobSpec_completions spec \<le> succeeded then (Job_Complete, 0)
         else if JobSpec_backoff_limit spec \<le> failed then (Job_Failed, 0)
         else if active < JobSpec_parallelism spec \<and> active + succeeded < JobSpec_completions spec
           then (JobStatus_condition st, unat (min (JobSpec_parallelism spec - active) (JobSpec_completions spec - active - succeeded)))
         else (JobStatus_condition st, 0))"

text \<open>Write the job back, with the completion time if it is now complete.\<close>

definition finish_job :: "('db, 'v) SlateDb \<Rightarrow> 'v serde \<Rightarrow> env \<Rightarrow> string \<Rightarrow> Job \<Rightarrow> (('db, 'v) world, unit) act" where
  "finish_job D C E job_key job =
     (if JobStatus_condition (Job_status job) = Job_Complete
      then bindM (read_clock E) (\<lambda>now.
        put_json D (Job_codec C) job_key (job\<lparr>Job_status := (Job_status job)\<lparr>JobStatus_completion_time := Some now\<rparr>\<rparr>))
      else put_json D (Job_codec C) job_key job)"

definition reconcile_job :: "('db, 'v) SlateDb \<Rightarrow> 'v serde \<Rightarrow> env \<Rightarrow> string \<Rightarrow> Node list \<Rightarrow> string \<Rightarrow> Job \<Rightarrow> (('db, 'v) world, unit) act" where
  "reconcile_job D C E ns nodes job_key job =
     (if JobStatus_condition (Job_status job) = Job_Complete \<or> JobStatus_condition (Job_status job) = Job_Failed then returnM ()
      else bindM (case JobStatus_start_time (Job_status job) of
              Some t \<Rightarrow> returnM t | None \<Rightarrow> read_clock E) (\<lambda>start.
        bindM (list_prefix D (pods_prefix ns)) (\<lambda>pod_entries.
          let owned = owned_pods (Pod_codec C) (Job_id job) pod_entries;
              st = (Job_status job)\<lparr>JobStatus_start_time := Some start,
                     JobStatus_active := count_pods is_active_pod owned,
                     JobStatus_succeeded := count_pods (\<lambda>p. Pod_status p = Pod_Succeeded) owned,
                     JobStatus_failed := count_pods (\<lambda>p. Pod_status p = Pod_Failed) owned\<rparr>;
              (condition, to_create) = job_decision (Job_spec job) st;
              job1 = job\<lparr>Job_status := st\<lparr>JobStatus_condition := condition\<rparr>\<rparr>
          in bindM (forM [0 ..< to_create] (\<lambda>_. bindM (create_job_pod D C E ns job1 nodes) (\<lambda>_. returnM ()))) (\<lambda>_.
               finish_job D C E job_key job1))))"

definition job_reconcile_namespace :: "('db, 'v) SlateDb \<Rightarrow> 'v serde \<Rightarrow> env \<Rightarrow> string \<Rightarrow> (('db, 'v) world, unit) act" where
  "job_reconcile_namespace D C E ns =
     bindM (list_prefix D (jobs_prefix ns)) (\<lambda>job_entries.
     bindM (load_all D (Node_codec C) nodes_prefix) (\<lambda>nodes.
       forM job_entries (\<lambda>(job_key, job_value).
         case from_slice (Job_codec C) job_value of
           Inl _ \<Rightarrow> returnM ()
         | Inr job \<Rightarrow> reconcile_job D C E ns nodes job_key job)))"

definition job_reconcile :: "('db, 'v) SlateDb \<Rightarrow> 'v serde \<Rightarrow> env \<Rightarrow> (('db, 'v) world, unit) act" where
  "job_reconcile D C E = for_namespaces D (job_reconcile_namespace D C E)"

section \<open>Cron schedules\<close>

text \<open>\<open>schedule.split_whitespace()\<close>, its first piece.\<close>

definition first_field :: "string \<Rightarrow> string option" where
  "first_field s = (let t = dropWhile is_whitespace s in if t = [] then None else Some (takeWhile (Not \<circ> is_whitespace) t))"

definition parse_i64 :: "string \<Rightarrow> int option" where
  "parse_i64 s =
     (case s of
        c # cs \<Rightarrow> if c = CHR ''-'' then
            (case cs of d # _ \<Rightarrow> if d = CHR ''+'' then None else map_option (\<lambda>n. - int n) (parse_unsigned (2 ^ 63) cs) | [] \<Rightarrow> None)
          else map_option int (parse_unsigned (2 ^ 63 - 1) s)
      | [] \<Rightarrow> None)"

text \<open>\<open>signed_duration_since(..).num_minutes()\<close>: whole minutes, rounded towards zero.\<close>

definition num_minutes :: "int \<Rightarrow> int" where
  "num_minutes d = (if 0 \<le> d then d div secs 60 else - ((- d) div secs 60))"

definition is_schedule_due :: "(DateTime \<Rightarrow> string \<Rightarrow> string) \<Rightarrow> string \<Rightarrow> DateTime \<Rightarrow> DateTime \<Rightarrow> bool" where
  "is_schedule_due fmt sched last_run now =
     (case first_field sched of
        None \<Rightarrow> False
      | Some minute_field \<Rightarrow>
          let elapsed_minutes = num_minutes (now - last_run)
          in if minute_field = ''*'' then 1 \<le> elapsed_minutes
             else (case strip_prefix minute_field ''*/'' of
                 Some interval \<Rightarrow> (case parse_i64 interval of Some n \<Rightarrow> n \<le> elapsed_minutes | None \<Rightarrow> False)
               | None \<Rightarrow> (case parse_unsigned (2 ^ 32 - 1) minute_field of
                     Some target_minute \<Rightarrow>
                       (case parse_unsigned (2 ^ 32 - 1) (fmt now ''%M'') of Some m \<Rightarrow> m | None \<Rightarrow> 0) = target_minute \<and> 1 \<le> elapsed_minutes
                   | None \<Rightarrow> False)))"

section \<open>CronJobs\<close>

definition new_job_status :: JobStatus where
  "new_job_status = \<lparr> JobStatus_active = 0, JobStatus_succeeded = 0, JobStatus_failed = 0, JobStatus_condition = Job_Running,
     JobStatus_start_time = None, JobStatus_completion_time = None \<rparr>"

definition spawn_job :: "('db, 'v) SlateDb \<Rightarrow> 'v serde \<Rightarrow> (DateTime \<Rightarrow> string \<Rightarrow> string) \<Rightarrow> env \<Rightarrow> string \<Rightarrow> string \<Rightarrow> DateTime \<Rightarrow> CronJob \<Rightarrow>
    (('db, 'v) world, CronJob) act" where
  "spawn_job D C fmt E ns cj_key now cj =
     bindM (draw_uuid E) (\<lambda>job_id.
       let job = \<lparr> Job_id = job_id, Job_name = CronJob_name cj @ ''-'' @ fmt now ''%Y%m%d%H%M%S'', Job_namespace = ns,
             Job_spec = CronJobSpec_job_template (CronJob_spec cj), Job_status = new_job_status,
             Job_owner_ref = Some (CronJob_id cj), Job_created_at = now \<rparr>;
           cj1 = cj\<lparr>CronJob_status := \<lparr> CronJobStatus_last_schedule_time = Some now,
             CronJobStatus_active_jobs = CronJobStatus_active_jobs (CronJob_status cj) @ [job_id] \<rparr>\<rparr>
       in bindM (put_json D (Job_codec C) (jobs_prefix ns @ Job_name job) job) (\<lambda>_.
          bindM (put_json D (CronJob_codec C) cj_key cj1) (\<lambda>_. returnM cj1)))"

text \<open>\<open>store.get(..).await.ok().flatten().and_then(decode).is_some_and(Running)\<close>\<close>

definition job_running :: "('db, 'v) SlateDb \<Rightarrow> 'v serde \<Rightarrow> string \<Rightarrow> string \<Rightarrow> ('db, 'v) world \<Rightarrow> bool" where
  "job_running D C ns job_id w =
     (case fst (store_get D (jobs_prefix ns @ job_id) w) of
        Inr (Some data) \<Rightarrow>
          (case from_slice (Job_codec C) data of Inr job \<Rightarrow> JobStatus_condition (Job_status job) = Job_Running | Inl _ \<Rightarrow> False)
      | _ \<Rightarrow> False)"

definition prune_jobs :: "('db, 'v) SlateDb \<Rightarrow> 'v serde \<Rightarrow> string \<Rightarrow> string \<Rightarrow> CronJob \<Rightarrow> (('db, 'v) world, unit) act" where
  "prune_jobs D C ns cj_key cj =
     bindM (getM (\<lambda>w. filter (\<lambda>job_id. job_running D C ns job_id w) (CronJobStatus_active_jobs (CronJob_status cj)))) (\<lambda>still_active.
       whenM (length still_active \<noteq> length (CronJobStatus_active_jobs (CronJob_status cj)))
         (put_json D (CronJob_codec C) cj_key
           (cj\<lparr>CronJob_status := (CronJob_status cj)\<lparr>CronJobStatus_active_jobs := still_active\<rparr>\<rparr>)))"

definition reconcile_cronjob :: "('db, 'v) SlateDb \<Rightarrow> 'v serde \<Rightarrow> (DateTime \<Rightarrow> string \<Rightarrow> string) \<Rightarrow> env \<Rightarrow> string \<Rightarrow> DateTime \<Rightarrow> string \<Rightarrow> CronJob \<Rightarrow>
    (('db, 'v) world, unit) act" where
  "reconcile_cronjob D C fmt E ns now cj_key cj =
     (if CronJobSpec_suspend (CronJob_spec cj) then returnM ()
      else let should_run = (case CronJobStatus_last_schedule_time (CronJob_status cj) of
                 Some last_run \<Rightarrow> is_schedule_due fmt (CronJobSpec_schedule (CronJob_spec cj)) last_run now
               | None \<Rightarrow> True)
           in bindM (if should_run then spawn_job D C fmt E ns cj_key now cj else returnM cj) (\<lambda>cj. prune_jobs D C ns cj_key cj))"

definition cronjob_reconcile_namespace :: "('db, 'v) SlateDb \<Rightarrow> 'v serde \<Rightarrow> (DateTime \<Rightarrow> string \<Rightarrow> string) \<Rightarrow> env \<Rightarrow> string \<Rightarrow> (('db, 'v) world, unit) act" where
  "cronjob_reconcile_namespace D C fmt E ns =
     bindM (list_prefix D (cronjobs_prefix ns)) (\<lambda>cj_entries.
     bindM (read_clock E) (\<lambda>now.
       forM cj_entries (\<lambda>(cj_key, cj_value).
         case from_slice (CronJob_codec C) cj_value of
           Inl _ \<Rightarrow> returnM ()
         | Inr cj \<Rightarrow> reconcile_cronjob D C fmt E ns now cj_key cj)))"

definition cronjob_reconcile :: "('db, 'v) SlateDb \<Rightarrow> 'v serde \<Rightarrow> (DateTime \<Rightarrow> string \<Rightarrow> string) \<Rightarrow> env \<Rightarrow> (('db, 'v) world, unit) act" where
  "cronjob_reconcile D C fmt E = for_namespaces D (cronjob_reconcile_namespace D C fmt E)"

section \<open>Pods of a job\<close>

definition active_keys_of :: "(string \<rightharpoonup> Pod) \<Rightarrow> string set" where
  "active_keys_of xs = {k. \<exists>p. xs k = Some p \<and> is_active_pod p}"

definition succeeded_keys_of :: "(string \<rightharpoonup> Pod) \<Rightarrow> string set" where
  "succeeded_keys_of xs = {k. \<exists>p. xs k = Some p \<and> Pod_status p = Pod_Succeeded}"

lemma count_pods_map_of:
  assumes "distinct (map fst ps)"
  shows "count_pods P ps = of_nat (card {k. \<exists>p. map_of ps k = Some p \<and> P p})"
proof -
  let ?f = "filter (\<lambda>(_, p). P p) ps"
  have "{k. \<exists>p. map_of ps k = Some p \<and> P p} = fst ` set ?f" using assms by (force simp: map_of_eq_Some_iff image_iff)
  moreover have "card (fst ` set ?f) = length ?f"
    using distinct_card [OF distinct_map_filter [OF assms, of "\<lambda>(_, p). P p"]] by simp
  ultimately show ?thesis by (simp add: count_pods_def)
qed

text \<open>The pods a decision asks for stay within the parallelism and the completions.\<close>

lemma job_decision_bound:
  assumes "job_decision spec st = (c, n)" "unat (JobStatus_active st) = a" "unat (JobStatus_succeeded st) = s" "a + s < 2 ^ 32"
  shows "n = 0 \<or> (a + n \<le> unat (JobSpec_parallelism spec) \<and> a + s + n \<le> unat (JobSpec_completions spec))"
proof (cases "n = 0")
  case False
  let ?a = "JobStatus_active st" and ?s = "JobStatus_succeeded st"
  have 1: "?a < JobSpec_parallelism spec" "?a + ?s < JobSpec_completions spec"
    and n: "n = unat (min (JobSpec_parallelism spec - ?a) (JobSpec_completions spec - ?a - ?s))"
    using assms(1) False by (auto simp: job_decision_def Let_def split: if_splits)
  have as: "unat (?a + ?s) = a + s" using assms(2-4) by (simp add: unat_word_ariths)
  have p: "unat (JobSpec_parallelism spec - ?a) = unat (JobSpec_parallelism spec) - a"
    using 1(1) assms(2) by (simp add: unat_sub_if' word_less_nat_alt)
  have c: "unat (JobSpec_completions spec - ?a - ?s) = unat (JobSpec_completions spec) - (a + s)"
    using 1(2) as by (simp add: diff_diff_eq unat_sub_if' word_less_nat_alt)
  have "n \<le> unat (JobSpec_parallelism spec) - a" "n \<le> unat (JobSpec_completions spec) - (a + s)"
    unfolding n by (auto simp flip: p c simp: min_def word_le_nat_alt)
  then show ?thesis using 1 as assms(2) by (auto simp: word_less_nat_alt)
qed simp

context registry
begin

lemma create_job_pod_ok:
  assumes "create_job_pod D C E ns job nodes w = (Inr pod, w')"
  shows "\<exists>k. entries_in (Pod_codec C) (pods_prefix ns) (lookup w') = (entries_in (Pod_codec C) (pods_prefix ns) (lookup w))(k \<mapsto> pod)"
    and "Pod_owner_ref pod = Some (Job_id job)" and "Pod_status pod \<in> {Pod_Pending, Pod_Scheduled}"
proof -
  obtain w1 k where put: "put_json D (Pod_codec C) (pods_prefix ns @ k) pod w1 = (Inr (), w')"
    and p: "Pod_owner_ref pod = Some (Job_id job)" "Pod_status pod \<in> {Pod_Pending, Pod_Scheduled}" and w1: "lookup w1 = lookup w"
    using assms by (auto simp: create_job_pod_def draw_uuid_def read_clock_def schedule_pod_def assigned_def Let_def action_defs split: prod.splits sum.splits option.splits)
  show "\<exists>k. entries_in (Pod_codec C) (pods_prefix ns) (lookup w') = (entries_in (Pod_codec C) (pods_prefix ns) (lookup w))(k \<mapsto> pod)"
    using put_entries [OF put, of "pods_prefix ns"] by (auto simp: w1)
  show "Pod_owner_ref pod = Some (Job_id job)" "Pod_status pod \<in> {Pod_Pending, Pod_Scheduled}" by fact+
qed

lemma create_job_pods_ok:
  fixes w :: "('db, 'v) world" and job :: Job and ns :: string
  defines "own \<equiv> \<lambda>w :: ('db, 'v) world. owned_by Pod_owner_ref (Job_id job) (entries_in (Pod_codec C) (pods_prefix ns) (lookup w))"
  shows "forM is (\<lambda>_. bindM (create_job_pod D C E ns job nodes) (\<lambda>_. returnM ())) w = (Inr u, w') \<Longrightarrow> finite (dom (own w)) \<Longrightarrow>
    (\<exists>K. finite K \<and> card K \<le> length is \<and> active_keys_of (own w') \<subseteq> active_keys_of (own w) \<union> K \<and>
      succeeded_keys_of (own w') \<subseteq> succeeded_keys_of (own w))"
proof (induction "is" arbitrary: w)
  case Nil
  then show ?case by (auto simp: returnM_Inr intro: exI [of _ "{}"])
next
  case (Cons i "is")
  obtain pod w1 where 1: "create_job_pod D C E ns job nodes w = (Inr pod, w1)"
    and rest: "forM is (\<lambda>_. bindM (create_job_pod D C E ns job nodes) (\<lambda>_. returnM ())) w1 = (Inr u, w')"
    using Cons.prems(1) by (auto simp: bindM_Inr returnM_Inr)
  note p = create_job_pod_ok [OF 1]
  obtain k where k: "own w1 = (own w)(k \<mapsto> pod)" using p(1,2) by (auto simp: own_def owned_by_put)
  have fin1: "finite (dom (own w1))" using Cons.prems(2) unfolding k by simp
  obtain K where K: "finite K" "card K \<le> length is" "active_keys_of (own w') \<subseteq> active_keys_of (own w1) \<union> K"
      "succeeded_keys_of (own w') \<subseteq> succeeded_keys_of (own w1)"
    using Cons.IH [OF rest fin1] by blast
  have "active_keys_of (own w1) \<subseteq> insert k (active_keys_of (own w))" "succeeded_keys_of (own w1) \<subseteq> succeeded_keys_of (own w)"
    using p(3) by (auto simp: k active_keys_of_def succeeded_keys_of_def split: if_splits)
  then show ?case using K card_insert_le_m1 [of "Suc (length is)" K k]
    by (intro exI [of _ "insert k K"]) (auto simp: card_insert_if)
qed

lemma finish_job_other:
  assumes "finish_job D C E job_key job w = (Inr u, w')" "\<not> prefix p job_key"
  shows "entries_in (Pod_codec C) p (lookup w') = entries_in (Pod_codec C) p (lookup w)"
proof (cases "JobStatus_condition (Job_status job) = Job_Complete")
  case True
  with assms(1) obtain x w0 where "put_json D (Job_codec C) job_key x w0 = (Inr (), w')" "lookup w0 = lookup w"
    by (auto simp: finish_job_def bindM_def read_clock_def)
  then show ?thesis using put_entries_other [OF _ assms(2)] by metis
next
  case False
  then show ?thesis using assms(1) put_entries_other [OF _ assms(2)] by (auto simp: finish_job_def)
qed

lemma reconcile_job_ok:
  assumes run: "reconcile_job D C E ns nodes job_key job w = (Inr u, w')" and jk: "prefix (jobs_prefix ns) job_key"
  defines "own \<equiv> \<lambda>w :: ('db, 'v) world. owned_by Pod_owner_ref (Job_id job) (entries_in (Pod_codec C) (pods_prefix ns) (lookup w))"
  defines "a \<equiv> \<lambda>w. card (active_keys_of (own w))" and "s \<equiv> \<lambda>w. card (succeeded_keys_of (own w))"
  assumes small: "a w + s w < 2 ^ 32" and fin: "finite (dom (own w))"
  shows "a w' \<le> max (a w) (unat (JobSpec_parallelism (Job_spec job)))"
    and "a w' + s w' \<le> max (a w + s w) (unat (JobSpec_completions (Job_spec job)))"
proof -
  have sub: "active_keys_of (own w) \<subseteq> dom (own w)" "succeeded_keys_of (own w) \<subseteq> dom (own w)"
    by (auto simp: active_keys_of_def succeeded_keys_of_def)
  have "a w' \<le> max (a w) (unat (JobSpec_parallelism (Job_spec job))) \<and> a w' + s w' \<le> max (a w + s w) (unat (JobSpec_completions (Job_spec job)))"
  proof (cases "JobStatus_condition (Job_status job) = Job_Complete \<or> JobStatus_condition (Job_status job) = Job_Failed")
    case True
    then have "w' = w" using run by (auto simp: reconcile_job_def returnM_Inr)
    then show ?thesis by simp
  next
    case False
    obtain start w0 where st: "(case JobStatus_start_time (Job_status job) of Some t \<Rightarrow> returnM t | None \<Rightarrow> read_clock E) w = (Inr start, w0)" and w0: "own w0 = own w"
      by (cases "JobStatus_start_time (Job_status job)") (auto simp: returnM_def read_clock_def own_def)
    obtain kvs where l: "list_prefix D (pods_prefix ns) w0 = (Inr kvs, w0)"
      using run False st by (auto simp: reconcile_job_def bindM_Inr list_prefix_iff)
    note o = listed_owned [OF l, where c = "Pod_codec C" and i = "Job_id job"]
    define st1 where "st1 = (Job_status job)\<lparr>JobStatus_start_time := Some start,
        JobStatus_active := count_pods is_active_pod (owned_pods (Pod_codec C) (Job_id job) kvs),
        JobStatus_succeeded := count_pods (\<lambda>p. Pod_status p = Pod_Succeeded) (owned_pods (Pod_codec C) (Job_id job) kvs),
        JobStatus_failed := count_pods (\<lambda>p. Pod_status p = Pod_Failed) (owned_pods (Pod_codec C) (Job_id job) kvs)\<rparr>"
    obtain c n where dec: "job_decision (Job_spec job) st1 = (c, n)" by (cases "job_decision (Job_spec job) st1")
    let ?job = "job\<lparr>Job_status := st1\<lparr>JobStatus_condition := c\<rparr>\<rparr>"
    obtain w1 where cr: "forM [0..<n] (\<lambda>_. bindM (create_job_pod D C E ns ?job nodes) (\<lambda>_. returnM ())) w0 = (Inr (), w1)"
      and put: "finish_job D C E job_key ?job w1 = (Inr (), w')"
      using run False dec unfolding reconcile_job_def
      by (auto simp: bindM_step [of "case JobStatus_start_time (Job_status job) of Some t \<Rightarrow> returnM t | None \<Rightarrow> read_clock E", OF st] bindM_step [of "list_prefix D (pods_prefix ns)", OF l]
          Let_def st1_def bindM_Inr)
    have "\<not> prefix (pods_prefix ns) job_key" using jk by (auto simp: key_defs prefix_def)
    from finish_job_other [OF put this] have w': "own w' = own w1" by (simp add: own_def)
    have cnt: "unat (JobStatus_active st1) = a w" "unat (JobStatus_succeeded st1) = s w"
      using small by (auto simp: st1_def count_pods_map_of [OF o(2)] o(1) unat_of_nat a_def s_def active_keys_of_def succeeded_keys_of_def w0 [unfolded own_def] own_def take_bit_nat_eq_self)
    obtain K where K: "finite K" "card K \<le> n" "active_keys_of (own w1) \<subseteq> active_keys_of (own w) \<union> K" "succeeded_keys_of (own w1) \<subseteq> succeeded_keys_of (own w)"
      using create_job_pods_ok [OF cr] fin w0 by (auto simp: own_def)
    have f: "finite (active_keys_of (own w))" "finite (succeeded_keys_of (own w))" using finite_subset [OF _ fin] sub by blast+
    have "a w' \<le> a w + n" unfolding a_def w' using card_mono [OF _ K(3)] card_Un_le [of "active_keys_of (own w)" K] K(1,2) f by (simp add: order.trans)
    moreover have "s w' \<le> s w" unfolding s_def w' by (rule card_mono [OF f(2) K(4)])
    ultimately show ?thesis using job_decision_bound [OF dec cnt small] by auto
  qed
  then show "a w' \<le> max (a w) (unat (JobSpec_parallelism (Job_spec job)))"
    "a w' + s w' \<le> max (a w + s w) (unat (JobSpec_completions (Job_spec job)))" by blast+
qed

text \<open>
  The list of active jobs holds job ids, jobs are stored under their names: when no running job is stored under
  the spawned job's id, or under one of the ids already listed, the list a pass stores is empty.
\<close>

lemma prune_jobs_empty:
  assumes run: "prune_jobs D C ns cj_key cj w = (Inr u, w')" and key: "prefix p cj_key"
    and stored: "entries_in (CronJob_codec C) p (lookup w) cj_key = Some cj"
    and none: "\<And>i job. i \<in> set (CronJobStatus_active_jobs (CronJob_status cj)) \<Longrightarrow>
      entries_in (Job_codec C) (jobs_prefix ns) (lookup w) (jobs_prefix ns @ i) = Some job \<Longrightarrow> JobStatus_condition (Job_status job) \<noteq> Job_Running"
  shows "entries_in (CronJob_codec C) p (lookup w') cj_key =
    Some (cj\<lparr>CronJob_status := (CronJob_status cj)\<lparr>CronJobStatus_active_jobs := []\<rparr>\<rparr>)"
proof -
  have no: "\<not> job_running D C ns i w" if "i \<in> set (CronJobStatus_active_jobs (CronJob_status cj))" for i
  proof (cases "fst (store_get D (jobs_prefix ns @ i) w)")
    case (Inr r)
    then have "r = lookup w (jobs_prefix ns @ i)" using store_get_ok [of "jobs_prefix ns @ i" w r w] by (simp add: store_get_iff)
    then show ?thesis using none [OF that] Inr by (auto simp: job_running_def entries_in_Some split: option.splits sum.splits)
  qed (simp add: job_running_def)
  then have f: "filter (\<lambda>i. job_running D C ns i w) (CronJobStatus_active_jobs (CronJob_status cj)) = []" by (simp add: filter_empty_conv)
  show ?thesis
  proof (cases "CronJobStatus_active_jobs (CronJob_status cj) = []")
    case True
    then have "w' = w" using run f by (simp add: prune_jobs_def bindM_def getM_def whenM_def returnM_Inr)
    then show ?thesis using stored True by simp
  next
    case False
    then have "put_json D (CronJob_codec C) cj_key (cj\<lparr>CronJob_status := (CronJob_status cj)\<lparr>CronJobStatus_active_jobs := []\<rparr>\<rparr>) w = (Inr u, w')"
      using run f by (simp add: prune_jobs_def bindM_def getM_def whenM_def)
    from put_entries [OF this, of p] key show ?thesis by simp
  qed
qed

end

text \<open>C22: a completed pass over a job never leaves more active pods than its parallelism, nor more active and
  succeeded pods together than its completions, unless there were more before.\<close>

theorem job_within_limits:
  fixes D :: "('db, 'v) SlateDb" and w :: "('db, 'v) world"
  assumes "registry D content C" and "reconcile_job D C E ns nodes job_key job w = (Inr (), w')" and "prefix (jobs_prefix ns) job_key"
  defines "own \<equiv> \<lambda>w :: ('db, 'v) world. owned_by Pod_owner_ref (Job_id job) (entries_in (Pod_codec C) (pods_prefix ns) (content (StateStore_db w)))"
  defines "a \<equiv> \<lambda>w. card (active_keys_of (own w))" and "s \<equiv> \<lambda>w. card (succeeded_keys_of (own w))"
  assumes "a w + s w < 2 ^ 32" and "finite (dom (own w))"
  shows "a w' \<le> max (a w) (unat (JobSpec_parallelism (Job_spec job))) \<and>
    a w' + s w' \<le> max (a w + s w) (unat (JobSpec_completions (Job_spec job)))"
  unfolding a_def s_def own_def
  by (intro conjI registry.reconcile_job_ok [OF assms(1-3)] assms(7,8) [unfolded a_def s_def own_def])

text \<open>A job of three completions, two at a time, with one pod that has succeeded.\<close>

definition sum_job :: Job where
  "sum_job = \<lparr> Job_id = ''j1'', Job_name = ''sum'', Job_namespace = ''default'',
     Job_spec = \<lparr> JobSpec_template = empty_spec, JobSpec_completions = 3, JobSpec_parallelism = 2, JobSpec_backoff_limit = 6 \<rparr>,
     Job_status = new_job_status, Job_owner_ref = None, Job_created_at = 0 \<rparr>"

definition sum_world :: "((string \<times> json) list, json) world" where
  "sum_world = \<lparr> StateStore_db = [(''/registry/pods/default/sum-0'', V_Pod ((sample_pod ''sum-0'')\<lparr>Pod_owner_ref := Some ''j1'', Pod_status := Pod_Succeeded\<rparr>))],
     StateStore_event_log = EventLog_new 16, rr_index = 0, uuid_draws = 0, clock_reads = 0 \<rparr>"

definition sum_pass :: "unit result \<times> ((string \<times> json) list, json) world" where
  "sum_pass = reconcile_job mem_slatedb tag_serde \<lparr> new_v4 = (\<lambda>i. replicate 8 (char_of (65 + i))), utc_now = int \<rparr> ''default'' [sample_node ''n1'']
     ''/registry/jobs/default/sum'' sum_job sum_world"

lemma sum_pass_run: "fst sum_pass = Inr ()"
  unfolding sum_pass_def reconcile_job_def finish_job_def create_job_pod_def Let_def tag_serde_def serde.select_convs
  by (intro succeeds_unit succeeds_intro)

theorem job_within_limits_witness:
  "fst sum_pass = Inr () \<and>
   card (active_keys_of (owned_by Pod_owner_ref ''j1'' (entries_in (Pod_codec tag_serde) (pods_prefix ''default'') (map_of (StateStore_db (snd sum_pass)))))) \<le> 2"
proof -
  let ?own = "\<lambda>w. owned_by Pod_owner_ref ''j1'' (entries_in (Pod_codec tag_serde) (pods_prefix ''default'') (map_of (StateStore_db w)))"
  have run: "reconcile_job mem_slatedb tag_serde \<lparr> new_v4 = (\<lambda>i. replicate 8 (char_of (65 + i))), utc_now = int \<rparr> ''default'' [sample_node ''n1'']
      ''/registry/jobs/default/sum'' sum_job sum_world = (Inr (), snd sum_pass)" using sum_pass_run by (metis prod.collapse sum_pass_def)
  have p: "prefix (jobs_prefix ''default'') ''/registry/jobs/default/sum''" by (simp add: key_defs)
  have f: "Job_id sum_job = ''j1''" "JobSpec_parallelism (Job_spec sum_job) = 2" by (simp_all add: sum_job_def)
  have own: "?own sum_world = [''/registry/pods/default/sum-0'' \<mapsto> (sample_pod ''sum-0'')\<lparr>Pod_owner_ref := Some ''j1'', Pod_status := Pod_Succeeded\<rparr>]"
    by (auto simp: fun_eq_iff owned_by_def entries_in_def sum_world_def key_defs tag_serde_def tag_codec_def ok_or_def)
  have act: "active_keys_of (?own sum_world) = {}" "succeeded_keys_of (?own sum_world) = {''/registry/pods/default/sum-0''}"
    unfolding own by (auto simp: active_keys_of_def succeeded_keys_of_def is_active_pod_def)
  have small: "card (active_keys_of (?own sum_world)) + card (succeeded_keys_of (?own sum_world)) < 2 ^ 32" unfolding act by simp
  have fin: "finite (dom (?own sum_world))" unfolding own by simp
  have "card (active_keys_of (?own (snd sum_pass))) \<le> max (card (active_keys_of (?own sum_world))) (unat (2 :: u32))"
    using conjunct1 [OF job_within_limits [OF memreg.registry_axioms run p, unfolded f, OF small fin]] .
  then show ?thesis using sum_pass_run by (simp add: act)
qed

end
