(* ===== verification/Api_Base.thy ===== *)
theory Api_Base
  imports Controller_Base
begin

text \<open>
  What the handlers of the API server (\<open>pkg/api\<close>) share: HTTP answers, the listing that falls back to
  no entries when the store fails (\<open>list_prefix(..).await.unwrap_or_default()\<close>), and the step that
  encodes and writes a resource and answers with it; the authentication middlewares (\<open>auth.rs\<close>).
  A handler is an action on the world whose value is the answer. It handles the errors of the store
  itself, so its own error value stands for not answering at all.
\<close>

section \<open>Answers\<close>

datatype StatusCode = OK | CREATED | NO_CONTENT | BAD_REQUEST | UNAUTHORIZED | FORBIDDEN | NOT_FOUND | CONFLICT
  | INTERNAL_SERVER_ERROR | NOT_IMPLEMENTED | SERVICE_UNAVAILABLE

datatype 'a body = Json 'a | Text string | Empty

type_synonym 'a response = "StatusCode \<times> 'a body"

definition unwrap_or_default :: "'a list result \<Rightarrow> 'a list" where
  "unwrap_or_default r = (case r of Inl _ \<Rightarrow> [] | Inr xs \<Rightarrow> xs)"

section \<open>Steps\<close>

definition list_values :: "('db, 'v) SlateDb \<Rightarrow> ('v, 'a) codec \<Rightarrow> string \<Rightarrow> (('db, 'v) world, 'a list) act" where
  "list_values D c p = bindM (tryM (list_prefix D p)) (\<lambda>entries. returnM (decoded_values c (unwrap_or_default entries)))"

definition persist :: "('db, 'v) SlateDb \<Rightarrow> ('v, 'a) codec \<Rightarrow> string \<Rightarrow> 'a \<Rightarrow> StatusCode \<Rightarrow> 'a body \<Rightarrow> 'a body \<Rightarrow>
    (('db, 'v) world, 'a response) act" where
  "persist D c key x success put_failed encode_failed =
     (case to_vec c x of
        Inl _ \<Rightarrow> returnM (INTERNAL_SERVER_ERROR, encode_failed)
      | Inr data \<Rightarrow> bindM (tryM (store_put D key data)) (\<lambda>r. case r of
          Inl _ \<Rightarrow> returnM (INTERNAL_SERVER_ERROR, put_failed)
        | Inr _ \<Rightarrow> returnM (success, Json x)))"

text \<open>Listing a prefix and answering with what decodes: the body of every list handler.\<close>

definition list_response :: "('db, 'v) SlateDb \<Rightarrow> ('v, 'a) codec \<Rightarrow> string \<Rightarrow> (('db, 'v) world, 'a list response) act" where
  "list_response D c p = bindM (list_values D c p) (\<lambda>xs. returnM (OK, Json xs))"

text \<open>Reading, changing and writing back a resource under its key.\<close>

definition read_modify :: "('db, 'v) SlateDb \<Rightarrow> ('v, 'a) codec \<Rightarrow> string \<Rightarrow> ('a \<Rightarrow> 'a) \<Rightarrow> (('db, 'v) world, 'a response) act" where
  "read_modify D c key f =
     bindM (tryM (store_get D key)) (\<lambda>found. case found of
         Inr (Some data) \<Rightarrow>
           (case from_slice c data of
              Inr x \<Rightarrow> persist D c key (f x) OK Empty Empty
            | Inl _ \<Rightarrow> returnM (INTERNAL_SERVER_ERROR, Empty))
       | Inr None \<Rightarrow> returnM (NOT_FOUND, Empty)
       | Inl _ \<Rightarrow> returnM (INTERNAL_SERVER_ERROR, Empty))"

section \<open>Authentication\<close>

record AuthUser =
  AuthUser_name :: string
  AuthUser_token :: string

definition bearer :: string where "bearer = ''Bearer ''"

text \<open>\<open>str::trim_start_matches\<close>: the prefix is taken off as often as it occurs.\<close>

function trim_start_matches :: "string \<Rightarrow> string \<Rightarrow> string" where
  "trim_start_matches pat s = (if pat \<noteq> [] \<and> prefix pat s then trim_start_matches pat (drop (length pat) s) else s)"
  by pat_completeness auto
termination by (relation "measure (\<lambda>(pat, s). length s)") (auto simp: prefix_def)

declare trim_start_matches.simps [simp del]

text \<open>
  \<open>header\<close> is the Authorization header, its value \<open>Inl\<close> when it is not visible ASCII. The result is
  the user added to the request that the next layer runs on, or the status that ends it.
\<close>

definition auth_middleware :: "string \<Rightarrow> string result option \<Rightarrow> StatusCode + AuthUser" where
  "auth_middleware join_token header =
     (case header of
        None \<Rightarrow> Inl UNAUTHORIZED
      | Some (Inl _) \<Rightarrow> Inl UNAUTHORIZED
      | Some (Inr value_str) \<Rightarrow>
          if \<not> prefix bearer value_str then Inl UNAUTHORIZED
          else let token = trim_start_matches bearer value_str
               in if token = join_token then Inr \<lparr> AuthUser_name = ''admin'', AuthUser_token = token \<rparr> else Inl UNAUTHORIZED)"

datatype Method = GET | POST | PUT | PATCH | DELETE | OTHER

definition action_from_method :: "Method \<Rightarrow> string" where
  "action_from_method m = (case m of GET \<Rightarrow> ''get'' | POST \<Rightarrow> ''create'' | PUT \<Rightarrow> ''update'' | PATCH \<Rightarrow> ''update'' | DELETE \<Rightarrow> ''delete'' | OTHER \<Rightarrow> [])"

definition resource_from_path :: "string \<Rightarrow> string" where
  "resource_from_path path =
     (let parts = split_on (CHR ''/'') path
      in if 4 \<le> length parts \<and> parts ! 1 = ''api'' \<and> parts ! 2 = ''v1'' then
           (if 6 \<le> length parts then parts ! 5 else parts ! 3)
         else ''*'')"

text \<open>The action and the resource only go to the log: the decision is on the name.\<close>

definition rbac_middleware :: "AuthUser option \<Rightarrow> StatusCode + unit" where
  "rbac_middleware user =
     (case user of
        None \<Rightarrow> Inl UNAUTHORIZED
      | Some u \<Rightarrow> if AuthUser_name u = ''admin'' then Inr () else Inl FORBIDDEN)"

text \<open>The guard that closes the protected routes while a restore runs.\<close>

definition restore_guard_middleware :: "bool \<Rightarrow> string \<Rightarrow> ('s, 'a response) act \<Rightarrow> ('s, 'a response) act" where
  "restore_guard_middleware restore_in_progress path next_layer =
     (if restore_in_progress \<and> \<not> contains path ''/restore'' then returnM (SERVICE_UNAVAILABLE, Text ''cluster restore in progress'') else next_layer)"

text \<open>A request to a protected route: the three layers, then the handler.\<close>

definition protected :: "string \<Rightarrow> string result option \<Rightarrow> bool \<Rightarrow> string \<Rightarrow> ('s, 'a response) act \<Rightarrow> ('s, 'a response) act" where
  "protected join_token header restore_in_progress path handler =
     (case auth_middleware join_token header of
        Inl st \<Rightarrow> returnM (st, Empty)
      | Inr user \<Rightarrow> (case rbac_middleware (Some user) of
          Inl st \<Rightarrow> returnM (st, Empty)
        | Inr _ \<Rightarrow> restore_guard_middleware restore_in_progress path handler))"

section \<open>Lemmas\<close>

lemma bindM_try: "bindM (tryM m) f s = f (fst (m s)) (snd (m s))"
  by (simp add: bindM_def tryM_def)

lemma bindM_ignore: "bindM (ignoreM m) f s = f () (snd (m s))"
  by (simp add: bindM_def ignoreM_def)

lemma bindM_clock: "bindM (read_clock E) f w = f (utc_now E (clock_reads w)) (w\<lparr>clock_reads := Suc (clock_reads w)\<rparr>)"
  by (simp add: bindM_def read_clock_def)

lemma list_values_state: "list_values D c p w = (r, w') \<Longrightarrow> w' = w"
  by (auto simp: list_values_def bindM_def tryM_def returnM_def)

context registry
begin

lemma list_values_ok:
  assumes "list_prefix D p w = (Inr kvs, w)"
  shows "list_values D c p w = (Inr (decoded_values c kvs), w)"
    and "x \<in> set (decoded_values c kvs) \<longleftrightarrow> (\<exists>k. entries_in c p (lookup w) k = Some x)"
proof -
  show "list_values D c p w = (Inr (decoded_values c kvs), w)"
    using assms by (simp add: list_values_def bindM_def tryM_def returnM_def unwrap_or_default_def)
  show "x \<in> set (decoded_values c kvs) \<longleftrightarrow> (\<exists>k. entries_in c p (lookup w) k = Some x)"
    using list_entries(1) [OF assms, where c = c] by (force simp: decoded_values_def image_iff)
qed

lemma tried_get: "fst (store_get D k w) = Inr r \<Longrightarrow> lookup w k = r"
  using store_get_ok [of k w r] by (metis prod.collapse)

text \<open>Writing: the entry has the new value, or nothing changed; the success code means the first.\<close>

lemma persist_ok:
  assumes "persist D c key x success put_failed encode_failed w = (r, w')" and c: "codec_ok c"
  shows "(\<exists>v. from_slice c v = Inr x \<and> lookup w' = (lookup w)(key \<mapsto> v)) \<or> lookup w' = lookup w"
    and "r = Inr (success, Json x) \<and> (\<exists>v. from_slice c v = Inr x \<and> lookup w' = (lookup w)(key \<mapsto> v)) \<or>
      r = Inr (INTERNAL_SERVER_ERROR, put_failed) \<or> r = Inr (INTERNAL_SERVER_ERROR, encode_failed)"
    and "uuid_draws w' = uuid_draws w"
proof -
  consider (enc) e where "to_vec c x = Inl e" | (put) v where "to_vec c x = Inr v" by (cases "to_vec c x")
  then have "((\<exists>v. from_slice c v = Inr x \<and> lookup w' = (lookup w)(key \<mapsto> v)) \<or> lookup w' = lookup w) \<and>
    (r = Inr (success, Json x) \<and> (\<exists>v. from_slice c v = Inr x \<and> lookup w' = (lookup w)(key \<mapsto> v)) \<or>
      r = Inr (INTERNAL_SERVER_ERROR, put_failed) \<or> r = Inr (INTERNAL_SERVER_ERROR, encode_failed)) \<and>
    StateStore.more w' = StateStore.more w"
  proof cases
    case enc
    then show ?thesis using assms(1) by (auto simp: persist_def returnM_def)
  next
    case (put v)
    have x: "from_slice c v = Inr x" using c put by (rule codec_okD)
    show ?thesis
    proof (cases "store_put D key v w")
      case (Pair q w1)
      then show ?thesis
        using assms(1) put x store_put_ok [of key v w _ w'] store_put_err [of key v w _ w']
        by (cases q) (auto simp: persist_def bindM_def tryM_def returnM_def)
    qed
  qed
  note 1 = conjunct1 [OF this] conjunct1 [OF conjunct2 [OF this]] conjunct2 [OF conjunct2 [OF this]]
  from 1(1) show "(\<exists>v. from_slice c v = Inr x \<and> lookup w' = (lookup w)(key \<mapsto> v)) \<or> lookup w' = lookup w" .
  from 1(2) show "r = Inr (success, Json x) \<and> (\<exists>v. from_slice c v = Inr x \<and> lookup w' = (lookup w)(key \<mapsto> v)) \<or>
      r = Inr (INTERNAL_SERVER_ERROR, put_failed) \<or> r = Inr (INTERNAL_SERVER_ERROR, encode_failed)" .
  from world_more [OF 1(3)] show "uuid_draws w' = uuid_draws w" by simp
qed

lemma persist_entries:
  assumes "persist D c key x success put_failed encode_failed w = (r, w')" "codec_ok c"
  shows "entries_in c p (lookup w') = (if prefix p key then (entries_in c p (lookup w))(key \<mapsto> x) else entries_in c p (lookup w)) \<or>
      lookup w' = lookup w"
    and "r = Inr (success, b) \<Longrightarrow> success \<noteq> INTERNAL_SERVER_ERROR \<Longrightarrow>
      b = Json x \<and> entries_in c p (lookup w') = (if prefix p key then (entries_in c p (lookup w))(key \<mapsto> x) else entries_in c p (lookup w))"
    and "k \<noteq> key \<Longrightarrow> lookup w' k = lookup w k"
  using persist_ok(1,2) [OF assms] by (auto simp: entries_in_put)

end

section \<open>A store that works\<close>

text \<open>No operation of the database fails.\<close>

definition reliable :: "('db, 'v) SlateDb \<Rightarrow> bool" where
  "reliable D \<longleftrightarrow> (\<forall>db k v. \<exists>db'. db_put D db k v = (Inr (), db')) \<and> (\<forall>db k. \<exists>r. db_get D db k = Inr r) \<and>
     (\<forall>db k. \<exists>db'. db_delete D db k = (Inr (), db')) \<and> (\<forall>db p. \<exists>kvs. db_scan_prefix D db p = Inr (map Inr kvs))"

lemma reliable_mem: "reliable mem_slatedb"
  by (auto simp: reliable_def mem_slatedb_def)

lemma reliable_runs:
  assumes "reliable D"
  shows "\<exists>kvs. list_prefix D p w = (Inr kvs, w)" and "\<exists>w'. store_put D k v w = (Inr (), w')"
    and "\<exists>w'. store_delete D k w = (Inr (), w')" and "\<exists>r. store_get D k w = (Inr r, w)"
proof -
  show "\<exists>kvs. list_prefix D p w = (Inr kvs, w)"
  proof -
    obtain kvs where "db_scan_prefix D (StateStore_db w) p = Inr (map Inr kvs)" using assms unfolding reliable_def by blast
    then show ?thesis by (simp add: list_prefix_def)
  qed
  show "\<exists>w'. store_put D k v w = (Inr (), w')"
  proof -
    obtain db' where "db_put D (StateStore_db w) k v = (Inr (), db')" using assms unfolding reliable_def by blast
    then show ?thesis by (simp add: store_put_def)
  qed
  show "\<exists>w'. store_delete D k w = (Inr (), w')"
  proof -
    obtain db' where "db_delete D (StateStore_db w) k = (Inr (), db')" using assms unfolding reliable_def by blast
    then show ?thesis by (simp add: store_delete_def)
  qed
  show "\<exists>r. store_get D k w = (Inr r, w)"
  proof -
    obtain r where "db_get D (StateStore_db w) k = Inr r" using assms unfolding reliable_def by blast
    then show ?thesis by (simp add: store_get_def split: option.split)
  qed
qed

section \<open>Authentication\<close>

lemma trim_start_matches_replicate:
  assumes "pat \<noteq> []" "\<not> prefix pat t"
  shows "trim_start_matches pat (concat (replicate n pat) @ t) = t"
  using assms by (induction n) (simp_all add: trim_start_matches.simps)

lemma trim_start_matches_split:
  "pat \<noteq> [] \<Longrightarrow> \<exists>n. s = concat (replicate n pat) @ trim_start_matches pat s \<and> \<not> prefix pat (trim_start_matches pat s)"
proof (induction pat s rule: trim_start_matches.induct)
  case (1 pat s)
  show ?case
  proof (cases "prefix pat s")
    case True
    then obtain t where s: "s = pat @ t" by (auto simp: prefix_def)
    with 1 True obtain n where "t = concat (replicate n pat) @ trim_start_matches pat t" "\<not> prefix pat (trim_start_matches pat t)" by auto
    moreover have "trim_start_matches pat s = trim_start_matches pat t" using 1(2) by (subst trim_start_matches.simps) (simp add: s)
    ultimately show ?thesis by (intro exI [of _ "Suc n"]) (auto simp: s)
  next
    case False
    then show ?thesis by (intro exI [of _ 0]) (simp add: trim_start_matches.simps)
  qed
qed

text \<open>C27: a protected route runs its handler exactly for requests whose Authorization header is the join
  token after one or more \<open>Bearer\<close> prefixes, where the token does not itself start with that prefix,
  and, while a restore runs, only if the path contains \<open>/restore\<close>; without the token the answer is
  401, with it but during a restore 503, and neither changes the state.\<close>

theorem protected_needs_token:
  "protected join_token header restore_in_progress path handler =
     (if \<not> prefix bearer join_token \<and> (\<exists>n. header = Some (Inr (concat (replicate (Suc n) bearer) @ join_token)))
      then if restore_in_progress \<and> \<not> contains path ''/restore'' then returnM (SERVICE_UNAVAILABLE, Text ''cluster restore in progress'') else handler
      else returnM (UNAUTHORIZED, Empty))"
proof (cases "\<exists>user. auth_middleware join_token header = Inr user")
  case True
  then obtain value_str where h: "header = Some (Inr value_str)" "prefix bearer value_str" "trim_start_matches bearer value_str = join_token"
    by (auto simp: auth_middleware_def Let_def split: option.splits sum.splits if_splits)
  have "bearer \<noteq> []" by (simp add: bearer_def)
  then obtain n where n: "value_str = concat (replicate n bearer) @ join_token" "\<not> prefix bearer join_token"
    using trim_start_matches_split [of bearer value_str] h(3) by auto
  then obtain m where "n = Suc m" using h(2) by (cases n) auto
  then have "\<not> prefix bearer join_token \<and> (\<exists>n. header = Some (Inr (concat (replicate (Suc n) bearer) @ join_token)))" using n h(1) by blast
  moreover have "protected join_token header restore_in_progress path handler = restore_guard_middleware restore_in_progress path handler"
    using h by (simp add: protected_def auth_middleware_def rbac_middleware_def)
  ultimately show ?thesis by (simp add: restore_guard_middleware_def)
next
  case False
  then have "auth_middleware join_token header = Inl UNAUTHORIZED"
    by (auto simp: auth_middleware_def Let_def split: option.splits sum.splits if_splits)
  then have "protected join_token header restore_in_progress path handler = returnM (UNAUTHORIZED, Empty)" by (simp add: protected_def)
  moreover have "auth_middleware join_token (Some (Inr (concat (replicate (Suc n) bearer) @ join_token))) = Inr \<lparr> AuthUser_name = ''admin'', AuthUser_token = join_token \<rparr>"
    if "\<not> prefix bearer join_token" for n
  proof -
    have "trim_start_matches bearer (concat (replicate (Suc n) bearer) @ join_token) = join_token"
      by (rule trim_start_matches_replicate [OF _ that]) (simp add: bearer_def)
    then show ?thesis by (simp add: auth_middleware_def)
  qed
  ultimately show ?thesis using False by auto
qed

end
