(* ===== verification/Vpc_Api.thy ===== *)
theory Vpc_Api
  imports Api_Base Cidr
begin

text \<open>
  The VPC handlers of the API server (\<open>pkg/api/src/handlers/vpc.rs\<close>). Creating a VPC gives it an id
  and refuses an address range that overlaps an existing one; deleting marks it Terminating; a
  peering needs both its VPCs. The lemmas show that these handlers keep the VPCs of the registry
  apart: their ids differ, none is the id 0 of the infrastructure, and their ranges are disjoint.
\<close>

section \<open>Creating a VPC\<close>

definition vpcs_prefix :: string where "vpcs_prefix = ''/registry/vpcs/''"
definition vpc_peerings_prefix :: string where "vpc_peerings_prefix = ''/registry/vpc-peerings/''"

definition VPC_DELETION_COOLDOWN :: int where "VPC_DELETION_COOLDOWN = secs 300"

definition reserved_ids :: "DateTime \<Rightarrow> Vpc list \<Rightarrow> u16 list" where
  "reserved_ids now existing = map Vpc_vpc_id (filter (\<lambda>v. Vpc_status v = Vpc_Deleted \<and>
     (case Vpc_deleted_at v of None \<Rightarrow> False | Some d \<Rightarrow> now - d < VPC_DELETION_COOLDOWN)) existing)"

definition max_id :: "Vpc list \<Rightarrow> u16" where
  "max_id existing = (if existing = [] then 0 else Max (set (map Vpc_vpc_id existing)))"

text \<open>The loop that skips reserved ids: additions wrap at 16 bits, and it has no end when all are reserved.\<close>

partial_function (option) skip_reserved :: "u16 list \<Rightarrow> u16 \<Rightarrow> u16 option" where
  "skip_reserved reserved next_id = (if next_id \<in> set reserved then skip_reserved reserved (next_id + 1) else Some next_id)"

definition overlap_msg :: "Vpc \<Rightarrow> Vpc \<Rightarrow> string" where
  "overlap_msg vpc existing = ''CIDR '' @ Vpc_ipv4_cidr vpc @ '' overlaps with VPC '' @ [CHR 0x27] @ Vpc_name existing @ [CHR 0x27] @
     '' ('' @ Vpc_ipv4_cidr existing @ '')''"

text \<open>The error value of the action is the loop that does not end; every other path answers.\<close>

definition create_vpc :: "('db, 'v) SlateDb \<Rightarrow> 'v serde \<Rightarrow> env \<Rightarrow> Vpc \<Rightarrow> (('db, 'v) world, Vpc response) act" where
  "create_vpc D C E vpc =
     (if parse_cidr (Vpc_ipv4_cidr vpc) = None then returnM (BAD_REQUEST, Text ''Invalid CIDR format'')
      else bindM (list_values D (Vpc_codec C) vpcs_prefix) (\<lambda>existing_vpcs.
        case find (\<lambda>existing. cidrs_overlap (Vpc_ipv4_cidr vpc) (Vpc_ipv4_cidr existing)) existing_vpcs of
          Some existing \<Rightarrow> returnM (CONFLICT, Text (overlap_msg vpc existing))
        | None \<Rightarrow>
            bindM (read_clock E) (\<lambda>now.
            bindM (liftR (ok_or (skip_reserved (reserved_ids now existing_vpcs) (max_id existing_vpcs + 1)) ''no end'')) (\<lambda>next_id.
            bindM (read_clock E) (\<lambda>created.
              let vpc = vpc\<lparr>Vpc_vpc_id := next_id, Vpc_status := Vpc_Active, Vpc_created_at := created, Vpc_deleted_at := None\<rparr>
              in persist D (Vpc_codec C) (vpcs_prefix @ Vpc_name vpc) vpc CREATED (Text ''Failed to create VPC'') (Text ''Serialization failed''))))))"

section \<open>The other handlers\<close>

definition list_vpcs :: "('db, 'v) SlateDb \<Rightarrow> 'v serde \<Rightarrow> (('db, 'v) world, Vpc list response) act" where
  "list_vpcs D C = list_response D (Vpc_codec C) vpcs_prefix"

definition get_vpc :: "('db, 'v) SlateDb \<Rightarrow> 'v serde \<Rightarrow> string \<Rightarrow> (('db, 'v) world, Vpc response) act" where
  "get_vpc D C name =
     bindM (tryM (store_get D (vpcs_prefix @ name))) (\<lambda>found. returnM (case found of
         Inr (Some data) \<Rightarrow> (case from_slice (Vpc_codec C) data of
             Inr vpc \<Rightarrow> (OK, Json vpc) | Inl _ \<Rightarrow> (INTERNAL_SERVER_ERROR, Text ''Deserialization failed''))
       | Inr None \<Rightarrow> (NOT_FOUND, Text ''VPC not found'')
       | Inl _ \<Rightarrow> (INTERNAL_SERVER_ERROR, Text ''Store error'')))"

definition delete_vpc :: "('db, 'v) SlateDb \<Rightarrow> 'v serde \<Rightarrow> string \<Rightarrow> (('db, 'v) world, Vpc response) act" where
  "delete_vpc D C name =
     (if name = ''default'' then returnM (BAD_REQUEST, Text ''Cannot delete the default VPC'')
      else bindM (tryM (store_get D (vpcs_prefix @ name))) (\<lambda>found. case found of
         Inr (Some data) \<Rightarrow>
           (case from_slice (Vpc_codec C) data of
              Inl _ \<Rightarrow> returnM (INTERNAL_SERVER_ERROR, Text ''Deserialization failed'')
            | Inr vpc \<Rightarrow>
                if Vpc_status vpc = Vpc_Terminating \<or> Vpc_status vpc = Vpc_Deleted then returnM (OK, Json vpc)
                else persist D (Vpc_codec C) (vpcs_prefix @ name) (vpc\<lparr>Vpc_status := Vpc_Terminating\<rparr>)
                  OK (Text ''Failed to update VPC'') (Text ''Serialization failed''))
       | Inr None \<Rightarrow> returnM (NOT_FOUND, Text ''VPC not found'')
       | Inl _ \<Rightarrow> returnM (INTERNAL_SERVER_ERROR, Text ''Store error'')))"

definition not_found_msg :: "string \<Rightarrow> string" where
  "not_found_msg name = ''VPC '' @ [CHR 0x27] @ name @ [CHR 0x27] @ '' not found''"

definition create_vpc_peering :: "('db, 'v) SlateDb \<Rightarrow> 'v serde \<Rightarrow> env \<Rightarrow> VpcPeering \<Rightarrow> (('db, 'v) world, VpcPeering response) act" where
  "create_vpc_peering D C E peering =
     bindM (tryM (store_get D (vpcs_prefix @ VpcPeering_vpc_a peering))) (\<lambda>a.
     bindM (tryM (store_get D (vpcs_prefix @ VpcPeering_vpc_b peering))) (\<lambda>b.
       case (a, b) of
         (Inr (Some _), Inr (Some _)) \<Rightarrow>
           bindM (read_clock E) (\<lambda>now.
             let peering = peering\<lparr>VpcPeering_status := Peering_Active, VpcPeering_created_at := now\<rparr>
             in persist D (VpcPeering_codec C) (vpc_peerings_prefix @ VpcPeering_name peering) peering
                  CREATED (Text ''Failed to create VPC peering'') (Text ''Serialization failed''))
       | (Inr None, _) \<Rightarrow> returnM (BAD_REQUEST, Text (not_found_msg (VpcPeering_vpc_a peering)))
       | (_, Inr None) \<Rightarrow> returnM (BAD_REQUEST, Text (not_found_msg (VpcPeering_vpc_b peering)))
       | _ \<Rightarrow> returnM (INTERNAL_SERVER_ERROR, Text ''Store error'')))"

definition list_vpc_peerings :: "('db, 'v) SlateDb \<Rightarrow> 'v serde \<Rightarrow> (('db, 'v) world, VpcPeering list response) act" where
  "list_vpc_peerings D C = list_response D (VpcPeering_codec C) vpc_peerings_prefix"

definition delete_vpc_peering :: "('db, 'v) SlateDb \<Rightarrow> string \<Rightarrow> (('db, 'v) world, VpcPeering response) act" where
  "delete_vpc_peering D name =
     bindM (tryM (store_delete D (vpc_peerings_prefix @ name))) (\<lambda>r. returnM (case r of
         Inr _ \<Rightarrow> (NO_CONTENT, Empty)
       | Inl _ \<Rightarrow> (INTERNAL_SERVER_ERROR, Text ''Failed to delete VPC peering'')))"

section \<open>Ids\<close>

lemma max_id_le: "v \<in> set vs \<Longrightarrow> Vpc_vpc_id v \<le> max_id vs"
  by (auto simp: max_id_def)

lemma skip_reserved_steps:
  assumes "next_id + of_nat n \<notin> set reserved"
  shows "\<exists>m\<le>n. skip_reserved reserved next_id = Some (next_id + of_nat m) \<and> next_id + of_nat m \<notin> set reserved"
  using assms
proof (induction n arbitrary: next_id)
  case 0
  then show ?case by (simp add: skip_reserved.simps)
next
  case (Suc n)
  show ?case
  proof (cases "next_id \<in> set reserved")
    case True
    from Suc.prems have "(next_id + 1) + of_nat n \<notin> set reserved" by (simp add: ac_simps)
    from Suc.IH [OF this] True show ?thesis by (subst skip_reserved.simps) (force simp: ac_simps intro: exI [of _ "Suc _"])
  next
    case False
    then show ?thesis by (intro exI [of _ 0]) (simp add: skip_reserved.simps)
  qed
qed

lemma skip_reserved_total: "(\<exists>x. x \<notin> set reserved) \<longleftrightarrow> (\<exists>y. skip_reserved reserved n = Some y)"
proof
  assume "\<exists>x. x \<notin> set reserved"
  then obtain x where "n + of_nat (unat (x - n)) \<notin> set reserved" by auto
  from skip_reserved_steps [OF this] show "\<exists>y. skip_reserved reserved n = Some y" by blast
next
  assume "\<exists>y. skip_reserved reserved n = Some y"
  then obtain y where y: "skip_reserved reserved n = Some y" by blast
  have "y \<notin> set reserved" by (rule skip_reserved.raw_induct [OF _ y]) (auto split: if_splits)
  then show "\<exists>x. x \<notin> set reserved" by blast
qed

lemma skip_reserved_first: "n \<notin> set reserved \<Longrightarrow> skip_reserved reserved n = Some n"
  by (simp add: skip_reserved.simps)

text \<open>No reserved id is above the maximum, so without wrap-around the loop ends at once.\<close>

lemma next_id_fresh:
  assumes "max_id vs \<noteq> - 1"
  shows "skip_reserved (reserved_ids now vs) (max_id vs + 1) = Some (max_id vs + 1)"
    and "v \<in> set vs \<Longrightarrow> Vpc_vpc_id v \<noteq> max_id vs + 1" and "max_id vs + 1 \<noteq> 0"
proof -
  have "1 + max_id vs \<noteq> 0" using assms by (simp add: add_eq_0_iff)
  then have lt: "max_id vs < max_id vs + 1" using unatSuc [of "max_id vs"] by (simp add: word_less_nat_alt add.commute)
  then show new: "v \<in> set vs \<Longrightarrow> Vpc_vpc_id v \<noteq> max_id vs + 1" for v using max_id_le [of v vs] by force
  show "max_id vs + 1 \<noteq> 0" using lt by auto
  show "skip_reserved (reserved_ids now vs) (max_id vs + 1) = Some (max_id vs + 1)"
    by (rule skip_reserved_first) (auto simp: reserved_ids_def dest: new)
qed

section \<open>The VPCs of the registry\<close>

text \<open>The addresses of a VPC, and what the registry promises of its VPCs.\<close>

definition vpc_range :: "Vpc \<Rightarrow> ipv4 set" where
  "vpc_range vpc = {ip. \<exists>cidr. parse_cidr (Vpc_ipv4_cidr vpc) = Some cidr \<and> in_cidr ip cidr}"

definition vpcs_ok :: "(string \<rightharpoonup> Vpc) \<Rightarrow> bool" where
  "vpcs_ok V \<longleftrightarrow>
     (\<forall>k v. V k = Some v \<longrightarrow> Vpc_vpc_id v \<noteq> 0 \<and> parse_cidr (Vpc_ipv4_cidr v) \<noteq> None) \<and>
     (\<forall>k v k' v'. V k = Some v \<and> V k' = Some v' \<and> k \<noteq> k' \<longrightarrow> Vpc_vpc_id v \<noteq> Vpc_vpc_id v' \<and> vpc_range v \<inter> vpc_range v' = {})"

lemma vpc_range_disjoint:
  "\<not> cidrs_overlap (Vpc_ipv4_cidr v) (Vpc_ipv4_cidr v') \<Longrightarrow> vpc_range v \<inter> vpc_range v' = {}"
  using overlap_iff [of "Vpc_ipv4_cidr v" _ "Vpc_ipv4_cidr v'"] by (fastforce simp: vpc_range_def)

lemma vpcs_ok_put:
  assumes "vpcs_ok V" and "Vpc_vpc_id v \<noteq> 0" "parse_cidr (Vpc_ipv4_cidr v) \<noteq> None"
    and "\<And>k' v'. V k' = Some v' \<Longrightarrow> Vpc_vpc_id v' \<noteq> Vpc_vpc_id v \<and> vpc_range v \<inter> vpc_range v' = {}"
  shows "vpcs_ok (V(k \<mapsto> v))"
  unfolding vpcs_ok_def
proof (intro conjI allI impI; (elim conjE)?)
  fix k1 v1 assume "(V(k \<mapsto> v)) k1 = Some v1"
  then show "Vpc_vpc_id v1 \<noteq> 0" "parse_cidr (Vpc_ipv4_cidr v1) \<noteq> None" using assms(1-3) by (auto simp: vpcs_ok_def split: if_splits)
next
  fix k1 v1 k2 v2 assume a: "(V(k \<mapsto> v)) k1 = Some v1" "(V(k \<mapsto> v)) k2 = Some v2" "k1 \<noteq> k2"
  from assms(1) have "V k1 = Some v1 \<Longrightarrow> V k2 = Some v2 \<Longrightarrow> k1 \<noteq> k2 \<Longrightarrow> Vpc_vpc_id v1 \<noteq> Vpc_vpc_id v2 \<and> vpc_range v1 \<inter> vpc_range v2 = {}"
    unfolding vpcs_ok_def by blast
  then show "Vpc_vpc_id v1 \<noteq> Vpc_vpc_id v2" "vpc_range v1 \<inter> vpc_range v2 = {}"
    using a assms(4) [of k1 v1] assms(4) [of k2 v2] by (auto split: if_splits)
qed

lemma vpcs_ok_status:
  assumes "vpcs_ok V" "V k = Some v"
  shows "vpcs_ok (V(k \<mapsto> v\<lparr>Vpc_status := s\<rparr>))"
proof -
  let ?f = "\<lambda>k' v'. if k' = k then v else v'"
  have r: "vpc_range (v\<lparr>Vpc_status := s\<rparr>) = vpc_range v" by (simp add: vpc_range_def)
  have "(V(k \<mapsto> v\<lparr>Vpc_status := s\<rparr>)) k' = Some v' \<Longrightarrow> V k' = Some (?f k' v') \<and>
      Vpc_vpc_id (?f k' v') = Vpc_vpc_id v' \<and> Vpc_ipv4_cidr (?f k' v') = Vpc_ipv4_cidr v' \<and> vpc_range (?f k' v') = vpc_range v'" for k' v'
    using assms(2) by (auto simp: r split: if_splits)
  then show ?thesis using assms(1) unfolding vpcs_ok_def by metis
qed

text \<open>The requests that change VPCs and peerings, in any order, with listings that succeed and ids left.\<close>

inductive vpc_api_step :: "('db, 'v) SlateDb \<Rightarrow> 'v serde \<Rightarrow> env \<Rightarrow> ('db, 'v) world \<Rightarrow> ('db, 'v) world \<Rightarrow> bool" for D C E where
  create: "list_prefix D vpcs_prefix w = (Inr kvs, w) \<Longrightarrow> max_id (decoded_values (Vpc_codec C) kvs) \<noteq> - 1 \<Longrightarrow>
    create_vpc D C E vpc w = (r, w') \<Longrightarrow> vpc_api_step D C E w w'"
| delete: "delete_vpc D C name w = (r, w') \<Longrightarrow> vpc_api_step D C E w w'"
| peer: "create_vpc_peering D C E peering w = (q, w') \<Longrightarrow> vpc_api_step D C E w w'"
| unpeer: "delete_vpc_peering D name w = (q, w') \<Longrightarrow> vpc_api_step D C E w w'"

context registry
begin

abbreviation vpcs :: "('db, 'v) world \<Rightarrow> string \<rightharpoonup> Vpc" where
  "vpcs w \<equiv> entries_in (Vpc_codec C) vpcs_prefix (lookup w)"

text \<open>A run of \<open>create_vpc\<close>, with the id it gives.\<close>

lemma create_vpc_run:
  fixes w :: "('db, 'v) world"
  assumes l: "list_prefix D vpcs_prefix w = (Inr kvs, w)" and ids: "max_id (decoded_values (Vpc_codec C) kvs) \<noteq> - 1"
    and run: "create_vpc D C E vpc w = (r, w')"
  defines "free \<equiv> \<forall>k v. vpcs w k = Some v \<longrightarrow> \<not> cidrs_overlap (Vpc_ipv4_cidr vpc) (Vpc_ipv4_cidr v)"
    and "new \<equiv> vpc\<lparr>Vpc_vpc_id := max_id (decoded_values (Vpc_codec C) kvs) + 1, Vpc_status := Vpc_Active,
      Vpc_created_at := utc_now E (Suc (clock_reads w)), Vpc_deleted_at := None\<rparr>"
  shows "parse_cidr (Vpc_ipv4_cidr vpc) = None \<and> r = Inr (BAD_REQUEST, Text ''Invalid CIDR format'') \<and> w' = w \<or>
    parse_cidr (Vpc_ipv4_cidr vpc) \<noteq> None \<and> \<not> free \<and> (\<exists>m. r = Inr (CONFLICT, Text m)) \<and> w' = w \<or>
    parse_cidr (Vpc_ipv4_cidr vpc) \<noteq> None \<and> free \<and>
      (r = Inr (CREATED, Json new) \<and> vpcs w' = (vpcs w)(vpcs_prefix @ Vpc_name vpc \<mapsto> new) \<or>
       (\<exists>m. r = Inr (INTERNAL_SERVER_ERROR, Text m)) \<and> (vpcs w' = vpcs w \<or> vpcs w' = (vpcs w)(vpcs_prefix @ Vpc_name vpc \<mapsto> new)))"
proof -
  let ?vs = "decoded_values (Vpc_codec C) kvs"
  let ?P = "\<lambda>existing. cidrs_overlap (Vpc_ipv4_cidr vpc) (Vpc_ipv4_cidr existing)"
  note lv = list_values_ok [OF l, where c = "Vpc_codec C"]
  have free: "free \<longleftrightarrow> find ?P ?vs = None" unfolding free_def find_None_iff using lv(2) by blast
  show ?thesis
  proof (cases "parse_cidr (Vpc_ipv4_cidr vpc) = None")
    case True
    then show ?thesis using run by (auto simp: create_vpc_def returnM_def)
  next
    case parses: False
    note body = run [unfolded create_vpc_def if_not_P [OF parses] bindM_step [of "list_values D (Vpc_codec C) vpcs_prefix", OF lv(1)]]
    show ?thesis
    proof (cases "find ?P ?vs")
      case (Some existing)
      with parses free body show ?thesis by (auto simp: returnM_def)
    next
      case None
      let ?w = "w\<lparr>clock_reads := Suc (Suc (clock_reads w))\<rparr>"
      have p: "persist D (Vpc_codec C) (vpcs_prefix @ Vpc_name vpc) new CREATED (Text ''Failed to create VPC'') (Text ''Serialization failed'') ?w = (r, w')"
        using body by (simp add: None bindM_def read_clock_def liftR_def next_id_fresh(1) [OF ids] ok_or_def Let_def new_def)
      have put: "vpcs w' = (vpcs w)(vpcs_prefix @ Vpc_name vpc \<mapsto> new)"
        if "\<exists>v. from_slice (Vpc_codec C) v = Inr new \<and> lookup w' = (lookup ?w)(vpcs_prefix @ Vpc_name vpc \<mapsto> v)"
        using that by (auto simp: entries_in_put)
      have "free" using None free by simp
      moreover have "vpcs w' = vpcs w \<or> vpcs w' = (vpcs w)(vpcs_prefix @ Vpc_name vpc \<mapsto> new)"
        using persist_ok(1) [OF p codecs(11)] put by fastforce
      ultimately show ?thesis using parses persist_ok(2) [OF p codecs(11)] put by blast
    qed
  qed
qed

lemma delete_vpc_run:
  assumes "delete_vpc D C name w = (r, w')"
  shows "vpcs w' = vpcs w \<or> (\<exists>v. vpcs w (vpcs_prefix @ name) = Some v \<and> vpcs w' = (vpcs w)(vpcs_prefix @ name \<mapsto> v\<lparr>Vpc_status := Vpc_Terminating\<rparr>))"
proof (cases "\<exists>data v. name \<noteq> ''default'' \<and> fst (store_get D (vpcs_prefix @ name) w) = Inr (Some data) \<and> from_slice (Vpc_codec C) data = Inr v \<and>
    Vpc_status v \<noteq> Vpc_Terminating \<and> Vpc_status v \<noteq> Vpc_Deleted")
  case True
  then obtain data v where 1: "name \<noteq> ''default''" "fst (store_get D (vpcs_prefix @ name) w) = Inr (Some data)" "from_slice (Vpc_codec C) data = Inr v"
    "Vpc_status v \<noteq> Vpc_Terminating" "Vpc_status v \<noteq> Vpc_Deleted" by blast
  then have "persist D (Vpc_codec C) (vpcs_prefix @ name) (v\<lparr>Vpc_status := Vpc_Terminating\<rparr>) OK (Text ''Failed to update VPC'') (Text ''Serialization failed'') w = (r, w')"
    using assms by (simp add: delete_vpc_def bindM_def tryM_def)
  from persist_entries(1) [OF this, of vpcs_prefix] tried_get [OF 1(2)] 1(3) show ?thesis by (auto simp: entries_in_Some)
next
  case False
  then have "w' = w" using assms
    by (auto simp: delete_vpc_def bindM_def tryM_def returnM_def split: sum.splits option.splits if_splits)
  then show ?thesis by simp
qed

lemma vpc_api_step_ok:
  assumes "vpc_api_step D C E w w'" "vpcs_ok (vpcs w)"
  shows "vpcs_ok (vpcs w')"
  using assms
proof cases
  case (create kvs vpc r)
  let ?vs = "decoded_values (Vpc_codec C) kvs"
  let ?new = "vpc\<lparr>Vpc_vpc_id := max_id ?vs + 1, Vpc_status := Vpc_Active, Vpc_created_at := utc_now E (Suc (clock_reads w)), Vpc_deleted_at := None\<rparr>"
  have "vpcs_ok ((vpcs w)(vpcs_prefix @ Vpc_name vpc \<mapsto> ?new))"
    if "parse_cidr (Vpc_ipv4_cidr vpc) \<noteq> None" "\<forall>k v. vpcs w k = Some v \<longrightarrow> \<not> cidrs_overlap (Vpc_ipv4_cidr vpc) (Vpc_ipv4_cidr v)"
  proof (rule vpcs_ok_put [OF assms(2)])
    show "Vpc_vpc_id ?new \<noteq> 0" using next_id_fresh(3) [OF create(2)] by simp
    show "parse_cidr (Vpc_ipv4_cidr ?new) \<noteq> None" using that(1) by simp
    fix k v assume v: "vpcs w k = Some v"
    with list_values_ok(2) [OF create(1), where c = "Vpc_codec C"] have "v \<in> set ?vs" by blast
    then show "Vpc_vpc_id v \<noteq> Vpc_vpc_id ?new \<and> vpc_range ?new \<inter> vpc_range v = {}"
      using next_id_fresh(2) [OF create(2)] that(2) v vpc_range_disjoint [of ?new v] by auto
  qed
  then show ?thesis using create_vpc_run [OF create] assms(2) by auto
next
  case (delete name r)
  then show ?thesis using delete_vpc_run assms(2) vpcs_ok_status by metis
next
  case (peer peering q)
  then have "vpcs w' = vpcs w"
    by (auto simp: create_vpc_peering_def bindM_def tryM_def returnM_def read_clock_def Let_def split: prod.splits sum.splits option.splits
        intro!: entries_in_cong persist_entries(3) [where w = "w\<lparr>clock_reads := Suc (clock_reads w)\<rparr>", simplified]
        simp: vpcs_prefix_def vpc_peerings_prefix_def prefix_def)
  then show ?thesis using assms(2) by simp
next
  case (unpeer name q)
  then obtain q' where "store_delete D (vpc_peerings_prefix @ name) w = (q', w')"
    by (auto simp: delete_vpc_peering_def bindM_def tryM_def returnM_def prod_eq_iff)
  then have "vpcs w' = vpcs w"
    by (intro entries_in_cong store_delete_other) (auto simp: vpcs_prefix_def vpc_peerings_prefix_def prefix_def)
  then show ?thesis using assms(2) by simp
qed

end

section \<open>Properties\<close>

text \<open>C24: the API server keeps VPCs apart: from a registry whose VPCs have ids other than 0, no two the
  same, and disjoint address ranges, no sequence of requests that create or delete VPCs and peerings
  leads to one where two VPCs share an id or an address or a VPC has the infrastructure's id, as
  long as the listing of VPCs does not fail and the 16-bit ids have not run out.\<close>

theorem vpc_registry_invariant:
  assumes "registry D content C" and "(vpc_api_step D C E)\<^sup>*\<^sup>* w w'"
    and "vpcs_ok (entries_in (Vpc_codec C) vpcs_prefix (content (StateStore_db w)))"
  shows "vpcs_ok (entries_in (Vpc_codec C) vpcs_prefix (content (StateStore_db w')))"
  using assms(2,3) by induction (auto intro: registry.vpc_api_step_ok [OF assms(1)])

text \<open>C25: every answer of \<open>create_vpc\<close> when the listing succeeds and an id is left: 400 and no change for a
  range that does not parse, 409 and no change for one that shares an address with a stored VPC,
  otherwise 201 with the VPC stored under its name, Active and with the next id, or 500.\<close>

theorem create_vpc_answers:
  assumes "registry D content C" and "list_prefix D vpcs_prefix w = (Inr kvs, w)"
    and "max_id (decoded_values (Vpc_codec C) kvs) \<noteq> - 1" and "create_vpc D C E vpc w = (r, w')"
  defines "V \<equiv> entries_in (Vpc_codec C) vpcs_prefix (content (StateStore_db w))"
    and "V' \<equiv> entries_in (Vpc_codec C) vpcs_prefix (content (StateStore_db w'))"
    and "new \<equiv> vpc\<lparr>Vpc_vpc_id := max_id (decoded_values (Vpc_codec C) kvs) + 1, Vpc_status := Vpc_Active,
      Vpc_created_at := utc_now E (Suc (clock_reads w)), Vpc_deleted_at := None\<rparr>"
  assumes parses: "\<forall>k v. V k = Some v \<longrightarrow> parse_cidr (Vpc_ipv4_cidr v) \<noteq> None"
  shows "if parse_cidr (Vpc_ipv4_cidr vpc) = None then r = Inr (BAD_REQUEST, Text ''Invalid CIDR format'') \<and> w' = w
    else if \<exists>k v. V k = Some v \<and> vpc_range vpc \<inter> vpc_range v \<noteq> {} then (\<exists>m. r = Inr (CONFLICT, Text m)) \<and> w' = w
    else r = Inr (CREATED, Json new) \<and> V' = V(vpcs_prefix @ Vpc_name vpc \<mapsto> new) \<or>
      (\<exists>m. r = Inr (INTERNAL_SERVER_ERROR, Text m)) \<and> (V' = V \<or> V' = V(vpcs_prefix @ Vpc_name vpc \<mapsto> new))"
proof -
  note T = registry.create_vpc_run [OF assms(1-4), folded V_def V'_def new_def]
  show ?thesis
  proof (cases "parse_cidr (Vpc_ipv4_cidr vpc) = None")
    case True
    with T show ?thesis by simp
  next
    case False
    then have "vpc_range vpc \<inter> vpc_range v \<noteq> {} \<longleftrightarrow> cidrs_overlap (Vpc_ipv4_cidr vpc) (Vpc_ipv4_cidr v)" if "V k = Some v" for k v
      using overlap_iff [of "Vpc_ipv4_cidr vpc" _ "Vpc_ipv4_cidr v"] parses that by (fastforce simp: vpc_range_def)
    then have "(\<exists>k v. V k = Some v \<and> vpc_range vpc \<inter> vpc_range v \<noteq> {}) \<longleftrightarrow>
        \<not> (\<forall>k v. V k = Some v \<longrightarrow> \<not> cidrs_overlap (Vpc_ipv4_cidr vpc) (Vpc_ipv4_cidr v))" by blast
    with False T show ?thesis by auto
  qed
qed

text \<open>A registry with the default VPC, and requests for a second one.\<close>

definition default_vpc :: Vpc where
  "default_vpc = \<lparr> Vpc_name = ''default'', Vpc_vpc_id = 1, Vpc_ipv4_cidr = show_cidr 0x0A2A0000 16, Vpc_status = Vpc_Active, Vpc_created_at = 0, Vpc_deleted_at = None \<rparr>"

definition web_vpc :: "string \<Rightarrow> Vpc" where
  "web_vpc cidr = \<lparr> Vpc_name = ''web'', Vpc_vpc_id = 0, Vpc_ipv4_cidr = cidr, Vpc_status = Vpc_Active, Vpc_created_at = 0, Vpc_deleted_at = None \<rparr>"

definition one_vpc :: "((string \<times> json) list, json) world" where
  "one_vpc = \<lparr> StateStore_db = [(''/registry/vpcs/default'', V_Vpc default_vpc)], StateStore_event_log = EventLog_new 16, rr_index = 0, uuid_draws = 0, clock_reads = 0 \<rparr>"

definition api_env :: env where
  "api_env = \<lparr> new_v4 = (\<lambda>_. []), utc_now = int \<rparr>"

lemma show_cidr_range:
  "pfx \<le> 32 \<Longrightarrow> Vpc_ipv4_cidr v = show_cidr ip pfx \<Longrightarrow> ip \<in> vpc_range v \<and> parse_cidr (Vpc_ipv4_cidr v) \<noteq> None"
  by (simp add: vpc_range_def parse_show_cidr in_cidr_def and.assoc)

lemma one_vpc_listed:
  "list_prefix mem_slatedb vpcs_prefix one_vpc = (Inr [(''/registry/vpcs/default'', V_Vpc default_vpc)], one_vpc)"
  "decoded_values (Vpc_codec tag_serde) [(''/registry/vpcs/default'', V_Vpc default_vpc)] = [default_vpc]"
  "entries_in (Vpc_codec tag_serde) vpcs_prefix (map_of (StateStore_db one_vpc)) = [''/registry/vpcs/default'' \<mapsto> default_vpc]"
  "max_id [default_vpc] \<noteq> - 1"
  by (code_simp, code_simp, auto simp: fun_eq_iff entries_in_def one_vpc_def vpcs_prefix_def tag_serde_def tag_codec_def ok_or_def max_id_def default_vpc_def)

theorem create_vpc_answers_witness:
  "(\<exists>m. fst (create_vpc mem_slatedb tag_serde api_env (web_vpc (show_cidr 0x0A2A0000 24)) one_vpc) = Inr (CONFLICT, Text m)) \<and>
   snd (create_vpc mem_slatedb tag_serde api_env (web_vpc (show_cidr 0x0A2A0000 24)) one_vpc) = one_vpc"
proof -
  have "0x0A2A0000 \<in> vpc_range (web_vpc (show_cidr 0x0A2A0000 24)) \<and> parse_cidr (Vpc_ipv4_cidr (web_vpc (show_cidr 0x0A2A0000 24))) \<noteq> None"
    "0x0A2A0000 \<in> vpc_range default_vpc \<and> parse_cidr (Vpc_ipv4_cidr default_vpc) \<noteq> None"
    by (rule show_cidr_range [of 24], simp, simp add: web_vpc_def, rule show_cidr_range [of 16], simp, simp add: default_vpc_def)
  moreover from this(2) have "\<forall>k v. [''/registry/vpcs/default'' \<mapsto> default_vpc] k = Some v \<longrightarrow> parse_cidr (Vpc_ipv4_cidr v) \<noteq> None" by simp
  ultimately show ?thesis
    using create_vpc_answers [OF memreg.registry_axioms one_vpc_listed(1) _ surjective_pairing, where E = api_env and vpc = "web_vpc (show_cidr 0x0A2A0000 24)", unfolded one_vpc_listed(2,3)]
      one_vpc_listed(4) by (auto split: if_splits)
qed

theorem vpc_registry_invariant_witness:
  "vpcs_ok (entries_in (Vpc_codec tag_serde) vpcs_prefix (map_of (StateStore_db (snd (create_vpc mem_slatedb tag_serde api_env (web_vpc (show_cidr 0x0A2B0000 16)) one_vpc)))))"
proof (rule vpc_registry_invariant [OF memreg.registry_axioms r_into_rtranclp])
  show "vpc_api_step mem_slatedb tag_serde api_env one_vpc (snd (create_vpc mem_slatedb tag_serde api_env (web_vpc (show_cidr 0x0A2B0000 16)) one_vpc))"
    by (rule vpc_api_step.create [OF one_vpc_listed(1) _ surjective_pairing]) (simp add: one_vpc_listed(2,4))
  show "vpcs_ok (entries_in (Vpc_codec tag_serde) vpcs_prefix (map_of (StateStore_db one_vpc)))"
    by (simp add: one_vpc_listed(3) vpcs_ok_def) (simp add: default_vpc_def parse_show_cidr)
qed

text \<open>Where the ids have run out the addition wraps, and the new VPC gets the id 0 of the infrastructure.\<close>

lemma vpc_id_wraps:
  assumes "max_id vs = - 1" "\<And>v. v \<in> set vs \<Longrightarrow> Vpc_vpc_id v \<noteq> 0"
  shows "skip_reserved (reserved_ids now vs) (max_id vs + 1) = Some 0"
  using assms by (intro trans [OF skip_reserved_first]) (auto simp: reserved_ids_def)

end
