(* ===== verification/Node_Api.thy ===== *)
theory Node_Api
  imports Api_Base Node_Controllers Pod_Scheduler
begin

text \<open>
  The node handlers of the API server (\<open>pkg/api/src/handlers/\<close>: \<open>register.rs\<close>, \<open>heartbeat.rs\<close>, \<open>drain.rs\<close>,
  \<open>cluster.rs\<close>). The cluster CA is a parameter. The lemmas show that a cordoned node stays out of the
  scheduler's choice through every later step but an uncordon of it, what a drain does to the pods,
  and that registering needs the join token.
\<close>

section \<open>Cordon, uncordon, drain\<close>

datatype node_reply = Cordoned | Uncordoned | Drained u32 | Alive

definition unschedulable_key :: string where
  "unschedulable_key = ''node.kubernetes.io/unschedulable''"

definition unschedulable_taint :: Taint where
  "unschedulable_taint = \<lparr> Taint_key = unschedulable_key, Taint_value = ''true'', Taint_effect = NoSchedule \<rparr>"

definition add_taint :: "Taint list \<Rightarrow> Taint list" where
  "add_taint ts = (if list_ex (\<lambda>t. Taint_key t = unschedulable_key) ts then ts else ts @ [unschedulable_taint])"

definition find_and_update_node :: "('db, 'v) SlateDb \<Rightarrow> 'v serde \<Rightarrow> string \<Rightarrow> (Node \<Rightarrow> Node) \<Rightarrow> (('db, 'v) world, unit) act" where
  "find_and_update_node D C node_name f =
     bindM (list_prefix D nodes_prefix) (\<lambda>entries.
       case find (\<lambda>(_, node). Node_name node = node_name) (decoded (Node_codec C) entries) of
         Some (key, node) \<Rightarrow> put_json D (Node_codec C) key (f node)
       | None \<Rightarrow> failM (Err (''Node not found: '' @ node_name)))"

definition error_text :: "error \<Rightarrow> string" where
  "error_text e = (case e of Err m \<Rightarrow> m)"

definition cordon :: "Node \<Rightarrow> Node" where
  "cordon node = node\<lparr>Node_unschedulable := True, Node_taints := add_taint (Node_taints node)\<rparr>"

definition uncordon :: "Node \<Rightarrow> Node" where
  "uncordon node = node\<lparr>Node_unschedulable := False, Node_status := Node_Ready,
     Node_taints := filter (\<lambda>t. Taint_key t \<noteq> unschedulable_key) (Node_taints node)\<rparr>"

definition start_drain :: "Node \<Rightarrow> Node" where
  "start_drain node = node\<lparr>Node_unschedulable := True, Node_status := Node_NotReady, Node_taints := add_taint (Node_taints node)\<rparr>"

definition cordon_node :: "('db, 'v) SlateDb \<Rightarrow> 'v serde \<Rightarrow> string \<Rightarrow> (('db, 'v) world, node_reply response) act" where
  "cordon_node D C node_name =
     bindM (tryM (find_and_update_node D C node_name cordon)) (\<lambda>r. returnM (case r of
       Inr _ \<Rightarrow> (OK, Json Cordoned) | Inl e \<Rightarrow> (INTERNAL_SERVER_ERROR, Text (error_text e))))"

definition uncordon_node :: "('db, 'v) SlateDb \<Rightarrow> 'v serde \<Rightarrow> string \<Rightarrow> (('db, 'v) world, node_reply response) act" where
  "uncordon_node D C node_name =
     bindM (tryM (find_and_update_node D C node_name uncordon)) (\<lambda>r. returnM (case r of
       Inr _ \<Rightarrow> (OK, Json Uncordoned) | Inl e \<Rightarrow> (INTERNAL_SERVER_ERROR, Text (error_text e))))"

text \<open>The loop over all pods: a failed write is dropped and the pod counted all the same.\<close>

fun drain_pods :: "('db, 'v) SlateDb \<Rightarrow> 'v serde \<Rightarrow> string \<Rightarrow> (string \<times> 'v) list \<Rightarrow> u32 \<Rightarrow> (('db, 'v) world, u32) act" where
  "drain_pods D C node_name [] n = returnM n"
| "drain_pods D C node_name ((key, value) # entries) n =
     (case from_slice (Pod_codec C) value of
        Inl _ \<Rightarrow> drain_pods D C node_name entries n
      | Inr pod \<Rightarrow>
          if Pod_node_name pod = Some node_name then
            (case to_vec (Pod_codec C) (evicted pod) of
               Inl _ \<Rightarrow> drain_pods D C node_name entries n
             | Inr data \<Rightarrow> bindM (ignoreM (store_put D key data)) (\<lambda>_. drain_pods D C node_name entries (n + 1)))
          else drain_pods D C node_name entries n)"

definition drain_node :: "('db, 'v) SlateDb \<Rightarrow> 'v serde \<Rightarrow> string \<Rightarrow> (('db, 'v) world, node_reply response) act" where
  "drain_node D C node_name =
     bindM (tryM (find_and_update_node D C node_name start_drain)) (\<lambda>r. case r of
       Inl e \<Rightarrow> returnM (INTERNAL_SERVER_ERROR, Text (error_text e))
     | Inr _ \<Rightarrow>
         bindM (tryM (list_prefix D all_pods_prefix)) (\<lambda>entries. case entries of
           Inl _ \<Rightarrow> returnM (INTERNAL_SERVER_ERROR, Text ''Failed to list pods'')
         | Inr entries \<Rightarrow> bindM (drain_pods D C node_name entries 0) (\<lambda>evicted. returnM (OK, Json (Drained evicted)))))"

section \<open>Heartbeats\<close>

definition node_heartbeat :: "('db, 'v) SlateDb \<Rightarrow> 'v serde \<Rightarrow> env \<Rightarrow> string \<Rightarrow> (('db, 'v) world, node_reply response) act" where
  "node_heartbeat D C E node_name =
     bindM (tryM (list_prefix D nodes_prefix)) (\<lambda>entries. case entries of
       Inl _ \<Rightarrow> returnM (INTERNAL_SERVER_ERROR, Empty)
     | Inr entries \<Rightarrow>
         (case find (\<lambda>(_, node). Node_name node = node_name) (decoded (Node_codec C) entries) of
            None \<Rightarrow> returnM (NOT_FOUND, Empty)
          | Some (key, node) \<Rightarrow>
              bindM (read_clock E) (\<lambda>now.
              bindM (tryM (put_json D (Node_codec C) key (node\<lparr>Node_last_heartbeat := now, Node_status := Node_Ready\<rparr>))) (\<lambda>r.
                returnM (case r of Inl _ \<Rightarrow> (INTERNAL_SERVER_ERROR, Empty) | Inr _ \<Rightarrow> (OK, Json Alive))))))"

section \<open>Registration\<close>

record NodeRegistrationRequest =
  req_token :: string
  req_node_name :: string
  req_address :: string
  req_labels :: labels
  req_capacity :: "ResourceRequirements option"
  req_wg_public_key :: "string option"
  req_wg_listen_port :: "u16 option"

record NodeRegistrationResponse =
  resp_node_id :: string
  resp_certificate :: string
  resp_private_key :: string
  resp_server_ca :: string
  resp_agent_api_port :: u16

text \<open>\<open>issue_node_cert\<close> and \<open>ca_cert_pem\<close> of the cluster CA.\<close>

record ClusterCA =
  issue_node_cert :: "string \<Rightarrow> (string \<times> string) result"
  ca_cert_pem :: string

definition DEFAULT_AGENT_API_PORT :: u16 where "DEFAULT_AGENT_API_PORT = 10250"

definition rsplit_once :: "char \<Rightarrow> string \<Rightarrow> (string \<times> string) option" where
  "rsplit_once c s = map_option (\<lambda>(a, b). (rev b, rev a)) (split_once c (rev s))"

definition wg_endpoint_of :: "string \<Rightarrow> u16 \<Rightarrow> string" where
  "wg_endpoint_of address port =
     (let host = (case rsplit_once (CHR '':'') address of Some (h, _) \<Rightarrow> h | None \<Rightarrow> address)
      in host @ '':'' @ show_dec (unat port))"

definition extend :: "labels \<Rightarrow> labels \<Rightarrow> labels" where
  "extend m xs = fold (\<lambda>(k, v). hm_insert k v) xs m"

definition registered_node :: "NodeRegistrationRequest \<Rightarrow> Node option \<Rightarrow> string \<Rightarrow> DateTime \<Rightarrow> Node" where
  "registered_node payload existing_node node_id now =
     (let wg_endpoint = map_option (wg_endpoint_of (req_address payload)) (req_wg_listen_port payload)
      in case existing_node of
           Some existing \<Rightarrow> existing\<lparr>Node_status := Node_Ready, Node_last_heartbeat := now, Node_address := req_address payload,
               Node_agent_api_port := DEFAULT_AGENT_API_PORT, Node_labels := extend (Node_labels existing) (req_labels payload),
               Node_wg_public_key := req_wg_public_key payload, Node_wg_endpoint := wg_endpoint\<rparr>
         | None \<Rightarrow> \<lparr> Node_id = node_id, Node_name = req_node_name payload, Node_address = req_address payload,
               Node_agent_api_port = DEFAULT_AGENT_API_PORT, Node_status = Node_Ready, Node_registered_at = now,
               Node_last_heartbeat = now, Node_labels = req_labels payload, Node_taints = [],
               Node_capacity = (case req_capacity payload of Some c \<Rightarrow> c | None \<Rightarrow> no_resources),
               Node_allocated = no_resources, Node_unschedulable = False,
               Node_wg_public_key = req_wg_public_key payload, Node_wg_endpoint = wg_endpoint \<rparr>)"

definition register_node :: "('db, 'v) SlateDb \<Rightarrow> 'v serde \<Rightarrow> env \<Rightarrow> ClusterCA \<Rightarrow> string \<Rightarrow> NodeRegistrationRequest \<Rightarrow>
    (('db, 'v) world, NodeRegistrationResponse response) act" where
  "register_node D C E ca join_token payload =
     (if req_token payload = [] then returnM (UNAUTHORIZED, Text ''Missing join token'')
      else if req_token payload \<noteq> join_token then returnM (FORBIDDEN, Text ''Invalid join token'')
      else case issue_node_cert ca (req_node_name payload) of
        Inl _ \<Rightarrow> returnM (INTERNAL_SERVER_ERROR, Text ''Certificate generation failed'')
      | Inr (cert_pem, key_pem) \<Rightarrow>
        let key = nodes_prefix @ req_node_name payload
        in bindM (tryM (store_get D key)) (\<lambda>found.
          let existing_node = (case found of Inr (Some data) \<Rightarrow> ok (from_slice (Node_codec C) data) | _ \<Rightarrow> None)
          in bindM (read_clock E) (\<lambda>now.
             bindM (case existing_node of Some existing \<Rightarrow> returnM (Node_id existing) | None \<Rightarrow> draw_uuid E) (\<lambda>node_id.
          let node = registered_node payload existing_node node_id now
          in case to_vec (Node_codec C) node of
               Inl _ \<Rightarrow> returnM (INTERNAL_SERVER_ERROR, Text ''Serialization failed'')
             | Inr data \<Rightarrow> bindM (tryM (store_put D key data)) (\<lambda>r. returnM (case r of
                 Inl _ \<Rightarrow> (INTERNAL_SERVER_ERROR, Text ''Failed to persist node'')
               | Inr _ \<Rightarrow> (OK, Json \<lparr> resp_node_id = node_id, resp_certificate = cert_pem, resp_private_key = key_pem,
                     resp_server_ca = ca_cert_pem ca, resp_agent_api_port = DEFAULT_AGENT_API_PORT \<rparr>)))))))"

section \<open>Listings\<close>

definition list_nodes :: "('db, 'v) SlateDb \<Rightarrow> 'v serde \<Rightarrow> (('db, 'v) world, Node list response) act" where
  "list_nodes D C =
     bindM (tryM (list_prefix D nodes_prefix)) (\<lambda>entries. returnM (case entries of
       Inl _ \<Rightarrow> (INTERNAL_SERVER_ERROR, Text ''Failed to list nodes'')
     | Inr entries \<Rightarrow> (OK, Json (decoded_values (Node_codec C) entries))))"

section \<open>Cordoned nodes\<close>

text \<open>Nodes stand under their names, and the named one is there and closed for scheduling.\<close>

definition nodes_keyed :: "(string \<rightharpoonup> Node) \<Rightarrow> bool" where
  "nodes_keyed N \<longleftrightarrow> (\<forall>k n. N k = Some n \<longrightarrow> k = nodes_prefix @ Node_name n)"

definition cordoned :: "string \<Rightarrow> (string \<rightharpoonup> Node) \<Rightarrow> bool" where
  "cordoned name N \<longleftrightarrow> (\<exists>n. N (nodes_prefix @ name) = Some n \<and> Node_unschedulable n)"

text \<open>Writing a node under its name, the named one closed, keeps that.\<close>

definition good :: "string \<Rightarrow> string \<Rightarrow> Node \<Rightarrow> bool" where
  "good name k n \<longleftrightarrow> k = nodes_prefix @ Node_name n \<and> (Node_name n = name \<longrightarrow> Node_unschedulable n)"

text \<open>The steps on nodes: handlers and the node controller, every outcome, but no uncordon of the named node.\<close>

inductive node_step :: "('db, 'v) SlateDb \<Rightarrow> 'v serde \<Rightarrow> env \<Rightarrow> ClusterCA \<Rightarrow> string \<Rightarrow> string \<Rightarrow> ('db, 'v) world \<Rightarrow> ('db, 'v) world \<Rightarrow> bool"
  for D C E ca join_token name where
  cordon: "cordon_node D C n w = (r, w') \<Longrightarrow> node_step D C E ca join_token name w w'"
| uncordon: "uncordon_node D C n w = (r, w') \<Longrightarrow> n \<noteq> name \<Longrightarrow> node_step D C E ca join_token name w w'"
| drain: "drain_node D C n w = (r, w') \<Longrightarrow> node_step D C E ca join_token name w w'"
| heartbeat: "node_heartbeat D C E n w = (r, w') \<Longrightarrow> node_step D C E ca join_token name w w'"
| register: "register_node D C E ca join_token payload w = (q, w') \<Longrightarrow>
    \<forall>e. fst (store_get D (nodes_prefix @ req_node_name payload) w) \<noteq> Inl e \<Longrightarrow> node_step D C E ca join_token name w w'"
| reconcile: "node_reconcile D C E w = (u, w') \<Longrightarrow> node_step D C E ca join_token name w w'"

context registry
begin

abbreviation nodes :: "('db, 'v) world \<Rightarrow> string \<rightharpoonup> Node" where
  "nodes w \<equiv> entries_in (Node_codec C) nodes_prefix (lookup w)"

definition closed :: "string \<Rightarrow> ('db, 'v) world \<Rightarrow> bool" where
  "closed name w \<longleftrightarrow> nodes_keyed (nodes w) \<and> cordoned name (nodes w)"

lemma closed_good: "closed name w \<Longrightarrow> nodes w k = Some n \<Longrightarrow> good name k n"
  by (auto simp: closed_def good_def nodes_keyed_def cordoned_def)

lemma closed_upd:
  assumes "closed name w" "good name k n" "nodes w' = (nodes w)(k \<mapsto> n)"
  shows "closed name w'"
  using assms by (auto simp: closed_def good_def nodes_keyed_def cordoned_def)

lemma closed_put:
  assumes "put_json D (Node_codec C) k n w = (r, w')" "closed name w" "good name k n"
  shows "closed name w'"
proof (cases r)
  case (Inl e)
  then consider "lookup w' = lookup w" | v where "to_vec (Node_codec C) n = Inr v" "lookup w' = (lookup w)(k \<mapsto> v)"
    using put_json_err(1) [OF assms(1) [unfolded Inl]] by blast
  then show ?thesis
  proof cases
    case 2
    from 2(1) have "from_slice (Node_codec C) v = Inr n" by (rule codec_okD [OF codecs(2)])
    then show ?thesis using 2 assms(2,3) by (intro closed_upd [OF assms(2,3)]) (simp add: entries_in_put good_def)
  qed (use assms(2) in \<open>simp add: closed_def\<close>)
next
  case (Inr u)
  have "prefix nodes_prefix k" using assms(3) by (simp add: good_def)
  then show ?thesis using put_entries [OF assms(1) [unfolded Inr] codecs(2), of nodes_prefix] closed_upd [OF assms(2,3)] by simp
qed

lemma closed_put_snd: "closed name w \<Longrightarrow> good name k n \<Longrightarrow> closed name (snd (put_json D (Node_codec C) k n w))"
  by (rule closed_put [OF prod.collapse [symmetric]])

lemma closed_other:
  assumes "\<And>k. prefix nodes_prefix k \<Longrightarrow> lookup w' k = lookup w k" "closed name w"
  shows "closed name w'"
  using assms(2) entries_in_cong [of nodes_prefix "lookup w'" "lookup w" "Node_codec C", OF assms(1)] by (simp add: closed_def)

lemma found_node:
  assumes "list_prefix D nodes_prefix w = (Inr kvs, w)" "find (\<lambda>(_, node). Node_name node = n) (decoded (Node_codec C) kvs) = Some (k, node)"
  shows "nodes w k = Some node" and "Node_name node = n"
  using assms list_entries(1) [OF assms(1), where c = "Node_codec C"] by (auto simp: find_Some_iff dest: nth_mem)

lemma update_closed:
  assumes "find_and_update_node D C n f w = (r, w')" "closed name w"
    and f: "\<And>node. Node_name (f node) = Node_name node" "\<And>node. n = name \<Longrightarrow> Node_unschedulable (f node)"
  shows "closed name w'"
proof (cases "list_prefix D nodes_prefix w")
  case (Pair l w1)
  then have [simp]: "w1 = w" by (simp add: list_prefix_iff)
  show ?thesis
  proof (cases "\<exists>kvs k node. l = Inr kvs \<and> find (\<lambda>(_, node). Node_name node = n) (decoded (Node_codec C) kvs) = Some (k, node)")
    case True
    then obtain kvs k node where 1: "l = Inr kvs" "find (\<lambda>(_, node). Node_name node = n) (decoded (Node_codec C) kvs) = Some (k, node)" by blast
    note node = found_node [OF Pair [unfolded 1(1) \<open>w1 = w\<close>] 1(2)]
    have "put_json D (Node_codec C) k (f node) w = (r, w')"
      using assms(1) by (simp add: find_and_update_node_def bindM_def Pair 1)
    moreover have "good name k (f node)" using closed_good [OF assms(2) node(1)] node(2) f by (auto simp: good_def)
    ultimately show ?thesis using assms(2) by (blast intro: closed_put)
  next
    case False
    then have "w' = w" using assms(1)
      by (auto simp: find_and_update_node_def bindM_def Pair failM_def split: sum.splits option.splits)
    then show ?thesis using assms(2) by simp
  qed
qed

text \<open>Pods do not stand among the nodes: draining the pods changes no node.\<close>

lemma pod_key_no_node: "prefix all_pods_prefix k \<Longrightarrow> \<not> prefix nodes_prefix k"
  by (auto simp: all_pods_prefix_def nodes_prefix_def prefix_def)

lemma drain_pods_other:
  "drain_pods D C n kvs i w = (r, w') \<Longrightarrow> \<forall>(k, v)\<in>set kvs. prefix all_pods_prefix k \<Longrightarrow> \<not> prefix all_pods_prefix k \<Longrightarrow> lookup w' k = lookup w k"
proof (induction kvs arbitrary: i w)
  case Nil
  then show ?case by (simp add: returnM_def)
next
  case (Cons kv kvs)
  obtain key v where kv: "kv = (key, v)" by (cases kv)
  have "key \<noteq> k" using Cons.prems(2,3) by (auto simp: kv)
  then have put: "lookup (snd (store_put D key data w)) k = lookup w k" for data
    using store_put_other [of key data w] by (metis prod.collapse)
  show ?case using Cons.prems Cons.IH put
    by (fastforce simp: kv bindM_def ignoreM_def split: sum.splits if_splits)
qed

lemma drain_run:
  assumes "drain_node D C n w = (r, w')"
  obtains u w1 where "find_and_update_node D C n start_drain w = (u, w1)" and "\<And>k. prefix nodes_prefix k \<Longrightarrow> lookup w' k = lookup w1 k"
proof -
  obtain u w1 where u: "find_and_update_node D C n start_drain w = (u, w1)" by fastforce
  have "lookup w' k = lookup w1 k" if k: "prefix nodes_prefix k" for k
  proof (cases "\<exists>kvs v. u = Inr v \<and> fst (list_prefix D all_pods_prefix w1) = Inr kvs")
    case True
    then obtain kvs where l: "list_prefix D all_pods_prefix w1 = (Inr kvs, w1)" and [simp]: "u = Inr ()" by (auto simp: list_prefix_iff)
    then obtain q where "drain_pods D C n kvs 0 w1 = (q, w')"
      using assms by (auto simp: drain_node_def bindM_def tryM_def returnM_def u split: sum.splits prod.splits)
    moreover have "\<forall>(k, v)\<in>set kvs. prefix all_pods_prefix k" using list_prefix_lookup [OF l] by auto
    moreover have "\<not> prefix all_pods_prefix k" using k pod_key_no_node by blast
    ultimately show ?thesis by (rule drain_pods_other)
  next
    case False
    then have "w' = w1" using assms by (auto simp: drain_node_def bindM_def tryM_def returnM_def u split: sum.splits prod.splits)
    then show ?thesis by simp
  qed
  with u show thesis by (rule that)
qed

lemma tried_update: "bindM (tryM (find_and_update_node D C n f)) (\<lambda>r. returnM (g r)) w = (q, w') \<Longrightarrow> \<exists>u. find_and_update_node D C n f w = (u, w')"
  by (rule exI [of _ "fst (find_and_update_node D C n f w)"]) (auto simp: bindM_def tryM_def returnM_def prod_eq_iff)

lemma heartbeat_closed:
  assumes "node_heartbeat D C E n w = (r, w')" "closed name w"
  shows "closed name w'"
proof (cases "\<exists>kvs k node. list_prefix D nodes_prefix w = (Inr kvs, w) \<and> find (\<lambda>(_, node). Node_name node = n) (decoded (Node_codec C) kvs) = Some (k, node)")
  case True
  then obtain kvs k node where 1: "list_prefix D nodes_prefix w = (Inr kvs, w)" "find (\<lambda>(_, node). Node_name node = n) (decoded (Node_codec C) kvs) = Some (k, node)" by blast
  let ?w = "w\<lparr>clock_reads := Suc (clock_reads w)\<rparr>"
  obtain q where "put_json D (Node_codec C) k (node\<lparr>Node_last_heartbeat := utc_now E (clock_reads w), Node_status := Node_Ready\<rparr>) ?w = (q, w')"
    using assms(1) by (auto simp: node_heartbeat_def bindM_def tryM_def returnM_def read_clock_def 1 prod_eq_iff)
  moreover have "closed name ?w" using assms(2) by (simp add: closed_def)
  moreover have "good name k (node\<lparr>Node_last_heartbeat := utc_now E (clock_reads w), Node_status := Node_Ready\<rparr>)"
    using closed_good [OF assms(2) found_node(1) [OF 1]] by (simp add: good_def)
  ultimately show ?thesis by (rule closed_put)
next
  case False
  then have "w' = w" using assms(1)
    by (auto simp: node_heartbeat_def bindM_def tryM_def returnM_def list_prefix_iff split: sum.splits option.splits)
  then show ?thesis using assms(2) by simp
qed

lemma register_run:
  assumes "register_node D C E ca join_token payload w = (r, w')" and get: "\<And>e. fst (store_get D (nodes_prefix @ req_node_name payload) w) \<noteq> Inl e"
  shows "lookup w' = lookup w \<or> (\<exists>n v. from_slice (Node_codec C) v = Inr n \<and> lookup w' = (lookup w)(nodes_prefix @ req_node_name payload \<mapsto> v) \<and>
      (case nodes w (nodes_prefix @ req_node_name payload) of
         Some old \<Rightarrow> Node_name n = Node_name old \<and> Node_unschedulable n = Node_unschedulable old
       | None \<Rightarrow> Node_name n = req_node_name payload))"
proof (cases "req_token payload = [] \<or> req_token payload \<noteq> join_token \<or> (\<exists>e. issue_node_cert ca (req_node_name payload) = Inl e)")
  case True
  then have "w' = w" using assms(1) by (auto simp: register_node_def returnM_def split: if_splits)
  then show ?thesis by simp
next
  case False
  let ?k = "nodes_prefix @ req_node_name payload"
  have tok: "req_token payload = join_token" "join_token \<noteq> []" using False by auto
  obtain cert key where cert: "issue_node_cert ca (req_node_name payload) = Inr (cert, key)" using False by (metis old.sum.exhaust surj_pair)
  obtain found where f: "fst (store_get D ?k w) = Inr found" using get by (metis old.sum.exhaust)
  have found: "lookup w ?k = found" by (rule tried_get [OF f])
  let ?old = "case found of Some data \<Rightarrow> ok (from_slice (Node_codec C) data) | None \<Rightarrow> None"
  have old: "nodes w ?k = ?old" using found by (auto simp: entries_in_def split: option.splits)
  let ?w = "w\<lparr>clock_reads := Suc (clock_reads w)\<rparr>"
  obtain node_id w1 where id: "(case ?old of Some existing \<Rightarrow> returnM (Node_id existing) | None \<Rightarrow> draw_uuid E) ?w = (Inr node_id, w1)"
    and same: "lookup w1 = lookup w"
    by (cases ?old) (simp_all add: returnM_def draw_uuid_def)
  define n where "n = registered_node payload ?old node_id (utc_now E (clock_reads w))"
  have n: "case ?old of Some old \<Rightarrow> Node_name n = Node_name old \<and> Node_unschedulable n = Node_unschedulable old
         | None \<Rightarrow> Node_name n = req_node_name payload"
    by (simp add: n_def registered_node_def split: option.split)
  have "register_node D C E ca join_token payload w = (case to_vec (Node_codec C) n of
      Inl _ \<Rightarrow> returnM (INTERNAL_SERVER_ERROR, Text ''Serialization failed'')
    | Inr data \<Rightarrow> bindM (tryM (store_put D ?k data)) (\<lambda>r. returnM (case r of
        Inl _ \<Rightarrow> (INTERNAL_SERVER_ERROR, Text ''Failed to persist node'')
      | Inr _ \<Rightarrow> (OK, Json \<lparr> resp_node_id = node_id, resp_certificate = cert, resp_private_key = key,
          resp_server_ca = ca_cert_pem ca, resp_agent_api_port = DEFAULT_AGENT_API_PORT \<rparr>)))) w1"
    by (simp add: register_node_def tok Let_def cert bindM_try bindM_clock f n_def
        bindM_step [of "case ?old of Some existing \<Rightarrow> returnM (Node_id existing) | None \<Rightarrow> draw_uuid E", OF id])
  then have run: "w' = w1 \<or> (\<exists>data q. to_vec (Node_codec C) n = Inr data \<and> store_put D ?k data w1 = (q, w'))"
    using assms(1) by (auto simp: bindM_try returnM_def prod_eq_iff split: sum.splits)
  show ?thesis
  proof (cases "w' = w1")
    case True
    then show ?thesis using same by simp
  next
    case False
    then obtain data q where d: "to_vec (Node_codec C) n = Inr data" "store_put D ?k data w1 = (q, w')" using run by blast
    have "from_slice (Node_codec C) data = Inr n" using d(1) by (rule codec_okD [OF codecs(2)])
    moreover have "lookup w' = lookup w1 \<or> lookup w' = (lookup w1)(?k \<mapsto> data)"
      using store_put_ok(1) store_put_err(1) d(2) by (cases q) blast+
    ultimately show ?thesis using n old same by auto
  qed
qed

lemma register_closed:
  assumes "register_node D C E ca join_token payload w = (r, w')" "\<And>e. fst (store_get D (nodes_prefix @ req_node_name payload) w) \<noteq> Inl e" "closed name w"
  shows "closed name w'"
proof -
  let ?k = "nodes_prefix @ req_node_name payload"
  consider "lookup w' = lookup w" | n v where "from_slice (Node_codec C) v = Inr n" "lookup w' = (lookup w)(?k \<mapsto> v)"
    "case nodes w ?k of Some old \<Rightarrow> Node_name n = Node_name old \<and> Node_unschedulable n = Node_unschedulable old | None \<Rightarrow> Node_name n = req_node_name payload"
    using register_run [OF assms(1,2)] by blast
  then show ?thesis
  proof cases
    case 2
    then have "nodes w' = (nodes w)(?k \<mapsto> n)" by (simp add: entries_in_put)
    moreover have "good name ?k n"
      using 2(3) assms(3) by (auto simp: closed_def good_def nodes_keyed_def cordoned_def split: option.splits)
    ultimately show ?thesis using closed_upd assms(3) by blast
  qed (use assms(3) in \<open>simp add: closed_def\<close>)
qed

lemma reconcile_closed:
  assumes "node_reconcile D C E w = (r, w')" "closed name w"
  shows "closed name w'"
proof (cases "list_prefix D nodes_prefix w")
  case (Pair l w1)
  then have [simp]: "w1 = w" by (simp add: list_prefix_iff)
  show ?thesis
  proof (cases l)
    case (Inl e)
    then show ?thesis using assms by (simp add: node_reconcile_def bindM_def Pair)
  next
    case (Inr kvs)
    let ?now = "utc_now E (clock_reads w)" and ?w = "w\<lparr>clock_reads := Suc (clock_reads w)\<rparr>"
    have loop: "forM (decoded (Node_codec C) kvs) (\<lambda>(k, x). whenM (Node_status x \<noteq> node_status_at ?now x)
        (put_json D (Node_codec C) k (x\<lparr>Node_status := node_status_at ?now x\<rparr>))) ?w = (r, w')"
      using assms(1) by (simp add: node_reconcile_def bindM_def Pair Inr read_clock_def Let_def for_decoded)
    have g: "good name k (x\<lparr>Node_status := s\<rparr>)" if "(k, x) \<in> set (decoded (Node_codec C) kvs)" for k x s
      using closed_good [OF assms(2)] that list_entries(1) [OF Pair [unfolded Inr]] by (fastforce simp: good_def)
    have "keeps (closed name) (forM (decoded (Node_codec C) kvs) (\<lambda>(k, x). whenM (Node_status x \<noteq> node_status_at ?now x)
        (put_json D (Node_codec C) k (x\<lparr>Node_status := node_status_at ?now x\<rparr>))))"
      by (intro keeps_for) (auto simp: keeps_def whenM_def returnM_def intro!: closed_put_snd g)
    moreover have "closed name ?w" using assms(2) by (simp add: closed_def)
    ultimately show ?thesis using loop by (rule keepsD)
  qed
qed

lemma node_step_closed: "node_step D C E ca join_token name w w' \<Longrightarrow> closed name w \<Longrightarrow> closed name w'"
proof (induction rule: node_step.induct)
  case (cordon n w r w')
  then show ?case using tried_update [OF cordon(1) [unfolded cordon_node_def]] update_closed [where f = Node_Api.cordon]
    by (force simp: Node_Api.cordon_def)
next
  case (uncordon n w r w')
  then show ?case using tried_update [OF uncordon(1) [unfolded uncordon_node_def]] update_closed [where f = Node_Api.uncordon]
    by (force simp: Node_Api.uncordon_def)
next
  case (drain n w r w')
  obtain u w1 where "find_and_update_node D C n start_drain w = (u, w1)" and same: "\<And>k. prefix nodes_prefix k \<Longrightarrow> lookup w' k = lookup w1 k"
    using drain_run [OF drain(1)] by blast
  then have "closed name w1" using drain(2) by (auto intro: update_closed [where f = start_drain] simp: start_drain_def)
  then show ?case using closed_other [OF same] by blast
next
  case (heartbeat n w r w')
  then show ?case by (rule heartbeat_closed)
next
  case (register payload w q w')
  then show ?case by (blast intro: register_closed)
next
  case (reconcile w u w')
  then show ?case by (rule reconcile_closed)
qed

text \<open>A cordon that answers 200 closes the node.\<close>

lemma update_ok:
  assumes "find_and_update_node D C n f w = (Inr u, w')" "nodes_keyed (nodes w)"
    and f: "\<And>node. Node_name (f node) = Node_name node"
  shows "\<exists>node. nodes w (nodes_prefix @ n) = Some node \<and> nodes w' = (nodes w)(nodes_prefix @ n \<mapsto> f node)"
    and "nodes_keyed (nodes w')" and "\<not> prefix nodes_prefix k \<Longrightarrow> lookup w' k = lookup w k"
proof -
  obtain kvs k node where l: "list_prefix D nodes_prefix w = (Inr kvs, w)" "find (\<lambda>(_, node). Node_name node = n) (decoded (Node_codec C) kvs) = Some (k, node)"
    and put: "put_json D (Node_codec C) k (f node) w = (Inr (), w')"
    using assms(1) by (auto simp: find_and_update_node_def bindM_Inr list_prefix_iff failM_def split: option.splits)
  note node = found_node [OF l]
  from assms(2) node have k: "k = nodes_prefix @ n" by (auto simp: nodes_keyed_def)
  have e: "nodes w' = (nodes w)(nodes_prefix @ n \<mapsto> f node)"
    using put_entries [OF put codecs(2), of nodes_prefix] by (simp add: k)
  then show "\<exists>node. nodes w (nodes_prefix @ n) = Some node \<and> nodes w' = (nodes w)(nodes_prefix @ n \<mapsto> f node)" using node k by blast
  show "nodes_keyed (nodes w')" using assms(2) node f by (auto simp: e nodes_keyed_def)
  show "\<not> prefix nodes_prefix k \<Longrightarrow> lookup w' k = lookup w k" for k using put_json_other [OF put, of k]
    by (cases "k = nodes_prefix @ n") (simp_all add: k)
qed

lemma cordon_closes:
  assumes "cordon_node D C name w = (Inr (OK, b), w')" "nodes_keyed (nodes w)"
  shows "closed name w'"
proof -
  have r: "find_and_update_node D C name cordon w = (Inr (), w')"
    using assms(1) by (cases "find_and_update_node D C name cordon w") (auto simp: cordon_node_def bindM_try returnM_def split: sum.splits)
  show ?thesis using update_ok(1,2) [OF r assms(2)] by (auto simp: closed_def cordoned_def cordon_def)
qed

text \<open>The drain loop, when encoding and writing succeed.\<close>

lemma drain_pods_ok:
  assumes enc: "\<And>p. \<exists>v. to_vec (Pod_codec C) p = Inr v" and wr: "\<And>db k v. \<exists>db'. db_put D db k v = (Inr (), db')"
  shows "distinct (map fst kvs) \<Longrightarrow> \<forall>(k, v)\<in>set kvs. prefix p k \<Longrightarrow>
    \<exists>w'. drain_pods D C n kvs i w = (Inr (i + of_nat (length (filter (\<lambda>(_, x). Pod_node_name x = Some n) (decoded (Pod_codec C) kvs)))), w') \<and>
      (\<forall>k. entries_in (Pod_codec C) p (lookup w') k = (case map_of (decoded (Pod_codec C) kvs) k of
         Some x \<Rightarrow> if Pod_node_name x = Some n then Some (evicted x) else entries_in (Pod_codec C) p (lookup w) k
       | None \<Rightarrow> entries_in (Pod_codec C) p (lookup w) k))"
proof (induction kvs arbitrary: i w)
  case Nil
  then show ?case by (simp add: returnM_def)
next
  case (Cons kv kvs)
  obtain key v where kv: "kv = (key, v)" by (cases kv)
  note IH = Cons.IH [OF _ _] and d = Cons.prems
  have d': "distinct (map fst kvs)" "\<forall>(k, v)\<in>set kvs. prefix p k" "prefix p key" "map_of (decoded (Pod_codec C) kvs) key = None"
    using d decoded_keys [of "Pod_codec C" kvs] by (auto simp: kv map_of_eq_None_iff)
  show ?case
  proof (cases "\<exists>x. from_slice (Pod_codec C) v = Inr x \<and> Pod_node_name x = Some n")
    case True
    then obtain x where x: "from_slice (Pod_codec C) v = Inr x" "Pod_node_name x = Some n" by blast
    obtain data where data: "to_vec (Pod_codec C) (evicted x) = Inr data" using enc by blast
    obtain w1 where w1: "store_put D key data w = (Inr (), w1)"
      using wr [of "StateStore_db w" key data] by (auto simp: store_put_def)
    have "entries_in (Pod_codec C) p (lookup w1) = (entries_in (Pod_codec C) p (lookup w))(key \<mapsto> evicted x)"
      using store_put_ok(1) [OF w1] codec_okD [OF codecs(1) data] d'(3) by (simp add: entries_in_put)
    note e1 = this
    have step: "drain_pods D C n (kv # kvs) i w = drain_pods D C n kvs (i + 1) w1"
      by (simp add: kv x data bindM_def ignoreM_def w1)
    from Cons.IH [OF d'(1,2), of "i + 1" w1] obtain w' where
      run: "drain_pods D C n kvs (i + 1) w1 = (Inr (i + 1 + of_nat (length (filter (\<lambda>(_, x). Pod_node_name x = Some n) (decoded (Pod_codec C) kvs)))), w')"
      and e: "\<And>k. entries_in (Pod_codec C) p (lookup w') k = (case map_of (decoded (Pod_codec C) kvs) k of
         Some x \<Rightarrow> if Pod_node_name x = Some n then Some (evicted x) else entries_in (Pod_codec C) p (lookup w1) k
       | None \<Rightarrow> entries_in (Pod_codec C) p (lookup w1) k)" by blast
    show ?thesis unfolding step run
      by (intro exI [of _ w'] conjI allI) (simp_all add: e e1 kv decoded_Cons x d'(4) split: option.split)
  next
    case False
    then have "drain_pods D C n (kv # kvs) i w = drain_pods D C n kvs i w" by (auto simp: kv split: sum.splits)
    then show ?thesis using Cons.IH [OF d'(1,2), of i w] False d'(4) by (auto simp: kv decoded_Cons split: sum.splits option.splits)
  qed
qed

lemma update_total:
  fixes w :: "('db, 'v) world"
  assumes "\<And>n. \<exists>v. to_vec (Node_codec C) n = Inr v" "\<And>db k v. \<exists>db'. db_put D db k v = (Inr (), db')"
    and "list_prefix D nodes_prefix w = (Inr kvs, w)" and "nodes w (nodes_prefix @ n) = Some node" "Node_name node = n"
  shows "\<exists>w'. find_and_update_node D C n f w = (Inr (), w')"
proof -
  have "(nodes_prefix @ n, node) \<in> set (decoded (Node_codec C) kvs)" using assms(4) by (simp add: list_entries(1) [OF assms(3)])
  then obtain k x where f: "find (\<lambda>(_, node). Node_name node = n) (decoded (Node_codec C) kvs) = Some (k, x)"
    using assms(5) by (cases "find (\<lambda>(_, node). Node_name node = n) (decoded (Node_codec C) kvs)") (auto simp: find_None_iff)
  obtain v where v: "to_vec (Node_codec C) (f x) = Inr v" using assms(1) by blast
  obtain db' where "db_put D (StateStore_db w) k v = (Inr (), db')" using assms(2) by blast
  then show ?thesis using assms(3) f v by (simp add: find_and_update_node_def bindM_def put_json_def liftR_def store_put_def)
qed

lemma listed_count:
  assumes "list_prefix D p w = (Inr kvs, w)"
  shows "length (filter (\<lambda>(_, x). P x) (decoded c kvs)) = card {k. \<exists>x. entries_in c p (lookup w) k = Some x \<and> P x}"
proof -
  have d: "distinct (map fst (filter (\<lambda>(_, x). P x) (decoded c kvs)))"
    using list_entries(3) [OF assms, of c] by (rule distinct_map_filter)
  have "fst ` set (filter (\<lambda>(_, x). P x) (decoded c kvs)) = {k. \<exists>x. entries_in c p (lookup w) k = Some x \<and> P x}"
    using list_entries(1) [OF assms, where c = c] by force
  then show ?thesis using distinct_card [OF d] by simp
qed

lemma drain_ok:
  fixes w :: "('db, 'v) world"
  assumes "\<And>p. \<exists>v. to_vec (Pod_codec C) p = Inr v" "\<And>n. \<exists>v. to_vec (Node_codec C) n = Inr v"
    and "\<And>db k v. \<exists>db'. db_put D db k v = (Inr (), db')" and scan: "\<And>p w. \<exists>kvs. list_prefix D p w = (Inr kvs, w :: ('db, 'v) world)"
    and "nodes_keyed (nodes w)" and node: "nodes w (nodes_prefix @ name) = Some node"
  shows "\<exists>w'. drain_node D C name w = (Inr (OK, Json (Drained (of_nat (card {k. \<exists>p. entries_in (Pod_codec C) all_pods_prefix (lookup w) k = Some p \<and> Pod_node_name p = Some name})))), w') \<and>
    entries_in (Pod_codec C) all_pods_prefix (lookup w') = (\<lambda>k. map_option (\<lambda>p. if Pod_node_name p = Some name then evicted p else p) (entries_in (Pod_codec C) all_pods_prefix (lookup w) k)) \<and>
    nodes w' (nodes_prefix @ name) = Some (start_drain node)"
proof -
  let ?pods = "\<lambda>w :: ('db, 'v) world. entries_in (Pod_codec C) all_pods_prefix (lookup w)"
  have "Node_name node = name" using assms(5) node by (auto simp: nodes_keyed_def)
  then obtain w1 where upd: "find_and_update_node D C name start_drain w = (Inr (), w1)"
    using update_total [OF assms(2,3) _ node] scan by blast
  have n: "Node_name (start_drain x) = Node_name x" for x by (simp add: start_drain_def)
  note u = update_ok [OF upd assms(5) n]
  have nodes1: "nodes w1 (nodes_prefix @ name) = Some (start_drain node)" using u(1) node by auto
  have pods1: "?pods w1 = ?pods w" by (rule entries_in_cong) (use u(3) pod_key_no_node in blast)
  obtain kvs where l: "list_prefix D all_pods_prefix w1 = (Inr kvs, w1)" using scan by blast
  have keys: "distinct (map fst kvs)" "\<forall>(k, v)\<in>set kvs. prefix all_pods_prefix k"
    using list_prefix_ok(3) [OF l] list_prefix_lookup [OF l] by auto
  obtain w' where run: "drain_pods D C name kvs 0 w1 = (Inr (of_nat (card {k. \<exists>p. ?pods w k = Some p \<and> Pod_node_name p = Some name})), w')"
    and e: "\<And>k. ?pods w' k = (case map_of (decoded (Pod_codec C) kvs) k of
         Some x \<Rightarrow> if Pod_node_name x = Some name then Some (evicted x) else ?pods w1 k | None \<Rightarrow> ?pods w1 k)"
    using drain_pods_ok [OF assms(1,3) keys, of name 0 w1] unfolding listed_count [OF l] pods1 by auto
  have "drain_node D C name w = (Inr (OK, Json (Drained (of_nat (card {k. \<exists>p. ?pods w k = Some p \<and> Pod_node_name p = Some name})))), w')"
    by (simp add: drain_node_def bindM_try upd l bindM_step [of "drain_pods D C name kvs 0", OF run] returnM_def)
  moreover have "?pods w' = (\<lambda>k. map_option (\<lambda>p. if Pod_node_name p = Some name then evicted p else p) (?pods w k))"
    by (rule ext) (simp add: e list_entries(2) [OF l] pods1 split: option.split)
  moreover have "nodes w' = nodes w1"
    by (rule entries_in_cong) (use drain_pods_other [OF run keys(2)] pod_key_no_node in blast)
  ultimately show ?thesis using nodes1 by auto
qed

end

section \<open>Properties\<close>

text \<open>C26: a cordon lasts: once a cordon of a node has answered 200, the node stays unschedulable through
  every sequence of cordons, drains, heartbeats, registrations (of this node too), passes of the node
  controller and uncordons of other nodes, whatever their outcome, and the scheduler, given the
  stored nodes, never chooses it; registrations that cannot read the store are excluded.\<close>

theorem cordon_holds:
  assumes "registry D content C" and "nodes_keyed (entries_in (Node_codec C) nodes_prefix (content (StateStore_db w)))"
    and "cordon_node D C name w = (Inr (OK, b), w1)" and "(node_step D C E ca join_token name)\<^sup>*\<^sup>* w1 w2"
    and "list_prefix D nodes_prefix w2 = (Inr kvs, w2)" and "schedule pod (decoded_values (Node_codec C) kvs) i = (Some chosen, i')"
  shows "cordoned name (entries_in (Node_codec C) nodes_prefix (content (StateStore_db w2))) \<and> chosen \<noteq> name"
proof -
  have "registry.closed content C name w2" using assms(4)
    by induction (auto intro: registry.node_step_closed [OF assms(1)] registry.cordon_closes [OF assms(1,3,2)])
  then have c: "nodes_keyed (entries_in (Node_codec C) nodes_prefix (content (StateStore_db w2)))"
    "cordoned name (entries_in (Node_codec C) nodes_prefix (content (StateStore_db w2)))"
    by (simp_all add: registry.closed_def [OF assms(1)])
  obtain n where n: "n \<in> set (decoded_values (Node_codec C) kvs)" "is_node_eligible n pod" "Node_name n = chosen"
    using schedule_Some(1) [OF assms(6)] by blast
  then obtain k where "entries_in (Node_codec C) nodes_prefix (content (StateStore_db w2)) k = Some n"
    using registry.list_values_ok(2) [OF assms(1,5), where c = "Node_codec C" and x = n] by blast
  moreover from this c(1) have "k = nodes_prefix @ Node_name n" unfolding nodes_keyed_def by blast
  ultimately have "entries_in (Node_codec C) nodes_prefix (content (StateStore_db w2)) (nodes_prefix @ chosen) = Some n" by (simp add: n(3))
  with c(2) eligible_facts(2) [OF n(2)] have "chosen \<noteq> name" unfolding cordoned_def by (metis option.inject)
  with c show ?thesis by blast
qed

text \<open>What a drain does when the store works: it answers 200 with the number of pods that were on the
  node, every such pod is Pending without a node afterwards whatever its status was, all other pods
  are as before, and the node is unschedulable and NotReady.\<close>

theorem drain_evicts:
  fixes w :: "('db, 'v) world"
  assumes "registry D content C" and "\<And>p. \<exists>v. to_vec (Pod_codec C) p = Inr v" "\<And>n. \<exists>v. to_vec (Node_codec C) n = Inr v"
    and "\<And>db k v. \<exists>db'. db_put D db k v = (Inr (), db')" and "\<And>p w. \<exists>kvs. list_prefix D p w = (Inr kvs, w :: ('db, 'v) world)"
    and "nodes_keyed (entries_in (Node_codec C) nodes_prefix (content (StateStore_db w)))"
    and "entries_in (Node_codec C) nodes_prefix (content (StateStore_db w)) (nodes_prefix @ name) = Some node"
  defines "pods \<equiv> \<lambda>w :: ('db, 'v) world. entries_in (Pod_codec C) all_pods_prefix (content (StateStore_db w))"
  shows "\<exists>w'. drain_node D C name w = (Inr (OK, Json (Drained (of_nat (card {k. \<exists>p. pods w k = Some p \<and> Pod_node_name p = Some name})))), w') \<and>
    pods w' = (\<lambda>k. map_option (\<lambda>p. if Pod_node_name p = Some name then evicted p else p) (pods w k)) \<and>
    entries_in (Node_codec C) nodes_prefix (content (StateStore_db w')) (nodes_prefix @ name) = Some (start_drain node)"
  unfolding pods_def by (rule registry.drain_ok [OF assms(1-7)])

section \<open>Runs\<close>

lemma mem_total:
  "\<exists>v. to_vec (Pod_codec tag_serde) p = Inr v" "\<exists>v. to_vec (Node_codec tag_serde) n = Inr v"
  "\<exists>db'. db_put mem_slatedb db k v = (Inr (), db')" "\<exists>kvs. list_prefix mem_slatedb q s = (Inr kvs, s)"
  by (simp_all add: tag_serde_def tag_codec_def mem_slatedb_def list_prefix_def)

text \<open>Two nodes; the first is cordoned and then sends a heartbeat.\<close>

definition two_nodes :: "((string \<times> json) list, json) world" where
  "two_nodes = \<lparr> StateStore_db = [(''/registry/nodes/n1'', V_Node (sample_node ''n1'')), (''/registry/nodes/n2'', V_Node (sample_node ''n2''))],
     StateStore_event_log = EventLog_new 16, rr_index = 0, uuid_draws = 0, clock_reads = 0 \<rparr>"

definition cordoned_run :: "node_reply response result \<times> ((string \<times> json) list, json) world" where
  "cordoned_run = cordon_node mem_slatedb tag_serde ''n1'' two_nodes"

definition alive_run :: "node_reply response result \<times> ((string \<times> json) list, json) world" where
  "alive_run = node_heartbeat mem_slatedb tag_serde late_env ''n1'' (snd cordoned_run)"

definition alive_nodes :: "Node list" where
  "alive_nodes = decoded_values (Node_codec tag_serde) (StateStore_db (snd alive_run))"

lemma cordoned_run_ok: "fst cordoned_run = Inr (OK, Json Cordoned)"
  "list_prefix mem_slatedb nodes_prefix (snd alive_run) = (Inr (StateStore_db (snd alive_run)), snd alive_run)"
  "schedule (sample_pod ''web'') alive_nodes 0 = (Some ''n2'', 1)"
  by code_simp+

lemma two_nodes_keyed: "nodes_keyed (entries_in (Node_codec tag_serde) nodes_prefix (map_of (StateStore_db two_nodes)))"
  by (auto simp: nodes_keyed_def entries_in_Some two_nodes_def nodes_prefix_def tag_serde_def tag_codec_def ok_or_def sample_node_def split: if_splits)

theorem cordon_holds_witness:
  "cordoned ''n1'' (entries_in (Node_codec tag_serde) nodes_prefix (map_of (StateStore_db (snd alive_run)))) \<and> ''n2'' \<noteq> ''n1''"
proof -
  have run: "cordon_node mem_slatedb tag_serde ''n1'' two_nodes = (Inr (OK, Json Cordoned), snd cordoned_run)"
    using cordoned_run_ok(1) by (metis prod.collapse cordoned_run_def)
  have "node_step mem_slatedb tag_serde late_env ca tok ''n1'' (snd cordoned_run) (snd alive_run)" for ca tok
    unfolding alive_run_def by (rule node_step.heartbeat [OF surjective_pairing])
  from cordon_holds [OF memreg.registry_axioms two_nodes_keyed run r_into_rtranclp [of "node_step mem_slatedb tag_serde late_env \<lparr> issue_node_cert = (\<lambda>_. Inr ([], [])), ca_cert_pem = [] \<rparr> [] ''n1''", OF this]
      cordoned_run_ok(2) cordoned_run_ok(3) [unfolded alive_nodes_def]] show ?thesis .
qed

theorem drain_evicts_witness:
  "\<exists>w'. drain_node mem_slatedb tag_serde ''n1'' silent_world = (Inr (OK, Json (Drained 1)), w') \<and>
     entries_in (Pod_codec tag_serde) all_pods_prefix (map_of (StateStore_db w')) ''/registry/pods/default/web'' = Some (sample_pod ''web'')"
proof -
  let ?pod = "(sample_pod ''web'')\<lparr>Pod_node_name := Some ''n1'', Pod_status := Pod_Running\<rparr>"
  have pods: "entries_in (Pod_codec tag_serde) all_pods_prefix (map_of (StateStore_db silent_world)) = [''/registry/pods/default/web'' \<mapsto> ?pod]"
    by (auto simp: fun_eq_iff entries_in_def silent_world_def all_pods_prefix_def tag_serde_def tag_codec_def ok_or_def)
  have node: "entries_in (Node_codec tag_serde) nodes_prefix (map_of (StateStore_db silent_world)) = [''/registry/nodes/n1'' \<mapsto> sample_node ''n1'']"
    by (auto simp: fun_eq_iff entries_in_def silent_world_def nodes_prefix_def tag_serde_def tag_codec_def ok_or_def)
  have k: "nodes_prefix @ ''n1'' = ''/registry/nodes/n1''" by (simp add: nodes_prefix_def)
  have keyed: "nodes_keyed [''/registry/nodes/n1'' \<mapsto> sample_node ''n1'']" by (simp add: nodes_keyed_def nodes_prefix_def sample_node_def)
  have one: "{k. \<exists>p. [''/registry/pods/default/web'' \<mapsto> ?pod] k = Some p \<and> Pod_node_name p = Some ''n1''} = {''/registry/pods/default/web''}"
    by auto
  from drain_evicts [OF memreg.registry_axioms mem_total, of silent_world "''n1''" "sample_node ''n1''", unfolded pods node k one]
  obtain w' where "drain_node mem_slatedb tag_serde ''n1'' silent_world = (Inr (OK, Json (Drained 1)), w')"
    "entries_in (Pod_codec tag_serde) all_pods_prefix (map_of (StateStore_db w')) = (\<lambda>k. map_option (\<lambda>p. if Pod_node_name p = Some ''n1'' then evicted p else p)
       ([''/registry/pods/default/web'' \<mapsto> ?pod] k))" using keyed by auto
  then show ?thesis by (intro exI [of _ w']) (simp add: evicted_def sample_pod_def)
qed

end
