(* ===== verification/Resource_Api.thy ===== *)
theory Resource_Api
  imports Api_Base Vpc_Api Endpoint_Controller Ipv6_Text
begin

text \<open>
  The resource handlers of the API server (\<open>pkg/api/src/handlers/resources.rs\<close>, \<open>endpoints.rs\<close>): creation,
  listing with field selectors, status updates, and deletion with its cascade. The lemmas show what
  each branch of a pod creation answers and stores, that a field selector is a filter, and that
  deleting a deployment takes its ReplicaSets and their pods with it and nothing else.
\<close>

section \<open>Field selectors\<close>

definition parse_field_selector :: "string \<Rightarrow> (string \<times> string) list" where
  "parse_field_selector selector = List.map_filter (\<lambda>kv.
     case split_once (CHR ''='') kv of
       None \<Rightarrow> None
     | Some (field, val) \<Rightarrow> if trim field = [] then None else Some (trim field, trim val)) (split_on (CHR '','') selector)"

definition retain_field :: "string \<times> string \<Rightarrow> Pod list \<Rightarrow> Pod list" where
  "retain_field = (\<lambda>(field, val) pods.
     if field = ''spec.nodeName'' then filter (\<lambda>p. Pod_node_name p = Some val) pods
     else if field = ''metadata.namespace'' then filter (\<lambda>p. Pod_namespace p = val) pods
     else pods)"

definition apply_pod_field_selector :: "string \<Rightarrow> Pod list \<Rightarrow> Pod list" where
  "apply_pod_field_selector selector pods = fold retain_field (parse_field_selector selector) pods"

definition select_pods :: "string option \<Rightarrow> Pod list \<Rightarrow> Pod list" where
  "select_pods field_selector pods = (case field_selector of Some selector \<Rightarrow> apply_pod_field_selector selector pods | None \<Rightarrow> pods)"

definition pods_root_prefix :: string where "pods_root_prefix = ''/registry/pods/''"

definition list_pods :: "('db, 'v) SlateDb \<Rightarrow> 'v serde \<Rightarrow> string \<Rightarrow> string option \<Rightarrow> (('db, 'v) world, Pod list response) act" where
  "list_pods D C ns field_selector =
     bindM (list_values D (Pod_codec C) (pods_prefix ns)) (\<lambda>pods. returnM (OK, Json (select_pods field_selector pods)))"

definition list_all_pods :: "('db, 'v) SlateDb \<Rightarrow> 'v serde \<Rightarrow> string option \<Rightarrow> (('db, 'v) world, Pod list response) act" where
  "list_all_pods D C field_selector =
     bindM (list_values D (Pod_codec C) pods_root_prefix) (\<lambda>pods. returnM (OK, Json (select_pods field_selector pods)))"

definition list_node_pods :: "('db, 'v) SlateDb \<Rightarrow> 'v serde \<Rightarrow> string \<Rightarrow> (('db, 'v) world, Pod list response) act" where
  "list_node_pods D C node_name =
     bindM (list_values D (Pod_codec C) pods_root_prefix) (\<lambda>pods.
       returnM (OK, Json (filter (\<lambda>p. Pod_node_name p = Some node_name) pods)))"

section \<open>Pods\<close>

definition show_vpc_status :: "VpcStatus \<Rightarrow> string" where
  "show_vpc_status s = (case s of Vpc_Active \<Rightarrow> ''Active'' | Vpc_Terminating \<Rightarrow> ''Terminating'' | Vpc_Deleted \<Rightarrow> ''Deleted'')"

text \<open>The dash of the message is three UTF-8 bytes.\<close>

definition vpc_blocked_msg :: "string \<Rightarrow> VpcStatus \<Rightarrow> string" where
  "vpc_blocked_msg name s = ''VPC '' @ [CHR 0x27] @ name @ [CHR 0x27] @ '' is '' @ show_vpc_status s @ '' '' @
     [CHR 0xE2, CHR 0x80, CHR 0x94] @ '' cannot create new pods''"

text \<open>The VPC that blocks the pod: found, decoded and not Active.\<close>

definition blocking :: "'v serde \<Rightarrow> 'v option result \<Rightarrow> Vpc option" where
  "blocking C found =
     (case found of
        Inr (Some vpc_data) \<Rightarrow>
          (case from_slice (Vpc_codec C) vpc_data of
             Inr vpc \<Rightarrow> if Vpc_status vpc \<noteq> Vpc_Active then Some vpc else None
           | Inl _ \<Rightarrow> None)
      | _ \<Rightarrow> None)"

definition spec_vpc :: "Pod \<Rightarrow> string" where
  "spec_vpc pod = (case PodSpec_vpc (Pod_spec pod) of Some v \<Rightarrow> v | None \<Rightarrow> ''default'')"

text \<open>\<open>scheduler\<close>: whether the server was started with one.\<close>

definition create_pod :: "('db, 'v) SlateDb \<Rightarrow> 'v serde \<Rightarrow> env \<Rightarrow> bool \<Rightarrow> string \<Rightarrow> Pod \<Rightarrow> (('db, 'v) world, Pod response) act" where
  "create_pod D C E scheduler ns pod =
     bindM (draw_uuid E) (\<lambda>uid.
     bindM (read_clock E) (\<lambda>now.
       let pod = pod\<lparr>Pod_id := uid, Pod_namespace := ns, Pod_status := Pod_Pending, Pod_created_at := now\<rparr>;
           vpc_name = spec_vpc pod
       in bindM (tryM (store_get D (vpcs_prefix @ vpc_name))) (\<lambda>found.
            case blocking C found of
              Some vpc \<Rightarrow> returnM (FORBIDDEN, Text (vpc_blocked_msg vpc_name (Vpc_status vpc)))
            | None \<Rightarrow>
                bindM (if scheduler then
                    bindM (list_values D (Node_codec C) nodes_prefix) (\<lambda>nodes.
                    bindM (schedule_pod pod nodes) (\<lambda>choice. returnM (assigned pod choice)))
                  else returnM pod) (\<lambda>pod.
                persist D (Pod_codec C) (pods_prefix ns @ Pod_name pod) pod CREATED (Text ''Failed to create pod'') (Text ''Serialization failed'')))))"

definition get_decoded :: "('db, 'v) SlateDb \<Rightarrow> ('v, 'a) codec \<Rightarrow> string \<Rightarrow> (('db, 'v) world, 'a response) act" where
  "get_decoded D c key =
     bindM (tryM (store_get D key)) (\<lambda>found. returnM (case found of
         Inr (Some data) \<Rightarrow> (case from_slice c data of Inr x \<Rightarrow> (OK, Json x) | Inl _ \<Rightarrow> (INTERNAL_SERVER_ERROR, Empty))
       | Inr None \<Rightarrow> (NOT_FOUND, Empty)
       | Inl _ \<Rightarrow> (INTERNAL_SERVER_ERROR, Empty)))"

definition get_pod :: "('db, 'v) SlateDb \<Rightarrow> 'v serde \<Rightarrow> string \<Rightarrow> string \<Rightarrow> (('db, 'v) world, Pod response) act" where
  "get_pod D C ns pod_name = get_decoded D (Pod_codec C) (pods_prefix ns @ pod_name)"

definition delete_pod :: "('db, 'v) SlateDb \<Rightarrow> string \<Rightarrow> string \<Rightarrow> (('db, 'v) world, Pod response) act" where
  "delete_pod D ns pod_name =
     bindM (tryM (store_delete D (pods_prefix ns @ pod_name))) (\<lambda>r. returnM (case r of
       Inr _ \<Rightarrow> (NO_CONTENT, Empty) | Inl _ \<Rightarrow> (INTERNAL_SERVER_ERROR, Empty)))"

definition update_pod_status :: "('db, 'v) SlateDb \<Rightarrow> 'v serde \<Rightarrow> string \<Rightarrow> string \<Rightarrow> PodStatus \<Rightarrow> (('db, 'v) world, Pod response) act" where
  "update_pod_status D C ns pod_name status = read_modify D (Pod_codec C) (pods_prefix ns @ pod_name) (\<lambda>pod. pod\<lparr>Pod_status := status\<rparr>)"

definition update_pod_vpc :: "('db, 'v) SlateDb \<Rightarrow> 'v serde \<Rightarrow> string \<Rightarrow> string \<Rightarrow> string \<Rightarrow> string \<Rightarrow> (('db, 'v) world, Pod response) act" where
  "update_pod_vpc D C ns pod_name ghost_ipv6 vpc_name =
     read_modify D (Pod_codec C) (pods_prefix ns @ pod_name) (\<lambda>pod. pod\<lparr>Pod_ghost_ipv6 := Some ghost_ipv6, Pod_vpc_name := Some vpc_name\<rparr>)"

definition pod_logs :: "('db, 'v) SlateDb \<Rightarrow> string \<Rightarrow> string \<Rightarrow> (('db, 'v) world, unit response) act" where
  "pod_logs D ns pod_name =
     bindM (tryM (store_get D (pods_prefix ns @ pod_name))) (\<lambda>found. returnM (case found of
         Inr (Some _) \<Rightarrow> (NOT_IMPLEMENTED, Text ''Pod logs are available from the Agent node where the pod is running.'')
       | Inr None \<Rightarrow> (NOT_FOUND, Empty)
       | Inl _ \<Rightarrow> (INTERNAL_SERVER_ERROR, Empty)))"

section \<open>Creating the other resources\<close>

text \<open>A UUID, the namespace, the time, then the write: the creation of every workload resource.\<close>

definition create_with :: "('db, 'v) SlateDb \<Rightarrow> env \<Rightarrow> ('v, 'a) codec \<Rightarrow> (string \<Rightarrow> DateTime \<Rightarrow> 'a) \<Rightarrow> ('a \<Rightarrow> string) \<Rightarrow> (('db, 'v) world, 'a response) act" where
  "create_with D E c prepare key =
     bindM (draw_uuid E) (\<lambda>uid. bindM (read_clock E) (\<lambda>now.
       let x = prepare uid now in persist D c (key x) x CREATED (Text ''Failed'') (Text ''Serialization failed'')))"

definition create_deployment :: "('db, 'v) SlateDb \<Rightarrow> 'v serde \<Rightarrow> env \<Rightarrow> string \<Rightarrow> Deployment \<Rightarrow> (('db, 'v) world, Deployment response) act" where
  "create_deployment D C E ns deploy = create_with D E (Deployment_codec C)
     (\<lambda>uid now. deploy\<lparr>Deployment_id := uid, Deployment_namespace := ns, Deployment_created_at := now\<rparr>) (\<lambda>d. deployments_prefix ns @ Deployment_name d)"

definition api_create_replicaset :: "('db, 'v) SlateDb \<Rightarrow> 'v serde \<Rightarrow> env \<Rightarrow> string \<Rightarrow> ReplicaSet \<Rightarrow> (('db, 'v) world, ReplicaSet response) act" where
  "api_create_replicaset D C E ns rs = create_with D E (ReplicaSet_codec C)
     (\<lambda>uid now. rs\<lparr>ReplicaSet_id := uid, ReplicaSet_namespace := ns, ReplicaSet_created_at := now\<rparr>) (\<lambda>r. replicasets_prefix ns @ ReplicaSet_name r)"

definition create_daemonset :: "('db, 'v) SlateDb \<Rightarrow> 'v serde \<Rightarrow> env \<Rightarrow> string \<Rightarrow> DaemonSet \<Rightarrow> (('db, 'v) world, DaemonSet response) act" where
  "create_daemonset D C E ns ds = create_with D E (DaemonSet_codec C)
     (\<lambda>uid now. ds\<lparr>DaemonSet_id := uid, DaemonSet_namespace := ns, DaemonSet_created_at := now\<rparr>) (\<lambda>d. daemonsets_prefix ns @ DaemonSet_name d)"

definition create_job :: "('db, 'v) SlateDb \<Rightarrow> 'v serde \<Rightarrow> env \<Rightarrow> string \<Rightarrow> Job \<Rightarrow> (('db, 'v) world, Job response) act" where
  "create_job D C E ns job = create_with D E (Job_codec C)
     (\<lambda>uid now. job\<lparr>Job_id := uid, Job_namespace := ns, Job_created_at := now\<rparr>) (\<lambda>j. jobs_prefix ns @ Job_name j)"

definition create_cronjob :: "('db, 'v) SlateDb \<Rightarrow> 'v serde \<Rightarrow> env \<Rightarrow> string \<Rightarrow> CronJob \<Rightarrow> (('db, 'v) world, CronJob response) act" where
  "create_cronjob D C E ns cj = create_with D E (CronJob_codec C)
     (\<lambda>uid now. cj\<lparr>CronJob_id := uid, CronJob_namespace := ns, CronJob_created_at := now\<rparr>) (\<lambda>j. cronjobs_prefix ns @ CronJob_name j)"

definition create_hpa :: "('db, 'v) SlateDb \<Rightarrow> 'v serde \<Rightarrow> env \<Rightarrow> string \<Rightarrow> HorizontalPodAutoscaler \<Rightarrow> (('db, 'v) world, HorizontalPodAutoscaler response) act" where
  "create_hpa D C E ns hpa = create_with D E (HPA_codec C)
     (\<lambda>uid now. hpa\<lparr>HPA_id := uid, HPA_namespace := ns, HPA_created_at := now\<rparr>) (\<lambda>h. hpa_prefix ns @ HPA_name h)"

definition create_endpoint :: "('db, 'v) SlateDb \<Rightarrow> 'v serde \<Rightarrow> env \<Rightarrow> string \<Rightarrow> Endpoint \<Rightarrow> (('db, 'v) world, Endpoint response) act" where
  "create_endpoint D C E ns ep = create_with D E (Endpoint_codec C)
     (\<lambda>uid now. ep\<lparr>Endpoint_id := uid, Endpoint_namespace := ns, Endpoint_created_at := now\<rparr>)
     (\<lambda>e. endpoints_prefix @ ns @ ''/'' @ Endpoint_service_id e)"

text \<open>The first byte of a UUID, its first two hexadecimal digits.\<close>

definition uuid_byte0 :: "string \<Rightarrow> nat" where
  "uuid_byte0 uid = (case map hex_val (take 2 uid) of [Some a, Some b] \<Rightarrow> 16 * a + b | _ \<Rightarrow> 0)"

definition create_service :: "('db, 'v) SlateDb \<Rightarrow> 'v serde \<Rightarrow> env \<Rightarrow> string \<Rightarrow> Service \<Rightarrow> (('db, 'v) world, Service response) act" where
  "create_service D C E ns svc =
     bindM (draw_uuid E) (\<lambda>uid. bindM (read_clock E) (\<lambda>now.
       let svc = svc\<lparr>Service_id := uid, Service_namespace := ns, Service_created_at := now\<rparr>;
           svc = (if Service_vpc svc = None then svc\<lparr>Service_vpc := Some ''default''\<rparr> else svc)
       in bindM (if Service_cluster_ip svc = None then
              bindM (draw_uuid E) (\<lambda>u. returnM (svc\<lparr>Service_cluster_ip := Some (''10.43.0.'' @ show_dec (uuid_byte0 u mod 250 + 2))\<rparr>))
            else returnM svc) (\<lambda>svc.
          persist D (Service_codec C) (services_prefix @ ns @ ''/'' @ Service_name svc) svc CREATED (Text ''Failed'') (Text ''Serialization failed''))))"

section \<open>Listing\<close>

definition list_services :: "('db, 'v) SlateDb \<Rightarrow> 'v serde \<Rightarrow> string \<Rightarrow> (('db, 'v) world, Service list response) act" where
  "list_services D C ns = list_response D (Service_codec C) (services_prefix @ ns @ ''/'')"

definition list_deployments :: "('db, 'v) SlateDb \<Rightarrow> 'v serde \<Rightarrow> string \<Rightarrow> (('db, 'v) world, Deployment list response) act" where
  "list_deployments D C ns = list_response D (Deployment_codec C) (deployments_prefix ns)"

definition list_replicasets :: "('db, 'v) SlateDb \<Rightarrow> 'v serde \<Rightarrow> string \<Rightarrow> (('db, 'v) world, ReplicaSet list response) act" where
  "list_replicasets D C ns = list_response D (ReplicaSet_codec C) (replicasets_prefix ns)"

definition list_daemonsets :: "('db, 'v) SlateDb \<Rightarrow> 'v serde \<Rightarrow> string \<Rightarrow> (('db, 'v) world, DaemonSet list response) act" where
  "list_daemonsets D C ns = list_response D (DaemonSet_codec C) (daemonsets_prefix ns)"

definition list_jobs :: "('db, 'v) SlateDb \<Rightarrow> 'v serde \<Rightarrow> string \<Rightarrow> (('db, 'v) world, Job list response) act" where
  "list_jobs D C ns = list_response D (Job_codec C) (jobs_prefix ns)"

definition list_cronjobs :: "('db, 'v) SlateDb \<Rightarrow> 'v serde \<Rightarrow> string \<Rightarrow> (('db, 'v) world, CronJob list response) act" where
  "list_cronjobs D C ns = list_response D (CronJob_codec C) (cronjobs_prefix ns)"

definition list_hpas :: "('db, 'v) SlateDb \<Rightarrow> 'v serde \<Rightarrow> string \<Rightarrow> (('db, 'v) world, HorizontalPodAutoscaler list response) act" where
  "list_hpas D C ns = list_response D (HPA_codec C) (hpa_prefix ns)"

definition list_endpoints :: "('db, 'v) SlateDb \<Rightarrow> 'v serde \<Rightarrow> string \<Rightarrow> (('db, 'v) world, Endpoint list response) act" where
  "list_endpoints D C ns = list_response D (Endpoint_codec C) (endpoints_prefix @ ns @ ''/'')"

section \<open>Deployments\<close>

definition get_deployment :: "('db, 'v) SlateDb \<Rightarrow> 'v serde \<Rightarrow> string \<Rightarrow> string \<Rightarrow> (('db, 'v) world, Deployment response) act" where
  "get_deployment D C ns deploy_name = get_decoded D (Deployment_codec C) (deployments_prefix ns @ deploy_name)"

definition update_deployment :: "('db, 'v) SlateDb \<Rightarrow> 'v serde \<Rightarrow> string \<Rightarrow> string \<Rightarrow> Deployment \<Rightarrow> (('db, 'v) world, Deployment response) act" where
  "update_deployment D C ns deploy_name deploy = read_modify D (Deployment_codec C) (deployments_prefix ns @ deploy_name)
     (\<lambda>existing. deploy\<lparr>Deployment_id := Deployment_id existing, Deployment_namespace := ns,
        Deployment_created_at := Deployment_created_at existing, Deployment_generation := Deployment_generation existing + 1\<rparr>)"

section \<open>Deletion\<close>

fun delete_each :: "('db, 'v) SlateDb \<Rightarrow> string list \<Rightarrow> u32 \<Rightarrow> (('db, 'v) world, u32) act" where
  "delete_each D [] count = returnM count"
| "delete_each D (key # keys) count = bindM (tryM (store_delete D key)) (\<lambda>r.
     delete_each D keys (case r of Inr _ \<Rightarrow> count + 1 | Inl _ \<Rightarrow> count))"

definition cascade_delete_owned_pods :: "('db, 'v) SlateDb \<Rightarrow> 'v serde \<Rightarrow> string \<Rightarrow> string \<Rightarrow> (('db, 'v) world, u32) act" where
  "cascade_delete_owned_pods D C ns owner_id =
     bindM (tryM (list_prefix D (pods_prefix ns))) (\<lambda>entries. case entries of
       Inl _ \<Rightarrow> returnM 0
     | Inr entries \<Rightarrow> delete_each D (map fst (owned_pods (Pod_codec C) owner_id entries)) 0)"

fun cascade_each :: "('db, 'v) SlateDb \<Rightarrow> 'v serde \<Rightarrow> string \<Rightarrow> (string \<times> ReplicaSet) list \<Rightarrow> u32 \<Rightarrow> (('db, 'v) world, u32) act" where
  "cascade_each D C ns [] count = returnM count"
| "cascade_each D C ns ((rs_key, rs) # rest) count =
     bindM (cascade_delete_owned_pods D C ns (ReplicaSet_id rs)) (\<lambda>n.
     bindM (tryM (store_delete D rs_key)) (\<lambda>r.
       cascade_each D C ns rest (case r of Inr _ \<Rightarrow> count + n + 1 | Inl _ \<Rightarrow> count + n)))"

definition cascade_delete_owned_replicasets :: "('db, 'v) SlateDb \<Rightarrow> 'v serde \<Rightarrow> string \<Rightarrow> string \<Rightarrow> (('db, 'v) world, u32) act" where
  "cascade_delete_owned_replicasets D C ns deploy_id =
     bindM (tryM (list_prefix D (replicasets_prefix ns))) (\<lambda>entries. case entries of
       Inl _ \<Rightarrow> returnM 0
     | Inr entries \<Rightarrow> cascade_each D C ns (filter (\<lambda>(_, rs). ReplicaSet_owner_ref rs = Some deploy_id) (decoded (ReplicaSet_codec C) entries)) 0)"

text \<open>\<open>json_id\<close>: the string under \<open>id\<close> of a JSON object.\<close>

definition delete_resource :: "('db, 'v) SlateDb \<Rightarrow> 'v serde \<Rightarrow> ('v \<Rightarrow> string option) \<Rightarrow> string \<Rightarrow> string \<Rightarrow> string \<Rightarrow> (('db, 'v) world, unit response) act" where
  "delete_resource D C json_id resource_type ns name =
     (let key = ''/registry/'' @ resource_type @ ''/'' @ ns @ ''/'' @ name
      in bindM (tryM (store_get D key)) (\<lambda>found.
         let resource_id = (case found of Inr (Some data) \<Rightarrow> json_id data | _ \<Rightarrow> None)
         in bindM (case resource_id of
               Some i \<Rightarrow>
                 if resource_type = ''deployments'' then cascade_delete_owned_replicasets D C ns i
                 else if resource_type = ''replicasets'' \<or> resource_type = ''daemonsets'' \<or> resource_type = ''jobs''
                 then cascade_delete_owned_pods D C ns i else returnM 0
             | None \<Rightarrow> returnM 0) (\<lambda>_.
            bindM (tryM (store_delete D key)) (\<lambda>r. returnM (case r of
              Inr _ \<Rightarrow> (NO_CONTENT, Empty) | Inl _ \<Rightarrow> (INTERNAL_SERVER_ERROR, Empty))))))"

section \<open>Selectors are filters\<close>

definition field_matches :: "string \<times> string \<Rightarrow> Pod \<Rightarrow> bool" where
  "field_matches = (\<lambda>(field, val) p. (field = ''spec.nodeName'' \<longrightarrow> Pod_node_name p = Some val) \<and>
     (field = ''metadata.namespace'' \<longrightarrow> Pod_namespace p = val))"

lemma retain_field_filter: "retain_field fv pods = filter (field_matches fv) pods"
  by (cases fv) (simp add: retain_field_def field_matches_def)

lemma apply_selector_filter:
  "apply_pod_field_selector selector pods = filter (\<lambda>p. list_all (\<lambda>fv. field_matches fv p) (parse_field_selector selector)) pods"
proof -
  have "fold retain_field fvs pods = filter (\<lambda>p. list_all (\<lambda>fv. field_matches fv p) fvs) pods" for fvs
    by (induction fvs arbitrary: pods) (simp_all add: retain_field_filter conj_commute)
  then show ?thesis by (simp add: apply_pod_field_selector_def)
qed

text \<open>The field selector \<open>spec.nodeName=n\<close> on the cluster-wide pod list gives the same answer as the
  list of the pods of node \<open>n\<close>, for names without commas and without blanks at their ends.\<close>

theorem node_selector_equivalent:
  assumes "CHR '','' \<notin> set n" and "trim n = n"
  shows "list_all_pods D C (Some (''spec.nodeName='' @ n)) = list_node_pods D C n"
proof -
  have s: "split_on (CHR '','') (''spec.nodeName='' @ n) = [''spec.nodeName='' @ n]"
    using assms(1) by (intro split_on_no_sep) simp
  have o: "split_once (CHR ''='') (''spec.nodeName='' @ n) = Some (''spec.nodeName'', n)"
    using split_once_append [of "CHR ''=''" "''spec.nodeName''" n] by simp
  have t: "trim ''spec.nodeName'' = ''spec.nodeName''" by (simp add: trim_def is_whitespace_def)
  have "parse_field_selector (''spec.nodeName='' @ n) = [(''spec.nodeName'', n)]"
    unfolding parse_field_selector_def s List.map_filter_def using o t assms(2) by simp
  then show ?thesis
    by (simp add: list_all_pods_def list_node_pods_def select_pods_def apply_selector_filter field_matches_def)
qed

theorem node_selector_equivalent_witness:
  "list_all_pods mem_slatedb tag_serde (Some ''spec.nodeName=n1'') = list_node_pods mem_slatedb tag_serde ''n1''"
  using node_selector_equivalent [of "''n1''" mem_slatedb tag_serde] by (simp add: trim_def is_whitespace_def)

section \<open>Cascades\<close>

text \<open>Deleting keys restricts the content.\<close>

lemma entries_in_restrict: "entries_in c p (m |` S) = entries_in c p m |` S"
  by (auto simp: entries_in_def restrict_map_def fun_eq_iff)

context registry
begin

lemma delete_each_ok:
  assumes "reliable D"
  shows "\<exists>w'. delete_each D ks n w = (Inr (n + of_nat (length ks)), w') \<and> lookup w' = lookup w |` (- set ks)"
proof (induction ks arbitrary: n w)
  case Nil
  then show ?case by (simp add: returnM_def)
next
  case (Cons k ks)
  obtain w1 where w1: "store_delete D k w = (Inr (), w1)" using reliable_runs(3) [OF assms] by blast
  obtain w' where "delete_each D ks (n + 1) w1 = (Inr (n + 1 + of_nat (length ks)), w')" "lookup w' = lookup w1 |` (- set ks)"
    using Cons.IH by blast
  moreover have "lookup w1 = lookup w |` (- {k})" using store_delete_ok(1) [OF w1] by (simp add: fun_eq_iff restrict_map_def)
  ultimately show ?case by (intro exI [of _ w']) (simp add: bindM_try w1 fun_eq_iff restrict_map_def)
qed

definition owned_keys_of :: "string \<Rightarrow> ('db, 'v) world \<Rightarrow> string \<Rightarrow> string set" where
  "owned_keys_of ns w i = {k. \<exists>p. entries_in (Pod_codec C) (pods_prefix ns) (lookup w) k = Some p \<and> Pod_owner_ref p = Some i}"

lemma cascade_pods_ok:
  assumes "reliable D"
  shows "\<exists>n w'. cascade_delete_owned_pods D C ns i w = (Inr n, w') \<and> lookup w' = lookup w |` (- owned_keys_of ns w i)"
proof -
  obtain kvs where l: "list_prefix D (pods_prefix ns) w = (Inr kvs, w)" using reliable_runs(1) [OF assms] by blast
  have "fst ` set (owned_pods (Pod_codec C) i kvs) = owned_keys_of ns w i"
    by (simp add: owned_keys_of_def image_def Bex_def split_paired_Ex set_owned_pods list_entries(1) [OF l])
  with delete_each_ok [OF assms, of "map fst (owned_pods (Pod_codec C) i kvs)" 0 w] show ?thesis
    by (auto simp: cascade_delete_owned_pods_def bindM_try l)
qed

lemma cascade_each_ok:
  assumes "reliable D"
  shows "\<forall>(k, rs)\<in>set rss. \<not> prefix (pods_prefix ns) k \<Longrightarrow>
    \<exists>n' w'. cascade_each D C ns rss n w = (Inr n', w') \<and>
      lookup w' = lookup w |` (- (fst ` set rss \<union> (\<Union>(k, rs)\<in>set rss. owned_keys_of ns w (ReplicaSet_id rs))))"
proof (induction rss arbitrary: n w)
  case Nil
  then show ?case by (simp add: returnM_def)
next
  case (Cons krs rss)
  obtain k rs where krs: "krs = (k, rs)" by (cases krs)
  obtain m w1 where w1: "cascade_delete_owned_pods D C ns (ReplicaSet_id rs) w = (Inr m, w1)" and l1: "lookup w1 = lookup w |` (- owned_keys_of ns w (ReplicaSet_id rs))"
    using cascade_pods_ok [OF assms] by blast
  obtain w2 where w2: "store_delete D k w1 = (Inr (), w2)" using reliable_runs(3) [OF assms] by blast
  have l2: "lookup w2 = lookup w |` (- insert k (owned_keys_of ns w (ReplicaSet_id rs)))"
    using store_delete_ok(1) [OF w2] by (auto simp: l1 fun_eq_iff restrict_map_def)
  obtain n' w' where w': "cascade_each D C ns rss (n + m + 1) w2 = (Inr n', w')"
    and l': "lookup w' = lookup w2 |` (- (fst ` set rss \<union> (\<Union>(k, rs)\<in>set rss. owned_keys_of ns w2 (ReplicaSet_id rs))))"
    using Cons.IH [of "n + m + 1" w2] Cons.prems by (auto simp: krs)
  have o: "owned_keys_of ns w2 i = owned_keys_of ns w i - insert k (owned_keys_of ns w (ReplicaSet_id rs))" for i
    unfolding owned_keys_of_def l2 entries_in_restrict by (auto simp: restrict_map_def owned_keys_of_def)
  have "lookup w' = lookup w |` (- (fst ` set (krs # rss) \<union> (\<Union>(k, rs)\<in>set (krs # rss). owned_keys_of ns w (ReplicaSet_id rs))))"
    unfolding l' l2 o by (rule ext) (auto simp: restrict_map_def krs)
  moreover have "cascade_each D C ns (krs # rss) n w = (Inr n', w')"
    using w' by (simp add: krs bindM_step [of "cascade_delete_owned_pods D C ns (ReplicaSet_id rs)", OF w1] bindM_try w2)
  ultimately show ?case by blast
qed

lemma delete_deployment_ok:
  fixes w :: "('db, 'v) world"
  assumes rel: "reliable D" and d: "lookup w (deployments_prefix ns @ name) = Some v" "json_id v = Some i"
  defines "rss \<equiv> {(k, rs). entries_in (ReplicaSet_codec C) (replicasets_prefix ns) (lookup w) k = Some rs \<and> ReplicaSet_owner_ref rs = Some i}"
  shows "\<exists>w'. delete_resource D C json_id ''deployments'' ns name w = (Inr (NO_CONTENT, Empty), w') \<and>
    lookup w' = lookup w |` (- ({deployments_prefix ns @ name} \<union> fst ` rss \<union> (\<Union>(k, rs)\<in>rss. owned_keys_of ns w (ReplicaSet_id rs))))"
proof -
  let ?key = "deployments_prefix ns @ name"
  have key: "''/registry/'' @ ''deployments'' @ ''/'' @ ns @ ''/'' @ name = ?key" by (simp add: deployments_prefix_def)
  have get: "store_get D ?key w = (Inr (Some v), w)" using reliable_runs(4) [OF rel, of ?key w] store_get_ok [of ?key w] d(1) by metis
  obtain kvs where l: "list_prefix D (replicasets_prefix ns) w = (Inr kvs, w)" using reliable_runs(1) [OF rel] by blast
  let ?rss = "filter (\<lambda>(_, rs). ReplicaSet_owner_ref rs = Some i) (decoded (ReplicaSet_codec C) kvs)"
  have rss: "set ?rss = rss" by (auto simp: rss_def list_entries(1) [OF l])
  have "\<forall>(k, rs)\<in>set ?rss. \<not> prefix (pods_prefix ns) k"
    unfolding rss rss_def by (auto simp: entries_in_Some dest: pods_not_replicasets)
  from cascade_each_ok [OF rel this, of 0 w] obtain n w1 where w1: "cascade_delete_owned_replicasets D C ns i w = (Inr n, w1)"
    and l1: "lookup w1 = lookup w |` (- (fst ` rss \<union> (\<Union>(k, rs)\<in>rss. owned_keys_of ns w (ReplicaSet_id rs))))"
    unfolding rss by (auto simp: cascade_delete_owned_replicasets_def bindM_try l)
  obtain w' where w': "store_delete D ?key w1 = (Inr (), w')" using reliable_runs(3) [OF rel] by blast
  have "delete_resource D C json_id ''deployments'' ns name w = (Inr (NO_CONTENT, Empty), w')"
    unfolding delete_resource_def key Let_def
    by (simp add: bindM_try get d(2) bindM_step [of "cascade_delete_owned_replicasets D C ns i", OF w1] w' returnM_def)
  moreover have "lookup w' = lookup w |` (- ({?key} \<union> fst ` rss \<union> (\<Union>(k, rs)\<in>rss. owned_keys_of ns w (ReplicaSet_id rs))))"
    unfolding store_delete_ok(1) [OF w'] l1 by (rule ext) (auto simp: restrict_map_def)
  ultimately show ?thesis by blast
qed

text \<open>Creating a pod: what is answered and stored.\<close>

definition created_pod :: "('db, 'v) world \<Rightarrow> env \<Rightarrow> bool \<Rightarrow> string \<Rightarrow> Pod \<Rightarrow> Pod \<Rightarrow> bool" where
  "created_pod w E scheduler ns pod p \<longleftrightarrow>
     (let fresh = pod\<lparr>Pod_id := new_v4 E (uuid_draws w), Pod_namespace := ns, Pod_status := Pod_Pending, Pod_created_at := utc_now E (clock_reads w)\<rparr>;
          nodes = {n. \<exists>k. entries_in (Node_codec C) nodes_prefix (lookup w) k = Some n}
      in if scheduler \<and> (\<exists>n\<in>nodes. is_node_eligible n fresh)
         then \<exists>n\<in>nodes. is_node_eligible n fresh \<and> p = fresh\<lparr>Pod_node_name := Some (Node_name n), Pod_status := Pod_Scheduled\<rparr>
         else p = fresh)"

lemma schedule_step_ok:
  fixes w :: "('db, 'v) world"
  assumes "list_prefix D nodes_prefix w = (Inr kvs, w)"
  defines "nodes \<equiv> {n. \<exists>k. entries_in (Node_codec C) nodes_prefix (lookup w) k = Some n}"
  shows "\<exists>q w'. bindM (list_values D (Node_codec C) nodes_prefix) (\<lambda>nodes. bindM (schedule_pod pod nodes) (\<lambda>choice. returnM (assigned pod choice))) w = (Inr q, w') \<and>
    lookup w' = lookup w \<and> Pod_name q = Pod_name pod \<and> (if \<exists>n\<in>nodes. is_node_eligible n pod
       then \<exists>n\<in>nodes. is_node_eligible n pod \<and> q = pod\<lparr>Pod_node_name := Some (Node_name n), Pod_status := Pod_Scheduled\<rparr>
       else q = pod)"
proof -
  let ?ns = "decoded_values (Node_codec C) kvs"
  note lv = list_values_ok [OF assms(1), where c = "Node_codec C"]
  have ns: "set ?ns = nodes" unfolding nodes_def using lv(2) by blast
  obtain choice i where s: "schedule pod ?ns (rr_index w) = (choice, i)" by fastforce
  have run: "bindM (list_values D (Node_codec C) nodes_prefix) (\<lambda>nodes. bindM (schedule_pod pod nodes) (\<lambda>choice. returnM (assigned pod choice))) w =
      (Inr (assigned pod choice), w\<lparr>rr_index := i\<rparr>)"
    by (simp add: bindM_def lv(1) schedule_pod_def s returnM_def)
  have "if \<exists>n\<in>nodes. is_node_eligible n pod then \<exists>n\<in>nodes. is_node_eligible n pod \<and> assigned pod choice = pod\<lparr>Pod_node_name := Some (Node_name n), Pod_status := Pod_Scheduled\<rparr>
      else assigned pod choice = pod"
  proof (cases choice)
    case None
    then have "\<not> (\<exists>n\<in>nodes. is_node_eligible n pod)" using schedule_None_iff [of pod ?ns "rr_index w"] s ns by simp
    then show ?thesis by (simp add: None assigned_def)
  next
    case (Some name)
    then obtain n where "n \<in> nodes" "is_node_eligible n pod" "Node_name n = name" using schedule_Some(1) s ns by metis
    then show ?thesis by (auto simp: Some assigned_def)
  qed
  then show ?thesis unfolding run by (intro exI [of _ "assigned pod choice"] exI [of _ "w\<lparr>rr_index := i\<rparr>"]) simp
qed

lemma create_pod_run:
  fixes w :: "('db, 'v) world"
  assumes run: "create_pod D C E scheduler ns pod w = (r, w')"
    and get: "fst (store_get D (vpcs_prefix @ spec_vpc pod) w) = Inr found" and l: "list_prefix D nodes_prefix w = (Inr kvs, w)"
  defines "pods \<equiv> \<lambda>w :: ('db, 'v) world. entries_in (Pod_codec C) (pods_prefix ns) (lookup w)"
  shows "if \<exists>vpc. vpcs w (vpcs_prefix @ spec_vpc pod) = Some vpc \<and> Vpc_status vpc \<noteq> Vpc_Active
    then (\<exists>m. r = Inr (FORBIDDEN, Text m)) \<and> lookup w' = lookup w
    else (\<exists>p. r = Inr (CREATED, Json p) \<and> created_pod w E scheduler ns pod p \<and> pods w' = (pods w)(pods_prefix ns @ Pod_name pod \<mapsto> p)) \<or>
      (\<exists>m. r = Inr (INTERNAL_SERVER_ERROR, Text m))"
proof -
  let ?fresh = "pod\<lparr>Pod_id := new_v4 E (uuid_draws w), Pod_namespace := ns, Pod_status := Pod_Pending, Pod_created_at := utc_now E (clock_reads w)\<rparr>"
  let ?w = "w\<lparr>uuid_draws := Suc (uuid_draws w), clock_reads := Suc (clock_reads w)\<rparr>"
  have sv: "spec_vpc (pod\<lparr>Pod_id := i, Pod_namespace := ns, Pod_status := s, Pod_created_at := t\<rparr>) = spec_vpc pod" for i s t by (simp add: spec_vpc_def)
  have get': "fst (store_get D (vpcs_prefix @ spec_vpc pod) ?w) = Inr found" using get by (simp add: store_get_def split: sum.splits option.splits)
  have l': "list_prefix D nodes_prefix ?w = (Inr kvs, ?w)" using l by (simp add: list_prefix_def split: sum.splits)
  have f: "vpcs w (vpcs_prefix @ spec_vpc pod) = Option.bind found (\<lambda>v. ok (from_slice (Vpc_codec C) v))"
    using tried_get [OF get] by (auto simp: entries_in_def split: option.splits)
  have b: "(\<exists>vpc. vpcs w (vpcs_prefix @ spec_vpc pod) = Some vpc \<and> Vpc_status vpc \<noteq> Vpc_Active) \<longleftrightarrow> blocking C (Inr found) \<noteq> None"
    unfolding f by (auto simp: blocking_def ok_def bind_eq_Some_conv split: option.splits sum.splits)
  have step: "create_pod D C E scheduler ns pod w =
      (case blocking C (Inr found) of Some vpc \<Rightarrow> returnM (FORBIDDEN, Text (vpc_blocked_msg (spec_vpc pod) (Vpc_status vpc)))
       | None \<Rightarrow> bindM (if scheduler then bindM (list_values D (Node_codec C) nodes_prefix) (\<lambda>nodes.
            bindM (schedule_pod ?fresh nodes) (\<lambda>choice. returnM (assigned ?fresh choice))) else returnM ?fresh) (\<lambda>pod.
          persist D (Pod_codec C) (pods_prefix ns @ Pod_name pod) pod CREATED (Text ''Failed to create pod'') (Text ''Serialization failed''))) ?w"
    by (cases "blocking C (Inr found)"; cases scheduler)
      (simp_all add: create_pod_def draw_uuid_def bindM_def [of "draw_uuid E"] bindM_clock Let_def sv bindM_try get')
  show ?thesis
  proof (cases "blocking C (Inr found)")
    case (Some vpc)
    then show ?thesis using run unfolding step b by (auto simp: returnM_def)
  next
    case None
    let ?m = "if scheduler then bindM (list_values D (Node_codec C) nodes_prefix) (\<lambda>nodes.
            bindM (schedule_pod ?fresh nodes) (\<lambda>choice. returnM (assigned ?fresh choice))) else returnM ?fresh"
    have lw: "lookup ?w = lookup w" "Pod_name ?fresh = Pod_name pod" by simp_all
    have "\<exists>q w1. ?m ?w = (Inr q, w1) \<and> lookup w1 = lookup w \<and> Pod_name q = Pod_name pod \<and> created_pod w E scheduler ns pod q"
    proof (cases scheduler)
      case True
      show ?thesis using schedule_step_ok [OF l', of ?fresh, unfolded lw] unfolding created_pod_def Let_def
        by (simp only: True simp_thms if_True)
    next
      case False
      then show ?thesis by (simp add: returnM_def created_pod_def)
    qed
    then obtain q w1 where q: "?m ?w = (Inr q, w1)"
      and same: "lookup w1 = lookup w" and name: "Pod_name q = Pod_name pod" and c: "created_pod w E scheduler ns pod q"
      by blast
    have "persist D (Pod_codec C) (pods_prefix ns @ Pod_name pod) q CREATED (Text ''Failed to create pod'') (Text ''Serialization failed'') w1 = (r, w')"
      using run unfolding step by (simp add: None bindM_step [of ?m, OF q] name)
    from persist_ok(2) [OF this codecs(1)] c have "(\<exists>p. r = Inr (CREATED, Json p) \<and> created_pod w E scheduler ns pod p \<and> pods w' = (pods w)(pods_prefix ns @ Pod_name pod \<mapsto> p)) \<or>
      (\<exists>m. r = Inr (INTERNAL_SERVER_ERROR, Text m))" by (auto simp: pods_def entries_in_put same)
    then show ?thesis using None unfolding b by simp
  qed
qed

end

section \<open>Properties\<close>

text \<open>C28: every answer of a pod creation whose reads succeed: 403 and no change when the pod's VPC is stored
  and not Active; otherwise 201 with the pod stored under its name, with a fresh id and the namespace
  of the route, Scheduled on a stored node that is eligible for it whenever there is a scheduler and
  such a node, and Pending as sent when not; or 500.\<close>

theorem create_pod_answers:
  assumes "registry D content C" and "create_pod D C E scheduler ns pod w = (r, w')"
    and "fst (store_get D (vpcs_prefix @ spec_vpc pod) w) = Inr found" and "list_prefix D nodes_prefix w = (Inr kvs, w)"
  defines "nodes \<equiv> {n. \<exists>k. entries_in (Node_codec C) nodes_prefix (content (StateStore_db w)) k = Some n}"
    and "fresh \<equiv> pod\<lparr>Pod_id := new_v4 E (uuid_draws w), Pod_namespace := ns, Pod_status := Pod_Pending, Pod_created_at := utc_now E (clock_reads w)\<rparr>"
  shows "if \<exists>vpc. entries_in (Vpc_codec C) vpcs_prefix (content (StateStore_db w)) (vpcs_prefix @ spec_vpc pod) = Some vpc \<and> Vpc_status vpc \<noteq> Vpc_Active
    then (\<exists>m. r = Inr (FORBIDDEN, Text m)) \<and> content (StateStore_db w') = content (StateStore_db w)
    else (\<exists>p. r = Inr (CREATED, Json p) \<and>
        (if scheduler \<and> (\<exists>n\<in>nodes. is_node_eligible n fresh)
         then \<exists>n\<in>nodes. is_node_eligible n fresh \<and> p = fresh\<lparr>Pod_node_name := Some (Node_name n), Pod_status := Pod_Scheduled\<rparr>
         else p = fresh) \<and>
        entries_in (Pod_codec C) (pods_prefix ns) (content (StateStore_db w')) =
          (entries_in (Pod_codec C) (pods_prefix ns) (content (StateStore_db w)))(pods_prefix ns @ Pod_name pod \<mapsto> p)) \<or>
      (\<exists>m. r = Inr (INTERNAL_SERVER_ERROR, Text m))"
  unfolding nodes_def fresh_def by (rule registry.create_pod_run [OF assms(1-4), unfolded registry.created_pod_def [OF assms(1)] Let_def])

text \<open>Deleting a deployment on a store that works removes the deployment, the ReplicaSets of the namespace
  it owns and the pods of the namespace those own, leaves every other key of the registry as it was,
  and answers 204.\<close>

theorem delete_deployment_cascades:
  assumes "registry D content C" and "reliable D"
    and "\<And>v d. from_slice (Deployment_codec C) v = Inr d \<Longrightarrow> json_id v = Some (Deployment_id d)"
    and "entries_in (Deployment_codec C) (deployments_prefix ns) (content (StateStore_db w)) (deployments_prefix ns @ name) = Some deploy"
  defines "rss \<equiv> {(k, rs). entries_in (ReplicaSet_codec C) (replicasets_prefix ns) (content (StateStore_db w)) k = Some rs \<and>
      ReplicaSet_owner_ref rs = Some (Deployment_id deploy)}"
  shows "\<exists>w'. delete_resource D C json_id ''deployments'' ns name w = (Inr (NO_CONTENT, Empty), w') \<and>
    content (StateStore_db w') = content (StateStore_db w) |` (- ({deployments_prefix ns @ name} \<union> fst ` rss \<union>
      {k. \<exists>p rk rs. entries_in (Pod_codec C) (pods_prefix ns) (content (StateStore_db w)) k = Some p \<and> (rk, rs) \<in> rss \<and>
        Pod_owner_ref p = Some (ReplicaSet_id rs)}))"
proof -
  obtain v where v: "content (StateStore_db w) (deployments_prefix ns @ name) = Some v" "json_id v = Some (Deployment_id deploy)"
    using assms(3,4) by (auto simp: entries_in_Some)
  have "(\<Union>(k, rs)\<in>rss. registry.owned_keys_of content C ns w (ReplicaSet_id rs)) =
      {k. \<exists>p rk rs. entries_in (Pod_codec C) (pods_prefix ns) (content (StateStore_db w)) k = Some p \<and> (rk, rs) \<in> rss \<and>
        Pod_owner_ref p = Some (ReplicaSet_id rs)}"
    unfolding registry.owned_keys_of_def [OF assms(1)] by auto
  with registry.delete_deployment_ok [OF assms(1,2) v(1), where json_id = json_id and i = "Deployment_id deploy", OF v(2)] show ?thesis unfolding rss_def by simp
qed

section \<open>Runs\<close>

text \<open>A deployment with one ReplicaSet and one pod of it, a second pod, and a node.\<close>

definition sample_deployment :: Deployment where
  "sample_deployment = \<lparr> Deployment_id = ''d1'', Deployment_name = ''web'', Deployment_namespace = ''default'',
     Deployment_spec = \<lparr> DeploymentSpec_replicas = 1, DeploymentSpec_template = empty_spec, DeploymentSpec_strategy = Recreate, DeploymentSpec_selector = [] \<rparr>,
     Deployment_status = \<lparr> DeploymentStatus_ready_replicas = 0, DeploymentStatus_available_replicas = 0, DeploymentStatus_updated_replicas = 0 \<rparr>,
     Deployment_generation = 0, Deployment_observed_generation = 0, Deployment_created_at = 0 \<rparr>"

definition sample_replicaset :: ReplicaSet where
  "sample_replicaset = \<lparr> ReplicaSet_id = ''rs1'', ReplicaSet_name = ''web-1'', ReplicaSet_namespace = ''default'',
     ReplicaSet_spec = \<lparr> ReplicaSetSpec_replicas = 1, ReplicaSetSpec_selector = [], ReplicaSetSpec_template = empty_spec \<rparr>,
     ReplicaSet_status = \<lparr> ReplicaSetStatus_replicas = 0, ReplicaSetStatus_ready_replicas = 0, ReplicaSetStatus_available_replicas = 0 \<rparr>,
     ReplicaSet_owner_ref = Some ''d1'', ReplicaSet_template_hash = [], ReplicaSet_created_at = 0 \<rparr>"

definition sample_json_id :: "json \<Rightarrow> string option" where
  "sample_json_id v = (case v of V_Deployment d \<Rightarrow> Some (Deployment_id d) | _ \<Rightarrow> None)"

definition deployed :: "((string \<times> json) list, json) world" where
  "deployed = \<lparr> StateStore_db = [(''/registry/nodes/n1'', V_Node (sample_node ''n1'')),
       (''/registry/deployments/default/web'', V_Deployment sample_deployment), (''/registry/replicasets/default/web-1'', V_ReplicaSet sample_replicaset),
       (''/registry/pods/default/web-0'', V_Pod ((sample_pod ''web-0'')\<lparr>Pod_owner_ref := Some ''rs1''\<rparr>)), (''/registry/pods/default/db'', V_Pod (sample_pod ''db''))],
     StateStore_event_log = EventLog_new 16, rr_index = 0, uuid_draws = 0, clock_reads = 0 \<rparr>"

theorem delete_deployment_cascades_witness:
  "\<exists>w'. delete_resource mem_slatedb tag_serde sample_json_id ''deployments'' ''default'' ''web'' deployed = (Inr (NO_CONTENT, Empty), w') \<and>
     map_of (StateStore_db w') ''/registry/pods/default/web-0'' = None \<and> map_of (StateStore_db w') ''/registry/pods/default/db'' = Some (V_Pod (sample_pod ''db''))"
proof -
  have id: "from_slice (Deployment_codec tag_serde) v = Inr d \<Longrightarrow> sample_json_id v = Some (Deployment_id d)" for v d
    by (auto simp: sample_json_id_def tag_serde_def tag_codec_def ok_or_def split: json.splits)
  have d: "entries_in (Deployment_codec tag_serde) (deployments_prefix ''default'') (map_of (StateStore_db deployed)) (deployments_prefix ''default'' @ ''web'') = Some sample_deployment"
    by (simp add: entries_in_def deployed_def key_defs tag_serde_def tag_codec_def ok_or_def)
  have e: "entries_in (ReplicaSet_codec tag_serde) (replicasets_prefix ''default'') (map_of (StateStore_db deployed)) ''/registry/replicasets/default/web-1'' = Some sample_replicaset"
    "entries_in (Pod_codec tag_serde) (pods_prefix ''default'') (map_of (StateStore_db deployed)) ''/registry/pods/default/web-0'' = Some ((sample_pod ''web-0'')\<lparr>Pod_owner_ref := Some ''rs1''\<rparr>)"
    "entries_in (Pod_codec tag_serde) (pods_prefix ''default'') (map_of (StateStore_db deployed)) ''/registry/pods/default/db'' = Some (sample_pod ''db'')"
    "map_of (StateStore_db deployed) ''/registry/pods/default/db'' = Some (V_Pod (sample_pod ''db''))"
    by (simp_all add: entries_in_def deployed_def key_defs tag_serde_def tag_codec_def ok_or_def)
  have rs: "ReplicaSet_owner_ref sample_replicaset = Some (Deployment_id sample_deployment)" "ReplicaSet_id sample_replicaset = ''rs1''"
    "Pod_owner_ref (sample_pod ''db'') = None" by (simp_all add: sample_replicaset_def sample_deployment_def sample_pod_def)
  have no: "\<not> prefix (replicasets_prefix ''default'') ''/registry/pods/default/db''" by (simp add: key_defs)
  from delete_deployment_cascades [OF memreg.registry_axioms reliable_mem, of sample_json_id "''default''" deployed "''web''" sample_deployment, OF id d] obtain w' where
    w': "delete_resource mem_slatedb tag_serde sample_json_id ''deployments'' ''default'' ''web'' deployed = (Inr (NO_CONTENT, Empty), w')"
    and m: "map_of (StateStore_db w') = map_of (StateStore_db deployed) |` (- ({deployments_prefix ''default'' @ ''web''} \<union>
      fst ` {(k, rs). entries_in (ReplicaSet_codec tag_serde) (replicasets_prefix ''default'') (map_of (StateStore_db deployed)) k = Some rs \<and>
        ReplicaSet_owner_ref rs = Some (Deployment_id sample_deployment)} \<union>
      {k. \<exists>p rk rs. entries_in (Pod_codec tag_serde) (pods_prefix ''default'') (map_of (StateStore_db deployed)) k = Some p \<and>
        (rk, rs) \<in> {(k, rs). entries_in (ReplicaSet_codec tag_serde) (replicasets_prefix ''default'') (map_of (StateStore_db deployed)) k = Some rs \<and>
        ReplicaSet_owner_ref rs = Some (Deployment_id sample_deployment)} \<and> Pod_owner_ref p = Some (ReplicaSet_id rs)}))" by blast
  have "map_of (StateStore_db w') ''/registry/pods/default/web-0'' = None"
    unfolding m restrict_map_def using e(1,2) rs(1,2) by fastforce
  moreover have "map_of (StateStore_db w') ''/registry/pods/default/db'' = Some (V_Pod (sample_pod ''db''))"
    unfolding m restrict_map_def using e(3,4) rs(3) no by (auto simp: entries_in_Some key_defs)
  ultimately show ?thesis using w' by blast
qed

definition pod_run :: "Pod response result \<times> ((string \<times> json) list, json) world" where
  "pod_run = create_pod mem_slatedb tag_serde api_env True ''default'' (sample_pod ''cache'') deployed"

lemma pod_run_ok: "case fst pod_run of Inr (CREATED, Json p) \<Rightarrow> Pod_node_name p = Some ''n1'' | _ \<Rightarrow> False"
  "fst (store_get mem_slatedb (vpcs_prefix @ spec_vpc (sample_pod ''cache'')) deployed) = Inr None"
  by code_simp+

lemma deployed_nodes:
  "list_prefix mem_slatedb nodes_prefix deployed = (Inr [(''/registry/nodes/n1'', V_Node (sample_node ''n1''))], deployed)"
  by code_simp

theorem create_pod_answers_witness:
  "\<exists>p. fst pod_run = Inr (CREATED, Json p) \<and>
     entries_in (Pod_codec tag_serde) (pods_prefix ''default'') (map_of (StateStore_db (snd pod_run))) ''/registry/pods/default/cache'' = Some p"
proof -
  have k: "pods_prefix ''default'' @ Pod_name (sample_pod ''cache'') = ''/registry/pods/default/cache''" by (simp add: key_defs sample_pod_def)
  have no: "entries_in (Vpc_codec tag_serde) vpcs_prefix (map_of (StateStore_db deployed)) (vpcs_prefix @ spec_vpc (sample_pod ''cache'')) = None"
    by (simp add: entries_in_def deployed_def vpcs_prefix_def spec_vpc_def sample_pod_def)
  have run: "create_pod mem_slatedb tag_serde api_env True ''default'' (sample_pod ''cache'') deployed = (fst pod_run, snd pod_run)"
    unfolding pod_run_def by (rule prod.collapse [symmetric])
  show ?thesis
    using create_pod_answers [OF memreg.registry_axioms run pod_run_ok(2) deployed_nodes] pod_run_ok(1)
    by (auto simp: no k)
qed

end
