(* ===== verification/Backup_Restore.thy ===== *)
theory Backup_Restore
  imports Api_Base
begin

text \<open>
  Backups of the registry: the handlers that create and restore one
  (\<open>pkg/api/src/handlers/backup.rs\<close>), and the controller that writes backups to disk and
  rotates them (\<open>pkg/controllers/src/backup.rs\<close>). Gzip and the JSON of a backup file are one codec, a
  parameter, as are the JSON values stored, the date format and the file system. The flag
  \<open>restore_in_progress\<close> is true exactly while \<open>perform_restore\<close> runs; the guard of the protected routes (in \<open>Api_Base\<close>) takes it as an argument.
  The lemmas show that a completed restore brings back the registry of the backup.
\<close>

section \<open>Backup files\<close>

record 'j BackupEntry =
  BackupEntry_key :: string
  BackupEntry_value :: 'j

record 'j BackupFile =
  BackupFile_version :: string
  BackupFile_created_at :: DateTime
  BackupFile_cluster_name :: string
  BackupFile_node_count :: nat
  BackupFile_key_count :: nat
  BackupFile_entries :: "'j BackupEntry list"
  BackupFile_ca_cert :: string

definition BACKUP_VERSION :: string where "BACKUP_VERSION = ''1.0''"

record BackupStatus =
  BackupStatus_last_backup_at :: "DateTime option"
  BackupStatus_last_backup_file :: "string option"
  BackupStatus_key_count :: "nat option"
  BackupStatus_status :: string

text \<open>
  The codecs: \<open>value_codec\<close> between stored bytes and JSON values, \<open>file_codec\<close> between bytes of a file and
  backup files (JSON, then gzip), \<open>status_codec\<close> for the metadata, and the bytes of a literal.
\<close>

record ('v, 'j, 'b) backup_serde =
  value_codec :: "('v, 'j) codec"
  file_codec :: "('b, 'j BackupFile) codec"
  status_codec :: "('v, BackupStatus) codec"
  as_bytes :: "string \<Rightarrow> 'v"

definition backup_of :: "('v, 'j) codec \<Rightarrow> string \<Rightarrow> DateTime \<Rightarrow> (string \<times> 'v) list \<Rightarrow> 'j BackupFile" where
  "backup_of c ca_cert now entries_raw =
     (let entries = map (\<lambda>(k, x). \<lparr> BackupEntry_key = k, BackupEntry_value = x \<rparr>) (decoded c entries_raw)
      in \<lparr> BackupFile_version = BACKUP_VERSION, BackupFile_created_at = now, BackupFile_cluster_name = ''k3rs'',
           BackupFile_node_count = length (filter (\<lambda>(k, _). starts_with k ''/registry/nodes/'') entries_raw),
           BackupFile_key_count = length entries, BackupFile_entries = entries, BackupFile_ca_cert = ca_cert \<rparr>)"

definition create_backup_bytes :: "('db, 'v) SlateDb \<Rightarrow> ('v, 'j, 'b) backup_serde \<Rightarrow> env \<Rightarrow> string \<Rightarrow>
    (('db, 'v) world, 'j BackupFile \<times> 'b) act" where
  "create_backup_bytes D B E ca_cert =
     bindM (snapshot D) (\<lambda>entries_raw.
     bindM (read_clock E) (\<lambda>now.
       let backup = backup_of (value_codec B) ca_cert now entries_raw
       in bindM (liftR (to_vec (file_codec B) backup)) (\<lambda>compressed. returnM (backup, compressed))))"

definition validate_backup :: "'j BackupFile \<Rightarrow> unit result" where
  "validate_backup backup =
     (if BackupFile_version backup \<noteq> BACKUP_VERSION then Inl (Err ''Unsupported backup version'')
      else if BackupFile_entries backup = [] then Inl (Err ''Backup contains no entries'')
      else Inr ())"

definition parse_backup_bytes :: "('v, 'j, 'b) backup_serde \<Rightarrow> 'b \<Rightarrow> 'j BackupFile result" where
  "parse_backup_bytes B data = from_slice (file_codec B) data"

section \<open>Restore\<close>

datatype restore_reply = Restored nat DateTime | DryRun nat DateTime string string | RestoreError string

definition perform_restore :: "('db, 'v) SlateDb \<Rightarrow> ('v, 'j, 'b) backup_serde \<Rightarrow> 'j BackupFile \<Rightarrow> (('db, 'v) world, nat) act" where
  "perform_restore D B backup =
     bindM (snapshot D) (\<lambda>existing.
     bindM (forM existing (\<lambda>(key, _).
       whenM (\<not> starts_with key ''/registry/_restore/'' \<and> \<not> starts_with key ''/registry/_backup/'') (store_delete D key))) (\<lambda>_.
     bindM (forM (BackupFile_entries backup) (\<lambda>entry.
       put_json D (value_codec B) (BackupEntry_key entry) (BackupEntry_value entry))) (\<lambda>_.
     returnM (length (BackupFile_entries backup)))))"

text \<open>\<open>timestamp\<close>: the decimal text of the seconds of a time.\<close>

definition finish_restore :: "('db, 'v) SlateDb \<Rightarrow> ('v, 'j, 'b) backup_serde \<Rightarrow> env \<Rightarrow> (DateTime \<Rightarrow> string) \<Rightarrow> 'j BackupFile \<Rightarrow> nat result \<Rightarrow>
    (('db, 'v) world, StatusCode \<times> restore_reply) act" where
  "finish_restore D B E timestamp backup result =
     (case result of
        Inr imported \<Rightarrow>
          bindM (read_clock E) (\<lambda>now.
          bindM (ignoreM (store_put D ''/registry/_restore/epoch'' (as_bytes B (timestamp now)))) (\<lambda>_.
          bindM (ignoreM (store_put D ''/registry/_restore/status'' (as_bytes B ''completed''))) (\<lambda>_.
          returnM (OK, Restored imported (BackupFile_created_at backup)))))
      | Inl (Err e) \<Rightarrow>
          bindM (ignoreM (store_put D ''/registry/_restore/status'' (as_bytes B ''failed''))) (\<lambda>_.
          returnM (INTERNAL_SERVER_ERROR, RestoreError (''Restore failed: '' @ e))))"

definition do_restore :: "('db, 'v) SlateDb \<Rightarrow> ('v, 'j, 'b) backup_serde \<Rightarrow> env \<Rightarrow> (DateTime \<Rightarrow> string) \<Rightarrow> 'b \<Rightarrow> bool \<Rightarrow>
    (('db, 'v) world, StatusCode \<times> restore_reply) act" where
  "do_restore D B E timestamp data dry_run =
     (case parse_backup_bytes B data of
        Inl (Err e) \<Rightarrow> returnM (BAD_REQUEST, RestoreError (''Failed to parse backup: '' @ e))
      | Inr backup \<Rightarrow>
          (case validate_backup backup of
             Inl (Err e) \<Rightarrow> returnM (BAD_REQUEST, RestoreError (''Invalid backup: '' @ e))
           | Inr _ \<Rightarrow>
               if dry_run then returnM (OK, DryRun (BackupFile_key_count backup) (BackupFile_created_at backup) (BackupFile_version backup) (BackupFile_cluster_name backup))
               else bindM (ignoreM (store_put D ''/registry/_restore/status'' (as_bytes B ''in_progress''))) (\<lambda>_.
                 bindM (tryM (perform_restore D B backup)) (finish_restore D B E timestamp backup))))"

definition restore_cluster_handler :: "('db, 'v) SlateDb \<Rightarrow> ('v, 'j, 'b) backup_serde \<Rightarrow> env \<Rightarrow> (DateTime \<Rightarrow> string) \<Rightarrow> bool \<Rightarrow> 'b \<Rightarrow>
    (('db, 'v) world, StatusCode \<times> restore_reply) act" where
  "restore_cluster_handler D B E timestamp is_leader body =
     (if \<not> is_leader then returnM (FORBIDDEN, RestoreError ''restore can only be triggered on the leader'')
      else do_restore D B E timestamp body False)"

definition restore_dry_run_handler :: "('db, 'v) SlateDb \<Rightarrow> ('v, 'j, 'b) backup_serde \<Rightarrow> env \<Rightarrow> (DateTime \<Rightarrow> string) \<Rightarrow> 'b \<Rightarrow>
    (('db, 'v) world, StatusCode \<times> restore_reply) act" where
  "restore_dry_run_handler D B E timestamp body = do_restore D B E timestamp body True"

section \<open>Creating backups\<close>

definition backup_file_name :: "(DateTime \<Rightarrow> string) \<Rightarrow> DateTime \<Rightarrow> string" where
  "backup_file_name stamp created_at = ''backup-'' @ stamp created_at @ ''.k3rs-backup.json.gz''"

definition success_status :: "DateTime \<Rightarrow> string \<Rightarrow> nat \<Rightarrow> BackupStatus" where
  "success_status created_at file key_count = \<lparr> BackupStatus_last_backup_at = Some created_at, BackupStatus_last_backup_file = Some file,
     BackupStatus_key_count = Some key_count, BackupStatus_status = ''success'' \<rparr>"

datatype 'b backup_reply = Download string 'b | Restoring | BackupError string

definition create_backup_handler :: "('db, 'v) SlateDb \<Rightarrow> ('v, 'j, 'b) backup_serde \<Rightarrow> env \<Rightarrow> (DateTime \<Rightarrow> string) \<Rightarrow> string \<Rightarrow> bool \<Rightarrow>
    (('db, 'v) world, 'b backup_reply) act" where
  "create_backup_handler D B E stamp ca_cert restore_in_progress =
     (if restore_in_progress then returnM Restoring
      else bindM (tryM (create_backup_bytes D B E ca_cert)) (\<lambda>r. case r of
          Inr (backup, compressed) \<Rightarrow>
            let filename = backup_file_name stamp (BackupFile_created_at backup);
                st = success_status (BackupFile_created_at backup) filename (BackupFile_key_count backup)
            in bindM (case to_vec (status_codec B) st of
                  Inr data \<Rightarrow> ignoreM (store_put D ''/registry/_backup/last'' data)
                | Inl _ \<Rightarrow> returnM ()) (\<lambda>_. returnM (Download filename compressed))
        | Inl (Err e) \<Rightarrow> returnM (BackupError e)))"

definition backup_status :: "('db, 'v) SlateDb \<Rightarrow> ('v, 'j, 'b) backup_serde \<Rightarrow> (('db, 'v) world, BackupStatus) act" where
  "backup_status D B =
     bindM (tryM (store_get D ''/registry/_backup/last'')) (\<lambda>found.
       let none = \<lparr> BackupStatus_last_backup_at = None, BackupStatus_last_backup_file = None, BackupStatus_key_count = None, BackupStatus_status = ''no_backup'' \<rparr>
       in returnM (case found of
            Inr (Some data) \<Rightarrow> (case from_slice (status_codec B) data of Inr st \<Rightarrow> st | Inl _ \<Rightarrow> none\<lparr>BackupStatus_status := ''unknown''\<rparr>)
          | _ \<Rightarrow> none))"

section \<open>The backup controller\<close>

text \<open>The file system: files with the names, paths and modification times of a directory.\<close>

record ('fs, 'b) file_ops =
  fs_write :: "'fs \<Rightarrow> string \<Rightarrow> 'b \<Rightarrow> unit result \<times> 'fs"
  fs_read_dir :: "'fs \<Rightarrow> string \<Rightarrow> (string \<times> string \<times> int) list result"
  fs_remove :: "'fs \<Rightarrow> string \<Rightarrow> unit result \<times> 'fs"

definition on_store :: "('s, 'a) act \<Rightarrow> ('s \<times> 'fs, 'a) act" where
  "on_store m s = (let (r, w) = m (fst s) in (r, (w, snd s)))"

definition on_files :: "('fs \<Rightarrow> 'a result \<times> 'fs) \<Rightarrow> ('s \<times> 'fs, 'a) act" where
  "on_files m s = (let (r, f) = m (snd s) in (r, (fst s, f)))"

text \<open>The files beyond the newest \<open>retention\<close>, by modification time.\<close>

definition rotated_out :: "nat \<Rightarrow> (string \<times> string \<times> int) list \<Rightarrow> (string \<times> int) list" where
  "rotated_out retention entries =
     drop retention (sort_key (\<lambda>(_, mtime). - mtime)
       (map snd (filter (\<lambda>(name, _). suffix ''.k3rs-backup.json.gz'' name) entries)))"

definition rotate_backups :: "('fs, 'b) file_ops \<Rightarrow> string \<Rightarrow> nat \<Rightarrow> ('s \<times> 'fs, unit) act" where
  "rotate_backups F backup_dir retention =
     bindM (on_files (\<lambda>f. (fs_read_dir F f backup_dir, f))) (\<lambda>entries.
       forM (rotated_out retention entries) (\<lambda>(path, _). ignoreM (on_files (\<lambda>f. fs_remove F f path))))"

definition run_backup :: "('db, 'v) SlateDb \<Rightarrow> ('v, 'j, 'b) backup_serde \<Rightarrow> env \<Rightarrow> (DateTime \<Rightarrow> string) \<Rightarrow> ('fs, 'b) file_ops \<Rightarrow>
    string \<Rightarrow> nat \<Rightarrow> string \<Rightarrow> (('db, 'v) world \<times> 'fs, string) act" where
  "run_backup D B E stamp F backup_dir retention ca_cert =
     bindM (on_store (create_backup_bytes D B E ca_cert)) (\<lambda>(backup, compressed).
       let path = backup_dir @ ''/'' @ backup_file_name stamp (BackupFile_created_at backup)
       in bindM (on_files (\<lambda>f. fs_write F f path compressed)) (\<lambda>_.
          bindM (rotate_backups F backup_dir retention) (\<lambda>_.
          bindM (case to_vec (status_codec B) (success_status (BackupFile_created_at backup) path (BackupFile_key_count backup)) of
              Inr data \<Rightarrow> on_store (store_put D ''/registry/_backup/last'' data)
            | Inl _ \<Rightarrow> returnM ()) (\<lambda>_. returnM path))))"

text \<open>One turn of the controller's loop: the outcome is an event of the watch log, not a stored key.\<close>

definition emit_event :: "string \<Rightarrow> 'v \<Rightarrow> (('db, 'v) world, unit) act" where
  "emit_event key val w = (Inr (), w\<lparr>StateStore_event_log := emit Ev_Put key (Some val) (StateStore_event_log w)\<rparr>)"

definition backup_tick :: "('db, 'v) SlateDb \<Rightarrow> ('v, 'j, 'b) backup_serde \<Rightarrow> env \<Rightarrow> (DateTime \<Rightarrow> string) \<Rightarrow> ('fs, 'b) file_ops \<Rightarrow>
    string \<Rightarrow> nat \<Rightarrow> string \<Rightarrow> (('db, 'v) world \<times> 'fs, unit) act" where
  "backup_tick D B E stamp F backup_dir retention ca_cert =
     bindM (tryM (run_backup D B E stamp F backup_dir retention ca_cert)) (\<lambda>r. case r of
       Inr filename \<Rightarrow> on_store (emit_event ''/events/backup/success'' (as_bytes B filename))
     | Inl (Err e) \<Rightarrow> on_store (emit_event ''/events/backup/failure'' (as_bytes B e)))"

section \<open>The follower's restore watcher\<close>

text \<open>
  \<open>restore_watcher.rs\<close>: one tick of the loop. \<open>from_utf8\<close> reads the stored bytes as text; the result is
  the epoch to remember and whether a reload was triggered.
\<close>

definition read_epoch :: "('db, 'v) SlateDb \<Rightarrow> ('v \<Rightarrow> string option) \<Rightarrow> (('db, 'v) world, string option) act" where
  "read_epoch D from_utf8 =
     bindM (tryM (store_get D ''/registry/_restore/epoch'')) (\<lambda>found. returnM (case found of
       Inr (Some bytes) \<Rightarrow> from_utf8 bytes | _ \<Rightarrow> None))"

definition watch_tick :: "('db, 'v) SlateDb \<Rightarrow> ('v \<Rightarrow> string option) \<Rightarrow> bool \<Rightarrow> string option \<Rightarrow> (('db, 'v) world, string option \<times> bool) act" where
  "watch_tick D from_utf8 restore_in_progress last_epoch =
     (if restore_in_progress then returnM (last_epoch, False)
      else bindM (read_epoch D from_utf8) (\<lambda>current.
        returnM (if current \<noteq> last_epoch \<and> current \<noteq> None then (current, True) else (last_epoch, False))))"

section \<open>Lemmas\<close>

text \<open>The keys a snapshot covers, and the JSON value at a key.\<close>

definition registry_key :: "string \<Rightarrow> bool" where
  "registry_key k \<longleftrightarrow> prefix ''/registry/'' k \<and> \<not> prefix ''/registry/_restore/'' k \<and> \<not> prefix ''/registry/_backup/'' k \<and> \<not> prefix ''/registry/leases/'' k"

definition json_at :: "('v, 'j) codec \<Rightarrow> (string \<rightharpoonup> 'v) \<Rightarrow> string \<rightharpoonup> 'j" where
  "json_at c m k = Option.bind (m k) (\<lambda>v. ok (from_slice c v))"

lemma restore_key_no_registry: "\<not> registry_key ''/registry/_restore/status''" "\<not> registry_key ''/registry/_restore/epoch''"
  by (simp_all add: registry_key_def)

context slatedb_scan
begin

lemma snapshot_ok:
  assumes "snapshot D w = (Inr kvs, w')"
  shows "w' = w" and "distinct (map fst kvs)" and "(k, v) \<in> set kvs \<longleftrightarrow> registry_key k \<and> lookup w k = Some v"
proof -
  obtain all where l: "list_prefix D ''/registry/'' w = (Inr all, w)" and w: "w' = w"
    and kvs: "kvs = filter (\<lambda>(k, _). \<not> starts_with k ''/registry/_restore/'' \<and> \<not> starts_with k ''/registry/_backup/'' \<and> \<not> starts_with k ''/registry/leases/'') all"
    using assms by (auto simp: snapshot_def bindM_Inr list_prefix_iff returnM_Inr)
  show "w' = w" by fact
  show "distinct (map fst kvs)" unfolding kvs using list_prefix_ok(3) [OF l] by (rule distinct_map_filter)
  show "(k, v) \<in> set kvs \<longleftrightarrow> registry_key k \<and> lookup w k = Some v"
    by (auto simp: kvs list_prefix_lookup [OF l] registry_key_def starts_with_def)
qed

lemma wipe_ok:
  assumes "forM kvs (\<lambda>(key, _). whenM (P key) (store_delete D key)) w = (Inr u, w')"
  shows "lookup w' k = (if k \<in> fst ` set kvs \<and> P k then None else lookup w k)"
  using assms
proof (induction kvs arbitrary: w)
  case Nil
  then show ?case by (simp add: returnM_Inr)
next
  case (Cons kv kvs)
  obtain key v where kv: "kv = (key, v)" by (cases kv)
  obtain w1 where 1: "whenM (P key) (store_delete D key) w = (Inr (), w1)"
    and rest: "forM kvs (\<lambda>(key, _). whenM (P key) (store_delete D key)) w1 = (Inr u, w')"
    using Cons.prems by (auto simp: kv bindM_Inr)
  have "lookup w1 = (if P key then (lookup w)(key := None) else lookup w)"
    using 1 store_delete_ok(1) [of key w "()" w1] by (auto simp: whenM_def returnM_Inr split: if_splits)
  then show ?case using Cons.IH [OF rest] by (auto simp: kv)
qed

lemma put_value:
  assumes "put_json D c key x w = (Inr u, w')" "codec_ok c"
  shows "\<exists>v. from_slice c v = Inr x \<and> lookup w' = (lookup w)(key \<mapsto> v)"
proof -
  obtain v where "to_vec c x = Inr v" "store_put D key v w = (Inr u, w')"
    using assms(1) by (auto simp: put_json_def bindM_Inr liftR_def)
  then show ?thesis using codec_okD [OF assms(2)] store_put_ok(1) by blast
qed

lemma import_ok:
  assumes c: "codec_ok c"
  shows "forM es (\<lambda>entry. put_json D c (BackupEntry_key entry) (BackupEntry_value entry)) w = (Inr u, w') \<Longrightarrow> distinct (map BackupEntry_key es) \<Longrightarrow>
    (\<forall>e\<in>set es. json_at c (lookup w') (BackupEntry_key e) = Some (BackupEntry_value e)) \<and>
    (\<forall>k. k \<notin> BackupEntry_key ` set es \<longrightarrow> lookup w' k = lookup w k)"
proof (induction es arbitrary: w)
  case Nil
  then show ?case by (simp add: returnM_Inr)
next
  case (Cons e es)
  obtain w1 where 1: "put_json D c (BackupEntry_key e) (BackupEntry_value e) w = (Inr (), w1)"
    and rest: "forM es (\<lambda>entry. put_json D c (BackupEntry_key entry) (BackupEntry_value entry)) w1 = (Inr u, w')"
    using Cons.prems(1) by (auto simp: bindM_Inr)
  obtain v where v: "from_slice c v = Inr (BackupEntry_value e)" "lookup w1 = (lookup w)(BackupEntry_key e \<mapsto> v)"
    using put_value [OF 1 c] by blast
  from Cons.IH [OF rest] Cons.prems(2) have IH: "\<forall>e\<in>set es. json_at c (lookup w') (BackupEntry_key e) = Some (BackupEntry_value e)"
    "\<And>k. k \<notin> BackupEntry_key ` set es \<Longrightarrow> lookup w' k = lookup w1 k" by simp_all
  moreover have "lookup w' (BackupEntry_key e) = Some v" using IH(2) [of "BackupEntry_key e"] Cons.prems(2) by (simp add: v(2))
  ultimately show ?case using v by (auto simp: json_at_def)
qed

lemma perform_restore_ok:
  assumes "perform_restore D B backup w = (Inr n, w')" "codec_ok (value_codec B)" "distinct (map BackupEntry_key (BackupFile_entries backup))"
  shows "e \<in> set (BackupFile_entries backup) \<Longrightarrow> json_at (value_codec B) (lookup w') (BackupEntry_key e) = Some (BackupEntry_value e)"
    and "k \<notin> BackupEntry_key ` set (BackupFile_entries backup) \<Longrightarrow> lookup w' k = (if registry_key k then None else lookup w k)"
proof -
  obtain kvs w1 where s: "snapshot D w = (Inr kvs, w)"
    and wipe: "forM kvs (\<lambda>(key, _). whenM (\<not> starts_with key ''/registry/_restore/'' \<and> \<not> starts_with key ''/registry/_backup/'') (store_delete D key)) w = (Inr (), w1)"
    and imp: "forM (BackupFile_entries backup) (\<lambda>entry. put_json D (value_codec B) (BackupEntry_key entry) (BackupEntry_value entry)) w1 = (Inr (), w')"
    using assms(1) snapshot_ok(1) by (force simp: perform_restore_def bindM_Inr returnM_Inr)
  have w1: "lookup w1 k = (if registry_key k then None else lookup w k)" for k
    using wipe_ok [OF wipe, of k] snapshot_ok(3) [OF s, of k]
    by (cases "lookup w k") (force simp: registry_key_def starts_with_def)+
  note i = import_ok [OF assms(2) imp assms(3)]
  show "e \<in> set (BackupFile_entries backup) \<Longrightarrow> json_at (value_codec B) (lookup w') (BackupEntry_key e) = Some (BackupEntry_value e)" using i by blast
  show "k \<notin> BackupEntry_key ` set (BackupFile_entries backup) \<Longrightarrow> lookup w' k = (if registry_key k then None else lookup w k)" using i w1 by simp
qed

text \<open>The puts of the status leave the registry alone.\<close>

lemma ignored_put: "k \<noteq> key \<Longrightarrow> lookup (snd (store_put D key v w)) k = lookup w k"
  using store_put_other [of key v w] by (metis prod.collapse)

lemma restore_run:
  assumes "do_restore D B E timestamp data False w = (Inr (OK, reply), w')"
  obtains backup n w1 w2 where "from_slice (file_codec B) data = Inr backup" "perform_restore D B backup w1 = (Inr n, w2)"
    "\<And>k. k \<noteq> ''/registry/_restore/status'' \<Longrightarrow> lookup w1 k = lookup w k"
    "\<And>k. k \<noteq> ''/registry/_restore/status'' \<Longrightarrow> k \<noteq> ''/registry/_restore/epoch'' \<Longrightarrow> lookup w' k = lookup w2 k"
proof -
  obtain backup where b: "from_slice (file_codec B) data = Inr backup" and val: "validate_backup backup = Inr ()"
    using assms by (auto simp: do_restore_def parse_backup_bytes_def returnM_def split: sum.splits error.splits)
  define w1 where "w1 = snd (store_put D ''/registry/_restore/status'' (as_bytes B ''in_progress'') w)"
  have run: "do_restore D B E timestamp data False w = bindM (tryM (perform_restore D B backup)) (finish_restore D B E timestamp backup) w1"
    by (simp add: do_restore_def parse_backup_bytes_def b val w1_def bindM_ignore)
  obtain n w2 where p: "perform_restore D B backup w1 = (Inr n, w2)"
    using assms unfolding run by (cases "perform_restore D B backup w1") (auto simp: bindM_try bindM_ignore returnM_def finish_restore_def split: sum.splits error.splits)
  let ?w2 = "w2\<lparr>clock_reads := Suc (clock_reads w2)\<rparr>"
  define w3 where "w3 = snd (store_put D ''/registry/_restore/epoch'' (as_bytes B (timestamp (utc_now E (clock_reads w2)))) ?w2)"
  have w': "w' = snd (store_put D ''/registry/_restore/status'' (as_bytes B ''completed'') w3)"
    using assms unfolding run by (simp add: bindM_try p finish_restore_def bindM_clock bindM_ignore returnM_def w3_def)
  show thesis
  proof (rule that [OF b p])
    show "\<And>k. k \<noteq> ''/registry/_restore/status'' \<Longrightarrow> lookup w1 k = lookup w k" unfolding w1_def by (rule ignored_put)
    show "\<And>k. k \<noteq> ''/registry/_restore/status'' \<Longrightarrow> k \<noteq> ''/registry/_restore/epoch'' \<Longrightarrow> lookup w' k = lookup w2 k"
      unfolding w' w3_def by (simp add: ignored_put)
  qed
qed

text \<open>What a backup holds of the registry it was taken from.\<close>

lemma backup_entries:
  assumes "create_backup_bytes D B E ca_cert w = (Inr (backup, data), w')" "codec_ok (file_codec B)"
  shows "from_slice (file_codec B) data = Inr backup" and "distinct (map BackupEntry_key (BackupFile_entries backup))"
    and "\<lparr> BackupEntry_key = k, BackupEntry_value = x \<rparr> \<in> set (BackupFile_entries backup) \<longleftrightarrow> registry_key k \<and> json_at (value_codec B) (lookup w) k = Some x"
    and "k \<in> BackupEntry_key ` set (BackupFile_entries backup) \<longleftrightarrow> registry_key k \<and> json_at (value_codec B) (lookup w) k \<noteq> None"
proof -
  obtain kvs now where s: "snapshot D w = (Inr kvs, w)" and b: "backup = backup_of (value_codec B) ca_cert now kvs" and d: "to_vec (file_codec B) backup = Inr data"
    using assms(1) snapshot_ok(1) by (force simp: create_backup_bytes_def bindM_Inr liftR_def returnM_Inr read_clock_def Let_def)
  show "from_slice (file_codec B) data = Inr backup" using d by (rule codec_okD [OF assms(2)])
  have es: "BackupFile_entries backup = map (\<lambda>(k, x). \<lparr> BackupEntry_key = k, BackupEntry_value = x \<rparr>) (decoded (value_codec B) kvs)"
    by (simp add: b backup_of_def Let_def)
  have m: "(k, x) \<in> set (decoded (value_codec B) kvs) \<longleftrightarrow> registry_key k \<and> json_at (value_codec B) (lookup w) k = Some x" for k x
    by (auto simp: set_decoded snapshot_ok(3) [OF s] json_at_def bind_eq_Some_conv)
  have "map BackupEntry_key (BackupFile_entries backup) = map fst (decoded (value_codec B) kvs)" by (simp add: es case_prod_unfold)
  then show "distinct (map BackupEntry_key (BackupFile_entries backup))" using distinct_decoded [OF snapshot_ok(2) [OF s], of "value_codec B"] by simp
  show e: "\<lparr> BackupEntry_key = k, BackupEntry_value = x \<rparr> \<in> set (BackupFile_entries backup) \<longleftrightarrow> registry_key k \<and> json_at (value_codec B) (lookup w) k = Some x" for k x
    by (force simp: es m [symmetric])
  have "BackupEntry_key ` set (BackupFile_entries backup) = fst ` set (decoded (value_codec B) kvs)" by (force simp: es)
  then show "k \<in> BackupEntry_key ` set (BackupFile_entries backup) \<longleftrightarrow> registry_key k \<and> json_at (value_codec B) (lookup w) k \<noteq> None"
    using m [of k] by (force simp: image_iff)
qed

lemma restore_ok:
  assumes b: "create_backup_bytes D B E ca_cert w0 = (Inr (backup, data), w0')" "codec_ok (file_codec B)" "codec_ok (value_codec B)"
    and r: "do_restore D B E' timestamp data False w = (Inr (OK, reply), w')"
  shows "registry_key k \<Longrightarrow> json_at (value_codec B) (lookup w') k = json_at (value_codec B) (lookup w0) k"
    and "registry_key k \<Longrightarrow> json_at (value_codec B) (lookup w0) k = None \<Longrightarrow> lookup w' k = None"
    and "\<not> registry_key k \<Longrightarrow> k \<noteq> ''/registry/_restore/status'' \<Longrightarrow> k \<noteq> ''/registry/_restore/epoch'' \<Longrightarrow> lookup w' k = lookup w k"
proof -
  note e = backup_entries [OF b(1,2)]
  obtain n w1 w2 where p: "perform_restore D B backup w1 = (Inr n, w2)" and w1: "\<And>k. k \<noteq> ''/registry/_restore/status'' \<Longrightarrow> lookup w1 k = lookup w k"
    and w': "\<And>k. k \<noteq> ''/registry/_restore/status'' \<Longrightarrow> k \<noteq> ''/registry/_restore/epoch'' \<Longrightarrow> lookup w' k = lookup w2 k"
    using r by (rule restore_run) (simp add: e(1))
  note R = perform_restore_ok [OF p b(3) e(2)]
  have same: "lookup w' k = lookup w2 k" if "registry_key k" for k using that restore_key_no_registry by (intro w') auto
  show none: "lookup w' k = None" if "registry_key k" "json_at (value_codec B) (lookup w0) k = None" for k
    using R(2) [of k] e(4) [of k] that same by simp
  show "json_at (value_codec B) (lookup w') k = json_at (value_codec B) (lookup w0) k" if k: "registry_key k"
  proof (cases "json_at (value_codec B) (lookup w0) k")
    case None
    then show ?thesis using none [OF k None] by (simp add: json_at_def)
  next
    case (Some x)
    then have "\<lparr> BackupEntry_key = k, BackupEntry_value = x \<rparr> \<in> set (BackupFile_entries backup)" using e(3) k by blast
    from R(1) [OF this] show ?thesis using same [OF k] Some by (simp add: json_at_def)
  qed
  show "lookup w' k = lookup w k" if "\<not> registry_key k" "k \<noteq> ''/registry/_restore/status''" "k \<noteq> ''/registry/_restore/epoch''"
    using R(2) [of k] e(4) [of k] that w' [of k] w1 [of k] by simp
qed

end

section \<open>Restoring a backup\<close>

text \<open>C29: a restore brings back the registry: if a backup was taken of one state and its restore into another
  answers 200, then afterwards every registry key (leases and the backup and restore metadata aside)
  holds the JSON value it had when the backup was taken and no other registry key is left, while
  leases and backup metadata are as they were before the restore.\<close>

theorem restore_brings_back:
  assumes "slatedb_scan D content" and "codec_ok (value_codec B)" and "codec_ok (file_codec B)"
    and "create_backup_bytes D B E ca_cert w0 = (Inr (backup, data), w0')"
    and "do_restore D B E' timestamp data False w = (Inr (OK, reply), w')"
  shows "(registry_key k \<longrightarrow>
      json_at (value_codec B) (content (StateStore_db w')) k = json_at (value_codec B) (content (StateStore_db w0)) k \<and>
      (json_at (value_codec B) (content (StateStore_db w0)) k = None \<longrightarrow> content (StateStore_db w') k = None)) \<and>
    (\<not> prefix ''/registry/_restore/'' k \<and> \<not> registry_key k \<longrightarrow> content (StateStore_db w') k = content (StateStore_db w) k)"
proof -
  note R = slatedb_scan.restore_ok [OF assms(1,4,3,2,5), of k]
  have "k \<noteq> ''/registry/_restore/status''" "k \<noteq> ''/registry/_restore/epoch''" if "\<not> prefix ''/registry/_restore/'' k" using that by auto
  with R show ?thesis by blast
qed

text \<open>The witness: strings as bytes, JSON values and files; one pod backed up, another one stored later.\<close>

definition text_codec :: "(string, string) codec" where
  "text_codec = \<lparr> to_vec = Inr, from_slice = Inr \<rparr>"

definition text_serde :: "(string, string, string BackupFile) backup_serde" where
  "text_serde = \<lparr> value_codec = text_codec, file_codec = \<lparr> to_vec = Inr, from_slice = Inr \<rparr>,
     status_codec = \<lparr> to_vec = (\<lambda>_. Inl (Err [])), from_slice = (\<lambda>_. Inl (Err [])) \<rparr>, as_bytes = (\<lambda>s. s) \<rparr>"

definition one_entry :: "string \<Rightarrow> string \<Rightarrow> ((string \<times> string) list, string) world" where
  "one_entry k v = \<lparr> StateStore_db = [(k, v)], StateStore_event_log = EventLog_new 16, rr_index = 0, uuid_draws = 0, clock_reads = 0 \<rparr>"

definition clock_env :: env where "clock_env = \<lparr> new_v4 = (\<lambda>_. []), utc_now = int \<rparr>"

definition backup_run :: "(string BackupFile \<times> string BackupFile) result \<times> ((string \<times> string) list, string) world" where
  "backup_run = create_backup_bytes mem_slatedb text_serde clock_env [] (one_entry ''/registry/pods/a'' ''1'')"

definition taken :: "string BackupFile" where
  "taken = backup_of text_codec [] 0 [(''/registry/pods/a'', ''1'')]"

definition restored_run :: "(StatusCode \<times> restore_reply) result \<times> ((string \<times> string) list, string) world" where
  "restored_run = do_restore mem_slatedb text_serde clock_env (\<lambda>_. []) taken False (one_entry ''/registry/pods/b'' ''2'')"

lemma backup_runs: "fst backup_run = Inr (taken, taken)" "fst restored_run = Inr (OK, Restored 1 0)"
  by code_simp+

theorem restore_brings_back_witness:
  "map_of (StateStore_db (snd restored_run)) ''/registry/pods/b'' = None \<and>
   json_at text_codec (map_of (StateStore_db (snd restored_run))) ''/registry/pods/a'' = Some ''1''"
proof -
  have c: "codec_ok (value_codec text_serde)" "codec_ok (file_codec text_serde)"
    by (simp_all add: codec_ok_def text_serde_def text_codec_def)
  have r: "create_backup_bytes mem_slatedb text_serde clock_env [] (one_entry ''/registry/pods/a'' ''1'') = (Inr (taken, taken), snd backup_run)"
    "do_restore mem_slatedb text_serde clock_env (\<lambda>_. []) taken False (one_entry ''/registry/pods/b'' ''2'') = (Inr (OK, Restored 1 0), snd restored_run)"
    using backup_runs by (metis prod.collapse backup_run_def, metis prod.collapse restored_run_def)
  note T = restore_brings_back [OF mem.slatedb_scan_axioms c r, unfolded text_serde_def backup_serde.select_convs]
  have k: "registry_key ''/registry/pods/a''" "registry_key ''/registry/pods/b''" by (simp_all add: registry_key_def)
  show ?thesis using T [of "''/registry/pods/a''"] T [of "''/registry/pods/b''"] k
    by (simp add: one_entry_def json_at_def text_codec_def)
qed

end
