(* ===== verification/Dns_Server.thy ===== *)
theory Dns_Server
  imports Ghost_IPv6 K3_Types
begin

text \<open>
  The embedded DNS server of the agent (\<open>pkg/network/src/dns.rs\<close>): records from services, VPC scoping of
  internal names, the wire format, and DNS64 for external names. The upstream resolver is a
  parameter, \<open>forward\<close>. The lemmas show that the server answers a pod's query for a service of another
  VPC only along an active peering, and that its answers read back.
\<close>

section \<open>Records\<close>

record DnsServer =
  dns_records :: "(string, string) hmap"
  dns_vpc_records :: "(string, string \<times> string \<times> u16) hmap"
  dns_vpc_members :: "(string, string) hmap"
  dns_peered_vpcs :: "(string \<times> string) list"
  dns_domain_suffix :: string
  dns_platform_prefix :: u32
  dns_cluster_id :: u32

definition QTYPE_A :: u16 where "QTYPE_A = 1"
definition QTYPE_AAAA :: u16 where "QTYPE_AAAA = 28"
definition DNS_DOMAIN_SUFFIX :: string where "DNS_DOMAIN_SUFFIX = ''svc.cluster.local''"
definition DNS_NAT64_PREFIX :: bytes where "DNS_NAT64_PREFIX = [0x00, 0x64, 0xff, 0x9b, 0, 0, 0, 0, 0, 0, 0, 0]"

definition DnsServer_new :: DnsServer where
  "DnsServer_new = \<lparr> dns_records = [], dns_vpc_records = [], dns_vpc_members = [], dns_peered_vpcs = [],
     dns_domain_suffix = DNS_DOMAIN_SUFFIX, dns_platform_prefix = PLATFORM_PREFIX, dns_cluster_id = 0 \<rparr>"

definition set_ghost_config :: "u32 \<Rightarrow> u32 \<Rightarrow> DnsServer \<Rightarrow> DnsServer" where
  "set_ghost_config pfx cluster s = s\<lparr>dns_platform_prefix := pfx, dns_cluster_id := cluster\<rparr>"

definition fqdn_of :: "string \<Rightarrow> Service \<Rightarrow> string" where
  "fqdn_of domain_suffix svc = Service_name svc @ ''.'' @ Service_namespace svc @ ''.'' @ domain_suffix"

definition update_records :: "Service list \<Rightarrow> DnsServer \<Rightarrow> DnsServer" where
  "update_records services s = s\<lparr>dns_records := fold (\<lambda>svc m.
     case Service_cluster_ip svc of
       Some cluster_ip \<Rightarrow> hm_insert (fqdn_of (dns_domain_suffix s) svc) cluster_ip m
     | None \<Rightarrow> m) services []\<rparr>"

definition update_records_vpc :: "Service list \<Rightarrow> (string, string) hmap \<Rightarrow> (string, u16) hmap \<Rightarrow> DnsServer \<Rightarrow> DnsServer" where
  "update_records_vpc services ip_to_vpc vpc_name_to_id s = s\<lparr>dns_vpc_records := fold (\<lambda>svc m.
     case Service_cluster_ip svc of
       Some cluster_ip \<Rightarrow>
         let svc_vpc = (case Service_vpc svc of Some v \<Rightarrow> v | None \<Rightarrow> ''default'');
             vid = (case hm_get vpc_name_to_id svc_vpc of Some i \<Rightarrow> i | None \<Rightarrow> DEFAULT_VPC_ID)
         in hm_insert (fqdn_of (dns_domain_suffix s) svc) (cluster_ip, svc_vpc, vid) m
     | None \<Rightarrow> m) services [], dns_vpc_members := ip_to_vpc\<rparr>"

definition peering_pairs :: "VpcPeering \<Rightarrow> (string \<times> string) list" where
  "peering_pairs p =
     (if VpcPeering_status p \<noteq> Peering_Active then []
      else case VpcPeering_direction p of
        Bidirectional \<Rightarrow> [(VpcPeering_vpc_a p, VpcPeering_vpc_b p), (VpcPeering_vpc_b p, VpcPeering_vpc_a p)]
      | InitiatorOnly \<Rightarrow> [(VpcPeering_vpc_a p, VpcPeering_vpc_b p)])"

definition update_peerings :: "VpcPeering list \<Rightarrow> DnsServer \<Rightarrow> DnsServer" where
  "update_peerings peerings s = s\<lparr>dns_peered_vpcs := fold (\<lambda>p pairs. fold List.insert (peering_pairs p) pairs) peerings []\<rparr>"

text \<open>\<open>load_from_file\<close>: \<open>parsed\<close> is the file read and parsed as JSON.\<close>

definition load_from_file :: "(string, string) hmap result \<Rightarrow> DnsServer \<Rightarrow> nat result \<times> DnsServer" where
  "load_from_file parsed s = (case parsed of Inl e \<Rightarrow> (Inl e, s) | Inr new_records \<Rightarrow> (Inr (length new_records), s\<lparr>dns_records := new_records\<rparr>))"

section \<open>Names on the wire\<close>

text \<open>
  \<open>String::from_utf8_lossy\<close>: well-formed sequences are kept, each maximal ill-formed part becomes the
  three bytes of U+FFFD. The ranges of the continuation bytes that a first byte calls for:
\<close>

definition continuation :: "u8 \<Rightarrow> (u8 \<times> u8) list option" where
  "continuation b =
     (if b < 0x80 then Some []
      else if 0xC2 \<le> b \<and> b \<le> 0xDF then Some [(0x80, 0xBF)]
      else if b = 0xE0 then Some [(0xA0, 0xBF), (0x80, 0xBF)]
      else if b = 0xED then Some [(0x80, 0x9F), (0x80, 0xBF)]
      else if 0xE1 \<le> b \<and> b \<le> 0xEF then Some [(0x80, 0xBF), (0x80, 0xBF)]
      else if b = 0xF0 then Some [(0x90, 0xBF), (0x80, 0xBF), (0x80, 0xBF)]
      else if 0xF1 \<le> b \<and> b \<le> 0xF3 then Some [(0x80, 0xBF), (0x80, 0xBF), (0x80, 0xBF)]
      else if b = 0xF4 then Some [(0x80, 0x8F), (0x80, 0xBF), (0x80, 0xBF)]
      else None)"

fun matched :: "(u8 \<times> u8) list \<Rightarrow> bytes \<Rightarrow> nat" where
  "matched ((lo, hi) # rs) (b # bs) = (if lo \<le> b \<and> b \<le> hi then Suc (matched rs bs) else 0)"
| "matched _ _ = 0"

function utf8_lossy :: "bytes \<Rightarrow> bytes" where
  "utf8_lossy [] = []"
| "utf8_lossy (b # bs) =
     (case continuation b of
        None \<Rightarrow> [0xEF, 0xBF, 0xBD] @ utf8_lossy bs
      | Some rs \<Rightarrow> let n = matched rs bs in
          if n = length rs then b # take n bs @ utf8_lossy (drop n bs) else [0xEF, 0xBF, 0xBD] @ utf8_lossy (drop n bs))"
  by pat_completeness auto
termination by (relation "measure length") auto

definition string_of_bytes :: "bytes \<Rightarrow> string" where
  "string_of_bytes bs = map (\<lambda>b. char_of (unat b)) bs"

definition from_utf8_lossy :: "bytes \<Rightarrow> string" where
  "from_utf8_lossy bs = string_of_bytes (utf8_lossy bs)"

text \<open>The labels from an offset on; the offset grows until it passes the end.\<close>

function parse_labels :: "bytes \<Rightarrow> nat \<Rightarrow> string list option" where
  "parse_labels data offset =
     (if length data \<le> offset then None
      else let len = data ! offset in
        if len = 0 then Some []
        else if len AND 0xC0 = 0xC0 then Some []
        else if length data < offset + 1 + unat len then None
        else map_option ((#) (from_utf8_lossy (take (unat len) (drop (offset + 1) data)))) (parse_labels data (offset + 1 + unat len)))"
  by pat_completeness auto
termination by (relation "measure (\<lambda>(data, offset). length data - offset)") auto

declare parse_labels.simps [simp del]

definition parse_dns_name :: "bytes \<Rightarrow> nat \<Rightarrow> string option" where
  "parse_dns_name data offset =
     (case parse_labels data offset of
        None \<Rightarrow> None
      | Some parts \<Rightarrow> if parts = [] then None else Some (join_with ''.'' parts))"

function find_name_end :: "bytes \<Rightarrow> nat \<Rightarrow> nat option" where
  "find_name_end data offset =
     (if length data \<le> offset then None
      else let len = data ! offset in
        if len = 0 then Some (offset + 1)
        else if len AND 0xC0 = 0xC0 then Some (offset + 2)
        else find_name_end data (offset + 1 + unat len))"
  by pat_completeness auto
termination by (relation "measure (\<lambda>(data, offset). length data - offset)") auto

declare find_name_end.simps [simp del]

section \<open>Answers\<close>

definition answer_header :: "bytes \<Rightarrow> bytes" where
  "answer_header txn_id = txn_id @ [0x81, 0x80] @ [0x00, 0x01] @ [0x00, 0x01] @ [0x00, 0x00] @ [0x00, 0x00]"

definition build_a_response :: "bytes \<Rightarrow> bytes \<Rightarrow> bytes \<Rightarrow> bytes option" where
  "build_a_response txn_id question ip = Some (answer_header txn_id @ question @
     [0xC0, 0x0C] @ [0x00, 0x01] @ [0x00, 0x01] @ [0x00, 0x00, 0x00, 0x3C] @ [0x00, 0x04] @ ip)"

definition build_aaaa_response :: "bytes \<Rightarrow> bytes \<Rightarrow> bytes \<Rightarrow> bytes option" where
  "build_aaaa_response txn_id question ipv6 = Some (answer_header txn_id @ question @
     [0xC0, 0x0C] @ [0x00, 0x1C] @ [0x00, 0x01] @ [0x00, 0x00, 0x00, 0x3C] @ [0x00, 0x10] @ ipv6)"

text \<open>The bytes from one index up to another, and the first A record of an answer.\<close>

definition byte_range :: "bytes \<Rightarrow> nat \<Rightarrow> nat \<Rightarrow> bytes" where
  "byte_range data i j = take (j - i) (drop i data)"

fun skip_questions :: "bytes \<Rightarrow> nat \<Rightarrow> nat \<Rightarrow> nat option" where
  "skip_questions response 0 offset = Some offset"
| "skip_questions response (Suc n) offset =
     Option.bind (find_name_end response offset) (\<lambda>offset. skip_questions response n (offset + 4))"

fun find_a_record :: "bytes \<Rightarrow> nat \<Rightarrow> nat \<Rightarrow> bytes option" where
  "find_a_record response 0 offset = None"
| "find_a_record response (Suc n) offset =
     Option.bind (find_name_end response offset) (\<lambda>offset.
       if length response < offset + 10 then None
       else let rtype = u16_from_be_bytes (byte_range response offset (offset + 2));
                rdlength = unat (u16_from_be_bytes (byte_range response (offset + 8) (offset + 10)));
                offset = offset + 10
            in if length response < offset + rdlength then None
               else if rtype = QTYPE_A \<and> rdlength = 4 then Some (byte_range response offset (offset + 4))
               else find_a_record response n (offset + rdlength))"

definition extract_a_record_ip :: "bytes \<Rightarrow> bytes option" where
  "extract_a_record_ip response =
     (if length response < 12 then None
      else if response ! 3 AND 0x0F \<noteq> 0 then None
      else let qdcount = unat (u16_from_be_bytes (byte_range response 4 6)); ancount = unat (u16_from_be_bytes (byte_range response 6 8))
           in if ancount = 0 then None
              else Option.bind (skip_questions response qdcount 12) (\<lambda>offset. find_a_record response ancount offset))"

definition dns_construct_ghost_ipv6 :: "u32 \<Rightarrow> u32 \<Rightarrow> u16 \<Rightarrow> bytes \<Rightarrow> bytes" where
  "dns_construct_ghost_ipv6 pfx cluster vid ipv4 =
     u32_to_be_bytes pfx @ [push_bit 4 GHOST_VERSION, 0x00] @ u16_to_be_bytes (ucast (drop_bit 16 cluster)) @
     u16_to_be_bytes (ucast (cluster AND 0xFFFF)) @ u16_to_be_bytes vid @ ipv4"

section \<open>Resolution\<close>

definition plain_lookup :: "DnsServer \<Rightarrow> string \<Rightarrow> (string \<times> u16) option" where
  "plain_lookup s name = map_option (\<lambda>ip. (ip, DEFAULT_VPC_ID)) (hm_get (dns_records s) name)"

definition resolve_internal :: "DnsServer \<Rightarrow> string \<Rightarrow> string option \<Rightarrow> (string \<times> u16) option" where
  "resolve_internal s name src_vpc =
     (case src_vpc of
        Some source_vpc \<Rightarrow>
          (case hm_get (dns_vpc_records s) name of
             Some (ip, svc_vpc, vid) \<Rightarrow>
               if svc_vpc = source_vpc then Some (ip, vid)
               else if (source_vpc, svc_vpc) \<in> set (dns_peered_vpcs s) then Some (ip, vid)
               else None
           | None \<Rightarrow> plain_lookup s name)
      | None \<Rightarrow> plain_lookup s name)"

text \<open>\<open>ip_str.split('.').filter_map(|o| o.parse().ok())\<close>, as octets.\<close>

definition octets_of_text :: "string \<Rightarrow> bytes" where
  "octets_of_text ip_str = List.map_filter (\<lambda>d. map_option of_nat (parse_unsigned 255 d)) (split_on (CHR ''.'') ip_str)"

definition dns64_forward :: "(bytes \<Rightarrow> bytes option) \<Rightarrow> bytes \<Rightarrow> nat \<Rightarrow> nat \<Rightarrow> bytes option" where
  "dns64_forward forward query name_end q_end =
     (let a_query = query[name_end := 0x00, name_end + 1 := 0x01]
      in Option.bind (forward a_query) (\<lambda>response.
         Option.bind (extract_a_record_ip response) (\<lambda>ipv4.
           build_aaaa_response (byte_range query 0 2) (byte_range query 12 q_end) (DNS_NAT64_PREFIX @ ipv4))))"

text \<open>\<open>src_ip\<close> is the printed source address.\<close>

definition handle_dns_query :: "(bytes \<Rightarrow> bytes option) \<Rightarrow> DnsServer \<Rightarrow> string \<Rightarrow> bytes \<Rightarrow> bytes option" where
  "handle_dns_query forward s src_ip query =
     (if length query < 13 then None
      else let txn_id = byte_range query 0 2 in
        Option.bind (parse_dns_name query 12) (\<lambda>name.
        Option.bind (find_name_end query 12) (\<lambda>name_end.
        if length query < name_end + 4 then None
        else let qtype = u16_from_be_bytes (byte_range query name_end (name_end + 2)); q_end = name_end + 4 in
          if suffix (dns_domain_suffix s) name then
            Option.bind (resolve_internal s name (hm_get (dns_vpc_members s) src_ip)) (\<lambda>(ip_str, vid).
            let octets = octets_of_text ip_str in
              if length octets \<noteq> 4 then None
              else let question = byte_range query 12 q_end in
                if qtype = QTYPE_A then build_a_response txn_id question octets
                else if qtype = QTYPE_AAAA then
                  build_aaaa_response txn_id question (dns_construct_ghost_ipv6 (dns_platform_prefix s) (dns_cluster_id s) vid octets)
                else None)
          else if qtype = QTYPE_AAAA then dns64_forward forward query name_end q_end
          else forward query)))"

section \<open>Scoping\<close>

text \<open>A peering in force that lets VPC \<open>a\<close> resolve the names of VPC \<open>b\<close>.\<close>

definition peering_allows :: "VpcPeering \<Rightarrow> string \<Rightarrow> string \<Rightarrow> bool" where
  "peering_allows p a b \<longleftrightarrow> VpcPeering_status p = Peering_Active \<and>
     (VpcPeering_vpc_a p = a \<and> VpcPeering_vpc_b p = b \<or>
      VpcPeering_direction p = Bidirectional \<and> VpcPeering_vpc_a p = b \<and> VpcPeering_vpc_b p = a)"

lemma set_fold_insert: "set (fold List.insert xs ys) = set xs \<union> set ys"
  by (induction xs arbitrary: ys) auto

lemma peered_pairs: "(a, b) \<in> set (dns_peered_vpcs (update_peerings peerings s)) \<longleftrightarrow> (\<exists>p\<in>set peerings. peering_allows p a b)"
proof -
  have "set (fold (\<lambda>p pairs. fold List.insert (peering_pairs p) pairs) peerings xs) = (\<Union>p\<in>set peerings. set (peering_pairs p)) \<union> set xs" for xs
    by (induction peerings arbitrary: xs) (auto simp: set_fold_insert)
  moreover have "(a, b) \<in> set (peering_pairs p) \<longleftrightarrow> peering_allows p a b" for p
    by (auto simp: peering_pairs_def peering_allows_def split: PeeringDirection.split)
  ultimately show ?thesis by (simp add: update_peerings_def)
qed

text \<open>Any answer to an internal name comes from the resolution.\<close>

lemma internal_answer:
  assumes "handle_dns_query forward s src_ip query = Some response" "parse_dns_name query 12 = Some name" "suffix (dns_domain_suffix s) name"
  obtains name_end ip_str vid where "find_name_end query 12 = Some name_end" "length query \<ge> name_end + 4"
    "resolve_internal s name (hm_get (dns_vpc_members s) src_ip) = Some (ip_str, vid)" "length (octets_of_text ip_str) = 4"
    "Some response = (let q = byte_range query 12 (name_end + 4); qtype = u16_from_be_bytes (byte_range query name_end (name_end + 2)) in
       if qtype = QTYPE_A then build_a_response (byte_range query 0 2) q (octets_of_text ip_str)
       else if qtype = QTYPE_AAAA then build_aaaa_response (byte_range query 0 2) q (dns_construct_ghost_ipv6 (dns_platform_prefix s) (dns_cluster_id s) vid (octets_of_text ip_str))
       else None)"
  using assms by (auto simp: handle_dns_query_def Let_def bind_eq_Some_conv split: if_splits)

section \<open>Wire format\<close>

lemma u16_be_bytes_simp [simp]: "length (u16_to_be_bytes x) = 2" "length (u32_to_be_bytes y) = 4"
  by simp_all

lemma dns_construct_ghost: "dns_construct_ghost_ipv6 pfx cluster vid (u32_to_be_bytes ip) = construct pfx cluster vid ip"
  by (simp add: dns_construct_ghost_ipv6_def construct_def Let_def)

lemma octets_of_show: "octets_of_text (show_ipv4 a) = u32_to_be_bytes a"
proof -
  have d: "CHR ''.'' \<notin> set (show_dec n)" for n using set_show_dec is_digit_not_punct by blast
  have p: "parse_unsigned 255 (show_dec (unat (b :: u8))) = Some (unat b)" for b
  proof -
    have "unat b < 2 ^ LENGTH(8)" by (rule unsigned_less)
    then show ?thesis by (intro parse_unsigned_show_dec) simp
  qed
  have "split_on (CHR ''.'') (show_ipv4 a) = map (\<lambda>b. show_dec (unat b)) (u32_to_be_bytes a)"
    unfolding show_ipv4_def using d by (intro split_join) (auto simp: u32_to_be_bytes_def)
  then show ?thesis by (simp add: octets_of_text_def List.map_filter_def p u32_to_be_bytes_def)
qed

text \<open>A name on the wire: each label behind its length, and a zero byte.\<close>

definition wire_name :: "bytes list \<Rightarrow> bytes" where
  "wire_name labels = concat (map (\<lambda>l. of_nat (length l) # l) labels) @ [0]"

definition label_ok :: "bytes \<Rightarrow> bool" where
  "label_ok l \<longleftrightarrow> l \<noteq> [] \<and> length l < 64 \<and> list_all (\<lambda>b. b < 0x80) l"

lemma utf8_lossy_ascii: "list_all (\<lambda>b. b < 0x80) bs \<Longrightarrow> utf8_lossy bs = bs"
  by (induction bs) (simp_all add: continuation_def)

lemma label_len:
  assumes "label_ok l"
  shows "unat (of_nat (length l) :: u8) = length l" "(of_nat (length l) :: u8) \<noteq> 0" "(of_nat (length l) :: u8) AND 0xC0 \<noteq> 0xC0"
proof -
  have l: "0 < length l" "length l < 64" using assms by (auto simp: label_ok_def)
  then show u: "unat (of_nat (length l) :: u8) = length l" by (simp add: unat_of_nat take_bit_nat_eq_self)
  then show "(of_nat (length l) :: u8) \<noteq> 0" using l(1) by (metis less_numeral_extra(3) unat_0)
  have "\<not> bit (of_nat (length l) :: u8) 7"
  proof -
    have "\<not> bit (unat (of_nat (length l) :: u8)) 7" unfolding u using l by (simp add: bit_iff_odd)
    then show ?thesis by (simp add: bit_unsigned_iff)
  qed
  moreover have "bit (0xC0 :: u8) 7" by code_simp
  ultimately show "(of_nat (length l) :: u8) AND 0xC0 \<noteq> 0xC0" by (metis bit_and_iff)
qed

lemma wire_name_parse:
  assumes "\<forall>l\<in>set labels. label_ok l" and "off = length pre"
  shows "parse_labels (pre @ wire_name labels @ rest) off = Some (map string_of_bytes labels)"
    and "find_name_end (pre @ wire_name labels @ rest) off = Some (off + length (wire_name labels))"
proof -
  have "parse_labels (pre @ wire_name labels @ rest) off = Some (map string_of_bytes labels) \<and>
    find_name_end (pre @ wire_name labels @ rest) off = Some (off + length (wire_name labels))"
    using assms
  proof (induction labels arbitrary: pre off)
    case Nil
    then show ?case by (simp add: wire_name_def parse_labels.simps find_name_end.simps)
  next
    case (Cons l labels)
    let ?n = "of_nat (length l) :: u8" and ?data = "pre @ wire_name (l # labels) @ rest"
    have ok: "label_ok l" using Cons.prems by simp
    note n = label_len [OF ok]
    have d: "?data = (pre @ ?n # l) @ wire_name labels @ rest" by (simp add: wire_name_def)
    have IH: "parse_labels ?data (off + 1 + length l) = Some (map string_of_bytes labels)"
      "find_name_end ?data (off + 1 + length l) = Some (off + 1 + length l + length (wire_name labels))"
      using Cons.IH [of "off + 1 + length l" "pre @ ?n # l"] Cons.prems unfolding d by simp_all
    have at: "?data ! off = ?n" "length ?data \<ge> off + 1 + length l" "take (length l) (drop (off + 1) ?data) = l"
      using Cons.prems(2) by (simp_all add: wire_name_def nth_append)
    have u: "from_utf8_lossy l = string_of_bytes l" using ok by (simp add: from_utf8_lossy_def utf8_lossy_ascii label_ok_def)
    have "parse_labels ?data off = Some (map string_of_bytes (l # labels))"
      by (subst parse_labels.simps) (use at n IH u in \<open>simp add: Let_def\<close>)
    moreover have "find_name_end ?data off = Some (off + length (wire_name (l # labels)))"
      by (subst find_name_end.simps) (use at n IH in \<open>simp add: Let_def wire_name_def\<close>)
    ultimately show ?case by blast
  qed
  then show "parse_labels (pre @ wire_name labels @ rest) off = Some (map string_of_bytes labels)"
    "find_name_end (pre @ wire_name labels @ rest) off = Some (off + length (wire_name labels))" by blast+
qed

text \<open>A query: twelve bytes of header, one name, type and class.\<close>

lemma query_parts:
  fixes hdr cls rest :: bytes and labels :: "bytes list" and qtype :: u16
  assumes "length hdr = 12" "labels \<noteq> []" "\<forall>l\<in>set labels. label_ok l" "length cls = 2"
  defines "query \<equiv> hdr @ wire_name labels @ u16_to_be_bytes qtype @ cls @ rest"
  shows "parse_dns_name query 12 = Some (join_with ''.'' (map string_of_bytes labels))"
    and "find_name_end query 12 = Some (12 + length (wire_name labels))" and "length query \<ge> 12 + length (wire_name labels) + 4"
    and "u16_from_be_bytes (byte_range query (12 + length (wire_name labels)) (12 + length (wire_name labels) + 2)) = qtype"
    and "byte_range query 12 (12 + length (wire_name labels) + 4) = wire_name labels @ u16_to_be_bytes qtype @ cls" and "byte_range query 0 2 = take 2 hdr"
    and "length query \<ge> 13"
  using wire_name_parse [OF assms(3) assms(1) [symmetric], of "u16_to_be_bytes qtype @ cls @ rest"] assms(1,2,4)
  by (simp_all add: parse_dns_name_def query_def byte_range_def wire_name_def)

text \<open>What the server answers to a well-formed query for a name that resolves.\<close>

lemma handle_internal_run:
  fixes hdr cls rest :: bytes and labels :: "bytes list" and qtype :: u16
  assumes "length hdr = 12" "labels \<noteq> []" "\<forall>l\<in>set labels. label_ok l" "length cls = 2"
  defines "name \<equiv> join_with ''.'' (map string_of_bytes labels)"
  assumes "suffix (dns_domain_suffix s) name" and "resolve_internal s name (hm_get (dns_vpc_members s) src_ip) = Some (show_ipv4 ip, vid)"
  shows "handle_dns_query forward s src_ip (hdr @ wire_name labels @ u16_to_be_bytes qtype @ cls @ rest) =
      (if qtype = QTYPE_A then build_a_response (take 2 hdr) (wire_name labels @ u16_to_be_bytes qtype @ cls) (u32_to_be_bytes ip)
       else if qtype = QTYPE_AAAA then build_aaaa_response (take 2 hdr) (wire_name labels @ u16_to_be_bytes qtype @ cls)
         (construct (dns_platform_prefix s) (dns_cluster_id s) vid ip) else None)"
  unfolding handle_dns_query_def using query_parts [OF assms(1-4), of qtype rest, folded name_def] assms(6,7)
  by (simp add: Let_def octets_of_show dns_construct_ghost)

lemma extract_built:
  assumes "length txn = 2" "\<forall>l\<in>set labels. label_ok l" "length tc = 4" "length ip = 4"
    and "build_a_response txn (wire_name labels @ tc) ip = Some r"
  shows "extract_a_record_ip r = Some ip"
proof -
  let ?h = "answer_header txn" and ?w = "wire_name labels" and ?a = "[0xC0, 0x0C, 0x00, 0x01, 0x00, 0x01, 0x00, 0x00, 0x00, 0x3C, 0x00, 0x04] @ ip :: bytes"
  have r: "r = ?h @ ?w @ tc @ ?a" using assms(5) by (simp add: build_a_response_def)
  obtain t0 t1 where txn: "txn = [t0, t1]" using assms(1) by (auto simp: length_2_conv)
  have h: "length ?h = 12" by (simp add: answer_header_def txn)
  have c: "byte_range r 4 6 = [0, 1]" "byte_range r 6 8 = [0, 1]" "r ! 3 = 0x80" by (simp_all add: r answer_header_def txn byte_range_def)
  have q: "find_name_end r 12 = Some (12 + length ?w)" unfolding r by (rule wire_name_parse(2) [OF assms(2) h [symmetric]])
  define o1 where "o1 = 12 + length ?w + 4"
  have dr: "drop o1 r = ?a" by (simp add: r h o1_def assms(3))
  then have at: "r ! o1 = 0xC0" "length r = o1 + 16"
    using assms(3,4) h by (simp_all add: r o1_def nth_append)
  have e: "find_name_end r o1 = Some (o1 + 2)" by (subst find_name_end.simps) (simp add: at)
  have s: "byte_range r (o1 + i) (o1 + j) = take (j - i) (drop i ?a)" for i j
    unfolding byte_range_def dr [symmetric] by (simp add: add.commute)
  have f: "byte_range r (o1 + 2) (o1 + 4) = [0, 1]" "byte_range r (o1 + 10) (o1 + 12) = [0, 4]" "byte_range r (o1 + 12) (o1 + 16) = ip"
    unfolding s using assms(4) by simp_all
  have u: "u16_from_be_bytes [0, 1] = 1" "u16_from_be_bytes [0, 4] = 4" by code_simp+
  have "find_a_record r (Suc 0) o1 = Some ip"
    using f u at(2) e f(2,3) [unfolded add.commute [of o1]] by (simp add: QTYPE_A_def Let_def add.commute [of 4 o1] del: add_2_eq_Suc add_2_eq_Suc')
  then show ?thesis
    using q c u at(2) by (simp add: extract_a_record_ip_def o1_def [symmetric] Let_def)
qed

section \<open>A server\<close>

text \<open>A service of VPC \<open>shop\<close>, a pod of VPC \<open>web\<close>, and a peering that lets \<open>web\<close> reach \<open>shop\<close>.\<close>

definition shop_dns :: DnsServer where
  "shop_dns = DnsServer_new\<lparr>dns_vpc_records := [(''api.default.svc.cluster.local'', (show_ipv4 0x0A2B0007, ''shop'', 7))],
     dns_vpc_members := [(''10.0.0.5'', ''web'')]\<rparr>"

definition web_shop :: VpcPeering where
  "web_shop = \<lparr> VpcPeering_name = ''p'', VpcPeering_vpc_a = ''web'', VpcPeering_vpc_b = ''shop'',
     VpcPeering_direction = InitiatorOnly, VpcPeering_status = Peering_Active, VpcPeering_created_at = 0 \<rparr>"

definition api_labels :: "bytes list" where
  "api_labels = map (map (\<lambda>c. of_nat (of_char c))) [''api'', ''default'', ''svc'', ''cluster'', ''local'']"

lemma api_labels_ok: "api_labels \<noteq> []" "list_all label_ok api_labels" by code_simp+

lemma api_name:
  "join_with ''.'' (map string_of_bytes api_labels) = ''api.default.svc.cluster.local''"
  "suffix (dns_domain_suffix (update_peerings ps shop_dns)) ''api.default.svc.cluster.local''"
proof -
  show "join_with ''.'' (map string_of_bytes api_labels) = ''api.default.svc.cluster.local''" by code_simp
  show "suffix (dns_domain_suffix (update_peerings ps shop_dns)) ''api.default.svc.cluster.local''"
    by (auto simp: update_peerings_def shop_dns_def DnsServer_new_def DNS_DOMAIN_SUFFIX_def intro!: suffixI [where zs = "''api.default.''"])
qed

lemma shop_resolves:
  "resolve_internal (update_peerings [web_shop] shop_dns) ''api.default.svc.cluster.local'' (hm_get (dns_vpc_members (update_peerings [web_shop] shop_dns)) ''10.0.0.5'')
     = Some (show_ipv4 0x0A2B0007, 7)"
  by (simp add: resolve_internal_def update_peerings_def peering_pairs_def web_shop_def shop_dns_def)

section \<open>Properties\<close>

lemma answered_query_scoped:
  assumes "handle_dns_query forward (update_peerings peerings s) src_ip query = Some response"
    and "parse_dns_name query 12 = Some name" and "suffix (dns_domain_suffix s) name"
    and "hm_get (dns_vpc_members s) src_ip = Some a" and "hm_get (dns_vpc_records s) name = Some (ip, b, vid)"
  shows "a = b \<or> (\<exists>p\<in>set peerings. peering_allows p a b)"
proof -
  have same: "dns_domain_suffix (update_peerings peerings s) = dns_domain_suffix s" "dns_vpc_members (update_peerings peerings s) = dns_vpc_members s"
    "dns_vpc_records (update_peerings peerings s) = dns_vpc_records s" by (simp_all add: update_peerings_def)
  obtain ip' vid' where "resolve_internal (update_peerings peerings s) name (Some a) = Some (ip', vid')"
    using assms(1-4) by (auto elim!: internal_answer simp: same)
  then show ?thesis using assms(5) peered_pairs [of a b peerings s] by (auto simp: resolve_internal_def same split: if_splits)
qed

text \<open>C30: names are scoped to VPCs: whatever bytes a pod of VPC \<open>a\<close> sends, a query for a name that the
  records tie to a service of VPC \<open>b\<close> gets an answer only if \<open>a\<close> is \<open>b\<close> or one of the peerings last given
  to the server is active and lets \<open>a\<close> reach \<open>b\<close>.\<close>

theorem dns_vpc_scoped:
  assumes "handle_dns_query forward (update_peerings peerings s) src_ip query = Some response"
    and "parse_dns_name query 12 = Some name" and "suffix (dns_domain_suffix s) name"
    and "hm_get (dns_vpc_members s) src_ip = Some a" and "hm_get (dns_vpc_records s) name = Some (ip, b, vid)"
  shows "a = b \<or> (\<exists>p\<in>set peerings. peering_allows p a b)"
  using answered_query_scoped assms by blast

theorem dns_vpc_scoped_witness:
  "''web'' = ''shop'' \<or> (\<exists>p\<in>set [web_shop]. peering_allows p ''web'' ''shop'')"
proof -
  let ?s = "update_peerings [web_shop] shop_dns" and ?q = "replicate 12 0 @ wire_name api_labels @ u16_to_be_bytes QTYPE_A @ [0, 1]"
  have l: "\<forall>l\<in>set api_labels. label_ok l" using api_labels_ok by (simp add: list_all_iff)
  have r: "\<exists>r. handle_dns_query (\<lambda>_. None) ?s ''10.0.0.5'' ?q = Some r"
    using handle_internal_run [OF _ api_labels_ok(1) l _ _ shop_resolves [folded api_name(1)], of "replicate 12 0" "[0, 1]" "\<lambda>_. None" QTYPE_A "[]"]
    by (simp add: api_name build_a_response_def)
  then obtain r where r: "handle_dns_query (\<lambda>_. None) ?s ''10.0.0.5'' ?q = Some r" by blast
  have "parse_dns_name ?q 12 = Some ''api.default.svc.cluster.local''"
    using query_parts(1) [OF _ api_labels_ok(1) l, of "replicate 12 0" "[0, 1]" QTYPE_A "[]"] by (simp add: api_name)
  then show ?thesis
    using dns_vpc_scoped [OF r _ _, of "''api.default.svc.cluster.local''" "''web''"] api_name(2) [of "[]"]
    by (simp add: shop_dns_def update_peerings_def)
qed

text \<open>A pod that may resolve a service gets it: for a well-formed query the A answer carries the query's
  id and reads back, with the server's own parser, as the service's cluster IP, and the AAAA answer
  ends in the Ghost address of that IP in the service's VPC.\<close>

theorem dns_answer_reads_back:
  fixes hdr cls rest :: bytes and labels :: "bytes list"
  assumes "length hdr = 12" "labels \<noteq> []" "\<forall>l\<in>set labels. label_ok l" "length cls = 2"
  defines "name \<equiv> join_with ''.'' (map string_of_bytes labels)"
    and "query \<equiv> \<lambda>qtype. hdr @ wire_name labels @ u16_to_be_bytes qtype @ cls @ rest"
  assumes "suffix (dns_domain_suffix s) name" and "resolve_internal s name (hm_get (dns_vpc_members s) src_ip) = Some (show_ipv4 ip, vid)"
  shows "(\<exists>r. handle_dns_query forward s src_ip (query QTYPE_A) = Some r \<and> take 2 r = take 2 hdr \<and> extract_a_record_ip r = Some (u32_to_be_bytes ip)) \<and>
    (\<exists>r. handle_dns_query forward s src_ip (query QTYPE_AAAA) = Some (r @ construct (dns_platform_prefix s) (dns_cluster_id s) vid ip) \<and> take 2 r = take 2 hdr)"
proof -
  have h2: "length (take 2 hdr) = 2" using assms(1) by simp
  have ne: "QTYPE_AAAA \<noteq> QTYPE_A" by (simp add: QTYPE_A_def QTYPE_AAAA_def)
  have run: "handle_dns_query forward s src_ip (query qtype) =
      (if qtype = QTYPE_A then build_a_response (take 2 hdr) (wire_name labels @ u16_to_be_bytes qtype @ cls) (u32_to_be_bytes ip)
       else if qtype = QTYPE_AAAA then build_aaaa_response (take 2 hdr) (wire_name labels @ u16_to_be_bytes qtype @ cls)
         (construct (dns_platform_prefix s) (dns_cluster_id s) vid ip) else None)" for qtype
    unfolding query_def by (rule handle_internal_run [OF assms(1-4), folded name_def, OF assms(7,8)])
  have "\<exists>r. handle_dns_query forward s src_ip (query QTYPE_A) = Some r \<and> take 2 r = take 2 hdr \<and> extract_a_record_ip r = Some (u32_to_be_bytes ip)"
    using extract_built [OF h2 assms(3), of "u16_to_be_bytes QTYPE_A @ cls" "u32_to_be_bytes ip"] assms(1,4)
    by (auto simp: run build_a_response_def answer_header_def)
  moreover have "\<exists>r. handle_dns_query forward s src_ip (query QTYPE_AAAA) = Some (r @ construct (dns_platform_prefix s) (dns_cluster_id s) vid ip) \<and> take 2 r = take 2 hdr"
    using ne assms(1) by (auto simp: run build_aaaa_response_def answer_header_def intro!: exI [of _ "answer_header (take 2 hdr) @ (wire_name labels @ u16_to_be_bytes QTYPE_AAAA @ cls) @ [0xC0, 0x0C, 0x00, 0x1C, 0x00, 0x01, 0x00, 0x00, 0x00, 0x3C, 0x00, 0x10]"])
  ultimately show ?thesis by blast
qed

theorem dns_answer_reads_back_witness:
  "\<exists>r. handle_dns_query (\<lambda>_. None) (update_peerings [web_shop] shop_dns) ''10.0.0.5''
      (replicate 12 0 @ wire_name api_labels @ u16_to_be_bytes QTYPE_A @ [0, 1]) = Some r \<and>
    extract_a_record_ip r = Some (u32_to_be_bytes 0x0A2B0007)"
  using dns_answer_reads_back [where hdr = "replicate 12 0" and labels = api_labels and cls = "[0, 1]" and s = "update_peerings [web_shop] shop_dns"
      and src_ip = "''10.0.0.5''" and ip = "0x0A2B0007" and vid = 7 and forward = "\<lambda>_. None" and rest = "[]"]
    api_labels_ok shop_resolves by (auto simp: api_name list_all_iff)

end
