(* ===== verification/Pod_Network.thy ===== *)
theory Pod_Network
  imports Cidr
begin

text \<open>
  The agent's pod address allocator (\<open>pkg/network/src/cni.rs\<close>). The offset counter is an atomic
  \<open>u32\<close> that wraps; addition is the release build's. A sequence of calls is a list of operations,
  in the order in which they take effect on the counter and the map. The lemmas show that live
  pods have distinct addresses of the block, and that released addresses never come back.
\<close>

section \<open>Model\<close>

record PodNetwork =
  pn_base_ip :: u32
  pn_max_hosts :: u32
  pn_next_offset :: u32
  pn_allocations :: "(string, string) hmap"

text \<open>\<open>1u32.checked_shl(n).unwrap_or(0)\<close>, and the octets of the address.\<close>

definition checked_shl_1 :: "u32 \<Rightarrow> u32" where
  "checked_shl_1 n = (if n < 32 then push_bit (unat n) 1 else 0)"

fun parse_octets :: "string list \<Rightarrow> bytes option" where
  "parse_octets [] = Some []"
| "parse_octets (d # ds) = Option.bind (parse_unsigned u8_max d) (\<lambda>b. map_option ((#) (of_nat b)) (parse_octets ds))"

definition PodNetwork_new :: "string \<Rightarrow> PodNetwork result" where
  "PodNetwork_new cidr =
     (case split_on (CHR ''/'') cidr of
        [ip_str, prefix_str] \<Rightarrow>
          bindR (ok_or (parse_unsigned u8_max prefix_str) ''Invalid prefix length'') (\<lambda>prefix_len.
          bindR (ok_or (parse_octets (split_on (CHR ''.'') ip_str)) ''Invalid IP'') (\<lambda>octets.
          bindR (ensure (length octets = 4) ''Invalid IP'') (\<lambda>_.
          Inr \<lparr> pn_base_ip = u32_from_be_bytes octets, pn_max_hosts = checked_shl_1 (32 - of_nat prefix_len),
                pn_next_offset = 2, pn_allocations = [] \<rparr>)))
      | _ \<Rightarrow> Inl (Err ''Invalid CIDR format''))"

definition allocate_ip :: "string \<Rightarrow> PodNetwork \<Rightarrow> string result \<times> PodNetwork" where
  "allocate_ip pod_id net =
     (case hm_get (pn_allocations net) pod_id of
        Some ip \<Rightarrow> (Inr ip, net)
      | None \<Rightarrow>
          let offset = pn_next_offset net; net = net\<lparr>pn_next_offset := offset + 1\<rparr> in
          if pn_max_hosts net \<le> offset then (Inl (Err ''PodNetwork exhausted: no more IPs available''), net)
          else let ip = show_ipv4 (pn_base_ip net + offset)
               in (Inr ip, net\<lparr>pn_allocations := hm_insert pod_id ip (pn_allocations net)\<rparr>))"

definition release_ip :: "string \<Rightarrow> PodNetwork \<Rightarrow> PodNetwork" where
  "release_ip pod_id net = net\<lparr>pn_allocations := hm_remove pod_id (pn_allocations net)\<rparr>"

definition get_pod_ip :: "PodNetwork \<Rightarrow> string \<Rightarrow> string option" where
  "get_pod_ip net pod_id = hm_get (pn_allocations net) pod_id"

text \<open>\<open>list_allocations\<close> is the map \<open>pn_allocations\<close>.\<close>

datatype net_op = Net_Allocate string | Net_Release string

primrec net_op_run :: "net_op \<Rightarrow> PodNetwork \<Rightarrow> PodNetwork" where
  "net_op_run (Net_Allocate p) net = snd (allocate_ip p net)"
| "net_op_run (Net_Release p) net = release_ip p net"

section \<open>Invariant\<close>

text \<open>
  Every live pod holds the address at an offset that the counter has passed, and no two pods hold
  the same offset. \<open>calls\<close> counts the operations, which bounds the counter.
\<close>

definition net_ok :: "nat \<Rightarrow> PodNetwork \<Rightarrow> bool" where
  "net_ok calls net \<longleftrightarrow> 2 \<le> unat (pn_next_offset net) \<and> unat (pn_next_offset net) \<le> 2 + calls \<and>
     (\<forall>p ip. get_pod_ip net p = Some ip \<longrightarrow>
        (\<exists>k. 2 \<le> k \<and> k < unat (pn_next_offset net) \<and> k < unat (pn_max_hosts net) \<and> ip = show_ipv4 (pn_base_ip net + of_nat k))) \<and>
     (\<forall>p q ip. get_pod_ip net p = Some ip \<longrightarrow> get_pod_ip net q = Some ip \<longrightarrow> p = q)"

lemma net_okI:
  assumes "2 \<le> unat (pn_next_offset net)" "unat (pn_next_offset net) \<le> 2 + calls"
    and "\<And>p ip. get_pod_ip net p = Some ip \<Longrightarrow>
      \<exists>k. 2 \<le> k \<and> k < unat (pn_next_offset net) \<and> k < unat (pn_max_hosts net) \<and> ip = show_ipv4 (pn_base_ip net + of_nat k)"
    and "\<And>p q ip. get_pod_ip net p = Some ip \<Longrightarrow> get_pod_ip net q = Some ip \<Longrightarrow> p = q"
  shows "net_ok calls net"
  using assms unfolding net_ok_def by blast

lemma offset_address_inject:
  assumes "k < 2 ^ 32" "l < 2 ^ 32"
  shows "show_ipv4 (b + of_nat k) = show_ipv4 (b + of_nat l) \<longleftrightarrow> k = l"
proof -
  have "unat (of_nat k :: u32) = k" "unat (of_nat l :: u32) = l" using assms by (simp_all add: unat_of_nat take_bit_nat_eq_self)
  then show ?thesis by (metis add_left_imp_eq show_ipv4_inject)
qed

lemma net_ok_new: "PodNetwork_new cidr = Inr net \<Longrightarrow> net_ok 0 net"
  by (auto simp: PodNetwork_new_def net_ok_def get_pod_ip_def bindR_def ok_or_def ensure_def split: list.splits option.splits if_splits sum.splits)

lemma allocated_fields:
  "pn_base_ip (snd (allocate_ip p net)) = pn_base_ip net" "pn_max_hosts (snd (allocate_ip p net)) = pn_max_hosts net"
  by (simp_all add: allocate_ip_def Let_def split: option.split)

lemma next_offset_bump:
  assumes "net_ok calls net" "calls < 2 ^ 32 - 4"
  shows "unat (pn_next_offset net + 1) = Suc (unat (pn_next_offset net))" "unat (pn_next_offset net) < 2 ^ 32 - 1"
proof -
  show b: "unat (pn_next_offset net) < 2 ^ 32 - 1" using assms by (simp add: net_ok_def)
  then show "unat (pn_next_offset net + 1) = Suc (unat (pn_next_offset net))" by (simp add: unat_word_ariths(1))
qed

lemma net_ok_allocate:
  assumes ok: "net_ok calls net" and calls: "calls < 2 ^ 32 - 4"
  shows "net_ok (Suc calls) (snd (allocate_ip p net))"
proof (cases "hm_get (pn_allocations net) p = None \<and> pn_next_offset net < pn_max_hosts net")
  case True
  let ?k = "unat (pn_next_offset net)" and ?net = "snd (allocate_ip p net)"
  note bump = next_offset_bump [OF ok calls]
  have n: "pn_next_offset ?net = pn_next_offset net + 1"
    and m: "get_pod_ip ?net q = (if q = p then Some (show_ipv4 (pn_base_ip net + of_nat ?k)) else get_pod_ip net q)" for q
    using True by (auto simp: allocate_ip_def Let_def get_pod_ip_def hmap_simps)
  have new: "get_pod_ip net q \<noteq> Some (show_ipv4 (pn_base_ip net + of_nat ?k))" for q
  proof
    assume "get_pod_ip net q = Some (show_ipv4 (pn_base_ip net + of_nat ?k))"
    then obtain l where "l < ?k" "show_ipv4 (pn_base_ip net + of_nat ?k) = show_ipv4 (pn_base_ip net + of_nat l)"
      using ok unfolding net_ok_def by blast
    then show False using bump(2) offset_address_inject [of ?k l] by simp
  qed
  show ?thesis
  proof (rule net_okI)
    show "2 \<le> unat (pn_next_offset ?net)" "unat (pn_next_offset ?net) \<le> 2 + Suc calls" using ok by (simp_all add: n bump net_ok_def)
  next
    fix q ip assume q: "get_pod_ip ?net q = Some ip"
    show "\<exists>k. 2 \<le> k \<and> k < unat (pn_next_offset ?net) \<and> k < unat (pn_max_hosts ?net) \<and> ip = show_ipv4 (pn_base_ip ?net + of_nat k)"
    proof (cases "q = p")
      case True
      then show ?thesis using q ok \<open>_ \<and> pn_next_offset net < pn_max_hosts net\<close>
        by (intro exI [of _ ?k]) (auto simp: m n bump net_ok_def allocated_fields word_less_nat_alt)
    next
      case False
      then have "get_pod_ip net q = Some ip" using q by (simp add: m)
      then obtain k where "2 \<le> k" "k < ?k" "k < unat (pn_max_hosts net)" "ip = show_ipv4 (pn_base_ip net + of_nat k)"
        using ok unfolding net_ok_def by blast
      then show ?thesis unfolding n bump allocated_fields by (intro exI [of _ k]) simp
    qed
  next
    fix q q' ip assume "get_pod_ip ?net q = Some ip" "get_pod_ip ?net q' = Some ip"
    then show "q = q'" using new ok unfolding net_ok_def m by (auto split: if_splits)
  qed
next
  case False
  then have same: "get_pod_ip (snd (allocate_ip p net)) = get_pod_ip net"
    "pn_next_offset (snd (allocate_ip p net)) = pn_next_offset net \<or> pn_next_offset (snd (allocate_ip p net)) = pn_next_offset net + 1"
    by (auto simp: allocate_ip_def Let_def get_pod_ip_def fun_eq_iff not_less split: option.splits)
  then have "unat (pn_next_offset (snd (allocate_ip p net))) \<in> {unat (pn_next_offset net), Suc (unat (pn_next_offset net))}"
    using next_offset_bump(1) [OF assms] by auto
  then show ?thesis using ok unfolding net_ok_def same allocated_fields by auto (meson less_SucI)
qed

lemma net_ok_release:
  assumes "net_ok calls net"
  shows "net_ok (Suc calls) (release_ip p net)"
proof -
  have g: "get_pod_ip (release_ip p net) q = (if q = p then None else get_pod_ip net q)" for q
    by (simp add: release_ip_def get_pod_ip_def hmap_simps)
  have f: "pn_next_offset (release_ip p net) = pn_next_offset net" "pn_max_hosts (release_ip p net) = pn_max_hosts net" "pn_base_ip (release_ip p net) = pn_base_ip net"
    by (simp_all add: release_ip_def)
  show ?thesis using assms unfolding net_ok_def f g by (auto split: if_splits)
qed

lemma net_ok_run: "net_ok calls net \<Longrightarrow> calls + length ops < 2 ^ 32 - 4 \<Longrightarrow> net_ok (calls + length ops) (fold net_op_run ops net)"
proof (induction ops arbitrary: calls net)
  case (Cons x ops)
  have "net_ok (Suc calls) (net_op_run x net)"
    using Cons.prems by (cases x) (auto intro: net_ok_allocate net_ok_release)
  then show ?case using Cons.IH [of "Suc calls"] Cons.prems by simp
qed simp

lemma run_fields: "pn_base_ip (fold net_op_run ops net) = pn_base_ip net" "pn_max_hosts (fold net_op_run ops net) = pn_max_hosts net"
proof -
  have "pn_base_ip (net_op_run x net) = pn_base_ip net" "pn_max_hosts (net_op_run x net) = pn_max_hosts net" for x net
    by (cases x; simp add: allocated_fields release_ip_def)+
  then show "pn_base_ip (fold net_op_run ops net) = pn_base_ip net" "pn_max_hosts (fold net_op_run ops net) = pn_max_hosts net"
    by (induction ops arbitrary: net; simp)+
qed

lemma parse_octets_show: "parse_octets (split_on (CHR ''.'') (show_ipv4 a)) = Some (u32_to_be_bytes a)"
proof -
  have d: "CHR ''.'' \<notin> set (show_dec n)" for n using set_show_dec is_digit_not_punct by blast
  have "split_on (CHR ''.'') (show_ipv4 a) = map (\<lambda>b. show_dec (unat b)) (u32_to_be_bytes a)"
    unfolding show_ipv4_def using d by (intro split_join) (auto simp: u32_to_be_bytes_def)
  moreover have "parse_octets (map (\<lambda>b. show_dec (unat b)) bs) = Some bs" for bs :: bytes
  proof (induction bs)
    case (Cons b bs)
    have "unat b < 2 ^ LENGTH(8)" by (rule unsigned_less)
    then have "parse_unsigned u8_max (show_dec (unat b)) = Some (unat b)" by (intro parse_unsigned_show_dec) (simp add: u8_max_def)
    then show ?case using Cons by simp
  qed simp
  ultimately show ?thesis by simp
qed

lemma new_show_cidr:
  assumes "pfx \<le> 32"
  shows "PodNetwork_new (show_cidr base pfx) =
    Inr \<lparr> pn_base_ip = base, pn_max_hosts = checked_shl_1 (32 - of_nat pfx), pn_next_offset = 2, pn_allocations = [] \<rparr>"
proof -
  have "split_on (CHR ''/'') (show_cidr base pfx) = [show_ipv4 base, show_dec pfx]"
    unfolding show_cidr_def using split_join [of "[show_ipv4 base, show_dec pfx]" "CHR ''/''"] slash_not_in_ipv4 slash_not_in_dec by auto
  moreover have "parse_unsigned u8_max (show_dec pfx) = Some pfx" using assms by (intro parse_unsigned_show_dec) (simp add: u8_max_def)
  ultimately show ?thesis by (simp add: PodNetwork_new_def parse_octets_show bindR_def ok_or_def ensure_def)
qed

lemma max_hosts_block:
  assumes "1 \<le> pfx" "pfx \<le> 32"
  shows "unat (checked_shl_1 (32 - of_nat pfx)) = 2 ^ (32 - pfx)"
proof -
  have "(32 - of_nat pfx :: u32) = of_nat (32 - pfx)" using assms by (simp add: of_nat_diff)
  moreover have "unat (of_nat (32 - pfx) :: u32) = 32 - pfx" by (subst unat_of_nat) (simp add: take_bit_nat_eq_self)
  ultimately have u: "unat (32 - of_nat pfx :: u32) = 32 - pfx" by metis
  then have "(32 - of_nat pfx :: u32) < 32" using assms by (simp add: word_less_nat_alt)
  moreover have "unat (push_bit (32 - pfx) 1 :: u32) = 2 ^ (32 - pfx)"
  proof -
    have "(2 :: nat) ^ (32 - pfx) < 2 ^ 32" using assms by (intro power_strict_increasing) auto
    moreover have "(push_bit (32 - pfx) 1 :: u32) = of_nat (2 ^ (32 - pfx))" by (simp add: push_bit_eq_mult)
    ultimately show ?thesis by (simp only: unat_of_nat) simp
  qed
  ultimately show ?thesis by (simp add: checked_shl_1_def u)
qed

section \<open>Properties\<close>

text \<open>On an aligned block, after any sequence of fewer than \<open>2 ^ 32 - 4\<close> allocations and releases,
  every pod that has an address holds one of the block, neither the network address nor the
  gateway's, and no other pod holds it.\<close>

theorem pod_ips_unique:
  assumes "1 \<le> pfx" "pfx \<le> 32" and "base AND cidr_mask pfx = base" and "length ops < 2 ^ 32 - 4"
  shows "\<exists>net. PodNetwork_new (show_cidr base pfx) = Inr net \<and>
    (\<forall>p ip. get_pod_ip (fold net_op_run ops net) p = Some ip \<longrightarrow>
       (\<exists>a. ip = show_ipv4 a \<and> in_cidr a (base, pfx) \<and> a \<noteq> base \<and> a \<noteq> base + 1) \<and>
       (\<forall>q. get_pod_ip (fold net_op_run ops net) q = Some ip \<longrightarrow> q = p))"
proof -
  obtain net where new: "PodNetwork_new (show_cidr base pfx) = Inr net" and f: "pn_base_ip net = base" "unat (pn_max_hosts net) = 2 ^ (32 - pfx)"
    using new_show_cidr [OF assms(2)] max_hosts_block [OF assms(1,2)] by simp
  let ?net = "fold net_op_run ops net"
  have ok: "net_ok (length ops) ?net" using net_ok_run [OF net_ok_new [OF new]] assms(4) by simp
  have "(\<exists>a. ip = show_ipv4 a \<and> in_cidr a (base, pfx) \<and> a \<noteq> base \<and> a \<noteq> base + 1) \<and> (\<forall>q. get_pod_ip ?net q = Some ip \<longrightarrow> q = p)"
    if p: "get_pod_ip ?net p = Some ip" for p ip
  proof -
    obtain k where k: "2 \<le> k" "k < 2 ^ (32 - pfx)" "ip = show_ipv4 (base + of_nat k)"
      using ok p unfolding net_ok_def run_fields f by blast
    have "(2 :: nat) ^ (32 - pfx) \<le> 2 ^ 32" by (intro power_increasing) auto
    then have lt: "k < 2 ^ 32" using k(2) by linarith
    then have u: "unat (of_nat k :: u32) = k" by (simp add: unat_of_nat take_bit_nat_eq_self)
    have "base + of_nat k \<noteq> base + of_nat l" if "l < 2" for l
      using offset_address_inject [of k l base] lt k(1) that by auto
    from this [of 0] this [of 1] have "base + of_nat k \<noteq> base" "base + of_nat k \<noteq> base + 1" by simp_all
    moreover have "in_cidr (base + of_nat k) (base, pfx)" using aligned_offset(4) [OF assms(2,3)] k(2) u by simp
    ultimately show ?thesis using k(3) ok p unfolding net_ok_def by blast
  qed
  then show ?thesis using new by blast
qed

theorem pod_ips_unique_witness:
  "\<exists>net. PodNetwork_new (show_cidr 0x0A2A0000 16) = Inr net \<and>
    get_pod_ip (fold net_op_run [Net_Allocate ''a'', Net_Allocate ''b'', Net_Release ''a''] net) ''b'' = Some (show_ipv4 0x0A2A0003) \<and>
    (\<forall>q. get_pod_ip (fold net_op_run [Net_Allocate ''a'', Net_Allocate ''b'', Net_Release ''a''] net) q = Some (show_ipv4 0x0A2A0003) \<longrightarrow> q = ''b'')"
proof -
  have "(0x0A2A0000 :: u32) AND cidr_mask 16 = 0x0A2A0000" by code_simp
  then obtain net where new: "PodNetwork_new (show_cidr 0x0A2A0000 16) = Inr net"
    and u: "\<forall>p ip. get_pod_ip (fold net_op_run [Net_Allocate ''a'', Net_Allocate ''b'', Net_Release ''a''] net) p = Some ip \<longrightarrow>
       (\<forall>q. get_pod_ip (fold net_op_run [Net_Allocate ''a'', Net_Allocate ''b'', Net_Release ''a''] net) q = Some ip \<longrightarrow> q = p)"
    using pod_ips_unique [of 16 "0x0A2A0000" "[Net_Allocate ''a'', Net_Allocate ''b'', Net_Release ''a'']"] by auto
  have n: "net = \<lparr> pn_base_ip = 0x0A2A0000, pn_max_hosts = checked_shl_1 (32 - of_nat 16), pn_next_offset = 2, pn_allocations = [] \<rparr>"
    using new new_show_cidr [of 16 "0x0A2A0000"] by simp
  have "get_pod_ip (fold net_op_run [Net_Allocate ''a'', Net_Allocate ''b'', Net_Release ''a''] net) ''b'' = Some (show_ipv4 0x0A2A0003)"
    unfolding n by code_simp
  then show ?thesis using new u by blast
qed

text \<open>Releasing gives nothing back: in a block of four addresses two pods that come and go use it up.\<close>

theorem released_ips_lost:
  "\<exists>net. PodNetwork_new ''10.42.0.0/30'' = Inr net \<and>
    (let net' = fold net_op_run [Net_Allocate ''a'', Net_Release ''a'', Net_Allocate ''b'', Net_Release ''b''] net
     in pn_allocations net' = [] \<and> fst (allocate_ip ''c'' net') = Inl (Err ''PodNetwork exhausted: no more IPs available''))"
  by (rule exI [of _ "\<lparr> pn_base_ip = 0x0A2A0000, pn_max_hosts = 4, pn_next_offset = 2, pn_allocations = [] \<rparr>"]) code_simp

end
