(* ===== verification/Service_Proxy.thy ===== *)
theory Service_Proxy
  imports K3_Types
begin

text \<open>
  The agent's HTTP proxies (\<open>pkg/proxy\<close>): \<open>service_proxy.rs\<close> builds the routing table from services,
  endpoints and the VPC of each pod address and picks a backend for a request;
  \<open>ingress_proxy.rs\<close> matches host and path rules. Pingora's backends and load balancers are a
  parameter. The lemmas show that with VPC information a request for a service only reaches
  addresses of the service's VPC, whatever requests came before.
\<close>

section \<open>Ingress types (ingress.rs)\<close>

datatype PathType = PathType_Prefix | PathType_Exact

record IngressBackend =
  IngressBackend_service_name :: string
  IngressBackend_service_port :: u16

record IngressPath =
  IngressPath_path :: string
  IngressPath_path_type :: PathType
  IngressPath_backend :: IngressBackend

record IngressRule =
  IngressRule_host :: string
  IngressRule_paths :: "IngressPath list"

record IngressTLS =
  IngressTLS_hosts :: "string list"
  IngressTLS_secret_name :: string

record IngressSpec =
  IngressSpec_rules :: "IngressRule list"
  IngressSpec_tls :: "IngressTLS list option"

record Ingress =
  Ingress_id :: string
  Ingress_name :: string
  Ingress_namespace :: string
  Ingress_spec :: IngressSpec
  Ingress_created_at :: DateTime

section \<open>Routes\<close>

text \<open>
  Pingora: \<open>backend_new\<close> parses an address, \<open>lb_of\<close> builds and updates a round-robin balancer over a set of
  backends, \<open>lb_select\<close> picks a backend and advances the balancer.
\<close>

record ('b, 'lb) pingora =
  backend_new :: "string \<Rightarrow> 'b option"
  lb_of :: "'b set \<Rightarrow> 'lb result"
  lb_select :: "'lb \<Rightarrow> 'b option \<times> 'lb"

record 'lb ServiceProxy =
  sp_routes :: "(string, string list) hmap"
  sp_lb_table :: "(string, 'lb) hmap"

definition ServiceProxy_new :: "'lb ServiceProxy" where
  "ServiceProxy_new = \<lparr> sp_routes = [], sp_lb_table = [] \<rparr>"

definition build_lb :: "('b, 'lb) pingora \<Rightarrow> string list \<Rightarrow> 'lb result" where
  "build_lb P backends = lb_of P (set (List.map_filter (backend_new P) backends))"

definition route_key :: "string \<Rightarrow> ServicePort \<Rightarrow> string" where
  "route_key cluster_ip port = cluster_ip @ '':'' @ show_dec (unat (ServicePort_port port))"

definition backend_addr :: "string \<Rightarrow> u16 \<Rightarrow> string" where
  "backend_addr ip target_port =
     (if CHR '':'' \<in> set ip then ''['' @ ip @ '']:'' @ show_dec (unat target_port)
      else ip @ '':'' @ show_dec (unat target_port))"

definition matching_eps :: "Endpoint list \<Rightarrow> Service \<Rightarrow> Endpoint list" where
  "matching_eps endpoints svc =
     filter (\<lambda>ep. Endpoint_service_id ep = Service_id svc \<and> Endpoint_namespace ep = Service_namespace svc) endpoints"

text \<open>\<open>vpc_pod_ips\<close> maps a VPC name to its pod addresses; empty, it switches the filter off.\<close>

definition backend_allowed :: "(string, string list) hmap \<Rightarrow> Service \<Rightarrow> string \<Rightarrow> bool" where
  "backend_allowed vpc_pod_ips svc ip =
     (if vpc_pod_ips \<noteq> [] then
        (case hm_get vpc_pod_ips (case Service_vpc svc of Some v \<Rightarrow> v | None \<Rightarrow> ''default'') of
           Some ips \<Rightarrow> ip \<in> set ips
         | None \<Rightarrow> False)
      else True)"

definition route_backends :: "(string, string list) hmap \<Rightarrow> Endpoint list \<Rightarrow> Service \<Rightarrow> ServicePort \<Rightarrow> string list" where
  "route_backends vpc_pod_ips endpoints svc port =
     concat (map (\<lambda>ep. map (\<lambda>addr. backend_addr (EndpointAddress_ip addr) (ServicePort_target_port port))
        (filter (\<lambda>addr. backend_allowed vpc_pod_ips svc (EndpointAddress_ip addr)) (Endpoint_addresses ep)))
        (matching_eps endpoints svc))"

text \<open>
  Both routing tables, this one and the one the agent caches, have the same loops over services and
  ports and differ in the backends of a port.
\<close>

definition routes_with :: "(Service \<Rightarrow> ServicePort \<Rightarrow> string list) \<Rightarrow> Service list \<Rightarrow> (string, string list) hmap" where
  "routes_with backends_of services = fold (\<lambda>svc routes.
     case Service_cluster_ip svc of
       None \<Rightarrow> routes
     | Some cluster_ip \<Rightarrow> fold (\<lambda>port routes.
         let backends = backends_of svc port
         in if backends \<noteq> [] then hm_insert (route_key cluster_ip port) backends routes else routes)
         (ServiceSpec_ports (Service_spec svc)) routes) services []"

definition build_table :: "('b, 'lb) pingora \<Rightarrow> (string, string list) hmap \<Rightarrow> (string, 'lb) hmap" where
  "build_table P routes = fold (\<lambda>(key, backends) table.
     case build_lb P backends of Inr lb \<Rightarrow> hm_insert key lb table | Inl _ \<Rightarrow> table) routes []"

definition update_routes :: "('b, 'lb) pingora \<Rightarrow> Service list \<Rightarrow> Endpoint list \<Rightarrow> (string, string list) hmap \<Rightarrow>
    'lb ServiceProxy \<Rightarrow> 'lb ServiceProxy" where
  "update_routes P services endpoints vpc_pod_ips s =
     (let new_routes = routes_with (route_backends vpc_pod_ips endpoints) services
      in s\<lparr>sp_routes := new_routes, sp_lb_table := build_table P new_routes\<rparr>)"

text \<open>\<open>parsed\<close> is the file read and parsed as JSON.\<close>

definition load_routes_from_file :: "('b, 'lb) pingora \<Rightarrow> (string, string list) hmap result \<Rightarrow> 'lb ServiceProxy \<Rightarrow> nat result \<times> 'lb ServiceProxy" where
  "load_routes_from_file P parsed s =
     (case parsed of
        Inl e \<Rightarrow> (Inl e, s)
      | Inr routes \<Rightarrow> (Inr (length routes), s\<lparr>sp_routes := routes, sp_lb_table := build_table P routes\<rparr>))"

section \<open>Requests\<close>

text \<open>A balancer is shared, so a selection changes the one in the table.\<close>

definition select_at :: "('b, 'lb) pingora \<Rightarrow> string \<Rightarrow> (string, 'lb) hmap \<Rightarrow> 'b option \<times> (string, 'lb) hmap" where
  "select_at P key table =
     (case hm_get table key of
        None \<Rightarrow> (None, table)
      | Some lb \<Rightarrow> let (upstream, lb') = lb_select P lb in (upstream, hm_insert key lb' table))"

fun first_upstream :: "('b, 'lb) pingora \<Rightarrow> string list \<Rightarrow> (string, 'lb) hmap \<Rightarrow> 'b option \<times> (string, 'lb) hmap" where
  "first_upstream P [] table = (None, table)"
| "first_upstream P (key # keys) table =
     (case select_at P key table of
        (Some upstream, table) \<Rightarrow> (Some upstream, table)
      | (None, table) \<Rightarrow> first_upstream P keys table)"

definition upstream_peer :: "('b, 'lb) pingora \<Rightarrow> string option \<Rightarrow> 'lb ServiceProxy \<Rightarrow> 'b result \<times> 'lb ServiceProxy" where
  "upstream_peer P host_header s =
     (let host = (case host_header of Some h \<Rightarrow> h | None \<Rightarrow> ''unknown'');
          keys = host # filter (\<lambda>key. starts_with key host) (map fst (sp_routes s))
      in case first_upstream P keys (sp_lb_table s) of
           (Some upstream, table) \<Rightarrow> (Inr upstream, s\<lparr>sp_lb_table := table\<rparr>)
         | (None, table) \<Rightarrow> (Inl (Err ''ConnectNoRoute''), s\<lparr>sp_lb_table := table\<rparr>))"

section \<open>Ingress rules\<close>

record IngressRouteRule =
  rule_host :: string
  rule_path :: string
  rule_path_type :: PathType
  rule_backend :: string

definition compile_path :: "Service list \<Rightarrow> Ingress \<Rightarrow> IngressRule \<Rightarrow> IngressPath \<Rightarrow> IngressRouteRule option" where
  "compile_path services ingress rule path =
     (case find (\<lambda>s. Service_name s = IngressBackend_service_name (IngressPath_backend path) \<and> Service_namespace s = Ingress_namespace ingress) services of
        Some s \<Rightarrow> map_option (\<lambda>ip. \<lparr> rule_host = IngressRule_host rule, rule_path = IngressPath_path path, rule_path_type = IngressPath_path_type path,
            rule_backend = ip @ '':'' @ show_dec (unat (IngressBackend_service_port (IngressPath_backend path))) \<rparr>) (Service_cluster_ip s)
      | None \<Rightarrow> None)"

definition update_rules :: "Ingress list \<Rightarrow> Service list \<Rightarrow> IngressRouteRule list" where
  "update_rules ingresses services =
     concat (map (\<lambda>ingress. concat (map (\<lambda>rule. List.map_filter (compile_path services ingress rule) (IngressRule_paths rule))
       (IngressSpec_rules (Ingress_spec ingress)))) ingresses)"

definition rule_matches :: "string \<Rightarrow> string \<Rightarrow> IngressRouteRule \<Rightarrow> bool" where
  "rule_matches host_name path rule \<longleftrightarrow> rule_host rule = host_name \<and>
     (case rule_path_type rule of PathType_Exact \<Rightarrow> path = rule_path rule | PathType_Prefix \<Rightarrow> starts_with path (rule_path rule))"

definition ingress_upstream_peer :: "IngressRouteRule list \<Rightarrow> string option \<Rightarrow> string \<Rightarrow> string result" where
  "ingress_upstream_peer rules host_header path =
     (let host = (case host_header of Some h \<Rightarrow> h | None \<Rightarrow> []);
          host_name = hd (split_on (CHR '':'') host)
      in ok_or (map_option rule_backend (find (rule_matches host_name path) rules)) ''ConnectNoRoute'')"

section \<open>Lemmas\<close>

text \<open>
  What the proxy relies on in Pingora: a balancer over a set only ever selects from that set, and
  a selection does not change the set. \<open>members\<close> gives the backends of a balancer.
\<close>

definition lb_laws :: "('b, 'lb) pingora \<Rightarrow> ('lb \<Rightarrow> 'b set) \<Rightarrow> bool" where
  "lb_laws P members \<longleftrightarrow>
     (\<forall>bs lb. lb_of P bs = Inr lb \<longrightarrow> members lb \<subseteq> bs) \<and>
     (\<forall>lb. members (snd (lb_select P lb)) = members lb \<and> (\<forall>b. fst (lb_select P lb) = Some b \<longrightarrow> b \<in> members lb))"

definition addressed :: "('b, 'lb) pingora \<Rightarrow> string list \<Rightarrow> 'b set" where
  "addressed P backends = {b. \<exists>a\<in>set backends. backend_new P a = Some b}"

text \<open>Every balancer of the table serves backends of the route with its key.\<close>

definition table_ok :: "('b, 'lb) pingora \<Rightarrow> ('lb \<Rightarrow> 'b set) \<Rightarrow> (string, string list) hmap \<Rightarrow> (string, 'lb) hmap \<Rightarrow> bool" where
  "table_ok P members routes table \<longleftrightarrow>
     (\<forall>key lb. hm_get table key = Some lb \<longrightarrow> (\<exists>bs. (key, bs) \<in> set routes \<and> members lb \<subseteq> addressed P bs))"

lemma build_lb_members: "lb_laws P members \<Longrightarrow> build_lb P bs = Inr lb \<Longrightarrow> members lb \<subseteq> addressed P bs"
  unfolding lb_laws_def build_lb_def addressed_def by (fastforce simp: List.map_filter_def)

lemma table_ok_build:
  assumes "lb_laws P members"
  shows "table_ok P members routes (build_table P routes)"
proof -
  let ?step = "\<lambda>(key, backends) table. case build_lb P backends of Inr lb \<Rightarrow> hm_insert key lb table | Inl _ \<Rightarrow> table"
  have "table_ok P members routes table \<Longrightarrow> set rs \<subseteq> set routes \<Longrightarrow> table_ok P members routes (fold ?step rs table)" for rs table
  proof (induction rs arbitrary: table)
    case (Cons r rs)
    obtain key bs where r: "r = (key, bs)" by (cases r)
    have "table_ok P members routes (?step r table)"
    proof (cases "build_lb P bs")
      case (Inr lb)
      then have "members lb \<subseteq> addressed P bs" "(key, bs) \<in> set routes" using build_lb_members [OF assms] Cons.prems(2) r by auto
      then show ?thesis using Cons.prems(1) Inr unfolding table_ok_def r by (auto simp: hmap_simps)
    qed (use Cons.prems(1) r in simp)
    then show ?case using Cons by simp
  qed simp
  from this [of "[]" routes] show ?thesis by (simp add: build_table_def table_ok_def)
qed

lemma select_at_ok:
  assumes "lb_laws P members" "table_ok P members routes table"
  shows "table_ok P members routes (snd (select_at P key table))"
    and "fst (select_at P key table) = Some b \<Longrightarrow> \<exists>bs. (key, bs) \<in> set routes \<and> b \<in> addressed P bs"
proof -
  have m: "members (snd (lb_select P lb)) = members lb" "fst (lb_select P lb) = Some b \<Longrightarrow> b \<in> members lb" for lb b
    using assms(1) by (auto simp: lb_laws_def)
  have none: "select_at P key table = (None, table)" if "hm_get table key = None" using that by (simp add: select_at_def)
  have some: "select_at P key table = (fst (lb_select P lb), hm_insert key (snd (lb_select P lb)) table)" if "hm_get table key = Some lb" for lb
    using that by (simp add: select_at_def Let_def split: prod.split)
  show "table_ok P members routes (snd (select_at P key table))"
  proof (cases "hm_get table key")
    case (Some lb)
    then show ?thesis using assms(2) m(1) unfolding some [OF Some] table_ok_def by (auto simp: hmap_simps)
  qed (use assms(2) none in simp)
  show "\<exists>bs. (key, bs) \<in> set routes \<and> b \<in> addressed P bs" if "fst (select_at P key table) = Some b"
  proof (cases "hm_get table key")
    case (Some lb)
    then obtain bs where "(key, bs) \<in> set routes" "members lb \<subseteq> addressed P bs" using assms(2) unfolding table_ok_def by blast
    then show ?thesis using that m(2) unfolding some [OF Some] by auto
  qed (use that none in simp)
qed

lemma first_upstream_ok:
  assumes "lb_laws P members"
  shows "table_ok P members routes table \<Longrightarrow> table_ok P members routes (snd (first_upstream P keys table)) \<and>
    (\<forall>b. fst (first_upstream P keys table) = Some b \<longrightarrow> (\<exists>key\<in>set keys. \<exists>bs. (key, bs) \<in> set routes \<and> b \<in> addressed P bs))"
proof (induction keys arbitrary: table)
  case (Cons key keys)
  note sel = select_at_ok [OF assms Cons.prems, of key]
  show ?case
  proof (cases "select_at P key table")
    case (Pair found table')
    then show ?thesis using sel Cons.IH [of table'] by (cases found) auto
  qed
qed simp

text \<open>One request: the table stays as it should be, and an upstream comes from a route whose key starts with the host.\<close>

lemma upstream_peer_ok:
  fixes P :: "('b, 'lb) pingora" and host :: "string option"
  assumes "lb_laws P members" "table_ok P members (sp_routes s) (sp_lb_table s)"
  defines "s' \<equiv> snd (upstream_peer P host s)"
  shows "sp_routes s' = sp_routes s" and "table_ok P members (sp_routes s') (sp_lb_table s')"
    and "fst (upstream_peer P (Some h) s) = Inr b \<Longrightarrow> \<exists>key bs. (key, bs) \<in> set (sp_routes s) \<and> starts_with key h \<and> b \<in> addressed P bs"
proof -
  note first = first_upstream_ok [OF assms(1,2)]
  show 1: "sp_routes s' = sp_routes s" by (simp add: s'_def upstream_peer_def Let_def split: prod.split option.split)
  show "table_ok P members (sp_routes s') (sp_lb_table s')"
  proof -
    define keys where "keys = (case host of Some h \<Rightarrow> h | None \<Rightarrow> ''unknown'') # filter (\<lambda>key. starts_with key (case host of Some h \<Rightarrow> h | None \<Rightarrow> ''unknown'')) (map fst (sp_routes s))"
    obtain found table where f: "first_upstream P keys (sp_lb_table s) = (found, table)" by fastforce
    then have "sp_lb_table s' = table" by (cases found) (simp_all add: s'_def upstream_peer_def Let_def keys_def [symmetric] del: first_upstream.simps)
    then show ?thesis using first [of keys] f unfolding 1 by simp
  qed
  assume "fst (upstream_peer P (Some h) s) = Inr b"
  then have "fst (first_upstream P (h # filter (\<lambda>key. starts_with key h) (map fst (sp_routes s))) (sp_lb_table s)) = Some b"
    by (auto simp: upstream_peer_def Let_def split: prod.splits option.splits)
  with first obtain key bs where "key \<in> set (h # filter (\<lambda>key. starts_with key h) (map fst (sp_routes s)))" "(key, bs) \<in> set (sp_routes s)" "b \<in> addressed P bs"
    by blast
  then show "\<exists>key bs. (key, bs) \<in> set (sp_routes s) \<and> starts_with key h \<and> b \<in> addressed P bs"
    by (auto simp: starts_with_def)
qed

lemma requests_ok:
  fixes P :: "('b, 'lb) pingora" and hosts :: "string option list"
  assumes "lb_laws P members" "table_ok P members (sp_routes s) (sp_lb_table s)"
  defines "s' \<equiv> fold (\<lambda>h s. snd (upstream_peer P h s)) hosts s"
  shows "sp_routes s' = sp_routes s \<and> table_ok P members (sp_routes s') (sp_lb_table s')"
  unfolding s'_def using assms(2)
proof (induction hosts arbitrary: s)
  case (Cons h hosts)
  show ?case using Cons.IH [OF upstream_peer_ok(2) [OF assms(1) Cons.prems, of h]] upstream_peer_ok(1) [OF assms(1) Cons.prems, of h] by auto
qed simp

text \<open>A route comes from a service with a cluster IP and one of its ports.\<close>

lemma routes_with_entry:
  assumes "(key, bs) \<in> set (routes_with f services)"
  obtains svc ip port where "svc \<in> set services" "Service_cluster_ip svc = Some ip"
    "port \<in> set (ServiceSpec_ports (Service_spec svc))" "key = route_key ip port" "bs = f svc port" "bs \<noteq> []"
proof -
  define origin where "origin r \<longleftrightarrow> (\<exists>svc\<in>set services. \<exists>ip port. Service_cluster_ip svc = Some ip \<and>
    port \<in> set (ServiceSpec_ports (Service_spec svc)) \<and> fst r = route_key ip port \<and> snd r = f svc port \<and> snd r \<noteq> [])" for r
  have upd: "set (hm_insert k v m) \<subseteq> insert (k, v) (set m)" for k :: string and v :: "string list" and m
    by (induction m) auto
  have inner: "\<forall>r\<in>set m. origin r \<Longrightarrow> svc \<in> set services \<Longrightarrow> Service_cluster_ip svc = Some ip \<Longrightarrow> set ps \<subseteq> set (ServiceSpec_ports (Service_spec svc)) \<Longrightarrow>
    \<forall>r\<in>set (fold (\<lambda>port routes. let backends = f svc port in if backends \<noteq> [] then hm_insert (route_key ip port) backends routes else routes) ps m). origin r"
    for svc ip ps m
  proof (induction ps arbitrary: m)
    case (Cons p ps)
    have "\<forall>r\<in>set (let backends = f svc p in if backends \<noteq> [] then hm_insert (route_key ip p) backends m else m). origin r"
    proof (cases "f svc p = []")
      case False
      have "origin (route_key ip p, f svc p)" using Cons.prems(2-4) False by (auto simp: origin_def)
      then show ?thesis using Cons.prems(1) upd [of "route_key ip p" "f svc p" m] False unfolding Let_def by auto
    qed (use Cons.prems(1) in simp)
    then show ?case using Cons by simp
  qed simp
  have "\<forall>r\<in>set m. origin r \<Longrightarrow> set ss \<subseteq> set services \<Longrightarrow> \<forall>r\<in>set (fold (\<lambda>svc routes.
     case Service_cluster_ip svc of
       None \<Rightarrow> routes
     | Some cluster_ip \<Rightarrow> fold (\<lambda>port routes.
         let backends = f svc port
         in if backends \<noteq> [] then hm_insert (route_key cluster_ip port) backends routes else routes)
         (ServiceSpec_ports (Service_spec svc)) routes) ss m). origin r" for ss m
  proof (induction ss arbitrary: m)
    case (Cons svc ss)
    show ?case
    proof (cases "Service_cluster_ip svc")
      case None
      then show ?thesis using Cons by simp
    next
      case (Some ip)
      then show ?thesis using Cons inner [OF Cons.prems(1) _ Some order_refl] by simp
    qed
  qed simp
  from this [of "[]" services] have "origin (key, bs)" using assms by (auto simp: routes_with_def)
  then show thesis using that by (auto simp: origin_def)
qed

lemma route_backend_origin:
  assumes "b \<in> addressed P (route_backends vpc_pod_ips endpoints svc port)"
  obtains ep addr where "ep \<in> set endpoints" "Endpoint_service_id ep = Service_id svc" "Endpoint_namespace ep = Service_namespace svc"
    "addr \<in> set (Endpoint_addresses ep)" "backend_allowed vpc_pod_ips svc (EndpointAddress_ip addr)"
    "backend_new P (backend_addr (EndpointAddress_ip addr) (ServicePort_target_port port)) = Some b"
  using assms by (auto simp: addressed_def route_backends_def matching_eps_def)

section \<open>Properties\<close>

text \<open>C31: with VPC information the proxy keeps VPCs apart: after the routes were built, and however many requests
  came since, a request is sent only to an address that the endpoints list for a service whose route
  starts with the request's host, and that belongs to the VPC of that service.\<close>

theorem proxy_vpc_scoped:
  assumes laws: "lb_laws P members" and info: "vpc_pod_ips \<noteq> []"
    and sent: "fst (upstream_peer P (Some host) (fold (\<lambda>h s. snd (upstream_peer P h s)) earlier
      (update_routes P services endpoints vpc_pod_ips s))) = Inr b"
  shows "\<exists>svc\<in>set services. \<exists>cluster_ip port ep addr ips. Service_cluster_ip svc = Some cluster_ip \<and>
    port \<in> set (ServiceSpec_ports (Service_spec svc)) \<and> starts_with (route_key cluster_ip port) host \<and>
    ep \<in> set endpoints \<and> Endpoint_service_id ep = Service_id svc \<and> Endpoint_namespace ep = Service_namespace svc \<and>
    addr \<in> set (Endpoint_addresses ep) \<and> backend_new P (backend_addr (EndpointAddress_ip addr) (ServicePort_target_port port)) = Some b \<and>
    hm_get vpc_pod_ips (case Service_vpc svc of Some v \<Rightarrow> v | None \<Rightarrow> ''default'') = Some ips \<and> EndpointAddress_ip addr \<in> set ips"
proof -
  let ?routes = "routes_with (route_backends vpc_pod_ips endpoints) services" and ?s = "update_routes P services endpoints vpc_pod_ips s"
  have "table_ok P members (sp_routes ?s) (sp_lb_table ?s)" and r: "sp_routes ?s = ?routes"
    using table_ok_build [OF laws] by (simp_all add: update_routes_def Let_def)
  note reqs = requests_ok [OF laws this(1), of earlier]
  obtain key bs where "(key, bs) \<in> set ?routes" "starts_with key host" "b \<in> addressed P bs"
    using upstream_peer_ok(3) [OF laws _ sent] reqs r by auto
  then obtain svc ip port where svc: "svc \<in> set services" "Service_cluster_ip svc = Some ip" "port \<in> set (ServiceSpec_ports (Service_spec svc))"
      "starts_with (route_key ip port) host" and b: "b \<in> addressed P (route_backends vpc_pod_ips endpoints svc port)"
    by (auto elim!: routes_with_entry)
  from b obtain ep addr where ep: "ep \<in> set endpoints" "Endpoint_service_id ep = Service_id svc" "Endpoint_namespace ep = Service_namespace svc"
    "addr \<in> set (Endpoint_addresses ep)" "backend_allowed vpc_pod_ips svc (EndpointAddress_ip addr)"
    "backend_new P (backend_addr (EndpointAddress_ip addr) (ServicePort_target_port port)) = Some b"
    by (rule route_backend_origin)
  obtain ips where "hm_get vpc_pod_ips (case Service_vpc svc of Some v \<Rightarrow> v | None \<Rightarrow> ''default'') = Some ips" "EndpointAddress_ip addr \<in> set ips"
    using ep(5) info by (auto simp: backend_allowed_def split: option.splits)
  then show ?thesis using svc ep by blast
qed

text \<open>A round-robin balancer in a cluster whose addresses are known, and services behind it.\<close>

definition list_pingora :: "(string, string list) pingora" where
  "list_pingora = \<lparr> backend_new = Some, lb_of = (\<lambda>bs. Inr (filter (\<lambda>b. b \<in> bs) [''10.0.0.7:81'', ''10.0.0.8:81'', ''[fd00::1]:81''])),
     lb_select = (\<lambda>lb. case lb of [] \<Rightarrow> (None, []) | b # bs \<Rightarrow> (Some b, bs @ [b])) \<rparr>"

lemma list_pingora_laws: "lb_laws list_pingora set"
  by (auto simp: lb_laws_def list_pingora_def split: list.splits)

definition http_service :: "string \<Rightarrow> string \<Rightarrow> Service" where
  "http_service name ip = \<lparr> Service_id = name, Service_name = name, Service_namespace = ''default'',
     Service_spec = \<lparr> ServiceSpec_selector = [], ServiceSpec_ports = [\<lparr> ServicePort_name = ''http'', ServicePort_port = 80, ServicePort_target_port = 81, ServicePort_node_port = None \<rparr>],
       ServiceSpec_service_type = ClusterIP \<rparr>,
     Service_cluster_ip = Some ip, Service_vpc = None, Service_created_at = 0 \<rparr>"

definition endpoint_for :: "string \<Rightarrow> string list \<Rightarrow> Endpoint" where
  "endpoint_for name ips = \<lparr> Endpoint_id = name, Endpoint_service_id = name, Endpoint_service_name = name, Endpoint_namespace = ''default'',
     Endpoint_addresses = map (\<lambda>ip. \<lparr> EndpointAddress_ip = ip, EndpointAddress_node_name = None, EndpointAddress_pod_id = None \<rparr>) ips,
     Endpoint_ports = [], Endpoint_created_at = 0 \<rparr>"

theorem proxy_vpc_scoped_witness:
  "fst (upstream_peer list_pingora (Some ''10.43.0.9:80'') (snd (upstream_peer list_pingora (Some ''10.43.0.9:80'')
      (update_routes list_pingora [http_service ''web'' ''10.43.0.9''] [endpoint_for ''web'' [''fd00::1'', ''10.0.0.7'', ''10.0.0.8'']]
        [(''default'', [''fd00::1'', ''10.0.0.7''])] ServiceProxy_new)))) = Inr ''[fd00::1]:81'' \<and>
   (\<exists>ip ips. ''[fd00::1]:81'' = backend_addr ip 81 \<and> hm_get [(''default'', [''fd00::1'', ''10.0.0.7''])] ''default'' = Some ips \<and> ip \<in> set ips)"
proof -
  let ?s = "update_routes list_pingora [http_service ''web'' ''10.43.0.9''] [endpoint_for ''web'' [''fd00::1'', ''10.0.0.7'', ''10.0.0.8'']]
        [(''default'', [''fd00::1'', ''10.0.0.7''])] ServiceProxy_new"
  have run: "fst (upstream_peer list_pingora (Some ''10.43.0.9:80'') (snd (upstream_peer list_pingora (Some ''10.43.0.9:80'') ?s))) = Inr ''[fd00::1]:81''"
    by code_simp
  then have sent: "fst (upstream_peer list_pingora (Some ''10.43.0.9:80'') (fold (\<lambda>h s. snd (upstream_peer list_pingora h s)) [Some ''10.43.0.9:80''] ?s)) = Inr ''[fd00::1]:81''"
    by simp
  obtain svc port and addr :: EndpointAddress and ips where "svc \<in> set [http_service ''web'' ''10.43.0.9'']" "port \<in> set (ServiceSpec_ports (Service_spec svc))"
      "backend_new list_pingora (backend_addr (EndpointAddress_ip addr) (ServicePort_target_port port)) = Some ''[fd00::1]:81''"
      "hm_get [(''default'', [''fd00::1'', ''10.0.0.7''])] (case Service_vpc svc of Some v \<Rightarrow> v | None \<Rightarrow> ''default'') = Some ips" "EndpointAddress_ip addr \<in> set ips"
    using proxy_vpc_scoped [OF list_pingora_laws list.distinct(2) sent] by blast
  then show ?thesis
    by (intro conjI run exI [of _ "EndpointAddress_ip addr"] exI [of _ ips]) (simp_all add: http_service_def list_pingora_def)
qed

text \<open>The fallback matches prefixes of text: a host header without port reaches another service whose
  cluster IP starts with the same digits.\<close>

theorem proxy_prefix_misroutes:
  "fst (upstream_peer list_pingora (Some ''10.43.0.1'')
     (update_routes list_pingora [http_service ''db'' ''10.43.0.12''] [endpoint_for ''db'' [''10.0.0.7'']] [] ServiceProxy_new)) = Inr ''10.0.0.7:81''"
  by code_simp

end
