(* ===== verification/Agent_State.thy ===== *)
theory Agent_State
  imports Registry Service_Proxy Dns_Server
begin

text \<open>
  The agent's own state (\<open>cmd/k3rs-agent/src\<close>): connectivity and back-off (\<open>connectivity.rs\<close>), the cache of
  what the server last said (\<open>cache.rs\<close>) and its copy in an embedded database (\<open>store.rs\<close>), written in
  one batch. The database is a parameter. The lemmas show that what was saved is loaded back, that
  a failed save leaves the last good copy, and how the cached routing and DNS tables relate to
  those of the live proxies.
\<close>

section \<open>Connectivity\<close>

datatype ConnectivityState = Connecting | Connected | Reconnecting u32 | Offline

definition set_connected :: "ConnectivityState \<Rightarrow> ConnectivityState" where
  "set_connected prev = (if prev \<noteq> Connected then Connected else prev)"

definition set_reconnecting :: "u32 \<Rightarrow> ConnectivityState \<Rightarrow> ConnectivityState" where
  "set_reconnecting attempt prev = Reconnecting attempt"

definition set_offline :: "ConnectivityState \<Rightarrow> ConnectivityState" where
  "set_offline prev = (if prev \<noteq> Offline then Offline else prev)"

definition is_connected :: "ConnectivityState \<Rightarrow> bool" where
  "is_connected st \<longleftrightarrow> (case st of Connected \<Rightarrow> True | _ \<Rightarrow> False)"

definition BACKOFF_SHIFT_CAP :: u32 where "BACKOFF_SHIFT_CAP = 30"
definition BACKOFF_MAX_SECS :: u64 where "BACKOFF_MAX_SECS = 30"

definition backoff_duration :: "u32 \<Rightarrow> u64" where
  "backoff_duration attempt =
     (let shift = min attempt BACKOFF_SHIFT_CAP in min (push_bit (unat shift) 1) BACKOFF_MAX_SECS)"

section \<open>The cache\<close>

record AgentStateCache =
  cache_node_name :: string
  cache_node_id :: "string option"
  cache_agent_api_port :: "u16 option"
  cache_server_seq :: u64
  cache_last_synced_at :: DateTime
  cache_pods :: "Pod list"
  cache_services :: "Service list"
  cache_endpoints :: "Endpoint list"
  cache_ingresses :: "Ingress list"

definition AgentStateCache_new :: "string \<Rightarrow> DateTime \<Rightarrow> AgentStateCache" where
  "AgentStateCache_new node_name now = \<lparr> cache_node_name = node_name, cache_node_id = None, cache_agent_api_port = None,
     cache_server_seq = 0, cache_last_synced_at = now, cache_pods = [], cache_services = [], cache_endpoints = [], cache_ingresses = [] \<rparr>"

definition cached_backends :: "Endpoint list \<Rightarrow> Service \<Rightarrow> ServicePort \<Rightarrow> string list" where
  "cached_backends endpoints svc port =
     concat (map (\<lambda>ep. map (\<lambda>addr. EndpointAddress_ip addr @ '':'' @ show_dec (unat (ServicePort_target_port port))) (Endpoint_addresses ep))
       (matching_eps endpoints svc))"

definition derive_routes_map :: "AgentStateCache \<Rightarrow> (string, string list) hmap" where
  "derive_routes_map c = routes_with (cached_backends (cache_endpoints c)) (cache_services c)"

definition derive_dns_map :: "AgentStateCache \<Rightarrow> (string, string) hmap" where
  "derive_dns_map c = fold (\<lambda>svc m.
     case Service_cluster_ip svc of
       Some cluster_ip \<Rightarrow> hm_insert (fqdn_of DNS_DOMAIN_SUFFIX svc) cluster_ip m
     | None \<Rightarrow> m) (cache_services c) []"

section \<open>The store\<close>

record AgentMeta =
  meta_node_name :: string
  meta_node_id :: "string option"
  meta_agent_api_port :: "u16 option"
  meta_server_seq :: u64
  meta_last_synced_at :: DateTime

text \<open>The embedded database: a lookup and an atomic batch of writes. The codecs are serde's.\<close>

record ('db, 'v) agent_db =
  adb_get :: "'db \<Rightarrow> string \<Rightarrow> 'v option result"
  adb_write :: "'db \<Rightarrow> (string \<times> 'v) list \<Rightarrow> unit result \<times> 'db"

record 'v agent_serde =
  meta_codec :: "('v, AgentMeta) codec"
  pods_codec :: "('v, Pod list) codec"
  services_codec :: "('v, Service list) codec"
  endpoints_codec :: "('v, Endpoint list) codec"
  ingresses_codec :: "('v, Ingress list) codec"
  routes_codec :: "('v, (string, string list) hmap) codec"
  dns_codec :: "('v, (string, string) hmap) codec"

definition KEY_META :: string where "KEY_META = ''/agent/meta''"
definition KEY_PODS :: string where "KEY_PODS = ''/agent/pods''"
definition KEY_SERVICES :: string where "KEY_SERVICES = ''/agent/services''"
definition KEY_ENDPOINTS :: string where "KEY_ENDPOINTS = ''/agent/endpoints''"
definition KEY_INGRESSES :: string where "KEY_INGRESSES = ''/agent/ingresses''"
definition KEY_ROUTES :: string where "KEY_ROUTES = ''/agent/routes''"
definition KEY_DNS :: string where "KEY_DNS = ''/agent/dns-records''"

definition meta_of :: "AgentStateCache \<Rightarrow> AgentMeta" where
  "meta_of c = \<lparr> meta_node_name = cache_node_name c, meta_node_id = cache_node_id c, meta_agent_api_port = cache_agent_api_port c,
     meta_server_seq = cache_server_seq c, meta_last_synced_at = cache_last_synced_at c \<rparr>"

definition save_batch :: "'v agent_serde \<Rightarrow> AgentStateCache \<Rightarrow> (string \<times> 'v) list result" where
  "save_batch C cache =
     bindR (to_vec (meta_codec C) (meta_of cache)) (\<lambda>meta.
     bindR (to_vec (pods_codec C) (cache_pods cache)) (\<lambda>pods.
     bindR (to_vec (services_codec C) (cache_services cache)) (\<lambda>services.
     bindR (to_vec (endpoints_codec C) (cache_endpoints cache)) (\<lambda>endpoints.
     bindR (to_vec (ingresses_codec C) (cache_ingresses cache)) (\<lambda>ingresses.
     bindR (to_vec (routes_codec C) (derive_routes_map cache)) (\<lambda>routes.
     bindR (to_vec (dns_codec C) (derive_dns_map cache)) (\<lambda>dns.
     Inr [(KEY_META, meta), (KEY_PODS, pods), (KEY_SERVICES, services), (KEY_ENDPOINTS, endpoints),
          (KEY_INGRESSES, ingresses), (KEY_ROUTES, routes), (KEY_DNS, dns)])))))))"

definition agent_save :: "('db, 'v) agent_db \<Rightarrow> 'v agent_serde \<Rightarrow> AgentStateCache \<Rightarrow> 'db \<Rightarrow> unit result \<times> 'db" where
  "agent_save A C cache db =
     (case save_batch C cache of
        Inl e \<Rightarrow> (Inl e, db)
      | Inr batch \<Rightarrow> (case adb_write A db batch of
            (Inl e, db) \<Rightarrow> (Inl (Err ''AgentStore WriteBatch failed''), db)
          | (Inr _, db) \<Rightarrow> (Inr (), db)))"

definition read_key :: "('db, 'v) agent_db \<Rightarrow> ('v, 'a) codec \<Rightarrow> 'db \<Rightarrow> string \<Rightarrow> 'a option result" where
  "read_key A c db key =
     bindR (adb_get A db key) (\<lambda>found. case found of
         None \<Rightarrow> Inr None
       | Some b \<Rightarrow> bindR (from_slice c b) (\<lambda>x. Inr (Some x)))"

definition get_collection :: "('db, 'v) agent_db \<Rightarrow> ('v, 'a list) codec \<Rightarrow> 'db \<Rightarrow> string \<Rightarrow> 'a list result" where
  "get_collection A c db key = bindR (read_key A c db key) (\<lambda>found. Inr (case found of Some xs \<Rightarrow> xs | None \<Rightarrow> []))"

definition agent_load :: "('db, 'v) agent_db \<Rightarrow> 'v agent_serde \<Rightarrow> 'db \<Rightarrow> AgentStateCache option result" where
  "agent_load A C db =
     bindR (read_key A (meta_codec C) db KEY_META) (\<lambda>found. case found of
         None \<Rightarrow> Inr None
       | Some meta \<Rightarrow>
           bindR (get_collection A (pods_codec C) db KEY_PODS) (\<lambda>pods.
           bindR (get_collection A (services_codec C) db KEY_SERVICES) (\<lambda>services.
           bindR (get_collection A (endpoints_codec C) db KEY_ENDPOINTS) (\<lambda>endpoints.
           bindR (get_collection A (ingresses_codec C) db KEY_INGRESSES) (\<lambda>ingresses.
           Inr (Some \<lparr> cache_node_name = meta_node_name meta, cache_node_id = meta_node_id meta,
              cache_agent_api_port = meta_agent_api_port meta, cache_server_seq = meta_server_seq meta,
              cache_last_synced_at = meta_last_synced_at meta, cache_pods = pods, cache_services = services,
              cache_endpoints = endpoints, cache_ingresses = ingresses \<rparr>))))))"

definition load_routes :: "('db, 'v) agent_db \<Rightarrow> 'v agent_serde \<Rightarrow> 'db \<Rightarrow> (string, string list) hmap option result" where
  "load_routes A C db = read_key A (routes_codec C) db KEY_ROUTES"

definition load_dns_records :: "('db, 'v) agent_db \<Rightarrow> 'v agent_serde \<Rightarrow> 'db \<Rightarrow> (string, string) hmap option result" where
  "load_dns_records A C db = read_key A (dns_codec C) db KEY_DNS"

section \<open>Lemmas\<close>

lemma backoff_steps:
  assumes "attempt < 5"
  shows "backoff_duration attempt = 2 ^ unat attempt"
proof -
  have "unat attempt \<in> set [0..<5]" using assms by (simp add: word_less_nat_alt)
  moreover have "\<forall>n\<in>set [0..<5]. backoff_duration (of_nat n) = 2 ^ n" by code_simp
  ultimately have "backoff_duration (of_nat (unat attempt)) = 2 ^ unat attempt" by blast
  then show ?thesis by simp
qed

lemma backoff_capped:
  assumes "5 \<le> attempt"
  shows "backoff_duration attempt = 30"
proof -
  have "5 \<le> unat (min attempt BACKOFF_SHIFT_CAP)" "unat (min attempt BACKOFF_SHIFT_CAP) \<le> 30"
    using assms by (auto simp: BACKOFF_SHIFT_CAP_def min_def word_le_nat_alt)
  then have "unat (min attempt BACKOFF_SHIFT_CAP) \<in> set [5..<31]" unfolding set_upt atLeastLessThan_iff by linarith
  moreover have "\<forall>n\<in>set [5..<31]. min (push_bit n 1) BACKOFF_MAX_SECS = 30" by (simp add: upt_rec BACKOFF_MAX_SECS_def min_def)
  ultimately have "min (push_bit (unat (min attempt BACKOFF_SHIFT_CAP)) 1) BACKOFF_MAX_SECS = 30" by blast
  then show ?thesis by (simp only: backoff_duration_def Let_def)
qed

text \<open>What the store relies on in the database: a batch is written as a whole or not at all.\<close>

definition agent_db_laws :: "('db, 'v) agent_db \<Rightarrow> ('db \<Rightarrow> string \<rightharpoonup> 'v) \<Rightarrow> bool" where
  "agent_db_laws A content \<longleftrightarrow>
     (\<forall>db k v. adb_get A db k = Inr v \<longrightarrow> v = content db k) \<and>
     (\<forall>db batch db'. adb_write A db batch = (Inr (), db') \<longrightarrow> content db' = content db ++ map_of (rev batch)) \<and>
     (\<forall>db batch e db'. adb_write A db batch = (Inl e, db') \<longrightarrow> content db' = content db)"

definition agent_serde_ok :: "'v agent_serde \<Rightarrow> bool" where
  "agent_serde_ok C \<longleftrightarrow> codec_ok (meta_codec C) \<and> codec_ok (pods_codec C) \<and> codec_ok (services_codec C) \<and> codec_ok (endpoints_codec C) \<and>
     codec_ok (ingresses_codec C) \<and> codec_ok (routes_codec C) \<and> codec_ok (dns_codec C)"

lemma save_batch_Inr:
  assumes "save_batch C cache = Inr batch"
  obtains meta pods services endpoints ingresses routes dns
  where "batch = [(KEY_META, meta), (KEY_PODS, pods), (KEY_SERVICES, services), (KEY_ENDPOINTS, endpoints),
      (KEY_INGRESSES, ingresses), (KEY_ROUTES, routes), (KEY_DNS, dns)]"
    and "to_vec (meta_codec C) (meta_of cache) = Inr meta" "to_vec (pods_codec C) (cache_pods cache) = Inr pods"
    and "to_vec (services_codec C) (cache_services cache) = Inr services" "to_vec (endpoints_codec C) (cache_endpoints cache) = Inr endpoints"
    and "to_vec (ingresses_codec C) (cache_ingresses cache) = Inr ingresses" "to_vec (routes_codec C) (derive_routes_map cache) = Inr routes"
    and "to_vec (dns_codec C) (derive_dns_map cache) = Inr dns"
  using assms by (auto simp: save_batch_def bindR_eq_Inr)

lemmas agent_keys = KEY_META_def KEY_PODS_def KEY_SERVICES_def KEY_ENDPOINTS_def KEY_INGRESSES_def KEY_ROUTES_def KEY_DNS_def

lemma read_key_written:
  assumes "codec_ok c" "to_vec c x = Inr v" "adb_get A db key = Inr (Some v)"
  shows "read_key A c db key = Inr (Some x)"
  using codec_okD [OF assms(1,2)] assms(3) by (simp add: read_key_def)

text \<open>A save either reports an error and changes nothing, or leaves every key with its value.\<close>

lemma agent_save_cases:
  assumes "agent_db_laws A content" "agent_save A C cache db = (r, db')"
  shows "r = Inr () \<and> (\<exists>batch. save_batch C cache = Inr batch \<and> content db' = content db ++ map_of (rev batch)) \<or>
    (\<exists>e. r = Inl e) \<and> content db' = content db"
proof (cases "save_batch C cache")
  case (Inr batch)
  obtain r' db2 where w: "adb_write A db batch = (r', db2)" by fastforce
  then show ?thesis using assms Inr by (cases r') (auto simp: agent_save_def agent_db_laws_def)
qed (use assms(2) in \<open>auto simp: agent_save_def\<close>)

lemma read_key_cong: "(\<And>k. adb_get A db' k = adb_get A db k) \<Longrightarrow> read_key A c db' key = read_key A c db key"
  by (simp add: read_key_def)

lemma agent_load_cong:
  assumes "\<And>k. adb_get A db' k = adb_get A db k"
  shows "agent_load A C db' = agent_load A C db"
  unfolding agent_load_def get_collection_def read_key_cong [OF assms] ..

lemma agent_load_saved:
  assumes C: "agent_serde_ok C" and save: "save_batch C cache = Inr batch"
    and read: "\<And>k. adb_get A db k = Inr (content k)" and content: "content = old ++ map_of (rev batch)"
  shows "agent_load A C db = Inr (Some cache)" "load_routes A C db = Inr (Some (derive_routes_map cache))"
    "load_dns_records A C db = Inr (Some (derive_dns_map cache))"
proof -
  obtain meta pods services endpoints ingresses routes dns
  where b: "batch = [(KEY_META, meta), (KEY_PODS, pods), (KEY_SERVICES, services), (KEY_ENDPOINTS, endpoints),
      (KEY_INGRESSES, ingresses), (KEY_ROUTES, routes), (KEY_DNS, dns)]"
    and v: "to_vec (meta_codec C) (meta_of cache) = Inr meta" "to_vec (pods_codec C) (cache_pods cache) = Inr pods"
      "to_vec (services_codec C) (cache_services cache) = Inr services" "to_vec (endpoints_codec C) (cache_endpoints cache) = Inr endpoints"
      "to_vec (ingresses_codec C) (cache_ingresses cache) = Inr ingresses" "to_vec (routes_codec C) (derive_routes_map cache) = Inr routes"
      "to_vec (dns_codec C) (derive_dns_map cache) = Inr dns"
    by (rule save_batch_Inr [OF save])
  have g: "adb_get A db KEY_META = Inr (Some meta)" "adb_get A db KEY_PODS = Inr (Some pods)" "adb_get A db KEY_SERVICES = Inr (Some services)"
    "adb_get A db KEY_ENDPOINTS = Inr (Some endpoints)" "adb_get A db KEY_INGRESSES = Inr (Some ingresses)"
    "adb_get A db KEY_ROUTES = Inr (Some routes)" "adb_get A db KEY_DNS = Inr (Some dns)"
    by (simp_all add: read content b map_add_def agent_keys)
  note rd = read_key_written [OF _ v(1) g(1)] read_key_written [OF _ v(2) g(2)] read_key_written [OF _ v(3) g(3)] read_key_written [OF _ v(4) g(4)]
    read_key_written [OF _ v(5) g(5)] read_key_written [OF _ v(6) g(6)] read_key_written [OF _ v(7) g(7)]
  show "agent_load A C db = Inr (Some cache)" using C rd by (simp add: agent_load_def get_collection_def agent_serde_ok_def meta_of_def)
  show "load_routes A C db = Inr (Some (derive_routes_map cache))" "load_dns_records A C db = Inr (Some (derive_dns_map cache))"
    using C rd by (simp_all add: load_routes_def load_dns_records_def agent_serde_ok_def)
qed

lemma routes_with_cong:
  assumes "\<And>svc port. svc \<in> set services \<Longrightarrow> f svc port = g svc port"
  shows "routes_with f services = routes_with g services"
  unfolding routes_with_def by (rule fold_cong) (use assms in \<open>auto split: option.split\<close>)

lemma cached_backends_plain:
  assumes "\<forall>ep\<in>set endpoints. \<forall>addr\<in>set (Endpoint_addresses ep). CHR '':'' \<notin> set (EndpointAddress_ip addr)"
  shows "cached_backends endpoints svc port = route_backends [] endpoints svc port"
proof -
  have "map (\<lambda>addr. EndpointAddress_ip addr @ '':'' @ show_dec (unat (ServicePort_target_port port))) (Endpoint_addresses ep) =
      map (\<lambda>addr. backend_addr (EndpointAddress_ip addr) (ServicePort_target_port port)) (Endpoint_addresses ep)" if "ep \<in> set endpoints" for ep
    using that assms by (auto simp: backend_addr_def)
  then show ?thesis
    by (auto simp: cached_backends_def route_backends_def backend_allowed_def matching_eps_def intro!: arg_cong [where f = concat])
qed

section \<open>Properties\<close>

text \<open>What the agent saved is what it finds after a restart, the derived routing and DNS tables included, and a
  save that fails, in a codec or in the batch, leaves the last copy as it was.\<close>

theorem agent_store_roundtrip:
  assumes "agent_db_laws A content" and "agent_serde_ok C" and save: "agent_save A C cache db = (r, db')"
    and reads: "\<And>k. adb_get A db k = Inr (content db k)" "\<And>k. adb_get A db' k = Inr (content db' k)"
  shows "case r of
      Inr _ \<Rightarrow> agent_load A C db' = Inr (Some cache) \<and> load_routes A C db' = Inr (Some (derive_routes_map cache)) \<and>
        load_dns_records A C db' = Inr (Some (derive_dns_map cache))
    | Inl _ \<Rightarrow> agent_load A C db' = agent_load A C db"
  using agent_save_cases [OF assms(1) save]
proof (elim disjE conjE exE)
  fix batch assume "r = Inr ()" and b: "save_batch C cache = Inr batch" "content db' = content db ++ map_of (rev batch)"
  with agent_load_saved [OF assms(2) b(1) reads(2) b(2)] show ?thesis by simp
next
  fix e assume "r = Inl e" and same: "content db' = content db"
  then show ?thesis using agent_load_cong [of A db' db C] reads by simp
qed

text \<open>A database in memory, and serde as tagging.\<close>

datatype agent_value = AV_Meta AgentMeta | AV_Pods "Pod list" | AV_Services "Service list" | AV_Endpoints "Endpoint list"
  | AV_Ingresses "Ingress list" | AV_Routes "(string, string list) hmap" | AV_Dns "(string, string) hmap"

definition mem_agent_db :: "(string \<rightharpoonup> 'v, 'v) agent_db" where
  "mem_agent_db = \<lparr> adb_get = (\<lambda>db k. Inr (db k)), adb_write = (\<lambda>db batch. (Inr (), db ++ map_of (rev batch))) \<rparr>"

definition tag_agent_serde :: "agent_value agent_serde" where
  "tag_agent_serde = \<lparr>
     meta_codec = \<lparr> to_vec = (\<lambda>x. Inr (AV_Meta x)), from_slice = (\<lambda>v. case v of AV_Meta x \<Rightarrow> Inr x | _ \<Rightarrow> Inl (Err [])) \<rparr>,
     pods_codec = \<lparr> to_vec = (\<lambda>x. Inr (AV_Pods x)), from_slice = (\<lambda>v. case v of AV_Pods x \<Rightarrow> Inr x | _ \<Rightarrow> Inl (Err [])) \<rparr>,
     services_codec = \<lparr> to_vec = (\<lambda>x. Inr (AV_Services x)), from_slice = (\<lambda>v. case v of AV_Services x \<Rightarrow> Inr x | _ \<Rightarrow> Inl (Err [])) \<rparr>,
     endpoints_codec = \<lparr> to_vec = (\<lambda>x. Inr (AV_Endpoints x)), from_slice = (\<lambda>v. case v of AV_Endpoints x \<Rightarrow> Inr x | _ \<Rightarrow> Inl (Err [])) \<rparr>,
     ingresses_codec = \<lparr> to_vec = (\<lambda>x. Inr (AV_Ingresses x)), from_slice = (\<lambda>v. case v of AV_Ingresses x \<Rightarrow> Inr x | _ \<Rightarrow> Inl (Err [])) \<rparr>,
     routes_codec = \<lparr> to_vec = (\<lambda>x. Inr (AV_Routes x)), from_slice = (\<lambda>v. case v of AV_Routes x \<Rightarrow> Inr x | _ \<Rightarrow> Inl (Err [])) \<rparr>,
     dns_codec = \<lparr> to_vec = (\<lambda>x. Inr (AV_Dns x)), from_slice = (\<lambda>v. case v of AV_Dns x \<Rightarrow> Inr x | _ \<Rightarrow> Inl (Err [])) \<rparr> \<rparr>"

lemma mem_agent_laws: "agent_db_laws mem_agent_db (\<lambda>db. db)" "agent_serde_ok tag_agent_serde"
  by (auto simp: agent_db_laws_def mem_agent_db_def agent_serde_ok_def tag_agent_serde_def codec_ok_def)

definition cached_web :: AgentStateCache where
  "cached_web = (AgentStateCache_new ''n1'' 0)\<lparr>cache_node_id := Some ''id1'', cache_services := [http_service ''web'' ''10.43.0.9''],
     cache_endpoints := [endpoint_for ''web'' [''10.0.0.7'']]\<rparr>"

theorem agent_store_roundtrip_witness:
  "agent_load mem_agent_db tag_agent_serde (snd (agent_save mem_agent_db tag_agent_serde cached_web Map.empty)) = Inr (Some cached_web)"
proof -
  obtain db' where save: "agent_save mem_agent_db tag_agent_serde cached_web Map.empty = (Inr (), db')"
    by (simp add: agent_save_def save_batch_def mem_agent_db_def tag_agent_serde_def)
  have "adb_get mem_agent_db db k = Inr (db k)" for db :: "string \<rightharpoonup> agent_value" and k by (simp add: mem_agent_db_def)
  from agent_store_roundtrip [OF mem_agent_laws save this this] show ?thesis by (simp add: save)
qed



text \<open>With an IPv6 address, which is what the endpoint controller lists, the cached table has an address without
  brackets that the proxy's has in brackets.\<close>

theorem cached_routes_lack_brackets:
  "derive_routes_map (cached_web\<lparr>cache_endpoints := [endpoint_for ''web'' [''fd00::1'']]\<rparr>) = [(''10.43.0.9:80'', [''fd00::1:81''])] \<and>
   sp_routes (update_routes list_pingora (cache_services cached_web) [endpoint_for ''web'' [''fd00::1'']] [] ServiceProxy_new) = [(''10.43.0.9:80'', [''[fd00::1]:81''])]"
  by (intro conjI; code_simp)

text \<open>The reconnect delays double from one second and stay at thirty: they are never zero, never above thirty
  seconds and never shrink while the attempts grow.\<close>

theorem backoff_bounds:
  "1 \<le> backoff_duration n \<and> backoff_duration n \<le> 30 \<and> backoff_duration n \<le> backoff_duration (max n m) \<and> backoff_duration 0 = 1"
proof -
  have val: "n < 5 \<Longrightarrow> backoff_duration n = 2 ^ unat n" "5 \<le> n \<Longrightarrow> backoff_duration n = 30" for n
    using backoff_steps backoff_capped by blast+
  have powers: "\<forall>k\<in>set [0..<5]. \<forall>l\<in>set [0..<5]. 1 \<le> (2 :: u64) ^ k \<and> (2 :: u64) ^ k \<le> 30 \<and> (k \<le> l \<longrightarrow> (2 :: u64) ^ k \<le> 2 ^ l)" by code_simp
  have small: "n < 5 \<Longrightarrow> unat n \<in> set [0..<5]" for n :: u32 using unat_mono [of n 5] by simp
  have b: "1 \<le> backoff_duration n \<and> backoff_duration n \<le> 30" for n
  proof (cases "n < 5")
    case True
    then show ?thesis using powers small [of n] unfolding val(1) [OF True] by blast
  qed (use val(2) [of n] in simp)
  moreover have mono: "backoff_duration n \<le> backoff_duration m" if "n \<le> m" for n m
  proof (cases "m < 5")
    case True
    then have n: "n < 5" using that by simp
    have "unat n \<le> unat m" using that by (simp add: word_le_nat_alt)
    then show ?thesis using powers small [OF n] small [OF True] unfolding val(1) [OF n] val(1) [OF True] by blast
  next
    case False
    then show ?thesis using b [of n] val(2) [of m] by simp
  qed
  ultimately show ?thesis using val(1) [of 0] mono [of n "max n m"] by simp
qed

end
