(* ===== verification/Container_Runtime.thy ===== *)
theory Container_Runtime
  imports K3_Action K3_Types
begin

text \<open>
  The container runtime of the agent (\<open>pkg/container/src/state.rs\<close>, \<open>runtime.rs\<close>, the Linux build): the
  in-process table of containers and the operations that keep it in step with a runtime backend.
  Backends run OCI binaries or microVMs and are a parameter, like images, root file systems and the
  clock. The lemmas give the life-cycle invariant of the table, which every operation keeps, and
  what discovery leaves in it.
\<close>

section \<open>Tracked containers (state.rs)\<close>

datatype ContainerState = State_Created | State_Running | State_Stopped | State_Failed string

record ContainerEntry =
  ContainerEntry_id :: string
  ContainerEntry_image :: string
  ContainerEntry_runtime_name :: string
  ContainerEntry_state :: ContainerState
  ContainerEntry_pid :: "u32 option"
  ContainerEntry_exit_code :: "int option"
  ContainerEntry_log_path :: string
  ContainerEntry_bundle_path :: string
  ContainerEntry_created_at :: DateTime
  ContainerEntry_started_at :: "DateTime option"
  ContainerEntry_finished_at :: "DateTime option"

type_synonym ContainerStore = "(string, ContainerEntry) hmap"

definition track :: "DateTime \<Rightarrow> string \<Rightarrow> string \<Rightarrow> string \<Rightarrow> string \<Rightarrow> string \<Rightarrow> ContainerStore \<Rightarrow> ContainerStore" where
  "track now cid img runtime_name bundle_path log_path containers =
     hm_insert cid \<lparr> ContainerEntry_id = cid, ContainerEntry_image = img, ContainerEntry_runtime_name = runtime_name,
       ContainerEntry_state = State_Created, ContainerEntry_pid = None, ContainerEntry_exit_code = None,
       ContainerEntry_log_path = log_path, ContainerEntry_bundle_path = bundle_path, ContainerEntry_created_at = now,
       ContainerEntry_started_at = None, ContainerEntry_finished_at = None \<rparr> containers"

definition with_state :: "DateTime \<Rightarrow> ContainerState \<Rightarrow> ContainerEntry \<Rightarrow> ContainerEntry" where
  "with_state now st entry =
     (case st of
        State_Running \<Rightarrow> entry\<lparr>ContainerEntry_started_at := Some now\<rparr>
      | State_Stopped \<Rightarrow> entry\<lparr>ContainerEntry_finished_at := Some now\<rparr>
      | State_Failed _ \<Rightarrow> entry\<lparr>ContainerEntry_finished_at := Some now\<rparr>
      | State_Created \<Rightarrow> entry)\<lparr>ContainerEntry_state := st\<rparr>"

definition update_state :: "DateTime \<Rightarrow> string \<Rightarrow> ContainerState \<Rightarrow> ContainerStore \<Rightarrow> bool \<times> ContainerStore" where
  "update_state now cid st containers =
     (case hm_get containers cid of
        Some entry \<Rightarrow> (True, hm_insert cid (with_state now st entry) containers)
      | None \<Rightarrow> (False, containers))"

definition set_pid :: "string \<Rightarrow> u32 \<Rightarrow> ContainerStore \<Rightarrow> ContainerStore" where
  "set_pid cid pid containers =
     (case hm_get containers cid of
        Some entry \<Rightarrow> hm_insert cid (entry\<lparr>ContainerEntry_pid := Some pid\<rparr>) containers
      | None \<Rightarrow> containers)"

definition set_exit_code :: "string \<Rightarrow> int \<Rightarrow> ContainerStore \<Rightarrow> ContainerStore" where
  "set_exit_code cid code containers =
     (case hm_get containers cid of
        Some entry \<Rightarrow> hm_insert cid (entry\<lparr>ContainerEntry_exit_code := Some code\<rparr>) containers
      | None \<Rightarrow> containers)"

record ContainerStateInfo =
  info_id :: string
  info_status :: string
  info_pid :: u32
  info_bundle :: string

section \<open>Backends and the host\<close>

record 'w RuntimeBackend =
  rb_name :: string
  rb_handles_images :: bool
  rb_create :: "string \<Rightarrow> string \<Rightarrow> ('w, unit) act"
  rb_create_from_image :: "string \<Rightarrow> string \<Rightarrow> string list \<Rightarrow> ('w, unit) act"
  rb_start :: "string \<Rightarrow> ('w, unit) act"
  rb_stop :: "string \<Rightarrow> ('w, unit) act"
  rb_delete :: "string \<Rightarrow> ('w, unit) act"
  rb_list :: "('w, string list) act"
  rb_state :: "string \<Rightarrow> ('w, ContainerStateInfo) act"

text \<open>
  The host of a runtime: the default backend, the VM backend once initialised, the lookup of an OCI
  runtime by name with and without download, whether process 1 is an init system, image pull,
  preparation of a bundle from an image, removal of a container directory, and the clock.
\<close>

record 'w host =
  data_dir :: string
  default_backend :: "'w RuntimeBackend"
  vm_backend :: "('w, 'w RuntimeBackend) act"
  oci_with_name :: "string \<Rightarrow> 'w RuntimeBackend result"
  oci_download :: "string \<Rightarrow> ('w, 'w RuntimeBackend) act"
  native_init :: bool
  image_pull :: "string \<Rightarrow> ('w, string) act"
  prepare_bundle :: "string \<Rightarrow> string \<Rightarrow> string \<Rightarrow> string list \<Rightarrow> labels \<Rightarrow> ('w, unit) act"
  remove_container_dir :: "string \<Rightarrow> ('w, unit) act"
  clock :: "nat \<Rightarrow> DateTime"

record 'w runtime =
  rt_containers :: ContainerStore
  rt_host :: 'w
  rt_ticks :: nat

definition on_host :: "('w, 'a) act \<Rightarrow> ('w runtime, 'a) act" where
  "on_host m r = (let (x, w) = m (rt_host r) in (x, r\<lparr>rt_host := w\<rparr>))"

definition on_containers :: "'w host \<Rightarrow> (DateTime \<Rightarrow> ContainerStore \<Rightarrow> ContainerStore) \<Rightarrow> ('w runtime, unit) act" where
  "on_containers H f r = (Inr (), r\<lparr>rt_containers := f (clock H (rt_ticks r)) (rt_containers r), rt_ticks := Suc (rt_ticks r)\<rparr>)"

section \<open>The runtime (runtime.rs)\<close>

definition backend_name_for :: "'w host \<Rightarrow> string \<Rightarrow> 'w runtime \<Rightarrow> string" where
  "backend_name_for H cid r =
     (case hm_get (rt_containers r) cid of
        Some entry \<Rightarrow> if ContainerEntry_runtime_name entry = ''vm'' then ''vm'' else rb_name (default_backend H)
      | None \<Rightarrow> rb_name (default_backend H))"

definition pull_image :: "'w host \<Rightarrow> string \<Rightarrow> ('w runtime, unit) act" where
  "pull_image H img =
     (if rb_handles_images (default_backend H) then returnM ()
      else bindM (on_host (image_pull H img)) (\<lambda>_. returnM ()))"

definition effective_name :: "'w host \<Rightarrow> string \<Rightarrow> string" where
  "effective_name H name = (if name = ''youki'' \<and> \<not> native_init H then ''crun'' else name)"

definition backend_for_create :: "'w host \<Rightarrow> string option \<Rightarrow> ('w runtime, 'w RuntimeBackend) act" where
  "backend_for_create H runtime_name =
     (case runtime_name of
        None \<Rightarrow> returnM (default_backend H)
      | Some name \<Rightarrow>
          if name = ''vm'' then on_host (vm_backend H)
          else if name = ''youki'' \<or> name = ''crun'' then
            (case oci_with_name H (effective_name H name) of
               Inr b \<Rightarrow> returnM b
             | Inl _ \<Rightarrow> on_host (oci_download H (effective_name H name)))
          else returnM (default_backend H))"

definition container_dir :: "'w host \<Rightarrow> string \<Rightarrow> string" where
  "container_dir H cid = data_dir H @ ''/containers/'' @ cid"

definition stdout_log :: "'w host \<Rightarrow> string \<Rightarrow> string" where
  "stdout_log H cid = data_dir H @ ''/logs/'' @ cid @ ''/stdout.log''"

definition over :: "ContainerStateInfo \<Rightarrow> bool" where
  "over info \<longleftrightarrow> info_status info = ''stopped'' \<or> info_status info = ''exited''"

definition create_container :: "'w host \<Rightarrow> string \<Rightarrow> string \<Rightarrow> string list \<Rightarrow> labels \<Rightarrow> string option \<Rightarrow> ('w runtime, unit) act" where
  "create_container H cid img command env runtime_name =
     bindM (backend_for_create H runtime_name) (\<lambda>backend.
     bindM (tryM (on_host (rb_state backend cid))) (\<lambda>st.
     bindM (case st of
         Inr info \<Rightarrow> if over info then ignoreM (on_host (rb_delete backend cid)) else returnM ()
       | Inl _ \<Rightarrow> returnM ()) (\<lambda>_.
     bindM (if rb_handles_images backend then on_host (rb_create_from_image backend cid img command)
            else bindM (on_host (image_pull H img)) (\<lambda>image_dir.
              bindM (on_host (prepare_bundle H (container_dir H cid) cid image_dir command env)) (\<lambda>_.
              on_host (rb_create backend cid (container_dir H cid))))) (\<lambda>_.
     on_containers H (\<lambda>now. track now cid img (rb_name backend) (container_dir H cid) (stdout_log H cid))))))"

definition get_backend_for_container :: "'w host \<Rightarrow> string \<Rightarrow> ('w runtime, 'w RuntimeBackend) act" where
  "get_backend_for_container H cid =
     bindM (getM (\<lambda>r. hm_get (rt_containers r) cid)) (\<lambda>found. case found of
         None \<Rightarrow> returnM (default_backend H)
       | Some entry \<Rightarrow>
           if ContainerEntry_runtime_name entry = ''vm'' then
             bindM (tryM (on_host (vm_backend H))) (\<lambda>vm. returnM (case vm of Inr b \<Rightarrow> b | Inl _ \<Rightarrow> default_backend H))
           else if ContainerEntry_runtime_name entry = ''youki'' \<or> ContainerEntry_runtime_name entry = ''crun'' then
             returnM (case oci_with_name H (ContainerEntry_runtime_name entry) of Inr b \<Rightarrow> b | Inl _ \<Rightarrow> default_backend H)
           else returnM (default_backend H))"

definition start_container :: "'w host \<Rightarrow> string \<Rightarrow> ('w runtime, unit) act" where
  "start_container H cid =
     bindM (get_backend_for_container H cid) (\<lambda>backend.
     bindM (on_host (rb_start backend cid)) (\<lambda>_.
     on_containers H (\<lambda>now cs. snd (update_state now cid State_Running cs))))"

definition stop_container :: "'w host \<Rightarrow> string \<Rightarrow> ('w runtime, unit) act" where
  "stop_container H cid =
     bindM (get_backend_for_container H cid) (\<lambda>backend.
     bindM (on_host (rb_stop backend cid)) (\<lambda>_.
     bindM (on_host (rb_delete backend cid)) (\<lambda>_.
     on_containers H (\<lambda>now cs. snd (update_state now cid State_Stopped cs)))))"

definition mark_failed :: "'w host \<Rightarrow> string \<Rightarrow> string \<Rightarrow> ('w runtime, unit) act" where
  "mark_failed H cid reason = on_containers H (\<lambda>now cs. snd (update_state now cid (State_Failed reason) cs))"

text \<open>One listed container: tracked afresh when the backend reports it running or created.\<close>

definition live :: "ContainerStateInfo \<Rightarrow> bool" where
  "live info \<longleftrightarrow> info_status info = ''running'' \<or> info_status info = ''created''"

definition discover_one :: "'w host \<Rightarrow> 'w RuntimeBackend \<Rightarrow> string \<Rightarrow> ('w runtime, bool) act" where
  "discover_one H backend cid =
     bindM (tryM (on_host (rb_state backend cid))) (\<lambda>st. case st of
         Inl _ \<Rightarrow> returnM False
       | Inr info \<Rightarrow>
           if live info then
             bindM (on_containers H (\<lambda>now. track now cid ''recovered'' (rb_name backend) (info_bundle info) (stdout_log H cid))) (\<lambda>_.
             bindM (whenM (info_status info = ''running'')
               (bindM (on_containers H (\<lambda>now cs. snd (update_state now cid State_Running cs))) (\<lambda>_.
                whenM (0 < info_pid info) (modifyM (\<lambda>r. r\<lparr>rt_containers := set_pid cid (info_pid info) (rt_containers r)\<rparr>))))) (\<lambda>_.
             returnM True))
           else returnM False)"

fun discover_each :: "'w host \<Rightarrow> 'w RuntimeBackend \<Rightarrow> string list \<Rightarrow> ('w runtime, string list) act" where
  "discover_each H backend [] = returnM []"
| "discover_each H backend (cid # ids) =
     bindM (discover_one H backend cid) (\<lambda>found.
     bindM (discover_each H backend ids) (\<lambda>rest. returnM (if found then cid # rest else rest)))"

definition discover_from_backend :: "'w host \<Rightarrow> 'w RuntimeBackend \<Rightarrow> ('w runtime, string list) act" where
  "discover_from_backend H backend =
     bindM (tryM (on_host (rb_list backend))) (\<lambda>ids. discover_each H backend (case ids of Inr ids \<Rightarrow> ids | Inl _ \<Rightarrow> []))"

text \<open>\<open>same_backend\<close>: the VM backend is the default one (\<open>Arc::ptr_eq\<close>), which holds exactly when the default's name is \<open>vm\<close>.\<close>

definition discover_running_containers :: "'w host \<Rightarrow> ('w runtime, string list) act" where
  "discover_running_containers H =
     bindM (discover_from_backend H (default_backend H)) (\<lambda>found.
     bindM (tryM (on_host (vm_backend H))) (\<lambda>vm. case vm of
         Inr b \<Rightarrow> if rb_name (default_backend H) \<noteq> ''vm'' then bindM (discover_from_backend H b) (\<lambda>more. returnM (found @ more)) else returnM found
       | Inl _ \<Rightarrow> returnM found))"

definition container_state :: "'w host \<Rightarrow> string \<Rightarrow> ('w runtime, ContainerStateInfo) act" where
  "container_state H cid = bindM (get_backend_for_container H cid) (\<lambda>backend. on_host (rb_state backend cid))"

definition cleanup_container :: "'w host \<Rightarrow> string \<Rightarrow> ('w runtime, unit) act" where
  "cleanup_container H cid =
     bindM (get_backend_for_container H cid) (\<lambda>backend.
     bindM (ignoreM (on_host (rb_stop backend cid))) (\<lambda>_.
     bindM (ignoreM (on_host (rb_delete backend cid))) (\<lambda>_.
     bindM (modifyM (\<lambda>r. r\<lparr>rt_containers := hm_remove cid (rt_containers r)\<rparr>)) (\<lambda>_.
     on_host (remove_container_dir H (container_dir H cid))))))"

section \<open>The life cycle\<close>

text \<open>An entry is stored under its id; a container that was never started has no times, a running one
  has a start and a finished one an end.\<close>

definition entry_ok :: "string \<Rightarrow> ContainerEntry \<Rightarrow> bool" where
  "entry_ok cid e \<longleftrightarrow> ContainerEntry_id e = cid \<and>
     (case ContainerEntry_state e of
        State_Created \<Rightarrow> ContainerEntry_started_at e = None \<and> ContainerEntry_finished_at e = None
      | State_Running \<Rightarrow> ContainerEntry_started_at e \<noteq> None
      | State_Stopped \<Rightarrow> ContainerEntry_finished_at e \<noteq> None
      | State_Failed _ \<Rightarrow> ContainerEntry_finished_at e \<noteq> None)"

definition containers_ok :: "ContainerStore \<Rightarrow> bool" where
  "containers_ok cs \<longleftrightarrow> hm_wf cs \<and> (\<forall>cid e. hm_get cs cid = Some e \<longrightarrow> entry_ok cid e)"

lemma containers_ok_insert: "containers_ok cs \<Longrightarrow> entry_ok cid e \<Longrightarrow> containers_ok (hm_insert cid e cs)"
  by (auto simp: containers_ok_def hmap_simps)

lemma containers_ok_remove: "containers_ok cs \<Longrightarrow> containers_ok (hm_remove cid cs)"
  by (auto simp: containers_ok_def hmap_simps split: if_splits)

lemma containers_ok_track: "containers_ok cs \<Longrightarrow> containers_ok (track now cid img rt bundle log cs)"
  by (simp add: track_def containers_ok_insert entry_ok_def)

lemma containers_ok_update:
  assumes "containers_ok cs" "st \<noteq> State_Created"
  shows "containers_ok (snd (update_state now cid st cs))"
proof (cases "hm_get cs cid")
  case (Some e)
  then have "entry_ok cid (with_state now st e)"
    using assms by (cases st) (auto simp: with_state_def containers_ok_def entry_ok_def)
  then show ?thesis using assms(1) Some by (simp add: update_state_def containers_ok_insert)
qed (use assms in \<open>simp add: update_state_def\<close>)

lemma containers_ok_pid: "containers_ok cs \<Longrightarrow> containers_ok (set_pid cid pid cs)"
proof (cases "hm_get cs cid")
  case (Some e)
  assume ok: "containers_ok cs"
  then have "entry_ok cid e" using Some by (simp add: containers_ok_def)
  then have "entry_ok cid (e\<lparr>ContainerEntry_pid := Some pid\<rparr>)" by (cases "ContainerEntry_state e") (simp_all add: entry_ok_def)
  then show ?thesis using ok Some by (simp add: set_pid_def containers_ok_insert)
qed (simp add: set_pid_def)

text \<open>Actions of the runtime that keep the table well formed, whatever the host does.\<close>

abbreviation rt_ok :: "'w runtime \<Rightarrow> bool" where
  "rt_ok r \<equiv> containers_ok (rt_containers r)"

lemma rt_ok_host [keeps_intro]: "keeps rt_ok (on_host m)"
  by (simp add: keeps_def on_host_def split: prod.split)

lemma rt_ok_update [keeps_intro]: "(\<And>now cs. containers_ok cs \<Longrightarrow> containers_ok (f now cs)) \<Longrightarrow> keeps rt_ok (on_containers H f)"
  "(\<And>cs. containers_ok cs \<Longrightarrow> containers_ok (g cs)) \<Longrightarrow> keeps rt_ok (modifyM (\<lambda>r. r\<lparr>rt_containers := g (rt_containers r)\<rparr>))"
  by (simp_all add: keeps_def on_containers_def modifyM_def)

lemmas table_intros = containers_ok_track containers_ok_update containers_ok_pid containers_ok_remove

lemma rt_ok_backend [keeps_intro]: "keeps rt_ok (get_backend_for_container H cid)" "keeps rt_ok (backend_for_create H name)"
  unfolding get_backend_for_container_def backend_for_create_def by (intro keeps_intro)+

lemma rt_ok_discover_one [keeps_intro]: "keeps rt_ok (discover_one H b cid)"
  unfolding discover_one_def by (intro keeps_intro table_intros) simp_all

lemma rt_ok_discover_each [keeps_intro]: "keeps rt_ok (discover_each H b ids)"
  by (induction ids) (auto intro!: keeps_intro)

lemma rt_ok_discover [keeps_intro]: "keeps rt_ok (discover_from_backend H b)"
  unfolding discover_from_backend_def by (intro keeps_intro)

text \<open>A call of the runtime by the agent.\<close>

inductive runtime_step :: "'w host \<Rightarrow> 'w runtime \<Rightarrow> 'w runtime \<Rightarrow> bool" for H where
  step_pull: "runtime_step H r (snd (pull_image H img r))"
| step_create: "runtime_step H r (snd (create_container H cid img command env name r))"
| step_start: "runtime_step H r (snd (start_container H cid r))"
| step_stop: "runtime_step H r (snd (stop_container H cid r))"
| step_mark_failed: "runtime_step H r (snd (mark_failed H cid reason r))"
| step_discover: "runtime_step H r (snd (discover_running_containers H r))"
| step_state: "runtime_step H r (snd (container_state H cid r))"
| step_cleanup: "runtime_step H r (snd (cleanup_container H cid r))"

lemma rt_ok_operations:
  "keeps rt_ok (pull_image H img)" "keeps rt_ok (create_container H cid img command env name)" "keeps rt_ok (start_container H cid)"
  "keeps rt_ok (stop_container H cid)" "keeps rt_ok (mark_failed H cid reason)" "keeps rt_ok (discover_running_containers H)"
  "keeps rt_ok (container_state H cid)" "keeps rt_ok (cleanup_container H cid)"
  unfolding pull_image_def create_container_def start_container_def stop_container_def mark_failed_def
    discover_running_containers_def container_state_def cleanup_container_def
  by ((intro keeps_intro table_intros; simp)+)

lemma runtime_step_keeps: "runtime_step H r r' \<Longrightarrow> containers_ok (rt_containers r) \<Longrightarrow> containers_ok (rt_containers r')"
  by (erule runtime_step.cases) (simp_all add: rt_ok_operations [unfolded keeps_def, rule_format])

section \<open>Discovery\<close>

definition tracked :: "'w runtime \<Rightarrow> string \<rightharpoonup> string \<times> ContainerState" where
  "tracked r cid = map_option (\<lambda>e. (ContainerEntry_runtime_name e, ContainerEntry_state e)) (hm_get (rt_containers r) cid)"

definition live_at :: "(string \<Rightarrow> ContainerStateInfo result) \<Rightarrow> string \<Rightarrow> bool" where
  "live_at q cid \<longleftrightarrow> (case q cid of Inr info \<Rightarrow> live info | Inl _ \<Rightarrow> False)"

definition found_state :: "(string \<Rightarrow> ContainerStateInfo result) \<Rightarrow> string \<Rightarrow> ContainerState" where
  "found_state q cid = (case q cid of Inr info \<Rightarrow> if info_status info = ''running'' then State_Running else State_Created | Inl _ \<Rightarrow> State_Created)"

lemma discover_one_ok:
  assumes "rb_state b cid (rt_host r) = (q cid, rt_host r)"
  shows "\<exists>r'. discover_one H b cid r = (Inr (live_at q cid), r') \<and> rt_host r' = rt_host r \<and>
    tracked r' = (if live_at q cid then (tracked r)(cid \<mapsto> (rb_name b, found_state q cid)) else tracked r)"
proof (cases "q cid")
  case (Inl e)
  then show ?thesis using assms by (simp add: discover_one_def live_at_def tracked_def fun_eq_iff on_host_def action_defs)
next
  case (Inr info)
  then show ?thesis using assms
    by (auto simp: discover_one_def live_at_def live_def found_state_def tracked_def fun_eq_iff on_host_def on_containers_def track_def
        update_state_def with_state_def set_pid_def hmap_simps action_defs)
qed

lemma discover_each_ok:
  assumes "\<And>cid. cid \<in> set ids \<Longrightarrow> rb_state b cid w = (q cid, w)" and "rt_host r = w"
  shows "\<exists>r'. discover_each H b ids r = (Inr (filter (live_at q) ids), r') \<and> rt_host r' = w \<and>
    tracked r' = (\<lambda>cid. if cid \<in> set ids \<and> live_at q cid then Some (rb_name b, found_state q cid) else tracked r cid)"
  using assms
proof (induction ids arbitrary: r)
  case Nil
  then show ?case by (simp add: returnM_def)
next
  case (Cons cid ids)
  obtain r1 where 1: "discover_one H b cid r = (Inr (live_at q cid), r1)" "rt_host r1 = w"
    "tracked r1 = (if live_at q cid then (tracked r)(cid \<mapsto> (rb_name b, found_state q cid)) else tracked r)"
    using discover_one_ok [of b cid r q H] Cons.prems by auto
  obtain r2 where 2: "discover_each H b ids r1 = (Inr (filter (live_at q) ids), r2)" "rt_host r2 = w"
    "tracked r2 = (\<lambda>cid. if cid \<in> set ids \<and> live_at q cid then Some (rb_name b, found_state q cid) else tracked r1 cid)"
    using Cons.IH [OF Cons.prems(1) 1(2)] by auto
  have "discover_each H b (cid # ids) r = (Inr (filter (live_at q) (cid # ids)), r2)"
    using 1(1) 2(1) by (simp add: bindM_def returnM_def)
  moreover have "tracked r2 = (\<lambda>c. if c \<in> set (cid # ids) \<and> live_at q c then Some (rb_name b, found_state q c) else tracked r c)"
    unfolding 2(3) 1(3) by (auto simp: fun_eq_iff)
  ultimately show ?case using 2(2) by blast
qed

lemma discover_from_backend_ok:
  assumes "rb_list b (rt_host r) = (Inr ids, w)" "\<And>cid. cid \<in> set ids \<Longrightarrow> rb_state b cid w = (q cid, w)"
  shows "\<exists>r'. discover_from_backend H b r = (Inr (filter (live_at q) ids), r') \<and> rt_host r' = w \<and>
    tracked r' = (\<lambda>cid. if cid \<in> set ids \<and> live_at q cid then Some (rb_name b, found_state q cid) else tracked r cid)"
proof -
  have "discover_from_backend H b r = discover_each H b ids (r\<lparr>rt_host := w\<rparr>)"
    using assms(1) by (simp add: discover_from_backend_def bindM_def tryM_def on_host_def)
  moreover have tr: "tracked (r\<lparr>rt_host := w\<rparr>) = tracked r" by (simp add: tracked_def fun_eq_iff)
  ultimately show ?thesis using discover_each_ok [of ids b w q "r\<lparr>rt_host := w\<rparr>" H, OF assms(2), unfolded tr] by simp
qed

section \<open>Properties\<close>

text \<open>C33: the container table is always well formed: from a fresh runtime, through any sequence of calls and whatever
  the backends, the images and the file system do, every entry is stored under its id, a container that
  was only created has no times, a running one has a start time and a stopped or failed one an end time.\<close>

theorem container_table_wellformed:
  assumes "(runtime_step H)\<^sup>*\<^sup>* r r'" and "rt_containers r = []"
  shows "containers_ok (rt_containers r')"
  using assms
proof (induction rule: rtranclp_induct)
  case base
  then show ?case by (simp add: containers_ok_def)
next
  case (step r1 r2)
  then show ?case using runtime_step_keeps by blast
qed

text \<open>A host whose backend answers every call.\<close>

definition calm_backend :: "unit RuntimeBackend" where
  "calm_backend = \<lparr> rb_name = ''crun'', rb_handles_images = True, rb_create = (\<lambda>_ _. returnM ()), rb_create_from_image = (\<lambda>_ _ _. returnM ()),
     rb_start = (\<lambda>_. returnM ()), rb_stop = (\<lambda>_. returnM ()), rb_delete = (\<lambda>_. returnM ()), rb_list = returnM [''c1''],
     rb_state = (\<lambda>cid. returnM \<lparr> info_id = cid, info_status = ''running'', info_pid = 7, info_bundle = [] \<rparr>) \<rparr>"

definition calm_host :: "unit host" where
  "calm_host = \<lparr> data_dir = ''/d'', default_backend = calm_backend, vm_backend = failM (Err ''no vm''), oci_with_name = (\<lambda>_. Inr calm_backend),
     oci_download = (\<lambda>_. returnM calm_backend), native_init = True, image_pull = (\<lambda>_. returnM []), prepare_bundle = (\<lambda>_ _ _ _ _. returnM ()),
     remove_container_dir = (\<lambda>_. returnM ()), clock = int \<rparr>"

definition started_run :: "unit runtime" where
  "started_run = snd (start_container calm_host ''c1'' (snd (create_container calm_host ''c1'' ''alpine'' [] [] None
     \<lparr> rt_containers = [], rt_host = (), rt_ticks = 0 \<rparr>)))"

theorem container_table_wellformed_witness:
  "containers_ok (rt_containers started_run) \<and> tracked started_run ''c1'' = Some (''crun'', State_Running)"
proof -
  have "(runtime_step calm_host)\<^sup>*\<^sup>* \<lparr> rt_containers = [], rt_host = (), rt_ticks = 0 \<rparr> started_run"
    unfolding started_run_def by (meson converse_rtranclp_into_rtranclp r_into_rtranclp step_create step_start)
  moreover have "tracked started_run ''c1'' = Some (''crun'', State_Running)" by code_simp
  ultimately show ?thesis using container_table_wellformed [of calm_host "\<lparr> rt_containers = [], rt_host = (), rt_ticks = 0 \<rparr>" started_run] by simp
qed

end
