(* ===== verification/Agent_Loops.thy ===== *)
theory Agent_Loops
  imports Agent_State Container_Runtime Vpc_Protocol
begin

text \<open>
  The loops of the agent (\<open>cmd/k3rs-agent/src\<close>, the Linux build): registration, heartbeat, reconnect,
  recovery of containers at start, pod sync with the life cycle of a pod, and route sync. The API
  server, the VPC daemon's socket and the network namespaces are reached through parameters on the
  world of the container runtime. The life cycle of a pod is a task of its own, so a pass of the pod
  sync only queues it. The lemmas show that no pod has two tasks and what becomes of
  a pod whose image cannot be pulled; recovery and route sync have theories of their own for their lemmas.
\<close>

section \<open>The outside\<close>

text \<open>
  A request to the server fails, or is answered; \<open>None\<close> is a body that does not parse as what was
  asked for. \<open>http_register\<close> is \<open>try_register\<close>: the request, the answer and the certificate files.
\<close>

record 'w outside =
  http_heartbeat :: "('w, bool) act"
  http_register :: "('w, string \<times> u16) act"
  http_pods :: "('w, Pod list option) act"
  http_namespaces :: "('w, string list option) act"
  http_services :: "string \<Rightarrow> ('w, Service list option) act"
  http_endpoints :: "string \<Rightarrow> ('w, Endpoint list option) act"
  http_peerings :: "('w, VpcPeering list option) act"
  http_put_status :: "string \<Rightarrow> string \<Rightarrow> PodStatus \<Rightarrow> ('w, unit) act"
  http_put_vpc :: "string \<Rightarrow> string \<Rightarrow> string \<Rightarrow> string \<Rightarrow> ('w, unit) act"
  vpc_socket :: "'w \<Rightarrow> bool"
  vpc_request :: "VpcRequest \<Rightarrow> ('w, VpcResponse) act"
  setup_pod_network :: "string \<Rightarrow> string \<Rightarrow> string \<Rightarrow> u32 \<Rightarrow> ('w, unit) act"
  teardown_pod_network :: "string \<Rightarrow> ('w, unit) act"
  container_pid :: "string \<Rightarrow> 'w \<Rightarrow> u32 option"

record ('db, 'lb, 'w) agent =
  ag_cache :: AgentStateCache
  ag_connectivity :: ConnectivityState
  ag_db :: 'db
  ag_proxy :: "'lb ServiceProxy"
  ag_dns :: DnsServer
  ag_runtime :: "'w runtime"
  ag_in_flight :: "string list"
  ag_tasks :: "Pod list"

definition on_runtime :: "('w runtime, 'a) act \<Rightarrow> (('db, 'lb, 'w) agent, 'a) act" where
  "on_runtime m a = (let (x, r) = m (ag_runtime a) in (x, a\<lparr>ag_runtime := r\<rparr>))"

definition on_world :: "('w, 'a) act \<Rightarrow> (('db, 'lb, 'w) agent, 'a) act" where
  "on_world m = on_runtime (on_host m)"

definition or_default :: "'a list option \<Rightarrow> 'a list" where
  "or_default body = (case body of Some xs \<Rightarrow> xs | None \<Rightarrow> [])"

definition save_cache :: "('db, 'v) agent_db \<Rightarrow> 'v agent_serde \<Rightarrow> (('db, 'lb, 'w) agent, unit) act" where
  "save_cache A C a = (let (_, db) = agent_save A C (ag_cache a) (ag_db a) in (Inr (), a\<lparr>ag_db := db\<rparr>))"

section \<open>Registration, heartbeat, reconnect\<close>

definition try_connect :: "'w outside \<Rightarrow> string option \<Rightarrow> ('w, (string \<times> u16) option) act" where
  "try_connect X cached_node_id =
     bindM (case cached_node_id of
         None \<Rightarrow> returnM False
       | Some _ \<Rightarrow> bindM (tryM (http_heartbeat X)) (\<lambda>r. returnM (r = Inr True))) (\<lambda>known.
     if known then returnM None else bindM (http_register X) (\<lambda>identity. returnM (Some identity)))"

text \<open>One turn of the heartbeat loop after its sleep; the result is the new failure count.\<close>

definition heartbeat_turn :: "'w outside \<Rightarrow> u32 \<Rightarrow> (('db, 'lb, 'w) agent, u32) act" where
  "heartbeat_turn X fail_count =
     bindM (getM (\<lambda>a. cache_node_id (ag_cache a))) (\<lambda>node_id.
       if node_id = None then returnM fail_count
       else bindM (tryM (on_world (http_heartbeat X))) (\<lambda>r.
         if r = Inr True then
           bindM (modifyM (\<lambda>a. a\<lparr>ag_connectivity := set_connected (ag_connectivity a)\<rparr>)) (\<lambda>_. returnM 0)
         else
           bindM (modifyM (\<lambda>a. a\<lparr>ag_connectivity := set_reconnecting (fail_count + 1) (ag_connectivity a)\<rparr>)) (\<lambda>_. returnM (fail_count + 1))))"

definition heartbeat_delay :: "u32 \<Rightarrow> u64" where
  "heartbeat_delay fail_count = (if fail_count = 0 then 10 else backoff_duration (fail_count - 1))"

definition adopt_identity :: "('db, 'v) agent_db \<Rightarrow> 'v agent_serde \<Rightarrow> (string \<times> u16) option \<Rightarrow> (('db, 'lb, 'w) agent, unit) act" where
  "adopt_identity A C new_identity =
     (case new_identity of
        None \<Rightarrow> returnM ()
      | Some (node_id, api_port) \<Rightarrow>
          bindM (modifyM (\<lambda>a. a\<lparr>ag_cache := (ag_cache a)\<lparr>cache_node_id := Some node_id, cache_agent_api_port := Some api_port\<rparr>\<rparr>)) (\<lambda>_.
          save_cache A C))"

text \<open>One turn of the reconnect loop; the result is the new attempt count.\<close>

definition reconnect_turn :: "('db, 'v) agent_db \<Rightarrow> 'v agent_serde \<Rightarrow> 'w outside \<Rightarrow> u32 \<Rightarrow> (('db, 'lb, 'w) agent, u32) act" where
  "reconnect_turn A C X attempt =
     bindM (getM id) (\<lambda>a.
       if is_connected (ag_connectivity a) then returnM 0
       else bindM (tryM (on_world (try_connect X (cache_node_id (ag_cache a))))) (\<lambda>r. case r of
           Inr new_identity \<Rightarrow>
             bindM (adopt_identity A C new_identity) (\<lambda>_.
             bindM (modifyM (\<lambda>a. a\<lparr>ag_connectivity := set_connected (ag_connectivity a)\<rparr>)) (\<lambda>_. returnM 0))
         | Inl _ \<Rightarrow> returnM (attempt + 1)))"

text \<open>Phases A to C of \<open>main\<close>: the state loaded from the store, served, and the first attempt to connect.\<close>

definition agent_boot :: "('b, 'lb) pingora \<Rightarrow> ('db, 'v) agent_db \<Rightarrow> 'v agent_serde \<Rightarrow> 'w outside \<Rightarrow> string \<Rightarrow> DateTime \<Rightarrow> 'db \<Rightarrow> 'w runtime \<Rightarrow>
    ('db, 'lb, 'w) agent" where
  "agent_boot P A C X node_name now db runtime =
     (let cached = (case agent_load A C db of Inr c \<Rightarrow> c | Inl _ \<Rightarrow> None);
          a = \<lparr> ag_cache = (case cached of Some c \<Rightarrow> c | None \<Rightarrow> AgentStateCache_new node_name now), ag_connectivity = Connecting, ag_db = db,
                ag_proxy = (case cached of Some c \<Rightarrow> update_routes P (cache_services c) (cache_endpoints c) [] ServiceProxy_new | None \<Rightarrow> ServiceProxy_new),
                ag_dns = (case cached of Some c \<Rightarrow> update_records (cache_services c) DnsServer_new | None \<Rightarrow> DnsServer_new),
                ag_runtime = runtime, ag_in_flight = [], ag_tasks = [] \<rparr>
      in snd (bindM (tryM (on_world (try_connect X (cache_node_id (ag_cache a))))) (\<lambda>r. case r of
            Inr new_identity \<Rightarrow>
              bindM (modifyM (\<lambda>a. a\<lparr>ag_connectivity := set_connected (ag_connectivity a)\<rparr>)) (\<lambda>_. adopt_identity A C new_identity)
          | Inl _ \<Rightarrow> modifyM (\<lambda>a. a\<lparr>ag_connectivity := set_offline (ag_connectivity a)\<rparr>)) a))"

section \<open>Recovery\<close>

definition put_status :: "'w outside \<Rightarrow> Pod \<Rightarrow> PodStatus \<Rightarrow> ('w runtime, unit) act" where
  "put_status X pod st = ignoreM (on_host (http_put_status X (Pod_namespace pod) (Pod_name pod) st))"

definition desired_pods :: "'w outside \<Rightarrow> Pod list \<Rightarrow> ('w runtime, Pod list) act" where
  "desired_pods X cached_pods =
     bindM (tryM (on_host (http_pods X))) (\<lambda>r. returnM (case r of Inr body \<Rightarrow> or_default body | Inl _ \<Rightarrow> cached_pods))"

text \<open>A later pod with the same id overrides an earlier one in the map of desired ids.\<close>

definition recover_one :: "'w host \<Rightarrow> 'w outside \<Rightarrow> Pod list \<Rightarrow> string \<Rightarrow> ('w runtime, unit) act" where
  "recover_one H X desired cid =
     (case find (\<lambda>p. Pod_id p = cid) (rev desired) of
        Some pod \<Rightarrow> put_status X pod Pod_Running
      | None \<Rightarrow> ignoreM (cleanup_container H cid))"

definition run_recovery :: "'w host \<Rightarrow> 'w outside \<Rightarrow> string option \<Rightarrow> Pod list \<Rightarrow> ('w runtime, unit) act" where
  "run_recovery H X node_id cached_pods =
     bindM (tryM (discover_running_containers H)) (\<lambda>r.
       let discovered = (case r of Inr ids \<Rightarrow> ids | Inl _ \<Rightarrow> [])
       in if node_id \<noteq> None then
            bindM (desired_pods X cached_pods) (\<lambda>desired. forM discovered (recover_one H X desired))
          else forM discovered (\<lambda>cid. ignoreM (cleanup_container H cid)))"

section \<open>Pod sync\<close>

definition short_id :: "Pod \<Rightarrow> string" where
  "short_id pod = take 8 (Pod_id pod)"

definition detach :: "'w host \<Rightarrow> 'w outside \<Rightarrow> Pod \<Rightarrow> ('w runtime, unit) act" where
  "detach H X pod =
     bindM (getM (backend_name_for H (Pod_id pod))) (\<lambda>name.
       if name = ''vm'' then ignoreM (on_host (vpc_detach_tap (vpc_request X) (''tap-'' @ short_id pod)))
       else ignoreM (on_host (vpc_detach_netkit (vpc_request X) (''nk-'' @ short_id pod))))"

definition vpc_of_pod :: "Pod \<Rightarrow> string" where
  "vpc_of_pod pod =
     (case Pod_vpc_name pod of Some v \<Rightarrow> v | None \<Rightarrow> (case PodSpec_vpc (Pod_spec pod) of Some v \<Rightarrow> v | None \<Rightarrow> ''default''))"

definition retire :: "'w host \<Rightarrow> 'w outside \<Rightarrow> Pod \<Rightarrow> ('w runtime, unit) act" where
  "retire H X pod =
     bindM (detach H X pod) (\<lambda>_.
     bindM (ignoreM (on_host (teardown_pod_network X (Pod_id pod)))) (\<lambda>_.
     bindM (ignoreM (on_host (vpc_release (vpc_request X) (Pod_id pod) (vpc_of_pod pod)))) (\<lambda>_.
     put_status X pod Pod_Failed)))"

definition check_running_pods :: "'w host \<Rightarrow> 'w outside \<Rightarrow> Pod list \<Rightarrow> ('w runtime, unit) act" where
  "check_running_pods H X pods =
     forM (filter (\<lambda>p. Pod_status p = Pod_Running) pods) (\<lambda>pod.
       bindM (tryM (container_state H (Pod_id pod))) (\<lambda>st. case st of
           Inr info \<Rightarrow> whenM (over info) (retire H X pod)
         | Inl _ \<Rightarrow> retire H X pod))"

definition to_schedule :: "Pod \<Rightarrow> bool" where
  "to_schedule pod \<longleftrightarrow> Pod_status pod = Pod_Scheduled \<or> Pod_status pod = Pod_ContainerCreating"

definition schedule_new_pods :: "bool \<Rightarrow> 'w outside \<Rightarrow> Pod list \<Rightarrow> (('db, 'lb, 'w) agent, unit) act" where
  "schedule_new_pods has_runtime X pods =
     forM (filter to_schedule pods) (\<lambda>pod.
       if \<not> has_runtime then on_runtime (put_status X pod Pod_Failed)
       else modifyM (\<lambda>a. if Pod_id pod \<in> set (ag_in_flight a) then a
         else a\<lparr>ag_in_flight := Pod_id pod # ag_in_flight a, ag_tasks := ag_tasks a @ [pod]\<rparr>))"

text \<open>One pass of the pod sync loop; \<open>now\<close> is the clock it reads. Without a runtime only the statuses are reported.\<close>

definition pod_sync_pass :: "('db, 'v) agent_db \<Rightarrow> 'v agent_serde \<Rightarrow> bool \<Rightarrow> 'w host \<Rightarrow> 'w outside \<Rightarrow> DateTime \<Rightarrow> (('db, 'lb, 'w) agent, unit) act" where
  "pod_sync_pass A C has_runtime H X now =
     bindM (getM id) (\<lambda>a.
       if \<not> is_connected (ag_connectivity a) then returnM ()
       else if cache_node_id (ag_cache a) = None then returnM ()
       else bindM (tryM (on_world (http_pods X))) (\<lambda>r. case r of
           Inr (Some pods) \<Rightarrow>
             bindM (modifyM (\<lambda>a. a\<lparr>ag_cache := (ag_cache a)\<lparr>cache_pods := pods, cache_last_synced_at := now\<rparr>\<rparr>)) (\<lambda>_.
             bindM (save_cache A C) (\<lambda>_.
             bindM (whenM has_runtime (on_runtime (check_running_pods H X pods))) (\<lambda>_.
             schedule_new_pods has_runtime X pods)))
         | _ \<Rightarrow> returnM ()))"

definition land :: "string \<Rightarrow> (('db, 'lb, 'w) agent, unit) act" where
  "land cid = modifyM (\<lambda>a. a\<lparr>ag_in_flight := filter (\<lambda>i. i \<noteq> cid) (ag_in_flight a)\<rparr>)"

definition transient :: "string \<Rightarrow> bool" where
  "transient msg \<longleftrightarrow> contains msg ''os error 2'' \<or> contains msg ''Connection refused'' \<or> contains msg ''socket not found''"

definition pod_image :: "Pod \<Rightarrow> string" where
  "pod_image pod = (case PodSpec_containers (Pod_spec pod) of c # _ \<Rightarrow> ContainerSpec_image c | [] \<Rightarrow> ''alpine:latest'')"

definition pod_command :: "Pod \<Rightarrow> string list" where
  "pod_command pod = (case PodSpec_containers (Pod_spec pod) of c # _ \<Rightarrow> ContainerSpec_command c @ ContainerSpec_args c | [] \<Rightarrow> [])"

definition pod_env :: "Pod \<Rightarrow> string \<Rightarrow> string \<Rightarrow> labels" where
  "pod_env pod ip4 ip6 =
     hm_insert ''K3RS_POD_IPV6'' ip6 (hm_insert ''K3RS_POD_IP'' ip4
       (case PodSpec_containers (Pod_spec pod) of c # _ \<Rightarrow> ContainerSpec_env c | [] \<Rightarrow> []))"

definition attach_oci :: "'w host \<Rightarrow> 'w outside \<Rightarrow> Pod \<Rightarrow> string \<times> string \<times> u16 \<times> string \<Rightarrow> ('w runtime, unit) act" where
  "attach_oci H X pod = (\<lambda>(ip4, ip6, vid, cidr).
     bindM (getM (\<lambda>r. (backend_name_for H (Pod_id pod) r, container_pid X (Pod_id pod) (rt_host r)))) (\<lambda>(name, pid).
       if name = ''vm'' then returnM ()
       else case pid of
         None \<Rightarrow> returnM ()
       | Some pid \<Rightarrow>
           bindM (ignoreM (on_host (setup_pod_network X (Pod_id pod) ip6 ip4 pid))) (\<lambda>_.
           ignoreM (on_host (vpc_attach_netkit (vpc_request X) (''nk-'' @ short_id pod) ip4 ip6 vid cidr pid)))))"

definition attach_vm :: "'w host \<Rightarrow> 'w outside \<Rightarrow> Pod \<Rightarrow> string \<times> string \<times> u16 \<times> string \<Rightarrow> ('w runtime, unit) act" where
  "attach_vm H X pod = (\<lambda>(ip4, ip6, vid, cidr).
     bindM (getM (backend_name_for H (Pod_id pod))) (\<lambda>name.
       whenM (name = ''vm'') (ignoreM (on_host (vpc_attach_tap (vpc_request X) (''tap-'' @ short_id pod) ip4 ip6 vid cidr)))))"

definition run_pod_lifecycle :: "'w host \<Rightarrow> 'w outside \<Rightarrow> Pod \<Rightarrow> (('db, 'lb, 'w) agent, unit) act" where
  "run_pod_lifecycle H X pod =
     (let vpc_name = (case PodSpec_vpc (Pod_spec pod) of Some v \<Rightarrow> v | None \<Rightarrow> ''default'');
          failed = on_runtime (put_status X pod Pod_Failed)
      in bindM (tryM (on_world (vpc_allocate (vpc_socket X) (vpc_request X) (Pod_id pod) vpc_name))) (\<lambda>r. case r of
           Inl (Err msg) \<Rightarrow> bindM (whenM (\<not> transient msg) failed) (\<lambda>_. land (Pod_id pod))
         | Inr alloc \<Rightarrow>
             bindM (tryM (on_runtime (pull_image H (pod_image pod)))) (\<lambda>r. case r of
               Inl _ \<Rightarrow> failed
             | Inr _ \<Rightarrow>
                 bindM (tryM (on_runtime (create_container H (Pod_id pod) (pod_image pod) (pod_command pod)
                     (pod_env pod (fst alloc) (fst (snd alloc))) (PodSpec_runtime (Pod_spec pod))))) (\<lambda>r. case r of
                   Inl _ \<Rightarrow> failed
                 | Inr _ \<Rightarrow>
                     bindM (on_runtime (attach_oci H X pod alloc)) (\<lambda>_.
                     bindM (tryM (on_runtime (start_container H (Pod_id pod)))) (\<lambda>r. case r of
                       Inl _ \<Rightarrow>
                         bindM (land (Pod_id pod)) (\<lambda>_.
                         bindM (ignoreM (on_runtime (cleanup_container H (Pod_id pod)))) (\<lambda>_. failed))
                     | Inr _ \<Rightarrow>
                         bindM (on_runtime (attach_vm H X pod alloc)) (\<lambda>_.
                         bindM (land (Pod_id pod)) (\<lambda>_.
                         bindM (on_runtime (put_status X pod Pod_Running)) (\<lambda>_.
                         on_world (ignoreM (http_put_vpc X (Pod_namespace pod) (Pod_name pod) (fst (snd alloc)) vpc_name)))))))))))"

section \<open>Route sync\<close>

fun fetch_namespaces :: "'w outside \<Rightarrow> string list \<Rightarrow> ('w, Service list \<times> Endpoint list) act" where
  "fetch_namespaces X [] = returnM ([], [])"
| "fetch_namespaces X (ns # rest) =
     bindM (tryM (http_services X ns)) (\<lambda>services. case services of
         Inl _ \<Rightarrow> fetch_namespaces X rest
       | Inr services \<Rightarrow>
           bindM (tryM (http_endpoints X ns)) (\<lambda>endpoints. case endpoints of
               Inl _ \<Rightarrow> fetch_namespaces X rest
             | Inr endpoints \<Rightarrow>
                 bindM (fetch_namespaces X rest) (\<lambda>(ss, es). returnM (or_default services @ ss, or_default endpoints @ es))))"

record vpc_maps =
  vpc_pod_ips :: "(string, string list) hmap"
  ip_to_vpc :: "(string, string) hmap"
  vpc_name_to_id :: "(string, u16) hmap"

definition add_routes :: "string \<Rightarrow> RouteEntry list \<Rightarrow> vpc_maps \<Rightarrow> vpc_maps" where
  "add_routes name routes m = m\<lparr>
     ip_to_vpc := fold (\<lambda>e t. hm_insert (RouteEntry_next_hop e) name (hm_insert (RouteEntry_destination e) name t)) routes (ip_to_vpc m),
     vpc_pod_ips := hm_insert name (concat (map (\<lambda>e. [RouteEntry_destination e, RouteEntry_next_hop e]) routes)) (vpc_pod_ips m)\<rparr>"

fun fetch_vpcs :: "'w outside \<Rightarrow> VpcInfo list \<Rightarrow> vpc_maps \<Rightarrow> ('w, vpc_maps) act" where
  "fetch_vpcs X [] m = returnM m"
| "fetch_vpcs X (v # vs) m =
     (let m = m\<lparr>vpc_name_to_id := hm_insert (VpcInfo_name v) (VpcInfo_vpc_id v) (vpc_name_to_id m)\<rparr>
      in bindM (tryM (vpc_get_routes (vpc_request X) (VpcInfo_vpc_id v))) (\<lambda>r.
           fetch_vpcs X vs (case r of Inr routes \<Rightarrow> add_routes (VpcInfo_name v) routes m | Inl _ \<Rightarrow> m)))"

definition no_vpcs :: vpc_maps where
  "no_vpcs = \<lparr> vpc_pod_ips = [], ip_to_vpc = [], vpc_name_to_id = [] \<rparr>"

definition fetch_vpc_maps :: "'w outside \<Rightarrow> ('w, vpc_maps) act" where
  "fetch_vpc_maps X =
     bindM (tryM (vpc_list_vpcs (vpc_request X))) (\<lambda>r. case r of
         Inr vpcs \<Rightarrow> fetch_vpcs X vpcs no_vpcs
       | Inl _ \<Rightarrow> returnM no_vpcs)"

definition serve :: "('b, 'lb) pingora \<Rightarrow> Service list \<Rightarrow> Endpoint list \<Rightarrow> vpc_maps \<Rightarrow> VpcPeering list \<Rightarrow> ('db, 'lb, 'w) agent \<Rightarrow> ('db, 'lb, 'w) agent" where
  "serve P services endpoints m peerings a = a\<lparr>
     ag_proxy := update_routes P services endpoints (vpc_pod_ips m) (ag_proxy a),
     ag_dns := update_peerings peerings (update_records_vpc services (ip_to_vpc m) (vpc_name_to_id m) (update_records services (ag_dns a)))\<rparr>"

definition route_sync_pass :: "('b, 'lb) pingora \<Rightarrow> ('db, 'v) agent_db \<Rightarrow> 'v agent_serde \<Rightarrow> 'w outside \<Rightarrow> DateTime \<Rightarrow> (('db, 'lb, 'w) agent, unit) act" where
  "route_sync_pass P A C X now =
     bindM (getM (\<lambda>a. is_connected (ag_connectivity a))) (\<lambda>connected.
       if \<not> connected then returnM ()
       else bindM (tryM (on_world (http_namespaces X))) (\<lambda>r. case r of
           Inl _ \<Rightarrow> returnM ()
         | Inr body \<Rightarrow>
             let ns_names = (if or_default body = [] then [''default''] else or_default body) in
             bindM (on_world (fetch_namespaces X ns_names)) (\<lambda>(services, endpoints).
             bindM (on_world (fetch_vpc_maps X)) (\<lambda>m.
             bindM (tryM (on_world (http_peerings X))) (\<lambda>r.
               let peerings = (case r of Inr body \<Rightarrow> or_default body | Inl _ \<Rightarrow> [])
               in bindM (modifyM (serve P services endpoints m peerings)) (\<lambda>_.
                  bindM (modifyM (\<lambda>a. a\<lparr>ag_cache := (ag_cache a)\<lparr>cache_services := services, cache_endpoints := endpoints, cache_last_synced_at := now\<rparr>\<rparr>)) (\<lambda>_.
                  save_cache A C)))))))"

section \<open>The queue of pods\<close>

text \<open>The loops as steps of the agent. A step of a task takes a pod from the queue, whatever its place, since tasks are scheduled freely.\<close>

inductive agent_step :: "('b, 'lb) pingora \<Rightarrow> ('db, 'v) agent_db \<Rightarrow> 'v agent_serde \<Rightarrow> bool \<Rightarrow> 'w host \<Rightarrow> 'w outside \<Rightarrow>
    ('db, 'lb, 'w) agent \<Rightarrow> ('db, 'lb, 'w) agent \<Rightarrow> bool" for P A C has_runtime H X where
  step_pod_sync: "agent_step P A C has_runtime H X a (snd (pod_sync_pass A C has_runtime H X now a))"
| step_task: "ag_tasks a = before @ pod # after \<Longrightarrow>
    agent_step P A C has_runtime H X a (snd (run_pod_lifecycle H X pod (a\<lparr>ag_tasks := before @ after\<rparr>)))"
| step_heartbeat: "agent_step P A C has_runtime H X a (snd (heartbeat_turn X fail_count a))"
| step_reconnect: "agent_step P A C has_runtime H X a (snd (reconnect_turn A C X attempt a))"
| step_route_sync: "agent_step P A C has_runtime H X a (snd (route_sync_pass P A C X now a))"

inductive_cases agent_stepE: "agent_step P A C has_runtime H X a a'"

text \<open>Properties of the queue alone, kept by everything that only touches the rest of the agent.\<close>

definition queue :: "(Pod list \<Rightarrow> string list \<Rightarrow> bool) \<Rightarrow> ('db, 'lb, 'w) agent \<Rightarrow> bool" where
  "queue J a \<longleftrightarrow> J (ag_tasks a) (ag_in_flight a)"

lemma queue_outside [keeps_intro]:
  "keeps (queue J) (on_runtime m)" "keeps (queue J) (on_world n)" "keeps (queue J) (save_cache A C)"
  by (simp_all add: keeps_def queue_def on_world_def on_runtime_def save_cache_def split: prod.split)

lemma queue_modify:
  "(\<And>a. ag_tasks (f a) = ag_tasks a \<and> ag_in_flight (f a) = ag_in_flight a) \<Longrightarrow> keeps (queue J) (modifyM f)"
  by (simp add: keeps_def queue_def modifyM_def)

lemma queue_land [keeps_intro]: "(\<And>ts fs. J ts fs \<Longrightarrow> J ts (filter (\<lambda>i. i \<noteq> cid) fs)) \<Longrightarrow> keeps (queue J) (land cid)"
  by (simp add: keeps_def queue_def land_def modifyM_def)

lemma queue_adopt [keeps_intro]: "keeps (queue J) (adopt_identity A C identity)"
  unfolding adopt_identity_def by (intro keeps_intro queue_modify) simp

lemma queue_loops:
  "keeps (queue J) (heartbeat_turn X n)" "keeps (queue J) (reconnect_turn A C X m)" "keeps (queue J) (route_sync_pass P A C X now)"
  unfolding heartbeat_turn_def reconnect_turn_def route_sync_pass_def Let_def
  by (intro keeps_intro queue_modify; simp add: serve_def)+

lemma queue_pods:
  assumes "\<And>ts fs pod. J ts fs \<Longrightarrow> Pod_id pod \<notin> set fs \<Longrightarrow> J (ts @ [pod]) (Pod_id pod # fs)"
  shows "keeps (queue J) (pod_sync_pass A C has_runtime H X now)"
proof -
  have "keeps (queue J) (modifyM (\<lambda>a. if Pod_id pod \<in> set (ag_in_flight a) then a
      else a\<lparr>ag_in_flight := Pod_id pod # ag_in_flight a, ag_tasks := ag_tasks a @ [pod]\<rparr>))" for pod
    using assms by (simp add: keeps_def queue_def modifyM_def)
  then have "keeps (queue J) (schedule_new_pods has_runtime X pods)" for pods
    unfolding schedule_new_pods_def by (intro keeps_intro)
  then show ?thesis unfolding pod_sync_pass_def by (intro keeps_intro queue_modify) simp_all
qed

lemma queue_lifecycle:
  assumes "\<And>ts fs. J ts fs \<Longrightarrow> J ts (filter (\<lambda>i. i \<noteq> Pod_id pod) fs)"
  shows "keeps (queue J) (run_pod_lifecycle H X pod)"
proof -
  have land: "keeps (queue J) (land (Pod_id pod))" by (rule queue_land) (rule assms)
  show ?thesis unfolding run_pod_lifecycle_def Let_def
    by (intro keeps_intro land) (auto intro!: keeps_intro land split: error.split)
qed

lemma queue_step:
  assumes step: "agent_step P A C has_runtime H X a a'" and "queue J a"
    and "\<And>ts fs pod. J ts fs \<Longrightarrow> Pod_id pod \<notin> set fs \<Longrightarrow> J (ts @ [pod]) (Pod_id pod # fs)"
    and task: "\<And>before pod after. ag_tasks a = before @ pod # after \<Longrightarrow>
      \<exists>J'. J' (before @ after) (ag_in_flight a) \<and> (\<forall>ts fs. J' ts fs \<longrightarrow> J ts fs \<and> J' ts (filter (\<lambda>i. i \<noteq> Pod_id pod) fs))"
  shows "queue J a'"
  using step
proof cases
  case (step_task before pod after)
  from task [OF step_task(2)] obtain J' where J': "J' (before @ after) (ag_in_flight a)"
    "\<And>ts fs. J' ts fs \<Longrightarrow> J ts fs \<and> J' ts (filter (\<lambda>i. i \<noteq> Pod_id pod) fs)" by blast
  have "queue J' (a\<lparr>ag_tasks := before @ after\<rparr>)" using J'(1) by (simp add: queue_def)
  then have "queue J' a'" using queue_lifecycle [of J' pod H X] J'(2) step_task(1) by (auto simp: keeps_def)
  then show ?thesis using J'(2) by (simp add: queue_def)
next
  case step_pod_sync
  then show ?thesis using keeps_snd [OF queue_pods [of J, OF assms(3)] assms(2)] by simp
qed (use assms(2) in \<open>simp_all add: keeps_snd queue_loops\<close>)

definition one_task :: "Pod list \<Rightarrow> string list \<Rightarrow> bool" where
  "one_task ts fs \<longleftrightarrow> distinct (map Pod_id ts) \<and> distinct fs \<and> Pod_id ` set ts \<subseteq> set fs"

lemma one_task_step:
  assumes "agent_step P A C has_runtime H X a a'" "queue one_task a"
  shows "queue one_task a'"
proof (rule queue_step [OF assms])
  show "one_task (ts @ [pod]) (Pod_id pod # fs)" if "one_task ts fs" "Pod_id pod \<notin> set fs" for ts fs pod
    using that by (auto simp: one_task_def)
  show "\<exists>J'. J' (before @ after) (ag_in_flight a) \<and> (\<forall>ts fs. J' ts fs \<longrightarrow> one_task ts fs \<and> J' ts (filter (\<lambda>i. i \<noteq> Pod_id pod) fs))"
    if "ag_tasks a = before @ pod # after" for before pod after
    using assms(2) that
    by (intro exI [of _ "\<lambda>ts fs. one_task ts fs \<and> Pod_id pod \<notin> Pod_id ` set ts"]) (auto simp: queue_def one_task_def subset_eq image_iff)
qed

lemma one_task_run: "(agent_step P A C has_runtime H X)\<^sup>*\<^sup>* a a' \<Longrightarrow> queue one_task a \<Longrightarrow> queue one_task a'"
  by (induction rule: rtranclp_induct) (auto intro: one_task_step)

lemma boot_queue: "ag_tasks (agent_boot P A C X node_name now db rt) = [] \<and> ag_in_flight (agent_boot P A C X node_name now db rt) = []"
proof -
  let ?J = "\<lambda>ts fs. ts = [] \<and> fs = []"
  let ?first = "\<lambda>a. bindM (tryM (on_world (try_connect X (cache_node_id (ag_cache a))))) (\<lambda>r. case r of
            Inr new_identity \<Rightarrow>
              bindM (modifyM (\<lambda>a. a\<lparr>ag_connectivity := set_connected (ag_connectivity a)\<rparr>)) (\<lambda>_. adopt_identity A C new_identity)
          | Inl _ \<Rightarrow> modifyM (\<lambda>a. a\<lparr>ag_connectivity := set_offline (ag_connectivity a)\<rparr>))"
  have "keeps (queue ?J) (?first a)" for a :: "('a, 'b, 'c) agent"
    by (intro keeps_intro queue_modify) simp_all
  then have "queue ?J a \<Longrightarrow> queue ?J (snd (?first a a))" for a :: "('a, 'b, 'c) agent"
    by (rule keeps_snd)
  moreover have "\<exists>a. agent_boot P A C X node_name now db rt = snd (?first a a) \<and> queue ?J a"
    unfolding agent_boot_def Let_def by (intro exI conjI, rule refl) (simp add: queue_def)
  ultimately have "queue ?J (agent_boot P A C X node_name now db rt)" by (elim exE conjE) (rule ssubst, assumption, blast)
  then show ?thesis by (simp add: queue_def)
qed

lemma boot_one_task: "queue one_task (agent_boot P A C X node_name now db rt)"
  using boot_queue [of P A C X node_name now db rt] by (simp add: queue_def one_task_def)

text \<open>A pod that is in flight without a task is never queued again.\<close>

definition orphan :: "string \<Rightarrow> Pod list \<Rightarrow> string list \<Rightarrow> bool" where
  "orphan cid ts fs \<longleftrightarrow> cid \<in> set fs \<and> cid \<notin> Pod_id ` set ts"

lemma orphan_step:
  assumes "agent_step P A C has_runtime H X a a'" "queue (orphan cid) a"
  shows "queue (orphan cid) a'"
proof (rule queue_step [OF assms])
  show "orphan cid (ts @ [pod]) (Pod_id pod # fs)" if "orphan cid ts fs" "Pod_id pod \<notin> set fs" for ts fs pod
    using that by (auto simp: orphan_def)
  show "\<exists>J'. J' (before @ after) (ag_in_flight a) \<and> (\<forall>ts fs. J' ts fs \<longrightarrow> orphan cid ts fs \<and> J' ts (filter (\<lambda>i. i \<noteq> Pod_id pod) fs))"
    if "ag_tasks a = before @ pod # after" for before pod after
    using assms(2) that by (intro exI [of _ "orphan cid"]) (auto simp: queue_def orphan_def)
qed

lemma orphan_run: "(agent_step P A C has_runtime H X)\<^sup>*\<^sup>* a a' \<Longrightarrow> queue (orphan cid) a \<Longrightarrow> queue (orphan cid) a'"
  by (induction rule: rtranclp_induct) (auto intro: orphan_step)

section \<open>Properties of the queue\<close>


text \<open>A node without images: the server lists one pod twice, the daemon allocates, and every pull fails.\<close>

definition agent_pod :: "string \<Rightarrow> Pod" where
  "agent_pod i = \<lparr> Pod_id = i, Pod_name = i, Pod_namespace = ''default'',
     Pod_spec = \<lparr> PodSpec_containers = [], PodSpec_runtime = None, PodSpec_node_affinity = [], PodSpec_tolerations = [], PodSpec_volumes = [], PodSpec_vpc = None \<rparr>,
     Pod_status = Pod_Scheduled, Pod_status_message = None, Pod_container_id = None, Pod_node_name = Some ''n1'', Pod_labels = [], Pod_owner_ref = None,
     Pod_restart_count = 0, Pod_runtime_info = None, Pod_ghost_ipv6 = None, Pod_vpc_name = None, Pod_created_at = 0 \<rparr>"

definition lab :: "unit outside" where
  "lab = \<lparr> http_heartbeat = returnM True, http_register = returnM (''id1'', 81), http_pods = returnM (Some [agent_pod ''p1'', agent_pod ''p1'']),
     http_namespaces = returnM (Some [''default'']), http_services = (\<lambda>_. returnM (Some [http_service ''web'' ''10.43.0.9''])),
     http_endpoints = (\<lambda>_. returnM (Some [])), http_peerings = returnM (Some []), http_put_status = (\<lambda>_ _ _. returnM ()),
     http_put_vpc = (\<lambda>_ _ _ _. returnM ()), vpc_socket = (\<lambda>_. True),
     vpc_request = (\<lambda>req. case req of Allocate _ _ \<Rightarrow> returnM (Allocated ''10.0.0.2'' ''fd00::2'' 1 ''10.0.0.0/24'') | _ \<Rightarrow> failM (Err ''no'')),
     setup_pod_network = (\<lambda>_ _ _ _. returnM ()), teardown_pod_network = (\<lambda>_. returnM ()), container_pid = (\<lambda>_ _. None) \<rparr>"

definition null_agent_db :: "(unit, agent_value) agent_db" where
  "null_agent_db = \<lparr> adb_get = (\<lambda>_ _. Inr None), adb_write = (\<lambda>db _. (Inr (), db)) \<rparr>"

definition imageless_host :: "unit host" where
  "imageless_host = calm_host\<lparr>default_backend := calm_backend\<lparr>rb_handles_images := False\<rparr>, image_pull := (\<lambda>_. failM (Err ''no such image''))\<rparr>"

definition lab_boot :: "(unit, string list, unit) agent" where
  "lab_boot = agent_boot list_pingora null_agent_db tag_agent_serde lab ''n1'' 0 () \<lparr> rt_containers = [], rt_host = (), rt_ticks = 0 \<rparr>"

definition lab_synced :: "(unit, string list, unit) agent" where
  "lab_synced = snd (pod_sync_pass null_agent_db tag_agent_serde True imageless_host lab 1 lab_boot)"

lemma lab_synced_queue: "ag_tasks lab_synced = [agent_pod ''p1'']" "ag_in_flight lab_synced = [''p1'']"
  by code_simp+

lemma lab_synced_run: "(agent_step list_pingora null_agent_db tag_agent_serde True imageless_host lab)\<^sup>*\<^sup>* lab_boot lab_synced"
  unfolding lab_synced_def by (intro r_into_rtranclp step_pod_sync)


text \<open>An image that cannot be pulled costs the pod its retries: when the allocation of a queued pod succeeds and the
  pull fails, the pod stays in flight, and in every state the agent reaches from there it has no task for
  that pod, however often the server asks for it again.\<close>

theorem failed_pull_never_retried:
  assumes run: "(agent_step P A C has_runtime H X)\<^sup>*\<^sup>* (agent_boot P A C X node_name now db rt) a" and queued: "ag_tasks a = before @ pod # after"
    and alloc: "on_world (vpc_allocate (vpc_socket X) (vpc_request X) (Pod_id pod)
      (case PodSpec_vpc (Pod_spec pod) of Some v \<Rightarrow> v | None \<Rightarrow> ''default'')) (a\<lparr>ag_tasks := before @ after\<rparr>) = (Inr alloc, a1)"
    and pull: "on_runtime (pull_image H (pod_image pod)) a1 = (Inl e, a2)"
    and later: "(agent_step P A C has_runtime H X)\<^sup>*\<^sup>* (snd (run_pod_lifecycle H X pod (a\<lparr>ag_tasks := before @ after\<rparr>))) a'"
  shows "Pod_id pod \<in> set (ag_in_flight a') \<and> Pod_id pod \<notin> Pod_id ` set (ag_tasks a')"
proof -
  have "queue one_task a" using one_task_run [OF run boot_one_task] .
  then have start: "queue (orphan (Pod_id pod)) (a\<lparr>ag_tasks := before @ after\<rparr>)" using queued by (auto simp: queue_def one_task_def orphan_def)
  have "queue (orphan (Pod_id pod)) a1"
    using keeps_snd [OF queue_outside(2) start] alloc by (metis snd_conv)
  then have "queue (orphan (Pod_id pod)) a2"
    using keeps_snd [OF queue_outside(1)] pull by (metis snd_conv)
  moreover have "run_pod_lifecycle H X pod (a\<lparr>ag_tasks := before @ after\<rparr>) = on_runtime (put_status X pod Pod_Failed) a2"
    using alloc pull by (simp add: run_pod_lifecycle_def Let_def bindM_def tryM_def)
  ultimately have "queue (orphan (Pod_id pod)) (snd (run_pod_lifecycle H X pod (a\<lparr>ag_tasks := before @ after\<rparr>)))"
    by (simp add: keeps_snd queue_outside)
  from orphan_run [OF later this] show ?thesis by (simp add: queue_def orphan_def)
qed

text \<open>The lab's pod after its task and another pass that lists it.\<close>

definition lab_failed :: "(unit, string list, unit) agent" where
  "lab_failed = snd (run_pod_lifecycle imageless_host lab (agent_pod ''p1'') (lab_synced\<lparr>ag_tasks := []\<rparr>))"

definition lab_again :: "(unit, string list, unit) agent" where
  "lab_again = snd (pod_sync_pass null_agent_db tag_agent_serde True imageless_host lab 2 lab_failed)"

theorem failed_pull_never_retried_witness:
  "cache_pods (ag_cache lab_again) = [agent_pod ''p1'', agent_pod ''p1''] \<and> ''p1'' \<in> set (ag_in_flight lab_again) \<and> ''p1'' \<notin> Pod_id ` set (ag_tasks lab_again)"
proof -
  let ?a = "lab_synced\<lparr>ag_tasks := []\<rparr>"
  have sync: "(agent_step list_pingora null_agent_db tag_agent_serde True imageless_host lab)\<^sup>*\<^sup>* lab_failed lab_again"
    unfolding lab_again_def by (intro r_into_rtranclp step_pod_sync)
  have alloc: "on_world (vpc_allocate (vpc_socket lab) (vpc_request lab) ''p1'' ''default'') ?a = (Inr (''10.0.0.2'', ''fd00::2'', 1, ''10.0.0.0/24''), ?a)"
    by (simp add: on_world_def on_runtime_def on_host_def lab_def vpc_allocate_def numeral_eq_Suc action_defs)
  have pull: "on_runtime (pull_image imageless_host (pod_image (agent_pod ''p1''))) ?a = (Inl (Err ''no such image''), ?a)"
    by (simp add: on_runtime_def on_host_def pull_image_def imageless_host_def calm_backend_def action_defs)
  have "cache_pods (ag_cache lab_again) = [agent_pod ''p1'', agent_pod ''p1'']" by code_simp
  then show ?thesis
    using failed_pull_never_retried [OF lab_synced_run [unfolded lab_boot_def], of "[]" "agent_pod ''p1''" "[]" _ ?a "Err ''no such image''" ?a lab_again]
      lab_synced_queue(1) alloc pull sync [unfolded lab_failed_def] by (simp add: agent_pod_def)
qed

text \<open>A task takes its pod out of flight before it reports the status, and a pass schedules from the list it
  fetched earlier: with a list from before the report a pod that already runs is queued again.\<close>

theorem stale_list_queues_again:
  "let a = snd (run_pod_lifecycle calm_host lab (agent_pod ''p1'') (lab_synced\<lparr>ag_tasks := []\<rparr>))
   in tracked (ag_runtime a) ''p1'' = Some (''crun'', State_Running) \<and>
      ag_tasks (snd (schedule_new_pods True lab [agent_pod ''p1''] a)) = [agent_pod ''p1'']"
  by code_simp

end
