(* ===== verification/Oci_Backend.thy ===== *)
theory Oci_Backend
  imports Container_Runtime
begin

text \<open>
  The OCI backend of the container runtime (\<open>pkg/container/src/backend.rs\<close>): every operation is one or more
  calls of the \<open>youki\<close> or \<open>crun\<close> binary. Running a program, files and the JSON parser are parameters. The
  lemmas say what a caller gets when the binary keeps to the OCI command-line contract, and what it
  gets when the binary fails.
\<close>

section \<open>Programs\<close>

record process_output =
  out_success :: bool
  out_stdout :: string
  out_stderr :: string

text \<open>The four fields that the code looks up in the JSON of a state.\<close>

record state_json =
  sj_id :: "string option"
  sj_status :: "string option"
  sj_pid :: "nat option"
  sj_bundle :: "string option"

record 'w oci_env =
  oe_root :: bool
  oe_run :: "string \<Rightarrow> string list \<Rightarrow> ('w, process_output) act"
  oe_create_dirs :: "string \<Rightarrow> ('w, unit) act"
  oe_open_log :: "string \<Rightarrow> ('w, unit) act"
  oe_read :: "string \<Rightarrow> 'w \<Rightarrow> string option"
  oe_exists :: "string \<Rightarrow> 'w \<Rightarrow> bool"
  oe_remove_dir :: "string \<Rightarrow> 'w \<Rightarrow> 'w"
  oe_pass :: "'w \<Rightarrow> 'w"
  oe_install_dir :: string
  oe_json :: "string \<Rightarrow> state_json option"

section \<open>Detection (OciBackend::detect, with_name, new)\<close>

record OciBackend =
  runtime_path :: string
  ob_runtime_name :: string
  runtime_version :: string
  log_dir :: string
  state_dir :: string

text \<open>\<open>Path::file_name\<close>.\<close>

definition file_name :: "string \<Rightarrow> string option" where
  "file_name path =
     (let parts = filter (\<lambda>p. p \<noteq> [] \<and> p \<noteq> ''.'') (split_on (CHR ''/'') path)
      in if parts = [] \<or> last parts = ''..'' then None else Some (last parts))"

definition get_version :: "'w oci_env \<Rightarrow> string \<Rightarrow> ('w, string) act" where
  "get_version E path =
     bindM (tryM (oe_run E path [''--version''])) (\<lambda>r. returnM (case r of
         Inr out \<Rightarrow> trim (case text_lines (out_stdout out) of [] \<Rightarrow> ''unknown'' | l # _ \<Rightarrow> l)
       | Inl _ \<Rightarrow> ''unknown''))"

definition OciBackend_new :: "'w oci_env \<Rightarrow> string \<Rightarrow> string \<Rightarrow> ('w, OciBackend) act" where
  "OciBackend_new E path dir =
     bindM (get_version E path) (\<lambda>version. returnM
       \<lparr> runtime_path = path, ob_runtime_name = (case file_name path of Some n \<Rightarrow> n | None \<Rightarrow> ''unknown''), runtime_version = version,
         log_dir = dir @ ''/logs'', state_dir = dir @ ''/state'' \<rparr>)"

definition with_name :: "'w oci_env \<Rightarrow> string \<Rightarrow> string \<Rightarrow> ('w, OciBackend) act" where
  "with_name E name dir =
     bindM (tryM (oe_run E ''which'' [name])) (\<lambda>r.
     bindM (getM (oe_exists E (oe_install_dir E @ ''/'' @ name))) (\<lambda>there.
       case r of
         Inr out \<Rightarrow>
           if out_success out then OciBackend_new E (trim (out_stdout out)) dir
           else if there then OciBackend_new E (oe_install_dir E @ ''/'' @ name) dir
           else failM (Err ''OCI runtime not found'')
       | Inl _ \<Rightarrow> if there then OciBackend_new E (oe_install_dir E @ ''/'' @ name) dir else failM (Err ''OCI runtime not found'')))"

fun first_runtime :: "'w oci_env \<Rightarrow> string list \<Rightarrow> string \<Rightarrow> ('w, OciBackend) act" where
  "first_runtime E [] dir = failM (Err ''No OCI runtime found. Install youki or crun.'')"
| "first_runtime E (name # names) dir =
     bindM (tryM (with_name E name dir)) (\<lambda>r. case r of Inr oci \<Rightarrow> returnM oci | Inl _ \<Rightarrow> first_runtime E names dir)"

definition oci_detect :: "'w oci_env \<Rightarrow> string \<Rightarrow> ('w, OciBackend) act" where
  "oci_detect E dir =
     bindM (getM (\<lambda>w. case oe_read E ''/proc/1/comm'' w of Some s \<Rightarrow> trim s = ''systemd'' \<or> trim s = ''init'' | None \<Rightarrow> False)) (\<lambda>is_native.
     first_runtime E (if is_native then [''youki'', ''crun''] else [''crun'', ''youki'']) dir)"

section \<open>Operations\<close>

definition container_log_dir :: "OciBackend \<Rightarrow> string \<Rightarrow> string" where
  "container_log_dir b cid = log_dir b @ ''/'' @ cid"

definition container_log_path :: "OciBackend \<Rightarrow> string \<Rightarrow> string" where
  "container_log_path b cid = container_log_dir b cid @ ''/stdout.log''"

definition container_pid_file :: "OciBackend \<Rightarrow> string \<Rightarrow> string" where
  "container_pid_file b cid = container_log_dir b cid @ ''/container.pid''"

definition parse_pid :: "string \<Rightarrow> u32 option" where
  "parse_pid s = map_option of_nat (parse_unsigned 4294967295 (trim s))"

definition read_pid :: "'w oci_env \<Rightarrow> OciBackend \<Rightarrow> string \<Rightarrow> 'w \<Rightarrow> u32 option" where
  "read_pid E b cid w = Option.bind (oe_read E (container_pid_file b cid) w) parse_pid"

definition oci_cmd :: "'w oci_env \<Rightarrow> OciBackend \<Rightarrow> string list" where
  "oci_cmd E b = [''--root'', state_dir b] @
     (if oe_root E then []
      else if ob_runtime_name b = ''crun'' then [''--cgroup-manager'', ''none'']
      else if ob_runtime_name b = ''youki'' then [''--systemd-cgroup'']
      else [])"

definition oci_call :: "'w oci_env \<Rightarrow> OciBackend \<Rightarrow> string list \<Rightarrow> ('w, process_output) act" where
  "oci_call E b args = oe_run E (runtime_path b) (oci_cmd E b @ args)"

definition oci_create :: "'w oci_env \<Rightarrow> OciBackend \<Rightarrow> string \<Rightarrow> string \<Rightarrow> ('w, unit) act" where
  "oci_create E b cid bundle =
     bindM (oe_create_dirs E (container_log_dir b cid)) (\<lambda>_.
     bindM (oe_create_dirs E (state_dir b)) (\<lambda>_.
     bindM (oe_create_dirs E (container_log_dir b cid)) (\<lambda>_.
     bindM (oe_open_log E (container_log_path b cid)) (\<lambda>_.
     bindM (oci_call E b [''--log'', container_log_dir b cid @ ''/runtime.log'', ''create'', ''--bundle'', bundle, ''--pid-file'', container_pid_file b cid, cid]) (\<lambda>out.
       if out_success out then returnM () else failM (Err ''create failed''))))))"

definition oci_start :: "'w oci_env \<Rightarrow> OciBackend \<Rightarrow> string \<Rightarrow> ('w, unit) act" where
  "oci_start E b cid = bindM (oci_call E b [''start'', cid]) (\<lambda>out. if out_success out then returnM () else failM (Err ''start failed''))"

definition oci_stop :: "'w oci_env \<Rightarrow> OciBackend \<Rightarrow> string \<Rightarrow> ('w, unit) act" where
  "oci_stop E b cid =
     bindM (ignoreM (oci_call E b [''kill'', cid, ''SIGTERM''])) (\<lambda>_.
     bindM (modifyM (oe_pass E)) (\<lambda>_.
     ignoreM (oci_call E b [''kill'', cid, ''SIGKILL''])))"

definition oci_delete :: "'w oci_env \<Rightarrow> OciBackend \<Rightarrow> string \<Rightarrow> ('w, unit) act" where
  "oci_delete E b cid =
     bindM (oci_call E b [''delete'', ''--force'', cid]) (\<lambda>_.
     modifyM (\<lambda>w. if oe_exists E (container_log_dir b cid) w then oe_remove_dir E (container_log_dir b cid) w else w))"

definition oci_list :: "'w oci_env \<Rightarrow> OciBackend \<Rightarrow> ('w, string list) act" where
  "oci_list E b = bindM (oci_call E b [''list'', ''-q'']) (\<lambda>out.
     returnM (map trim (filter (\<lambda>l. trim l \<noteq> []) (text_lines (out_stdout out)))))"

definition state_of_json :: "string \<Rightarrow> state_json \<Rightarrow> ContainerStateInfo" where
  "state_of_json cid j =
     \<lparr> info_id = (case sj_id j of Some s \<Rightarrow> s | None \<Rightarrow> cid), info_status = (case sj_status j of Some s \<Rightarrow> s | None \<Rightarrow> ''unknown''),
       info_pid = (case sj_pid j of Some n \<Rightarrow> of_nat n | None \<Rightarrow> 0), info_bundle = (case sj_bundle j of Some s \<Rightarrow> s | None \<Rightarrow> []) \<rparr>"

definition oci_state :: "'w oci_env \<Rightarrow> OciBackend \<Rightarrow> string \<Rightarrow> ('w, ContainerStateInfo) act" where
  "oci_state E b cid =
     bindM (oci_call E b [''state'', cid]) (\<lambda>out.
       if \<not> out_success out then failM (Err ''state query failed'')
       else bindM (liftR (ok_or (oe_json E (out_stdout out)) ''failed to parse state JSON'')) (\<lambda>j. returnM (state_of_json cid j)))"

definition last_lines :: "nat \<Rightarrow> string \<Rightarrow> string list" where
  "last_lines tail content = rev (take tail (rev (text_lines content)))"

definition oci_logs :: "'w oci_env \<Rightarrow> OciBackend \<Rightarrow> string \<Rightarrow> nat \<Rightarrow> 'w \<Rightarrow> string list" where
  "oci_logs E b cid tail w =
     (case oe_read E (container_log_path b cid) w of
        Some content \<Rightarrow> last_lines tail content
      | None \<Rightarrow> [''['' @ ob_runtime_name b @ ''] No logs available for container '' @ cid @ '' (log path: '' @ container_log_path b cid @ '')''])"

definition nsenter_args :: "bool \<Rightarrow> u32 \<Rightarrow> string list \<Rightarrow> string list" where
  "nsenter_args root pid command =
     [''--target'', show_dec (unat pid), ''--pid'', ''--uts'', ''--ipc'', ''--net'', ''--mount''] @
     (if root then [] else [''--user'', ''--preserve-credentials'']) @ [''--''] @ command"

definition oci_exec :: "'w oci_env \<Rightarrow> OciBackend \<Rightarrow> string \<Rightarrow> string list \<Rightarrow> ('w, string) act" where
  "oci_exec E b cid command =
     bindM (getM (read_pid E b cid)) (\<lambda>pid.
     bindM (case pid of
         Some pid \<Rightarrow> oe_run E ''nsenter'' (nsenter_args (oe_root E) pid command)
       | None \<Rightarrow> oci_call E b ([''exec'', cid] @ command)) (\<lambda>out.
       if out_success out then returnM (out_stdout out) else failM (Err ''exec failed'')))"

definition oci_backend :: "'w oci_env \<Rightarrow> OciBackend \<Rightarrow> 'w RuntimeBackend" where
  "oci_backend E b = \<lparr> rb_name = ob_runtime_name b, rb_handles_images = False, rb_create = oci_create E b,
     rb_create_from_image = (\<lambda>_ _ _. failM (Err ''create_from_image not supported by this backend'')),
     rb_start = oci_start E b, rb_stop = oci_stop E b, rb_delete = oci_delete E b, rb_list = oci_list E b, rb_state = oci_state E b \<rparr>"

section \<open>The contract of the binary\<close>

text \<open>What the states of the containers read as.\<close>

definition oci_infos :: "('w \<Rightarrow> string \<rightharpoonup> state_json) \<Rightarrow> 'w \<Rightarrow> string \<rightharpoonup> ContainerStateInfo" where
  "oci_infos view w cid = map_option (state_of_json cid) (view w cid)"

text \<open>
  An OCI runtime, with the containers of its state directory given by \<open>view\<close>: \<open>list -q\<close> prints the ids, one to
  a line, \<open>state\<close> succeeds for the containers there are and prints JSON that the parser reads, \<open>delete --force\<close> takes a
  container away, \<open>kill\<close> and the wait after it concern the container they name, and the removal of a log directory
  concerns none.
\<close>

locale oci_binary =
  fixes E :: "'w oci_env" and b :: OciBackend and view :: "'w \<Rightarrow> string \<rightharpoonup> state_json"
  assumes lists: "\<exists>out ids. oci_call E b [''list'', ''-q''] w = (Inr out, w) \<and> out_stdout out = concat (map (\<lambda>cid. cid @ [CHR 0x0A]) ids) \<and> set ids = dom (view w)"
    and ids: "view w cid \<noteq> None \<Longrightarrow> cid \<noteq> [] \<and> (\<forall>c\<in>set cid. \<not> is_whitespace c)"
    and states: "view w cid = Some j \<Longrightarrow> \<exists>out. oci_call E b [''state'', cid] w = (Inr out, w) \<and> out_success out \<and> oe_json E (out_stdout out) = Some j"
    and signals: "c \<noteq> cid \<Longrightarrow> view (oe_pass E (snd (oci_call E b [''kill'', cid, ''SIGTERM''] w))) c = view w c"
      "c \<noteq> cid \<Longrightarrow> view (snd (oci_call E b [''kill'', cid, ''SIGKILL''] w)) c = view w c"
    and deletes: "\<exists>out w'. oci_call E b [''delete'', ''--force'', cid] w = (Inr out, w') \<and> view w' = (view w)(cid := None)"
    and log_dirs: "view (oe_remove_dir E d w) = view w"
begin

lemma list_exact: "\<exists>ids. oci_list E b w = (Inr ids, w) \<and> set ids = dom (oci_infos view w)"
proof -
  obtain out ids where out: "oci_call E b [''list'', ''-q''] w = (Inr out, w)" "out_stdout out = concat (map (\<lambda>cid. cid @ [CHR 0x0A]) ids)" "set ids = dom (view w)"
    using lists by blast
  have good: "cid \<noteq> [] \<and> (\<forall>c\<in>set cid. \<not> is_whitespace c)" if "cid \<in> set ids" for cid
    using that ids out(3) by (auto simp: dom_def)
  have nl: "is_whitespace (CHR 0x0A)" "is_whitespace (CHR 0x0D)" by (simp_all add: is_whitespace_def)
  have "text_lines (out_stdout out) = ids" unfolding out(2) by (rule text_lines_unlines) (use good nl in blast)
  moreover have "map trim (filter (\<lambda>l. trim l \<noteq> []) ids) = ids"
  proof -
    have t: "trim l = l" if "l \<in> set ids" for l using good [OF that] by (simp add: trim_no_space)
    have "filter (\<lambda>l. trim l \<noteq> []) ids = ids" by (rule filter_True) (use good t in auto)
    then show ?thesis using t by (simp add: map_idI)
  qed
  ultimately show ?thesis using out(1,3) by (auto simp: oci_list_def bindM_def returnM_def oci_infos_def dom_def)
qed

lemma state_exact: "oci_infos view w cid = Some info \<Longrightarrow> oci_state E b cid w = (Inr info, w)"
  using states [of w cid] by (auto simp: oci_infos_def oci_state_def action_defs ok_or_def)

lemma stop_delete: "oci_infos view (snd (oci_delete E b cid (snd (oci_stop E b cid w)))) = (oci_infos view w)(cid := None)"
proof -
  have "view (snd (oci_stop E b cid w)) c = view w c" if "c \<noteq> cid" for c
    using that by (simp add: oci_stop_def action_defs signals)
  moreover have "view (snd (oci_delete E b cid w')) = (view w')(cid := None)" for w'
    using deletes [of cid w'] by (auto simp: oci_delete_def action_defs log_dirs)
  ultimately show ?thesis by (auto simp: oci_infos_def fun_eq_iff)
qed

end

text \<open>The exit status of \<open>list\<close> is not looked at: a runtime that fails counts as one without containers.\<close>

theorem failed_list_is_empty:
  assumes "oci_call E b [''list'', ''-q''] w = (Inr \<lparr> out_success = False, out_stdout = [], out_stderr = message \<rparr>, w')"
  shows "oci_list E b w = (Inr [], w')"
  using assms by (simp add: oci_list_def action_defs text_lines_def)

section \<open>A binary in memory\<close>

text \<open>
  The containers of the state directory and their statuses. A signal makes a container \<open>stopped\<close>; the ids are
  those that fit on a line of the listing.
\<close>

type_synonym mem_oci = "(string, string) hmap"

definition fits_line :: "string \<Rightarrow> bool" where "fits_line cid \<longleftrightarrow> cid \<noteq> [] \<and> (\<forall>c\<in>set cid. \<not> is_whitespace c)"

definition status_json :: "string \<Rightarrow> state_json" where
  "status_json st = \<lparr> sj_id = None, sj_status = Some st, sj_pid = Some 7, sj_bundle = None \<rparr>"

definition said :: "bool \<Rightarrow> string \<Rightarrow> process_output" where
  "said good text = \<lparr> out_success = good, out_stdout = text, out_stderr = [] \<rparr>"

definition mem_runtime :: "string list \<Rightarrow> mem_oci \<Rightarrow> process_output \<times> mem_oci" where
  "mem_runtime args cs =
     (case drop 2 args of
        [cmd, x] \<Rightarrow>
          if cmd = ''list'' then (said True (concat (map (\<lambda>cid. cid @ [CHR 0x0A]) (filter fits_line (map fst cs)))), cs)
          else if cmd = ''state'' then (case hm_get cs x of Some st \<Rightarrow> (said True st, cs) | None \<Rightarrow> (said False [], cs))
          else (said True [], cs)
      | [cmd, x, y] \<Rightarrow>
          if cmd = ''kill'' then (said True [], if hm_get cs x = None then cs else hm_insert x ''stopped'' cs)
          else if cmd = ''delete'' then (said True [], hm_remove y cs)
          else (said True [], cs)
      | _ \<Rightarrow> (said True [], cs))"

definition mem_crun :: OciBackend where
  "mem_crun = \<lparr> runtime_path = ''/usr/bin/crun'', ob_runtime_name = ''crun'', runtime_version = ''1.0'', log_dir = ''/d/logs'', state_dir = ''/d/state'' \<rparr>"

text \<open>The binary as part of a larger host, from which \<open>get\<close> reads its directory and in which \<open>put\<close> replaces it.\<close>

definition mem_oci_env :: "('w \<Rightarrow> mem_oci) \<Rightarrow> (mem_oci \<Rightarrow> 'w \<Rightarrow> 'w) \<Rightarrow> 'w oci_env" where
  "mem_oci_env get put = \<lparr> oe_root = True, oe_run = (\<lambda>_ args w. let (out, cs) = mem_runtime args (get w) in (Inr out, put cs w)),
     oe_create_dirs = (\<lambda>_. returnM ()), oe_open_log = (\<lambda>_. returnM ()), oe_read = (\<lambda>_ _. None), oe_exists = (\<lambda>_ _. True), oe_remove_dir = (\<lambda>_ w. w),
     oe_pass = (\<lambda>w. w), oe_install_dir = ''/bin'', oe_json = (\<lambda>s. Some (status_json s)) \<rparr>"

definition mem_runtime_view :: "('w \<Rightarrow> mem_oci) \<Rightarrow> 'w \<Rightarrow> string \<rightharpoonup> state_json" where
  "mem_runtime_view get w cid = (if fits_line cid then map_option status_json (hm_get (get w) cid) else None)"

lemma mem_oci_binary:
  assumes "\<And>cs w. get (put cs w) = cs" "\<And>w. put (get w) w = w"
  shows "oci_binary (mem_oci_env get put) mem_crun (mem_runtime_view get)"
proof
  note defs = oci_call_def oci_cmd_def mem_oci_env_def mem_crun_def mem_runtime_def said_def
  fix w :: 'a and c cid :: string
  let ?E = "mem_oci_env get put" and ?view = "mem_runtime_view get"
  have "oci_call ?E mem_crun [''list'', ''-q''] w = (Inr (said True (concat (map (\<lambda>cid. cid @ [CHR 0x0A]) (filter fits_line (map fst (get w)))))), w)"
    by (simp add: defs assms)
  moreover have "set (filter fits_line (map fst (get w))) = dom (?view w)"
  proof -
    have "dom (?view w) = {cid \<in> dom (hm_get (get w)). fits_line cid}" by (auto simp: mem_runtime_view_def dom_def)
    then show ?thesis by (auto simp: dom_map_of_conv_image_fst)
  qed
  ultimately show "\<exists>out ids. oci_call ?E mem_crun [''list'', ''-q''] w = (Inr out, w) \<and>
      out_stdout out = concat (map (\<lambda>cid. cid @ [CHR 0x0A]) ids) \<and> set ids = dom (?view w)"
    by (intro exI [of _ "said True (concat (map (\<lambda>cid. cid @ [CHR 0x0A]) (filter fits_line (map fst (get w)))))"] exI [of _ "filter fits_line (map fst (get w))"])
      (simp add: said_def)
  show "cid \<noteq> [] \<and> (\<forall>c\<in>set cid. \<not> is_whitespace c)" if "?view w cid \<noteq> None"
    using that by (simp add: mem_runtime_view_def fits_line_def split: if_splits)
  show "\<exists>out. oci_call ?E mem_crun [''state'', cid] w = (Inr out, w) \<and> out_success out \<and> oe_json ?E (out_stdout out) = Some j" if "?view w cid = Some j" for j
    using that by (auto simp: mem_runtime_view_def defs assms split: if_splits)
  show "?view (oe_pass ?E (snd (oci_call ?E mem_crun [''kill'', cid, ''SIGTERM''] w))) c = ?view w c" "?view (snd (oci_call ?E mem_crun [''kill'', cid, ''SIGKILL''] w)) c = ?view w c"
    if "c \<noteq> cid" using that by (simp_all add: mem_runtime_view_def defs assms hmap_simps)
  show "\<exists>out w'. oci_call ?E mem_crun [''delete'', ''--force'', cid] w = (Inr out, w') \<and> ?view w' = (?view w)(cid := None)"
    by (simp add: mem_runtime_view_def defs assms hmap_simps fun_eq_iff)
qed (simp add: mem_oci_env_def mem_runtime_view_def)

interpretation crun_only: oci_binary "mem_oci_env (\<lambda>w. w) (\<lambda>cs _. cs)" mem_crun "mem_runtime_view (\<lambda>w. w)"
  by (rule mem_oci_binary) simp_all

end
