(* ===== verification/Firecracker_Api.thy ===== *)
theory Firecracker_Api
  imports K3_Prelude K3_Action
begin

text \<open>
  The client of the Firecracker API (\<open>pkg/container/src/linux/firecracker/api.rs\<close>): requests over a Unix socket,
  and the reading of a response that arrives in pieces. The socket and the JSON printer are parameters.
  The lemmas show that a response is understood however it is cut into pieces. Texts are ASCII.
\<close>

section \<open>Requests\<close>

datatype FcRequest =
    Machine_config u32 u64
  | Boot_source string string "string option"
  | Add_drive string string bool bool
  | Set_vsock u32 string
  | Add_network_interface string string
  | Start_instance
  | Send_ctrl_alt_del

datatype api_value = Text string | Number nat | Flag bool

fun request_path :: "FcRequest \<Rightarrow> string" where
  "request_path (Machine_config _ _) = ''/machine-config''"
| "request_path (Boot_source _ _ _) = ''/boot-source''"
| "request_path (Add_drive drive_id _ _ _) = ''/drives/'' @ drive_id"
| "request_path (Set_vsock _ _) = ''/vsock''"
| "request_path (Add_network_interface iface_id _) = ''/network-interfaces/'' @ iface_id"
| "request_path Start_instance = ''/actions''"
| "request_path Send_ctrl_alt_del = ''/actions''"

fun request_body :: "FcRequest \<Rightarrow> (string \<times> api_value) list" where
  "request_body (Machine_config vcpu_count mem_size_mib) = [(''vcpu_count'', Number (unat vcpu_count)), (''mem_size_mib'', Number (unat mem_size_mib))]"
| "request_body (Boot_source kernel_image_path boot_args initrd_path) =
     [(''kernel_image_path'', Text kernel_image_path), (''boot_args'', Text boot_args)] @
     (case initrd_path of Some initrd \<Rightarrow> [(''initrd_path'', Text initrd)] | None \<Rightarrow> [])"
| "request_body (Add_drive drive_id path_on_host is_root_device is_read_only) =
     [(''drive_id'', Text drive_id), (''path_on_host'', Text path_on_host), (''is_root_device'', Flag is_root_device), (''is_read_only'', Flag is_read_only)]"
| "request_body (Set_vsock guest_cid uds_path) = [(''guest_cid'', Number (unat guest_cid)), (''uds_path'', Text uds_path)]"
| "request_body (Add_network_interface iface_id host_dev_name) = [(''iface_id'', Text iface_id), (''host_dev_name'', Text host_dev_name)]"
| "request_body Start_instance = [(''action_type'', Text ''InstanceStart'')]"
| "request_body Send_ctrl_alt_del = [(''action_type'', Text ''SendCtrlAltDel'')]"

definition crlf :: string where "crlf = [CHR 0x0D, CHR 0x0A]"

definition put_text :: "string \<Rightarrow> string \<Rightarrow> string" where
  "put_text path body_str =
     ''PUT '' @ path @ '' HTTP/1.1'' @ crlf @ ''Host: localhost'' @ crlf @ ''Accept: application/json'' @ crlf @
     ''Content-Type: application/json'' @ crlf @ ''Content-Length: '' @ show_dec (length body_str) @ crlf @ crlf @ body_str"

section \<open>Responses\<close>

text \<open>\<open>buf.windows(4).position(..)\<close>: where a pattern first stands.\<close>

fun position_of :: "string \<Rightarrow> string \<Rightarrow> nat option" where
  "position_of pat [] = None"
| "position_of pat (c # s) = (if prefix pat (c # s) then Some 0 else map_option Suc (position_of pat s))"

definition to_ascii_lowercase :: "char \<Rightarrow> char" where
  "to_ascii_lowercase c = (if 65 \<le> (of_char c :: nat) \<and> (of_char c :: nat) \<le> 90 then char_of (of_char c + 32 :: nat) else c)"

text \<open>\<open>str::split_whitespace\<close>.\<close>

definition words_of :: "string \<Rightarrow> string list" where
  "words_of s = filter (\<lambda>w. w \<noteq> []) (split_on (CHR '' '') (map (\<lambda>c. if is_whitespace c then CHR '' '' else c) s))"

definition nth_opt :: "nat \<Rightarrow> 'a list \<Rightarrow> 'a option" where
  "nth_opt i xs = (if i < length xs then Some (xs ! i) else None)"

definition content_length :: "string \<Rightarrow> nat" where
  "content_length header_str =
     (case Option.bind (find (\<lambda>l. starts_with (map to_ascii_lowercase l) ''content-length:'') (text_lines header_str))
        (\<lambda>l. Option.bind (nth_opt 1 (split_on (CHR '':'') l)) (\<lambda>s. parse_unsigned 18446744073709551615 (trim s))) of
        Some n \<Rightarrow> n | None \<Rightarrow> 0)"

definition status_code :: "string \<Rightarrow> u16" where
  "status_code header_str =
     (case Option.bind (nth_opt 0 (text_lines header_str)) (\<lambda>l. Option.bind (nth_opt 1 (words_of l)) (parse_unsigned 65535)) of
        Some n \<Rightarrow> of_nat n | None \<Rightarrow> 500)"

text \<open>What the buffer holds, once it holds the headers and as much as they promise.\<close>

definition complete_response :: "string \<Rightarrow> (u16 \<times> string) option" where
  "complete_response buf =
     (case position_of (crlf @ crlf) buf of
        None \<Rightarrow> None
      | Some hdr_end \<Rightarrow>
          (let header_str = take hdr_end buf; n = content_length header_str; body_start = hdr_end + 4 in
           if n \<le> length buf - body_start
           then Some (status_code header_str, if 0 < n \<and> body_start + n \<le> length buf then take n (drop body_start buf) else [])
           else None))"

text \<open>The reads until the connection is closed or a read fails or times out.\<close>

datatype read_end = Eof | Read_failed

fun read_http_response :: "string \<Rightarrow> string list \<Rightarrow> read_end \<Rightarrow> (u16 \<times> string) result" where
  "read_http_response buf [] fin = Inl (Err (case fin of Eof \<Rightarrow> ''connection closed before a complete response'' | Read_failed \<Rightarrow> ''timeout''))"
| "read_http_response buf (tmp # reads) fin =
     (if tmp = [] then Inl (Err ''connection closed before a complete response'')
      else case complete_response (buf @ tmp) of Some r \<Rightarrow> Inr r | None \<Rightarrow> read_http_response (buf @ tmp) reads fin)"

record 'w api_socket =
  as_json :: "(string \<times> api_value) list \<Rightarrow> string"
  as_exchange :: "string \<Rightarrow> string \<Rightarrow> ('w, string list \<times> read_end) act"

definition api_put :: "'w api_socket \<Rightarrow> string \<Rightarrow> FcRequest \<Rightarrow> ('w, unit) act" where
  "api_put X socket_path q =
     bindM (as_exchange X socket_path (put_text (request_path q) (as_json X (request_body q)))) (\<lambda>(reads, fin).
     bindM (liftR (read_http_response [] reads fin)) (\<lambda>(code, _).
       if 200 \<le> code \<and> code < 300 then returnM () else failM (Err ''Firecracker API error'')))"

section \<open>Pieces of a response\<close>

lemma position_of_length: "position_of pat s = Some i \<Longrightarrow> i + length pat \<le> length s"
proof (induction s arbitrary: i)
  case (Cons c s)
  then show ?case by (auto dest: prefix_length_le split: if_splits)
qed simp

lemma position_of_append: "position_of pat s = Some i \<Longrightarrow> position_of pat (s @ t) = Some i"
proof (induction s arbitrary: i)
  case (Cons c s)
  have "prefix pat (c # s @ t) \<longleftrightarrow> prefix pat (c # s)"
  proof
    assume p: "prefix pat (c # s @ t)"
    have "length pat \<le> length (c # s)" using position_of_length [OF Cons.prems] by simp
    then show "prefix pat (c # s)" using prefix_length_prefix [OF p, of "c # s"] by simp
  qed (metis append_Cons prefix_prefix)
  then show ?case using Cons by (auto split: if_splits)
qed simp

text \<open>What is complete stays the same when more arrives, and a longer buffer has no other headers.\<close>

lemma complete_stable:
  assumes "complete_response buf = Some r"
  shows "complete_response (buf @ rest) = Some r"
proof -
  obtain h where h: "position_of (crlf @ crlf) buf = Some h" using assms by (auto simp: complete_response_def split: option.splits)
  have "h + 4 \<le> length buf" using position_of_length [OF h] by (simp add: crlf_def)
  then show ?thesis using assms position_of_append [OF h, of rest] h
    by (auto simp: complete_response_def Let_def split: if_splits)
qed

lemma read_until_complete:
  assumes "\<And>c. c \<in> set reads \<Longrightarrow> c \<noteq> []" "complete_response (buf @ concat reads) = Some r" "complete_response buf = None"
  shows "read_http_response buf reads fin = Inr r"
  using assms
proof (induction reads arbitrary: buf)
  case (Cons c reads)
  show ?case
  proof (cases "complete_response (buf @ c)")
    case None
    then show ?thesis using Cons by simp
  next
    case (Some x)
    then have "complete_response (buf @ concat (c # reads)) = Some x" using complete_stable [OF Some, of "concat reads"] by simp
    then show ?thesis using Cons.prems Some by simp
  qed
qed simp

lemma read_complete_only: "read_http_response buf reads fin = Inr r \<Longrightarrow> complete_response (buf @ concat reads) = Some r"
proof (induction reads arbitrary: buf)
  case (Cons c reads)
  then show ?case using Cons.IH [of "buf @ c"] complete_stable [of "buf @ c" r "concat reads"] by (auto split: if_splits option.splits)
qed simp

text \<open>
  The client takes the same response from a stream however the kernel cuts it into reads: it succeeds exactly
  when the bytes that arrive hold a complete response, and the pieces do not matter.
\<close>

theorem response_independent_of_reads:
  assumes "\<And>c. c \<in> set reads \<Longrightarrow> c \<noteq> []"
  shows "read_http_response [] reads fin = Inr r \<longleftrightarrow> complete_response (concat reads) = Some r"
  using read_until_complete [of reads "[]" r fin] read_complete_only [of "[]" reads fin r] assms
  by (auto simp: complete_response_def)

text \<open>A response with a body of the announced length is read back, whatever follows on the connection.\<close>

theorem response_reads_back:
  assumes "position_of (crlf @ crlf) (headers @ crlf @ crlf) = Some (length headers)" "content_length headers = length body"
  shows "complete_response (headers @ crlf @ crlf @ body @ rest) = Some (status_code headers, body)"
proof -
  have "position_of (crlf @ crlf) (headers @ crlf @ crlf @ body @ rest) = Some (length headers)"
    using position_of_append [OF assms(1), of "body @ rest"] by simp
  then show ?thesis using assms(2) by (simp add: complete_response_def crlf_def)
qed

end
