(* ===== verification/Firecracker.thy ===== *)
theory Firecracker
  imports Oci_Backend Firecracker_Api
begin

text \<open>
  The Firecracker backend (\<open>pkg/container/src/linux/firecracker\<close>: \<open>mod.rs\<close>, \<open>network.rs\<close> and the images of
  \<open>rootfs.rs\<close>): the table of microVMs, their PID files, TAP devices and boot
  configuration. Programs, processes, sockets and files other than PID files are a parameter. The
  lemmas show which VMs the backend knows after a restart of the agent, that it stops the right one,
  and where addresses and process states go wrong.
\<close>

section \<open>State\<close>

datatype FcRootfsMode = Ext4 string | Virtiofsd string string "u32 option"

datatype FcVmState = Fc_Created | Fc_Running | Fc_Stopped

record FcInstance =
  fi_rootfs_mode :: FcRootfsMode
  fi_rootfs_dir :: string
  fi_pid :: "u32 option"
  fi_api_socket :: string
  fi_vsock_uds :: string
  fi_tap_name :: "string option"
  fi_state :: FcVmState
  fi_log_path :: string
  fi_guest_cid :: u32

record VpcBootParams =
  vb_guest_ipv4 :: string
  vb_ghost_ipv6 :: string
  vb_vpc_id :: u16
  vb_vpc_cidr :: string
  vb_gw_mac :: string

text \<open>
  The node: the table and the counter of the backend, which live in the agent's memory, the PID files
  in its directory by file name, and the rest of the host.
\<close>

record 'w fc_node =
  fn_instances :: "(string, FcInstance) hmap"
  fn_next_cid :: u32
  fn_pid_files :: "(string, string) hmap"
  fn_host :: 'w

record 'w fc_env =
  fe_data_dir :: string
  fe_kernel_path :: string
  fe_initrd_path :: "string option"
  fe_jailer :: "(string \<Rightarrow> 'w \<Rightarrow> 'w) option"
  fe_run :: "string \<Rightarrow> string list \<Rightarrow> ('w, process_output) act"
  fe_alive :: "u32 \<Rightarrow> 'w \<Rightarrow> bool"
  fe_exists :: "string \<Rightarrow> 'w \<Rightarrow> bool"
  fe_remove :: "string \<Rightarrow> 'w \<Rightarrow> 'w"
  fe_pass :: "'w \<Rightarrow> 'w"
  fe_create_file :: "string \<Rightarrow> ('w, unit) act"
  fe_create_dirs :: "string \<Rightarrow> ('w, unit) act"
  fe_spawn :: "string \<Rightarrow> ('w, u32) act"
  fe_pid_written :: "'w \<Rightarrow> bool"
  fe_dir_readable :: "'w \<Rightarrow> bool"
  fe_put :: "string \<Rightarrow> FcRequest \<Rightarrow> ('w, unit) act"
  fe_inject :: "string \<Rightarrow> string list \<Rightarrow> string list \<Rightarrow> string \<Rightarrow> ('w, unit) act"
  fe_bundle_config :: "string \<Rightarrow> 'w \<Rightarrow> string list \<times> string list"

text \<open>The requests of the backend go through the API client of the socket.\<close>

definition over_socket :: "'w api_socket \<Rightarrow> 'w fc_env \<Rightarrow> 'w fc_env" where
  "over_socket X E = E\<lparr>fe_put := api_put X\<rparr>"

definition fc_host :: "('w, 'a) act \<Rightarrow> ('w fc_node, 'a) act" where
  "fc_host m s = (let (x, w) = m (fn_host s) in (x, s\<lparr>fn_host := w\<rparr>))"

definition fc_change :: "('w \<Rightarrow> 'w) \<Rightarrow> ('w fc_node, unit) act" where
  "fc_change f = modifyM (\<lambda>s. s\<lparr>fn_host := f (fn_host s)\<rparr>)"

definition fc_change_instances :: "((string, FcInstance) hmap \<Rightarrow> (string, FcInstance) hmap) \<Rightarrow> ('w fc_node, unit) act" where
  "fc_change_instances f = modifyM (\<lambda>s. s\<lparr>fn_instances := f (fn_instances s)\<rparr>)"

definition with_instance :: "string \<Rightarrow> (FcInstance \<Rightarrow> FcInstance) \<Rightarrow> (string, FcInstance) hmap \<Rightarrow> (string, FcInstance) hmap" where
  "with_instance cid f is = (case hm_get is cid of Some i \<Rightarrow> hm_insert cid (f i) is | None \<Rightarrow> is)"

section \<open>Paths and numbers\<close>

definition FC_GUEST_CID :: u32 where "FC_GUEST_CID = 3"
definition DEFAULT_CPU_COUNT :: u32 where "DEFAULT_CPU_COUNT = 1"
definition DEFAULT_MEMORY_MB :: u64 where "DEFAULT_MEMORY_MB = 256"

definition api_socket_path :: "'w fc_env \<Rightarrow> string \<Rightarrow> string" where "api_socket_path E cid = fe_data_dir E @ ''/'' @ cid @ ''.sock''"
definition vsock_uds_path :: "'w fc_env \<Rightarrow> string \<Rightarrow> string" where "vsock_uds_path E cid = fe_data_dir E @ ''/'' @ cid @ ''-vsock.sock''"
definition fc_log_path :: "'w fc_env \<Rightarrow> string \<Rightarrow> string" where "fc_log_path E cid = fe_data_dir E @ ''/'' @ cid @ ''.log''"
definition rootfs_dir :: "'w fc_env \<Rightarrow> string \<Rightarrow> string" where "rootfs_dir E cid = fe_data_dir E @ ''/'' @ cid @ ''-rootfs''"
definition rootfs_img_path :: "'w fc_env \<Rightarrow> string \<Rightarrow> string" where "rootfs_img_path E cid = fe_data_dir E @ ''/'' @ cid @ ''-rootfs.ext4''"

text \<open>A PID file by its name in the directory.\<close>

definition pid_file_name :: "string \<Rightarrow> string" where "pid_file_name cid = cid @ ''.pid''"

definition allocate_cid :: "('w fc_node, u32) act" where
  "allocate_cid s = (Inr (fn_next_cid s), s\<lparr>fn_next_cid := fn_next_cid s + 1\<rparr>)"

section \<open>Network (network.rs)\<close>

definition guest_ip :: "u32 \<Rightarrow> string" where "guest_ip vm_index = ''172.16.'' @ show_dec (unat vm_index) @ ''.2''"
definition host_ip :: "u32 \<Rightarrow> string" where "host_ip vm_index = ''172.16.'' @ show_dec (unat vm_index) @ ''.1''"

text \<open>The name of the device; the first eight bytes of the id, which is ASCII.\<close>

definition tap_name_of :: "string \<Rightarrow> string" where "tap_name_of cid = ''tap-'' @ take 8 cid"

definition create_tap :: "'w fc_env \<Rightarrow> string \<Rightarrow> ('w, unit) act" where
  "create_tap E tap_name =
     bindM (fe_run E ''ip'' [''tuntap'', ''add'', tap_name, ''mode'', ''tap'']) (\<lambda>out.
       if \<not> out_success out \<and> \<not> contains (out_stderr out) ''File exists'' then failM (Err ''Failed to create TAP'') else returnM ())"

definition setup_tap :: "'w fc_env \<Rightarrow> string \<Rightarrow> u32 \<Rightarrow> ('w, string) act" where
  "setup_tap E cid vm_index =
     (let tap_name = tap_name_of cid in
      bindM (create_tap E tap_name) (\<lambda>_.
      bindM (fe_run E ''ip'' [''addr'', ''add'', host_ip vm_index @ ''/30'', ''dev'', tap_name]) (\<lambda>_.
      bindM (fe_run E ''ip'' [''link'', ''set'', tap_name, ''up'']) (\<lambda>_. returnM tap_name))))"

definition setup_tap_vpc :: "'w fc_env \<Rightarrow> string \<Rightarrow> ('w, string) act" where
  "setup_tap_vpc E cid =
     (let tap_name = tap_name_of cid in
      bindM (create_tap E tap_name) (\<lambda>_.
      bindM (fe_run E ''ip'' [''link'', ''set'', tap_name, ''address'', ''02:fc:00:00:00:01'']) (\<lambda>_.
      bindM (fe_run E ''ip'' [''link'', ''set'', tap_name, ''up'']) (\<lambda>_. returnM tap_name))))"

definition add_ipv6_to_tap :: "'w fc_env \<Rightarrow> string \<Rightarrow> string \<Rightarrow> ('w, unit) act" where
  "add_ipv6_to_tap E tap_name ghost_ipv6 =
     bindM (fe_run E ''ip'' [''-6'', ''addr'', ''add'', ghost_ipv6 @ ''/128'', ''dev'', tap_name]) (\<lambda>out.
       if \<not> out_success out \<and> \<not> contains (out_stderr out) ''File exists'' then failM (Err ''Failed to add IPv6'') else returnM ())"

definition cleanup_tap :: "'w fc_env \<Rightarrow> string \<Rightarrow> ('w, unit) act" where
  "cleanup_tap E cid = ignoreM (fe_run E ''ip'' [''link'', ''delete'', tap_name_of cid])"

section \<open>Root file systems\<close>

definition dir_size :: "'w fc_env \<Rightarrow> string \<Rightarrow> ('w, u64) act" where
  "dir_size E path =
     bindM (fe_run E ''du'' [''-sb'', path]) (\<lambda>out.
       returnM (case dropWhile is_whitespace (out_stdout out) of
           [] \<Rightarrow> 0
         | t \<Rightarrow> (case parse_unsigned 18446744073709551615 (takeWhile (Not \<circ> is_whitespace) t) of Some n \<Rightarrow> of_nat n | None \<Rightarrow> 0)))"

definition img_size_mb :: "u64 \<Rightarrow> u64" where
  "img_size_mb size_bytes = max (size_bytes div 1048576 + 64) 128"

definition create_ext4_image :: "'w fc_env \<Rightarrow> string \<Rightarrow> string \<Rightarrow> ('w, unit) act" where
  "create_ext4_image E dir img_path =
     bindM (dir_size E dir) (\<lambda>size_bytes.
     bindM (fe_run E ''truncate'' [''-s'', show_dec (unat (img_size_mb size_bytes)) @ ''M'', img_path]) (\<lambda>out.
       if \<not> out_success out then failM (Err ''truncate failed'')
       else bindM (fe_run E ''mkfs.ext4'' [''-F'', ''-q'', ''-d'', dir, img_path]) (\<lambda>out.
         if \<not> out_success out then failM (Err ''mkfs.ext4 -d failed'') else returnM ())))"

text \<open>The environment and the command line that go into the guest's \<open>config.json\<close>.\<close>

definition env_key :: "string \<Rightarrow> string" where
  "env_key e = hd (split_on (CHR ''='') e)"

definition add_env :: "string \<Rightarrow> string list \<Rightarrow> string list" where
  "add_env e all_env =
     (if env_key e \<noteq> [] \<and> \<not> list_ex (\<lambda>x. starts_with x (env_key e @ ''='')) all_env then all_env @ [e] else all_env)"

definition guest_env :: "string \<Rightarrow> string list \<Rightarrow> string list" where
  "guest_env cid env = fold add_env env
     [''PATH=/usr/local/sbin:/usr/local/bin:/usr/sbin:/usr/bin:/sbin:/bin'', ''HOSTNAME='' @ cid, ''TERM=xterm'']"

definition guest_args :: "string list \<Rightarrow> string list" where
  "guest_args command = (if command = [] then [''/bin/sh''] else command)"

definition prepare_rootfs :: "'w fc_env \<Rightarrow> string \<Rightarrow> string \<Rightarrow> string list \<Rightarrow> string list \<Rightarrow> ('w, FcRootfsMode) act" where
  "prepare_rootfs E dir cid command env =
     bindM (fe_inject E dir (guest_args command) (guest_env cid env) cid) (\<lambda>_.
     bindM (create_ext4_image E dir (rootfs_img_path E cid)) (\<lambda>_. returnM (Ext4 (rootfs_img_path E cid))))"

section \<open>Booting\<close>

fun await_socket :: "'w fc_env \<Rightarrow> string \<Rightarrow> nat \<Rightarrow> 'w \<Rightarrow> 'w" where
  "await_socket E path 0 w = w"
| "await_socket E path (Suc polls) w = (if fe_exists E path w then w else await_socket E path polls (fe_pass E w))"

definition spawn_firecracker :: "'w fc_env \<Rightarrow> string \<Rightarrow> ('w fc_node, u32) act" where
  "spawn_firecracker E cid =
     (let api_socket = api_socket_path E cid in
      bindM (fc_change (fe_remove E api_socket)) (\<lambda>_.
      bindM (fc_host (fe_create_file E (fc_log_path E cid))) (\<lambda>_.
      bindM (fc_host (fe_spawn E api_socket)) (\<lambda>pid.
      bindM (modifyM (\<lambda>s. if fe_pid_written E (fn_host s)
          then s\<lparr>fn_pid_files := hm_insert (pid_file_name cid) (show_dec (unat pid) @ [CHR 0x0A]) (fn_pid_files s)\<rparr> else s)) (\<lambda>_.
      bindM (fc_change (await_socket E api_socket 100)) (\<lambda>_.
      bindM (getM (\<lambda>s. fe_exists E api_socket (fn_host s))) (\<lambda>up.
        if up then returnM pid else failM (Err ''Firecracker API socket did not appear''))))))))"

definition boot_args :: "u32 \<Rightarrow> string option \<Rightarrow> VpcBootParams option \<Rightarrow> string" where
  "boot_args guest_cid tap_name vpc_params =
     ''console=ttyS0 reboot=k panic=1 pci=off root=/dev/vda rw init=/sbin/k3rs-init'' @
     (case vpc_params of
        Some vpc \<Rightarrow> '' k3rs.ipv4='' @ vb_guest_ipv4 vpc @ '' k3rs.ipv6='' @ vb_ghost_ipv6 vpc @ '' k3rs.vpc_id='' @ show_dec (unat (vb_vpc_id vpc)) @
          '' k3rs.vpc_cidr='' @ vb_vpc_cidr vpc @ '' k3rs.gw_mac='' @ vb_gw_mac vpc
      | None \<Rightarrow>
          if tap_name \<noteq> None then '' ip='' @ guest_ip guest_cid @ ''::'' @ host_ip guest_cid @ '':255.255.255.252::eth0:off'' else [])"

definition configure_and_boot :: "'w fc_env \<Rightarrow> string \<Rightarrow> FcRootfsMode \<Rightarrow> u32 \<Rightarrow> string option \<Rightarrow> VpcBootParams option \<Rightarrow> ('w, unit) act" where
  "configure_and_boot E cid rootfs_mode guest_cid tap_name vpc_params =
     (let api = fe_put E (api_socket_path E cid) in
      bindM (api (Machine_config DEFAULT_CPU_COUNT DEFAULT_MEMORY_MB)) (\<lambda>_.
      bindM (api (Boot_source (fe_kernel_path E) (boot_args guest_cid tap_name vpc_params) (fe_initrd_path E))) (\<lambda>_.
      case rootfs_mode of
        Virtiofsd _ _ _ \<Rightarrow> failM (Err ''Firecracker only supports ext4 rootfs (virtio-blk)'')
      | Ext4 image_path \<Rightarrow>
          bindM (api (Add_drive ''rootfs'' image_path True False)) (\<lambda>_.
          bindM (api (Set_vsock guest_cid (vsock_uds_path E cid))) (\<lambda>_.
          bindM (case tap_name of Some tap \<Rightarrow> api (Add_network_interface ''eth0'' tap) | None \<Rightarrow> returnM ()) (\<lambda>_.
          api Start_instance))))))"

section \<open>The backend (RuntimeBackend for FirecrackerBackend)\<close>

definition new_instance :: "'w fc_env \<Rightarrow> string \<Rightarrow> FcRootfsMode \<Rightarrow> string \<Rightarrow> u32 \<Rightarrow> FcInstance" where
  "new_instance E cid mode dir guest_cid =
     \<lparr> fi_rootfs_mode = mode, fi_rootfs_dir = dir, fi_pid = None, fi_api_socket = api_socket_path E cid, fi_vsock_uds = vsock_uds_path E cid,
       fi_tap_name = None, fi_state = Fc_Created, fi_log_path = fc_log_path E cid, fi_guest_cid = guest_cid \<rparr>"

definition register_vm :: "'w fc_env \<Rightarrow> string \<Rightarrow> string \<Rightarrow> string list \<Rightarrow> string list \<Rightarrow> ('w fc_node, unit) act" where
  "register_vm E cid dir command env =
     bindM (fc_host (prepare_rootfs E dir cid command env)) (\<lambda>mode.
     bindM allocate_cid (\<lambda>guest_cid.
     bindM (fc_host (fe_create_file E (fc_log_path E cid))) (\<lambda>_.
     fc_change_instances (hm_insert cid (new_instance E cid mode dir guest_cid)))))"

definition fc_create :: "'w fc_env \<Rightarrow> string \<Rightarrow> string \<Rightarrow> ('w fc_node, unit) act" where
  "fc_create E cid bundle =
     bindM (getM (\<lambda>s. (if fe_exists E (bundle @ ''/rootfs'') (fn_host s) then bundle @ ''/rootfs'' else bundle, fe_bundle_config E bundle (fn_host s)))) (\<lambda>(dir, command, env).
     register_vm E cid dir command env)"

definition fc_create_from_image :: "'w fc_env \<Rightarrow> string \<Rightarrow> string \<Rightarrow> string list \<Rightarrow> ('w fc_node, unit) act" where
  "fc_create_from_image E cid img command =
     bindM (fc_host (fe_create_dirs E (rootfs_dir E cid))) (\<lambda>_. register_vm E cid (rootfs_dir E cid) command [])"

definition fc_start :: "'w fc_env \<Rightarrow> string \<Rightarrow> ('w fc_node, unit) act" where
  "fc_start E cid =
     bindM (getM (\<lambda>s. (fe_exists E (fe_kernel_path E) (fn_host s), hm_get (fn_instances s) cid))) (\<lambda>(kernel, found).
       if \<not> kernel then failM (Err ''Kernel missing'')
       else bindM (liftR (ok_or found ''VM not found'')) (\<lambda>inst.
         bindM (spawn_firecracker E cid) (\<lambda>pid.
         bindM (tryM (fc_host (setup_tap E cid (fi_guest_cid inst)))) (\<lambda>tap.
         bindM (fc_host (configure_and_boot E cid (fi_rootfs_mode inst) (fi_guest_cid inst) (ok tap) None)) (\<lambda>_.
         fc_change_instances (with_instance cid (\<lambda>i. i\<lparr>fi_state := Fc_Running, fi_pid := Some pid, fi_tap_name := ok tap\<rparr>)))))))"

definition signal_vm :: "'w fc_env \<Rightarrow> u32 \<Rightarrow> ('w, unit) act" where
  "signal_vm E pid =
     bindM (ignoreM (fe_run E ''kill'' [''-TERM'', show_dec (unat pid)])) (\<lambda>_.
     bindM (modifyM (fe_pass E)) (\<lambda>_.
     ignoreM (fe_run E ''kill'' [''-KILL'', show_dec (unat pid)])))"

definition stop_virtiofsd :: "'w fc_env \<Rightarrow> u32 \<Rightarrow> ('w, unit) act" where
  "stop_virtiofsd E pid = ignoreM (fe_run E ''kill'' [''-TERM'', show_dec (unat pid)])"

text \<open>The host's part of stopping a VM, and the removal of its PID file.\<close>

definition halt_vm :: "'w fc_env \<Rightarrow> string \<Rightarrow> FcInstance \<Rightarrow> ('w, unit) act" where
  "halt_vm E cid inst =
     bindM (getM (fe_exists E (fi_api_socket inst))) (\<lambda>there.
     bindM (if there then bindM (tryM (fe_put E (fi_api_socket inst) Send_ctrl_alt_del)) (\<lambda>r. whenM (ok r \<noteq> None) (modifyM (fe_pass E))) else returnM ()) (\<lambda>_.
     bindM (case fi_pid inst of Some pid \<Rightarrow> signal_vm E pid | None \<Rightarrow> returnM ()) (\<lambda>_.
     bindM (case fi_rootfs_mode inst of Virtiofsd _ _ (Some pid) \<Rightarrow> stop_virtiofsd E pid | _ \<Rightarrow> returnM ()) (\<lambda>_.
     bindM (whenM (fi_tap_name inst \<noteq> None) (cleanup_tap E cid)) (\<lambda>_.
     modifyM (fe_remove E (vsock_uds_path E cid) \<circ> fe_remove E (api_socket_path E cid)))))))"

definition remove_pid_file :: "string \<Rightarrow> ('w fc_node, unit) act" where
  "remove_pid_file name = modifyM (\<lambda>s. s\<lparr>fn_pid_files := hm_remove name (fn_pid_files s)\<rparr>)"

definition stop_vm :: "'w fc_env \<Rightarrow> string \<Rightarrow> FcInstance \<Rightarrow> ('w fc_node, unit) act" where
  "stop_vm E cid inst = bindM (fc_host (halt_vm E cid inst)) (\<lambda>_. remove_pid_file (pid_file_name cid))"

definition fc_stop :: "'w fc_env \<Rightarrow> string \<Rightarrow> ('w fc_node, unit) act" where
  "fc_stop E cid =
     bindM (getM (\<lambda>s. hm_get (fn_instances s) cid)) (\<lambda>found.
     bindM (case found of Some inst \<Rightarrow> stop_vm E cid inst | None \<Rightarrow> returnM ()) (\<lambda>_.
     fc_change_instances (with_instance cid (\<lambda>i. i\<lparr>fi_state := Fc_Stopped, fi_pid := None\<rparr>))))"

definition discard_rootfs :: "'w fc_env \<Rightarrow> string \<Rightarrow> FcInstance \<Rightarrow> ('w, unit) act" where
  "discard_rootfs E cid inst =
     bindM (case fi_rootfs_mode inst of
         Ext4 image_path \<Rightarrow> modifyM (fe_remove E image_path)
       | Virtiofsd _ socket_path pid \<Rightarrow>
           bindM (case pid of Some pid \<Rightarrow> stop_virtiofsd E pid | None \<Rightarrow> returnM ()) (\<lambda>_. modifyM (fe_remove E socket_path))) (\<lambda>_.
     bindM (modifyM (fe_remove E (fi_log_path inst) \<circ> fe_remove E (fi_rootfs_dir inst))) (\<lambda>_.
     case fe_jailer E of Some cleanup \<Rightarrow> modifyM (cleanup cid) | None \<Rightarrow> returnM ()))"

definition fc_delete :: "'w fc_env \<Rightarrow> string \<Rightarrow> ('w fc_node, unit) act" where
  "fc_delete E cid =
     bindM (ignoreM (fc_stop E cid)) (\<lambda>_.
     bindM (getM (\<lambda>s. hm_get (fn_instances s) cid)) (\<lambda>removed.
     bindM (fc_change_instances (hm_remove cid)) (\<lambda>_.
     bindM (case removed of Some inst \<Rightarrow> fc_host (discard_rootfs E cid inst) | None \<Rightarrow> returnM ()) (\<lambda>_.
     bindM (fc_change (fe_remove E (fc_log_path E cid) \<circ> fe_remove E (rootfs_img_path E cid) \<circ> fe_remove E (rootfs_dir E cid))) (\<lambda>_.
     bindM (remove_pid_file (pid_file_name cid)) (\<lambda>_.
     fc_change (fe_remove E (vsock_uds_path E cid) \<circ> fe_remove E (api_socket_path E cid))))))))"

text \<open>\<open>str::trim_end_matches\<close>, which takes the suffix off as often as it is there.\<close>

function trim_end_matches :: "string \<Rightarrow> string \<Rightarrow> string" where
  "trim_end_matches pat s = (if pat \<noteq> [] \<and> suffix pat s then trim_end_matches pat (take (length s - length pat) s) else s)"
  by pat_completeness auto
termination by (relation "measure (length \<circ> snd)") (auto simp: suffix_def)

declare trim_end_matches.simps [simp del]

definition restored_instance :: "'w fc_env \<Rightarrow> string \<Rightarrow> u32 \<Rightarrow> FcInstance" where
  "restored_instance E cid pid =
     \<lparr> fi_rootfs_mode = Ext4 (rootfs_img_path E cid), fi_rootfs_dir = rootfs_dir E cid, fi_pid = Some pid, fi_api_socket = api_socket_path E cid,
       fi_vsock_uds = vsock_uds_path E cid, fi_tap_name = None, fi_state = Fc_Running, fi_log_path = fc_log_path E cid, fi_guest_cid = 0 \<rparr>"

text \<open>One PID file: dropped when it cannot be read or its process is gone; else its VM counts as found and gets an entry unless it has one.\<close>

definition restore_one :: "'w fc_env \<Rightarrow> string \<times> string \<Rightarrow> ('w fc_node, string list) act" where
  "restore_one E = (\<lambda>(name, content).
     if \<not> suffix ''.pid'' name then returnM []
     else case parse_pid content of
         None \<Rightarrow> bindM (remove_pid_file name) (\<lambda>_. returnM [])
       | Some pid \<Rightarrow>
           bindM (getM (\<lambda>s. fe_alive E pid (fn_host s))) (\<lambda>alive.
             if alive then
               let vm_id = trim_end_matches ''.pid'' name in
               bindM (fc_change_instances (\<lambda>is. if hm_get is vm_id = None then hm_insert vm_id (restored_instance E vm_id pid) is else is)) (\<lambda>_. returnM [vm_id])
             else bindM (remove_pid_file name) (\<lambda>_. returnM [])))"

fun restore_each :: "'w fc_env \<Rightarrow> (string \<times> string) list \<Rightarrow> ('w fc_node, string list) act" where
  "restore_each E [] = returnM []"
| "restore_each E (f # fs) = bindM (restore_one E f) (\<lambda>found. bindM (restore_each E fs) (\<lambda>rest. returnM (found @ rest)))"

definition restore_from_pid_files :: "'w fc_env \<Rightarrow> ('w fc_node, string list) act" where
  "restore_from_pid_files E =
     bindM (getM (\<lambda>s. (fe_dir_readable E (fn_host s), fn_pid_files s))) (\<lambda>(readable, files).
       if readable then restore_each E files else returnM [])"

definition fc_list :: "'w fc_env \<Rightarrow> ('w fc_node, string list) act" where
  "fc_list E =
     bindM (getM (\<lambda>s. map fst (filter (\<lambda>(_, i). fi_state i = Fc_Running) (fn_instances s)))) (\<lambda>ids.
     bindM (restore_from_pid_files E) (\<lambda>discovered. returnM (remdups (ids @ discovered))))"

definition fc_status :: "FcVmState \<Rightarrow> string" where
  "fc_status st = (case st of Fc_Created \<Rightarrow> ''created'' | Fc_Running \<Rightarrow> ''running'' | Fc_Stopped \<Rightarrow> ''stopped'')"

definition instance_info :: "string \<Rightarrow> FcInstance \<Rightarrow> ContainerStateInfo" where
  "instance_info cid inst = \<lparr> info_id = cid, info_status = fc_status (fi_state inst),
     info_pid = (case fi_pid inst of Some pid \<Rightarrow> pid | None \<Rightarrow> 0), info_bundle = fi_rootfs_dir inst \<rparr>"

definition fc_state :: "'w fc_env \<Rightarrow> string \<Rightarrow> ('w fc_node, ContainerStateInfo) act" where
  "fc_state E cid s =
     (case hm_get (fn_instances s) cid of
        Some inst \<Rightarrow> (Inr (instance_info cid inst), s)
      | None \<Rightarrow>
          (case Option.bind (hm_get (fn_pid_files s) (pid_file_name cid)) parse_pid of
             Some pid \<Rightarrow>
               if fe_alive E pid (fn_host s)
               then (Inr \<lparr> info_id = cid, info_status = ''running'', info_pid = pid, info_bundle = rootfs_dir E cid \<rparr>, s)
               else (Inl (Err ''VM not found''), s)
           | None \<Rightarrow> (Inl (Err ''VM not found''), s)))"

definition firecracker_backend :: "'w fc_env \<Rightarrow> 'w fc_node RuntimeBackend" where
  "firecracker_backend E = \<lparr> rb_name = ''vm'', rb_handles_images = False, rb_create = fc_create E, rb_create_from_image = fc_create_from_image E,
     rb_start = fc_start E, rb_stop = fc_stop E, rb_delete = fc_delete E, rb_list = fc_list E, rb_state = fc_state E \<rparr>"

text \<open>A restart of the agent: its memory is fresh, the host is as it was.\<close>

definition agent_restart :: "'w fc_node \<Rightarrow> 'w fc_node" where
  "agent_restart s = s\<lparr>fn_instances := [], fn_next_cid := FC_GUEST_CID\<rparr>"

section \<open>PID files\<close>

lemma trim_pid_file: "\<not> suffix ''.pid'' cid \<Longrightarrow> trim_end_matches ''.pid'' (pid_file_name cid) = cid"
  by (simp add: pid_file_name_def suffix_def trim_end_matches.simps [of "''.pid''" "cid @ ''.pid''"] trim_end_matches.simps [of "''.pid''" cid])

lemma pid_file_name_inject [simp]: "pid_file_name a = pid_file_name b \<longleftrightarrow> a = b"
  by (simp add: pid_file_name_def)

lemma suffix_pid_file [simp]: "suffix ''.pid'' (pid_file_name cid)"
  by (simp add: pid_file_name_def suffix_def)

lemma parse_written_pid: "parse_pid (show_dec (unat pid) @ [CHR 0x0A]) = Some pid"
proof -
  have ws: "\<not> is_whitespace c" if "c \<in> set (show_dec (unat pid))" for c
    using set_show_dec [OF that] is_digit_not_punct by (auto simp: is_whitespace_def is_digit_def)
  have d: "dropWhile is_whitespace xs = xs" if "set xs = set (show_dec (unat pid))" for xs
    using ws that by (cases xs) auto
  have ws2: "dropWhile is_whitespace (xs @ [CHR 0x0A]) = xs @ [CHR 0x0A]" if "set xs = set (show_dec (unat pid))" "xs \<noteq> []" for xs
    using ws that by (cases xs) auto
  have "is_whitespace (CHR 0x0A)" by (simp add: is_whitespace_def)
  then have "trim (show_dec (unat pid) @ [CHR 0x0A]) = show_dec (unat pid)"
    by (simp add: trim_def ws2 d)
  moreover have "unat pid \<le> 4294967295" using unsigned_less [of pid, where 'a = nat] by simp
  ultimately show ?thesis by (simp add: parse_pid_def)
qed

text \<open>The process in the PID file of a VM, when it is alive.\<close>

definition live_file :: "'w fc_env \<Rightarrow> 'w \<Rightarrow> (string, string) hmap \<Rightarrow> string \<rightharpoonup> u32" where
  "live_file E w fs cid = (case Option.bind (hm_get fs (pid_file_name cid)) parse_pid of
     Some pid \<Rightarrow> if fe_alive E pid w then Some pid else None | None \<Rightarrow> None)"

definition vm_files :: "(string, string) hmap \<Rightarrow> bool" where
  "vm_files fs \<longleftrightarrow> hm_wf fs \<and> (\<forall>(name, content) \<in> set fs. \<exists>cid pid. name = pid_file_name cid \<and> \<not> suffix ''.pid'' cid \<and> content = show_dec (unat (pid :: u32)) @ [CHR 0x0A])"

lemma live_file_Cons: "live_file E w ((pid_file_name c, content) # fs) cid =
    (if cid = c then (case parse_pid content of Some pid \<Rightarrow> if fe_alive E pid w then Some pid else None | None \<Rightarrow> None) else live_file E w fs cid)"
  by (simp add: live_file_def)

lemma live_file_remove: "live_file E w fs c = None \<Longrightarrow> live_file E w (hm_remove (pid_file_name c) fs) = live_file E w fs"
  by (auto simp: live_file_def hmap_simps fun_eq_iff split: option.splits)

text \<open>What a scan of the PID files \<open>fs\<close> leaves of a node.\<close>

definition scanned :: "'w fc_env \<Rightarrow> (string, string) hmap \<Rightarrow> 'w fc_node \<Rightarrow> 'w fc_node \<Rightarrow> bool" where
  "scanned E fs s s' \<longleftrightarrow> fn_host s' = fn_host s \<and> fn_next_cid s' = fn_next_cid s \<and>
     live_file E (fn_host s) (fn_pid_files s') = live_file E (fn_host s) (fn_pid_files s) \<and>
     (hm_wf (fn_pid_files s) \<longrightarrow> hm_wf (fn_pid_files s')) \<and> set (fn_pid_files s') \<subseteq> set (fn_pid_files s) \<and>
     (\<forall>cid. hm_get (fn_pid_files s') (pid_file_name cid) =
        (if pid_file_name cid \<in> fst ` set fs \<and> live_file E (fn_host s) fs cid = None then None else hm_get (fn_pid_files s) (pid_file_name cid))) \<and>
     (hm_wf (fn_instances s) \<longrightarrow> hm_wf (fn_instances s')) \<and>
     hm_get (fn_instances s') = (\<lambda>cid. map_option (restored_instance E cid) (live_file E (fn_host s) fs cid)) ++ hm_get (fn_instances s)"

lemma restore_one_ok:
  assumes "\<not> suffix ''.pid'' c" and "hm_get (fn_pid_files s) (pid_file_name c) = Some content"
  shows "\<exists>ids s'. restore_one E (pid_file_name c, content) s = (Inr ids, s') \<and>
    set ids = dom (live_file E (fn_host s) [(pid_file_name c, content)]) \<and> scanned E [(pid_file_name c, content)] s s'"
proof -
  have here: "live_file E (fn_host s) (fn_pid_files s) c = live_file E (fn_host s) [(pid_file_name c, content)] c"
    using assms(2) by (simp add: live_file_def)
  have other: "live_file E (fn_host s) [(pid_file_name c, content)] cid = None" if "cid \<noteq> c" for cid
    using that by (simp add: live_file_def)
  have sub: "set (hm_remove n fs) \<subseteq> set fs" for n and fs :: "(string, string) hmap" by (auto simp: AList.delete_eq)
  show ?thesis
  proof (cases "live_file E (fn_host s) [(pid_file_name c, content)] c")
    case None
    then have "restore_one E (pid_file_name c, content) s = (Inr [], s\<lparr>fn_pid_files := hm_remove (pid_file_name c) (fn_pid_files s)\<rparr>)"
      using assms by (simp add: restore_one_def live_file_def remove_pid_file_def action_defs split: option.splits if_splits)
    moreover have "live_file E (fn_host s) [(pid_file_name c, content)] = Map.empty" using None other by (intro ext) metis
    ultimately show ?thesis using live_file_remove [of E "fn_host s" "fn_pid_files s" c] here None sub [of "pid_file_name c" "fn_pid_files s"]
      by (simp add: scanned_def hmap_simps)
  next
    case (Some pid)
    then have "parse_pid content = Some pid" "fe_alive E pid (fn_host s)" by (auto simp: live_file_def split: option.splits if_splits)
    then have "restore_one E (pid_file_name c, content) s =
        (Inr [c], s\<lparr>fn_instances := (if hm_get (fn_instances s) c = None then hm_insert c (restored_instance E c pid) (fn_instances s) else fn_instances s)\<rparr>)"
      using assms by (simp add: restore_one_def trim_pid_file fc_change_instances_def Let_def action_defs)
    moreover have "live_file E (fn_host s) [(pid_file_name c, content)] = [c \<mapsto> pid]" using Some other by (intro ext) auto
    ultimately show ?thesis by (auto simp: scanned_def hmap_simps map_add_def fun_eq_iff split: option.splits if_splits)
  qed
qed

lemma live_file_append:
  assumes "fst ` set fs \<inter> fst ` set gs = {}"
  shows "live_file E w (fs @ gs) = live_file E w gs ++ live_file E w fs"
proof
  fix cid
  show "live_file E w (fs @ gs) cid = (live_file E w gs ++ live_file E w fs) cid"
  proof (cases "hm_get fs (pid_file_name cid)")
    case None
    then show ?thesis by (simp add: live_file_def map_add_def)
  next
    case (Some x)
    then have "pid_file_name cid \<in> fst ` set fs" by (metis map_of_eq_None_iff option.distinct(1))
    then have "hm_get gs (pid_file_name cid) = None" using assms by (auto simp: map_of_eq_None_iff)
    then show ?thesis using Some by (simp add: live_file_def map_add_def split: option.split)
  qed
qed

lemma live_file_in: "live_file E w fs cid = Some pid \<Longrightarrow> pid_file_name cid \<in> fst ` set fs"
proof (rule ccontr)
  assume "live_file E w fs cid = Some pid" "pid_file_name cid \<notin> fst ` set fs"
  moreover from this(2) have "hm_get fs (pid_file_name cid) = None" by (simp add: map_of_eq_None_iff)
  ultimately show False by (simp add: live_file_def)
qed

lemma scanned_append:
  assumes "scanned E fs s s1" "scanned E gs s1 s2" "fst ` set fs \<inter> fst ` set gs = {}"
  shows "scanned E (fs @ gs) s s2"
proof -
  have "(\<lambda>cid. map_option (restored_instance E cid) ((m ++ n) cid)) ++ q = (\<lambda>cid. map_option (restored_instance E cid) (m cid)) ++ ((\<lambda>cid. map_option (restored_instance E cid) (n cid)) ++ q)" for m n q
    by (auto simp: map_add_def fun_eq_iff split: option.split)
  moreover have "set (fn_pid_files s2) \<subseteq> set (fn_pid_files s)" using assms(1,2) by (auto simp: scanned_def)
  moreover have "pid_file_name cid \<in> fst ` set gs \<Longrightarrow> live_file E w fs cid = None" "pid_file_name cid \<in> fst ` set fs \<Longrightarrow> live_file E w gs cid = None" for w cid
    using assms(3) live_file_in [of E w _ cid] by (metis disjoint_iff not_Some_eq)+
  ultimately show ?thesis using assms by (auto simp: scanned_def live_file_append image_Un)
qed

lemma restore_each_ok:
  assumes "vm_files fs" and "\<And>name content. (name, content) \<in> set fs \<Longrightarrow> hm_get (fn_pid_files s) name = Some content"
  shows "\<exists>ids s'. restore_each E fs s = (Inr ids, s') \<and> set ids = dom (live_file E (fn_host s) fs) \<and> scanned E fs s s'"
  using assms
proof (induction fs arbitrary: s)
  case Nil
  then show ?case by (simp add: returnM_def live_file_def scanned_def map_add_def)
next
  case (Cons f fs)
  obtain name content where f: "f = (name, content)" by (cases f)
  obtain c where c: "name = pid_file_name c" "\<not> suffix ''.pid'' c" using Cons.prems(1) f by (auto simp: vm_files_def)
  have new: "name \<notin> fst ` set fs" and fs: "vm_files fs" using Cons.prems(1) f by (auto simp: vm_files_def)
  obtain ids1 s1 where 1: "restore_one E f s = (Inr ids1, s1)" "set ids1 = dom (live_file E (fn_host s) [f])" "scanned E [f] s s1"
    using restore_one_ok [OF c(2), of s content E] Cons.prems(2) f c(1) by auto
  have "hm_get (fn_pid_files s1) n = Some x" if nx: "(n, x) \<in> set fs" for n x
  proof -
    obtain c' where c': "n = pid_file_name c'" using nx fs by (force simp: vm_files_def)
    have "n \<noteq> name" using nx new by (metis fst_conv imageI)
    then show ?thesis using 1(3) Cons.prems(2) [of n x] nx f by (simp add: scanned_def c')
  qed
  from Cons.IH [OF fs this] obtain ids2 s2 where 2: "restore_each E fs s1 = (Inr ids2, s2)" "set ids2 = dom (live_file E (fn_host s1) fs)" "scanned E fs s1 s2" by blast
  have disj: "fst ` set [f] \<inter> fst ` set fs = {}" using new f by auto
  have "restore_each E (f # fs) s = (Inr (ids1 @ ids2), s2)" using 1(1) 2(1) by (simp add: bindM_def returnM_def)
  moreover have "live_file E w (f # fs) = live_file E w fs ++ live_file E w [f]" for w using live_file_append [OF disj] by simp
  then have "set (ids1 @ ids2) = dom (live_file E (fn_host s) (f # fs))"
    using 1(2,3) 2(2) by (auto simp: scanned_def)
  ultimately show ?case using scanned_append [OF 1(3) 2(3) disj] by auto
qed

section \<open>The VMs the backend knows\<close>

text \<open>What \<open>list\<close> gives and what \<open>state\<close> says of it.\<close>

definition fc_view :: "'w fc_env \<Rightarrow> 'w fc_node \<Rightarrow> string \<rightharpoonup> ContainerStateInfo" where
  "fc_view E s cid =
     (let alive = live_file E (fn_host s) (fn_pid_files s) cid in
      case hm_get (fn_instances s) cid of
        Some inst \<Rightarrow> if fi_state inst = Fc_Running \<or> alive \<noteq> None then Some (instance_info cid inst) else None
      | None \<Rightarrow> map_option (\<lambda>pid. instance_info cid (restored_instance E cid pid)) alive)"

lemma fc_state_view: "fc_view E s cid = Some info \<Longrightarrow> fc_state E cid s = (Inr info, s)"
  by (auto simp: fc_view_def fc_state_def live_file_def instance_info_def restored_instance_def fc_status_def Let_def split: option.splits if_splits)

lemma fc_list_ok:
  assumes "vm_files (fn_pid_files s)" "hm_wf (fn_instances s)" "fe_dir_readable E (fn_host s)"
  shows "\<exists>ids s'. fc_list E s = (Inr ids, s') \<and> set ids = dom (fc_view E s) \<and> fc_view E s' = fc_view E s \<and> scanned E (fn_pid_files s) s s'"
proof -
  have wf: "hm_wf (fn_pid_files s)" using assms(1) by (simp add: vm_files_def)
  have "hm_get (fn_pid_files s) name = Some content" if "(name, content) \<in> set (fn_pid_files s)" for name content
    using that wf by simp
  from restore_each_ok [OF assms(1) this] obtain found s' where r: "restore_each E (fn_pid_files s) s = (Inr found, s')"
    "set found = dom (live_file E (fn_host s) (fn_pid_files s))" "scanned E (fn_pid_files s) s s'" by metis
  define running where "running = map fst (filter (\<lambda>(_, i). fi_state i = Fc_Running) (fn_instances s))"
  have run: "cid \<in> set running \<longleftrightarrow> (\<exists>i. hm_get (fn_instances s) cid = Some i \<and> fi_state i = Fc_Running)" for cid
    using assms(2) by (force simp: running_def image_iff)
  have "fc_list E s = (Inr (remdups (running @ found)), s')"
    using r(1) assms(3) by (simp add: fc_list_def restore_from_pid_files_def running_def action_defs)
  moreover have "set (remdups (running @ found)) = dom (fc_view E s)"
    using r(2) by (auto simp: run fc_view_def Let_def dom_def split: option.splits)
  moreover have "fc_view E s' = fc_view E s"
    using r(3) by (auto simp: fc_view_def scanned_def fun_eq_iff map_add_def Let_def restored_instance_def split: option.splits)
  ultimately show ?thesis using r(3) by blast
qed

section \<open>The tables\<close>

definition on_tables :: "((string, FcInstance) hmap \<Rightarrow> (string, string) hmap \<Rightarrow> bool) \<Rightarrow> 'w fc_node \<Rightarrow> bool" where
  "on_tables Q s = Q (fn_instances s) (fn_pid_files s)"

lemma host_triple: "triple (on_tables Q) (fc_host m) (\<lambda>_. on_tables Q) (on_tables Q)"
  by (auto simp: triple_def fc_host_def on_tables_def Let_def split: prod.splits sum.splits)

lemma change_triple: "triple (on_tables Q) (fc_change f) (\<lambda>_. on_tables Q) (on_tables Q)"
  by (auto simp: triple_def fc_change_def on_tables_def modifyM_def)

lemma cid_triple: "triple (on_tables Q) allocate_cid (\<lambda>_. on_tables Q) (on_tables Q)"
  by (auto simp: triple_def allocate_cid_def on_tables_def)

lemma instances_triple: "(\<And>is fs. Q is fs \<Longrightarrow> R (f is) fs) \<Longrightarrow> triple (on_tables Q) (fc_change_instances f) (\<lambda>_. on_tables R) E"
  by (auto simp: triple_def fc_change_instances_def on_tables_def modifyM_def)

text \<open>
  Running VMs have their process in a PID file, unless a listing has found it dead (\<open>lost\<close>), and only VMs of
  the table have PID files.
\<close>

definition vm_ok :: "string set \<Rightarrow> (string, string) hmap \<Rightarrow> string \<Rightarrow> FcInstance \<Rightarrow> bool" where
  "vm_ok lost fs cid i \<longleftrightarrow> \<not> suffix ''.pid'' cid \<and> (fi_state i = Fc_Running \<longrightarrow>
     (\<exists>pid. fi_pid i = Some pid \<and> hm_get fs (pid_file_name cid) = (if cid \<in> lost then None else Some (show_dec (unat pid) @ [CHR 0x0A]))))"

definition agree :: "string set \<Rightarrow> (string, FcInstance) hmap \<Rightarrow> (string, string) hmap \<Rightarrow> bool" where
  "agree lost is fs \<longleftrightarrow> hm_wf is \<and> vm_files fs \<and> (\<forall>cid i. hm_get is cid = Some i \<longrightarrow> vm_ok lost fs cid i) \<and>
     (\<forall>cid. hm_get fs (pid_file_name cid) \<noteq> None \<longrightarrow> hm_get is cid \<noteq> None)"

lemma vm_files_insert:
  fixes pid :: u32
  assumes "vm_files fs" "\<not> suffix ''.pid'' cid"
  shows "vm_files (hm_insert (pid_file_name cid) (show_dec (unat pid) @ [CHR 0x0A]) fs)"
proof -
  let ?x = "show_dec (unat pid) @ [CHR 0x0A]"
  have "set (hm_insert n x fs) \<subseteq> insert (n, x) (set fs)" for n :: string and x :: string and fs
    by (induction fs) auto
  then have sub: "set (hm_insert (pid_file_name cid) ?x fs) \<subseteq> insert (pid_file_name cid, ?x) (set fs)" .
  show ?thesis unfolding vm_files_def
  proof (intro conjI ballI)
    show "hm_wf (hm_insert (pid_file_name cid) ?x fs)" using assms(1) by (simp add: vm_files_def)
    fix f assume "f \<in> set (hm_insert (pid_file_name cid) ?x fs)"
    then consider "f = (pid_file_name cid, ?x)" | "f \<in> set fs" using sub by blast
    then show "case f of (name, content) \<Rightarrow> \<exists>cid pid. name = pid_file_name cid \<and> \<not> suffix ''.pid'' cid \<and> content = show_dec (unat (pid :: u32)) @ [CHR 0x0A]"
    proof cases
      case 1
      then show ?thesis using assms(2) by auto
    next
      case 2
      then show ?thesis using assms(1) unfolding vm_files_def by blast
    qed
  qed
qed

lemma vm_files_remove: "vm_files fs \<Longrightarrow> vm_files (hm_remove name fs)"
  by (auto simp: vm_files_def) (auto simp: AList.delete_eq)

lemma agreeI:
  assumes "hm_wf is" "vm_files fs" "\<And>cid i. hm_get is cid = Some i \<Longrightarrow> vm_ok lost fs cid i" "\<And>cid. hm_get fs (pid_file_name cid) \<noteq> None \<Longrightarrow> hm_get is cid \<noteq> None"
  shows "agree lost is fs"
  using assms by (simp add: agree_def del: map_of_eq_Some_iff)

lemma agreeD:
  assumes "agree lost is fs"
  shows "hm_wf is" "vm_files fs" "hm_get is cid = Some i \<Longrightarrow> vm_ok lost fs cid i" "hm_get fs (pid_file_name cid) \<noteq> None \<Longrightarrow> hm_get is cid \<noteq> None"
  using assms by (auto simp: agree_def)

lemma agree_insert: "agree lost is fs \<Longrightarrow> vm_ok lost fs cid i \<Longrightarrow> agree lost (hm_insert cid i is) fs"
  using agreeD [of lost "is" fs] by (intro agreeI) (auto simp: hmap_simps split: if_splits)

lemma agree_idle:
  fixes pid :: u32
  assumes "agree lost is fs" "hm_get is cid = Some i" "fi_state i \<noteq> Fc_Running"
  shows "agree (lost - {cid}) is fs" "agree (lost - {cid}) is (hm_insert (pid_file_name cid) (show_dec (unat pid) @ [CHR 0x0A]) fs)"
proof -
  note A = agreeD [OF assms(1)]
  have here: "vm_ok L fs' cid i" for L fs' using A(3) [OF assms(2)] assms(3) by (simp add: vm_ok_def)
  have other: "vm_ok (lost - {cid}) fs c j" "vm_ok (lost - {cid}) (hm_insert (pid_file_name cid) (show_dec (unat pid) @ [CHR 0x0A]) fs) c j" if "c \<noteq> cid" "hm_get is c = Some j" for c j
    using A(3) [OF that(2)] that(1) by (simp_all add: vm_ok_def hmap_simps)
  have "\<not> suffix ''.pid'' cid" using here by (simp add: vm_ok_def)
  from vm_files_insert [OF A(2) this, of pid] show "agree (lost - {cid}) is fs" "agree (lost - {cid}) is (hm_insert (pid_file_name cid) (show_dec (unat pid) @ [CHR 0x0A]) fs)"
    using A(1,2,4) here other assms(2) by (intro agreeI; metis hm_get_insert pid_file_name_inject option.distinct(1) option.inject)+
qed

lemma create_tables:
  assumes "agree lost (fn_instances s) (fn_pid_files s)" "\<not> suffix ''.pid'' cid"
  shows "on_tables (agree lost) (snd (fc_create E cid bundle s))"
proof -
  let ?P = "on_tables (agree lost)"
  have new: "vm_ok lost fs cid (new_instance E cid mode dir c)" for fs mode dir c
    using assms(2) by (simp add: vm_ok_def new_instance_def)
  have "triple ?P (fc_create E cid bundle) (\<lambda>_. ?P) ?P"
    unfolding fc_create_def register_vm_def
    by (rule triple_bind [OF triple_get [of _ "\<lambda>_. ?P"]], assumption, clarsimp, (rule triple_bind [OF host_triple] triple_bind [OF cid_triple] instances_triple)+)
      (rule agree_insert [OF _ new])
  from triple_snd [OF this] assms(1) show ?thesis by (simp add: on_tables_def)
qed

text \<open>A start that fails after the process was spawned leaves the process and its PID file.\<close>

definition idle :: "string set \<Rightarrow> string \<Rightarrow> FcInstance \<Rightarrow> (string, FcInstance) hmap \<Rightarrow> (string, string) hmap \<Rightarrow> bool" where
  "idle lost cid i is fs \<longleftrightarrow> agree (lost - {cid}) is fs \<and> hm_get is cid = Some i \<and> fi_state i \<noteq> Fc_Running"

definition spawned :: "string set \<Rightarrow> string \<Rightarrow> FcInstance \<Rightarrow> u32 \<Rightarrow> (string, FcInstance) hmap \<Rightarrow> (string, string) hmap \<Rightarrow> bool" where
  "spawned lost cid i pid is fs \<longleftrightarrow> idle lost cid i is fs \<and> hm_get fs (pid_file_name cid) = Some (show_dec (unat pid) @ [CHR 0x0A])"

lemma idle_agree: "on_tables (idle lost cid i) s \<Longrightarrow> on_tables (agree (lost - {cid})) s"
  by (simp add: on_tables_def idle_def)

lemma spawned_agree: "on_tables (spawned lost cid i pid) s \<Longrightarrow> on_tables (agree (lost - {cid})) s"
  by (simp add: on_tables_def spawned_def idle_def)

lemma idle_host: "triple (on_tables (idle lost cid i)) (fc_host m) (\<lambda>_. on_tables (idle lost cid i)) (on_tables (agree (lost - {cid})))"
  by (rule triple_conseq [OF host_triple [of "idle lost cid i"]]) (auto intro: idle_agree)

lemma idle_change: "triple (on_tables (idle lost cid i)) (fc_change f) (\<lambda>_. on_tables (idle lost cid i)) (on_tables (agree (lost - {cid})))"
  by (rule triple_conseq [OF change_triple [of "idle lost cid i"]]) (auto intro: idle_agree)

lemma spawned_host: "triple (on_tables (spawned lost cid i pid)) (fc_host m) (\<lambda>_. on_tables (spawned lost cid i pid)) (on_tables (agree (lost - {cid})))"
  by (rule triple_conseq [OF host_triple [of "spawned lost cid i pid"]]) (auto intro: spawned_agree)

lemma spawned_change: "triple (on_tables (spawned lost cid i pid)) (fc_change f) (\<lambda>_. on_tables (spawned lost cid i pid)) (on_tables (agree (lost - {cid})))"
  by (rule triple_conseq [OF change_triple [of "spawned lost cid i pid"]]) (auto intro: spawned_agree)

lemma idle_write: "idle lost cid i is fs \<Longrightarrow> spawned lost cid i pid is (hm_insert (pid_file_name cid) (show_dec (unat pid) @ [CHR 0x0A]) fs)"
  using agree_idle(2) [of "lost - {cid}" "is" fs cid i] by (simp add: spawned_def idle_def hmap_simps)

lemma spawned_running:
  assumes "spawned lost cid i pid is fs"
  shows "agree (lost - {cid}) (with_instance cid (\<lambda>i. i\<lparr>fi_state := Fc_Running, fi_pid := Some pid, fi_tap_name := tap\<rparr>) is) fs"
proof -
  have "agree (lost - {cid}) is fs" "hm_get is cid = Some i" "hm_get fs (pid_file_name cid) = Some (show_dec (unat pid) @ [CHR 0x0A])"
    using assms by (simp_all add: spawned_def idle_def)
  then show ?thesis using agreeD(3) [of "lost - {cid}" "is" fs cid i] by (auto simp: with_instance_def vm_ok_def intro!: agree_insert)
qed

lemma spawn_tables:
  assumes pids: "\<And>w. fe_pid_written E w"
  shows "triple (on_tables (idle lost cid i)) (spawn_firecracker E cid) (\<lambda>pid. on_tables (spawned lost cid i pid)) (on_tables (agree (lost - {cid})))"
proof -
  have "triple (on_tables (spawned lost cid i pid)) (if up then returnM pid else failM e) (\<lambda>pid. on_tables (spawned lost cid i pid)) (on_tables (agree (lost - {cid})))" for pid up e
    by (auto simp: triple_def returnM_def failM_def dest: spawned_agree)
  note last = triple_bind [OF spawned_change triple_bind [OF triple_get [where Q = "\<lambda>_. on_tables (spawned lost cid i pid)" for pid] this]]
  have "on_tables (spawned lost cid i pid) (if fe_pid_written E (fn_host s)
      then s\<lparr>fn_pid_files := hm_insert (pid_file_name cid) (show_dec (unat pid) @ [CHR 0x0A]) (fn_pid_files s)\<rparr> else s)" if "on_tables (idle lost cid i) s" for s pid
    using that by (simp add: on_tables_def pids idle_write)
  note file_written = triple_modify [of "on_tables (idle lost cid i)" "\<lambda>_. on_tables (spawned lost cid i pid)" for pid, OF this]
  show ?thesis unfolding spawn_firecracker_def Let_def
    by (rule triple_bind [OF idle_change] triple_bind [OF idle_host] triple_bind [OF file_written] last | assumption)+
qed

lemma start_tables:
  assumes "agree lost (fn_instances s) (fn_pid_files s)" "hm_get (fn_instances s) cid = Some i" "fi_state i \<noteq> Fc_Running"
    and pids: "\<And>w. fe_pid_written E w"
  shows "on_tables (agree (lost - {cid})) (snd (fc_start E cid s))"
proof -
  let ?F = "on_tables (agree (lost - {cid}))"
  define boot where "boot = bindM (spawn_firecracker E cid) (\<lambda>pid.
    bindM (tryM (fc_host (setup_tap E cid (fi_guest_cid i)))) (\<lambda>tap.
    bindM (fc_host (configure_and_boot E cid (fi_rootfs_mode i) (fi_guest_cid i) (ok tap) None)) (\<lambda>_.
    fc_change_instances (with_instance cid (\<lambda>i. i\<lparr>fi_state := Fc_Running, fi_pid := Some pid, fi_tap_name := ok tap\<rparr>)))))"
  have "triple (on_tables (idle lost cid i)) boot (\<lambda>_. ?F) ?F"
    unfolding boot_def
    by (rule triple_bind [OF spawn_tables [OF pids]] triple_bind [OF triple_try [OF host_triple]] triple_bind [OF spawned_host] instances_triple spawned_running | assumption)+
  from triple_snd [OF this] have "?F (snd (boot s))"
    using agree_idle(1) [OF assms(1-3)] assms(2,3) by (simp add: on_tables_def idle_def)
  moreover have "snd (fc_start E cid s) = s \<or> snd (fc_start E cid s) = snd (boot s)"
    using assms(2) by (auto simp: fc_start_def boot_def bindM_get failM_def liftR_def ok_or_def bindM_step)
  ultimately show ?thesis using agree_idle(1) [OF assms(1-3)] by (auto simp: on_tables_def)
qed

lemma agree_stopped:
  assumes "agree lost is fs"
  shows "agree (lost - {cid}) (with_instance cid (\<lambda>i. i\<lparr>fi_state := Fc_Stopped, fi_pid := None\<rparr>) is) (if hm_get is cid = None then fs else hm_remove (pid_file_name cid) fs)"
    and "agree (lost - {cid}) (hm_remove cid is) (hm_remove (pid_file_name cid) fs)"
proof -
  note A = agreeD [OF assms]
  have none: "hm_get is cid = None \<Longrightarrow> hm_get fs (pid_file_name cid) = None" using A(4) by blast
  have ok: "vm_ok (lost - {cid}) (hm_remove (pid_file_name cid) fs) c j" if "hm_get is c = Some j" "c \<noteq> cid" for c j
    using A(3) [OF that(1)] that(2) by (simp add: vm_ok_def hmap_simps)
  show "agree (lost - {cid}) (hm_remove cid is) (hm_remove (pid_file_name cid) fs)"
    using A(1,4) ok vm_files_remove [OF A(2)] by (intro agreeI) (auto simp: hmap_simps split: if_splits)
  show "agree (lost - {cid}) (with_instance cid (\<lambda>i. i\<lparr>fi_state := Fc_Stopped, fi_pid := None\<rparr>) is) (if hm_get is cid = None then fs else hm_remove (pid_file_name cid) fs)"
  proof (cases "hm_get is cid")
    case None
    then have "vm_ok (lost - {cid}) fs c j" if "hm_get is c = Some j" for c j
      using A(3) [OF that] that by (cases "c = cid") (auto simp: vm_ok_def)
    from agreeI [OF A(1,2) this A(4)] None show ?thesis by (simp add: with_instance_def)
  next
    case (Some i)
    have "vm_ok L fs' cid (i\<lparr>fi_state := Fc_Stopped, fi_pid := None\<rparr>)" for L fs' using A(3) [OF Some] by (simp add: vm_ok_def)
    with Some A(1,4) ok vm_files_remove [OF A(2)] show ?thesis
      by (simp add: with_instance_def) (intro agreeI, auto simp: hmap_simps split: if_splits)
  qed
qed

lemma halt_vm_ok: "\<exists>w'. halt_vm E cid i w = (Inr (), w')"
  by (auto simp: halt_vm_def signal_vm_def stop_virtiofsd_def cleanup_tap_def action_defs split: option.split FcRootfsMode.split prod.split sum.split)

lemma discard_rootfs_ok: "\<exists>w'. discard_rootfs E cid i w = (Inr (), w')"
  by (auto simp: discard_rootfs_def stop_virtiofsd_def action_defs split: option.split FcRootfsMode.split)

lemma stop_fields:
  "fn_instances (snd (fc_stop E cid s)) = with_instance cid (\<lambda>i. i\<lparr>fi_state := Fc_Stopped, fi_pid := None\<rparr>) (fn_instances s)"
  "fn_pid_files (snd (fc_stop E cid s)) = (if hm_get (fn_instances s) cid = None then fn_pid_files s else hm_remove (pid_file_name cid) (fn_pid_files s))"
proof -
  have "fn_instances (snd (fc_stop E cid s)) = with_instance cid (\<lambda>i. i\<lparr>fi_state := Fc_Stopped, fi_pid := None\<rparr>) (fn_instances s) \<and>
      fn_pid_files (snd (fc_stop E cid s)) = (if hm_get (fn_instances s) cid = None then fn_pid_files s else hm_remove (pid_file_name cid) (fn_pid_files s))"
  proof (cases "hm_get (fn_instances s) cid")
    case None
    then show ?thesis by (simp add: fc_stop_def fc_change_instances_def action_defs)
  next
    case (Some i)
    obtain w where "halt_vm E cid i (fn_host s) = (Inr (), w)" using halt_vm_ok [of E cid i "fn_host s"] by blast
    with Some show ?thesis by (simp add: fc_stop_def stop_vm_def fc_host_def remove_pid_file_def fc_change_instances_def action_defs)
  qed
  then show "fn_instances (snd (fc_stop E cid s)) = with_instance cid (\<lambda>i. i\<lparr>fi_state := Fc_Stopped, fi_pid := None\<rparr>) (fn_instances s)"
    "fn_pid_files (snd (fc_stop E cid s)) = (if hm_get (fn_instances s) cid = None then fn_pid_files s else hm_remove (pid_file_name cid) (fn_pid_files s))"
    by blast+
qed

lemma stop_tables:
  assumes "on_tables (agree lost) s"
  shows "on_tables (agree (lost - {cid})) (snd (fc_stop E cid s))"
  using assms agree_stopped(1) by (simp add: on_tables_def stop_fields)

lemma delete_fields:
  "fn_instances (snd (fc_delete E cid s)) = hm_remove cid (fn_instances (snd (fc_stop E cid s)))"
  "fn_pid_files (snd (fc_delete E cid s)) = hm_remove (pid_file_name cid) (fn_pid_files (snd (fc_stop E cid s)))"
proof -
  define s1 where "s1 = snd (fc_stop E cid s)"
  have "fn_instances (snd (fc_delete E cid s)) = hm_remove cid (fn_instances s1) \<and>
      fn_pid_files (snd (fc_delete E cid s)) = hm_remove (pid_file_name cid) (fn_pid_files s1)"
  proof (cases "hm_get (fn_instances s1) cid")
    case None
    then show ?thesis by (simp add: fc_delete_def fc_change_instances_def fc_change_def remove_pid_file_def action_defs flip: s1_def)
  next
    case (Some i)
    obtain w where "discard_rootfs E cid i (fn_host s1) = (Inr (), w)" using discard_rootfs_ok [of E cid i "fn_host s1"] by blast
    with Some show ?thesis
      by (simp add: fc_delete_def fc_change_instances_def fc_change_def fc_host_def remove_pid_file_def action_defs flip: s1_def)
  qed
  then show "fn_instances (snd (fc_delete E cid s)) = hm_remove cid (fn_instances (snd (fc_stop E cid s)))"
    "fn_pid_files (snd (fc_delete E cid s)) = hm_remove (pid_file_name cid) (fn_pid_files (snd (fc_stop E cid s)))"
    by (simp_all add: s1_def)
qed

lemma delete_tables:
  assumes "on_tables (agree lost) s"
  shows "on_tables (agree (lost - {cid})) (snd (fc_delete E cid s))"
  using agree_stopped(2) [of "lost - {cid}" _ _ cid] stop_tables [OF assms] by (simp add: on_tables_def delete_fields)

text \<open>A listing drops the PID files of VMs whose process is dead.\<close>

definition dead_vms :: "'w fc_env \<Rightarrow> 'w fc_node \<Rightarrow> string set" where
  "dead_vms E s = {cid. \<exists>i pid. hm_get (fn_instances s) cid = Some i \<and> fi_state i = Fc_Running \<and> fi_pid i = Some pid \<and> \<not> fe_alive E pid (fn_host s)}"

lemma agree_live_file:
  assumes "agree lost (fn_instances s) (fn_pid_files s)" "hm_get (fn_instances s) cid = Some i" "fi_state i = Fc_Running" "fi_pid i = Some pid"
  shows "live_file E w (fn_pid_files s) cid = (if cid \<in> lost \<or> \<not> fe_alive E pid w then None else Some pid)"
  using agreeD(3) [OF assms(1,2)] assms(3,4) by (auto simp: vm_ok_def live_file_def parse_written_pid)

lemma list_tables:
  assumes "agree lost (fn_instances s) (fn_pid_files s)" "fe_dir_readable E (fn_host s)"
  shows "on_tables (agree (lost \<union> dead_vms E s)) (snd (fc_list E s))"
proof -
  note A = agreeD [OF assms(1)]
  obtain ids s' where list: "fc_list E s = (Inr ids, s')" "scanned E (fn_pid_files s) s s'"
    using fc_list_ok [OF A(2,1) assms(2)] by blast
  let ?live = "live_file E (fn_host s) (fn_pid_files s)"
  have S: "hm_get (fn_instances s') = (\<lambda>cid. map_option (restored_instance E cid) (?live cid)) ++ hm_get (fn_instances s)"
    "hm_get (fn_pid_files s') (pid_file_name cid) = (if pid_file_name cid \<in> fst ` set (fn_pid_files s) \<and> ?live cid = None then None else hm_get (fn_pid_files s) (pid_file_name cid))"
    "hm_wf (fn_instances s')" "hm_wf (fn_pid_files s')" "set (fn_pid_files s') \<subseteq> set (fn_pid_files s)" for cid
    using list(2) A(1,2) by (auto simp: scanned_def vm_files_def)
  have known: "hm_get (fn_instances s) cid \<noteq> None" if "?live cid = Some pid" for cid pid
    using A(4) [of cid] live_file_in [OF that] by (metis map_of_eq_None_iff)
  have same: "hm_get (fn_instances s') cid = hm_get (fn_instances s) cid" for cid
    using known [of cid] by (cases "?live cid") (auto simp: S(1) map_add_def split: option.splits)
  have "vm_ok (lost \<union> dead_vms E s) (fn_pid_files s') cid i" if i: "hm_get (fn_instances s) cid = Some i" for cid i
  proof (cases "fi_state i = Fc_Running")
    case True
    then obtain pid where pid: "fi_pid i = Some pid" "hm_get (fn_pid_files s) (pid_file_name cid) = (if cid \<in> lost then None else Some (show_dec (unat pid) @ [CHR 0x0A]))"
      using A(3) [OF i] by (auto simp: vm_ok_def)
    have dead: "cid \<in> dead_vms E s \<longleftrightarrow> \<not> fe_alive E pid (fn_host s)" using i True pid(1) by (simp add: dead_vms_def del: map_of_eq_Some_iff)
    have "pid_file_name cid \<in> fst ` set (fn_pid_files s) \<longleftrightarrow> cid \<notin> lost"
      using pid(2) by (metis map_of_eq_None_iff option.distinct(1))
    then show ?thesis using A(3) [OF i] pid True agree_live_file [OF assms(1) i True pid(1), of E "fn_host s"] dead
      by (simp add: vm_ok_def S(2))
  qed (use A(3) [OF i] in \<open>simp add: vm_ok_def\<close>)
  moreover have "vm_files (fn_pid_files s')" using A(2) S(4,5) by (auto simp: vm_files_def)
  moreover have "hm_get (fn_instances s) cid \<noteq> None" if "hm_get (fn_pid_files s') (pid_file_name cid) \<noteq> None" for cid
    by (rule A(4)) (use that S(2) [of cid] in \<open>simp split: if_splits\<close>)
  ultimately have "agree (lost \<union> dead_vms E s) (fn_instances s') (fn_pid_files s')"
    using S(3) unfolding same [symmetric] by (intro agreeI) blast+
  then show ?thesis using list(1) by (simp add: on_tables_def)
qed

text \<open>After a restart the first listing rebuilds the table from the PID files.\<close>

lemma restart_list:
  assumes "agree lost (fn_instances s) (fn_pid_files s)" "fe_dir_readable E (fn_host s)"
  shows "\<exists>ids s'. fc_list E (agent_restart s) = (Inr ids, s') \<and> set ids = dom (live_file E (fn_host s) (fn_pid_files s)) \<and> fn_host s' = fn_host s \<and>
    hm_get (fn_instances s') = (\<lambda>cid. map_option (restored_instance E cid) (live_file E (fn_host s) (fn_pid_files s) cid)) \<and> on_tables (agree {}) s'"
proof -
  note A = agreeD [OF assms(1)]
  let ?s = "agent_restart s" and ?live = "live_file E (fn_host s) (fn_pid_files s)"
  have R: "fn_pid_files ?s = fn_pid_files s" "fn_host ?s = fn_host s" "fn_instances ?s = []" by (simp_all add: agent_restart_def)
  obtain ids s' where list: "fc_list E ?s = (Inr ids, s')" "set ids = dom (fc_view E ?s)" "scanned E (fn_pid_files s) ?s s'"
    using fc_list_ok [of ?s E] A(2) assms(2) by (auto simp: R)
  have I: "hm_get (fn_instances s') = (\<lambda>cid. map_option (restored_instance E cid) (?live cid))" and wf: "hm_wf (fn_instances s')" "hm_wf (fn_pid_files s')"
    and sub: "set (fn_pid_files s') \<subseteq> set (fn_pid_files s)" and host: "fn_host s' = fn_host s"
    using list(3) A(2) by (auto simp: scanned_def R vm_files_def map_add_def)
  have F: "hm_get (fn_pid_files s') (pid_file_name cid) = (if ?live cid = None then None else hm_get (fn_pid_files s) (pid_file_name cid))" for cid
    using list(3) by (auto simp: scanned_def R map_of_eq_None_iff)
  have content: "hm_get (fn_pid_files s) (pid_file_name cid) = Some (show_dec (unat pid) @ [CHR 0x0A]) \<and> \<not> suffix ''.pid'' cid" if lf: "?live cid = Some pid" for cid pid
  proof -
    obtain x where x: "hm_get (fn_pid_files s) (pid_file_name cid) = Some x" "parse_pid x = Some pid"
      using lf by (cases "hm_get (fn_pid_files s) (pid_file_name cid)") (auto simp: live_file_def split: option.splits if_splits)
    then obtain q where "x = show_dec (unat (q :: u32)) @ [CHR 0x0A]" "\<not> suffix ''.pid'' cid"
      using A(2) map_of_SomeD [OF x(1)] by (fastforce simp: vm_files_def)
    with x show ?thesis by (simp add: parse_written_pid)
  qed
  have "agree {} (fn_instances s') (fn_pid_files s')"
  proof (rule agreeI)
    show "hm_wf (fn_instances s')" "vm_files (fn_pid_files s')" using wf sub A(2) by (auto simp: vm_files_def)
    show "vm_ok {} (fn_pid_files s') cid i" if "hm_get (fn_instances s') cid = Some i" for cid i
      using that content [of cid] by (auto simp: I F vm_ok_def restored_instance_def)
    show "hm_get (fn_instances s') cid \<noteq> None" if "hm_get (fn_pid_files s') (pid_file_name cid) \<noteq> None" for cid
      using that by (auto simp: I F split: if_splits)
  qed
  moreover have "dom (fc_view E ?s) = dom ?live" by (auto simp: fc_view_def R Let_def dom_def)
  ultimately show ?thesis using list host I by (auto simp: on_tables_def)
qed

section \<open>A restart of the agent\<close>

text \<open>
  Calls of the runtime in any order: VMs are created, started when they do not run, stopped, deleted
  and listed, the host changes as it likes, and the agent restarts, which forgets its table, and lists.
  The set names the VMs that a listing has found dead.
\<close>

inductive fc_reach :: "'w fc_env \<Rightarrow> string set \<Rightarrow> 'w fc_node \<Rightarrow> bool" for E where
  fresh: "fc_reach E {} \<lparr> fn_instances = [], fn_next_cid = FC_GUEST_CID, fn_pid_files = [], fn_host = w \<rparr>"
| create: "fc_reach E lost s \<Longrightarrow> \<not> suffix ''.pid'' cid \<Longrightarrow> fc_reach E lost (snd (fc_create E cid bundle s))"
| start: "fc_reach E lost s \<Longrightarrow> hm_get (fn_instances s) cid = Some i \<Longrightarrow> fi_state i \<noteq> Fc_Running \<Longrightarrow> (\<And>w. fe_pid_written E w) \<Longrightarrow>
    fc_reach E (lost - {cid}) (snd (fc_start E cid s))"
| stop: "fc_reach E lost s \<Longrightarrow> fc_reach E (lost - {cid}) (snd (fc_stop E cid s))"
| delete: "fc_reach E lost s \<Longrightarrow> fc_reach E (lost - {cid}) (snd (fc_delete E cid s))"
| list: "fc_reach E lost s \<Longrightarrow> fe_dir_readable E (fn_host s) \<Longrightarrow> fc_reach E (lost \<union> dead_vms E s) (snd (fc_list E s))"
| restart: "fc_reach E lost s \<Longrightarrow> fe_dir_readable E (fn_host s) \<Longrightarrow> fc_reach E {} (snd (fc_list E (agent_restart s)))"
| host: "fc_reach E lost s \<Longrightarrow> fc_reach E lost (s\<lparr>fn_host := w\<rparr>)"

lemma reach_agree: "fc_reach E lost s \<Longrightarrow> agree lost (fn_instances s) (fn_pid_files s)"
proof (induction rule: fc_reach.induct)
  case (fresh w)
  then show ?case by (simp add: agree_def vm_files_def)
next
  case (create lost s cid b)
  then show ?case using create_tables by (fastforce simp: on_tables_def)
next
  case (start lost s cid i)
  then show ?case using start_tables [of lost s cid i E] by (simp add: on_tables_def)
next
  case (restart lost s)
  then show ?case using restart_list [of lost s E] by (auto simp: on_tables_def)
qed (use stop_tables delete_tables list_tables in \<open>fastforce simp: on_tables_def\<close>)+


text \<open>A host in memory: the processes that live, with numbers from 100 on, as part of a larger host.\<close>

definition mem_fc_env :: "('w \<Rightarrow> u32 list) \<Rightarrow> (u32 list \<Rightarrow> 'w \<Rightarrow> 'w) \<Rightarrow> 'w fc_env" where
  "mem_fc_env get put = \<lparr> fe_data_dir = ''/vms'', fe_kernel_path = ''/vmlinux'', fe_initrd_path = None, fe_jailer = None,
     fe_run = (\<lambda>prog args w. (Inr \<lparr> out_success = True, out_stdout = [], out_stderr = [] \<rparr>,
       if prog = ''kill'' then put (filter (\<lambda>p. show_dec (unat p) \<noteq> last args) (get w)) w else w)),
     fe_alive = (\<lambda>p w. p \<in> set (get w)), fe_exists = (\<lambda>_ _. True), fe_remove = (\<lambda>_ w. w), fe_pass = (\<lambda>w. w),
     fe_create_file = (\<lambda>_. returnM ()), fe_create_dirs = (\<lambda>_. returnM ()),
     fe_spawn = (\<lambda>_ w. (Inr (100 + of_nat (length (get w))), put (get w @ [100 + of_nat (length (get w))]) w)),
     fe_pid_written = (\<lambda>_. True), fe_dir_readable = (\<lambda>_. True), fe_put = (\<lambda>_ _. returnM ()), fe_inject = (\<lambda>_ _ _ _. returnM ()),
     fe_bundle_config = (\<lambda>_ _. ([], [])) \<rparr>"

abbreviation mem_fc :: "u32 list fc_env" where "mem_fc \<equiv> mem_fc_env (\<lambda>ps. ps) (\<lambda>ps _. ps)"

text \<open>Two VMs run; then the process of the second dies.\<close>

definition two_vms :: "u32 list fc_node" where
  "two_vms = (let s0 = \<lparr> fn_instances = [], fn_next_cid = FC_GUEST_CID, fn_pid_files = [], fn_host = [] \<rparr>;
       s1 = snd (fc_start mem_fc ''a1'' (snd (fc_create mem_fc ''a1'' ''/b'' s0)));
       s2 = snd (fc_start mem_fc ''b2'' (snd (fc_create mem_fc ''b2'' ''/b'' s1)))
     in s2\<lparr>fn_host := [100]\<rparr>)"

lemma two_vms_reach: "fc_reach mem_fc {} two_vms"
proof -
  define s0 :: "u32 list fc_node" where "s0 = \<lparr> fn_instances = [], fn_next_cid = FC_GUEST_CID, fn_pid_files = [], fn_host = [] \<rparr>"
  define s1 where "s1 = snd (fc_create mem_fc ''a1'' ''/b'' s0)"
  define s2 where "s2 = snd (fc_start mem_fc ''a1'' s1)"
  define s3 where "s3 = snd (fc_create mem_fc ''b2'' ''/b'' s2)"
  define s4 where "s4 = snd (fc_start mem_fc ''b2'' s3)"
  have idle: "map_option fi_state (hm_get (fn_instances s1) ''a1'') = Some Fc_Created" "map_option fi_state (hm_get (fn_instances s3) ''b2'') = Some Fc_Created"
    unfolding s3_def s2_def s1_def s0_def by code_simp+
  have w: "fe_pid_written mem_fc w" for w by (simp add: mem_fc_env_def)
  have nosuffix: "\<not> suffix ''.pid'' ''a1''" "\<not> suffix ''.pid'' ''b2''" by code_simp+
  have "fc_reach mem_fc {} s1" unfolding s1_def s0_def by (intro fc_reach.create fc_reach.fresh nosuffix)
  then have "fc_reach mem_fc {} s2" unfolding s2_def using fc_reach.start [of mem_fc "{}" s1 "''a1''"] idle(1) w by auto
  then have "fc_reach mem_fc {} s3" unfolding s3_def by (intro fc_reach.create nosuffix)
  then have "fc_reach mem_fc {} s4" unfolding s4_def using fc_reach.start [of mem_fc "{}" s3 "''b2''"] idle(2) w by auto
  then show ?thesis unfolding two_vms_def Let_def s4_def s3_def s2_def s1_def s0_def by (rule fc_reach.host)
qed


section \<open>Where it goes wrong\<close>

text \<open>A VM whose process has died is still reported as running, by its state and in the listing.\<close>

theorem dead_vm_reported_running:
  assumes "hm_get (fn_instances s) cid = Some i" "fi_state i = Fc_Running"
  shows "\<exists>info. fc_state E cid s = (Inr info, s) \<and> info_status info = ''running''"
  using assms by (simp add: fc_state_def instance_info_def fc_status_def)

text \<open>
  The counter of guest CIDs starts again after a restart while the VMs that had these numbers still run: the next VM
  gets context id 3, and with it the addresses, of the first VM of the node.
\<close>

theorem restart_reuses_cid:
  assumes "fc_reach E lost s" "fe_dir_readable E (fn_host s)" "fc_list E (agent_restart s) = (Inr ids, s1)" "fc_create E cid b s1 = (Inr (), s2)"
  shows "\<exists>i. hm_get (fn_instances s2) cid = Some i \<and> fi_guest_cid i = FC_GUEST_CID"
proof -
  have "fn_next_cid s1 = FC_GUEST_CID"
    using fc_list_ok [of "agent_restart s" E] agreeD(2) [OF reach_agree [OF assms(1)]] assms(2,3) by (auto simp: agent_restart_def scanned_def)
  moreover have "\<exists>i. hm_get (fn_instances s2) cid = Some i \<and> fi_guest_cid i = fn_next_cid s1"
    using assms(4) by (auto simp: fc_create_def register_vm_def fc_host_def allocate_cid_def fc_change_instances_def new_instance_def Let_def hmap_simps action_defs split: prod.splits sum.splits)
  ultimately show ?thesis by simp
qed

text \<open>The third octet of a guest address is the counter, which is never reused: from the 254th VM on there is no such address.\<close>

theorem guest_ip_valid_iff: "parse_ipv4 (guest_ip c) \<noteq> None \<longleftrightarrow> c < 256"
proof -
  have dot: "CHR ''.'' \<notin> set (show_dec n)" for n using set_show_dec is_digit_not_punct by blast
  have "guest_ip c = ''172'' @ CHR ''.'' # ''16'' @ CHR ''.'' # show_dec (unat c) @ CHR ''.'' # ''2''" by (simp add: guest_ip_def)
  then have "split_on (CHR ''.'') (guest_ip c) = [''172'', ''16'', show_dec (unat c), ''2'']"
    using dot [of "unat c"] by (simp only: split_on_append) (simp add: split_on_append)
  moreover have "parse_octet ''172'' = Some 172" "parse_octet ''16'' = Some 16" "parse_octet ''2'' = Some 2" by code_simp+
  moreover have "parse_octet (show_dec n) = None \<longleftrightarrow> \<not> n < 256" for n
  proof -
    have "parse_octet (show_dec n) \<noteq> None \<longleftrightarrow> n < 256"
  proof
    assume "parse_octet (show_dec n) \<noteq> None"
    then show "n < 256" by (auto simp: parse_octet_def digits_val_show_dec split: if_splits)
  next
    assume "n < 256"
    then have "unat (of_nat n :: u8) = n" by (simp add: unat_of_nat)
    then show "parse_octet (show_dec n) \<noteq> None" by (metis parse_octet_show_dec option.distinct(1))
  qed
    then show ?thesis by blast
  qed
  then have "(\<exists>d. parse_octet (show_dec (unat c)) = Some d) \<longleftrightarrow> c < 256" by (simp add: word_less_nat_alt flip: not_None_eq)
  ultimately show ?thesis by (cases "parse_octet (show_dec (unat c))") (auto simp: parse_ipv4_def)
qed

text \<open>The image of a root file system has room for its contents and more than 63 MiB beside.\<close>

theorem img_size_enough: "unat size_bytes + 63 * 1048576 < unat (img_size_mb size_bytes) * 1048576"
proof -
  let ?q = "size_bytes div 1048576"
  have q: "unat ?q = unat size_bytes div 1048576" by (simp add: unat_div_distrib)
  have "unat size_bytes < 2 ^ 64" using unsigned_less [of size_bytes, where 'a = nat] by simp
  then have "unat size_bytes div 1048576 < 2 ^ 44" by (simp add: less_mult_imp_div_less)
  then have "unat (?q + 64) = unat size_bytes div 1048576 + 64" by (simp add: unat_word_ariths q)
  moreover have "unat (?q + 64) \<le> unat (img_size_mb size_bytes)" by (simp add: img_size_mb_def flip: word_le_nat_alt)
  moreover have "unat size_bytes < (unat size_bytes div 1048576 + 1) * 1048576" by (simp add: dividend_less_times_div add.commute mult.commute)
  ultimately show ?thesis by linarith
qed

end
