(* ===== verification/Agent_Recovery.thy ===== *)
theory Agent_Recovery
  imports Agent_Loops Firecracker
begin

text \<open>
  What the agent's recovery does to the containers it finds when it starts (\<open>cmd/k3rs-agent/src/recovery.rs\<close>
  over \<open>pkg/container/src/runtime.rs\<close>). A locale states what recovery relies on in the two backends of a
  node; inside it, one pass of recovery is followed through discovery and the loop over what it found.
  The OCI backend and the Firecracker backend together keep this contract, on every host that keeps
  the contracts of theirs.
\<close>

section \<open>Backends\<close>

text \<open>
  A node with an OCI backend, its default, and a VM backend. \<open>oci_view\<close> and \<open>vm_view\<close> give the containers of
  each. A node starts in \<open>start\<close>; listing the VMs, which may change what the backend remembers but not the
  containers, makes it \<open>ready\<close>. A stop followed by a delete takes one container away and no other; a request to
  the server and the removal of a directory leave them as they are.
\<close>

definition reads :: "'w RuntimeBackend \<Rightarrow> ('w \<Rightarrow> string \<rightharpoonup> ContainerStateInfo) \<Rightarrow> 'w \<Rightarrow> 'w \<Rightarrow> bool" where
  "reads b view w w' \<longleftrightarrow> (\<exists>ids. rb_list b w = (Inr ids, w') \<and> set ids = dom (view w)) \<and>
     (\<forall>cid info. view w cid = Some info \<longrightarrow> rb_state b cid w' = (Inr info, w'))"

text \<open>What discovery makes of the containers of a backend.\<close>

definition seen :: "string \<Rightarrow> (string \<rightharpoonup> ContainerStateInfo) \<Rightarrow> string \<rightharpoonup> string \<times> ContainerState" where
  "seen name view cid =
     (case view cid of
        Some info \<Rightarrow> if live info then Some (name, if info_status info = ''running'' then State_Running else State_Created) else None
      | None \<Rightarrow> None)"

lemma seen_Some: "seen name view cid = Some (n, st) \<Longrightarrow> n = name \<and> view cid \<noteq> None"
  by (auto simp: seen_def split: option.splits if_splits)

lemma discover_backend:
  assumes "reads b view (rt_host r) w"
  shows "\<exists>ids r'. discover_from_backend H b r = (Inr ids, r') \<and> rt_host r' = w \<and>
    set ids = dom (seen (rb_name b) (view (rt_host r))) \<and> tracked r' = tracked r ++ seen (rb_name b) (view (rt_host r))"
proof -
  define q where "q cid = ok_or (view (rt_host r) cid) ''container does not exist''" for cid
  obtain ids where ids: "rb_list b (rt_host r) = (Inr ids, w)" "set ids = dom (view (rt_host r))"
    and st: "\<And>cid info. view (rt_host r) cid = Some info \<Longrightarrow> rb_state b cid w = (Inr info, w)"
    using assms unfolding reads_def by blast
  have "rb_state b cid w = (q cid, w)" if "cid \<in> set ids" for cid
    using that ids(2) st by (auto simp: q_def ok_or_def)
  from discover_from_backend_ok [OF ids(1) this, of H] obtain r' where r': "discover_from_backend H b r = (Inr (filter (live_at q) ids), r')"
    "rt_host r' = w" "tracked r' = (\<lambda>cid. if cid \<in> set ids \<and> live_at q cid then Some (rb_name b, found_state q cid) else tracked r cid)" by blast
  have "seen (rb_name b) (view (rt_host r)) cid = (if cid \<in> set ids \<and> live_at q cid then Some (rb_name b, found_state q cid) else None)" for cid
    by (auto simp: seen_def ids(2) live_at_def found_state_def q_def ok_or_def split: option.splits)
  then show ?thesis using r'
    by (intro exI [of _ "filter (live_at q) ids"] exI [of _ r']) (auto simp: map_add_def fun_eq_iff dom_def split: if_splits)
qed

text \<open>A node that is ready and has these containers.\<close>

definition holding :: "('w \<Rightarrow> bool) \<Rightarrow> ('w \<Rightarrow> string \<rightharpoonup> ContainerStateInfo) \<Rightarrow> ('w \<Rightarrow> string \<rightharpoonup> ContainerStateInfo) \<Rightarrow>
    (string \<rightharpoonup> ContainerStateInfo) \<Rightarrow> (string \<rightharpoonup> ContainerStateInfo) \<Rightarrow> 'w \<Rightarrow> bool" where
  "holding ready oci_view vm_view oci vms w \<longleftrightarrow> ready w \<and> oci_view w = oci \<and> vm_view w = vms"

locale node_backends =
  fixes H :: "'w host" and X :: "'w outside" and vm :: "'w RuntimeBackend"
    and oci_view vm_view :: "'w \<Rightarrow> string \<rightharpoonup> ContainerStateInfo" and start ready :: "'w \<Rightarrow> bool" and answer :: "Pod list option result"
  assumes names: "rb_name vm = ''vm''" "rb_name (default_backend H) \<noteq> ''vm''"
    and vm_ready: "vm_backend H w = (Inr vm, w)"
    and by_name: "oci_with_name H (rb_name (default_backend H)) = Inr (default_backend H)"
    and reads: "start w \<Longrightarrow> reads (default_backend H) oci_view w w"
      "start w \<Longrightarrow> \<exists>w'. reads vm vm_view w w' \<and> holding ready oci_view vm_view (oci_view w) (vm_view w) w'"
    and gone: "holding ready oci_view vm_view oci vms w \<Longrightarrow>
        holding ready oci_view vm_view (oci(cid := None)) vms (snd (rb_delete (default_backend H) cid (snd (rb_stop (default_backend H) cid w))))"
      "holding ready oci_view vm_view oci vms w \<Longrightarrow>
        holding ready oci_view vm_view oci (vms(cid := None)) (snd (rb_delete vm cid (snd (rb_stop vm cid w))))"
    and answers: "ready w \<Longrightarrow> fst (http_pods X w) = answer"
    and quiet: "holding ready oci_view vm_view oci vms w \<Longrightarrow> holding ready oci_view vm_view oci vms (snd (remove_container_dir H d w))"
      "holding ready oci_view vm_view oci vms w \<Longrightarrow> holding ready oci_view vm_view oci vms (snd (http_pods X w))"
      "holding ready oci_view vm_view oci vms w \<Longrightarrow> holding ready oci_view vm_view oci vms (snd (http_put_status X ns name st w))"
begin

definition discovered :: "'w \<Rightarrow> string \<rightharpoonup> string \<times> ContainerState" where
  "discovered w = seen (rb_name (default_backend H)) (oci_view w) ++ seen ''vm'' (vm_view w)"

lemma discover_all:
  assumes "rt_containers r = []" "start (rt_host r)"
  shows "\<exists>ids r'. discover_running_containers H r = (Inr ids, r') \<and> tracked r' = discovered (rt_host r) \<and> set ids = dom (discovered (rt_host r)) \<and>
    holding ready oci_view vm_view (oci_view (rt_host r)) (vm_view (rt_host r)) (rt_host r')"
proof -
  obtain ids1 r1 where 1: "discover_from_backend H (default_backend H) r = (Inr ids1, r1)" "rt_host r1 = rt_host r"
    "set ids1 = dom (seen (rb_name (default_backend H)) (oci_view (rt_host r)))" "tracked r1 = tracked r ++ seen (rb_name (default_backend H)) (oci_view (rt_host r))"
    using discover_backend [OF reads(1) [OF assms(2)]] by blast
  obtain w where w: "reads vm vm_view (rt_host r1) w" "holding ready oci_view vm_view (oci_view (rt_host r)) (vm_view (rt_host r)) w"
    using reads(2) [OF assms(2)] 1(2) by auto
  obtain ids2 r2 where 2: "discover_from_backend H vm r1 = (Inr ids2, r2)" "rt_host r2 = w"
    "set ids2 = dom (seen ''vm'' (vm_view (rt_host r)))" "tracked r2 = tracked r1 ++ seen ''vm'' (vm_view (rt_host r))"
    using discover_backend [OF w(1)] names(1) 1(2) by metis
  have "tracked r = Map.empty" using assms by (simp add: tracked_def fun_eq_iff)
  moreover have "r1\<lparr>rt_host := rt_host r\<rparr> = r1" using 1(2) by (cases r1) simp
  then have "discover_running_containers H r = (Inr (ids1 @ ids2), r2)"
    using 1(1,2) 2(1) vm_ready names(2) by (simp add: discover_running_containers_def bindM_def tryM_def on_host_def returnM_def)
  ultimately show ?thesis using 1 2 w(2) by (auto simp: discovered_def)
qed

text \<open>A container is cleaned up on the backend that it was discovered on.\<close>

lemma backend_of:
  "tracked r cid = Some (rb_name (default_backend H), st) \<Longrightarrow> get_backend_for_container H cid r = (Inr (default_backend H), r)"
  "tracked r cid = Some (''vm'', st) \<Longrightarrow> get_backend_for_container H cid r = (Inr vm, r)"
  "tracked r cid = None \<Longrightarrow> get_backend_for_container H cid r = (Inr (default_backend H), r)"
  using names(2) by_name vm_ready [of "rt_host r"]
  by (auto simp: get_backend_for_container_def tracked_def on_host_def action_defs)

lemma cleanup_on:
  assumes "get_backend_for_container H cid r = (Inr b, r)"
  shows "\<exists>r'. snd (cleanup_container H cid r) = r' \<and> tracked r' = (tracked r)(cid := None) \<and>
    rt_host r' = snd (remove_container_dir H (container_dir H cid) (snd (rb_delete b cid (snd (rb_stop b cid (rt_host r))))))"
  using assms by (auto simp: cleanup_container_def tracked_def fun_eq_iff on_host_def action_defs hmap_simps split: prod.splits)

text \<open>The state of the loop: the containers in \<open>gone_ids\<close> are cleaned up, the rest is as discovery left it.\<close>

definition without :: "'w \<Rightarrow> string set \<Rightarrow> 'w runtime \<Rightarrow> bool" where
  "without w gone_ids r \<longleftrightarrow> tracked r = discovered w |` (- gone_ids) \<and>
     holding ready oci_view vm_view (oci_view w |` (- gone_ids)) (vm_view w |` (- gone_ids)) (rt_host r)"

lemma cleanup_step:
  assumes disj: "dom (oci_view w) \<inter> dom (vm_view w) = {}" and r: "without w gone_ids r" and cid: "cid \<in> dom (discovered w)"
  shows "without w (insert cid gone_ids) (snd (cleanup_container H cid r))"
proof -
  have upd: "n |` (- insert cid gone_ids) = (n |` (- gone_ids))(cid := None)" for n :: "string \<rightharpoonup> 'z"
    by (auto simp: restrict_map_def fun_eq_iff)
  have same: "n |` (- insert cid gone_ids) = n |` (- gone_ids)" if "n cid = None \<or> cid \<in> gone_ids" for n :: "string \<rightharpoonup> 'z"
    using that by (auto simp: restrict_map_def fun_eq_iff)
  have t: "tracked r = discovered w |` (- gone_ids)"
    and h: "holding ready oci_view vm_view (oci_view w |` (- gone_ids)) (vm_view w |` (- gone_ids)) (rt_host r)" using r by (auto simp: without_def)
  obtain n st where d: "discovered w cid = Some (n, st)" using cid by auto
  then consider (past) "cid \<in> gone_ids" | (vm) "cid \<notin> gone_ids" "n = ''vm''" "oci_view w cid = None"
    | (oci) "cid \<notin> gone_ids" "n = rb_name (default_backend H)" "vm_view w cid = None"
    using disj by (fastforce simp: discovered_def map_add_Some_iff dest: seen_Some)
  then show ?thesis
  proof cases
    case vm
    then have "tracked r cid = Some (''vm'', st)" using d t by (simp add: restrict_map_def)
    from cleanup_on [OF backend_of(2) [OF this]] show ?thesis unfolding without_def upd [of "discovered w"] upd [of "vm_view w"] same [of "oci_view w", OF disjI1 [OF vm(3)]]
      using t gone(2) [OF h, THEN quiet(1)] by auto
  next
    case oci
    then have "tracked r cid = Some (rb_name (default_backend H), st)" using d t by (simp add: restrict_map_def)
    from cleanup_on [OF backend_of(1) [OF this]] show ?thesis unfolding without_def upd [of "discovered w"] upd [of "oci_view w"] same [of "vm_view w", OF disjI1 [OF oci(3)]]
      using t gone(1) [OF h, THEN quiet(1)] by auto
  next
    case past
    then have "tracked r cid = None" using t by (simp add: restrict_map_def)
    from cleanup_on [OF backend_of(3) [OF this]] show ?thesis unfolding without_def upd [of "discovered w"] upd [of "oci_view w"] same [of "vm_view w", OF disjI2 [OF past]]
      using t gone(1) [OF h, THEN quiet(1)] by auto
  qed
qed

lemma report_step:
  assumes "without w gone_ids r"
  shows "without w gone_ids (snd (put_status X pod st r))"
proof -
  have "tracked (snd (put_status X pod st r)) = tracked r" "\<exists>ns name. rt_host (snd (put_status X pod st r)) = snd (http_put_status X ns name st (rt_host r))"
    by (auto simp: put_status_def ignoreM_def on_host_def tracked_def fun_eq_iff split: prod.split) (metis snd_conv)
  then show ?thesis using assms quiet(3) by (auto simp: without_def)
qed

lemma recovery_loop:
  assumes disj: "dom (oci_view w) \<inter> dom (vm_view w) = {}" and "without w gone_ids r" "set ids \<subseteq> dom (discovered w)"
    and f: "\<And>cid r. f cid r = (if cid \<in> keep then (Inr (), snd (put_status X (the_pod cid) Pod_Running r)) else (Inr (), snd (cleanup_container H cid r)))"
  shows "\<exists>r'. forM ids f r = (Inr (), r') \<and> without w (gone_ids \<union> (set ids - keep)) r'"
  using assms(2,3)
proof (induction ids arbitrary: r gone_ids)
  case Nil
  then show ?case by (simp add: returnM_def)
next
  case (Cons cid ids)
  define r1 where "r1 = snd (f cid r)"
  have f1: "f cid r = (Inr (), r1)" by (simp add: r1_def f)
  have "without w (gone_ids \<union> ({cid} - keep)) r1"
    using Cons.prems report_step cleanup_step [OF disj] by (simp add: r1_def f insert_Diff_if)
  from Cons.IH [OF this] Cons.prems(2) obtain r' where "forM ids f r1 = (Inr (), r')" "without w (gone_ids \<union> ({cid} - keep) \<union> (set ids - keep)) r'" by auto
  moreover have "gone_ids \<union> ({cid} - keep) \<union> (set ids - keep) = gone_ids \<union> (set (cid # ids) - keep)" by auto
  ultimately show ?case using f1 by (auto simp: bindM_def)
qed

definition wanted :: "Pod list \<Rightarrow> Pod list" where
  "wanted cached_pods = (case answer of Inr body \<Rightarrow> or_default body | Inl _ \<Rightarrow> cached_pods)"

lemma recovery_ok:
  fixes node_id :: "string option" and cached_pods :: "Pod list"
  assumes disj: "dom (oci_view (rt_host r)) \<inter> dom (vm_view (rt_host r)) = {}" and "rt_containers r = []" and "start (rt_host r)"
  defines "keep \<equiv> (if node_id = None then {} else Pod_id ` set (wanted cached_pods))"
  shows "\<exists>r'. run_recovery H X node_id cached_pods r = (Inr (), r') \<and> without (rt_host r) (dom (discovered (rt_host r)) - keep) r'"
proof -
  let ?w = "rt_host r"
  obtain ids r1 where 1: "discover_running_containers H r = (Inr ids, r1)" "tracked r1 = discovered ?w" "set ids = dom (discovered ?w)"
    "holding ready oci_view vm_view (oci_view ?w) (vm_view ?w) (rt_host r1)"
    using discover_all [OF assms(2,3)] by blast
  show ?thesis
  proof (cases node_id)
    case None
    have "without ?w {} r1" using 1 by (simp add: without_def restrict_map_def)
    from recovery_loop [OF disj this, of ids "\<lambda>cid. ignoreM (cleanup_container H cid)" "{}"] 1(1,3) None
    show ?thesis by (simp add: run_recovery_def keep_def bindM_def tryM_def ignoreM_def)
  next
    case (Some n)
    define r2 where "r2 = r1\<lparr>rt_host := snd (http_pods X (rt_host r1))\<rparr>"
    let ?pods = "wanted cached_pods"
    have "desired_pods X cached_pods r1 = (Inr ?pods, r2)"
      using answers [of "rt_host r1"] 1(4) by (auto simp: desired_pods_def wanted_def holding_def bindM_def tryM_def on_host_def returnM_def r2_def split: prod.split)
    then have run: "run_recovery H X (Some n) cached_pods r = forM ids (recover_one H X ?pods) r2"
      using 1(1) by (simp add: run_recovery_def bindM_def tryM_def)
    have found: "find (\<lambda>p. Pod_id p = cid) (rev ?pods) = None \<longleftrightarrow> cid \<notin> Pod_id ` set ?pods" for cid
      by (auto simp: find_None_iff)
    have one: "recover_one H X ?pods cid r = (if cid \<in> Pod_id ` set ?pods
        then (Inr (), snd (put_status X (the (find (\<lambda>p. Pod_id p = cid) (rev ?pods))) Pod_Running r)) else (Inr (), snd (cleanup_container H cid r)))" for cid r
      using found [of cid] by (cases "find (\<lambda>p. Pod_id p = cid) (rev ?pods)") (auto simp: recover_one_def put_status_def ignoreM_def)
    have "without ?w {} r2" using 1(2) quiet(2) [OF 1(4)] by (simp add: without_def restrict_map_def r2_def tracked_def fun_eq_iff)
    from recovery_loop [OF disj this _ one, of ids] 1(3) show ?thesis by (simp add: run keep_def Some)
  qed
qed

end

section \<open>The OCI and the Firecracker backend of a node\<close>

text \<open>The OCI backend works on the host part of the node.\<close>

definition lift_backend :: "'w RuntimeBackend \<Rightarrow> 'w fc_node RuntimeBackend" where
  "lift_backend b = \<lparr> rb_name = rb_name b, rb_handles_images = rb_handles_images b, rb_create = (\<lambda>cid dir. fc_host (rb_create b cid dir)),
     rb_create_from_image = (\<lambda>cid img command. fc_host (rb_create_from_image b cid img command)), rb_start = (\<lambda>cid. fc_host (rb_start b cid)),
     rb_stop = (\<lambda>cid. fc_host (rb_stop b cid)), rb_delete = (\<lambda>cid. fc_host (rb_delete b cid)), rb_list = fc_host (rb_list b),
     rb_state = (\<lambda>cid. fc_host (rb_state b cid)) \<rparr>"

text \<open>After a restart the table of VMs is empty; after the first listing it holds the VMs whose process lives.\<close>

definition restarted :: "'w fc_env \<Rightarrow> 'w fc_node \<Rightarrow> bool" where
  "restarted E s \<longleftrightarrow> fn_instances s = [] \<and> vm_files (fn_pid_files s) \<and> fe_dir_readable E (fn_host s)"

definition relisted :: "'w fc_env \<Rightarrow> 'w fc_node \<Rightarrow> bool" where
  "relisted E s \<longleftrightarrow> (\<forall>cid i. hm_get (fn_instances s) cid = Some i \<longrightarrow> fi_state i = Fc_Running) \<and>
     (\<forall>cid. live_file E (fn_host s) (fn_pid_files s) cid \<noteq> None \<longrightarrow> hm_get (fn_instances s) cid \<noteq> None)"

lemma fc_view_relisted: "relisted E s \<Longrightarrow> fc_view E s cid = map_option (instance_info cid) (hm_get (fn_instances s) cid)"
  by (cases "hm_get (fn_instances s) cid") (auto simp: relisted_def fc_view_def Let_def simp del: map_of_eq_Some_iff)

lemma restarted_lists:
  assumes "restarted E s"
  shows "\<exists>s'. reads (firecracker_backend E) (fc_view E) s s' \<and> relisted E s' \<and> fc_view E s' = fc_view E s \<and> fn_host s' = fn_host s"
proof -
  obtain ids s' where l: "fc_list E s = (Inr ids, s')" "set ids = dom (fc_view E s)" "fc_view E s' = fc_view E s" "scanned E (fn_pid_files s) s s'"
    using fc_list_ok [of s E] assms by (auto simp: restarted_def)
  have "relisted E s'" using l(4) assms by (auto simp: relisted_def restarted_def scanned_def map_add_def restored_instance_def)
  moreover have "reads (firecracker_backend E) (fc_view E) s s'"
    using l(1-3) fc_state_view [of E s'] by (auto simp: reads_def firecracker_backend_def)
  ultimately show ?thesis using l(3,4) by (auto simp: scanned_def)
qed

text \<open>A change of the host that leaves the containers of the OCI runtime alone and gives no dead process' number away.\<close>

definition quietly :: "'w fc_env \<Rightarrow> ('w \<Rightarrow> string \<rightharpoonup> state_json) \<Rightarrow> 'w \<Rightarrow> 'w \<Rightarrow> bool" where
  "quietly E view w w' \<longleftrightarrow> view w' = view w \<and> (\<forall>pid. fe_alive E pid w' \<longrightarrow> fe_alive E pid w)"

lemma quietly_refl [simp]: "quietly E view w w"
  by (simp add: quietly_def)

lemma quietly_trans: "quietly E view w w1 \<Longrightarrow> quietly E view w1 w2 \<Longrightarrow> quietly E view w w2"
  by (simp add: quietly_def)

lemma live_file_mono: "(\<And>pid. fe_alive E pid w' \<Longrightarrow> fe_alive E pid w) \<Longrightarrow> live_file E w' fs cid \<noteq> None \<Longrightarrow> live_file E w fs cid \<noteq> None"
  by (auto simp: live_file_def split: option.splits if_splits)

lemma host_changed:
  assumes "relisted E s" "\<And>pid. fe_alive E pid w \<Longrightarrow> fe_alive E pid (fn_host s)"
  shows "relisted E (s\<lparr>fn_host := w\<rparr>)" "fc_view E (s\<lparr>fn_host := w\<rparr>) = fc_view E s"
proof -
  show r: "relisted E (s\<lparr>fn_host := w\<rparr>)"
    using assms live_file_mono [of E w "fn_host s"] by (auto simp: relisted_def simp del: map_of_eq_Some_iff)
  show "fc_view E (s\<lparr>fn_host := w\<rparr>) = fc_view E s"
    using fc_view_relisted [OF r] fc_view_relisted [OF assms(1)] by (simp add: fun_eq_iff)
qed

text \<open>
  A node with an OCI runtime and Firecracker: the calls the two backends make concern only their own
  containers, the server and the removal of a container's directory concern neither, and no
  number of a dead process is given to a new one meanwhile.
\<close>

locale node_host = oci_binary Eo b view for Eo :: "'w oci_env" and b view +
  fixes Ef :: "'w fc_env" and H :: "'w fc_node host" and X :: "'w fc_node outside" and answer :: "Pod list option result"
  assumes backends: "default_backend H = lift_backend (oci_backend Eo b)" "vm_backend H = returnM (firecracker_backend Ef)"
      "oci_with_name H (ob_runtime_name b) = Inr (lift_backend (oci_backend Eo b))" "ob_runtime_name b \<noteq> ''vm''"
    and oci_numbers: "fe_alive Ef pid (snd (oci_call Eo b args w)) \<Longrightarrow> fe_alive Ef pid w" "fe_alive Ef pid (oe_pass Eo w) \<Longrightarrow> fe_alive Ef pid w"
      "fe_alive Ef pid (oe_remove_dir Eo d w) \<Longrightarrow> fe_alive Ef pid w"
    and vm_calls: "quietly Ef view w (snd (fe_run Ef prog args w))" "quietly Ef view w (fe_pass Ef w)" "quietly Ef view w (fe_remove Ef path w)"
      "quietly Ef view w (snd (fe_put Ef path request w))" "fe_jailer Ef = Some cleanup \<Longrightarrow> quietly Ef view w (cleanup cid w)"
    and other_calls: "\<exists>w. snd (remove_container_dir H d s) = s\<lparr>fn_host := w\<rparr> \<and> quietly Ef view (fn_host s) w"
      "\<exists>w. snd (http_pods X s) = s\<lparr>fn_host := w\<rparr> \<and> quietly Ef view (fn_host s) w"
      "\<exists>w. snd (http_put_status X ns name st s) = s\<lparr>fn_host := w\<rparr> \<and> quietly Ef view (fn_host s) w"
    and server: "fst (http_pods X s) = answer"
begin

lemma removes: "quietly Ef view w (fe_remove Ef path1 (fe_remove Ef path2 w))" "quietly Ef view w (fe_remove Ef path1 (fe_remove Ef path2 (fe_remove Ef path3 w)))"
  by (rule quietly_trans [OF vm_calls(3) vm_calls(3)]) (rule quietly_trans [OF quietly_trans [OF vm_calls(3) vm_calls(3)] vm_calls(3)])

lemma quiet_keeps [keeps_intro]:
  "keeps (quietly Ef view w0) (fe_run Ef prog args)" "keeps (quietly Ef view w0) (modifyM (fe_pass Ef))" "keeps (quietly Ef view w0) (modifyM (fe_remove Ef path))"
  "keeps (quietly Ef view w0) (modifyM (fe_remove Ef path1 \<circ> fe_remove Ef path2))" "keeps (quietly Ef view w0) (fe_put Ef path request)"
  using vm_calls(1-4) removes(1) by (auto simp: keeps_def modifyM_def intro: quietly_trans)

lemma halt_quiet: "keeps (quietly Ef view w0) (halt_vm Ef cid i)"
  unfolding halt_vm_def signal_vm_def stop_virtiofsd_def cleanup_tap_def
  by (intro keeps_intro) (auto intro!: keeps_intro split: FcRootfsMode.split)

lemma discard_quiet: "keeps (quietly Ef view w0) (discard_rootfs Ef cid i)"
proof -
  have "keeps (quietly Ef view w0) (case fe_jailer Ef of Some cleanup \<Rightarrow> modifyM (cleanup cid) | None \<Rightarrow> returnM ())"
    using vm_calls(5) by (auto simp: keeps_def modifyM_def returnM_def split: option.split intro: quietly_trans)
  then show ?thesis unfolding discard_rootfs_def stop_virtiofsd_def
    by (cases "fi_rootfs_mode i") (auto intro!: keeps_intro)
qed

lemma host_quiet [keeps_intro]: "keeps (quietly Ef view w0) m \<Longrightarrow> keeps (\<lambda>s. quietly Ef view w0 (fn_host s)) (fc_host m)"
  by (auto simp: keeps_def fc_host_def split: prod.split)

lemma tables_quiet [keeps_intro]:
  "keeps (\<lambda>s. quietly Ef view w0 (fn_host s)) (remove_pid_file name)" "keeps (\<lambda>s. quietly Ef view w0 (fn_host s)) (fc_change_instances f)"
  by (simp_all add: keeps_def remove_pid_file_def fc_change_instances_def modifyM_def)

lemma stop_quiet: "keeps (\<lambda>s. quietly Ef view w0 (fn_host s)) (fc_stop Ef cid)"
  unfolding fc_stop_def stop_vm_def by (intro keeps_intro halt_quiet)

lemma change_quiet [keeps_intro]:
  "keeps (\<lambda>s. quietly Ef view w0 (fn_host s)) (fc_change (fe_remove Ef path1 \<circ> fe_remove Ef path2))"
  "keeps (\<lambda>s. quietly Ef view w0 (fn_host s)) (fc_change (fe_remove Ef path1 \<circ> fe_remove Ef path2 \<circ> fe_remove Ef path3))"
  using removes by (auto simp: keeps_def fc_change_def modifyM_def intro: quietly_trans)

lemma delete_quiet: "keeps (\<lambda>s. quietly Ef view w0 (fn_host s)) (fc_delete Ef cid)"
  unfolding fc_delete_def by (intro keeps_intro stop_quiet discard_quiet)

lemma vm_gone:
  fixes cid :: string
  assumes "relisted Ef s"
  defines "s' \<equiv> snd (fc_delete Ef cid (snd (fc_stop Ef cid s)))"
  shows "relisted Ef s'" "fc_view Ef s' = (fc_view Ef s)(cid := None)" "view (fn_host s') = view (fn_host s)"
proof -
  have q: "quietly Ef view (fn_host s) (fn_host s')"
    unfolding s'_def by (intro keeps_snd [OF delete_quiet] keeps_snd [OF stop_quiet]) simp
  have i: "hm_get (fn_instances s') c = (if c = cid then None else hm_get (fn_instances s) c)" for c
    by (simp add: s'_def delete_fields stop_fields with_instance_def hmap_simps split: option.split)
  have f: "hm_get (fn_pid_files s') (pid_file_name c) = (if c = cid then None else hm_get (fn_pid_files s) (pid_file_name c))" for c
    by (simp add: s'_def delete_fields stop_fields hmap_simps)
  have live: "live_file Ef (fn_host s) (fn_pid_files s) c \<noteq> None \<and> c \<noteq> cid" if "live_file Ef (fn_host s') (fn_pid_files s') c \<noteq> None" for c
    using that q by (auto simp: live_file_def f quietly_def split: option.splits if_splits)
  show r: "relisted Ef s'" unfolding relisted_def using assms(1) live by (auto simp: relisted_def i simp del: map_of_eq_Some_iff)
  show "fc_view Ef s' = (fc_view Ef s)(cid := None)"
    by (simp add: fun_eq_iff fc_view_relisted [OF r] fc_view_relisted [OF assms(1)] i)
  show "view (fn_host s') = view (fn_host s)" using q by (simp add: quietly_def)
qed

lemma oci_dead: "fe_alive Ef pid (snd (oci_delete Eo b cid (snd (oci_stop Eo b cid w)))) \<Longrightarrow> fe_alive Ef pid w"
proof -
  have "keeps (\<lambda>w'. fe_alive Ef pid w' \<longrightarrow> fe_alive Ef pid w) (oci_call Eo b args)" for args using oci_numbers(1) by (auto simp: keeps_def)
  moreover have "keeps (\<lambda>w'. fe_alive Ef pid w' \<longrightarrow> fe_alive Ef pid w) (modifyM (oe_pass Eo))" using oci_numbers(2) by (auto simp: keeps_def modifyM_def)
  moreover have "keeps (\<lambda>w'. fe_alive Ef pid w' \<longrightarrow> fe_alive Ef pid w) (modifyM (\<lambda>w. if oe_exists Eo d w then oe_remove_dir Eo d w else w))" for d
    using oci_numbers(3) by (auto simp: keeps_def modifyM_def)
  ultimately have "keeps (\<lambda>w'. fe_alive Ef pid w' \<longrightarrow> fe_alive Ef pid w) (oci_stop Eo b cid)" "keeps (\<lambda>w'. fe_alive Ef pid w' \<longrightarrow> fe_alive Ef pid w) (oci_delete Eo b cid)"
    unfolding oci_stop_def oci_delete_def by (auto intro!: keeps_intro)
  then show "fe_alive Ef pid (snd (oci_delete Eo b cid (snd (oci_stop Eo b cid w)))) \<Longrightarrow> fe_alive Ef pid w" unfolding keeps_def by blast
qed

lemma other_holding:
  assumes "holding (relisted Ef) (\<lambda>s. oci_infos view (fn_host s)) (fc_view Ef) oci vms s" "\<exists>w. s' = s\<lparr>fn_host := w\<rparr> \<and> quietly Ef view (fn_host s) w"
  shows "holding (relisted Ef) (\<lambda>s. oci_infos view (fn_host s)) (fc_view Ef) oci vms s'"
  using assms host_changed [of Ef s] by (auto simp: holding_def quietly_def oci_infos_def fun_eq_iff)

end

sublocale node_host \<subseteq> node: node_backends H X "firecracker_backend Ef" "\<lambda>s. oci_infos view (fn_host s)" "fc_view Ef" "restarted Ef" "relisted Ef" answer
proof
  fix s :: "'w fc_node" and cid :: string and oci vms
  let ?hold = "holding (relisted Ef) (\<lambda>s. oci_infos view (fn_host s)) (fc_view Ef)"
  show "rb_name (firecracker_backend Ef) = ''vm''" by (simp add: firecracker_backend_def)
  show "rb_name (default_backend H) \<noteq> ''vm''" "oci_with_name H (rb_name (default_backend H)) = Inr (default_backend H)"
    using backends by (simp_all add: lift_backend_def oci_backend_def)
  show "vm_backend H s = (Inr (firecracker_backend Ef), s)" by (simp add: backends returnM_def)
  show "reads (default_backend H) (\<lambda>s. oci_infos view (fn_host s)) s s"
    using list_exact [of "fn_host s"] state_exact [of "fn_host s"] by (auto simp: reads_def backends lift_backend_def oci_backend_def fc_host_def)
  show "\<exists>s'. reads (firecracker_backend Ef) (fc_view Ef) s s' \<and> ?hold (oci_infos view (fn_host s)) (fc_view Ef s) s'" if "restarted Ef s"
    using restarted_lists [OF that] by (auto simp: holding_def)
  show "?hold (oci(cid := None)) vms (snd (rb_delete (default_backend H) cid (snd (rb_stop (default_backend H) cid s))))" if "?hold oci vms s"
  proof -
    let ?w = "snd (oci_delete Eo b cid (snd (oci_stop Eo b cid (fn_host s))))"
    have "snd (rb_delete (default_backend H) cid (snd (rb_stop (default_backend H) cid s))) = s\<lparr>fn_host := ?w\<rparr>"
      by (simp add: backends lift_backend_def oci_backend_def fc_host_def split: prod.split)
    then show ?thesis using that stop_delete [of cid "fn_host s"] host_changed [of Ef s ?w] oci_dead by (auto simp: holding_def)
  qed
  show "?hold oci (vms(cid := None)) (snd (rb_delete (firecracker_backend Ef) cid (snd (rb_stop (firecracker_backend Ef) cid s))))" if "?hold oci vms s"
    using that vm_gone [of s cid] by (auto simp: holding_def firecracker_backend_def oci_infos_def fun_eq_iff)
  show "fst (http_pods X s) = answer" by (rule server)
qed (rule other_holding; use other_calls in blast)+

context node_host
begin

lemma node_contract: "node_backends H X (firecracker_backend Ef) (\<lambda>s. oci_infos view (fn_host s)) (fc_view Ef) (restarted Ef) (relisted Ef) answer"
  by unfold_locales

end

section \<open>Property\<close>

text \<open>What recovery leaves of a node, in terms of the two views.\<close>

definition up :: "('w \<Rightarrow> string \<rightharpoonup> ContainerStateInfo) \<Rightarrow> 'w \<Rightarrow> string \<Rightarrow> bool" where
  "up view w cid \<longleftrightarrow> (\<exists>info. view w cid = Some info \<and> live info)"

lemma seen_up: "\<not> up view w cid \<Longrightarrow> seen n (view w) cid = None" "up view w cid \<Longrightarrow> \<exists>st. seen n (view w) cid = Some (n, st)"
  by (auto simp: up_def seen_def split: option.splits)

context node_backends
begin

lemma recovery_views:
  fixes node_id :: "string option" and cached_pods :: "Pod list"
  assumes disj: "dom (oci_view (rt_host r)) \<inter> dom (vm_view (rt_host r)) = {}" and "rt_containers r = []" and "start (rt_host r)"
  defines "wanted_ids \<equiv> (if node_id = None then {} else Pod_id ` set (wanted cached_pods))"
  shows "\<exists>r'. run_recovery H X node_id cached_pods r = (Inr (), r') \<and>
    (\<forall>cid. oci_view (rt_host r') cid = (if up oci_view (rt_host r) cid \<and> cid \<notin> wanted_ids then None else oci_view (rt_host r) cid) \<and>
       vm_view (rt_host r') cid = (if up vm_view (rt_host r) cid \<and> cid \<notin> wanted_ids then None else vm_view (rt_host r) cid) \<and>
       map_option fst (tracked r' cid) =
         (if cid \<notin> wanted_ids then None else if up vm_view (rt_host r) cid then Some ''vm''
          else if up oci_view (rt_host r) cid then Some (rb_name (default_backend H)) else None))"
proof -
  let ?w = "rt_host r" let ?d = "discovered ?w"
  obtain r' where run: "run_recovery H X node_id cached_pods r = (Inr (), r')" and w: "without ?w (dom ?d - wanted_ids) r'"
    using recovery_ok [OF assms(1-3), of node_id cached_pods] unfolding wanted_ids_def by blast
  have views: "oci_view (rt_host r') cid = (if cid \<in> dom ?d \<and> cid \<notin> wanted_ids then None else oci_view ?w cid)"
    "vm_view (rt_host r') cid = (if cid \<in> dom ?d \<and> cid \<notin> wanted_ids then None else vm_view ?w cid)"
    "tracked r' cid = (if cid \<in> wanted_ids then ?d cid else None)" for cid
    using w by (cases "?d cid"; auto simp: without_def holding_def restrict_map_def)+
  have d: "?d cid = (case seen ''vm'' (vm_view ?w) cid of None \<Rightarrow> seen (rb_name (default_backend H)) (oci_view ?w) cid | Some x \<Rightarrow> Some x)" for cid
    by (simp add: discovered_def map_add_def)
  have off: "up vm_view ?w cid \<Longrightarrow> oci_view ?w cid = None" "up oci_view ?w cid \<Longrightarrow> vm_view ?w cid = None" for cid
    using disj by (auto simp: up_def)
  have "oci_view (rt_host r') cid = (if up oci_view ?w cid \<and> cid \<notin> wanted_ids then None else oci_view ?w cid) \<and>
       vm_view (rt_host r') cid = (if up vm_view ?w cid \<and> cid \<notin> wanted_ids then None else vm_view ?w cid) \<and>
       map_option fst (tracked r' cid) =
         (if cid \<notin> wanted_ids then None else if up vm_view ?w cid then Some ''vm''
          else if up oci_view ?w cid then Some (rb_name (default_backend H)) else None)" for cid
  proof (cases "up vm_view ?w cid")
    case True
    with seen_up(2) [of vm_view ?w cid "''vm''"] off(1) [of cid] show ?thesis by (auto simp: views d dom_def up_def)
  next
    case False
    then show ?thesis using seen_up [of oci_view ?w cid "rb_name (default_backend H)"] seen_up(1) [OF False] off(2) [of cid]
      by (cases "up oci_view ?w cid") (auto simp: views d dom_def)
  qed
  then show ?thesis using run by blast
qed

end


section \<open>A node in memory\<close>

text \<open>The containers of the OCI runtime and the processes of the VMs.\<close>

type_synonym mem_node = "mem_oci \<times> u32 list"

abbreviation node_oci :: "mem_node oci_env" where "node_oci \<equiv> mem_oci_env fst (\<lambda>cs w. (cs, snd w))"
abbreviation node_fc :: "mem_node fc_env" where "node_fc \<equiv> mem_fc_env snd (\<lambda>ps w. (fst w, ps))"
abbreviation node_view :: "mem_node \<Rightarrow> string \<rightharpoonup> state_json" where "node_view \<equiv> mem_runtime_view fst"

definition mem_host :: "mem_node fc_node host" where
  "mem_host = \<lparr> data_dir = ''/d'', default_backend = lift_backend (oci_backend node_oci mem_crun), vm_backend = returnM (firecracker_backend node_fc),
     oci_with_name = (\<lambda>_. Inr (lift_backend (oci_backend node_oci mem_crun))), oci_download = (\<lambda>_. failM (Err ''offline'')),
     native_init = True, image_pull = (\<lambda>_. returnM []), prepare_bundle = (\<lambda>_ _ _ _ _. returnM ()), remove_container_dir = (\<lambda>_. returnM ()), clock = int \<rparr>"

text \<open>A server that answers with the given body when asked for the pods of the node.\<close>

definition answering :: "Pod list option \<Rightarrow> mem_node fc_node outside" where
  "answering body = \<lparr> http_heartbeat = returnM True, http_register = returnM (''id1'', 81), http_pods = returnM body,
     http_namespaces = returnM None, http_services = (\<lambda>_. returnM None), http_endpoints = (\<lambda>_. returnM None), http_peerings = returnM None,
     http_put_status = (\<lambda>_ _ _. returnM ()), http_put_vpc = (\<lambda>_ _ _ _. returnM ()), vpc_socket = (\<lambda>_. False), vpc_request = (\<lambda>_. failM (Err ''no'')),
     setup_pod_network = (\<lambda>_ _ _ _. returnM ()), teardown_pod_network = (\<lambda>_. returnM ()), container_pid = (\<lambda>_ _. None) \<rparr>"

lemma runtime_keeps_processes: "snd (snd (oci_call node_oci mem_crun args w)) = snd w"
  by (simp add: oci_call_def mem_oci_env_def split: prod.split)

interpretation memnode: node_host node_oci mem_crun node_view node_fc mem_host "answering body" "Inr body"
proof (intro node_host.intro node_host_axioms.intro)
  show "oci_binary node_oci mem_crun node_view" by (rule mem_oci_binary) simp_all
  fix pid :: u32 and w :: mem_node and s :: "mem_node fc_node" and args :: "string list" and d path prog ns name cid :: string and st request cleanup
  show "fe_alive node_fc pid w" if "fe_alive node_fc pid (snd (oci_call node_oci mem_crun args w))"
    using that by (simp add: mem_fc_env_def runtime_keeps_processes)
  show "\<exists>w. snd (remove_container_dir mem_host d s) = s\<lparr>fn_host := w\<rparr> \<and> quietly node_fc node_view (fn_host s) w"
    "\<exists>w. snd (http_pods (answering body) s) = s\<lparr>fn_host := w\<rparr> \<and> quietly node_fc node_view (fn_host s) w"
    "\<exists>w. snd (http_put_status (answering body) ns name st s) = s\<lparr>fn_host := w\<rparr> \<and> quietly node_fc node_view (fn_host s) w"
    by (rule exI [of _ "fn_host s"], simp add: mem_host_def answering_def returnM_def)+
qed (auto simp: mem_host_def mem_crun_def mem_fc_env_def mem_oci_env_def mem_runtime_view_def quietly_def answering_def returnM_def fun_eq_iff)

text \<open>Three containers, of which one has ended, and a VM.\<close>

definition with_vm :: "mem_node fc_node" where
  "with_vm = snd (fc_start node_fc ''v1'' (snd (fc_create node_fc ''v1'' ''/b''
     \<lparr> fn_instances = [], fn_next_cid = FC_GUEST_CID, fn_pid_files = [], fn_host = ([(''p1'', ''running''), (''p2'', ''running''), (''p3'', ''stopped'')], []) \<rparr>)))"

lemma with_vm_reach: "fc_reach node_fc {} with_vm"
proof -
  define s0 :: "mem_node fc_node" where "s0 = \<lparr> fn_instances = [], fn_next_cid = FC_GUEST_CID, fn_pid_files = [],
    fn_host = ([(''p1'', ''running''), (''p2'', ''running''), (''p3'', ''stopped'')], []) \<rparr>"
  define s1 where "s1 = snd (fc_create node_fc ''v1'' ''/b'' s0)"
  have "map_option fi_state (hm_get (fn_instances s1) ''v1'') = Some Fc_Created" unfolding s1_def s0_def by code_simp
  moreover have "fc_reach node_fc {} s1" unfolding s1_def s0_def by (intro fc_reach.create fc_reach.fresh) code_simp
  ultimately have "fc_reach node_fc {} (snd (fc_start node_fc ''v1'' s1))"
    using fc_reach.start [of node_fc "{}" s1 "''v1''"] by (auto simp: mem_fc_env_def)
  then show ?thesis unfolding s1_def s0_def with_vm_def .
qed


text \<open>An answer that is no list of pods counts as no pods: recovery stops everything that runs on the node.\<close>

theorem unreadable_answer_stops_all:
  assumes "node_host Eo b view Ef H X (Inr None)"
    and "restarted Ef (rt_host r)" and "rt_containers r = []" and "dom (oci_infos view (fn_host (rt_host r))) \<inter> dom (fc_view Ef (rt_host r)) = {}"
  shows "\<exists>r'. run_recovery H X (Some n) cached_pods r = (Inr (), r') \<and> (\<forall>cid. \<not> up (\<lambda>s. oci_infos view (fn_host s)) (rt_host r') cid \<and> \<not> up (fc_view Ef) (rt_host r') cid)"
proof -
  note B = node_host.node_contract [OF assms(1)]
  have "node_backends.wanted (Inr None) cached_pods = []" by (simp add: node_backends.wanted_def [OF B] or_default_def)
  then show ?thesis using node_backends.recovery_views [OF B assms(4,3,2), of "Some n" cached_pods] by (auto simp: up_def)
qed

end
