(* ===== verification/Route_Sync.thy ===== *)
theory Route_Sync
  imports Agent_Loops
begin

text \<open>
  What a pass of the route sync gives the DNS server and the service proxy (\<open>cmd/k3rs-agent/src/loops/route_sync.rs\<close>):
  the answers of the server and of the VPC daemon are followed through the maps of the pass into the
  tables that decide which VPC a querying pod and a service belong to.
\<close>

section \<open>A pass with answers\<close>

text \<open>The server and the daemon answer every request of a pass and nothing else changes meanwhile.\<close>

definition answers :: "'w outside \<Rightarrow> 'w \<Rightarrow> string list \<Rightarrow> (string \<Rightarrow> Service list) \<Rightarrow> (string \<Rightarrow> Endpoint list) \<Rightarrow> VpcPeering list \<Rightarrow> bool" where
  "answers X w names services endpoints peerings \<longleftrightarrow> http_namespaces X w = (Inr (Some names), w) \<and>
     (\<forall>ns. http_services X ns w = (Inr (Some (services ns)), w) \<and> http_endpoints X ns w = (Inr (Some (endpoints ns)), w)) \<and>
     http_peerings X w = (Inr (Some peerings), w)"

definition daemon_answers :: "'w outside \<Rightarrow> 'w \<Rightarrow> VpcInfo list \<Rightarrow> (u16 \<Rightarrow> RouteEntry list) \<Rightarrow> bool" where
  "daemon_answers X w vpcs routes \<longleftrightarrow> vpc_request X ListVpcs w = (Inr (VpcList vpcs), w) \<and>
     (\<forall>i. vpc_request X (GetRoutes i) w = (Inr (Routes (routes i)), w))"

definition route_ips :: "RouteEntry list \<Rightarrow> string set" where
  "route_ips routes = RouteEntry_destination ` set routes \<union> RouteEntry_next_hop ` set routes"

definition with_vpc :: "(u16 \<Rightarrow> RouteEntry list) \<Rightarrow> VpcInfo \<Rightarrow> vpc_maps \<Rightarrow> vpc_maps" where
  "with_vpc routes v m = add_routes (VpcInfo_name v) (routes (VpcInfo_vpc_id v))
     (m\<lparr>vpc_name_to_id := hm_insert (VpcInfo_name v) (VpcInfo_vpc_id v) (vpc_name_to_id m)\<rparr>)"

lemma fetch_vpcs_ok: "daemon_answers X w vs routes \<Longrightarrow> fetch_vpcs X vpcs m w = (Inr (fold (with_vpc routes) vpcs m), w)"
  by (induction vpcs arbitrary: m)
    (simp_all add: daemon_answers_def returnM_def bindM_def tryM_def vpc_get_routes_def expecting_def with_vpc_def Let_def)

lemma fetch_vpc_maps_ok: "daemon_answers X w vpcs routes \<Longrightarrow> fetch_vpc_maps X w = (Inr (fold (with_vpc routes) vpcs no_vpcs), w)"
  using fetch_vpcs_ok [of X w vpcs routes vpcs no_vpcs]
  by (simp add: fetch_vpc_maps_def daemon_answers_def bindM_def tryM_def returnM_def vpc_list_vpcs_def expecting_def)

lemma fetch_namespaces_ok:
  "answers X w all services endpoints peerings \<Longrightarrow>
   fetch_namespaces X names w = (Inr (concat (map services names), concat (map endpoints names)), w)"
  by (induction names) (simp_all add: answers_def returnM_def bindM_def tryM_def or_default_def)

lemma add_routes_ip: "hm_get (ip_to_vpc (add_routes name routes m)) ip = (if ip \<in> route_ips routes then Some name else hm_get (ip_to_vpc m) ip)"
proof -
  have "hm_get (fold (\<lambda>e t. hm_insert (RouteEntry_next_hop e) name (hm_insert (RouteEntry_destination e) name t)) routes t) ip =
      (if ip \<in> route_ips routes then Some name else hm_get t ip)" for t
    by (induction routes arbitrary: t) (auto simp: route_ips_def hmap_simps)
  then show ?thesis by (simp add: add_routes_def)
qed

text \<open>The VPC of an address is that of the last VPC that routes it.\<close>

lemma vpc_of_ip:
  "hm_get (ip_to_vpc (fold (with_vpc routes) vpcs no_vpcs)) ip =
   map_option VpcInfo_name (find (\<lambda>v. ip \<in> route_ips (routes (VpcInfo_vpc_id v))) (rev vpcs))"
  by (induction vpcs rule: rev_induct) (simp_all add: no_vpcs_def with_vpc_def add_routes_ip)

lemma on_world_quiet: "m (rt_host (ag_runtime a)) = (x, rt_host (ag_runtime a)) \<Longrightarrow> on_world m a = (x, a)"
  by (simp add: on_world_def on_runtime_def on_host_def)

text \<open>The state a pass leaves, up to the cache, which it saves afterwards.\<close>

lemma route_sync_serves:
  fixes P :: "('p, 'lb) pingora" and a :: "('db, 'lb, 'w) agent"
  assumes "is_connected (ag_connectivity a)" "answers X (rt_host (ag_runtime a)) names services endpoints peerings" "names \<noteq> []"
    and maps: "fetch_vpc_maps X (rt_host (ag_runtime a)) = (Inr m, rt_host (ag_runtime a))"
  defines "b \<equiv> serve P (concat (map services names)) (concat (map endpoints names)) m peerings a"
  shows "ag_dns (snd (route_sync_pass P A C X now a)) = ag_dns b" "ag_proxy (snd (route_sync_pass P A C X now a)) = ag_proxy b"
proof -
  let ?w = "rt_host (ag_runtime a)"
  have n: "on_world (http_namespaces X) a = (Inr (Some names), a)" "on_world (http_peerings X) a = (Inr (Some peerings), a)"
    "on_world (fetch_vpc_maps X) a = (Inr m, a)"
    "on_world (fetch_namespaces X names) a = (Inr (concat (map services names), concat (map endpoints names)), a)"
    using assms(2) maps fetch_namespaces_ok [OF assms(2), of names] by (auto intro!: on_world_quiet simp: answers_def)
  have keep: "ag_dns (snd (save_cache A C c)) = ag_dns c" "ag_proxy (snd (save_cache A C c)) = ag_proxy c" for c :: "('db, 'lb, 'w) agent"
    by (simp_all add: save_cache_def split: prod.split)
  show "ag_dns (snd (route_sync_pass P A C X now a)) = ag_dns b" "ag_proxy (snd (route_sync_pass P A C X now a)) = ag_proxy b"
    using assms(1,3) n by (simp_all add: route_sync_pass_def bindM_def getM_def tryM_def modifyM_def or_default_def Let_def keep b_def)
qed

definition vpc_of_service :: "Service \<Rightarrow> string" where
  "vpc_of_service svc = (case Service_vpc svc of Some v \<Rightarrow> v | None \<Rightarrow> ''default'')"

lemma service_record:
  assumes "svc \<in> set services" "Service_cluster_ip svc = Some ip"
    and "\<forall>s\<in>set services. Service_cluster_ip s \<noteq> None \<and> fqdn_of (dns_domain_suffix d) s = fqdn_of (dns_domain_suffix d) svc \<longrightarrow> s = svc"
  shows "\<exists>vid. hm_get (dns_vpc_records (update_records_vpc services members ids d)) (fqdn_of (dns_domain_suffix d) svc) = Some (ip, vpc_of_service svc, vid)"
proof -
  let ?f = "\<lambda>svc m. case Service_cluster_ip svc of
       Some cluster_ip \<Rightarrow>
         let svc_vpc = (case Service_vpc svc of Some v \<Rightarrow> v | None \<Rightarrow> ''default'');
             vid = (case hm_get ids svc_vpc of Some i \<Rightarrow> i | None \<Rightarrow> DEFAULT_VPC_ID)
         in hm_insert (fqdn_of (dns_domain_suffix d) svc) (cluster_ip, svc_vpc, vid) m
     | None \<Rightarrow> m"
  have "\<exists>vid. hm_get (fold ?f services []) (fqdn_of (dns_domain_suffix d) svc) = Some (ip, vpc_of_service svc, vid)"
    using assms(1,3)
  proof (induction services rule: rev_induct)
    case (snoc s ss)
    then show ?case using assms(2) by (auto simp: hmap_simps Let_def vpc_of_service_def split: option.split)
  qed simp
  then show ?thesis by (simp add: update_records_vpc_def)
qed

section \<open>Properties\<close>

text \<open>C39: a route sync keeps VPCs apart in DNS as the server and the daemon have them: after a pass in which both answered, a query from
  an address that the daemon routes in one VPC only, for the name of a service, is answered only when
  the service is in that VPC or an active peering of the server allows that VPC to reach the service's.\<close>

theorem route_sync_scopes_dns:
  assumes conn: "is_connected (ag_connectivity a)" and srv: "answers X (rt_host (ag_runtime a)) names services endpoints peerings" "names \<noteq> []"
    and vpcd: "daemon_answers X (rt_host (ag_runtime a)) vpcs routes"
    and pod: "v \<in> set vpcs" "src \<in> route_ips (routes (VpcInfo_vpc_id v))"
      "\<forall>u\<in>set vpcs. src \<in> route_ips (routes (VpcInfo_vpc_id u)) \<longrightarrow> VpcInfo_name u = VpcInfo_name v"
    and svc: "svc \<in> set (concat (map services names))" "Service_cluster_ip svc = Some ip"
      "\<forall>s\<in>set (concat (map services names)). Service_cluster_ip s \<noteq> None \<and>
         fqdn_of (dns_domain_suffix (ag_dns a)) s = fqdn_of (dns_domain_suffix (ag_dns a)) svc \<longrightarrow> s = svc"
    and query: "parse_dns_name query 12 = Some (fqdn_of (dns_domain_suffix (ag_dns a)) svc)"
      "handle_dns_query forward (ag_dns (snd (route_sync_pass P A C X now a))) src query = Some response"
  shows "VpcInfo_name v = vpc_of_service svc \<or> (\<exists>p\<in>set peerings. peering_allows p (VpcInfo_name v) (vpc_of_service svc))"
proof -
  define m where "m = fold (with_vpc routes) vpcs no_vpcs"
  define d where "d = update_records (concat (map services names)) (ag_dns a)"
  define s where "s = update_records_vpc (concat (map services names)) (ip_to_vpc m) (vpc_name_to_id m) d"
  have suf: "dns_domain_suffix d = dns_domain_suffix (ag_dns a)" "dns_domain_suffix s = dns_domain_suffix (ag_dns a)"
    by (simp_all add: d_def s_def update_records_def update_records_vpc_def)
  have dns: "ag_dns (snd (route_sync_pass P A C X now a)) = update_peerings peerings s"
    unfolding route_sync_serves(1) [OF conn srv fetch_vpc_maps_ok [OF vpcd]] by (simp add: serve_def s_def d_def m_def)
  obtain u where u: "find (\<lambda>v. src \<in> route_ips (routes (VpcInfo_vpc_id v))) (rev vpcs) = Some u"
    using pod(1,2) by (cases "find (\<lambda>v. src \<in> route_ips (routes (VpcInfo_vpc_id v))) (rev vpcs)") (auto simp: find_None_iff)
  then have "u \<in> set vpcs" "src \<in> route_ips (routes (VpcInfo_vpc_id u))" by (metis find_Some_iff nth_mem set_rev)+
  then have "hm_get (dns_vpc_members s) src = Some (VpcInfo_name v)"
    using pod(3) u by (simp add: s_def update_records_vpc_def m_def vpc_of_ip)
  moreover obtain vid where "hm_get (dns_vpc_records s) (fqdn_of (dns_domain_suffix (ag_dns a)) svc) = Some (ip, vpc_of_service svc, vid)"
    using service_record [OF svc(1,2), of d "ip_to_vpc m" "vpc_name_to_id m"] svc(3) by (auto simp: s_def suf)
  moreover have "suffix (dns_domain_suffix s) (fqdn_of (dns_domain_suffix (ag_dns a)) svc)"
    by (auto simp: suf fqdn_of_def suffix_def)
  ultimately show ?thesis using answered_query_scoped [OF query(2) [unfolded dns] query(1)] by blast
qed

text \<open>A pod of VPC \<open>web\<close> asks for a service of VPC \<open>shop\<close>, which a peering lets it reach.\<close>

definition shop_service :: Service where
  "shop_service = (http_service ''api'' (show_ipv4 0x0A2B0007))\<lparr>Service_vpc := Some ''shop''\<rparr>"

definition shop_lab :: "unit outside" where
  "shop_lab = lab\<lparr>http_services := (\<lambda>_. returnM (Some [shop_service])), http_peerings := returnM (Some [web_shop]),
     vpc_request := (\<lambda>req. case req of
         ListVpcs \<Rightarrow> returnM (VpcList [\<lparr> VpcInfo_name = ''web'', VpcInfo_vpc_id = 5, VpcInfo_ipv4_cidr = ''10.0.0.0/24'', VpcInfo_status = Vpc_Active \<rparr>,
           \<lparr> VpcInfo_name = ''shop'', VpcInfo_vpc_id = 7, VpcInfo_ipv4_cidr = ''10.43.0.0/24'', VpcInfo_status = Vpc_Active \<rparr>])
       | GetRoutes i \<Rightarrow> returnM (Routes (if i = 5 then [\<lparr> RouteEntry_destination = ''10.0.0.5'', RouteEntry_next_hop = ''fd00::5'' \<rparr>] else []))
       | _ \<Rightarrow> failM (Err ''no''))\<rparr>"

definition shop_synced :: "(unit, string list, unit) agent" where
  "shop_synced = snd (route_sync_pass list_pingora null_agent_db tag_agent_serde shop_lab 1 lab_boot)"

definition api_query :: bytes where
  "api_query = replicate 12 0 @ wire_name api_labels @ u16_to_be_bytes QTYPE_A @ [0, 1]"

lemma shop_synced_dns: "resolve_internal (ag_dns shop_synced) ''api.default.svc.cluster.local'' (hm_get (dns_vpc_members (ag_dns shop_synced)) ''10.0.0.5'') = Some (show_ipv4 0x0A2B0007, 7)"
  "dns_domain_suffix (ag_dns shop_synced) = ''svc.cluster.local''" "dns_domain_suffix (ag_dns lab_boot) = ''svc.cluster.local''" "is_connected (ag_connectivity lab_boot)"
  by code_simp+

theorem route_sync_scopes_dns_witness:
  "(\<exists>response. handle_dns_query (\<lambda>_. None) (ag_dns shop_synced) ''10.0.0.5'' api_query = Some response) \<and>
   (''web'' = ''shop'' \<or> (\<exists>p\<in>set [web_shop]. peering_allows p ''web'' ''shop''))"
proof -
  have l: "\<forall>l\<in>set api_labels. label_ok l" using api_labels_ok by (simp add: list_all_iff)
  have "suffix (dns_domain_suffix (ag_dns shop_synced)) ''api.default.svc.cluster.local''"
    unfolding shop_synced_dns(2) by (auto intro!: suffixI [where zs = "''api.default.''"])
  then obtain r where r: "handle_dns_query (\<lambda>_. None) (ag_dns shop_synced) ''10.0.0.5'' api_query = Some r"
    using handle_internal_run [OF _ api_labels_ok(1) l _ _ shop_synced_dns(1) [folded api_name(1)], of "replicate 12 0" "[0, 1]" "\<lambda>_. None" QTYPE_A "[]"]
    by (auto simp: api_name(1) api_query_def build_a_response_def)
  have fq: "fqdn_of (dns_domain_suffix (ag_dns lab_boot)) shop_service = ''api.default.svc.cluster.local''"
    by (simp add: fqdn_of_def shop_service_def http_service_def shop_synced_dns)
  have q: "parse_dns_name api_query 12 = Some (fqdn_of (dns_domain_suffix (ag_dns lab_boot)) shop_service)"
    using query_parts(1) [OF _ api_labels_ok(1) l, of "replicate 12 0" "[0, 1]" QTYPE_A "[]"] by (simp add: api_name(1) api_query_def fq)
  define vpcs where "vpcs = [\<lparr> VpcInfo_name = ''web'', VpcInfo_vpc_id = 5, VpcInfo_ipv4_cidr = ''10.0.0.0/24'', VpcInfo_status = Vpc_Active \<rparr>,
           \<lparr> VpcInfo_name = ''shop'', VpcInfo_vpc_id = 7, VpcInfo_ipv4_cidr = ''10.43.0.0/24'', VpcInfo_status = Vpc_Active \<rparr>]"
  define routes where "routes i = (if i = (5 :: u16) then [\<lparr> RouteEntry_destination = ''10.0.0.5'', RouteEntry_next_hop = ''fd00::5'' \<rparr>] else [])" for i
  have srv: "answers shop_lab w [''default''] (\<lambda>_. [shop_service]) (\<lambda>_. []) [web_shop]" for w
    by (simp add: answers_def shop_lab_def lab_def returnM_def)
  have vpcd: "daemon_answers shop_lab w vpcs routes" for w
    by (simp add: daemon_answers_def shop_lab_def returnM_def vpcs_def routes_def)
  have pod: "hd vpcs \<in> set vpcs" "''10.0.0.5'' \<in> route_ips (routes (VpcInfo_vpc_id (hd vpcs)))"
    "\<forall>u\<in>set vpcs. ''10.0.0.5'' \<in> route_ips (routes (VpcInfo_vpc_id u)) \<longrightarrow> VpcInfo_name u = VpcInfo_name (hd vpcs)"
    by (simp_all add: vpcs_def routes_def route_ips_def)
  have svc: "shop_service \<in> set (concat (map (\<lambda>_. [shop_service]) [''default'']))" "Service_cluster_ip shop_service = Some (show_ipv4 0x0A2B0007)"
    by (simp_all add: shop_service_def http_service_def)
  have "VpcInfo_name (hd vpcs) = vpc_of_service shop_service \<or> (\<exists>p\<in>set [web_shop]. peering_allows p (VpcInfo_name (hd vpcs)) (vpc_of_service shop_service))"
    by (rule route_sync_scopes_dns [OF shop_synced_dns(4) srv _ vpcd pod svc _ q r [unfolded shop_synced_def]]) simp_all
  then show ?thesis using r by (simp add: vpcs_def vpc_of_service_def shop_service_def)
qed

text \<open>A daemon that does not answer switches the scoping off: no address is a member of a VPC, and the
  proxy serves every listed backend.\<close>

theorem silent_daemon_unscopes:
  assumes conn: "is_connected (ag_connectivity a)" and srv: "answers X (rt_host (ag_runtime a)) names services endpoints peerings" "names \<noteq> []"
    and "vpc_request X ListVpcs (rt_host (ag_runtime a)) = (Inl e, rt_host (ag_runtime a))"
  shows "dns_vpc_members (ag_dns (snd (route_sync_pass P A C X now a))) = [] \<and>
    sp_routes (ag_proxy (snd (route_sync_pass P A C X now a))) = routes_with (route_backends [] (concat (map endpoints names))) (concat (map services names))"
proof -
  have m: "fetch_vpc_maps X (rt_host (ag_runtime a)) = (Inr no_vpcs, rt_host (ag_runtime a))"
    using assms(4) by (simp add: fetch_vpc_maps_def vpc_list_vpcs_def expecting_def bindM_def tryM_def returnM_def)
  show ?thesis unfolding route_sync_serves [OF conn srv m]
    by (simp add: serve_def update_peerings_def update_records_vpc_def no_vpcs_def update_routes_def Let_def)
qed

end
