(* ===== verification/Mac_Switch.thy ===== *)
theory Mac_Switch
  imports Dns_Server
begin

text \<open>
  The userspace Ethernet switch that connects the VMs of a macOS node (\<open>pkg/network/src/macos/switch.rs\<close>). Frames
  are byte lists; what a handler sends is a list of outputs, to the socket of a VM or to the tunnel
  device of the host. The exchange with the DNS server is a parameter. The lemmas give the invariant
  of the two tables, the forwarding decision as a function of who owns the destination, and the
  checksum of the frames the switch builds.
\<close>

section \<open>State\<close>

definition GATEWAY_MAC :: bytes where "GATEWAY_MAC = [0x02, 0xfc, 0x00, 0x00, 0x00, 0x01]"
definition DNS_PROXY_IP :: u32 where "DNS_PROXY_IP = u32_from_be_bytes [169, 254, 0, 53]"
definition ETH_P_ARP :: u16 where "ETH_P_ARP = 0x0806"
definition ETH_P_IPV4 :: u16 where "ETH_P_IPV4 = 0x0800"

record VmEndpoint =
  ve_fd :: nat
  ve_guest_ipv4 :: u32
  ve_vpc_id :: u16
  ve_mac :: bytes

record MacSwitch =
  sw_endpoints :: "(string, VmEndpoint) hmap"
  sw_ip_to_id :: "(u32, string) hmap"
  sw_utun :: bool

datatype switch_out = To_Vm nat bytes | To_Utun bytes

definition MacSwitch_new :: "bool \<Rightarrow> MacSwitch" where
  "MacSwitch_new utun = \<lparr> sw_endpoints = [], sw_ip_to_id = [], sw_utun = utun \<rparr>"

definition add_vm :: "string \<Rightarrow> nat \<Rightarrow> u32 \<Rightarrow> u16 \<Rightarrow> MacSwitch \<Rightarrow> MacSwitch" where
  "add_vm i fd ip vpc s = s\<lparr>
     sw_endpoints := hm_insert i \<lparr> ve_fd = fd, ve_guest_ipv4 = ip, ve_vpc_id = vpc, ve_mac = replicate 6 0 \<rparr> (sw_endpoints s),
     sw_ip_to_id := hm_insert ip i (sw_ip_to_id s)\<rparr>"

definition remove_vm :: "string \<Rightarrow> MacSwitch \<Rightarrow> MacSwitch" where
  "remove_vm i s =
     (case hm_get (sw_endpoints s) i of
        Some ep \<Rightarrow> s\<lparr>sw_endpoints := hm_remove i (sw_endpoints s), sw_ip_to_id := hm_remove (ve_guest_ipv4 ep) (sw_ip_to_id s)\<rparr>
      | None \<Rightarrow> s)"

section \<open>Checksum\<close>

text \<open>The sum of the 16-bit words of the header, the checksum field left out; an odd last byte counts as the high half of a word.\<close>

fun sum_words :: "nat \<Rightarrow> u32 \<Rightarrow> bytes \<Rightarrow> u32" where
  "sum_words i acc (a # b # bs) = sum_words (i + 2) (if i = 10 then acc else acc + ucast (u16_from_be_bytes [a, b])) bs"
| "sum_words i acc [a] = (if i = 10 then acc else acc + ucast (u16_from_be_bytes [a, 0]))"
| "sum_words i acc [] = acc"

lemma unat_carry: "unat ((s AND 0xFFFF) + drop_bit 16 s :: u32) = unat s mod 65536 + unat s div 65536"
proof -
  have m: "s AND 0xFFFF = take_bit 16 s" by (simp add: take_bit_eq_mask mask_eq_exp_minus_1)
  have lo: "unat (s AND 0xFFFF) = unat s mod 65536" unfolding m by (simp add: take_bit_eq_mod unat_mod_distrib)
  have hi: "unat (drop_bit 16 s) = unat s div 65536" by (simp add: drop_bit_eq_div unat_div_distrib)
  have "unat s < 2 ^ 32" using unsigned_less [of s, where 'a = nat] by simp
  then have "unat s div 65536 < 65536" by (simp add: less_mult_imp_div_less)
  moreover have "unat s mod 65536 < 65536" by simp
  ultimately have "unat s mod 65536 + unat s div 65536 < 131072" by linarith
  then have "unat s mod 65536 + unat s div 65536 < 2 ^ 32" by (rule order_less_trans) simp
  then show ?thesis by (simp add: unat_word_ariths lo hi)
qed

function fold_carry :: "u32 \<Rightarrow> u32" where
  "fold_carry acc = (if 0xFFFF < acc then fold_carry ((acc AND 0xFFFF) + drop_bit 16 acc) else acc)"
  by pat_completeness auto

termination fold_carry
proof (relation "measure unat")
  fix acc :: u32 assume "0xFFFF < acc"
  then have "65536 \<le> unat acc" by (simp add: word_less_nat_alt)
  then have "unat acc mod 65536 + unat acc div 65536 < unat acc"
    using mult_div_mod_eq [of 65536 "unat acc"] by linarith
  then show "((acc AND 0xFFFF) + drop_bit 16 acc, acc) \<in> measure unat" by (simp only: in_measure unat_carry)
qed simp

declare fold_carry.simps [simp del]

definition switch_ipv4_checksum :: "bytes \<Rightarrow> u16" where
  "switch_ipv4_checksum header = NOT (ucast (fold_carry (sum_words 0 0 header)))"

section \<open>Frames\<close>

definition learn_mac :: "string \<Rightarrow> bytes \<Rightarrow> MacSwitch \<Rightarrow> MacSwitch" where
  "learn_mac i mac s =
     (case hm_get (sw_endpoints s) i of
        Some ep \<Rightarrow> s\<lparr>sw_endpoints := hm_insert i (ep\<lparr>ve_mac := mac\<rparr>) (sw_endpoints s)\<rparr>
      | None \<Rightarrow> s)"

definition send_to :: "string \<Rightarrow> (VmEndpoint \<Rightarrow> bytes) \<Rightarrow> MacSwitch \<Rightarrow> switch_out list" where
  "send_to i frame s = (case hm_get (sw_endpoints s) i of Some ep \<Rightarrow> [To_Vm (ve_fd ep) (frame ep)] | None \<Rightarrow> [])"

definition arp_reply :: "bytes \<Rightarrow> bytes" where
  "arp_reply arp = byte_range arp 8 14 @ GATEWAY_MAC @ u16_to_be_bytes ETH_P_ARP @ [0x00, 0x01] @ [0x08, 0x00] @ [6, 4] @ [0x00, 0x02] @
     GATEWAY_MAC @ byte_range arp 24 28 @ byte_range arp 8 14 @ byte_range arp 14 18"

definition handle_arp :: "string \<Rightarrow> bytes \<Rightarrow> MacSwitch \<Rightarrow> switch_out list \<times> MacSwitch" where
  "handle_arp src_id frame s =
     (if length frame < 14 + 28 then ([], s)
      else let arp = drop 14 frame in
        if u16_from_be_bytes (byte_range arp 6 8) \<noteq> 1 then ([], s)
        else let s = learn_mac src_id (byte_range arp 8 14) s in (send_to src_id (\<lambda>_. arp_reply arp) s, s))"

definition dns_ip_header :: "nat \<Rightarrow> bytes \<Rightarrow> bytes" where
  "dns_ip_header total_ip_len src_ip =
     (let plain = [0x45, 0] @ u16_to_be_bytes (of_nat total_ip_len) @ [0, 0, 0, 0, 64, 17, 0, 0] @ u32_to_be_bytes DNS_PROXY_IP @ src_ip
      in take 10 plain @ u16_to_be_bytes (switch_ipv4_checksum plain) @ drop 12 plain)"

definition dns_reply_frame :: "bytes \<Rightarrow> bytes \<Rightarrow> bytes \<Rightarrow> VmEndpoint \<Rightarrow> bytes" where
  "dns_reply_frame src_ip src_port dns_response ep =
     ve_mac ep @ GATEWAY_MAC @ u16_to_be_bytes ETH_P_IPV4 @ dns_ip_header (20 + 8 + length dns_response) src_ip @
     u16_to_be_bytes 53 @ src_port @ u16_to_be_bytes (of_nat (8 + length dns_response)) @ [0, 0] @ dns_response"

text \<open>\<open>ask\<close> is the exchange with the DNS server over a local UDP socket.\<close>

definition handle_dns :: "(bytes \<Rightarrow> bytes option) \<Rightarrow> string \<Rightarrow> bytes \<Rightarrow> MacSwitch \<Rightarrow> switch_out list" where
  "handle_dns ask src_id frame s =
     (if length frame < 14 + 20 + 8 then []
      else let ip_header = drop 14 frame; ihl = unat (ip_header ! 0 AND 0x0f) * 4; udp_start = 14 + ihl in
        if ip_header ! 9 \<noteq> 17 then []
        else if length frame < udp_start + 8 then []
        else let udp = drop udp_start frame in
          if u16_from_be_bytes (byte_range udp 2 4) \<noteq> 53 then []
          else let dns_payload = drop (udp_start + 8) frame in
            if dns_payload = [] then []
            else case ask dns_payload of
                None \<Rightarrow> []
              | Some dns_response \<Rightarrow> send_to src_id (dns_reply_frame (byte_range frame 26 30) (byte_range udp 0 2) dns_response) s)"

definition AF_INET :: u32 where "AF_INET = 2"

definition handle_ipv4 :: "(bytes \<Rightarrow> bytes option) \<Rightarrow> string \<Rightarrow> bytes \<Rightarrow> MacSwitch \<Rightarrow> switch_out list" where
  "handle_ipv4 ask src_id frame s =
     (if length frame < 14 + 20 then []
      else let dst_ip = u32_from_be_bytes (byte_range frame 30 34) in
        case hm_get (sw_endpoints s) src_id of
          None \<Rightarrow> []
        | Some src \<Rightarrow>
            if dst_ip = DNS_PROXY_IP then handle_dns ask src_id frame s
            else case Option.bind (hm_get (sw_ip_to_id s) dst_ip) (hm_get (sw_endpoints s)) of
                Some dst_ep \<Rightarrow>
                  if ve_vpc_id dst_ep \<noteq> ve_vpc_id src then []
                  else [To_Vm (ve_fd dst_ep) (ve_mac dst_ep @ GATEWAY_MAC @ drop 12 frame)]
              | None \<Rightarrow> if sw_utun s then [To_Utun (u32_to_be_bytes AF_INET @ drop 14 frame)] else [])"

definition handle_utun_reply :: "bytes \<Rightarrow> MacSwitch \<Rightarrow> switch_out list" where
  "handle_utun_reply ip_packet s =
     (if length ip_packet < 20 then []
      else case hm_get (sw_ip_to_id s) (u32_from_be_bytes (byte_range ip_packet 16 20)) of
          None \<Rightarrow> []
        | Some vm_id \<Rightarrow> send_to vm_id (\<lambda>ep. ve_mac ep @ GATEWAY_MAC @ u16_to_be_bytes ETH_P_IPV4 @ ip_packet) s)"

text \<open>One frame received from a VM, and one packet received from the tunnel, which carries a protocol header of four bytes.\<close>

definition switch_frame :: "(bytes \<Rightarrow> bytes option) \<Rightarrow> string \<Rightarrow> bytes \<Rightarrow> MacSwitch \<Rightarrow> switch_out list \<times> MacSwitch" where
  "switch_frame ask i frame s =
     (if length frame < 14 then ([], s)
      else let ethertype = u16_from_be_bytes (byte_range frame 12 14) in
        if ethertype = ETH_P_ARP then handle_arp i frame s
        else if ethertype = ETH_P_IPV4 then (handle_ipv4 ask i frame s, s)
        else ([], s))"

definition switch_utun :: "bytes \<Rightarrow> MacSwitch \<Rightarrow> switch_out list" where
  "switch_utun buf s = (if sw_utun s \<and> 4 < length buf then handle_utun_reply (drop 4 buf) s else [])"

section \<open>The tables\<close>

text \<open>The address table holds exactly the addresses of the registered VMs.\<close>

definition switch_ok :: "MacSwitch \<Rightarrow> bool" where
  "switch_ok s \<longleftrightarrow> (\<forall>ip i. hm_get (sw_ip_to_id s) ip = Some i \<longleftrightarrow> (\<exists>ep. hm_get (sw_endpoints s) i = Some ep \<and> ve_guest_ipv4 ep = ip))"

text \<open>The agent registers a VM under a new pod id and with an address no other VM has.\<close>

inductive switch_step :: "(bytes \<Rightarrow> bytes option) \<Rightarrow> MacSwitch \<Rightarrow> MacSwitch \<Rightarrow> bool" for ask where
  step_add: "hm_get (sw_endpoints s) i = None \<Longrightarrow> \<forall>(j, ep) \<in> set (sw_endpoints s). ve_guest_ipv4 ep \<noteq> ip \<Longrightarrow> switch_step ask s (add_vm i fd ip vpc s)"
| step_remove: "switch_step ask s (remove_vm i s)"
| step_frame: "switch_step ask s (snd (switch_frame ask i frame s))"

lemma switch_ok_new: "switch_ok (MacSwitch_new utun)"
  by (simp add: switch_ok_def MacSwitch_new_def)

lemma switch_ok_add:
  assumes "switch_ok s" "hm_get (sw_endpoints s) i = None" "\<forall>(j, ep) \<in> set (sw_endpoints s). ve_guest_ipv4 ep \<noteq> ip"
  shows "switch_ok (add_vm i fd ip vpc s)"
proof -
  have "hm_get (sw_endpoints s) j = Some ep \<Longrightarrow> ve_guest_ipv4 ep \<noteq> ip" for j ep using assms(3) map_of_SomeD by fastforce
  then show ?thesis using assms(1,2) by (auto simp: switch_ok_def add_vm_def hmap_simps)
qed

lemma one_owner: "switch_ok s \<Longrightarrow> hm_get (sw_endpoints s) i = Some a \<Longrightarrow> hm_get (sw_endpoints s) j = Some b \<Longrightarrow> ve_guest_ipv4 a = ve_guest_ipv4 b \<Longrightarrow> i = j"
  unfolding switch_ok_def by (metis option.inject)

lemma switch_ok_remove: "switch_ok s \<Longrightarrow> switch_ok (remove_vm i s)"
  by (cases "hm_get (sw_endpoints s) i") (use one_owner in \<open>fastforce simp: switch_ok_def remove_vm_def hmap_simps\<close>)+

lemma switch_ok_learn: "switch_ok s \<Longrightarrow> switch_ok (learn_mac i mac s)"
  by (cases "hm_get (sw_endpoints s) i") (auto simp: switch_ok_def learn_mac_def hmap_simps)

lemma switch_ok_frame: "switch_ok s \<Longrightarrow> switch_ok (snd (switch_frame ask i frame s))"
  by (simp add: switch_frame_def handle_arp_def Let_def switch_ok_learn)

lemma switch_ok_run: "(switch_step ask)\<^sup>*\<^sup>* s s' \<Longrightarrow> switch_ok s \<Longrightarrow> switch_ok s'"
proof (induction rule: rtranclp_induct)
  case (step s1 s2)
  from step.hyps(2) step.IH [OF step.prems] show ?case
    by cases (simp_all add: switch_ok_add switch_ok_remove switch_ok_frame)
qed

text \<open>The VM that owns an address.\<close>

definition owner :: "MacSwitch \<Rightarrow> u32 \<Rightarrow> VmEndpoint option" where
  "owner s ip = find (\<lambda>ep. ve_guest_ipv4 ep = ip) (List.map_filter (\<lambda>i. hm_get (sw_endpoints s) i) (map fst (sw_endpoints s)))"

lemma owner_exact:
  assumes "switch_ok s"
  shows "Option.bind (hm_get (sw_ip_to_id s) ip) (hm_get (sw_endpoints s)) = owner s ip"
proof (cases "owner s ip")
  case None
  then have "hm_get (sw_endpoints s) i = Some ep \<Longrightarrow> ve_guest_ipv4 ep \<noteq> ip" for i ep
    unfolding owner_def find_None_iff by (auto simp: List.map_filter_def image_iff dest: map_of_SomeD) (metis fst_conv map_of_SomeD option.distinct(1) option.sel)
  then have "hm_get (sw_ip_to_id s) ip = None" using assms by (auto simp: switch_ok_def not_Some_eq [symmetric] simp del: not_Some_eq)
  then show ?thesis using None by simp
next
  case (Some ep)
  then have "ve_guest_ipv4 ep = ip \<and> ep \<in> set (List.map_filter (\<lambda>i. hm_get (sw_endpoints s) i) (map fst (sw_endpoints s)))"
    unfolding owner_def by (metis (mono_tags, lifting) find_Some_iff nth_mem)
  then obtain i where "hm_get (sw_endpoints s) i = Some ep" "ve_guest_ipv4 ep = ip" by (auto simp: List.map_filter_def)
  then have "hm_get (sw_ip_to_id s) ip = Some i" using assms unfolding switch_ok_def by blast
  then show ?thesis using Some \<open>hm_get (sw_endpoints s) i = Some ep\<close> by simp
qed

section \<open>The checksum of a built header\<close>

fun header_words :: "bytes \<Rightarrow> nat list" where
  "header_words (a # b # bs) = unat (u16_from_be_bytes [a, b]) # header_words bs"
| "header_words [a] = [unat (u16_from_be_bytes [a, 0])]"
| "header_words [] = []"

lemma fold_carry_value: "unat (fold_carry acc) \<le> 65535 \<and> unat (fold_carry acc) mod 65535 = unat acc mod 65535"
proof (induction acc rule: fold_carry.induct)
  case (1 acc)
  have m: "(unat acc mod 65536 + unat acc div 65536) mod 65535 = unat acc mod 65535"
  proof -
    have "unat acc = (unat acc mod 65536 + unat acc div 65536) + 65535 * (unat acc div 65536)"
      using mult_div_mod_eq [of 65536 "unat acc"] by linarith
    then show ?thesis by (metis mod_mult_self2)
  qed
  show ?case
  proof (cases "0xFFFF < acc")
    case True
    then show ?thesis using 1 m by (simp add: fold_carry.simps [of acc] unat_carry)
  next
    case False
    then show ?thesis by (simp add: fold_carry.simps [of acc] word_less_nat_alt)
  qed
qed

lemma unat_u16_bound: "unat (x :: u16) \<le> 65535"
  using unsigned_less [of x, where 'a = nat] by simp

text \<open>Over a header whose checksum field is still zero the accumulator is the sum of all words, without wrap-around.\<close>

lemma sum_words_value:
  assumes "unat acc + 65536 * n < 2 ^ 32" "length bs = 2 * n" "\<forall>k<n. i + 2 * k = 10 \<longrightarrow> header_words bs ! k = 0"
  shows "unat (sum_words i acc bs) = unat acc + sum_list (header_words bs)"
  using assms
proof (induction n arbitrary: bs acc i)
  case (Suc n)
  obtain a b cs where bs: "bs = a # b # cs" using Suc.prems(2) by (cases bs; cases "tl bs") auto
  let ?w = "u16_from_be_bytes [a, b]" and ?acc = "if i = 10 then acc else acc + ucast (u16_from_be_bytes [a, b])"
  have u: "unat (ucast ?w :: u32) = unat ?w"
    by (simp add: unsigned_ucast_eq take_bit_nat_eq_self order_le_less_trans [OF unat_u16_bound])
  have "unat acc + unat ?w < 2 ^ 32" using Suc.prems(1) unat_u16_bound [of ?w] by simp
  then have "unat (acc + ucast ?w) = unat acc + unat ?w" by (simp add: unat_word_ariths u)
  moreover have "i = 10 \<Longrightarrow> unat ?w = 0" using Suc.prems(3) [rule_format, of 0] by (simp add: bs)
  ultimately have acc: "unat ?acc = unat acc + unat ?w" by simp
  have "header_words cs ! k = 0" if "k < n" "i + 2 + 2 * k = 10" for k using Suc.prems(3) [rule_format, of "Suc k"] that by (simp add: bs)
  then have "unat (sum_words (i + 2) ?acc cs) = unat ?acc + sum_list (header_words cs)"
    using Suc.IH [of ?acc cs "i + 2"] Suc.prems(1,2) unat_u16_bound [of ?w] acc by (simp add: bs)
  then show ?case using acc by (simp add: bs)
qed simp

lemma header_words_append: "even (length xs) \<Longrightarrow> header_words (xs @ ys) = header_words xs @ header_words ys"
  by (induction xs rule: header_words.induct) simp_all

lemma length_header_words: "even (length xs) \<Longrightarrow> 2 * length (header_words xs) = length xs"
  by (induction xs rule: header_words.induct) simp_all

lemma header_words_u16: "header_words (u16_to_be_bytes x @ bs) = unat x # header_words bs"
  using u16_from_to_be [of x] by (simp add: u16_to_be_bytes_def)

text \<open>Ten bytes, the checksum over them and the rest with its field zero, and the rest: a receiver adds up the words and gets zero in
  one's complement.\<close>

lemma checksum_verifies:
  fixes p q :: bytes
  assumes "length p = 10" "even (length q)" "length q \<le> 40"
  shows "sum_list (header_words (p @ u16_to_be_bytes (switch_ipv4_checksum (p @ [0, 0] @ q)) @ q)) mod 65535 = 0"
proof -
  let ?plain = "p @ [0, 0] @ q"
  define f where "f = unat (fold_carry (sum_words 0 0 ?plain))"
  have z: "u16_from_be_bytes [0, 0] = 0" by code_simp
  have even: "even (length p)" "2 * length (header_words p) = 10" using assms(1) length_header_words [of p] by simp_all
  have words: "header_words ?plain = header_words p @ 0 # header_words q" by (simp add: header_words_append even(1) z)
  have "unat (sum_words 0 0 ?plain) = unat (0 :: u32) + sum_list (header_words ?plain)"
  proof (rule sum_words_value)
    show "length ?plain = 2 * (6 + length q div 2)" using assms by simp
    show "unat (0 :: u32) + 65536 * (6 + length q div 2) < 2 ^ 32" using assms(3) by (simp add: div_le_mono)
    show "\<forall>k<6 + length q div 2. 0 + 2 * k = 10 \<longrightarrow> header_words ?plain ! k = 0" using even(2) unfolding words by (auto simp: nth_append)
  qed
  then have sum: "f \<le> 65535" "f mod 65535 = sum_list (header_words ?plain) mod 65535"
    using fold_carry_value [of "sum_words 0 0 ?plain"] by (simp_all add: f_def)
  have "unat (ucast (fold_carry (sum_words 0 0 ?plain)) :: u16) = f"
    using sum(1) by (simp add: unsigned_ucast_eq take_bit_nat_eq_self f_def)
  moreover have "NOT (x :: u16) = 65535 - x" for x by (simp add: not_eq_complement)
  ultimately have ck: "unat (switch_ipv4_checksum ?plain) = 65535 - f"
    using sum(1) by (simp add: switch_ipv4_checksum_def unat_sub word_le_nat_alt)
  have "sum_list (header_words (p @ u16_to_be_bytes (switch_ipv4_checksum ?plain) @ q)) = sum_list (header_words ?plain) + (65535 - f)"
    by (simp only: header_words_append [OF even(1)] header_words_u16 words ck) (simp add: z)
  moreover have "(f + (65535 - f)) mod 65535 = 0" using sum(1) by simp
  ultimately show ?thesis by (simp only: mod_add_cong [OF sum(2) [symmetric] refl])
qed

lemma dns_header_verifies:
  assumes "length src_ip = 4"
  shows "sum_list (header_words (dns_ip_header n src_ip)) mod 65535 = 0" and "length (dns_ip_header n src_ip) = 20"
proof -
  define p q where "p = [0x45, 0] @ u16_to_be_bytes (of_nat n) @ [0, 0, 0, 0, 64, 17]" and "q = u32_to_be_bytes DNS_PROXY_IP @ src_ip"
  have len: "length p = 10" "length q = 8" using assms by (simp_all add: p_def q_def)
  have "[0x45, 0] @ u16_to_be_bytes (of_nat n) @ [0, 0, 0, 0, 64, 17, 0, 0] @ u32_to_be_bytes DNS_PROXY_IP @ src_ip = p @ [0, 0] @ q"
    by (simp add: p_def q_def)
  then have eq: "dns_ip_header n src_ip = p @ u16_to_be_bytes (switch_ipv4_checksum (p @ [0, 0] @ q)) @ q"
    using len by (simp only: dns_ip_header_def Let_def) simp
  show "sum_list (header_words (dns_ip_header n src_ip)) mod 65535 = 0" unfolding eq by (rule checksum_verifies) (simp_all add: len)
  show "length (dns_ip_header n src_ip) = 20" unfolding eq by (simp add: len)
qed

section \<open>Properties\<close>

text \<open>C35: the switch keeps VPCs apart and delivers within them: in every state it reaches while VMs come under new ids with free addresses and go, an IPv4
  frame of a registered VM that is not for the DNS proxy goes to the VM that owns the destination address when both are in
  the same VPC, only its MAC addresses rewritten, is dropped when that VM is in another VPC, and leaves
  through the tunnel of the host when no VM owns the address.\<close>

theorem switch_forwards_within_vpc:
  assumes "(switch_step ask)\<^sup>*\<^sup>* (MacSwitch_new utun) s" and src: "hm_get (sw_endpoints s) i = Some src"
    and frame: "34 \<le> length frame" "u16_from_be_bytes (byte_range frame 12 14) = ETH_P_IPV4"
  defines "dst \<equiv> u32_from_be_bytes (byte_range frame 30 34)"
  assumes "dst \<noteq> DNS_PROXY_IP"
  shows "switch_frame ask i frame s =
    ((case find (\<lambda>ep. ve_guest_ipv4 ep = dst) (List.map_filter (\<lambda>j. hm_get (sw_endpoints s) j) (map fst (sw_endpoints s))) of
        Some ep \<Rightarrow> if ve_vpc_id ep = ve_vpc_id src then [To_Vm (ve_fd ep) (ve_mac ep @ GATEWAY_MAC @ drop 12 frame)] else []
      | None \<Rightarrow> if sw_utun s then [To_Utun (u32_to_be_bytes AF_INET @ drop 14 frame)] else []), s)"
proof -
  have "ETH_P_IPV4 \<noteq> ETH_P_ARP" by (simp add: ETH_P_IPV4_def ETH_P_ARP_def)
  then show ?thesis
    using frame assms(6) src owner_exact [OF switch_ok_run [OF assms(1) switch_ok_new], of dst]
    by (simp add: switch_frame_def handle_ipv4_def dst_def owner_def split: option.split)
qed

text \<open>Two VMs of VPC 5 and one of VPC 6.\<close>

definition three_vms :: MacSwitch where
  "three_vms = add_vm ''c'' 3 0x0A000003 6 (add_vm ''b'' 2 0x0A000002 5 (add_vm ''a'' 1 0x0A000001 5 (MacSwitch_new True)))"

definition frame_to :: "u32 \<Rightarrow> bytes" where
  "frame_to dst = replicate 12 0 @ [8, 0] @ replicate 16 0 @ u32_to_be_bytes dst @ [1, 2]"

lemma three_vms_run: "(switch_step ask)\<^sup>*\<^sup>* (MacSwitch_new True) three_vms"
proof -
  have "switch_step ask (MacSwitch_new True) (add_vm ''a'' 1 0x0A000001 5 (MacSwitch_new True))"
    by (rule step_add) (simp_all add: MacSwitch_new_def)
  moreover have "switch_step ask (add_vm ''a'' 1 0x0A000001 5 (MacSwitch_new True)) (add_vm ''b'' 2 0x0A000002 5 (add_vm ''a'' 1 0x0A000001 5 (MacSwitch_new True)))"
    by (rule step_add) (simp_all add: MacSwitch_new_def add_vm_def)
  moreover have "switch_step ask (add_vm ''b'' 2 0x0A000002 5 (add_vm ''a'' 1 0x0A000001 5 (MacSwitch_new True))) three_vms"
    unfolding three_vms_def by (rule step_add) (simp_all add: MacSwitch_new_def add_vm_def)
  ultimately show ?thesis by (meson converse_rtranclp_into_rtranclp rtranclp.rtrancl_refl)
qed

theorem switch_forwards_within_vpc_witness:
  "fst (switch_frame (\<lambda>_. None) ''a'' (frame_to 0x0A000002) three_vms) = [To_Vm 2 (replicate 6 0 @ GATEWAY_MAC @ drop 12 (frame_to 0x0A000002))] \<and>
   fst (switch_frame (\<lambda>_. None) ''a'' (frame_to 0x0A000003) three_vms) = []"
proof -
  have e: "hm_get (sw_endpoints three_vms) ''a'' = Some \<lparr> ve_fd = 1, ve_guest_ipv4 = 0x0A000001, ve_vpc_id = 5, ve_mac = replicate 6 0 \<rparr>"
    by (simp add: three_vms_def add_vm_def MacSwitch_new_def)
  have f: "34 \<le> length (frame_to d)" "u16_from_be_bytes (byte_range (frame_to d) 12 14) = ETH_P_IPV4" "u32_from_be_bytes (byte_range (frame_to d) 30 34) = d" for d
  proof -
    show "34 \<le> length (frame_to d)" by (simp add: frame_to_def)
    have "u16_from_be_bytes [8, 0] = ETH_P_IPV4" by code_simp
    then show "u16_from_be_bytes (byte_range (frame_to d) 12 14) = ETH_P_IPV4" by (simp add: frame_to_def byte_range_def)
    show "u32_from_be_bytes (byte_range (frame_to d) 30 34) = d" by (simp add: frame_to_def byte_range_def)
  qed
  have d: "0x0A000002 \<noteq> DNS_PROXY_IP" "0x0A000003 \<noteq> DNS_PROXY_IP" by code_simp+
  note T = switch_forwards_within_vpc [OF three_vms_run [of "\<lambda>_. None"] e f(1,2), unfolded f(3)]
  show ?thesis unfolding T [OF d(1)] T [OF d(2)] by (simp add: three_vms_def add_vm_def MacSwitch_new_def List.map_filter_def)
qed

text \<open>The DNS answer a VM gets has a header that verifies.\<close>

theorem dns_answer_header_verifies:
  assumes "handle_dns ask i frame s = [To_Vm fd reply]" and "\<forall>(j, ep) \<in> set (sw_endpoints s). length (ve_mac ep) = 6"
  shows "sum_list (header_words (byte_range reply 14 34)) mod 65535 = 0"
proof -
  obtain port resp ep where ep: "hm_get (sw_endpoints s) i = Some ep" and r: "reply = dns_reply_frame (byte_range frame 26 30) port resp ep" and l: "42 \<le> length frame"
    using assms(1) by (auto simp: handle_dns_def Let_def send_to_def split: if_splits option.splits)
  have "length (ve_mac ep) = 6" using ep assms(2) by (auto dest!: map_of_SomeD)
  moreover have src: "length (byte_range frame 26 30) = 4" using l by (simp add: byte_range_def)
  ultimately have "byte_range reply 14 34 = dns_ip_header (20 + 8 + length resp) (byte_range frame 26 30)"
    by (simp add: r dns_reply_frame_def byte_range_def GATEWAY_MAC_def dns_header_verifies(2))
  then show ?thesis by (simp only: dns_header_verifies(1) [OF src])
qed

text \<open>A VM that registers again with the address of another takes it over, and when the other goes the address is lost.\<close>

theorem shared_address_lost:
  "let s = remove_vm ''a'' (add_vm ''b'' 2 0x0A000001 5 (add_vm ''a'' 1 0x0A000001 5 (MacSwitch_new True)))
   in hm_get (sw_endpoints s) ''b'' \<noteq> None \<and> hm_get (sw_ip_to_id s) 0x0A000001 = None"
  by code_simp

end
