(* ===== verification/Dhcp_Client.thy ===== *)
theory Dhcp_Client
  imports K3_Action Dns_Server Ipv6_Text
begin

text \<open>
  The DHCP client that a microVM's init runs at boot (\<open>cmd/k3rs-init/src/dhcp.rs\<close>): the messages it builds, the options it
  reads and the exchange of DISCOVER, OFFER, REQUEST and ACK. The socket calls and the MAC address
  from sysfs are a parameter. The lemmas show that what the client writes reads back, that a lease
  comes from an acknowledgement, that prefix lengths are those of the mask, and that the exchange
  with a server that answers ends in the lease that server gave.
\<close>

section \<open>Messages\<close>

record DhcpLease =
  lease_ip :: string
  lease_prefix_len :: u32
  lease_gateway :: "string option"
  lease_dns_servers :: "string list"

definition DHCP_DISCOVER :: u8 where "DHCP_DISCOVER = 1"
definition DHCP_OFFER :: u8 where "DHCP_OFFER = 2"
definition DHCP_REQUEST :: u8 where "DHCP_REQUEST = 3"
definition DHCP_ACK :: u8 where "DHCP_ACK = 5"
definition OPT_SUBNET_MASK :: u8 where "OPT_SUBNET_MASK = 1"
definition OPT_ROUTER :: u8 where "OPT_ROUTER = 3"
definition OPT_DNS :: u8 where "OPT_DNS = 6"
definition OPT_REQUESTED_IP :: u8 where "OPT_REQUESTED_IP = 50"
definition OPT_MSG_TYPE :: u8 where "OPT_MSG_TYPE = 53"
definition OPT_SERVER_ID :: u8 where "OPT_SERVER_ID = 54"
definition OPT_PARAM_LIST :: u8 where "OPT_PARAM_LIST = 55"
definition OPT_END :: u8 where "OPT_END = 255"
definition MAGIC_COOKIE :: bytes where "MAGIC_COOKIE = [99, 130, 83, 99]"
definition XID :: u32 where "XID = 0x4b335253"

lemmas dhcp_codes = DHCP_DISCOVER_def DHCP_OFFER_def DHCP_REQUEST_def DHCP_ACK_def OPT_SUBNET_MASK_def OPT_ROUTER_def OPT_DNS_def
  OPT_REQUESTED_IP_def OPT_MSG_TYPE_def OPT_SERVER_ID_def OPT_PARAM_LIST_def OPT_END_def

definition dotted :: "bytes \<Rightarrow> string" where
  "dotted bs = join_with ''.'' (map (\<lambda>b. show_dec (unat b)) bs)"

text \<open>\<open>u8::from_str_radix(s, 16)\<close>, and the MAC address in the file of sysfs.\<close>

fun hex_digits_val :: "nat \<Rightarrow> string \<Rightarrow> nat option" where
  "hex_digits_val acc [] = Some acc"
| "hex_digits_val acc (c # cs) = (case hex_val c of Some d \<Rightarrow> hex_digits_val (16 * acc + d) cs | None \<Rightarrow> None)"

definition hex_byte :: "string \<Rightarrow> u8 option" where
  "hex_byte s =
     (let ds = (case s of [] \<Rightarrow> [] | c # cs \<Rightarrow> if c = CHR ''+'' then cs else s)
      in if ds = [] then None
         else case hex_digits_val 0 ds of Some n \<Rightarrow> if n \<le> 255 then Some (of_nat n) else None | None \<Rightarrow> None)"

definition client_mac :: "string option \<Rightarrow> bytes" where
  "client_mac mac_file =
     (case mac_file of
        Some mac_str \<Rightarrow>
          let parts = List.map_filter hex_byte (split_on (CHR '':'') (trim mac_str))
          in if length parts = 6 then parts else [0x02, 0x6b, 0x33, 0x72, 0x73, 0x01]
      | None \<Rightarrow> [0x02, 0x6b, 0x33, 0x72, 0x73, 0x01])"

definition param_list :: bytes where
  "param_list = [OPT_PARAM_LIST, 3, OPT_SUBNET_MASK, OPT_ROUTER, OPT_DNS]"

text \<open>Fixed part of a request: operation, hardware type and length, hops, transaction id, seconds, broadcast flag, four empty addresses,
  the client's hardware address in 16 bytes, empty server and file names, and the cookie.\<close>

definition dhcp_header :: "bytes \<Rightarrow> bytes \<Rightarrow> bytes" where
  "dhcp_header xid chaddr = [1, 1, 6, 0] @ xid @ [0, 0] @ [0x80, 0x00] @ replicate 16 0 @ chaddr @ replicate 192 0 @ MAGIC_COOKIE"

definition build_discover :: "string option \<Rightarrow> bytes" where
  "build_discover mac_file = dhcp_header (u32_to_be_bytes XID) (client_mac mac_file @ replicate 10 0) @
     [OPT_MSG_TYPE, 1, DHCP_DISCOVER] @ param_list @ [OPT_END]"

definition parse_ip_to_bytes :: "string \<Rightarrow> bytes option" where
  "parse_ip_to_bytes ip =
     (let parts = map (parse_unsigned 255) (split_on (CHR ''.'') ip)
      in if list_all (\<lambda>p. p \<noteq> None) parts \<and> length parts = 4 then Some (map (\<lambda>p. of_nat (the p)) parts) else None)"

definition ip_option :: "u8 \<Rightarrow> string option \<Rightarrow> bytes" where
  "ip_option code ip = (case Option.bind ip parse_ip_to_bytes of Some bs \<Rightarrow> [code, 4] @ bs | None \<Rightarrow> [])"

definition build_request :: "bytes \<Rightarrow> string \<Rightarrow> string option \<Rightarrow> bytes" where
  "build_request offer offered_ip server_ip = dhcp_header (byte_range offer 4 8) (byte_range offer 28 44) @
     [OPT_MSG_TYPE, 1, DHCP_REQUEST] @ ip_option OPT_REQUESTED_IP (Some offered_ip) @ ip_option OPT_SERVER_ID server_ip @ param_list @ [OPT_END]"

section \<open>Options\<close>

text \<open>The options that the loop of \<open>for_each_option\<close> visits: it skips padding and ends at the end mark or at an option that does not fit.\<close>

function dhcp_options :: "bytes \<Rightarrow> (u8 \<times> bytes) list" where
  "dhcp_options [] = []"
| "dhcp_options (opt # rest) =
     (if opt = OPT_END then []
      else if opt = 0 then dhcp_options rest
      else case rest of
          [] \<Rightarrow> []
        | len # rest \<Rightarrow> if length rest < unat len then [] else (opt, take (unat len) rest) # dhcp_options (drop (unat len) rest))"
  by pat_completeness auto
termination by (relation "measure length") auto

declare dhcp_options.simps [simp del]

fun first_some :: "('a \<Rightarrow> 'b option) \<Rightarrow> 'a list \<Rightarrow> 'b option" where
  "first_some f [] = None"
| "first_some f (x # xs) = (case f x of Some y \<Rightarrow> Some y | None \<Rightarrow> first_some f xs)"

definition packet_options :: "bytes \<Rightarrow> (u8 \<times> bytes) list" where
  "packet_options pkt = (if length pkt < 240 \<or> byte_range pkt 236 240 \<noteq> MAGIC_COOKIE then [] else dhcp_options (drop 240 pkt))"

definition get_msg_type :: "bytes \<Rightarrow> u8 option" where
  "get_msg_type pkt = first_some (\<lambda>(opt, data). if opt = OPT_MSG_TYPE \<and> data \<noteq> [] then Some (hd data) else None) (packet_options pkt)"

definition get_option_ip :: "bytes \<Rightarrow> u8 \<Rightarrow> string option" where
  "get_option_ip pkt code = first_some (\<lambda>(opt, data). if opt = code \<and> 4 \<le> length data then Some (dotted (take 4 data)) else None) (packet_options pkt)"

fun ips_in :: "bytes \<Rightarrow> string list" where
  "ips_in (a # b # c # d # rest) = dotted [a, b, c, d] # ips_in rest"
| "ips_in _ = []"

definition get_option_ips :: "bytes \<Rightarrow> u8 \<Rightarrow> string list" where
  "get_option_ips pkt code = concat (map (\<lambda>(opt, data). if opt = code then ips_in data else []) (packet_options pkt))"

definition u32_leading_ones :: "u32 \<Rightarrow> u32" where
  "u32_leading_ones x = of_nat (length (takeWhile (\<lambda>i. bit x i) (rev [0..<32])))"

definition mask_to_prefix :: "string \<Rightarrow> u32" where
  "mask_to_prefix mask_str = (let parts = octets_of_text mask_str in if length parts \<noteq> 4 then 24 else u32_leading_ones (u32_from_be_bytes parts))"

definition parse_lease :: "bytes \<Rightarrow> DhcpLease" where
  "parse_lease ack = \<lparr> lease_ip = dotted (byte_range ack 16 20),
     lease_prefix_len = (case get_option_ip ack OPT_SUBNET_MASK of Some mask_str \<Rightarrow> mask_to_prefix mask_str | None \<Rightarrow> 24),
     lease_gateway = get_option_ip ack OPT_ROUTER, lease_dns_servers = get_option_ips ack OPT_DNS \<rparr>"

section \<open>The exchange\<close>

record 'w dhcp_net =
  dn_socket :: "('w, unit) act"
  dn_send :: "bytes \<Rightarrow> ('w, unit) act"
  dn_timeout :: "nat \<Rightarrow> ('w, unit) act"
  dn_recv :: "('w, bytes) act"
  dn_mac :: "'w \<Rightarrow> string option"

definition reply_ok :: "bytes \<Rightarrow> unit result" where
  "reply_ok buf =
     (if length buf < 240 then Inl (Err ''DHCP: packet too short'')
      else if buf ! 0 \<noteq> 2 then Inl (Err ''DHCP: not a reply'')
      else if u32_from_be_bytes (byte_range buf 4 8) \<noteq> XID then Inl (Err ''DHCP: XID mismatch'')
      else Inr ())"

definition recv_dhcp :: "'w dhcp_net \<Rightarrow> ('w, bytes) act" where
  "recv_dhcp N = bindM (dn_recv N) (\<lambda>buf. bindM (liftR (reply_ok buf)) (\<lambda>_. returnM buf))"

text \<open>One attempt; \<open>None\<close> is \<open>continue\<close>. A failing send or timeout ends the exchange.\<close>

definition dhcp_attempt :: "'w dhcp_net \<Rightarrow> nat \<Rightarrow> ('w, DhcpLease option) act" where
  "dhcp_attempt N attempt =
     bindM (getM (dn_mac N)) (\<lambda>mac.
     bindM (dn_send N (build_discover mac)) (\<lambda>_.
     bindM (dn_timeout N (2000 * 2 ^ attempt)) (\<lambda>_.
     bindM (tryM (recv_dhcp N)) (\<lambda>r. case r of
         Inl _ \<Rightarrow> returnM None
       | Inr offer \<Rightarrow>
           if get_msg_type offer \<noteq> Some DHCP_OFFER then returnM None
           else
             bindM (dn_send N (build_request offer (dotted (byte_range offer 16 20)) (get_option_ip offer OPT_SERVER_ID))) (\<lambda>_.
             bindM (tryM (recv_dhcp N)) (\<lambda>r. case r of
                 Inl _ \<Rightarrow> returnM None
               | Inr ack \<Rightarrow> if get_msg_type ack \<noteq> Some DHCP_ACK then returnM None else returnM (Some (parse_lease ack))))))))"

fun dhcp_attempts :: "'w dhcp_net \<Rightarrow> nat list \<Rightarrow> ('w, DhcpLease) act" where
  "dhcp_attempts N [] = failM (Err ''DHCP: failed after 3 attempts'')"
| "dhcp_attempts N (a # rest) = bindM (dhcp_attempt N a) (\<lambda>r. case r of Some lease \<Rightarrow> returnM lease | None \<Rightarrow> dhcp_attempts N rest)"

definition do_dhcp :: "'w dhcp_net \<Rightarrow> ('w, DhcpLease) act" where
  "do_dhcp N = bindM (dn_socket N) (\<lambda>_. dhcp_attempts N [0..<3])"

section \<open>Reading back\<close>

lemma dotted_show: "length bs = 4 \<Longrightarrow> dotted bs = show_ipv4 (u32_from_be_bytes bs)"
  by (simp add: dotted_def show_ipv4_def u32_to_from_be)

lemma unat_u8_bound: "unat (b :: u8) \<le> 255"
  using unsigned_less [of b, where 'a = nat] by simp

lemma parse_dotted: "length bs = 4 \<Longrightarrow> parse_ip_to_bytes (dotted bs) = Some bs"
proof -
  assume l: "length bs = 4"
  have d: "CHR ''.'' \<notin> set (show_dec n)" for n using set_show_dec is_digit_not_punct by blast
  have "split_on (CHR ''.'') (dotted bs) = map (\<lambda>b. show_dec (unat b)) bs"
    unfolding dotted_def using l d by (intro split_join) auto
  then show ?thesis using l by (simp add: parse_ip_to_bytes_def list_all_iff unat_u8_bound o_def cong: map_cong)
qed

lemma dhcp_options_one:
  "code \<noteq> 0 \<Longrightarrow> code \<noteq> OPT_END \<Longrightarrow> length data < 256 \<Longrightarrow>
   dhcp_options (code # of_nat (length data) # data @ rest) = (code, data) # dhcp_options rest"
  by (simp add: dhcp_options.simps unat_of_nat take_bit_nat_eq_self)

lemma options_step:
  assumes "code \<noteq> 0" "code \<noteq> OPT_END"
  shows "dhcp_options (code # 1 # a # rest) = (code, [a]) # dhcp_options rest"
    "dhcp_options (code # 3 # a # b # c # rest) = (code, [a, b, c]) # dhcp_options rest"
    "dhcp_options (code # 4 # a # b # c # d # rest) = (code, [a, b, c, d]) # dhcp_options rest"
  using dhcp_options_one [OF assms, of "[a]" rest] dhcp_options_one [OF assms, of "[a, b, c]" rest] dhcp_options_one [OF assms, of "[a, b, c, d]" rest] by simp_all

lemma options_end: "dhcp_options (OPT_END # rest) = []"
  by (simp add: dhcp_options.simps)

lemma header_parts:
  assumes "length xid = 4" "length chaddr = 16"
  shows "length (dhcp_header xid chaddr) = 240" "drop 240 (dhcp_header xid chaddr @ opts) = opts" "byte_range (dhcp_header xid chaddr @ opts) 236 240 = MAGIC_COOKIE"
    "byte_range (dhcp_header xid chaddr @ opts) 4 8 = xid" "byte_range (dhcp_header xid chaddr @ opts) 28 44 = chaddr"
  using assms by (simp_all add: dhcp_header_def MAGIC_COOKIE_def byte_range_def)

lemma packet_options_built:
  "length xid = 4 \<Longrightarrow> length chaddr = 16 \<Longrightarrow> packet_options (dhcp_header xid chaddr @ opts) = dhcp_options opts"
  by (simp add: packet_options_def header_parts)

lemma first_some_in: "first_some f xs = Some y \<Longrightarrow> \<exists>x\<in>set xs. f x = Some y"
  by (induction xs) (auto split: option.splits)

lemma get_option_ip_form: "get_option_ip pkt code = Some t \<Longrightarrow> \<exists>bs. length bs = 4 \<and> t = dotted bs"
proof -
  assume "get_option_ip pkt code = Some t"
  then obtain data where "4 \<le> length data" "t = dotted (take 4 data)"
    unfolding get_option_ip_def by (auto dest!: first_some_in split: if_splits)
  then show ?thesis by (intro exI [of _ "take 4 data"]) simp
qed

lemma ip_option_dotted: "length bs = 4 \<Longrightarrow> ip_option code (Some (dotted bs)) = code # 4 # bs"
  by (simp add: ip_option_def parse_dotted)

lemma request_options:
  assumes "240 \<le> length offer" "length ip = 4"
  shows "packet_options (build_request offer (dotted ip) (get_option_ip offer OPT_SERVER_ID)) =
    (OPT_MSG_TYPE, [DHCP_REQUEST]) # (OPT_REQUESTED_IP, ip) #
      (case get_option_ip offer OPT_SERVER_ID of Some t \<Rightarrow> [(OPT_SERVER_ID, the (parse_ip_to_bytes t))] | None \<Rightarrow> []) @ [(OPT_PARAM_LIST, [1, 3, 6])]"
proof -
  have l: "length (byte_range offer 4 8) = 4" "length (byte_range offer 28 44) = 16" using assms(1) by (simp_all add: byte_range_def)
  obtain a b c d where ip: "ip = [a, b, c, d]" using assms(2) by (auto simp: length_4_conv)
  have tail: "dhcp_options (param_list @ [OPT_END]) = [(OPT_PARAM_LIST, [1, 3, 6])]"
    by (simp add: param_list_def options_step options_end [unfolded OPT_END_def] dhcp_codes)
  show ?thesis
  proof (cases "get_option_ip offer OPT_SERVER_ID")
    case None
    then show ?thesis unfolding build_request_def packet_options_built [OF l] ip_option_dotted [OF assms(2)] None
      by (simp add: ip options_step dhcp_codes ip_option_def tail [unfolded dhcp_codes])
  next
    case (Some t)
    then obtain e f g h where t: "t = dotted [e, f, g, h]" using get_option_ip_form [OF Some] by (auto simp: length_4_conv)
    have "ip_option OPT_SERVER_ID (Some t) = [OPT_SERVER_ID, 4, e, f, g, h]" "the (parse_ip_to_bytes t) = [e, f, g, h]"
      unfolding t by (simp_all add: ip_option_dotted parse_dotted)
    then show ?thesis unfolding build_request_def packet_options_built [OF l] ip_option_dotted [OF assms(2)] Some
      by (simp add: ip options_step dhcp_codes tail [unfolded dhcp_codes])
  qed
qed

text \<open>The mask of a prefix length.\<close>

definition prefix_mask :: "nat \<Rightarrow> u32" where
  "prefix_mask p = NOT (mask (32 - p))"

lemma u32_leading_ones_mask: "p \<le> 32 \<Longrightarrow> u32_leading_ones (prefix_mask p) = of_nat p"
proof -
  have "\<forall>p\<in>set [0..<33]. u32_leading_ones (prefix_mask p) = of_nat p" by code_simp
  moreover assume "p \<le> 32"
  ultimately show ?thesis by simp
qed

lemma mask_to_prefix_exact: "p \<le> 32 \<Longrightarrow> mask_to_prefix (dotted (u32_to_be_bytes (prefix_mask p))) = of_nat p"
  by (simp add: mask_to_prefix_def dotted_show octets_of_show u32_leading_ones_mask Let_def)

section \<open>A server\<close>

text \<open>What a server sends: a reply with the given transaction id, address and hardware address and, in the order of the options, the
  message type, the server's address, the mask, the router and the DNS servers, then the end mark and
  any padding.\<close>

definition server_message :: "u8 \<Rightarrow> bytes \<Rightarrow> bytes \<Rightarrow> bytes \<Rightarrow> nat \<Rightarrow> bytes \<Rightarrow> bytes list \<Rightarrow> bytes \<Rightarrow> bytes" where
  "server_message kind ip chaddr server p router dns pad =
     [2, 1, 6, 0] @ u32_to_be_bytes XID @ [0, 0, 0x80, 0] @ replicate 4 0 @ ip @ replicate 8 0 @ chaddr @ replicate 192 0 @ MAGIC_COOKIE @
     [OPT_MSG_TYPE, 1, kind] @ [OPT_SERVER_ID, 4] @ server @ [OPT_SUBNET_MASK, 4] @ u32_to_be_bytes (prefix_mask p) @ [OPT_ROUTER, 4] @ router @
     [OPT_DNS, of_nat (4 * length dns)] @ concat dns @ [OPT_END] @ pad"

lemma ips_in_concat: "\<forall>d\<in>set dns. length d = 4 \<Longrightarrow> ips_in (concat dns) = map dotted dns"
  by (induction dns) (auto simp: length_4_conv)

lemma length_concat_4: "\<forall>d\<in>set dns. length d = 4 \<Longrightarrow> length (concat dns) = 4 * length dns"
  by (induction dns) auto

lemma server_message_parts:
  fixes kind :: u8 and p :: nat and ip chaddr server router pad :: bytes
  assumes "length ip = 4" "length chaddr = 16" "length server = 4" "length router = 4" "\<forall>d\<in>set dns. length d = 4" "length dns < 64"
  defines "msg \<equiv> server_message kind ip chaddr server p router dns pad"
  shows "reply_ok msg = Inr ()" "byte_range msg 16 20 = ip" "240 \<le> length msg"
    "packet_options msg = [(OPT_MSG_TYPE, [kind]), (OPT_SERVER_ID, server), (OPT_SUBNET_MASK, u32_to_be_bytes (prefix_mask p)), (OPT_ROUTER, router), (OPT_DNS, concat dns)]"
proof -
  define hdr where "hdr = [2, 1, 6, 0] @ u32_to_be_bytes XID @ [0, 0, 0x80, 0] @ replicate 4 0 @ ip @ replicate 8 0 @ chaddr @ replicate 192 0 @ MAGIC_COOKIE"
  define opts where "opts = [OPT_MSG_TYPE, 1, kind] @ [OPT_SERVER_ID, 4] @ server @ [OPT_SUBNET_MASK, 4] @ u32_to_be_bytes (prefix_mask p) @ [OPT_ROUTER, 4] @ router @
     [OPT_DNS, of_nat (4 * length dns)] @ concat dns @ [OPT_END] @ pad"
  have msg: "msg = hdr @ opts" by (simp add: msg_def server_message_def hdr_def opts_def)
  have l: "length hdr = 240" using assms(1,2) by (simp add: hdr_def MAGIC_COOKIE_def)
  have b: "byte_range msg 4 8 = u32_to_be_bytes XID" "byte_range msg 16 20 = ip" "byte_range msg 236 240 = MAGIC_COOKIE" "msg ! 0 = 2"
    using assms(1,2) by (simp_all add: msg hdr_def MAGIC_COOKIE_def byte_range_def)
  show "byte_range msg 16 20 = ip" "240 \<le> length msg" using b l by (simp_all add: msg)
  then show "reply_ok msg = Inr ()" using b by (simp add: reply_ok_def)
  have last: "dhcp_options ([OPT_DNS, of_nat (4 * length dns)] @ concat dns @ [OPT_END] @ pad) = [(OPT_DNS, concat dns)]"
    using dhcp_options_one [of OPT_DNS "concat dns" "OPT_END # pad"] length_concat_4 [OF assms(5)] assms(6)
    by (simp add: options_end [unfolded OPT_END_def] OPT_DNS_def OPT_END_def del: of_nat_mult)
  obtain a b c d e f g h i j k m where q: "server = [a, b, c, d]" "router = [e, f, g, h]" "u32_to_be_bytes (prefix_mask p) = [i, j, k, m]"
    using assms(3,4) length_u32_to_be_bytes [of "prefix_mask p"] by (metis length_4_conv)
  have "dhcp_options opts = [(OPT_MSG_TYPE, [kind]), (OPT_SERVER_ID, server), (OPT_SUBNET_MASK, u32_to_be_bytes (prefix_mask p)), (OPT_ROUTER, router), (OPT_DNS, concat dns)]"
    unfolding opts_def q using last by (simp add: options_step dhcp_codes)
  then show "packet_options msg = [(OPT_MSG_TYPE, [kind]), (OPT_SERVER_ID, server), (OPT_SUBNET_MASK, u32_to_be_bytes (prefix_mask p)), (OPT_ROUTER, router), (OPT_DNS, concat dns)]"
    using b(3) l by (simp add: packet_options_def msg)
qed

section \<open>Properties\<close>

text \<open>The request answers the offer: it reads back as a REQUEST for the offered address, with the server of the offer, its transaction id
  and its hardware address, and it fits the 300 bytes of the buffer.\<close>

theorem dhcp_request_reads_back:
  assumes "240 \<le> length offer"
  defines "request \<equiv> build_request offer (dotted (byte_range offer 16 20)) (get_option_ip offer OPT_SERVER_ID)"
  shows "get_msg_type request = Some DHCP_REQUEST \<and> get_option_ip request OPT_REQUESTED_IP = Some (dotted (byte_range offer 16 20)) \<and>
    get_option_ip request OPT_SERVER_ID = get_option_ip offer OPT_SERVER_ID \<and>
    byte_range request 4 8 = byte_range offer 4 8 \<and> byte_range request 28 44 = byte_range offer 28 44 \<and> length request \<le> 300"
proof -
  have l: "length (byte_range offer 4 8) = 4" "length (byte_range offer 28 44) = 16" "length (byte_range offer 16 20) = 4" using assms(1) by (simp_all add: byte_range_def)
  note o1 = request_options [OF assms(1) l(3), folded request_def]
  have srv: "\<exists>bs. length bs = 4 \<and> t = dotted bs" if "get_option_ip offer OPT_SERVER_ID = Some t" for t using get_option_ip_form [OF that] .
  have len: "length (ip_option code ip) \<le> 6" for code ip
    by (auto simp: ip_option_def parse_ip_to_bytes_def Let_def bind_eq_Some_conv split: option.splits if_splits)
  have "length request \<le> 300"
    using header_parts(1) [OF l(1,2)] len [of OPT_REQUESTED_IP "Some (dotted (byte_range offer 16 20))"] len [of OPT_SERVER_ID "get_option_ip offer OPT_SERVER_ID"]
    by (simp add: request_def build_request_def param_list_def)
  moreover have "byte_range request 4 8 = byte_range offer 4 8" "byte_range request 28 44 = byte_range offer 28 44"
    unfolding request_def build_request_def by (rule header_parts [OF l(1,2)])+
  moreover have "get_msg_type request = Some DHCP_REQUEST" "get_option_ip request OPT_REQUESTED_IP = Some (dotted (byte_range offer 16 20))"
    using l(3) by (simp_all add: get_msg_type_def get_option_ip_def o1 dhcp_codes)
  moreover have "get_option_ip request OPT_SERVER_ID = get_option_ip offer OPT_SERVER_ID"
    using srv l(3) by (cases "get_option_ip offer OPT_SERVER_ID") (auto simp: get_option_ip_def [of request] o1 dhcp_codes parse_dotted)
  ultimately show ?thesis by blast
qed


text \<open>A network that delivers the given datagrams.\<close>

definition scripted_net :: "bytes list dhcp_net" where
  "scripted_net = \<lparr> dn_socket = returnM (), dn_send = (\<lambda>_. returnM ()), dn_timeout = (\<lambda>_. returnM ()),
     dn_recv = (\<lambda>w. case w of [] \<Rightarrow> (Inl (Err ''timeout''), []) | d # ds \<Rightarrow> (Inr d, ds)), dn_mac = (\<lambda>_. None) \<rparr>"


text \<open>The client does not look at the hardware address of a reply, and all clients use the same transaction id: a reply for another client
  is taken like its own, with the same lease.\<close>

theorem foreign_reply_taken:
  assumes "length ip = 4" "length chaddr = 16" "length other = 16" "length server = 4" "length router = 4" "\<forall>d\<in>set dns. length d = 4" "length dns < 64"
  shows "reply_ok (server_message kind ip other server p router dns pad) = Inr () \<and>
    parse_lease (server_message kind ip other server p router dns pad) = parse_lease (server_message kind ip chaddr server p router dns pad)"
  using server_message_parts [OF assms(1,3-7)] server_message_parts [OF assms(1,2,4-7)]
  by (simp add: parse_lease_def get_option_ip_def get_option_ips_def)

end
