(* ===== verification/Process_Manager.thy ===== *)
theory Process_Manager
  imports K3_Action
begin

text \<open>
  The process manager of \<open>k3rsctl\<close> (\<open>cmd/k3rsctl/src/pm\<close>): the registry of components, start, stop, restart and delete, the
  refresh that \<open>status\<close> does, and the watchdog that restarts a component. The registry file is part of
  the state; processes, signals and other files are a parameter. The watchdog is a state machine
  whose states are its sleeps, so that commands of the user can happen in between. The lemmas bound
  the restarts and show what a stop leaves, and what a stop during the back-off comes to.
\<close>

section \<open>Registry (types.rs, registry.rs)\<close>

datatype ComponentName = Server | Agent | Vpc | Ui | All

definition component_key :: "ComponentName \<Rightarrow> string" where
  "component_key c = (case c of Server \<Rightarrow> ''server'' | Agent \<Rightarrow> ''agent'' | Vpc \<Rightarrow> ''vpc'' | Ui \<Rightarrow> ''ui'' | All \<Rightarrow> [])"

definition bin_name :: "ComponentName \<Rightarrow> string" where
  "bin_name c = ''k3rs-'' @ component_key c"

definition resolve :: "ComponentName \<Rightarrow> ComponentName list" where
  "resolve c = (case c of All \<Rightarrow> [Server, Agent, Vpc, Ui] | _ \<Rightarrow> [c])"

datatype ProcessStatus = Process_Running | Process_Stopped | Process_Crashed | Process_Installing | Process_Errored

record ProcessEntry =
  pe_name :: string
  pe_bin_path :: string
  pe_args :: "string list"
  pe_env :: "(string, string) hmap"
  pe_status :: ProcessStatus
  pe_pid :: "u32 option"
  pe_restart_count :: u32
  pe_started_at :: "int option"
  pe_auto_restart :: bool
  pe_max_restarts :: u32
  pe_config_path :: "string option"
  pe_stdout_log :: string
  pe_stderr_log :: string

record PmRegistry =
  reg_version :: u32
  reg_processes :: "(string, ProcessEntry) hmap"

definition PmRegistry_default :: PmRegistry where
  "PmRegistry_default = \<lparr> reg_version = 1, reg_processes = [] \<rparr>"

text \<open>
  \<open>pm_file\<close> is \<open>registry.json\<close>: absent, unreadable, or a registry. The operating system: whether a
  signal reaches a process, the start of a component with its log and PID files, the start of the
  watchdog, signals, the end of the watchdog, file tests and removals, the text of a configuration
  file, and the clock. \<open>os_save\<close> is the outcome of writing the registry, \<open>os_fetch\<close> all that an installation
  does before it registers the component: copying, building or downloading the binary to a path, its
  capabilities, its check, and the default configuration.
\<close>

record 'w pm =
  pm_file :: "PmRegistry result option"
  pm_os :: 'w

datatype pm_signal = SIGTERM | SIGKILL

record 'w pm_env =
  os_home :: string
  os_ensure_dirs :: "('w, unit) act"
  os_fetch :: "ComponentName \<Rightarrow> bool \<Rightarrow> string option \<Rightarrow> string \<Rightarrow> ('w, unit) act"
  os_alive :: "u32 \<Rightarrow> 'w \<Rightarrow> bool"
  os_spawn :: "string \<Rightarrow> ProcessEntry \<Rightarrow> ('w, u32) act"
  os_foreground :: "ProcessEntry \<Rightarrow> ('w, unit) act"
  os_spawn_watchdog :: "string \<Rightarrow> ('w, unit) act"
  os_stop_watchdog :: "string \<Rightarrow> 'w \<Rightarrow> 'w"
  os_signal :: "u32 \<Rightarrow> pm_signal \<Rightarrow> 'w \<Rightarrow> 'w"
  os_pass :: "'w \<Rightarrow> 'w"
  os_exists :: "string \<Rightarrow> 'w \<Rightarrow> bool"
  os_remove :: "string \<Rightarrow> 'w \<Rightarrow> 'w"
  os_read_config :: "string \<Rightarrow> 'w \<Rightarrow> string result"
  os_save :: "'w \<Rightarrow> unit result"
  os_now :: "'w \<Rightarrow> int"

definition pm_base_dir :: "'w pm_env \<Rightarrow> string" where
  "pm_base_dir E = os_home E @ ''/.k3rs/pm''"

definition bins_dir :: "'w pm_env \<Rightarrow> string" where "bins_dir E = pm_base_dir E @ ''/bins''"
definition pids_dir :: "'w pm_env \<Rightarrow> string" where "pids_dir E = pm_base_dir E @ ''/pids''"
definition logs_dir :: "'w pm_env \<Rightarrow> string" where "logs_dir E = pm_base_dir E @ ''/logs''"
definition configs_dir :: "'w pm_env \<Rightarrow> string" where "configs_dir E = pm_base_dir E @ ''/configs''"

definition pid_path :: "'w pm_env \<Rightarrow> string \<Rightarrow> string" where
  "pid_path E key = pids_dir E @ ''/'' @ key @ ''.pid''"

definition on_os :: "('w, 'a) act \<Rightarrow> ('w pm, 'a) act" where
  "on_os m s = (let (x, w) = m (pm_os s) in (x, s\<lparr>pm_os := w\<rparr>))"

definition change_os :: "('w \<Rightarrow> 'w) \<Rightarrow> ('w pm, unit) act" where
  "change_os f = modifyM (\<lambda>s. s\<lparr>pm_os := f (pm_os s)\<rparr>)"

definition pm_load :: "('w pm, PmRegistry) act" where
  "pm_load s = (case pm_file s of None \<Rightarrow> Inr PmRegistry_default | Some r \<Rightarrow> r, s)"

definition pm_save :: "'w pm_env \<Rightarrow> PmRegistry \<Rightarrow> ('w pm, unit) act" where
  "pm_save E reg s = (case os_save E (pm_os s) of Inr _ \<Rightarrow> (Inr (), s\<lparr>pm_file := Some (Inr reg)\<rparr>) | Inl e \<Rightarrow> (Inl e, s))"

definition pm_update :: "'w pm_env \<Rightarrow> (PmRegistry \<Rightarrow> PmRegistry) \<Rightarrow> ('w pm, unit) act" where
  "pm_update E f = bindM pm_load (\<lambda>reg. pm_save E (f reg))"

definition with_entry :: "string \<Rightarrow> (ProcessEntry \<Rightarrow> ProcessEntry) \<Rightarrow> PmRegistry \<Rightarrow> PmRegistry" where
  "with_entry key f reg =
     (case hm_get (reg_processes reg) key of
        Some e \<Rightarrow> reg\<lparr>reg_processes := hm_insert key (f e) (reg_processes reg)\<rparr>
      | None \<Rightarrow> reg)"

definition pm_entry :: "string \<Rightarrow> ('w pm, ProcessEntry option) act" where
  "pm_entry key = bindM pm_load (\<lambda>reg. returnM (hm_get (reg_processes reg) key))"

section \<open>Commands (lifecycle.rs)\<close>

definition args_of_line :: "string \<Rightarrow> string list" where
  "args_of_line line =
     (let trimmed = trim line
      in if trimmed = [] \<or> starts_with trimmed ''#'' then []
         else case split_once (CHR '':'') trimmed of
             None \<Rightarrow> []
           | Some (key, val) \<Rightarrow> if trim val = [] then [] else [''--'' @ trim key, trim val])"

definition build_args_from_config :: "string \<Rightarrow> string list" where
  "build_args_from_config content = concat (map args_of_line (text_lines content))"

definition configure :: "'w pm_env \<Rightarrow> string \<Rightarrow> ProcessEntry \<Rightarrow> ('w pm, unit) act" where
  "configure E key entry =
     (case pe_config_path entry of
        None \<Rightarrow> returnM ()
      | Some path \<Rightarrow>
          bindM (getM (\<lambda>s. (os_exists E path (pm_os s), os_read_config E path (pm_os s)))) (\<lambda>(there, content).
            if there \<and> pe_args entry = [] then
              bindM (liftR content) (\<lambda>content.
              pm_update E (with_entry key (\<lambda>e. e\<lparr>pe_args := [''--config'', path] @ build_args_from_config content\<rparr>)))
            else returnM ()))"

definition mark_running :: "'w pm_env \<Rightarrow> string \<Rightarrow> u32 \<Rightarrow> ('w pm, unit) act" where
  "mark_running E key pid =
     bindM (getM (\<lambda>s. os_now E (pm_os s))) (\<lambda>now.
     pm_update E (with_entry key (\<lambda>e. e\<lparr>pe_pid := Some pid, pe_status := Process_Running, pe_started_at := Some now\<rparr>)))"

definition mark_crashed :: "'w pm_env \<Rightarrow> string \<Rightarrow> ('w pm, unit) act" where
  "mark_crashed E key = pm_update E (with_entry key (\<lambda>e. e\<lparr>pe_status := Process_Crashed, pe_pid := None\<rparr>))"

definition running_pid :: "'w pm_env \<Rightarrow> ProcessEntry \<Rightarrow> 'w \<Rightarrow> u32 option" where
  "running_pid E entry w = (case pe_pid entry of Some pid \<Rightarrow> if os_alive E pid w then Some pid else None | None \<Rightarrow> None)"

text \<open>The entry is read again after the configuration; it is still there, since nothing else removes it meanwhile.\<close>

definition launch :: "'w pm_env \<Rightarrow> string \<Rightarrow> bool \<Rightarrow> ProcessEntry \<Rightarrow> ('w pm, unit) act" where
  "launch E key foreground entry =
     (if foreground then on_os (os_foreground E entry)
      else if pe_auto_restart entry then
        bindM (on_os (os_spawn_watchdog E key)) (\<lambda>_.
        bindM (change_os (os_pass E)) (\<lambda>_.
        bindM pm_load (\<lambda>_. returnM ())))
      else
        bindM (on_os (os_spawn E key entry)) (\<lambda>pid.
        bindM (mark_running E key pid) (\<lambda>_.
        bindM (change_os (os_pass E)) (\<lambda>_.
        bindM (getM (\<lambda>s. os_alive E pid (pm_os s))) (\<lambda>up. if up then returnM () else mark_crashed E key)))))"

definition start_one :: "'w pm_env \<Rightarrow> bool \<Rightarrow> ComponentName \<Rightarrow> ('w pm, unit) act" where
  "start_one E foreground component =
     (let key = component_key component in
      bindM (pm_entry key) (\<lambda>found.
      bindM (liftR (ok_or found (key @ '' is not installed''))) (\<lambda>entry.
      bindM (getM (\<lambda>s. (running_pid E entry (pm_os s), os_exists E (pe_bin_path entry) (pm_os s)))) (\<lambda>(pid, there).
        if pid \<noteq> None then returnM ()
        else if \<not> there then failM (Err ''binary not found'')
        else bindM (configure E key entry) (\<lambda>_.
          bindM (pm_entry key) (\<lambda>found.
          bindM (liftR (ok_or found ''unwrap'')) (launch E key foreground)))))))"

text \<open>Waiting for a process to end, at most \<open>polls\<close> times, then killing it.\<close>

fun await_exit :: "'w pm_env \<Rightarrow> u32 \<Rightarrow> nat \<Rightarrow> 'w \<Rightarrow> 'w" where
  "await_exit E pid 0 w = w"
| "await_exit E pid (Suc polls) w = (if os_alive E pid w then await_exit E pid polls (os_pass E w) else w)"

definition terminate :: "'w pm_env \<Rightarrow> bool \<Rightarrow> nat \<Rightarrow> u32 \<Rightarrow> 'w \<Rightarrow> 'w" where
  "terminate E force polls pid w =
     (if force then os_signal E pid SIGKILL w
      else let w = await_exit E pid polls (os_signal E pid SIGTERM w)
        in if os_alive E pid w then os_pass E (os_signal E pid SIGKILL w) else w)"

definition stop_one :: "'w pm_env \<Rightarrow> bool \<Rightarrow> nat \<Rightarrow> ComponentName \<Rightarrow> ('w pm, unit) act" where
  "stop_one E force polls component =
     (let key = component_key component in
      bindM (pm_entry key) (\<lambda>found.
      bindM (liftR (ok_or found (key @ '' is not registered''))) (\<lambda>entry.
      bindM (getM (\<lambda>s. running_pid E entry (pm_os s))) (\<lambda>running. case running of
          None \<Rightarrow> pm_update E (with_entry key (\<lambda>e. e\<lparr>pe_status := Process_Stopped, pe_pid := None\<rparr>))
        | Some pid \<Rightarrow>
            bindM (change_os (os_stop_watchdog E key)) (\<lambda>_.
            bindM (change_os (terminate E force polls pid)) (\<lambda>_.
            bindM (change_os (os_remove E (pid_path E key))) (\<lambda>_.
            pm_update E (with_entry key (\<lambda>e. e\<lparr>pe_status := Process_Stopped, pe_pid := None, pe_started_at := None\<rparr>)))))))))"

definition delete_one :: "'w pm_env \<Rightarrow> bool \<Rightarrow> bool \<Rightarrow> bool \<Rightarrow> nat \<Rightarrow> ComponentName \<Rightarrow> ('w pm, unit) act" where
  "delete_one E keep_data keep_binary keep_logs polls component =
     (let key = component_key component; drop_file = (\<lambda>path. change_os (os_remove E path)) in
      bindM (pm_entry key) (\<lambda>found. case found of
          None \<Rightarrow> returnM ()
        | Some entry \<Rightarrow>
            bindM (getM (\<lambda>s. running_pid E entry (pm_os s))) (\<lambda>running.
            bindM (whenM (running \<noteq> None) (stop_one E False polls component)) (\<lambda>_.
            bindM (drop_file (pid_path E key)) (\<lambda>_.
            bindM (case pe_config_path entry of Some path \<Rightarrow> drop_file path | None \<Rightarrow> returnM ()) (\<lambda>_.
            bindM (whenM (\<not> keep_binary) (drop_file (pe_bin_path entry))) (\<lambda>_.
            bindM (whenM (\<not> keep_logs) (bindM (drop_file (pe_stdout_log entry)) (\<lambda>_. drop_file (pe_stderr_log entry)))) (\<lambda>_.
            bindM (whenM (\<not> keep_data) (drop_file (os_home E @ ''/.k3rs/data/'' @ key))) (\<lambda>_.
            pm_update E (\<lambda>reg. reg\<lparr>reg_processes := hm_remove key (reg_processes reg)\<rparr>))))))))))"

definition pm_start :: "'w pm_env \<Rightarrow> bool \<Rightarrow> ComponentName \<Rightarrow> ('w pm, unit) act" where
  "pm_start E foreground component = bindM (on_os (os_ensure_dirs E)) (\<lambda>_. forM (resolve component) (start_one E foreground))"

definition pm_stop :: "'w pm_env \<Rightarrow> bool \<Rightarrow> nat \<Rightarrow> ComponentName \<Rightarrow> ('w pm, unit) act" where
  "pm_stop E force polls component = forM (resolve component) (stop_one E force polls)"

definition pm_restart :: "'w pm_env \<Rightarrow> bool \<Rightarrow> nat \<Rightarrow> ComponentName \<Rightarrow> ('w pm, unit) act" where
  "pm_restart E force polls component = bindM (pm_stop E force polls component) (\<lambda>_. pm_start E False component)"

definition pm_delete :: "'w pm_env \<Rightarrow> bool \<Rightarrow> bool \<Rightarrow> bool \<Rightarrow> nat \<Rightarrow> ComponentName \<Rightarrow> ('w pm, unit) act" where
  "pm_delete E keep_data keep_binary keep_logs polls component = forM (resolve component) (delete_one E keep_data keep_binary keep_logs polls)"

section \<open>Installing, status and the dispatch of commands (install.rs, status.rs, list.rs, mod.rs)\<close>

definition installed :: "'w pm_env \<Rightarrow> ComponentName \<Rightarrow> ProcessEntry" where
  "installed E component =
     (let key = component_key component in
      \<lparr> pe_name = key, pe_bin_path = bins_dir E @ ''/'' @ bin_name component, pe_args = [], pe_env = [],
        pe_status = Process_Stopped, pe_pid = None, pe_restart_count = 0, pe_started_at = None, pe_auto_restart = True, pe_max_restarts = 10,
        pe_config_path = Some (configs_dir E @ ''/'' @ key @ ''.yaml''),
        pe_stdout_log = logs_dir E @ ''/'' @ key @ ''.log'', pe_stderr_log = logs_dir E @ ''/'' @ key @ ''-error.log'' \<rparr>)"

definition install_one :: "'w pm_env \<Rightarrow> bool \<Rightarrow> string option \<Rightarrow> ComponentName \<Rightarrow> ('w pm, unit) act" where
  "install_one E from_source bin_path component =
     bindM (on_os (os_fetch E component from_source bin_path (bins_dir E @ ''/'' @ bin_name component))) (\<lambda>_.
     pm_update E (\<lambda>reg. reg\<lparr>reg_processes := hm_insert (component_key component) (installed E component) (reg_processes reg)\<rparr>))"

definition pm_install :: "'w pm_env \<Rightarrow> bool \<Rightarrow> string option \<Rightarrow> ComponentName \<Rightarrow> ('w pm, unit) act" where
  "pm_install E from_source bin_path component =
     bindM (on_os (os_ensure_dirs E)) (\<lambda>_. forM (resolve component) (install_one E from_source bin_path))"

text \<open>What \<open>status\<close> and \<open>list\<close> write back before they print.\<close>

definition refreshed :: "'w pm_env \<Rightarrow> 'w \<Rightarrow> ProcessEntry \<Rightarrow> ProcessEntry" where
  "refreshed E w entry =
     (case pe_pid entry of
        Some pid \<Rightarrow>
          if os_alive E pid w then entry
          else entry\<lparr>pe_status := (if pe_status entry = Process_Running then Process_Crashed else Process_Stopped), pe_pid := None\<rparr>
      | None \<Rightarrow> entry)"

definition pm_list :: "'w pm_env \<Rightarrow> ('w pm, unit) act" where
  "pm_list E =
     bindM pm_load (\<lambda>reg.
     bindM (getM pm_os) (\<lambda>w. pm_save E (reg\<lparr>reg_processes := map (\<lambda>(k, e). (k, refreshed E w e)) (reg_processes reg)\<rparr>)))"

definition pm_status :: "'w pm_env \<Rightarrow> ('w pm, unit) act" where
  "pm_status E = bindM pm_load (\<lambda>reg. if reg_processes reg = [] then returnM () else pm_list E)"

text \<open>The commands that change the registry; the timeout of a stop is the number of polls it allows.\<close>

datatype PmAction =
    Pm_Install ComponentName bool "string option"
  | Pm_Start ComponentName bool
  | Pm_Stop ComponentName bool nat
  | Pm_Restart ComponentName bool nat
  | Pm_List
  | Pm_Delete ComponentName bool bool bool nat
  | Pm_Status

fun pm_handle :: "'w pm_env \<Rightarrow> PmAction \<Rightarrow> ('w pm, unit) act" where
  "pm_handle E (Pm_Install component from_source bin_path) = pm_install E from_source bin_path component"
| "pm_handle E (Pm_Start component foreground) = pm_start E foreground component"
| "pm_handle E (Pm_Stop component force polls) = pm_stop E force polls component"
| "pm_handle E (Pm_Restart component force polls) = pm_restart E force polls component"
| "pm_handle E Pm_List = pm_list E"
| "pm_handle E (Pm_Delete component keep_data keep_binary keep_logs polls) = pm_delete E keep_data keep_binary keep_logs polls component"
| "pm_handle E Pm_Status = pm_status E"

section \<open>The watchdog (watchdog.rs)\<close>

text \<open>Where the watchdog is: about to start the component, asleep while it runs, asleep before a restart with the count it read, gone, or gone
  after an error.\<close>

datatype watchdog = Spawning | Watching u32 | Backing_off u32 | Gone | Failed

definition restart_delay :: "u32 \<Rightarrow> u64" where
  "restart_delay restart_count = min 30 (push_bit (unat (min restart_count 4)) 1)"

definition spawn_turn :: "'w pm_env \<Rightarrow> string \<Rightarrow> ('w pm, watchdog) act" where
  "spawn_turn E key =
     bindM (pm_entry key) (\<lambda>found. case found of
         None \<Rightarrow> returnM Gone
       | Some entry \<Rightarrow>
           bindM (on_os (os_spawn E key entry)) (\<lambda>pid.
           bindM (mark_running E key pid) (\<lambda>_. returnM (Watching pid))))"

definition crash_turn :: "'w pm_env \<Rightarrow> string \<Rightarrow> ('w pm, watchdog) act" where
  "crash_turn E key =
     bindM (pm_entry key) (\<lambda>found. case found of
         None \<Rightarrow> returnM Gone
       | Some entry \<Rightarrow>
           if pe_status entry = Process_Stopped then returnM Gone
           else if \<not> pe_auto_restart entry then bindM (mark_crashed E key) (\<lambda>_. returnM Gone)
           else if 0 < pe_max_restarts entry \<and> pe_max_restarts entry \<le> pe_restart_count entry then bindM (mark_crashed E key) (\<lambda>_. returnM Gone)
           else returnM (Backing_off (pe_restart_count entry)))"

definition watch_turn :: "'w pm_env \<Rightarrow> string \<Rightarrow> u32 \<Rightarrow> ('w pm, watchdog) act" where
  "watch_turn E key pid =
     bindM (getM (\<lambda>s. os_alive E pid (pm_os s))) (\<lambda>up.
       if \<not> up then crash_turn E key
       else bindM (pm_entry key) (\<lambda>found. case found of
           None \<Rightarrow> returnM Gone
         | Some entry \<Rightarrow> returnM (if pe_status entry = Process_Stopped then Gone else Watching pid)))"

definition backoff_turn :: "'w pm_env \<Rightarrow> string \<Rightarrow> u32 \<Rightarrow> ('w pm, watchdog) act" where
  "backoff_turn E key restart_count =
     bindM (pm_update E (with_entry key (\<lambda>e. e\<lparr>pe_restart_count := restart_count + 1, pe_status := Process_Running\<rparr>))) (\<lambda>_. returnM Spawning)"

text \<open>What the watchdog does until its next sleep; an error ends it.\<close>

definition watchdog_turn :: "'w pm_env \<Rightarrow> string \<Rightarrow> watchdog \<Rightarrow> 'w pm \<Rightarrow> watchdog \<times> 'w pm" where
  "watchdog_turn E key d s =
     (let (r, s') = (case d of
          Spawning \<Rightarrow> spawn_turn E key s
        | Watching pid \<Rightarrow> watch_turn E key pid s
        | Backing_off n \<Rightarrow> backoff_turn E key n s
        | Gone \<Rightarrow> (Inr Gone, s)
        | Failed \<Rightarrow> (Inr Failed, s))
      in (case r of Inr d' \<Rightarrow> d' | Inl _ \<Rightarrow> Failed, s'))"

section \<open>What holds of the entries\<close>

definition entries_sat :: "(string \<Rightarrow> ProcessEntry \<Rightarrow> bool) \<Rightarrow> 'w pm \<Rightarrow> bool" where
  "entries_sat R s \<longleftrightarrow> (\<forall>reg k e. pm_file s = Some (Inr reg) \<longrightarrow> hm_get (reg_processes reg) k = Some e \<longrightarrow> R k e)"

text \<open>An update of an entry that changes neither its restart count nor its limit.\<close>

definition limits_kept :: "(ProcessEntry \<Rightarrow> ProcessEntry) \<Rightarrow> bool" where
  "limits_kept f \<longleftrightarrow> (\<forall>e. pe_restart_count (f e) = pe_restart_count e \<and> pe_max_restarts (f e) = pe_max_restarts e)"

definition on_limits :: "(string \<Rightarrow> u32 \<Rightarrow> u32 \<Rightarrow> bool) \<Rightarrow> string \<Rightarrow> ProcessEntry \<Rightarrow> bool" where
  "on_limits R k e = R k (pe_restart_count e) (pe_max_restarts e)"

lemma entries_sat_os [simp]: "entries_sat R (s\<lparr>pm_os := w\<rparr>) = entries_sat R s"
  by (simp add: entries_sat_def)

lemma on_os_keeps [keeps_intro]: "keeps (entries_sat R) (on_os m)"
  by (simp add: keeps_def on_os_def Let_def split: prod.split)

lemma change_os_keeps [keeps_intro]: "keeps (entries_sat R) (change_os f)"
  by (simp add: keeps_def change_os_def modifyM_def)

lemma pm_load_keeps [keeps_intro]: "keeps I pm_load"
  by (simp add: keeps_def pm_load_def)

lemma pm_entry_keeps [keeps_intro]: "keeps I (pm_entry key)"
  unfolding pm_entry_def by (intro keeps_intro)

text \<open>One step of reasoning carries every write: what the update makes of an entry satisfies the predicate.\<close>

lemma pm_update_keeps:
  assumes "\<And>reg k e. \<forall>k e. hm_get (reg_processes reg) k = Some e \<longrightarrow> R k e \<Longrightarrow> hm_get (reg_processes (f reg)) k = Some e \<Longrightarrow> R k e"
  shows "keeps (entries_sat R) (pm_update E f)"
  unfolding keeps_def
proof (intro allI impI)
  fix s :: "'a pm"
  assume inv: "entries_sat R s"
  show "entries_sat R (snd (pm_update E f s))"
  proof (cases "fst (pm_load s)")
    case (Inl e)
    then show ?thesis using inv by (simp add: pm_update_def bindM_def pm_load_def)
  next
    case (Inr reg)
    have "\<forall>k e. hm_get (reg_processes reg) k = Some e \<longrightarrow> R k e"
      using Inr inv by (auto simp: pm_load_def entries_sat_def PmRegistry_default_def split: option.splits)
    then have "\<forall>k e. hm_get (reg_processes (f reg)) k = Some e \<longrightarrow> R k e" using assms by blast
    then show ?thesis using Inr inv
      by (auto simp: pm_update_def bindM_def pm_load_def pm_save_def entries_sat_def split: sum.splits)
  qed
qed

lemma with_entry_keeps:
  assumes "\<And>e. R key e \<Longrightarrow> R key (f e)"
  shows "keeps (entries_sat R) (pm_update E (with_entry key f))"
  by (rule pm_update_keeps) (use assms in \<open>auto simp: with_entry_def hmap_simps split: option.splits if_splits\<close>)

lemma with_limits_keeps: "limits_kept f \<Longrightarrow> keeps (entries_sat (on_limits R)) (pm_update E (with_entry key f))"
  by (rule with_entry_keeps) (simp add: on_limits_def limits_kept_def)

lemma configure_keeps [keeps_intro]: "keeps (entries_sat (on_limits R)) (configure E key entry)"
  unfolding configure_def by (intro keeps_intro with_limits_keeps) (simp add: limits_kept_def)

lemma mark_running_keeps [keeps_intro]: "keeps (entries_sat (on_limits R)) (mark_running E key pid)"
  unfolding mark_running_def by (intro keeps_intro with_limits_keeps) (simp add: limits_kept_def)

lemma mark_crashed_keeps [keeps_intro]: "keeps (entries_sat (on_limits R)) (mark_crashed E key)"
  unfolding mark_crashed_def by (intro keeps_intro with_limits_keeps) (simp add: limits_kept_def)

lemma start_one_keeps [keeps_intro]: "keeps (entries_sat (on_limits R)) (start_one E foreground component)"
  unfolding start_one_def launch_def Let_def by (intro keeps_intro)

lemma stop_one_keeps [keeps_intro]: "keeps (entries_sat (on_limits R)) (stop_one E force polls component)"
  unfolding stop_one_def Let_def by (intro keeps_intro with_limits_keeps) (simp_all add: limits_kept_def)

lemma delete_one_keeps [keeps_intro]: "keeps (entries_sat (on_limits R)) (delete_one E kd kb kl polls component)"
  unfolding delete_one_def Let_def
  by (intro keeps_intro pm_update_keeps) (auto simp: hmap_simps split: if_splits)

lemma install_one_keeps:
  assumes "\<And>k. R k 0 10"
  shows "keeps (entries_sat (on_limits R)) (install_one E from_source bin_path component)"
  unfolding install_one_def
  by (intro keeps_intro pm_update_keeps) (use assms in \<open>auto simp: hmap_simps on_limits_def installed_def Let_def split: if_splits\<close>)

lemma refreshed_limits:
  "pe_restart_count (refreshed E w e) = pe_restart_count e \<and> pe_max_restarts (refreshed E w e) = pe_max_restarts e"
  by (simp add: refreshed_def split: option.split)

lemma pm_list_keeps [keeps_intro]: "keeps (entries_sat (on_limits R)) (pm_list E)"
  unfolding keeps_def
  by (auto simp: pm_list_def bindM_def pm_load_def getM_def pm_save_def entries_sat_def on_limits_def map_of_map refreshed_limits
      PmRegistry_default_def split: option.splits sum.splits)

lemma pm_handle_keeps:
  assumes "\<And>k. R k 0 10"
  shows "keeps (entries_sat (on_limits R)) (pm_handle E c)"
  by (cases c) (auto simp: pm_install_def pm_start_def pm_stop_def pm_restart_def pm_delete_def pm_status_def
      intro!: keeps_intro install_one_keeps assms)

section \<open>The limit on restarts\<close>

text \<open>
  Commands of the user, watchdogs of any component, also several of one, each between its sleeps, and changes of the
  processes around them, in any order. A watchdog appears at any moment and may be killed at any moment.
\<close>

inductive pm_reach :: "'w pm_env \<Rightarrow> 'w \<Rightarrow> (string \<times> watchdog) list \<Rightarrow> 'w pm \<Rightarrow> bool" for E w0 where
  first: "pm_reach E w0 [] \<lparr> pm_file = None, pm_os = w0 \<rparr>"
| command: "pm_reach E w0 ds s \<Longrightarrow> pm_reach E w0 ds (snd (pm_handle E c s))"
| watchdog: "pm_reach E w0 ds s \<Longrightarrow> pm_reach E w0 ((key, Spawning) # ds) s"
| killed: "pm_reach E w0 ds s \<Longrightarrow> set ds' \<subseteq> set ds \<Longrightarrow> pm_reach E w0 ds' s"
| turn: "pm_reach E w0 (xs @ (key, d) # ys) s \<Longrightarrow> watchdog_turn E key d s = (d', s') \<Longrightarrow> pm_reach E w0 (xs @ (key, d') # ys) s'"
| world: "pm_reach E w0 ds s \<Longrightarrow> pm_reach E w0 ds (s\<lparr>pm_os := w\<rparr>)"

definition within :: "string \<Rightarrow> u32 \<Rightarrow> u32 \<Rightarrow> bool" where
  "within k count most \<longleftrightarrow> most = 10 \<and> count \<le> most"

definition backing_below :: "watchdog \<Rightarrow> bool" where
  "backing_below d = (case d of Backing_off n \<Rightarrow> n < 10 | _ \<Rightarrow> True)"

lemma spawn_turn_keeps: "keeps (entries_sat (on_limits R)) (spawn_turn E key)"
  unfolding spawn_turn_def by (intro keeps_intro)

lemma crash_turn_keeps [keeps_intro]: "keeps (entries_sat (on_limits R)) (crash_turn E key)"
  unfolding crash_turn_def by (intro keeps_intro)

lemma watch_turn_keeps: "keeps (entries_sat (on_limits R)) (watch_turn E key pid)"
  unfolding watch_turn_def by (intro keeps_intro)

lemma backoff_turn_keeps: "n < 10 \<Longrightarrow> keeps (entries_sat (on_limits within)) (backoff_turn E key n)"
  unfolding backoff_turn_def by (intro keeps_intro with_entry_keeps) (auto simp: on_limits_def within_def inc_le)

lemma pm_entry_found: "pm_entry key s = (Inr (Some e), s') \<Longrightarrow> entries_sat R s \<Longrightarrow> R key e \<and> s' = s"
  by (auto simp: pm_entry_def bindM_def pm_load_def returnM_def entries_sat_def PmRegistry_default_def split: option.splits sum.splits prod.splits)

lemma crash_turn_below:
  assumes "entries_sat (on_limits within) s" and "crash_turn E key s = (Inr d, s')"
  shows "backing_below d"
proof -
  obtain found s1 where found: "pm_entry key s = (Inr found, s1)"
    using assms(2) unfolding crash_turn_def bindM_Inr by blast
  show ?thesis
  proof (cases found)
    case None
    then show ?thesis using assms(2) found by (simp add: crash_turn_def bindM_step returnM_def backing_below_def)
  next
    case (Some e)
    then have "within key (pe_restart_count e) (pe_max_restarts e)"
      using pm_entry_found [of key s e s1 "on_limits within"] found assms(1) by (simp add: on_limits_def)
    then show ?thesis using assms(2) found Some
      by (auto simp: crash_turn_def bindM_step bindM_Inr returnM_def backing_below_def within_def split: if_splits)
  qed
qed

lemma watch_turn_alive:
  assumes "os_alive E pid (pm_os s)" and "watch_turn E key pid s = (Inr d, s')"
  shows "d = Gone \<or> d = Watching pid"
proof -
  obtain found s1 where "pm_entry key s = (Inr found, s1)"
    using assms by (simp add: watch_turn_def bindM_get bindM_Inr) blast
  then show ?thesis using assms
    by (simp add: watch_turn_def bindM_get bindM_step returnM_def split: option.splits if_splits)
qed

lemma watch_turn_dead: "\<not> os_alive E pid (pm_os s) \<Longrightarrow> watch_turn E key pid s = crash_turn E key s"
  by (simp add: watch_turn_def bindM_get)

lemma watch_turn_below:
  assumes "entries_sat (on_limits within) s" and "watch_turn E key pid s = (Inr d, s')"
  shows "backing_below d"
proof (cases "os_alive E pid (pm_os s)")
  case True
  with watch_turn_alive [OF _ assms(2)] show ?thesis by (auto simp: backing_below_def)
next
  case False
  with crash_turn_below [OF assms(1)] assms(2) show ?thesis by (simp add: watch_turn_dead)
qed

lemma watchdog_turn_within:
  assumes "watchdog_turn E key d s = (d', s')" and "entries_sat (on_limits within) s" and "backing_below d"
  shows "entries_sat (on_limits within) s' \<and> backing_below d'"
proof (cases d)
  case Spawning
  then show ?thesis
    using assms keepsD [OF spawn_turn_keeps assms(2)]
    by (auto simp: watchdog_turn_def Let_def spawn_turn_def bindM_Inr returnM_def backing_below_def split: prod.splits sum.splits option.splits)
next
  case (Watching pid)
  then show ?thesis
    using assms keepsD [OF watch_turn_keeps assms(2)] watch_turn_below [OF assms(2)]
    by (auto simp: watchdog_turn_def Let_def backing_below_def split: prod.splits sum.splits)
next
  case (Backing_off n)
  then have "n < 10" using assms(3) by (simp add: backing_below_def)
  then show ?thesis
    using assms Backing_off keepsD [OF backoff_turn_keeps assms(2)]
    by (auto simp: watchdog_turn_def Let_def backoff_turn_def bindM_Inr returnM_def backing_below_def split: prod.splits sum.splits)
qed (use assms in \<open>auto simp: watchdog_turn_def\<close>)

lemma reach_within: "pm_reach E w0 ds s \<Longrightarrow> entries_sat (on_limits within) s \<and> (\<forall>(key, d) \<in> set ds. backing_below d)"
proof (induction rule: pm_reach.induct)
  case first
  then show ?case by (simp add: entries_sat_def)
next
  case (command ds s c)
  moreover have "within k 0 10" for k by (simp add: within_def)
  ultimately show ?case using keeps_snd [OF pm_handle_keeps [of within]] by blast
next
  case (turn xs key d ys s d' s')
  then show ?case using watchdog_turn_within by fastforce
qed (auto simp: backing_below_def)

text \<open>C37: through any order of commands, watchdog turns (also of several watchdogs of one component), kills and process
  events, starting without a registry, every entry of the registry allows 10 restarts and counts at most 10.\<close>

theorem restarts_bounded:
  assumes "pm_reach E w0 ds s" and "pm_file s = Some (Inr reg)" and "hm_get (reg_processes reg) key = Some e"
  shows "pe_max_restarts e = 10 \<and> pe_restart_count e \<le> 10"
  using reach_within [OF assms(1)] assms(2,3) unfolding entries_sat_def on_limits_def within_def by fastforce


text \<open>A world with two facts: whether a server process runs, and how many were started.\<close>

definition demo_os :: "(bool \<times> u32) pm_env" where
  "demo_os = \<lparr> os_home = ''/root'', os_ensure_dirs = returnM (), os_fetch = (\<lambda>_ _ _ _. returnM ()),
     os_alive = (\<lambda>pid w. fst w \<and> pid = snd w), os_spawn = (\<lambda>_ _ w. (Inr (snd w + 1), (True, snd w + 1))),
     os_foreground = (\<lambda>_. returnM ()), os_spawn_watchdog = (\<lambda>_. returnM ()), os_stop_watchdog = (\<lambda>_ w. w),
     os_signal = (\<lambda>pid _ w. (False, snd w)), os_pass = (\<lambda>w. w), os_exists = (\<lambda>_ _. True), os_remove = (\<lambda>_ w. w),
     os_read_config = (\<lambda>_ _. Inr []), os_save = (\<lambda>_. Inr ()), os_now = (\<lambda>_. 0) \<rparr>"

text \<open>An installed server whose watchdog has restarted it once.\<close>

definition demo_turns :: "watchdog \<times> (bool \<times> u32) pm" where
  "demo_turns =
     (let s1 = snd (pm_handle demo_os (Pm_Install Server False None) \<lparr> pm_file = None, pm_os = (False, 0) \<rparr>);
          (d2, s2) = watchdog_turn demo_os ''server'' Spawning s1;
          (d3, s3) = watchdog_turn demo_os ''server'' d2 (s2\<lparr>pm_os := (False, 1)\<rparr>)
      in watchdog_turn demo_os ''server'' d3 s3)"

lemma turn_alone: "pm_reach E w0 [(key, d)] s \<Longrightarrow> pm_reach E w0 [(key, fst (watchdog_turn E key d s))] (snd (watchdog_turn E key d s))"
  using pm_reach.turn [of E w0 "[]" key d "[]" s] by (simp add: prod_eq_iff)

lemma demo_turns_reach: "pm_reach demo_os (False, 0) [(''server'', fst demo_turns)] (snd demo_turns)"
  unfolding demo_turns_def Let_def case_prod_beta
  by (intro turn_alone pm_reach.world pm_reach.watchdog pm_reach.command pm_reach.first)

theorem restarts_bounded_witness:
  "\<exists>reg e. pm_reach demo_os (False, 0) [(''server'', Spawning)] (snd demo_turns)
     \<and> pm_file (snd demo_turns) = Some (Inr reg) \<and> hm_get (reg_processes reg) ''server'' = Some e
     \<and> pe_restart_count e = 1 \<and> pe_max_restarts e = 10 \<and> pe_restart_count e \<le> 10"
proof -
  have turns: "fst demo_turns = Spawning"
    "(case pm_file (snd demo_turns) of Some (Inr reg) \<Rightarrow> map_option pe_restart_count (hm_get (reg_processes reg) ''server'') | _ \<Rightarrow> None) = Some 1"
    by code_simp+
  then obtain reg e where known: "pm_file (snd demo_turns) = Some (Inr reg)" "hm_get (reg_processes reg) ''server'' = Some e"
    "pe_restart_count e = 1"
    by (auto split: option.splits sum.splits)
  show ?thesis
    using demo_turns_reach known restarts_bounded [OF demo_turns_reach known(1,2)] unfolding turns(1) by blast
qed

section \<open>Stopping\<close>

lemma update_entry:
  assumes "pm_file s = Some (Inr reg)" and "hm_get (reg_processes reg) key = Some e" and "os_save E (pm_os s) = Inr ()"
  shows "pm_update E (with_entry key f) s =
    (Inr (), s\<lparr>pm_file := Some (Inr (reg\<lparr>reg_processes := hm_insert key (f e) (reg_processes reg)\<rparr>))\<rparr>)"
  using assms by (simp add: pm_update_def bindM_def pm_load_def with_entry_def pm_save_def)

lemma pm_entry_known:
  "pm_file s = Some (Inr reg) \<Longrightarrow> pm_entry key s = (Inr (hm_get (reg_processes reg) key), s)"
  by (simp add: pm_entry_def bindM_def pm_load_def returnM_def)

text \<open>A stop in the back-off: the watchdog is not signalled, since the old process is dead, and its next two turns run
  the component again and mark it running.\<close>

theorem stop_in_backoff_is_undone:
  assumes reg: "pm_file s = Some (Inr reg)" and e: "hm_get (reg_processes reg) (component_key c) = Some e"
    and dead: "running_pid E e (pm_os s) = None" and save: "\<And>w. os_save E w = Inr ()"
    and spawn: "\<And>e. os_spawn E (component_key c) e (pm_os s) = (Inr pid, w)"
  shows "\<exists>s1 s2 s3 reg3 e3. stop_one E force polls c s = (Inr (), s1) \<and> pm_os s1 = pm_os s
    \<and> watchdog_turn E (component_key c) (Backing_off n) s1 = (Spawning, s2)
    \<and> watchdog_turn E (component_key c) Spawning s2 = (Watching pid, s3)
    \<and> pm_os s3 = w \<and> pm_file s3 = Some (Inr reg3) \<and> hm_get (reg_processes reg3) (component_key c) = Some e3
    \<and> pe_status e3 = Process_Running \<and> pe_pid e3 = Some pid"
proof -
  define key where "key = component_key c"
  define put where "put f r = r\<lparr>reg_processes := hm_insert key f (reg_processes r)\<rparr>" for f and r :: PmRegistry
  define e1 where "e1 = e\<lparr>pe_status := Process_Stopped, pe_pid := None\<rparr>"
  define e2 where "e2 = e1\<lparr>pe_restart_count := n + 1, pe_status := Process_Running\<rparr>"
  define e3 where "e3 = e2\<lparr>pe_pid := Some pid, pe_status := Process_Running, pe_started_at := Some (os_now E w)\<rparr>"
  define s1 where "s1 = s\<lparr>pm_file := Some (Inr (put e1 reg))\<rparr>"
  define s2 where "s2 = s1\<lparr>pm_file := Some (Inr (put e2 (put e1 reg)))\<rparr>"
  define s3 where "s3 = s2\<lparr>pm_os := w, pm_file := Some (Inr (put e3 (put e2 (put e1 reg))))\<rparr>"
  have "stop_one E force polls c s = (Inr (), s1)"
    using update_entry [OF reg e save] pm_entry_known [OF reg] e dead
    by (simp add: stop_one_def Let_def bindM_step liftR_def ok_or_def getM_def s1_def e1_def put_def key_def)
  moreover have "watchdog_turn E key (Backing_off n) s1 = (Spawning, s2)"
    using update_entry [of s1 "put e1 reg" key e1 E] save
    by (simp add: watchdog_turn_def backoff_turn_def bindM_step returnM_def s1_def s2_def e2_def put_def hmap_simps)
  moreover have "watchdog_turn E key Spawning s2 = (Watching pid, s3)"
    using update_entry [of "s2\<lparr>pm_os := w\<rparr>" "put e2 (put e1 reg)" key e2 E] save spawn
      pm_entry_known [of s2 "put e2 (put e1 reg)" key]
    by (simp add: watchdog_turn_def spawn_turn_def mark_running_def on_os_def bindM_step getM_def returnM_def
        s1_def s2_def s3_def e3_def put_def hmap_simps key_def)
  ultimately show ?thesis
    unfolding key_def [symmetric]
    by (intro exI [of _ s1] exI [of _ s2] exI [of _ s3] exI [of _ "put e3 (put e2 (put e1 reg))"] exI [of _ e3])
      (simp add: s1_def s3_def e3_def put_def hmap_simps)
qed

text \<open>A watchdog whose process answers signals stays as it is: it never waits for its child, so a crashed child
  remains a zombie that the signal test still finds, and is not restarted.\<close>

theorem zombie_never_restarted:
  assumes "os_alive E pid (pm_os s)" and "pm_file s = Some (Inr reg)"
    and "hm_get (reg_processes reg) key = Some e" and "pe_status e \<noteq> Process_Stopped"
  shows "watchdog_turn E key (Watching pid) s = (Watching pid, s)"
  using assms by (simp add: watchdog_turn_def watch_turn_def bindM_get bindM_step pm_entry_known [of s reg key] returnM_def)

text \<open>The back-off doubles up to the fifth restart and stays at 16 seconds, below the bound it is capped with.\<close>

theorem restart_delay_bounds: "1 \<le> restart_delay n \<and> restart_delay n \<le> 16 \<and> (4 \<le> n \<longrightarrow> restart_delay n = 16)"
proof (cases "4 \<le> n")
  case True
  then have "min n 4 = 4" by simp
  then show ?thesis by (simp add: restart_delay_def push_bit_eq_mult)
next
  case False
  then have "unat n = 0 \<or> unat n = 1 \<or> unat n = 2 \<or> unat n = 3" by (simp add: word_le_nat_alt) arith
  then have "n \<in> {0, 1, 2, 3}" by (simp add: word_unat_eq_iff)
  then show ?thesis by (auto simp: restart_delay_def push_bit_eq_mult)
qed

end
