(* ===== verification/Spec2Isabelle.thy ===== *)
theory Spec2Isabelle
  imports Leader_Election Pod_Scheduler Vpc_Daemon Ebpf_Nat64 Replicaset_Controller Deployment_Controller Node_Controllers
    Hpa_Controller Daemonset_Controller Endpoint_Controller Job_Controllers Vpc_Api Node_Api Resource_Api
    Backup_Restore Dns_Server Pod_Network Agent_Recovery Route_Sync Mac_Switch Dhcp_Client Process_Manager
begin

text \<open>
  Verification of k3rs, a Kubernetes-like orchestrator in Rust: what its parts do, part by part, and what they
  guarantee together.

  \<^bold>\<open>The program.\<close> A server keeps the cluster's resources as JSON values in an embedded database with a log
  of events (\<open>pkg/state\<close>). Its API (\<open>pkg/api\<close>) writes them, its controllers (\<open>pkg/controllers\<close>) move them towards what was asked
  for, with the scheduler (\<open>pkg/scheduler\<close>) choosing nodes, and of several servers one leads through a lease. An agent on every
  node (\<open>cmd/k3rs-agent\<close>) registers, sends heartbeats, runs the pods assigned to it through the container runtime (\<open>pkg/container\<close>), an OCI
  binary or Firecracker microVMs, and serves DNS (\<open>pkg/network\<close>) and a service proxy (\<open>pkg/proxy\<close>) from a cache of what the server said. Beside
  it the VPC daemon (\<open>cmd/k3rs-vpc\<close>) allocates Ghost IPv6 addresses (\<open>pkg/vpc\<close>), which carry the VPC and the IPv4 address of a pod, and keeps the maps of
  the eBPF programs (\<open>cmd/k3rs-vpc-ebpf\<close>) that translate packets and separate VPCs. \<open>k3rsctl\<close> manages processes on a host, and \<open>k3rs-init\<close> runs inside a VM.

  \<^bold>\<open>How it is modelled.\<close> Structs are records, enums datatypes, machine integers words of their width. Code that
  changes state is an action (\<open>K3_Action\<close>): it takes the state and gives a result, an error or a value, with the state it
  leaves, on failure too. Hash maps are association lists (\<open>hm_get\<close>, \<open>hm_insert\<close>, \<open>hm_remove\<close>); whatever the code does in their order is stated
  for every order. Libraries, the kernel, other programs, files, clocks and random numbers are parameters, records of
  functions, with what the code relies on as the assumptions of a locale: \<open>slatedb\<close>, \<open>slatedb_scan\<close>, \<open>registry\<close>, \<open>vpc_db\<close>, \<open>bpf_kernel\<close>, \<open>bpf_kernel_room\<close>, \<open>tc_kernel\<close>,
  \<open>oci_binary\<close>. Interfaces between parts of the program are locales as well, discharged by the definitions of the provider:
  \<open>peering_enforcer\<close> by the eBPF enforcer, \<open>node_backends\<close> by the OCI and the Firecracker backend on every host that is a \<open>node_host\<close>. Each has an
  interpretation, the assumptions on libraries on an implementation in memory, so none is empty.

  \<^bold>\<open>Theories and sources.\<close>
  \<^item> \<open>K3_Prelude\<close>, \<open>K3_Action\<close>: the standard library as the sources use it (strings, numbers, hash maps, results), actions
    and their triples. \<open>K3_Types\<close>: \<open>pkg/types\<close>. \<open>Ipv6_Text\<close>, \<open>Cidr\<close>: addresses and ranges as text.
  \<^item> \<open>State_Store\<close>, \<open>Leader_Election\<close> (\<open>pkg/state\<close>), \<open>Registry\<close> (the codecs and keys), \<open>Pod_Scheduler\<close> (\<open>pkg/scheduler\<close>). The log replays to the
    content; at most one server leads while turns are atomic, and two can when a turn is interrupted; a chosen node
    is eligible.
  \<^item> \<open>Controller_Base\<close>, \<open>Replicaset_Controller\<close>, \<open>Deployment_Controller\<close>, \<open>Node_Controllers\<close>, \<open>Hpa_Controller\<close>, \<open>Daemonset_Controller\<close>, \<open>Endpoint_Controller\<close>,
    \<open>Job_Controllers\<close> (\<open>pkg/controllers\<close>): what one pass leaves in the store.
  \<^item> \<open>Api_Base\<close>, \<open>Vpc_Api\<close>, \<open>Node_Api\<close>, \<open>Resource_Api\<close>, \<open>Backup_Restore\<close> (\<open>pkg/api\<close>): what each handler answers and stores, which requests need which
    token, that VPCs stay disjoint, that a restore brings back a backup.
  \<^item> \<open>Ghost_IPv6\<close> (\<open>pkg/vpc\<close>), \<open>Ghost_Allocator\<close>, \<open>Vpc_Store\<close>, \<open>Vpc_Enforcer\<close>, \<open>Vpc_Daemon\<close>, \<open>Vpc_Protocol\<close> (\<open>cmd/k3rs-vpc\<close>): addresses of different VPCs never
    meet, a restart recovers every allocation, and the map of peerings follows the server's list.
  \<^item> \<open>Ebpf_Packet\<close>, \<open>Ebpf_Programs\<close>, \<open>Ebpf_Checksum\<close>, \<open>Ebpf_Isolation\<close>, \<open>Ebpf_Translation\<close>, \<open>Ebpf_Pods\<close>, \<open>Ebpf_Nat64\<close> (\<open>cmd/k3rs-vpc-ebpf\<close>, \<open>k3rs-vpc-common\<close>): the
    classifiers on packet bytes; isolation, the guard against spoofing, translation and its way back.
  \<^item> \<open>Container_Runtime\<close>, \<open>Oci_Backend\<close>, \<open>Firecracker_Api\<close>, \<open>Firecracker\<close> (\<open>pkg/container\<close>): the table of containers, the two backends; a restart
    finds exactly the VMs that live.
  \<^item> \<open>Agent_State\<close>, \<open>Agent_Loops\<close>, \<open>Agent_Recovery\<close>, \<open>Route_Sync\<close> (\<open>cmd/k3rs-agent\<close>), \<open>Service_Proxy\<close> (\<open>pkg/proxy\<close>), \<open>Dns_Server\<close>, \<open>Pod_Network\<close>, \<open>Mac_Switch\<close> (\<open>pkg/network\<close>): the
    agent's loops and what they give to DNS, proxies and containers.
  \<^item> \<open>Dhcp_Client\<close> (\<open>cmd/k3rs-init\<close>), \<open>Process_Manager\<close> (\<open>cmd/k3rsctl/src/pm\<close>).
  \<^item> This theory: what holds across parts, from the peerings the server lists to the decision on a packet, and from
    eviction to the scheduler.

  \<^bold>\<open>Steps.\<close> A reconcile pass, a handler, a socket request and a turn of a loop are one action each; what another
  task of the same process does between two of its awaits is not interleaved, except where the code's correctness is about that: the
  interrupted turns of \<open>Leader_Election\<close>, the tasks of \<open>Agent_Loops\<close> and the watchdog of \<open>Process_Manager\<close>, which are step relations. Sequences of
  steps are reflexive transitive closures or inductive predicates, and invariants are proved by induction over them.

  \<^bold>\<open>Loops and bounds.\<close> Loops over data are structural recursion. The search of the Ghost allocator may run through all
  offsets and is a partial function with a proof that it ends, with an address or because none is free; the
  parsers with an index have termination proofs on the remaining input. Loops with a deadline poll a fixed number of times, as
  in the code: 100 polls for the socket of Firecracker, three attempts of DHCP, the polls of the process manager's stop. Endless
  loops are modelled turn by turn. Arithmetic is that of a release build: it wraps.

  \<^bold>\<open>Approximations.\<close> Error texts keep the kind of the error, not the formatting; logging and metrics are left out. Strings are
  lists of bytes and ASCII where the code cuts them by position. Times are integers of nanoseconds.

  \<^bold>\<open>Not modelled.\<close> Starting threads and sockets, HTTP, TLS and routing tables; downloads of images and binaries, unpacking of
  layers; mounts, netlink and ioctl calls (bridges, namespaces, WireGuard, utun, most of \<open>k3rs-init\<close>); the macOS VM backend and \<open>k3rs-vmm\<close>, which
  are glue over a framework; streams of exec and logs; the API handlers for kinds that repeat the pattern of the modelled ones; the web
  interface, the development launcher and the commands of \<open>k3rsctl\<close> that print what the API answers. In these the
  work is done by a library or by the kernel, and a model would restate the call.
\<close>

section \<open>Across components\<close>


text \<open>A packet from VPC 5 to VPC 6 on the node of a daemon that has seen the peering \<open>web-db\<close>.\<close>

definition peered_node :: "bytes tc" where
  "peered_node = (node_state (frame_v6 (construct GHOST_PREFIX 1 5 10) (construct GHOST_PREFIX 1 6 20)))
     \<lparr>PEERINGS := peering_map (mem_view (kern (vd_enf (snd (mem_pass [web_db] mem_vpcd0)))))\<rparr>"

lemma mem_pass_map: "peering_map (mem_view (kern (vd_enf (snd (mem_pass [web_db] mem_vpcd0))))) \<lparr> src_vpc_id = 5, dst_vpc_id = 6 \<rparr> = Some 1"
proof -
  let ?E = "EbpfEnforcer_ops mem_kernel" and ?e = "EbpfEnforcer_new PLATFORM_PREFIX 1 empty_kernel"
  have "vd_enf (snd (mem_pass [web_db] mem_vpcd0)) =
      snd (sync_peering_rules ?E [vpc_web, vpc_db6] [web_db] [] (snd (sync_vpc_rules ?E [vpc_web, vpc_db6] [] ?e)))"
    unfolding mem_pass_def
    by (subst sync_pass_enf(1) [OF surjective_pairing sync_rules_Inr(1) sync_rules_Inr(2)]) (simp add: mem_vpcd0_def)
  moreover define e1 where "e1 = snd (sync_vpc_rules ?E [vpc_web, vpc_db6] [] ?e)"
  have "keeps (membpf.peerings_same Map.empty []) (sync_vpc_rules ?E [vpc_web, vpc_db6] [])"
    unfolding sync_vpc_rules_def EbpfEnforcer_ops_def NetworkEnforcer.select_convs
    by (intro keeps_intro membpf.ebpf_ensure_same membpf.ebpf_remove_vpc_same)
  then have "membpf.peerings_same Map.empty [] e1"
    unfolding keeps_def e1_def by (rule allE [of _ ?e]) (simp add: membpf.peerings_same_def EbpfEnforcer_new_def empty_kernel_def mem_view_def)
  then have "hm_get (mk_peerings (kern e1)) = Map.empty" "peering_to_keys e1 = []" by (simp_all add: membpf.peerings_same_def mem_view_def)
  then have "peering_map (mem_view (kern (snd (sync_peering_rules ?E [vpc_web, vpc_db6] [web_db] [] e1)))) \<lparr> src_vpc_id = 5, dst_vpc_id = 6 \<rparr> = Some 1"
    by (simp add: sync_peering_rules_def web_db_active refresh_peering_def EbpfEnforcer_ops_def ebpf_remove_peering_rules_def
        ebpf_install_peering_rules_def action_defs on_kern_def mem_kernel_def mem_view_def direction_keys_def hmap_simps)
      (simp add: web_db_def vpc_web_def vpc_db6_def vpc_24_def action_defs on_kern_def hmap_simps)
  ultimately show ?thesis by (simp add: e1_def)
qed

lemma peered_node_ok: "tc_egress_v6 mem_helpers peered_node = (TC_ACT_OK, peered_node)"
proof -
  have "passes (PEERINGS peered_node) (skb peered_node)"
    by (simp add: peered_node_def node_state_def frame_v6_fields passes_def may_talk_def ghost_addr_construct mem_pass_map)
  moreover have "54 \<le> length (skb peered_node)" by (simp add: peered_node_def node_state_def frame_v6_fields)
  ultimately show ?thesis using memtc.enforce_v6_ok [of peered_node] by (simp add: tc_egress_v6_def fail_open_def)
qed


text \<open>C23: a pod the eviction controller resets stays where it is: a pod of a ReplicaSet that has no more
  pods than it asks for, on a failed node, is Pending and without a node after the eviction pass, and a
  completed pass of the ReplicaSet controller over its namespace leaves it so, since the controller
  counts it as one of the replicas and only schedules pods it creates.\<close>

theorem evicted_pod_stuck:
  assumes "registry D content C" and "eviction_reconcile D C E w = (Inr (), w1)"
    and "rs_reconcile_namespace D C E ns w1 = (Inr (), w2)"
  defines "pods \<equiv> \<lambda>w :: ('db, 'v) world. entries_in (Pod_codec C) (pods_prefix ns) (content (StateStore_db w))"
    and "rsets \<equiv> \<lambda>w :: ('db, 'v) world. entries_in (ReplicaSet_codec C) (replicasets_prefix ns) (content (StateStore_db w))"
  assumes "\<And>k1 k2 rs1 rs2. rsets w k1 = Some rs1 \<Longrightarrow> rsets w k2 = Some rs2 \<Longrightarrow> ReplicaSet_id rs1 = ReplicaSet_id rs2 \<Longrightarrow> k1 = k2"
    and "\<And>k rs. rsets w k = Some rs \<Longrightarrow> card (dom (owned_by Pod_owner_ref (ReplicaSet_id rs) (pods w))) < 2 ^ 32"
    and "fresh_ids E (uuid_draws w1) (uuid_draws w2) (dom (pods w))"
    and rs: "rsets w rk = Some rs"
    and few: "finite (dom (pods w))" "card (dom (owned_by Pod_owner_ref (ReplicaSet_id rs) (pods w))) \<le> unat (ReplicaSetSpec_replicas (ReplicaSet_spec rs))"
    and pod: "pods w k = Some pod" "Pod_owner_ref pod = Some (ReplicaSet_id rs)" "Pod_status pod \<notin> {Pod_Pending, Pod_Succeeded, Pod_Failed}"
    and node: "entries_in (Node_codec C) nodes_prefix (content (StateStore_db w)) nk = Some node" "Pod_node_name pod = Some (Node_name node)"
      "failed_node (utc_now E (clock_reads w)) node"
  shows "pods w2 k = Some (evicted pod) \<and> Pod_node_name (evicted pod) = None \<and> Pod_status (evicted pod) = Pod_Pending"
proof -
  have P: "entries_in (Pod_codec C) (pods_prefix ns) (content (StateStore_db w)) = pods w" for w by (simp add: pods_def)
  have S: "entries_in (ReplicaSet_codec C) (replicasets_prefix ns) (content (StateStore_db w)) = rsets w" for w by (simp add: rsets_def)
  note ev = eviction_namespace [OF assms(1,2), of ns, unfolded P]
  have rsets: "rsets w1 = rsets w" unfolding rsets_def
    by (rule entries_in_cong) (rule registry.eviction_ok(2) [OF assms(1,2)], auto simp: all_pods_prefix_def replicasets_prefix_def prefix_def)
  have own: "Pod_owner_ref (if b then evicted x else x) = Pod_owner_ref x" for b x by (simp add: evicted_def)
  have same: "owned_by Pod_owner_ref i (pods w1) = (\<lambda>k. map_option (\<lambda>pod. if (\<exists>n\<in>registry.failed_names content C (utc_now E (clock_reads w)) w. Pod_node_name pod = Some n) \<and>
      Pod_status pod \<notin> {Pod_Pending, Pod_Succeeded, Pod_Failed} then evicted pod else pod) (owned_by Pod_owner_ref i (pods w) k))" for i
    unfolding ev by (rule owned_by_map) (rule own)
  have d: "dom (owned_by Pod_owner_ref i (pods w1)) = dom (owned_by Pod_owner_ref i (pods w))" "dom (pods w1) = dom (pods w)" for i
    by (unfold same, rule dom_map_option_fun, unfold ev, rule dom_map_option_fun)
  note R = registry.rs_namespace_ok(1) [OF assms(1,3), unfolded P S rsets]
  have "rs_goal rs (owned_by Pod_owner_ref (ReplicaSet_id rs) (pods w1)) (owned_by Pod_owner_ref (ReplicaSet_id rs) (pods w2))"
    by (rule R) (use assms(6-8) rs d in \<open>simp_all\<close>)
  moreover have "owned_by Pod_owner_ref (ReplicaSet_id rs) (pods w1) k = Some (evicted pod)"
    using pod node by (auto simp: same owned_by_def registry.failed_names_def [OF assms(1)])
  moreover have "finite (dom (owned_by Pod_owner_ref (ReplicaSet_id rs) (pods w1)))"
    by (rule finite_subset [OF _ few(1)]) (auto simp: d owned_by_Some)
  ultimately have "owned_by Pod_owner_ref (ReplicaSet_id rs) (pods w2) k = Some (evicted pod)"
    using few(2) d(1) by (metis rs_goal_keeps)
  then show ?thesis by (simp add: owned_by_Some evicted_def)
qed

text \<open>One replica requested, and it ran on a node silent for 400 seconds.\<close>

definition stuck_rs :: ReplicaSet where
  "stuck_rs = web_rs\<lparr>ReplicaSet_spec := (ReplicaSet_spec web_rs)\<lparr>ReplicaSetSpec_replicas := 1\<rparr>\<rparr>"

definition stuck_pod :: Pod where
  "stuck_pod = web_pod\<lparr>Pod_node_name := Some ''n1'', Pod_status := Pod_Running\<rparr>"

definition stuck_world :: "((string \<times> json) list, json) world" where
  "stuck_world = mem_world [(''/registry/nodes/n1'', V_Node ((sample_node ''n1'')\<lparr>Node_status := Node_Unknown\<rparr>)),
     (''/registry/nodes/n2'', V_Node (sample_node ''n2'')),
     (''/registry/replicasets/default/web'', V_ReplicaSet stuck_rs), (''/registry/pods/default/web-0'', V_Pod stuck_pod)]"

definition stuck1 :: "unit result \<times> ((string \<times> json) list, json) world" where
  "stuck1 = eviction_reconcile mem_slatedb tag_serde late_env stuck_world"

definition stuck2 :: "unit result \<times> ((string \<times> json) list, json) world" where
  "stuck2 = rs_reconcile_namespace mem_slatedb tag_serde late_env ''default'' (snd stuck1)"

lemma stuck_runs: "fst stuck1 = Inr ()" "fst stuck2 = Inr ()" "uuid_draws (snd stuck1) = 0" "uuid_draws (snd stuck2) = 0"
  by code_simp+

lemma stuck_entries:
  "entries_in (ReplicaSet_codec tag_serde) (replicasets_prefix ''default'') (map_of (StateStore_db stuck_world)) = [''/registry/replicasets/default/web'' \<mapsto> stuck_rs]"
  "entries_in (Pod_codec tag_serde) (pods_prefix ''default'') (map_of (StateStore_db stuck_world)) = [''/registry/pods/default/web-0'' \<mapsto> stuck_pod]"
  "entries_in (Node_codec tag_serde) nodes_prefix (map_of (StateStore_db stuck_world)) ''/registry/nodes/n1'' = Some ((sample_node ''n1'')\<lparr>Node_status := Node_Unknown\<rparr>)"
  by (auto simp: fun_eq_iff entries_in_def stuck_world_def mem_world_def key_defs tag_serde_def tag_codec_def ok_or_def)

theorem evicted_pod_stuck_witness:
  "fst stuck1 = Inr () \<and> fst stuck2 = Inr () \<and>
   entries_in (Pod_codec tag_serde) (pods_prefix ''default'') (map_of (StateStore_db (snd stuck2))) ''/registry/pods/default/web-0'' = Some (evicted stuck_pod)"
proof -
  have run: "eviction_reconcile mem_slatedb tag_serde late_env stuck_world = (Inr (), snd stuck1)"
    "rs_reconcile_namespace mem_slatedb tag_serde late_env ''default'' (snd stuck1) = (Inr (), snd stuck2)"
    using stuck_runs(1,2) by (metis prod.collapse stuck1_def, metis prod.collapse stuck2_def)
  have id: "ReplicaSet_id stuck_rs = ''rs1''" by (simp add: stuck_rs_def web_rs_def)
  have own: "owned_by Pod_owner_ref ''rs1'' [''/registry/pods/default/web-0'' \<mapsto> stuck_pod] = [''/registry/pods/default/web-0'' \<mapsto> stuck_pod]"
    by (auto simp: owned_by_def web_pod_def stuck_pod_def fun_eq_iff)
  have few: "card (dom (owned_by Pod_owner_ref ''rs1'' [''/registry/pods/default/web-0'' \<mapsto> stuck_pod])) \<le> unat (ReplicaSetSpec_replicas (ReplicaSet_spec stuck_rs))"
    unfolding own by (simp add: stuck_rs_def web_rs_def)
  have fresh: "fresh_ids late_env (uuid_draws (snd stuck1)) (uuid_draws (snd stuck2)) {''/registry/pods/default/web-0''}"
    by (simp add: fresh_ids_def stuck_runs)
  have pod: "Pod_owner_ref stuck_pod = Some ''rs1''" "Pod_status stuck_pod \<notin> {Pod_Pending, Pod_Succeeded, Pod_Failed}"
    "Pod_node_name stuck_pod = Some (Node_name ((sample_node ''n1'')\<lparr>Node_status := Node_Unknown\<rparr>))"
    by (simp_all add: stuck_pod_def web_pod_def sample_node_def)
  have failed: "failed_node (utc_now late_env (clock_reads stuck_world)) ((sample_node ''n1'')\<lparr>Node_status := Node_Unknown\<rparr>)"
    by (simp add: late_env_def failed_node_def sample_node_def is_master_def age_since_def secs_def grace_period_def hmap_simps)
  note T = evicted_pod_stuck [OF memreg.registry_axioms run, of "''/registry/replicasets/default/web''" stuck_rs "''/registry/pods/default/web-0''" stuck_pod
      "''/registry/nodes/n1''" "(sample_node ''n1'')\<lparr>Node_status := Node_Unknown\<rparr>", unfolded stuck_entries id]
  have "card (dom (owned_by Pod_owner_ref i [''/registry/pods/default/web-0'' \<mapsto> stuck_pod])) < 2 ^ 32" for i
    by (simp add: owned_by_put)
  with few fresh pod failed show ?thesis
    by (intro conjI stuck_runs(1,2) conjunct1 [OF T]) (auto split: if_splits)
qed


end
